(* ===== verification/Prelude.thy ===== *)
theory Prelude
  imports Main "HOL-Library.Monad_Syntax"
begin

text \<open>
  The vocabulary every component theory shares.

  Programs that raise and change state are state transformers returning a sum:
  \<^term>\<open>Inl e\<close> is a raised exception, \<^term>\<open>Inr a\<close> a returned value.  The state
  after an exception is the state at the raise: as in Python, an exception does
  not undo assignments.  The section on \<open>wp\<close> holds the weakest preconditions the
  component proofs run on, the section on \<open>keeps\<close> the frame rules, and the last
  one generic facts on lists and maps.
\<close>

named_theorems wp_simps \<open>weakest precondition equations of the program combinators\<close>
named_theorems run \<open>equations that run the program combinators on a state\<close>
named_theorems raises_intros \<open>rules for what an operation can raise\<close>
named_theorems moves_intros \<open>rules for what an operation does to the state: a preorder from the state before to the state after\<close>
named_theorems keeps_intros \<open>frame rules: an operation keeps the value of a state observation\<close>

section \<open>Programs with exceptions and state\<close>

type_synonym ('s, 'e, 'a) prog = "'s \<Rightarrow> ('e + 'a) \<times> 's"

definition ret :: "'a \<Rightarrow> ('s, 'e, 'a) prog" where
  "ret a = (\<lambda>s. (Inr a, s))"

definition throw :: "'e \<Rightarrow> ('s, 'e, 'a) prog" where
  "throw e = (\<lambda>s. (Inl e, s))"

definition bnd :: "('s, 'e, 'a) prog \<Rightarrow> ('a \<Rightarrow> ('s, 'e, 'b) prog) \<Rightarrow> ('s, 'e, 'b) prog" where
  "bnd m f = (\<lambda>s. case m s of (Inl e, s') \<Rightarrow> (Inl e, s') | (Inr a, s') \<Rightarrow> f a s')"

definition thn :: "('s, 'e, 'a) prog \<Rightarrow> ('s, 'e, 'b) prog \<Rightarrow> ('s, 'e, 'b) prog" where
  "thn m n = bnd m (\<lambda>_. n)"

definition tryE :: "('s, 'e, 'a) prog \<Rightarrow> ('e \<Rightarrow> ('s, 'f, 'a) prog) \<Rightarrow> ('s, 'f, 'a) prog" where
  "tryE m h = (\<lambda>s. case m s of (Inl e, s') \<Rightarrow> h e s' | (Inr a, s') \<Rightarrow> (Inr a, s'))"

text \<open>\<open>attempt m\<close> hands the outcome on as a value.\<close>

definition attempt :: "('s, 'e, 'a) prog \<Rightarrow> ('s, 'f, 'e + 'a) prog" where
  "attempt m = (\<lambda>s. case m s of (r, s') \<Rightarrow> (Inr r, s'))"

text \<open>\<open>finallyE m f\<close> runs \<open>f\<close> on both exits; an exception of \<open>f\<close> replaces the outcome.\<close>

definition finallyE :: "('s, 'e, 'a) prog \<Rightarrow> ('s, 'e, unit) prog \<Rightarrow> ('s, 'e, 'a) prog" where
  "finallyE m f = (\<lambda>s. case m s of (r, s') \<Rightarrow>
     (case f s' of (Inl e, s'') \<Rightarrow> (Inl e, s'') | (Inr _, s'') \<Rightarrow> (r, s'')))"

definition getS :: "('s \<Rightarrow> 'a) \<Rightarrow> ('s, 'e, 'a) prog" where
  "getS f = (\<lambda>s. (Inr (f s), s))"

definition modS :: "('s \<Rightarrow> 's) \<Rightarrow> ('s, 'e, unit) prog" where
  "modS f = (\<lambda>s. (Inr (), f s))"

definition liftE :: "'e + 'a \<Rightarrow> ('s, 'e, 'a) prog" where
  "liftE r = (\<lambda>s. (r, s))"

definition whenE :: "bool \<Rightarrow> ('s, 'e, unit) prog \<Rightarrow> ('s, 'e, unit) prog" where
  "whenE b m = (if b then m else ret ())"

primrec forM :: "'a list \<Rightarrow> ('a \<Rightarrow> ('s, 'e, unit) prog) \<Rightarrow> ('s, 'e, unit) prog" where
  "forM [] f = ret ()"
| "forM (x # xs) f = thn (f x) (forM xs f)"

primrec mapM :: "'a list \<Rightarrow> ('a \<Rightarrow> ('s, 'e, 'b) prog) \<Rightarrow> ('s, 'e, 'b list) prog" where
  "mapM [] f = ret []"
| "mapM (x # xs) f = bnd (f x) (\<lambda>y. bnd (mapM xs f) (\<lambda>ys. ret (y # ys)))"

text \<open>\<open>foldM f a xs\<close> is a for loop with an accumulator.\<close>

primrec foldM :: "('a \<Rightarrow> 'b \<Rightarrow> ('s, 'e, 'b) prog) \<Rightarrow> 'a list \<Rightarrow> 'b \<Rightarrow> ('s, 'e, 'b) prog" where
  "foldM f [] b = ret b"
| "foldM f (x # xs) b = bnd (f x b) (\<lambda>b'. foldM f xs b')"

text \<open>Sum-valued pure code: sequencing and traversal.\<close>

definition bindE :: "'e + 'a \<Rightarrow> ('a \<Rightarrow> 'e + 'b) \<Rightarrow> 'e + 'b" where
  "bindE m f = (case m of Inl e \<Rightarrow> Inl e | Inr a \<Rightarrow> f a)"

primrec mapE :: "('a \<Rightarrow> 'e + 'b) \<Rightarrow> 'a list \<Rightarrow> 'e + 'b list" where
  "mapE f [] = Inr []"
| "mapE f (x # xs) = bindE (f x) (\<lambda>y. bindE (mapE f xs) (\<lambda>ys. Inr (y # ys)))"

lemma bindE_simps [simp]:
  "bindE (Inl e) f = Inl e" "bindE (Inr a) f = f a"
  by (simp_all add: bindE_def)

lemma bindE_Inr_iff: "bindE m f = Inr b \<longleftrightarrow> (\<exists>a. m = Inr a \<and> f a = Inr b)"
  by (cases m) simp_all

lemma mapE_all_Inr: "(\<And>x. x \<in> set xs \<Longrightarrow> f x = Inr (g x)) \<Longrightarrow> mapE f xs = Inr (map g xs)"
  by (induction xs) simp_all

lemma mapE_Inr_length: "mapE f xs = Inr ys \<Longrightarrow> length ys = length xs"
  by (induction xs arbitrary: ys) (auto simp: bindE_Inr_iff)

lemma mapE_Inr_in: "mapE f xs = Inr ys \<Longrightarrow> y \<in> set ys \<Longrightarrow> \<exists>x\<in>set xs. f x = Inr y"
  by (induction xs arbitrary: ys) (auto simp: bindE_Inr_iff)

lemma mapE_Inl: "mapE f xs = Inl e \<Longrightarrow> \<exists>x\<in>set xs. f x = Inl e"
  by (induction xs) (auto simp: bindE_def split: sum.splits)

section \<open>Running a program\<close>

text \<open>The outcome and the state after, and the equations that run the combinators on a state.\<close>

abbreviation result_of :: "('s, 'e, 'a) prog \<Rightarrow> 's \<Rightarrow> 'e + 'a" where
  "result_of m s \<equiv> fst (m s)"

abbreviation state_of :: "('s, 'e, 'a) prog \<Rightarrow> 's \<Rightarrow> 's" where
  "state_of m s \<equiv> snd (m s)"

lemmas prog_defs = ret_def throw_def bnd_def thn_def tryE_def finallyE_def getS_def modS_def
  liftE_def whenE_def

lemma run_ret [run]: "ret a s = (Inr a, s)"
  and run_throw [run]: "throw e s = (Inl e, s)"
  and run_getS [run]: "getS f s = (Inr (f s), s)"
  and run_modS [run]: "modS g s = (Inr (), g s)"
  and run_liftE [run]: "liftE r s = (r, s)"
  by (simp_all add: prog_defs)

lemma run_bnd [run]: "bnd m f s = (case m s of (Inl e, s') \<Rightarrow> (Inl e, s') | (Inr a, s') \<Rightarrow> f a s')"
  by (simp add: bnd_def)

lemma run_thn [run]: "thn m n s = (case m s of (Inl e, s') \<Rightarrow> (Inl e, s') | (Inr a, s') \<Rightarrow> n s')"
  by (simp add: thn_def bnd_def)

lemma run_tryE [run]: "tryE m h s = (case m s of (Inl e, s') \<Rightarrow> h e s' | (Inr a, s') \<Rightarrow> (Inr a, s'))"
  by (simp add: tryE_def)

lemma run_finallyE [run]: "finallyE m f s = (case m s of (r, s') \<Rightarrow>
     (case f s' of (Inl e, s'') \<Rightarrow> (Inl e, s'') | (Inr _, s'') \<Rightarrow> (r, s'')))"
  by (simp add: finallyE_def)

lemma run_attempt [run]: "attempt m s = (case m s of (r, s') \<Rightarrow> (Inr r, s'))"
  by (simp add: attempt_def)

lemma run_whenE [run]: "whenE b m s = (if b then m s else (Inr (), s))"
  by (simp add: prog_defs)

lemma bnd_cases:
  assumes "bnd m f s = (r, s')"
  obtains (raised) e where "m s = (Inl e, s')" "r = Inl e"
  | (returned) a t where "m s = (Inr a, t)" "f a t = (r, s')"
  using assms by (auto simp: run split: prod.splits sum.splits)

section \<open>Weakest preconditions\<close>

text \<open>\<open>wp m Q R s\<close>: run from \<open>s\<close>, \<open>m\<close> returns with \<open>Q\<close> or raises with \<open>R\<close>.\<close>

definition wp :: "('s, 'e, 'a) prog \<Rightarrow> ('a \<Rightarrow> 's \<Rightarrow> bool) \<Rightarrow> ('e \<Rightarrow> 's \<Rightarrow> bool) \<Rightarrow> 's \<Rightarrow> bool" where
  "wp m Q R s = (case m s of (Inl e, s') \<Rightarrow> R e s' | (Inr a, s') \<Rightarrow> Q a s')"

text \<open>The equations leave the state unapplied, so that they also rewrite under binders.\<close>

lemma wp_ret [wp_simps]: "wp (ret a) Q R = Q a"
  and wp_throw [wp_simps]: "wp (throw e) Q R = R e"
  and wp_getS [wp_simps]: "wp (getS f) Q' R = (\<lambda>s. Q' (f s) s)"
  and wp_modS [wp_simps]: "wp (modS g) Q'' R = (\<lambda>s. Q'' () (g s))"
  by (simp_all add: wp_def run fun_eq_iff)

lemma wp_liftE [wp_simps]: "wp (liftE r) Q R = (case r of Inl e \<Rightarrow> R e | Inr a \<Rightarrow> Q a)"
  by (simp add: wp_def run fun_eq_iff split: sum.splits)

lemma wp_bnd [wp_simps]: "wp (bnd m f) Q R = wp m (\<lambda>a. wp (f a) Q R) R"
  by (simp add: wp_def bnd_def fun_eq_iff split: prod.splits sum.splits)

lemma wp_thn [wp_simps]: "wp (thn m n) Q R = wp m (\<lambda>_. wp n Q R) R"
  by (simp add: thn_def wp_bnd)

lemma wp_tryE [wp_simps]: "wp (tryE m h) Q R = wp m Q (\<lambda>e. wp (h e) Q R)"
  by (simp add: wp_def tryE_def fun_eq_iff split: prod.splits sum.splits)

lemma wp_finallyE [wp_simps]:
  "wp (finallyE m f) Q R = wp m (\<lambda>a. wp f (\<lambda>_. Q a) R) (\<lambda>e. wp f (\<lambda>_. R e) R)"
  by (simp add: wp_def finallyE_def fun_eq_iff split: prod.splits sum.splits)

lemma wp_attempt [wp_simps]: "wp (attempt m) Q R = wp m (\<lambda>a. Q (Inr a)) (\<lambda>e. Q (Inl e))"
  by (simp add: wp_def attempt_def fun_eq_iff split: prod.splits sum.splits)

lemma wp_whenE [wp_simps]: "wp (whenE b m) Q R = (if b then wp m Q R else Q ())"
  by (simp add: whenE_def wp_ret)

lemma wp_if [wp_simps]: "wp (if b then m else n) Q R = (if b then wp m Q R else wp n Q R)"
  by simp

lemma wp_case_option [wp_simps]:
  "wp (case x of None \<Rightarrow> m | Some y \<Rightarrow> f y) Q R
     = (case x of None \<Rightarrow> wp m Q R | Some y \<Rightarrow> wp (f y) Q R)"
  by (simp split: option.splits)

lemma wp_case_prod [wp_simps]:
  "wp (case p of (a, b) \<Rightarrow> f a b) Q R = (case p of (a, b) \<Rightarrow> wp (f a b) Q R)"
  by (simp split: prod.splits)

lemma wp_case_list [wp_simps]:
  "wp (case xs of [] \<Rightarrow> m | y # ys \<Rightarrow> f y ys) Q R
     = (case xs of [] \<Rightarrow> wp m Q R | y # ys \<Rightarrow> wp (f y ys) Q R)"
  by (simp split: list.splits)

lemma wp_case_sum [wp_simps]:
  "wp (case x of Inl a \<Rightarrow> f a | Inr b \<Rightarrow> g b) Q R
     = (case x of Inl a \<Rightarrow> wp (f a) Q R | Inr b \<Rightarrow> wp (g b) Q R)"
  by (simp split: sum.splits)

lemma wp_Let [wp_simps]: "wp (Let x f) Q R = (let y = x in wp (f y) Q R)"
  by (simp add: Let_def)

lemma wp_mono:
  assumes "wp m Q R s"
    and "\<And>a t. m s = (Inr a, t) \<Longrightarrow> Q a t \<Longrightarrow> Q' a t"
    and "\<And>e t. m s = (Inl e, t) \<Longrightarrow> R e t \<Longrightarrow> R' e t"
  shows "wp m Q' R' s"
  using assms by (auto simp: wp_def split: prod.splits sum.splits)

lemma wp_weaken:
  assumes "wp m Q R s" and "\<And>a t. Q a t \<Longrightarrow> Q' a t" and "\<And>e t. R e t \<Longrightarrow> R' e t"
  shows "wp m Q' R' s"
  using assms by (auto simp: wp_def split: prod.splits sum.splits)

lemma wp_conj:
  "wp m Q R s \<Longrightarrow> wp m Q' R' s \<Longrightarrow> wp m (\<lambda>a t. Q a t \<and> Q' a t) (\<lambda>e t. R e t \<and> R' e t) s"
  by (auto simp: wp_def split: prod.splits sum.splits)

lemma wp_Inr: "wp m Q R s \<Longrightarrow> m s = (Inr a, t) \<Longrightarrow> Q a t"
  and wp_Inl: "wp m Q R s \<Longrightarrow> m s = (Inl e, t) \<Longrightarrow> R e t"
  by (simp_all add: wp_def)

lemma wpI: "(\<And>a t. m s = (Inr a, t) \<Longrightarrow> Q a t) \<Longrightarrow> (\<And>e t. m s = (Inl e, t) \<Longrightarrow> R e t) \<Longrightarrow> wp m Q R s"
  by (auto simp: wp_def split: prod.splits sum.splits)

lemma wp_True [simp]: "wp m (\<lambda>_ _. True) (\<lambda>_ _. True) s"
  by (simp add: wp_def split: prod.splits sum.splits)

text \<open>Loops: an invariant of every round is an invariant of the loop.\<close>

lemma wp_forM_inv:
  assumes "\<And>x t. x \<in> set xs \<Longrightarrow> I t \<Longrightarrow> wp (f x) (\<lambda>_. I) R t" and "I s"
  shows "wp (forM xs f) (\<lambda>_. I) R s"
  using assms
proof (induction xs arbitrary: s)
  case Nil
  then show ?case by (simp add: wp_ret)
next
  case (Cons x xs)
  have "wp (f x) (\<lambda>_. I) R s" using Cons.prems by simp
  then have "wp (f x) (\<lambda>_ t. wp (forM xs f) (\<lambda>_. I) R t) R s"
    by (rule wp_weaken) (use Cons in auto)
  then show ?case by (simp add: wp_thn)
qed

lemma wp_foldM_inv:
  assumes "\<And>x b t. x \<in> set xs \<Longrightarrow> I b t \<Longrightarrow> wp (f x b) I R t" and "I b s"
  shows "wp (foldM f xs b) I R s"
  using assms
proof (induction xs arbitrary: b s)
  case Nil
  then show ?case by (simp add: wp_ret)
next
  case (Cons x xs)
  have "wp (f x b) I R s" using Cons.prems by simp
  then have "wp (f x b) (\<lambda>b' t. wp (foldM f xs b') I R t) R s"
    by (rule wp_weaken) (use Cons in auto)
  then show ?case by (simp add: wp_bnd)
qed

section \<open>Frames\<close>

text \<open>\<open>keeps obs m\<close>: on every exit \<open>m\<close> leaves the observation \<open>obs\<close> of the state as it was.\<close>

definition keeps :: "('s \<Rightarrow> 'b) \<Rightarrow> ('s, 'e, 'a) prog \<Rightarrow> bool" where
  "keeps obs m = (\<forall>s. obs (snd (m s)) = obs s)"

lemma keepsD: "keeps obs m \<Longrightarrow> obs (snd (m s)) = obs s"
  by (simp add: keeps_def)

lemma keepsE: "keeps obs m \<Longrightarrow> m s = (r, t) \<Longrightarrow> obs t = obs s"
  by (metis keeps_def snd_conv)

lemma keeps_wp: "keeps obs m \<Longrightarrow> wp m (\<lambda>_ t. obs t = obs s) (\<lambda>_ t. obs t = obs s) s"
  by (auto intro!: wpI dest: keepsE)

lemma keeps_ret [keeps_intros]: "keeps obs (ret a)"
  and keeps_throw [keeps_intros]: "keeps obs (throw e)"
  and keeps_getS [keeps_intros]: "keeps obs (getS f)"
  and keeps_liftE [keeps_intros]: "keeps obs (liftE r)"
  by (simp_all add: keeps_def run)

lemma keeps_modS: "(\<And>s. obs (g s) = obs s) \<Longrightarrow> keeps obs (modS g)"
  by (simp add: keeps_def run)

lemma keeps_bnd [keeps_intros]: "keeps obs m \<Longrightarrow> (\<And>a. keeps obs (f a)) \<Longrightarrow> keeps obs (bnd m f)"
  unfolding keeps_def
proof (intro allI)
  fix s
  assume m: "\<forall>s. obs (snd (m s)) = obs s" and f: "\<And>a. \<forall>s. obs (snd (f a s)) = obs s"
  show "obs (snd (bnd m f s)) = obs s"
  proof (cases "m s")
    case (Pair r t)
    with m have "obs t = obs s" by (metis snd_conv)
    with Pair f show ?thesis by (cases r) (simp_all add: run)
  qed
qed

lemma keeps_thn [keeps_intros]: "keeps obs m \<Longrightarrow> keeps obs n \<Longrightarrow> keeps obs (thn m n)"
  by (simp add: thn_def keeps_bnd)

lemma keeps_tryE [keeps_intros]:
  assumes m: "keeps obs m" and h: "\<And>e. keeps obs (h e)"
  shows "keeps obs (tryE m h)"
  unfolding keeps_def
proof (intro allI)
  fix s
  show "obs (snd (tryE m h s)) = obs s"
  proof (cases "m s")
    case (Pair r t)
    then have "obs t = obs s" using m by (rule keepsE[rotated])
    with Pair h show ?thesis by (cases r) (simp_all add: keeps_def run)
  qed
qed

lemma keeps_finallyE [keeps_intros]:
  assumes "keeps obs m" and "keeps obs f"
  shows "keeps obs (finallyE m f)"
  unfolding keeps_def
proof (intro allI)
  fix s
  obtain r t where m: "m s = (r, t)" by (cases "m s")
  obtain r' u where f: "f t = (r', u)" by (cases "f t")
  have "obs u = obs s" using keepsE[OF assms(1) m] keepsE[OF assms(2) f] by simp
  with m f show "obs (snd (finallyE m f s)) = obs s" by (cases r') (simp_all add: run)
qed

lemma keeps_attempt [keeps_intros]: "keeps obs m \<Longrightarrow> keeps obs (attempt m)"
  unfolding keeps_def attempt_def by (auto split: prod.splits) (metis snd_conv)

lemma keeps_whenE [keeps_intros]: "keeps obs m \<Longrightarrow> keeps obs (whenE b m)"
  by (simp add: whenE_def keeps_ret)

lemma keeps_if [keeps_intros]: "keeps obs m \<Longrightarrow> keeps obs n \<Longrightarrow> keeps obs (if b then m else n)"
  by simp

lemma keeps_case_option [keeps_intros]:
  "keeps obs m \<Longrightarrow> (\<And>y. keeps obs (f y)) \<Longrightarrow> keeps obs (case x of None \<Rightarrow> m | Some y \<Rightarrow> f y)"
  by (simp split: option.splits)

lemma keeps_case_prod [keeps_intros]:
  "(\<And>a b. keeps obs (f a b)) \<Longrightarrow> keeps obs (case p of (a, b) \<Rightarrow> f a b)"
  by (simp split: prod.splits)

lemma keeps_case_list [keeps_intros]:
  "keeps obs m \<Longrightarrow> (\<And>y ys. keeps obs (f y ys)) \<Longrightarrow> keeps obs (case xs of [] \<Rightarrow> m | y # ys \<Rightarrow> f y ys)"
  by (simp split: list.splits)

lemma keeps_case_sum [keeps_intros]:
  "(\<And>a. keeps obs (f a)) \<Longrightarrow> (\<And>b. keeps obs (g b)) \<Longrightarrow> keeps obs (case x of Inl a \<Rightarrow> f a | Inr b \<Rightarrow> g b)"
  by (simp split: sum.splits)

lemma keeps_Let [keeps_intros]: "(\<And>y. keeps obs (f y)) \<Longrightarrow> keeps obs (Let x f)"
  by (simp add: Let_def)

lemma keeps_forM [keeps_intros]: "(\<And>x. keeps obs (f x)) \<Longrightarrow> keeps obs (forM xs f)"
  by (induction xs) (auto intro!: keeps_ret keeps_thn)

lemma keeps_mapM [keeps_intros]: "(\<And>x. keeps obs (f x)) \<Longrightarrow> keeps obs (mapM xs f)"
  by (induction xs) (auto intro!: keeps_ret keeps_bnd)

lemma keeps_foldM [keeps_intros]: "(\<And>x b. keeps obs (f x b)) \<Longrightarrow> keeps obs (foldM f xs b)"
  by (induction xs arbitrary: b) (auto intro!: keeps_ret keeps_bnd)

section \<open>Exceptions\<close>

text \<open>\<open>raises P m\<close>: every exception of \<open>m\<close> satisfies \<open>P\<close>.\<close>

definition raises :: "('e \<Rightarrow> bool) \<Rightarrow> ('s, 'e, 'a) prog \<Rightarrow> bool" where
  "raises P m = (\<forall>s e t. m s = (Inl e, t) \<longrightarrow> P e)"

lemma raisesI: "(\<And>s e t. m s = (Inl e, t) \<Longrightarrow> P e) \<Longrightarrow> raises P m"
  unfolding raises_def by blast

lemma raisesD: "raises P m \<Longrightarrow> m s = (Inl e, t) \<Longrightarrow> P e"
  unfolding raises_def by blast

lemma raises_wp: "raises P m \<Longrightarrow> wp m (\<lambda>_ _. True) (\<lambda>e _. P e) s"
  by (auto intro!: wpI dest: raisesD)

lemma raises_basic [raises_intros]: "raises P (ret a)" "raises P (getS f)" "raises P (modS g)"
  "raises P (attempt m)"
  by (simp_all add: raises_def run split: prod.splits)

lemma raises_throw [raises_intros]: "P e \<Longrightarrow> raises P (throw e)"
  by (simp add: raises_def run)

lemma raises_liftE [raises_intros]: "(\<And>e. r = Inl e \<Longrightarrow> P e) \<Longrightarrow> raises P (liftE r)"
  by (simp add: raises_def run)

lemma raises_bnd [raises_intros]: "raises P m \<Longrightarrow> (\<And>a. raises P (f a)) \<Longrightarrow> raises P (bnd m f)"
  unfolding raises_def by (auto simp: run split: prod.splits sum.splits)

lemma raises_thn [raises_intros]: "raises P m \<Longrightarrow> raises P n \<Longrightarrow> raises P (thn m n)"
  by (simp add: thn_def raises_bnd)

lemma raises_tryE [raises_intros]:
  assumes m: "raises P m" and h: "\<And>e. P e \<Longrightarrow> raises Q (h e)"
  shows "raises Q (tryE m h)"
proof (rule raisesI)
  fix s e t
  assume r: "tryE m h s = (Inl e, t)"
  then obtain e' u where mu: "m s = (Inl e', u)"
    by (auto simp: run split: prod.splits sum.splits)
  with r have "h e' u = (Inl e, t)" by (simp add: run)
  with mu m h show "Q e" by (blast dest: raisesD)
qed

lemma raises_finallyE [raises_intros]:
  assumes "raises P m" "raises P f"
  shows "raises P (finallyE m f)"
proof (rule raisesI)
  fix s e t
  assume r: "finallyE m f s = (Inl e, t)"
  obtain q u where mu: "m s = (q, u)" by fastforce
  obtain q' v where fv: "f u = (q', v)" by fastforce
  from r mu fv have "q' = Inl e \<or> q = Inl e" by (cases q') (auto simp: run)
  with mu fv assms show "P e" by (blast dest: raisesD)
qed

lemma raises_branch [raises_intros]:
  "raises P m \<Longrightarrow> raises P n \<Longrightarrow> raises P (if b then m else n)"
  "raises P u \<Longrightarrow> raises P (whenE b u)"
  by (simp_all add: whenE_def raises_basic)

lemma raises_cases [raises_intros]:
  "raises P m \<Longrightarrow> (\<And>y. raises P (f y)) \<Longrightarrow> raises P (case x of None \<Rightarrow> m | Some y \<Rightarrow> f y)"
  "(\<And>a b. raises P (g a b)) \<Longrightarrow> raises P (case p of (a, b) \<Rightarrow> g a b)"
  "(\<And>a. raises P (k a)) \<Longrightarrow> (\<And>b. raises P (l b)) \<Longrightarrow> raises P (case z of Inl a \<Rightarrow> k a | Inr b \<Rightarrow> l b)"
  "(\<And>y. raises P (h y)) \<Longrightarrow> raises P (Let w h)"
  by (simp_all add: Let_def split: option.splits prod.splits sum.splits)

lemma raises_forM [raises_intros]: "(\<And>x. raises P (f x)) \<Longrightarrow> raises P (forM xs f)"
  by (induction xs) (auto intro!: raises_basic raises_thn)

lemma raises_foldM [raises_intros]: "(\<And>x b. raises P (f x b)) \<Longrightarrow> raises P (foldM f xs b)"
  by (induction xs arbitrary: b) (auto intro!: raises_basic raises_bnd)

section \<open>Lists and options\<close>

lemma find_None_iff_ball: "find P xs = None \<longleftrightarrow> (\<forall>x\<in>set xs. \<not> P x)"
  by (auto simp: find_None_iff)

lemma find_SomeD: "find P xs = Some x \<Longrightarrow> x \<in> set xs \<and> P x"
  by (auto simp: find_Some_iff)

lemma map_filter_append [simp]: "List.map_filter f (xs @ ys) = List.map_filter f xs @ List.map_filter f ys"
  by (simp add: List.map_filter_def)

lemma set_map_filter: "set (List.map_filter f xs) = {y. \<exists>x\<in>set xs. f x = Some y}"
  by (force simp: List.map_filter_def)

text \<open>The largest element of a list of integers, with a default: Python's \<open>max(xs, default=d)\<close>.\<close>

definition max_default :: "int \<Rightarrow> int list \<Rightarrow> int" where
  "max_default d xs = (case xs of [] \<Rightarrow> d | y # ys \<Rightarrow> fold max ys y)"

lemma fold_max_ge: "(b::int) \<le> fold max xs b \<and> (\<forall>x\<in>set xs. x \<le> fold max xs b)"
proof (induction xs arbitrary: b)
  case Nil
  then show ?case by simp
next
  case (Cons x xs)
  from Cons[of "max x b"] show ?case by auto
qed

lemma fold_max_in: "fold max xs (b::int) \<in> insert b (set xs)"
proof (induction xs arbitrary: b)
  case Nil
  then show ?case by simp
next
  case (Cons x xs)
  from Cons[of "max x b"] show ?case by (auto simp: max_def split: if_splits)
qed

lemma max_default_ge: "x \<in> set xs \<Longrightarrow> x \<le> max_default d xs"
  using fold_max_ge by (cases xs) (auto simp: max_default_def)

lemma max_default_in: "max_default d xs \<in> insert d (set xs)"
  using fold_max_in by (cases xs) (auto simp: max_default_def)

section \<open>Moves along a preorder\<close>

text \<open>
  \<open>moves R m\<close>: however \<open>m\<close> ends, the state it leaves is related by \<open>R\<close> to the one it found.  For a
  preorder the sequencing operators keep this, which the locale proves once.
\<close>

definition moves :: "('s \<Rightarrow> 's \<Rightarrow> bool) \<Rightarrow> ('s, 'e, 'a) prog \<Rightarrow> bool" where
  "moves R m \<longleftrightarrow> (\<forall>s. R s (snd (m s)))"

lemma movesD: "moves R m \<Longrightarrow> m s = (r, t) \<Longrightarrow> R s t"
  unfolding moves_def by (metis snd_conv)

lemma movesI: "(\<And>s r t. m s = (r, t) \<Longrightarrow> R s t) \<Longrightarrow> moves R m"
  unfolding moves_def by (metis prod.collapse)

lemma moves_wp: "moves R m \<Longrightarrow> wp m (\<lambda>_. R s) (\<lambda>_. R s) s"
  by (auto intro!: wpI dest: movesD)

lemma moves_mono: "moves R m \<Longrightarrow> (\<And>s t. R s t \<Longrightarrow> S s t) \<Longrightarrow> moves S m"
  by (auto simp: moves_def)

lemma tryE_attempt: "tryE m h = bnd (attempt m) (case_sum h ret)"
  by (auto simp: fun_eq_iff run split: prod.splits sum.splits)

lemma finallyE_attempt:
  "finallyE m f = bnd (attempt m) (\<lambda>r. thn f (case r of Inl e \<Rightarrow> throw e | Inr a \<Rightarrow> ret a))"
  by (auto simp: fun_eq_iff run split: prod.splits sum.splits)

locale trail =
  fixes R :: "'s \<Rightarrow> 's \<Rightarrow> bool"
  assumes refl: "R s s"
    and trans: "R s t \<Longrightarrow> R t u \<Longrightarrow> R s u"
begin

lemma basic [moves_intros]: "moves R (ret a)" "moves R (throw e)" "moves R (getS f)" "moves R (liftE r)"
  by (simp_all add: moves_def run refl)

lemma upd: "(\<And>s. R s (g s)) \<Longrightarrow> moves R (modS g)"
  by (simp add: moves_def run)

lemma seq [moves_intros]:
  assumes m: "moves R m" and f: "\<And>a. moves R (f a)"
  shows "moves R (bnd m f)"
proof (rule movesI)
  fix s r t assume b: "bnd m f s = (r, t)"
  obtain q u where q: "m s = (q, u)" by fastforce
  show "R s t"
  proof (cases q)
    case (Inr a)
    with b q have "f a u = (r, t)" by (simp add: run)
    with movesD[OF m q] movesD[OF f] show ?thesis by (blast intro: trans)
  qed (use movesD[OF m q] b q in \<open>simp add: run\<close>)
qed

lemma seq' [moves_intros]: "moves R m \<Longrightarrow> moves R n \<Longrightarrow> moves R (thn m n)"
  by (simp add: thn_def seq)

lemma caught [moves_intros]: "moves R m \<Longrightarrow> moves R (attempt m)"
  unfolding moves_def by (metis (no_types, lifting) attempt_def case_prod_conv prod.collapse snd_conv)

lemma branch [moves_intros]:
  "moves R m \<Longrightarrow> moves R n \<Longrightarrow> moves R (if b then m else n)"
  "moves R u \<Longrightarrow> moves R (whenE b u)"
  "moves R m \<Longrightarrow> (\<And>y. moves R (k y)) \<Longrightarrow> moves R (case x of None \<Rightarrow> m | Some y \<Rightarrow> k y)"
  "(\<And>a b. moves R (g a b)) \<Longrightarrow> moves R (case p of (a, b) \<Rightarrow> g a b)"
  "(\<And>a. moves R (i a)) \<Longrightarrow> (\<And>b. moves R (l b)) \<Longrightarrow> moves R (case z of Inl a \<Rightarrow> i a | Inr b \<Rightarrow> l b)"
  "(\<And>y. moves R (j y)) \<Longrightarrow> moves R (Let w j)"
  "moves R m \<Longrightarrow> (\<And>y ys. moves R (v y ys)) \<Longrightarrow> moves R (case xs of [] \<Rightarrow> m | y # ys \<Rightarrow> v y ys)"
  by (simp_all add: whenE_def basic Let_def split: option.split prod.split sum.split list.split)

lemma handle [moves_intros]: "moves R m \<Longrightarrow> (\<And>e. moves R (h e)) \<Longrightarrow> moves R (tryE m h)"
  unfolding tryE_attempt by (intro seq caught) (auto intro: basic split: sum.split)

lemma ensure [moves_intros]: "moves R m \<Longrightarrow> moves R f \<Longrightarrow> moves R (finallyE m f)"
  unfolding finallyE_attempt by (auto intro!: seq seq' caught basic split: sum.split)

lemma loop [moves_intros]: "(\<And>x. moves R (f x)) \<Longrightarrow> moves R (forM xs f)"
  by (induction xs) (auto intro!: basic seq')

lemma mapping [moves_intros]: "(\<And>x. moves R (f x)) \<Longrightarrow> moves R (mapM xs f)"
  by (induction xs) (auto intro!: basic seq)

lemma folding [moves_intros]: "(\<And>x b. moves R (f x b)) \<Longrightarrow> moves R (foldM f xs b)"
  by (induction xs arbitrary: b) (auto intro!: basic seq)

end

section \<open>Lists that grow at the front\<close>

text \<open>From \<open>s\<close> to \<open>t\<close> only elements of the kind \<open>P\<close> were put in front: the events a program adds to its history.\<close>

definition prepended :: "('a \<Rightarrow> bool) \<Rightarrow> 'a list \<Rightarrow> 'a list \<Rightarrow> bool" where
  "prepended P s t \<longleftrightarrow> (\<exists>a. t = a @ s \<and> list_all P a)"

lemma prepended_simps [simp]: "prepended P s s" "P x \<Longrightarrow> prepended P s (x # s)"
  unfolding prepended_def by (rule exI[of _ "[]"], simp) (rule exI[of _ "[x]"], simp)

lemma prepended_trans: "prepended P s t \<Longrightarrow> prepended P t u \<Longrightarrow> prepended P s u"
  by (auto simp: prepended_def)

lemma prepended_cons: "prepended P (x # s) t \<Longrightarrow> P x \<Longrightarrow> prepended P s t"
  by (rule prepended_trans[of P s "x # s"]) simp_all

lemma prepended_mono: "prepended P s t \<Longrightarrow> (\<And>x. P x \<Longrightarrow> Q x) \<Longrightarrow> prepended Q s t"
  by (auto simp: prepended_def list_all_iff)

end
