(* ===== verification/Py_Strings.thy ===== *)
theory Py_Strings
  imports Prelude
begin

text \<open>
  The operations on Python strings the ledger code uses: \<open>str.splitlines\<close>, \<open>join\<close>,
  splitting at a separator, the regular expression pieces \<open>[^:]*\<close> and \<open>\d+\<close>, and
  decimal numbers.  A string is a list of code points below 256; the two line
  breaks of \<open>str.splitlines\<close> above that range, U+2028 and U+2029, have no character
  here.
\<close>

section \<open>Lines\<close>

definition line_break :: "char \<Rightarrow> bool" where
  "line_break c \<longleftrightarrow> (of_char c :: nat) \<in> {10, 13, 11, 12, 28, 29, 30, 133}"

abbreviation (input) NL :: char where "NL \<equiv> CHR 0x0A"
abbreviation (input) CR :: char where "CR \<equiv> CHR 0x0D"

fun skip_nl :: "string \<Rightarrow> string" where
  "skip_nl (c # cs) = (if c = NL then cs else c # cs)"
| "skip_nl [] = []"

lemma length_skip_nl [termination_simp]: "length (skip_nl cs) \<le> length cs"
  by (cases cs) auto

text \<open>\<open>str.splitlines()\<close>: a carriage return followed by a newline is one break, and a final
  break starts no further line.\<close>

fun splitlines :: "string \<Rightarrow> string list" where
  "splitlines [] = []"
| "splitlines (c # cs) =
     (if line_break c then [] # splitlines (if c = CR then skip_nl cs else cs)
      else (case splitlines cs of [] \<Rightarrow> [[c]] | l # ls \<Rightarrow> (c # l) # ls))"
  
definition unbroken :: "string \<Rightarrow> bool" where
  "unbroken l \<longleftrightarrow> (\<forall>c\<in>set l. \<not> line_break c)"

lemma unbroken_simps [simp]:
  "unbroken []" "unbroken (c # l) \<longleftrightarrow> \<not> line_break c \<and> unbroken l"
  "unbroken (k @ l) \<longleftrightarrow> unbroken k \<and> unbroken l"
  by (auto simp: unbroken_def)

lemma line_break_NL [simp]: "line_break NL" and line_break_CR [simp]: "line_break CR"
  by (simp_all add: line_break_def)

lemma unbroken_no_NL: "unbroken l \<Longrightarrow> NL \<notin> set l"
  by (auto simp: unbroken_def)

lemma splitlines_line: "unbroken l \<Longrightarrow> splitlines (l @ NL # rest) = l # splitlines rest"
  by (induction l) auto

lemma splitlines_unbroken: "unbroken l \<Longrightarrow> splitlines l = (if l = [] then [] else [l])"
  by (induction l) auto

lemma splitlines_all_unbroken: "l \<in> set (splitlines s) \<Longrightarrow> unbroken l"
  by (induction s arbitrary: l rule: splitlines.induct) (auto split: list.splits if_splits)

section \<open>Separators\<close>

text \<open>\<open>sep.join(ls)\<close>.\<close>

fun join :: "string \<Rightarrow> string list \<Rightarrow> string" where
  "join sep [] = []"
| "join sep [l] = l"
| "join sep (l # ls) = l @ sep @ join sep ls"

lemma join_Cons: "ls \<noteq> [] \<Longrightarrow> join sep (l # ls) = l @ sep @ join sep ls"
  by (cases ls) auto

lemma splitlines_join:
  "ls \<noteq> [] \<Longrightarrow> \<forall>l\<in>set ls. unbroken l \<Longrightarrow> splitlines (join [NL] ls @ [NL]) = ls"
proof (induction ls)
  case Nil
  then show ?case by simp
next
  case (Cons l ls)
  then show ?case
    by (cases "ls = []") (auto simp: splitlines_line join_Cons)
qed

text \<open>\<open>s.split(c)\<close> with a one-character separator: always at least one part.\<close>

fun split_on :: "char \<Rightarrow> string \<Rightarrow> string list" where
  "split_on c [] = [[]]"
| "split_on c (d # s) =
     (if d = c then [] # split_on c s
      else (case split_on c s of [] \<Rightarrow> [[d]] | p # ps \<Rightarrow> (d # p) # ps))"

lemma split_on_ne [simp]: "split_on c s \<noteq> []"
  by (induction s) (auto split: list.splits)

lemma split_on_sep: "c \<notin> set p \<Longrightarrow> split_on c (p @ c # s) = p # split_on c s"
  by (induction p) auto

lemma split_on_plain: "c \<notin> set p \<Longrightarrow> split_on c p = [p]"
  by (induction p) auto

lemma split_on_join:
  "ps \<noteq> [] \<Longrightarrow> \<forall>p\<in>set ps. c \<notin> set p \<Longrightarrow> split_on c (join [c] ps) = ps"
proof (induction ps)
  case Nil
  then show ?case by simp
next
  case (Cons p ps)
  then show ?case
    by (cases "ps = []") (auto simp: split_on_sep split_on_plain join_Cons)
qed

lemma split_on_no_sep: "p \<in> set (split_on c s) \<Longrightarrow> c \<notin> set p"
  by (induction s arbitrary: p) (auto split: list.splits if_splits)

text \<open>\<open>cut s\<close>: the field before the first colon and the text after it.\<close>

fun cut :: "string \<Rightarrow> (string \<times> string) option" where
  "cut [] = None"
| "cut (c # s) = (if c = CHR '':'' then Some ([], s)
                  else (case cut s of None \<Rightarrow> None | Some (f, r) \<Rightarrow> Some (c # f, r)))"

lemma cut_field: "CHR '':'' \<notin> set f \<Longrightarrow> cut (f @ CHR '':'' # r) = Some (f, r)"
  by (induction f) auto

lemma cut_SomeD: "cut s = Some (f, r) \<Longrightarrow> s = f @ CHR '':'' # r \<and> CHR '':'' \<notin> set f"
  by (induction s arbitrary: f) (auto split: option.splits if_splits)

lemma cut_None: "CHR '':'' \<notin> set s \<Longrightarrow> cut s = None"
  by (induction s) auto

section \<open>Decimal numbers\<close>

definition digit_char :: "nat \<Rightarrow> char" where
  "digit_char d = char_of (48 + d)"

definition is_digit :: "char \<Rightarrow> bool" where
  "is_digit c \<longleftrightarrow> 48 \<le> (of_char c :: nat) \<and> (of_char c :: nat) \<le> 57"

definition digit_val :: "char \<Rightarrow> nat" where
  "digit_val c = of_char c - 48"

lemma of_char_digit [simp]: "d < 10 \<Longrightarrow> (of_char (digit_char d) :: nat) = 48 + d"
  by (simp add: digit_char_def)

lemma is_digit_digit_char [simp]: "d < 10 \<Longrightarrow> is_digit (digit_char d)"
  and digit_val_digit_char [simp]: "d < 10 \<Longrightarrow> digit_val (digit_char d) = d"
  by (simp_all add: is_digit_def digit_val_def)

lemma is_digit_not_special:
  "is_digit c \<Longrightarrow> \<not> line_break c" "is_digit c \<Longrightarrow> c \<noteq> CHR '':''" "is_digit c \<Longrightarrow> c \<noteq> CHR '',''"
  by (auto simp: is_digit_def line_break_def)

fun show_nat :: "nat \<Rightarrow> string" where
  "show_nat n = (if n < 10 then [digit_char n] else show_nat (n div 10) @ [digit_char (n mod 10)])"

declare show_nat.simps [simp del]

text \<open>\<open>str(i)\<close> of a Python integer.\<close>

definition show_int :: "int \<Rightarrow> string" where
  "show_int i = (if i < 0 then CHR ''-'' # show_nat (nat (- i)) else show_nat (nat i))"

text \<open>The value of a digit string.\<close>

definition read_nat :: "string \<Rightarrow> nat" where
  "read_nat s = foldl (\<lambda>n c. 10 * n + digit_val c) 0 s"

text \<open>A match of \<open>\d+\<close> converted by \<open>int\<close>.\<close>

definition read_digits :: "string \<Rightarrow> int option" where
  "read_digits s = (if s \<noteq> [] \<and> list_all is_digit s then Some (int (read_nat s)) else None)"

text \<open>A match of \<open>\d*\<close>: the empty field stays empty (\<open>None\<close>), a number is converted.\<close>

definition read_opt_digits :: "string \<Rightarrow> int option option" where
  "read_opt_digits s = (if s = [] then Some None
                        else (case read_digits s of None \<Rightarrow> None | Some i \<Rightarrow> Some (Some i)))"

lemma show_nat_digits: "list_all is_digit (show_nat n) \<and> show_nat n \<noteq> []"
proof (induction n rule: show_nat.induct)
  case (1 n)
  then show ?case by (subst (1 2) show_nat.simps) (auto simp: list_all_append)
qed

lemma read_nat_show_nat [simp]: "read_nat (show_nat n) = n"
proof (induction n rule: show_nat.induct)
  case (1 n)
  show ?case
  proof (cases "n < 10")
    case True
    then show ?thesis by (subst show_nat.simps) (simp add: read_nat_def)
  next
    case False
    with 1 have "read_nat (show_nat (n div 10)) = n div 10" by blast
    with False show ?thesis by (subst show_nat.simps) (simp add: read_nat_def)
  qed
qed

lemma read_digits_show_int [simp]: "0 \<le> i \<Longrightarrow> read_digits (show_int i) = Some i"
  using show_nat_digits by (simp add: read_digits_def show_int_def)

lemma read_opt_digits_show_int [simp]: "0 \<le> i \<Longrightarrow> read_opt_digits (show_int i) = Some (Some i)"
  using show_nat_digits[of "nat i"] by (auto simp: read_opt_digits_def show_int_def read_digits_def)

lemma read_opt_digits_Nil [simp]: "read_opt_digits [] = Some None"
  by (simp add: read_opt_digits_def)

lemma read_digits_nonneg: "read_digits s = Some i \<Longrightarrow> 0 \<le> i"
  by (auto simp: read_digits_def split: if_splits)

lemma show_nat_plain: "unbroken (show_nat n)" "CHR '':'' \<notin> set (show_nat n)"
  using show_nat_digits[of n] by (auto simp: unbroken_def list_all_iff dest: is_digit_not_special)

lemma show_int_plain [simp]: "unbroken (show_int i)" "CHR '':'' \<notin> set (show_int i)"
  by (auto simp: show_int_def show_nat_plain) (simp add: line_break_def)

text \<open>\<open>sub in s\<close>.\<close>

definition contains :: "string \<Rightarrow> string \<Rightarrow> bool" where
  "contains sub s \<longleftrightarrow> list_ex (\<lambda>i. take (length sub) (drop i s) = sub) [0..<Suc (length s)]"

end
