(* ===== verification/Types.thy ===== *)
theory Types
  imports Py_Strings
begin

text \<open>
  The data of the config server: the enumerations of the operation log, the step
  names of the job engine, the exceptions, the step context, the job inputs, the
  rows of the tables and files it writes, and the state \<open>st\<close> that holds them.

  Everything outside the process and its own tables (the NAS, the AD controllers,
  the farm nodes, Kubernetes, Prometheus, the WAS, the clock) is the record \<open>env\<close> of
  functions.  Each of them receives the history of external events so far, so the
  outside may answer the same request differently each time it is asked: a theorem
  over all \<open>env\<close> holds for every behaviour of the outside.
\<close>

section \<open>Enumerations\<close>

text \<open>\<open>Action\<close> and \<open>Phase\<close> of \<open>adapters/operation_log.py\<close>.\<close>

datatype action = CREATE_ACCOUNT | CREATE_HOME | CREATE_KRB5_PRINCIPAL | FETCH_USER_CONFIG
  | SELECT_NODE | ALLOCATE_NODEPORT | CREATE_POD_K8S | WAIT_READY | DEPLOY_KRB5 | CREATE_SERVICE
  | DELETE_SERVICE | RELEASE_NODEPORT | DELETE_POD_K8S | DELETE_ACCOUNT | DELETE_HOME | REMOVE_KRB5
  | VERIFY_ACCESS | VERIFY_REVOKED | PROVISION | REVOKE | MIGRATE | CHANGE_PASSWORD | CHANGE_GROUP
  | PURGE_HOME | CHANGE_PORT | CHANGE_ACCESS | PULL_IMAGE | START_CONTAINER | MOUNT_VOLUME
  | COMMIT_IMAGE

datatype phase = START | SUCCESS | FAIL | RETRY | UNKNOWN

text \<open>The run modes of \<open>RUN_MODE\<close>.\<close>

datatype run_mode = Baseline | Noprobe | Full

text \<open>The kinds of jobs (the keys of \<open>JOB_ACTIONS\<close>) and the operations of a group job.\<close>

datatype kind = Provision | Revoke | Migrate | Password | Group | Home | Port | Access

datatype group_op = GCreate | GAdd | GRemove

text \<open>The step functions, by name.\<close>

datatype step =
    FetchUserConfig | PreparePod | SelectNode | BuildPodSpec | CreatePodK8s | WaitReady
  | CreateServices | CreateAccount | CreateHome | CreateKrb5Principal | AwaitAdReplication
  | AddUserGroups | SyncAdGroups | TriggerNasGssFlush
  | DeleteServices | ReleaseNodeports | DeletePodK8s | CleanupPodNodeKrb5 | RemoveNodeImage
  | CheckAccountRevocable | DeleteAccount | RemoveKrb5
  | MigrateSelectTarget | MigrateInheritPassword | MigrateCommitImage | MigrateCleanupOld
  | ChangeLoginPassword | DeleteExpiredHome | RestoreMissingHome
  | GroupCreate | GroupAddMember | GroupRemoveMember | ResolveNewGroups
  | ChangePorts | SetAccountAccess
  | VerifyUid | VerifyHomeIo | VerifyKrb5 | VerifyGpu | VerifyEndpoint
  | CaptureAccessTargets | VerifyRevoked | VerifyAccountRevoked

section \<open>Exceptions\<close>

text \<open>
  The exception classes the code distinguishes.  Everything else is \<open>OtherError\<close>;
  \<open>OutOfFuel\<close> stands for a polling loop that has not returned yet.
  \<open>Exn\<close> carries the two links \<open>_is_unknown_result\<close> follows, the \<open>reason\<close> of a
  \<open>MaxRetryError\<close> and the \<open>__cause__\<close>, and the attribute \<open>home_created\<close> that
  \<open>create_user_home_directory\<close> sets.
\<close>

datatype exn_kind = RequestsReadTimeout | TimeoutExpired | UrllibReadTimeout | MaxRetryError
  | ApiException int | LeaseLost | ValueError | RuntimeError | KeyError | OSError | DbError
  | LedgerLockTimeout | IssuedIdRecordCorrupt | NasCommandTimeout | HomeOwnerUnknown
  | HomeOwnerMismatch | PodSpecBuildError | NodeIdentityTimeout
  | LoginPasswordMissing | NodeImageError string | OtherError | OutOfFuel

text \<open>
  The arguments of \<open>StepFailed\<close>: the error code and step of the response body, the
  status, and the attributes the engine reads.  The free text of the body is left out.
\<close>

record failure =
  f_error :: string
  f_step :: "string option"
  f_status :: int
  f_unknown :: bool
  f_retry :: bool
  f_restart :: "step option"

datatype exn =
    Exn exn_kind (reason: "exn option") (cause: "exn option") (home_created_attr: bool)
  | StepFailed failure "exn option"
  | StepDegraded step string exn bool
  | StepRewind step step exn

section \<open>The account ledger\<close>

text \<open>A parsed line of \<open>passwd\<close>, \<open>group\<close> and \<open>shadow\<close>.\<close>

record passwd_entry =
  pw_name :: string
  pw_passwd :: string
  pw_uid :: int
  pw_gid :: int
  pw_gecos :: string
  pw_home :: string
  pw_shell :: string

record group_entry =
  gr_name :: string
  gr_passwd :: string
  gr_gid :: int
  gr_members :: "string list"

record shadow_entry =
  sp_name :: string
  sp_passwd :: string
  sp_lastchg :: "int option"
  sp_min :: "int option"
  sp_max :: "int option"
  sp_warn :: "int option"
  sp_inactive :: "int option"
  sp_expire :: "int option"
  sp_flag :: string

text \<open>
  The issued id record is a JSON file: absent, unreadable or malformed
  (\<open>IssuedCorrupt\<close>), or an object with the greatest issued number per kind.
\<close>

datatype id_kind = UidKind | SharedGidKind

datatype issued = IssuedAbsent | IssuedCorrupt | Issued "id_kind \<Rightarrow> int option"

text \<open>The files of \<open>BASE_ETC_DIR\<close>, by content.\<close>

record ledger =
  passwd_file :: string
  group_file :: string
  shadow_file :: string
  sudoers :: "string \<Rightarrow> string option"
  issued_ids :: issued

section \<open>Jobs, their context and the tables\<close>

record supp_group =
  sg_name :: string
  sg_gid :: "int option"

text \<open>A port: the request has no external port yet.\<close>

record port_info =
  internal_port :: int
  external_port :: "int option"
  usage_purpose :: string

text \<open>The account part of a provision job.\<close>

record account_input =
  a_passwd_hash :: string
  a_gecos :: string
  a_pg_name :: string
  a_supp_groups :: "supp_group list"
  a_expected_uid :: "int option"

text \<open>
  What admin_be answers for a request (the user configuration).  A group of a request may
  not have a gid yet; the field \<open>gid\<close> of the old format mixes numbers and text.
\<close>

record gpu_node =
  gn_name :: string
  gn_num_gpu :: int
  gn_models :: "string list"
  gn_cpu :: "string option"
  gn_mem :: "string option"

datatype gid_value = GidInt int | GidText string

record user_info =
  ui_not_found :: bool
  ui_image :: string
  ui_groups :: "(string \<times> int option) list option"
  ui_gid :: "gid_value list"
  ui_gpu_nodes :: "gpu_node list"
  ui_ports :: "(int \<times> string option) list"
  ui_passwd_hash :: string
  ui_passwd_base64 :: string

text \<open>The parts of a Pod that \<open>build_pod_spec\<close> decides.\<close>

record pod_spec =
  ps_name :: string
  ps_user :: string
  ps_has_gpu :: bool
  ps_node :: string
  ps_priority :: string
  ps_image :: string
  ps_pull :: string
  ps_ports :: "int list"
  ps_uid :: int
  ps_gid :: int
  ps_group :: string
  ps_gpus :: string
  ps_secret :: string
  ps_groups_env :: string
  ps_vnc :: bool
  ps_krb5 :: "string option"
  ps_cpu :: string
  ps_mem :: string
  ps_home :: string

text \<open>What the cluster says of a Pod, its events and a node.\<close>

record container_status =
  cs_name :: string
  cs_id :: "string option"
  cs_running :: bool
  cs_terminated :: "(string option \<times> int option \<times> string option) option"
  cs_waiting :: "(string \<times> string) option"

record pod_view =
  pv_name :: string
  pv_phase :: string
  pv_reason :: "string option"
  pv_ready :: bool
  pv_node :: string
  pv_deleting :: bool
  pv_images :: "string list"
  pv_statuses :: "container_status list"

record pod_event =
  pe_reason :: string
  pe_message :: string
  pe_count :: nat
  pe_time :: int

record k8s_node =
  kn_name :: string
  kn_ready :: bool
  kn_control :: bool

text \<open>The \<open>synced\<close>, \<open>failed\<close> and \<open>error\<close> of an exec on all running Pods.\<close>

record pods_report =
  pr_synced :: "string list"
  pr_failed :: "string list"
  pr_error :: bool

text \<open>A NodePort Service; \<open>svc_decided\<close> is the annotation, 0 if absent or malformed.\<close>

record service =
  svc_name :: string
  svc_user :: string
  svc_pod :: string
  svc_port :: int
  svc_node_port :: int
  svc_purpose :: string
  svc_blocked :: bool
  svc_decided :: int
  svc_version :: nat

text \<open>The stored input of a job; the fields a kind does not use are empty.\<close>

record job =
  j_username :: string
  j_account :: "account_input option"
  j_supp_groups_only :: "supp_group list"
  j_pod_name :: "string option"
  j_node_name :: "string option"
  j_delete_account :: bool
  j_passwd_hash :: string
  j_op :: group_op
  j_group_name :: "string option"
  j_gid :: "int option"
  j_members :: "string list"
  j_groups :: "string list"
  j_expected_uid :: int
  j_ports :: "port_info list"
  j_blocked :: bool
  j_access_blocked :: bool
  j_decided_at :: int
  j_nodes :: "string list"
  j_min_ratio :: "int option"
  j_force :: bool
  j_recreate :: bool
  j_keep_changes :: bool
  j_image :: "string option"

text \<open>
  The step context, a dictionary in the code: a key that may be missing is an
  option, a flag that is only read by truth value a bool.
\<close>

record ctx =
  c_request :: string
  c_username :: string
  c_name :: "string option"
  c_uid :: "int option"
  c_gid :: "int option"
  c_passwd_hash :: string
  c_gecos :: string
  c_pg_name :: "string option"
  c_supp_groups :: "supp_group list"
  c_added_supp :: "(string \<times> int) list"
  c_expected_uid :: "int option"
  c_account_write_started :: "int option"
  c_account_absent_is_goal :: bool
  c_home_created :: bool
  c_home_deleted :: bool
  c_pod_name :: "string option"
  c_node :: "string option"
  c_node_name :: "string option"
  c_pod_node_name :: "string option"
  c_allocated_ports :: "port_info list"
  c_wanted_ports :: "port_info list"
  c_nodes :: "string list"
  c_min_ratio :: int
  c_config_by_request :: bool
  c_user_info :: "user_info option"
  c_node_list :: "string list option"
  c_pod_spec :: "pod_spec option"
  c_v1 :: bool
  c_already_absent :: bool
  c_image :: "string option"
  c_blocked :: bool
  c_decided_at :: int
  c_access_blocked :: bool
  c_access_decided_at :: int
  c_access_services :: int
  c_group_name :: "string option"
  c_group_requested_gid :: "int option"
  c_group_members :: "string list"
  c_group_names :: "string list"
  c_group_gid :: "int option"
  c_group_pods :: "pods_report option"
  c_password_secrets :: "string list"
  c_password_pods :: "pods_report option"
  c_old_pod_name :: "string option"
  c_from_node :: "string option"
  c_force :: bool
  c_recreate :: bool
  c_keep_changes :: bool
  c_skipped :: bool
  c_skip_reason :: "string option"
  c_old_pod_cleanup :: "string option"
  c_committed_image :: "string option"
  c_committed_image_node :: "string option"
  c_verify_ports :: "int list"
  c_verify_node :: "string option"

text \<open>
  A row of \<open>operation_log\<close>, without its timings and free text.  \<open>op_absent\<close> says that the detail
  holds \<open>already_absent\<close>, the one detail the code looks for later.
\<close>

record oprow =
  op_id :: int
  op_job :: "int option"
  op_request :: string
  op_username :: string
  op_pod :: "string option"
  op_node :: "string option"
  op_resource :: "string option"
  op_action :: action
  op_phase :: phase
  op_attempt :: nat
  op_error :: "string option"
  op_absent :: bool

text \<open>What a job keeps for its next owner (\<open>SAVED_CTX_KEYS\<close>).\<close>

record saved =
  sv_uid :: "int option"
  sv_gid :: "int option"
  sv_pod_name :: "string option"
  sv_node :: "string option"
  sv_allocated_ports :: "port_info list"
  sv_pod_node_name :: "string option"
  sv_verify_ports :: "int list"
  sv_verify_node :: "string option"
  sv_home_created :: bool
  sv_account_write_started :: "int option"
  sv_old_pod_name :: "string option"
  sv_from_node :: "string option"
  sv_skipped :: bool
  sv_skip_reason :: "string option"
  sv_old_pod_cleanup :: "string option"
  sv_committed_image :: "string option"
  sv_committed_image_node :: "string option"

text \<open>A row of \<open>job_control\<close>; times are in milliseconds.\<close>

record lease =
  l_owner :: string
  l_until :: int
  l_done :: "step list"
  l_saved :: saved

text \<open>A row of \<open>nodeport_allocations\<close>.\<close>

record nodeport =
  np_port :: int
  np_pod :: string
  np_user :: string
  np_node :: string
  np_internal :: int
  np_purpose :: string
  np_created :: int

text \<open>What \<open>save_job_result\<close> keeps for admin_be: the Pod a job made, and what a migration did.\<close>

record made_pod =
  mp_uid :: "int option"
  mp_gid :: "int option"
  mp_pod :: "string option"
  mp_node :: "string option"
  mp_ports :: "port_info list"

record moved_pod =
  mv_skipped :: bool
  mv_reason :: "string option"
  mv_from :: "string option"
  mv_to :: "string option"
  mv_old_pod :: "string option"
  mv_cleanup :: "string option"
  mv_kept :: bool
  mv_image :: "string option"

datatype result_detail =
    PodResult made_pod
  | ProvisionResult made_pod "(string \<times> int) list"
  | PasswordResult "string list" "pods_report option"
  | GroupResult "int option" "pods_report option"
  | HomeResult bool
  | AccessResult bool int
  | MigrateResult made_pod moved_pod

text \<open>The result of a job, as \<open>_record_job_result\<close> stores it.\<close>

record job_result =
  r_phase :: phase
  r_error :: "string option"
  r_pod :: "string option"
  r_node :: "string option"

text \<open>The Redis entry of a job: its state, its input and, once done, its result.\<close>

datatype job_state = Queued | Running | Done

record job_entry =
  e_state :: job_state
  e_job :: "job option"
  e_result :: "job_result option"

text \<open>A row of \<open>fault_arming\<close>.\<close>

record fault_row =
  fa_id :: int
  fa_username :: string
  fa_boundary :: string
  fa_step :: step
  fa_action :: string
  fa_occurrence :: nat
  fa_fired :: bool

section \<open>External events, the environment and the state\<close>

text \<open>
  The reply of a table, a file or Redis to a write: done, refused, or done with the
  acknowledgement lost, which the code sees as an exception.
\<close>

datatype io_reply = IoOk | IoFailed exn | IoLost exn

text \<open>The ledger files that are read and written by lines.\<close>

datatype lfile = PasswdF | GroupF | ShadowF

text \<open>The commands sent to the NAS over SSH (\<open>utils.py\<close>).\<close>

datatype nas_cmd =
    NasTestExists string
  | NasStatOwner string
  | NasListOwners
  | NasTestRoot
  | NasMkdir string
  | NasChown int int string
  | NasChmod711 string
  | NasRmRf string
  | NasIdGroups "string list"
  | NasFlushGss

text \<open>An external request, as the history records it.\<close>

datatype event =
    EvTime
  | EvSleep int
  | EvLedgerLock
  | EvLedgerUnlock
  | EvLogDb
  | EvFile
  | EvRedis
  | EvNasConnect
  | EvNas nas_cmd
  | EvAdSsh string string
  | EvFarmSsh string string
  | EvDb
  | EvReadSecret string
  | EvCreateSecret string
  | EvPatchSecret string
  | EvSetHash string string
  | EvDeleteSecret string
  | EvReplaceSecret string
  | EvReadPod string
  | EvListPods string
  | EvCreatePod string
  | EvDeletePod string
  | EvWaitDeleted string
  | EvPodLog string
  | EvEvents string
  | EvNodes
  | EvLoadK8s
  | EvServices
  | EvReserved
  | EvExec string string "string list" "string option"
  | EvWas string
  | EvProm string
  | EvUuid
  | EvTcp string int
  | EvAppDb
  | EvImageStore string
  | EvHelper string string
  | EvCrypt
  | EvMtime
  | EvFlushLock
  | EvThread string

type_synonym history = "event list"

text \<open>
  The environment: the configuration constants, and the outside world as functions
  of the history.  \<open>x_interfere\<close> is what other processes did to the ledger while this
  one did not hold the ledger lock, \<open>x_controllers\<close> what other controllers did to
  \<open>job_control\<close> before a statement of this one; \<open>x_nodeports\<close>, \<open>x_cluster\<close>, \<open>x_pending\<close> and
  \<open>x_flush_lock\<close> say the same of the other shared tables.
\<close>

record env =
  cfg_uid_min :: int
  cfg_uid_max :: "int option"
  cfg_shared_gid_min :: int
  cfg_shared_gid_max :: "int option"
  cfg_mode :: run_mode
  cfg_step_max_attempts :: nat
  cfg_verify_max_attempts :: nat
  cfg_retry_delay :: bool
  cfg_krb5 :: bool
  cfg_ad_nodes :: "string list"
  cfg_sudo_commands :: "string list"
  cfg_nfs_root :: string
  cfg_farm_nodes :: "string list"
  cfg_node_port :: "string \<Rightarrow> int"
  cfg_identity_wait :: int
  cfg_identity_poll :: int
  cfg_fuel :: nat
  cfg_owner :: string
  cfg_lease_ttl :: int
  cfg_fault_injection :: bool
  x_now :: "history \<Rightarrow> int"
  x_wall :: "history \<Rightarrow> int"
  x_log_db :: "history \<Rightarrow> io_reply"
  x_db :: "history \<Rightarrow> io_reply"
  x_file :: "history \<Rightarrow> io_reply"
  x_redis :: "history \<Rightarrow> io_reply"
  x_template :: "lfile \<Rightarrow> string option"
  x_controllers :: "history \<Rightarrow> (int \<Rightarrow> lease option) \<Rightarrow> (int \<Rightarrow> lease option)"
  x_ledger_lock :: "history \<Rightarrow> exn option"
  x_interfere :: "history \<Rightarrow> ledger \<Rightarrow> ledger"
  x_nas_connect :: "history \<Rightarrow> exn option"
  x_nas :: "nas_cmd \<Rightarrow> history \<Rightarrow> exn + (int \<times> string)"
  x_ad_ssh :: "string \<Rightarrow> string \<Rightarrow> history \<Rightarrow> exn + (int \<times> string)"
  x_farm_ssh :: "string \<Rightarrow> string \<Rightarrow> history \<Rightarrow> exn + (int \<times> string)"
  x_read_secret :: "string \<Rightarrow> history \<Rightarrow> exn + string"
  x_create_secret :: "string \<Rightarrow> history \<Rightarrow> exn + unit"
  x_patch_secret :: "string \<Rightarrow> history \<Rightarrow> exn + unit"
  x_delete_secret :: "string \<Rightarrow> history \<Rightarrow> exn + unit"
  cfg_nodeport_min :: int
  cfg_nodeport_max :: int
  cfg_reconcile_interval :: int
  cfg_nodeport_grace :: int
  cfg_pod_wait :: nat
  cfg_priority :: string
  cfg_realm :: string
  cfg_cpu_limit :: string
  cfg_mem_limit :: string
  cfg_namespace :: string
  cfg_helper_configured :: bool
  cfg_max_added :: int
  cfg_endpoint_wait :: int
  x_load_k8s :: "history \<Rightarrow> exn option"
  x_read_account_secret :: "string \<Rightarrow> history \<Rightarrow> exn + (string \<times> string)"
  x_replace_secret :: "string \<Rightarrow> history \<Rightarrow> exn + unit"
  x_read_pod :: "string \<Rightarrow> history \<Rightarrow> exn + pod_view"
  x_list_pods :: "string \<Rightarrow> history \<Rightarrow> exn + pod_view list"
  x_create_pod :: "pod_spec \<Rightarrow> history \<Rightarrow> exn + string option"
  x_delete_pod :: "string \<Rightarrow> history \<Rightarrow> exn + unit"
  x_wait_deleted :: "string \<Rightarrow> history \<Rightarrow> exn + bool"
  x_pod_log :: "string \<Rightarrow> history \<Rightarrow> exn + string"
  x_events :: "string \<Rightarrow> history \<Rightarrow> exn + pod_event list"
  x_nodes :: "history \<Rightarrow> exn + k8s_node list"
  x_k8s :: "history \<Rightarrow> io_reply"
  x_cluster :: "history \<Rightarrow> service list \<Rightarrow> service list"
  x_reserved :: "history \<Rightarrow> exn + int list"
  x_exec :: "string \<Rightarrow> string \<Rightarrow> string list \<Rightarrow> string option \<Rightarrow> history \<Rightarrow> exn + string"
  x_was :: "string \<Rightarrow> history \<Rightarrow> exn + (int \<times> user_info option)"
  x_score :: "string \<Rightarrow> history \<Rightarrow> exn + int"
  x_gpus :: "string \<Rightarrow> history \<Rightarrow> exn + (string \<times> int \<times> string) list"
  x_uuid :: "history \<Rightarrow> string"
  x_tcp :: "string \<Rightarrow> int \<Rightarrow> history \<Rightarrow> bool \<times> string"
  x_app_db :: "history \<Rightarrow> io_reply"
  x_nodeports :: "history \<Rightarrow> nodeport list \<Rightarrow> nodeport list"
  x_image_store :: "string \<Rightarrow> history \<Rightarrow> exn + bool"
  x_helper :: "string \<Rightarrow> string \<Rightarrow> history \<Rightarrow> exn + (string + int)"
  x_crypt :: "string \<Rightarrow> history \<Rightarrow> string"
  x_base64 :: "string \<Rightarrow> string option"
  x_mtime :: "history \<Rightarrow> int option"
  x_thread :: "history \<Rightarrow> exn option"
  x_flush_lock :: "history \<Rightarrow> string option \<Rightarrow> string option"
  x_pending :: "history \<Rightarrow> (string \<times> string) list \<Rightarrow> (string \<times> string) list"

text \<open>
  The state.  \<open>lock_depth\<close> is the thread-local depth of \<open>ledger_lock\<close>, \<open>cur_job\<close>,
  \<open>cur_attempt\<close> and \<open>cur_step\<close> the context variables of \<open>operation_log.py\<close>, \<open>fault_seen\<close>
  the process-local count of \<open>fault_injection.py\<close>.  \<open>gss_state\<close> is the content of \<open>.gss_flush_state\<close>
  (nothing if absent or malformed), \<open>flush_lock\<close> the Redis key of \<open>nas_gss_flush_lock.py\<close>.
\<close>

record st =
  led :: ledger
  lock_depth :: nat
  oplog :: "oprow list"
  write_failures :: nat
  job_control :: "int \<Rightarrow> lease option"
  job_inputs :: "kind \<times> string \<Rightarrow> job_entry option"
  job_details :: "kind \<times> string \<Rightarrow> result_detail option"
  pod_status :: "string \<Rightarrow> string option"
  nodeports :: "nodeport list"
  services :: "service list"
  last_reconcile :: int
  krb5_pending :: "(string \<times> string) list"
  gss_state :: "int option"
  flush_lock :: "string option"
  faults :: "fault_row list"
  fault_seen :: "int \<Rightarrow> nat"
  cx :: ctx
  cur_job :: "int option"
  cur_attempt :: nat
  cur_step :: "step option"
  hist :: history

type_synonym 'a cmd = "(st, exn, 'a) prog"

end
