(* ===== verification/Runtime.thy ===== *)
theory Runtime
  imports Types
begin

text \<open>
  What every step function of the config server stands on: the classification of
  failures (\<open>main.py\<close>, \<open>error.py\<close>), the calls to the outside, the operation log
  (\<open>adapters/operation_log.py\<close>) and the ledger lock (\<open>utils.py\<close>).
\<close>

section \<open>Failures\<close>

definition raised :: "exn_kind \<Rightarrow> exn" where
  "raised k = Exn k None None False"

definition raised_from :: "exn_kind \<Rightarrow> exn \<Rightarrow> exn" where
  "raised_from k e = Exn k None (Some e) False"

fun is_timeout_kind :: "exn_kind \<Rightarrow> bool" where
  "is_timeout_kind RequestsReadTimeout = True"
| "is_timeout_kind TimeoutExpired = True"
| "is_timeout_kind UrllibReadTimeout = True"
| "is_timeout_kind _ = False"

text \<open>The link the loop of \<open>_is_unknown_result\<close> follows.\<close>

fun next_exn :: "exn \<Rightarrow> exn option" where
  "next_exn (Exn k r c h) = (if k = MaxRetryError then r else c)"
| "next_exn (StepFailed f c) = c"
| "next_exn (StepDegraded st r c u) = Some c"
| "next_exn (StepRewind st rf c) = Some c"

fun is_timeout :: "exn \<Rightarrow> bool" where
  "is_timeout (Exn k r c h) = is_timeout_kind k"
| "is_timeout _ = False"

text \<open>The loop with \<open>n\<close> rounds left.\<close>

fun unknown_within :: "nat \<Rightarrow> exn option \<Rightarrow> bool" where
  "unknown_within 0 e = False"
| "unknown_within (Suc n) None = False"
| "unknown_within (Suc n) (Some e) = (is_timeout e \<or> unknown_within n (next_exn e))"

definition is_unknown_result :: "exn option \<Rightarrow> bool" where
  "is_unknown_result e = unknown_within 10 e"

definition fail_phase :: "exn \<Rightarrow> phase" where
  "fail_phase e = (if is_unknown_result (Some e) then UNKNOWN else FAIL)"

text \<open>\<open>StepFailed(body, status, cause, retry, restart_from)\<close>; \<open>unknown\<close> is computed from the cause.\<close>

definition step_failed ::
  "string option \<Rightarrow> string \<Rightarrow> int \<Rightarrow> exn option \<Rightarrow> bool \<Rightarrow> step option \<Rightarrow> exn" where
  "step_failed st err status c retry restart =
     StepFailed \<lparr>f_error = err, f_step = st, f_status = status, f_unknown = is_unknown_result c,
                 f_retry = retry, f_restart = restart\<rparr> None"

text \<open>\<open>StepFailed({"error": ...}, status)\<close>.\<close>

definition plain_failed :: "string \<Rightarrow> int \<Rightarrow> exn" where
  "plain_failed err status = step_failed None err status None True None"

text \<open>\<open>StepFailed(infra_error(step, error, ...), status, cause=...)\<close>.\<close>

definition infra_failed :: "string \<Rightarrow> string \<Rightarrow> int \<Rightarrow> exn option \<Rightarrow> exn" where
  "infra_failed st err status c = step_failed (Some st) err status c True None"

fun is_step_failed :: "exn \<Rightarrow> bool" where
  "is_step_failed (StepFailed f c) = True"
| "is_step_failed _ = False"

fun is_lease_lost :: "exn \<Rightarrow> bool" where
  "is_lease_lost (Exn k r c h) = (k = LeaseLost)"
| "is_lease_lost _ = False"

lemma is_step_failed_step_failed [simp]:
  "is_step_failed (step_failed a b c d e f)" "is_step_failed (plain_failed b c)"
  "is_step_failed (infra_failed g b c d)"
  by (simp_all add: step_failed_def plain_failed_def infra_failed_def)

text \<open>The chain of links, and what the bounded loop finds on it.\<close>

primrec chain :: "nat \<Rightarrow> exn option \<Rightarrow> exn option" where
  "chain 0 e = e"
| "chain (Suc n) e = (case e of None \<Rightarrow> None | Some x \<Rightarrow> chain n (next_exn x))"

lemma unknown_within_chain:
  "unknown_within n e \<longleftrightarrow> (\<exists>i<n. \<exists>x. chain i e = Some x \<and> is_timeout x)"
proof (induction n arbitrary: e)
  case 0
  then show ?case by simp
next
  case (Suc n)
  show ?case
  proof (cases e)
    case None
    have "chain i (None :: exn option) = None" for i by (cases i) auto
    with None show ?thesis by simp
  next
    case (Some x)
    then show ?thesis
      by (simp add: Suc Ex_less_Suc2)
  qed
qed

section \<open>Calls to the outside\<close>

text \<open>A normal form for nested updates of the state: the ledger outermost, the history innermost.\<close>

lemma st_order:
  "hist_update a (led_update b s) = led_update b (hist_update a s)"
  "hist_update a (lock_depth_update c s) = lock_depth_update c (hist_update a s)"
  "hist_update a (cx_update d s) = cx_update d (hist_update a s)"
  "hist_update a (oplog_update f s) = oplog_update f (hist_update a s)"
  "hist_update a (write_failures_update g s) = write_failures_update g (hist_update a s)"
  "write_failures_update g (led_update b s) = led_update b (write_failures_update g s)"
  "write_failures_update g (lock_depth_update c s) = lock_depth_update c (write_failures_update g s)"
  "write_failures_update g (cx_update d s) = cx_update d (write_failures_update g s)"
  "write_failures_update g (oplog_update f s) = oplog_update f (write_failures_update g s)"
  "oplog_update f (led_update b s) = led_update b (oplog_update f s)"
  "oplog_update f (lock_depth_update c s) = lock_depth_update c (oplog_update f s)"
  "oplog_update f (cx_update d s) = cx_update d (oplog_update f s)"
  "lock_depth_update c (led_update b s) = led_update b (lock_depth_update c s)"
  "lock_depth_update c (cx_update d s) = cx_update d (lock_depth_update c s)"
  "cx_update d (led_update b s) = led_update b (cx_update d s)"
  by (cases s; simp)+

text \<open>\<open>ext ev f\<close>: send the request \<open>ev\<close>; the outside answers by \<open>f\<close> at the current history.\<close>

definition ext :: "event \<Rightarrow> (history \<Rightarrow> exn + 'a) \<Rightarrow> 'a cmd" where
  "ext ev f = (\<lambda>s. (f (hist s), s\<lparr>hist := ev # hist s\<rparr>))"

text \<open>\<open>io ev f upd\<close>: a write whose effect on the state is \<open>upd\<close>.\<close>

definition io :: "event \<Rightarrow> (history \<Rightarrow> io_reply) \<Rightarrow> (st \<Rightarrow> st) \<Rightarrow> unit cmd" where
  "io ev f upd = (\<lambda>s. let s' = s\<lparr>hist := ev # hist s\<rparr> in
     case f (hist s) of IoOk \<Rightarrow> (Inr (), upd s') | IoFailed e \<Rightarrow> (Inl e, s') | IoLost e \<Rightarrow> (Inl e, upd s'))"

definition rd :: "event \<Rightarrow> (history \<Rightarrow> io_reply) \<Rightarrow> (st \<Rightarrow> 'a) \<Rightarrow> 'a cmd" where
  "rd ev f g = thn (io ev f (\<lambda>s. s)) (getS g)"

lemma wp_ext [wp_simps]:
  "wp (ext ev f) Q R = (\<lambda>s. case f (hist s) of Inl e \<Rightarrow> R e (s\<lparr>hist := ev # hist s\<rparr>)
                                          | Inr a \<Rightarrow> Q a (s\<lparr>hist := ev # hist s\<rparr>))"
  by (simp add: wp_def ext_def fun_eq_iff)

lemma wp_io [wp_simps]:
  "wp (io ev f upd) Q R =
     (\<lambda>s. case f (hist s) of IoOk \<Rightarrow> Q () (upd (s\<lparr>hist := ev # hist s\<rparr>))
      | IoFailed e \<Rightarrow> R e (s\<lparr>hist := ev # hist s\<rparr>)
      | IoLost e \<Rightarrow> R e (upd (s\<lparr>hist := ev # hist s\<rparr>)))"
  by (simp add: wp_def io_def Let_def fun_eq_iff split: io_reply.splits)

lemma wp_rd [wp_simps]:
  "wp (rd ev f g) Q R =
     (\<lambda>s. case f (hist s) of IoOk \<Rightarrow> Q (g (s\<lparr>hist := ev # hist s\<rparr>)) (s\<lparr>hist := ev # hist s\<rparr>)
      | IoFailed e \<Rightarrow> R e (s\<lparr>hist := ev # hist s\<rparr>)
      | IoLost e \<Rightarrow> R e (s\<lparr>hist := ev # hist s\<rparr>))"
  by (simp add: rd_def wp_simps fun_eq_iff split: io_reply.splits)

lemma raises_ext [raises_intros]: "(\<And>h e. f h = Inl e \<Longrightarrow> P e) \<Longrightarrow> raises P (ext ev f)"
  by (auto simp: raises_def ext_def)

lemma raises_io [raises_intros]:
  assumes "\<And>h e. f h = IoFailed e \<Longrightarrow> P e" "\<And>h e. f h = IoLost e \<Longrightarrow> P e"
  shows "raises P (io ev f upd)" "raises P (rd ev f g)"
  using assms by (auto simp: raises_def rd_def io_def Let_def run split: io_reply.splits)

lemma keeps_ext [keeps_intros]:
  "(\<And>s h. obs (s\<lparr>hist := h\<rparr>) = obs s) \<Longrightarrow> keeps obs (ext ev f)"
  by (simp add: keeps_def ext_def)

lemma keeps_io [keeps_intros]:
  "(\<And>s h. obs (s\<lparr>hist := h\<rparr>) = obs s) \<Longrightarrow> (\<And>s. obs (upd s) = obs s) \<Longrightarrow> keeps obs (io ev f upd)"
  by (simp add: keeps_def io_def Let_def split: io_reply.splits)

lemma keeps_rd [keeps_intros]: "(\<And>s h. obs (s\<lparr>hist := h\<rparr>) = obs s) \<Longrightarrow> keeps obs (rd ev f g)"
  by (simp add: rd_def keeps_intros)

text \<open>The step context.\<close>

definition getC :: "(ctx \<Rightarrow> 'a) \<Rightarrow> 'a cmd" where
  "getC f = getS (\<lambda>s. f (cx s))"

definition modC :: "(ctx \<Rightarrow> ctx) \<Rightarrow> unit cmd" where
  "modC f = modS (\<lambda>s. s\<lparr>cx := f (cx s)\<rparr>)"

text \<open>\<open>ctx["key"]\<close> on a key that may be missing.\<close>

definition needC :: "(ctx \<Rightarrow> 'a option) \<Rightarrow> 'a cmd" where
  "needC f = bnd (getC f) (\<lambda>x. case x of None \<Rightarrow> throw (raised KeyError) | Some a \<Rightarrow> ret a)"

lemma wp_getC [wp_simps]: "wp (getC f) Q R = (\<lambda>s. Q (f (cx s)) s)"
  and wp_modC [wp_simps]: "wp (modC g) Q' R = (\<lambda>s. Q' () (s\<lparr>cx := g (cx s)\<rparr>))"
  and wp_needC [wp_simps]:
    "wp (needC k) Q'' R = (\<lambda>s. case k (cx s) of None \<Rightarrow> R (raised KeyError) s | Some a \<Rightarrow> Q'' a s)"
  by (simp_all add: getC_def modC_def needC_def wp_simps fun_eq_iff split: option.splits)

lemma keeps_getC [keeps_intros]: "keeps obs (getC f)"
  and keeps_needC [keeps_intros]: "keeps obs (needC k)"
  by (simp_all add: getC_def needC_def keeps_intros)

lemma keeps_modC [keeps_intros]: "(\<And>s c. obs (s\<lparr>cx := c\<rparr>) = obs s) \<Longrightarrow> keeps obs (modC g)"
  by (simp add: modC_def keeps_modS)

section \<open>The operation log\<close>

definition next_row_id :: "oprow list \<Rightarrow> int" where
  "next_row_id rows = max_default 0 (map op_id rows) + 1"

text \<open>The arguments of \<open>log_operation\<close> with their defaults: \<open>lo_attempt\<close> 1, no pod, no node.\<close>

record logargs =
  lo_request :: string
  lo_username :: string
  lo_action :: action
  lo_phase :: phase
  lo_pod :: "string option"
  lo_node :: "string option"
  lo_resource :: "string option"
  lo_attempt :: nat
  lo_error :: "string option"
  lo_absent :: bool
  lo_raise :: bool
  lo_job :: "int option"
  lo_start_job :: bool

definition logargs :: "string \<Rightarrow> string \<Rightarrow> action \<Rightarrow> phase \<Rightarrow> logargs" where
  "logargs r u a p = \<lparr>lo_request = r, lo_username = u, lo_action = a, lo_phase = p, lo_pod = None,
     lo_node = None, lo_resource = None, lo_attempt = 1, lo_error = None, lo_absent = False, lo_raise = False,
     lo_job = None, lo_start_job = False\<rparr>"

text \<open>The row \<open>log_operation\<close> inserts in state \<open>s\<close>.\<close>

definition log_row :: "logargs \<Rightarrow> st \<Rightarrow> oprow" where
  "log_row a s = (let i = next_row_id (oplog s) in
     \<lparr>op_id = i,
      op_job = (if lo_start_job a then Some i
                else (case lo_job a of None \<Rightarrow> cur_job s | Some j \<Rightarrow> Some j)),
      op_request = lo_request a, op_username = lo_username a, op_pod = lo_pod a, op_node = lo_node a,
      op_resource = lo_resource a, op_action = lo_action a, op_phase = lo_phase a,
      op_attempt = (if lo_attempt a = 1 then cur_attempt s else lo_attempt a),
      op_error = lo_error a, op_absent = lo_absent a\<rparr>)"

definition log_operation_id :: "env \<Rightarrow> logargs \<Rightarrow> int option cmd" where
  "log_operation_id E a =
     bnd (getS (log_row a)) (\<lambda>row.
       tryE (thn (io EvLogDb (x_log_db E) (\<lambda>s. s\<lparr>oplog := oplog s @ [row]\<rparr>)) (ret (Some (op_id row))))
            (\<lambda>e. thn (modS (\<lambda>s. s\<lparr>write_failures := Suc (write_failures s)\<rparr>))
                      (if lo_raise a then throw e else ret None)))"

definition log_operation :: "env \<Rightarrow> logargs \<Rightarrow> unit cmd" where
  "log_operation E a = bnd (log_operation_id E a) (\<lambda>_. ret ())"

text \<open>The rows of the step functions carry the request, the user and a resource type.\<close>

definition log_step :: "env \<Rightarrow> string \<Rightarrow> string \<Rightarrow> string \<Rightarrow> action \<Rightarrow> phase \<Rightarrow> string option \<Rightarrow> unit cmd" where
  "log_step E req user res act ph err =
     log_operation E ((logargs req user act ph)\<lparr>lo_resource := Some res, lo_error := err\<rparr>)"

lemma log_operation_never_raises: "\<not> lo_raise a \<Longrightarrow> \<exists>t. log_operation E a s = (Inr (), t)"
  by (auto simp: log_operation_def log_operation_id_def io_def Let_def run split: io_reply.splits)

lemma raises_log_operation [raises_intros]: "\<not> lo_raise a \<Longrightarrow> raises P (log_operation E a)"
  unfolding raises_def using log_operation_never_raises by (metis Inr_Inl_False fst_conv)

lemma raises_log_step [raises_intros]: "raises P (log_step E r u res act ph err)"
  unfolding log_step_def by (rule raises_log_operation) (simp add: logargs_def)

lemma keeps_log_operation_id [keeps_intros]:
  assumes "\<And>s h. obs (s\<lparr>hist := h\<rparr>) = obs s" "\<And>s l. obs (s\<lparr>oplog := l\<rparr>) = obs s"
    and "\<And>s n. obs (s\<lparr>write_failures := n\<rparr>) = obs s"
  shows "keeps obs (log_operation_id E a)"
  unfolding log_operation_id_def by (intro keeps_intros keeps_modS) (simp_all add: assms)

lemma keeps_log_operation [keeps_intros]:
  assumes "\<And>s h. obs (s\<lparr>hist := h\<rparr>) = obs s" "\<And>s l. obs (s\<lparr>oplog := l\<rparr>) = obs s"
    and "\<And>s n. obs (s\<lparr>write_failures := n\<rparr>) = obs s"
  shows "keeps obs (log_operation E a)"
  unfolding log_operation_def by (intro keeps_intros) (simp_all add: assms)

lemma keeps_log_step [keeps_intros]:
  assumes "\<And>s h. obs (s\<lparr>hist := h\<rparr>) = obs s" "\<And>s l. obs (s\<lparr>oplog := l\<rparr>) = obs s"
    and "\<And>s n. obs (s\<lparr>write_failures := n\<rparr>) = obs s"
  shows "keeps obs (log_step E r u res act ph err)"
  unfolding log_step_def by (intro keeps_intros) (simp_all add: assms)

text \<open>
  A log row and a request to the outside never change what the step functions
  compute on.  \<open>after L s t\<close>: \<open>t\<close> differs from \<open>s\<close> at most in the history, the log and
  the count of lost log rows, and in that its ledger is \<open>L\<close>.  The rules of the
  operations on the ledger speak of the states after them in these terms.
\<close>

definition no_ledger :: ledger where
  "no_ledger = \<lparr>passwd_file = [], group_file = [], shadow_file = [], sudoers = (\<lambda>_. None),
                issued_ids = IssuedAbsent\<rparr>"

definition core :: "st \<Rightarrow> st" where
  "core s = s\<lparr>hist := [], oplog := [], write_failures := 0, lock_depth := 0, led := no_ledger\<rparr>"

definition after :: "ledger \<Rightarrow> st \<Rightarrow> st \<Rightarrow> bool" where
  "after L s t \<longleftrightarrow> core t = core s \<and> lock_depth t = lock_depth s \<and> led t = L"

abbreviation like :: "st \<Rightarrow> st \<Rightarrow> bool" where
  "like s t \<equiv> after (led s) s t"

lemma core_upd [simp]:
  "core (hist_update h s) = core s" "core (oplog_update l s) = core s"
  "core (write_failures_update n s) = core s" "core (led_update x s) = core s"
  "core (lock_depth_update d s) = core s" "core (cx_update c s) = cx_update c (core s)"
  by (simp_all add: core_def)

lemma core_sel [simp]:
  "cx (core s) = cx s" "job_control (core s) = job_control s" "job_inputs (core s) = job_inputs s"
  "nodeports (core s) = nodeports s" "krb5_pending (core s) = krb5_pending s"
  "cur_job (core s) = cur_job s" "cur_attempt (core s) = cur_attempt s" "cur_step (core s) = cur_step s"
  by (simp_all add: core_def)

lemma after_refl [simp]: "after (led s) s s"
  by (simp add: after_def)

lemma after_trans: "after L s t \<Longrightarrow> after M t u \<Longrightarrow> after M s u"
  by (simp add: after_def)

lemma afterD:
  assumes "after L s t"
  shows "led t = L" "lock_depth t = lock_depth s" "cx t = cx s"
    "job_control t = job_control s" "job_inputs t = job_inputs s" "nodeports t = nodeports s"
    "krb5_pending t = krb5_pending s" "cur_job t = cur_job s" "cur_attempt t = cur_attempt s"
    "cur_step t = cur_step s"
  using assms unfolding after_def by (metis core_sel)+

lemma after_upd [simp]:
  "after L s (hist_update h t) = after L s t" "after L s (oplog_update l t) = after L s t"
  "after L s (write_failures_update n t) = after L s t"
  by (simp_all add: after_def)

text \<open>Inside a nested ledger lock.\<close>

lemma after_unlock:
  "after L (s\<lparr>lock_depth := Suc (lock_depth s)\<rparr>) t \<Longrightarrow> after L s (t\<lparr>lock_depth := lock_depth t - Suc 0\<rparr>)"
  by (simp add: after_def)

lemma wp_log_operation:
  assumes "\<And>t. like s t \<Longrightarrow> Q () t" and "\<not> lo_raise a"
  shows "wp (log_operation E a) Q R s"
  using assms
  by (simp add: log_operation_def log_operation_id_def wp_simps split: io_reply.splits)

lemma wp_log_step:
  assumes "\<And>t. like s t \<Longrightarrow> Q () t"
  shows "wp (log_step E r u res act ph err) Q R s"
  unfolding log_step_def by (rule wp_log_operation) (simp_all add: assms logargs_def)

section \<open>The ledger lock\<close>

text \<open>Getting the lock outermost lets what other processes did to the ledger show.\<close>

definition acquire_ledger_lock :: "env \<Rightarrow> unit cmd" where
  "acquire_ledger_lock E = (\<lambda>s. case x_ledger_lock E (hist s) of
       Some e \<Rightarrow> (Inl e, s\<lparr>hist := EvLedgerLock # hist s\<rparr>)
     | None \<Rightarrow> (Inr (), s\<lparr>led := x_interfere E (hist s) (led s), lock_depth := 1,
                         hist := EvLedgerLock # hist s\<rparr>))"

definition release_ledger_lock :: "unit cmd" where
  "release_ledger_lock = modS (\<lambda>s. s\<lparr>lock_depth := 0, hist := EvLedgerUnlock # hist s\<rparr>)"

definition ledger_lock :: "env \<Rightarrow> 'a cmd \<Rightarrow> 'a cmd" where
  "ledger_lock E m =
     bnd (getS lock_depth) (\<lambda>d.
       if 0 < d
       then thn (modS (\<lambda>s. s\<lparr>lock_depth := d + 1\<rparr>))
                (finallyE m (modS (\<lambda>s. s\<lparr>lock_depth := lock_depth s - 1\<rparr>)))
       else thn (acquire_ledger_lock E) (finallyE m release_ledger_lock))"

text \<open>The outside raises exceptions of its own, never those of the step machinery.\<close>

fun plain :: "exn \<Rightarrow> bool" where
  "plain (Exn k r c h) = (k \<noteq> LeaseLost \<and> k \<noteq> OutOfFuel)"
| "plain _ = False"

definition plain_files :: "env \<Rightarrow> bool" where
  "plain_files E \<longleftrightarrow> (\<forall>h e. x_file E h = IoFailed e \<or> x_file E h = IoLost e \<longrightarrow> plain e) \<and>
     (\<forall>h e. x_ledger_lock E h = Some e \<longrightarrow> plain e)"

lemma plain_not_step_failed: "plain e \<Longrightarrow> \<not> is_step_failed e" "plain e \<Longrightarrow> \<not> is_lease_lost e"
  by (cases e; simp)+

lemma plain_raised [simp]: "plain (raised k) = (k \<noteq> LeaseLost \<and> k \<noteq> OutOfFuel)"
  "plain (raised_from k e) = (k \<noteq> LeaseLost \<and> k \<noteq> OutOfFuel)"
  by (simp_all add: raised_def raised_from_def)

lemma plain_filesD: "plain_files E \<Longrightarrow> x_file E h = IoFailed e \<Longrightarrow> plain e"
  "plain_files E \<Longrightarrow> x_file E h = IoLost e \<Longrightarrow> plain e"
  "plain_files E \<Longrightarrow> x_ledger_lock E h = Some e \<Longrightarrow> plain e"
  by (auto simp: plain_files_def)

lemma raises_ledger_lock [raises_intros]:
  assumes "raises P m" "\<And>h e. x_ledger_lock E h = Some e \<Longrightarrow> P e"
  shows "raises P (ledger_lock E m)"
proof -
  have "raises P (acquire_ledger_lock E)"
    by (auto simp: raises_def acquire_ledger_lock_def assms(2) split: option.splits)
  with assms(1) show ?thesis
    unfolding ledger_lock_def release_ledger_lock_def by (intro raises_intros)
qed

lemma wp_acquire_ledger_lock [wp_simps]:
  "wp (acquire_ledger_lock E) Q R =
     (\<lambda>s. case x_ledger_lock E (hist s) of
        Some e \<Rightarrow> R e (s\<lparr>hist := EvLedgerLock # hist s\<rparr>)
      | None \<Rightarrow> Q () (s\<lparr>led := x_interfere E (hist s) (led s), lock_depth := 1,
                       hist := EvLedgerLock # hist s\<rparr>))"
  by (simp add: acquire_ledger_lock_def wp_def fun_eq_iff split: option.splits)

lemma keeps_acquire [keeps_intros]:
  assumes "\<And>s h. obs (s\<lparr>hist := h\<rparr>) = obs s" "\<And>s l. obs (s\<lparr>led := l\<rparr>) = obs s"
    and "\<And>s n. obs (s\<lparr>lock_depth := n\<rparr>) = obs s"
  shows "keeps obs (acquire_ledger_lock E)"
  by (simp add: keeps_def acquire_ledger_lock_def assms split: option.splits)

lemma keeps_ledger_lock [keeps_intros]:
  assumes "keeps obs m" "\<And>s h. obs (s\<lparr>hist := h\<rparr>) = obs s" "\<And>s l. obs (s\<lparr>led := l\<rparr>) = obs s"
    and "\<And>s n. obs (s\<lparr>lock_depth := n\<rparr>) = obs s"
  shows "keeps obs (ledger_lock E m)"
  unfolding ledger_lock_def release_ledger_lock_def
  by (intro keeps_intros keeps_modS) (simp_all add: assms)

text \<open>The body of the lock runs with the lock held, and the depth is restored on every exit.\<close>

lemma ledger_lock_depth:
  assumes "keeps lock_depth m"
  shows "keeps lock_depth (ledger_lock E m)"
proof -
  have k: "lock_depth (snd (m s)) = lock_depth s" for s
    using assms by (simp add: keeps_def)
  have "lock_depth (snd (ledger_lock E m s)) = lock_depth s" for s
  proof (cases "0 < lock_depth s")
    case True
    obtain r t where m: "m (s\<lparr>lock_depth := lock_depth s + 1\<rparr>) = (r, t)" by fastforce
    with k[of "s\<lparr>lock_depth := lock_depth s + 1\<rparr>"] have "lock_depth t = lock_depth s + 1" by simp
    with m True show ?thesis by (simp add: ledger_lock_def run)
  next
    case False
    then show ?thesis
      by (simp add: ledger_lock_def release_ledger_lock_def acquire_ledger_lock_def run
          split: option.splits prod.splits sum.splits)
  qed
  then show ?thesis by (simp add: keeps_def)
qed

lemma wp_ledger_lock_held [wp_simps]:
  "0 < lock_depth s \<Longrightarrow>
   wp (ledger_lock E m) Q R s =
     wp m (\<lambda>a t. Q a (t\<lparr>lock_depth := lock_depth t - 1\<rparr>)) (\<lambda>e t. R e (t\<lparr>lock_depth := lock_depth t - 1\<rparr>))
        (s\<lparr>lock_depth := lock_depth s + 1\<rparr>)"
  by (simp add: ledger_lock_def wp_simps)

lemma wp_ledger_lock_free:
  "lock_depth s = 0 \<Longrightarrow>
   wp (ledger_lock E m) Q R s =
     (case x_ledger_lock E (hist s) of
        Some e \<Rightarrow> R e (s\<lparr>hist := EvLedgerLock # hist s\<rparr>)
      | None \<Rightarrow>
         wp m (\<lambda>a t. Q a (t\<lparr>lock_depth := 0, hist := EvLedgerUnlock # hist t\<rparr>))
              (\<lambda>e t. R e (t\<lparr>lock_depth := 0, hist := EvLedgerUnlock # hist t\<rparr>))
              (s\<lparr>led := x_interfere E (hist s) (led s), lock_depth := 1, hist := EvLedgerLock # hist s\<rparr>))"
  by (simp add: ledger_lock_def release_ledger_lock_def wp_simps split: option.splits)

end
