(* ===== verification/Ledger.thy ===== *)
theory Ledger
  imports Runtime
begin

text \<open>
  The account ledger of \<open>utils.py\<close>: the line formats of \<open>passwd\<close>, \<open>group\<close> and
  \<open>shadow\<close>, reading and writing the files by lines under the ledger lock, the record
  of issued numbers and the sudoers files.

  The three line formats are interpretations of one interface, \<open>line_codec\<close>: what is
  formatted parses back and stays on its line.  The lemmas on appending and removing
  entries are proved once there.
\<close>

section \<open>Line formats\<close>

text \<open>\<open>_ledger_field\<close>: a field may not hold a colon or a line break.\<close>

definition ledger_field :: "string \<Rightarrow> exn + string" where
  "ledger_field text = (if CHR '':'' \<in> set text \<or> list_ex line_break text
                        then Inl (raised ValueError) else Inr text)"

definition show_opt :: "int option \<Rightarrow> string" where
  "show_opt v = (case v of None \<Rightarrow> '''' | Some i \<Rightarrow> show_int i)"

text \<open>A final newline before \<open>$\<close>.\<close>

definition strip_final_nl :: "string \<Rightarrow> string" where
  "strip_final_nl l = (if l \<noteq> [] \<and> last l = NL then butlast l else l)"

text \<open>The last field of a line: \<open>[^\n]*$\<close>.\<close>

definition last_field :: "string \<Rightarrow> string option" where
  "last_field f = (if NL \<in> set f then None else Some f)"

definition parse_passwd_line :: "string \<Rightarrow> passwd_entry option" where
  "parse_passwd_line line = do {
     (name, r1) \<leftarrow> cut (strip_final_nl line);
     (passwd, r2) \<leftarrow> cut r1;
     (uid, r3) \<leftarrow> cut r2;
     (gid, r4) \<leftarrow> cut r3;
     (gecos, r5) \<leftarrow> cut r4;
     (home, r6) \<leftarrow> cut r5;
     shell \<leftarrow> last_field r6;
     u \<leftarrow> read_digits uid;
     g \<leftarrow> read_digits gid;
     if name = [] then None
     else Some \<lparr>pw_name = name, pw_passwd = passwd, pw_uid = u, pw_gid = g, pw_gecos = gecos,
                pw_home = home, pw_shell = shell\<rparr> }"

definition format_passwd_entry :: "passwd_entry \<Rightarrow> exn + string" where
  "format_passwd_entry d =
     bindE (ledger_field (pw_name d)) (\<lambda>name.
     bindE (ledger_field (pw_passwd d)) (\<lambda>passwd.
     bindE (ledger_field (pw_gecos d)) (\<lambda>gecos.
     bindE (ledger_field (pw_home d)) (\<lambda>home.
     bindE (ledger_field (pw_shell d)) (\<lambda>shell.
     Inr (name @ '':'' @ passwd @ '':'' @ show_int (pw_uid d) @ '':'' @ show_int (pw_gid d) @ '':''
          @ gecos @ '':'' @ home @ '':'' @ shell))))))"

definition parse_group_line :: "string \<Rightarrow> group_entry option" where
  "parse_group_line line = do {
     (name, r1) \<leftarrow> cut (strip_final_nl line);
     (passwd, r2) \<leftarrow> cut r1;
     (gid, r3) \<leftarrow> cut r2;
     members \<leftarrow> last_field r3;
     g \<leftarrow> read_digits gid;
     if name = [] then None
     else Some \<lparr>gr_name = name, gr_passwd = passwd, gr_gid = g,
                gr_members = filter (\<lambda>x. x \<noteq> []) (split_on CHR '','' members)\<rparr> }"

definition format_group_entry :: "group_entry \<Rightarrow> exn + string" where
  "format_group_entry d =
     bindE (mapE ledger_field (gr_members d)) (\<lambda>members.
     bindE (ledger_field (gr_name d)) (\<lambda>name.
     bindE (ledger_field (gr_passwd d)) (\<lambda>passwd.
     Inr (name @ '':'' @ passwd @ '':'' @ show_int (gr_gid d) @ '':'' @ join '','' members))))"

definition parse_shadow_line :: "string \<Rightarrow> shadow_entry option" where
  "parse_shadow_line line = do {
     (name, r1) \<leftarrow> cut (strip_final_nl line);
     (passwd, r2) \<leftarrow> cut r1;
     (lastchg, r3) \<leftarrow> cut r2;
     (mn, r4) \<leftarrow> cut r3;
     (mx, r5) \<leftarrow> cut r4;
     (warn, r6) \<leftarrow> cut r5;
     (inactive, r7) \<leftarrow> cut r6;
     (expire, r8) \<leftarrow> cut r7;
     flag \<leftarrow> last_field r8;
     l \<leftarrow> read_opt_digits lastchg;
     i \<leftarrow> read_opt_digits mn;
     a \<leftarrow> read_opt_digits mx;
     w \<leftarrow> read_opt_digits warn;
     n \<leftarrow> read_opt_digits inactive;
     e \<leftarrow> read_opt_digits expire;
     if name = [] \<or> CHR '':'' \<in> set flag then None
     else Some \<lparr>sp_name = name, sp_passwd = passwd, sp_lastchg = l, sp_min = i, sp_max = a, sp_warn = w,
                sp_inactive = n, sp_expire = e, sp_flag = flag\<rparr> }"

definition format_shadow_entry :: "shadow_entry \<Rightarrow> exn + string" where
  "format_shadow_entry d =
     bindE (ledger_field (sp_name d)) (\<lambda>name.
     bindE (ledger_field (sp_passwd d)) (\<lambda>passwd.
     bindE (ledger_field (show_opt (sp_lastchg d))) (\<lambda>lastchg.
     bindE (ledger_field (show_opt (sp_min d))) (\<lambda>mn.
     bindE (ledger_field (show_opt (sp_max d))) (\<lambda>mx.
     bindE (ledger_field (show_opt (sp_warn d))) (\<lambda>warn.
     bindE (ledger_field (show_opt (sp_inactive d))) (\<lambda>inactive.
     bindE (ledger_field (show_opt (sp_expire d))) (\<lambda>expire.
     bindE (ledger_field (sp_flag d)) (\<lambda>flag.
     Inr (name @ '':'' @ passwd @ '':'' @ lastchg @ '':'' @ mn @ '':'' @ mx @ '':'' @ warn @ '':''
          @ inactive @ '':'' @ expire @ '':'' @ flag))))))))))"

subsection \<open>What fits on a line\<close>

definition plain_field :: "string \<Rightarrow> bool" where
  "plain_field f \<longleftrightarrow> CHR '':'' \<notin> set f \<and> unbroken f"

lemma ledger_field_Inr_iff: "ledger_field f = Inr g \<longleftrightarrow> plain_field f \<and> g = f"
  by (auto simp: ledger_field_def plain_field_def unbroken_def list_ex_iff)

lemma ledger_field_plain [simp]: "plain_field f \<Longrightarrow> ledger_field f = Inr f"
  by (simp add: ledger_field_Inr_iff)

lemma plain_field_show [simp]: "plain_field (show_int i)" "plain_field (show_opt v)" "plain_field []"
  by (simp_all add: plain_field_def show_opt_def split: option.splits)

lemma plain_fieldD: "plain_field f \<Longrightarrow> CHR '':'' \<notin> set f" "plain_field f \<Longrightarrow> unbroken f"
  "plain_field f \<Longrightarrow> NL \<notin> set f"
  by (simp_all add: plain_field_def unbroken_no_NL)

lemma unbroken_strip [simp]: "unbroken l \<Longrightarrow> strip_final_nl l = l"
  unfolding strip_final_nl_def by (metis last_in_set unbroken_no_NL)

lemma colon_unbroken [simp]: "\<not> line_break CHR '':''" "\<not> line_break CHR '',''"
  by (simp_all add: line_break_def)

lemma last_field_plain [simp]: "NL \<notin> set f \<Longrightarrow> last_field f = Some f"
  by (simp add: last_field_def)

lemma read_opt_digits_show_opt [simp]:
  "(case v of None \<Rightarrow> True | Some i \<Rightarrow> 0 \<le> i) \<Longrightarrow> read_opt_digits (show_opt v) = Some v"
  by (cases v) (simp_all add: show_opt_def)

text \<open>The entries the formats can hold: a name, numbers that are not negative, members that are
  names and not lists of names.\<close>

definition passwd_ok :: "passwd_entry \<Rightarrow> bool" where
  "passwd_ok d \<longleftrightarrow> pw_name d \<noteq> [] \<and> 0 \<le> pw_uid d \<and> 0 \<le> pw_gid d"

definition group_ok :: "group_entry \<Rightarrow> bool" where
  "group_ok d \<longleftrightarrow> gr_name d \<noteq> [] \<and> 0 \<le> gr_gid d \<and> (\<forall>m\<in>set (gr_members d). m \<noteq> [] \<and> CHR '','' \<notin> set m)"

definition nonneg_opt :: "int option \<Rightarrow> bool" where
  "nonneg_opt v = (case v of None \<Rightarrow> True | Some i \<Rightarrow> 0 \<le> i)"

definition shadow_ok :: "shadow_entry \<Rightarrow> bool" where
  "shadow_ok d \<longleftrightarrow> sp_name d \<noteq> [] \<and> nonneg_opt (sp_lastchg d) \<and> nonneg_opt (sp_min d) \<and> nonneg_opt (sp_max d)
     \<and> nonneg_opt (sp_warn d) \<and> nonneg_opt (sp_inactive d) \<and> nonneg_opt (sp_expire d)"

lemma format_passwd_Inr:
  "format_passwd_entry d = Inr l \<longleftrightarrow>
     plain_field (pw_name d) \<and> plain_field (pw_passwd d) \<and> plain_field (pw_gecos d) \<and> plain_field (pw_home d)
     \<and> plain_field (pw_shell d) \<and>
     l = pw_name d @ '':'' @ pw_passwd d @ '':'' @ show_int (pw_uid d) @ '':'' @ show_int (pw_gid d)
         @ '':'' @ pw_gecos d @ '':'' @ pw_home d @ '':'' @ pw_shell d"
  by (auto simp: format_passwd_entry_def bindE_Inr_iff ledger_field_Inr_iff)

lemma mapE_ledger_field: "mapE ledger_field ms = Inr ns \<longleftrightarrow> (\<forall>m\<in>set ms. plain_field m) \<and> ns = ms"
  by (induction ms arbitrary: ns) (auto simp: bindE_Inr_iff ledger_field_Inr_iff)

lemma format_group_Inr:
  "format_group_entry d = Inr l \<longleftrightarrow>
     (\<forall>m\<in>set (gr_members d). plain_field m) \<and> plain_field (gr_name d) \<and> plain_field (gr_passwd d) \<and>
     l = gr_name d @ '':'' @ gr_passwd d @ '':'' @ show_int (gr_gid d) @ '':'' @ join '','' (gr_members d)"
  by (auto simp: format_group_entry_def bindE_Inr_iff ledger_field_Inr_iff mapE_ledger_field)

lemma format_shadow_Inr:
  "format_shadow_entry d = Inr l \<longleftrightarrow>
     plain_field (sp_name d) \<and> plain_field (sp_passwd d) \<and> plain_field (sp_flag d) \<and>
     l = sp_name d @ '':'' @ sp_passwd d @ '':'' @ show_opt (sp_lastchg d) @ '':'' @ show_opt (sp_min d) @ '':''
         @ show_opt (sp_max d) @ '':'' @ show_opt (sp_warn d) @ '':'' @ show_opt (sp_inactive d) @ '':''
         @ show_opt (sp_expire d) @ '':'' @ sp_flag d"
  by (auto simp: format_shadow_entry_def bindE_Inr_iff ledger_field_Inr_iff)

lemma ledger_field_Inl: "ledger_field f = Inl e \<Longrightarrow> plain e"
  by (auto simp: ledger_field_def split: if_splits)

lemma format_Inl:
  "format_passwd_entry d = Inl e \<Longrightarrow> plain e"
  "format_group_entry g = Inl e \<Longrightarrow> plain e"
  "format_shadow_entry p = Inl e \<Longrightarrow> plain e"
  by (auto simp: format_passwd_entry_def format_group_entry_def format_shadow_entry_def bindE_def
      dest: ledger_field_Inl mapE_Inl split: sum.splits)

lemma unbroken_join: "unbroken sep \<Longrightarrow> \<forall>l\<in>set ls. unbroken l \<Longrightarrow> unbroken (join sep ls)"
proof (induction ls)
  case (Cons l ls)
  then show ?case by (cases "ls = []") (auto simp: join_Cons)
qed simp

lemma parse_format_passwd:
  assumes "format_passwd_entry d = Inr l" and "passwd_ok d"
  shows "parse_passwd_line l = Some d"
proof -
  have u: "unbroken l"
    using assms(1) by (auto simp: format_passwd_Inr plain_fieldD)
  show ?thesis
    using assms u
    by (simp add: parse_passwd_line_def) (simp add: format_passwd_Inr passwd_ok_def cut_field plain_fieldD)
qed

lemma filter_split_join:
  assumes "\<forall>m\<in>set ms. m \<noteq> [] \<and> CHR '','' \<notin> set m"
  shows "filter (\<lambda>x. x \<noteq> []) (split_on CHR '','' (join '','' ms)) = ms"
proof (cases "ms = []")
  case True
  then show ?thesis by simp
next
  case False
  with assms have "split_on CHR '','' (join [CHR '',''] ms) = ms" by (intro split_on_join) auto
  with assms show ?thesis by (simp add: filter_id_conv)
qed

lemma parse_format_group:
  assumes "format_group_entry d = Inr l" and "group_ok d"
  shows "parse_group_line l = Some d"
proof -
  have m: "unbroken (join '','' (gr_members d))"
    using assms(1) by (auto simp: format_group_Inr plain_fieldD intro!: unbroken_join)
  then have u: "unbroken l"
    using assms(1) by (auto simp: format_group_Inr plain_fieldD)
  show ?thesis
    using assms u m
    by (simp add: parse_group_line_def)
      (simp add: format_group_Inr group_ok_def cut_field plain_fieldD unbroken_no_NL filter_split_join)
qed

lemma parse_format_shadow:
  assumes "format_shadow_entry d = Inr l" and "shadow_ok d"
  shows "parse_shadow_line l = Some d"
proof -
  have u: "unbroken l"
    using assms(1) by (auto simp: format_shadow_Inr plain_fieldD)
  show ?thesis
    using assms u
    by (simp add: parse_shadow_line_def)
      (simp add: format_shadow_Inr shadow_ok_def nonneg_opt_def cut_field plain_fieldD)
qed

lemma format_unbroken:
  "format_passwd_entry d = Inr l \<Longrightarrow> unbroken l"
  "format_group_entry g = Inr l \<Longrightarrow> unbroken l"
  "format_shadow_entry p = Inr l \<Longrightarrow> unbroken l"
  by (auto simp: format_passwd_Inr format_group_Inr format_shadow_Inr plain_fieldD intro!: unbroken_join)

section \<open>Entries of a file\<close>

definition entries :: "(string \<Rightarrow> 'r option) \<Rightarrow> string list \<Rightarrow> 'r list" where
  "entries parse ls = List.map_filter parse ls"

text \<open>\<open>next((e for line in lines if (e := parse(line)) and e["name"] == n), None)\<close>.\<close>

definition find_named :: "(string \<Rightarrow> 'r option) \<Rightarrow> ('r \<Rightarrow> string) \<Rightarrow> string \<Rightarrow> string list \<Rightarrow> 'r option" where
  "find_named parse name n ls = find (\<lambda>r. name r = n) (entries parse ls)"

text \<open>\<open>any((parse(l) or {}).get("name") == n for l in lines)\<close>.\<close>

definition has_named :: "(string \<Rightarrow> 'r option) \<Rightarrow> ('r \<Rightarrow> string) \<Rightarrow> string \<Rightarrow> string list \<Rightarrow> bool" where
  "has_named parse name n ls = list_ex (\<lambda>l. case parse l of None \<Rightarrow> False | Some r \<Rightarrow> name r = n) ls"

text \<open>\<open>[l for l in lines if (parse(l) or {}).get("name") != n]\<close>.\<close>

definition drop_named :: "(string \<Rightarrow> 'r option) \<Rightarrow> ('r \<Rightarrow> string) \<Rightarrow> string \<Rightarrow> string list \<Rightarrow> string list" where
  "drop_named parse name n ls = filter (\<lambda>l. case parse l of None \<Rightarrow> True | Some r \<Rightarrow> name r \<noteq> n) ls"

text \<open>The text \<open>write_*_lines\<close> writes.\<close>

definition content_of_lines :: "string list \<Rightarrow> string" where
  "content_of_lines ls = (if ls \<noteq> [] \<and> \<not> (last ls \<noteq> [] \<and> last (last ls) = NL) then join [NL] ls @ [NL]
                          else join [NL] ls)"

lemma entries_simps [simp]:
  "entries parse [] = []" "entries parse (ls @ ks) = entries parse ls @ entries parse ks"
  "entries parse (l # ls) = (case parse l of None \<Rightarrow> entries parse ls | Some r \<Rightarrow> r # entries parse ls)"
  by (simp_all add: entries_def List.map_filter_def split: option.splits)

lemma set_entries: "set (entries parse ls) = {r. \<exists>l\<in>set ls. parse l = Some r}"
  by (simp add: entries_def set_map_filter)

lemma has_named_iff: "has_named parse name n ls \<longleftrightarrow> (\<exists>r\<in>set (entries parse ls). name r = n)"
  by (induction ls) (auto simp: has_named_def split: option.splits)

lemma entries_drop_named: "entries parse (drop_named parse name n ls) = filter (\<lambda>r. name r \<noteq> n) (entries parse ls)"
  by (induction ls) (auto simp: drop_named_def split: option.splits)

lemma not_has_drop_named [simp]: "\<not> has_named parse name n (drop_named parse name n ls)"
  by (simp add: has_named_iff entries_drop_named)

lemma set_drop_named: "set (drop_named parse name n ls) \<subseteq> set ls"
  by (auto simp: drop_named_def)

lemma drop_named_none: "\<not> has_named parse name n ls \<Longrightarrow> drop_named parse name n ls = ls"
  by (induction ls) (auto simp: has_named_def drop_named_def split: option.splits)

lemma drop_named_append: "drop_named parse name n (ls @ ks) = drop_named parse name n ls @ drop_named parse name n ks"
  by (simp add: drop_named_def)

lemma last_unbroken: "\<forall>l\<in>set ls. unbroken l \<Longrightarrow> ls \<noteq> [] \<Longrightarrow> \<not> (last ls \<noteq> [] \<and> last (last ls) = NL)"
  by (metis last_in_set unbroken_no_NL)

lemma splitlines_content: "\<forall>l\<in>set ls. unbroken l \<Longrightarrow> splitlines (content_of_lines ls) = ls"
  using last_unbroken[of ls] by (cases "ls = []") (auto simp: content_of_lines_def splitlines_join)

lemma content_empty_iff: "\<forall>l\<in>set ls. unbroken l \<Longrightarrow> content_of_lines ls = [] \<longleftrightarrow> ls = []"
  using last_unbroken[of ls] by (auto simp: content_of_lines_def)

section \<open>The interface of a line format\<close>

locale line_codec =
  fixes parse :: "string \<Rightarrow> 'r option"
    and format :: "'r \<Rightarrow> exn + string"
    and ok :: "'r \<Rightarrow> bool"
    and name :: "'r \<Rightarrow> string"
  assumes parse_format: "format r = Inr l \<Longrightarrow> ok r \<Longrightarrow> parse l = Some r"
    and format_line: "format r = Inr l \<Longrightarrow> unbroken l"
begin

text \<open>A file whose last line is a formatted entry holds the old entries and this one: no field can
  smuggle in another line.\<close>

lemma entries_written:
  assumes "format r = Inr l" and "ok r" and "\<forall>k\<in>set ls. unbroken k"
  shows "entries parse (splitlines (content_of_lines (ls @ [l]))) = entries parse ls @ [r]"
proof -
  have "splitlines (content_of_lines (ls @ [l])) = ls @ [l]"
    using assms format_line by (intro splitlines_content) auto
  with assms show ?thesis by (simp add: parse_format)
qed

lemma has_named_written:
  assumes "format r = Inr l" and "ok r"
  shows "has_named parse name n (ls @ [l]) \<longleftrightarrow> has_named parse name n ls \<or> name r = n"
  using assms parse_format by (auto simp: has_named_iff)

text \<open>Removing what was just appended gives the file back.\<close>

lemma drop_written:
  assumes "format r = Inr l" and "ok r" and "\<not> has_named parse name (name r) ls"
  shows "drop_named parse name (name r) (ls @ [l]) = ls"
  using assms parse_format by (simp add: drop_named_append drop_named_none) (simp add: drop_named_def)

end

interpretation passwd_codec: line_codec parse_passwd_line format_passwd_entry passwd_ok pw_name
  by unfold_locales (auto simp: parse_format_passwd format_unbroken)

interpretation group_codec: line_codec parse_group_line format_group_entry group_ok gr_name
  by unfold_locales (auto simp: parse_format_group format_unbroken)

interpretation shadow_codec: line_codec parse_shadow_line format_shadow_entry shadow_ok sp_name
  by unfold_locales (auto simp: parse_format_shadow format_unbroken)

section \<open>Reading and writing the files\<close>

fun file_of :: "lfile \<Rightarrow> ledger \<Rightarrow> string" where
  "file_of PasswdF = passwd_file"
| "file_of GroupF = group_file"
| "file_of ShadowF = shadow_file"

fun put_file :: "lfile \<Rightarrow> string \<Rightarrow> ledger \<Rightarrow> ledger" where
  "put_file PasswdF c l = l\<lparr>passwd_file := c\<rparr>"
| "put_file GroupF c l = l\<lparr>group_file := c\<rparr>"
| "put_file ShadowF c l = l\<lparr>shadow_file := c\<rparr>"

text \<open>\<open>replace_file_atomically\<close>: the old content or the new, nothing between.\<close>

definition replace_file :: "env \<Rightarrow> lfile \<Rightarrow> string \<Rightarrow> unit cmd" where
  "replace_file E f c = io EvFile (x_file E) (\<lambda>s. s\<lparr>led := put_file f c (led s)\<rparr>)"

definition ensure_seeded_file :: "env \<Rightarrow> lfile \<Rightarrow> unit cmd" where
  "ensure_seeded_file E f =
     bnd (getS (\<lambda>s. file_of f (led s))) (\<lambda>c.
       if c \<noteq> [] then ret ()
       else ledger_lock E (
         bnd (rd EvFile (x_file E) (\<lambda>s. file_of f (led s))) (\<lambda>c'.
           if c' \<noteq> [] then ret ()
           else (case x_template E f of None \<Rightarrow> ret () | Some t \<Rightarrow> replace_file E f t))))"

definition ensure_etc_layout :: "env \<Rightarrow> unit cmd" where
  "ensure_etc_layout E =
     thn (ensure_seeded_file E PasswdF) (thn (ensure_seeded_file E GroupF) (ensure_seeded_file E ShadowF))"

definition read_lines :: "env \<Rightarrow> lfile \<Rightarrow> string list cmd" where
  "read_lines E f =
     thn (ensure_etc_layout E)
         (ledger_lock E (rd EvFile (x_file E) (\<lambda>s. splitlines (file_of f (led s)))))"

definition write_lines :: "env \<Rightarrow> lfile \<Rightarrow> string list \<Rightarrow> unit cmd" where
  "write_lines E f ls =
     thn (ensure_etc_layout E)
         (ledger_lock E (thn (rd EvFile (x_file E) (\<lambda>_. ())) (replace_file E f (content_of_lines ls))))"

abbreviation "read_passwd_lines E \<equiv> read_lines E PasswdF"
abbreviation "read_group_lines E \<equiv> read_lines E GroupF"
abbreviation "read_shadow_lines E \<equiv> read_lines E ShadowF"
abbreviation "write_passwd_lines E \<equiv> write_lines E PasswdF"
abbreviation "write_group_lines E \<equiv> write_lines E GroupF"
abbreviation "write_shadow_lines E \<equiv> write_lines E ShadowF"

text \<open>A ledger in use: no file is empty, so the templates are not needed again.\<close>

definition seeded :: "ledger \<Rightarrow> bool" where
  "seeded l \<longleftrightarrow> (\<forall>f. file_of f l \<noteq> [])"

lemma seeded_iff: "seeded l \<longleftrightarrow> passwd_file l \<noteq> [] \<and> group_file l \<noteq> [] \<and> shadow_file l \<noteq> []"
  unfolding seeded_def by (metis file_of.simps lfile.exhaust)

lemma file_of_put [simp]: "file_of f (put_file g c l) = (if f = g then c else file_of f l)"
  by (cases f; cases g) simp_all

lemma put_file_others [simp]: "sudoers (put_file f c l) = sudoers l" "issued_ids (put_file f c l) = issued_ids l"
  by (cases f; simp)+

lemma seeded_put [simp]: "seeded l \<Longrightarrow> c \<noteq> [] \<Longrightarrow> seeded (put_file f c l)"
  by (simp add: seeded_def)

lemma wp_ensure_seeded: "seeded (led s) \<Longrightarrow> wp (ensure_etc_layout E) Q R s = Q () s"
  by (simp add: ensure_etc_layout_def ensure_seeded_file_def wp_simps seeded_iff)

lemma wp_read_lines:
  assumes "seeded (led s)" "0 < lock_depth s"
    and "\<And>t. like s t \<Longrightarrow> Q (splitlines (file_of f (led s))) t" "\<And>e t. like s t \<Longrightarrow> R e t"
  shows "wp (read_lines E f) Q R s"
  using assms
  by (simp add: read_lines_def wp_thn wp_ensure_seeded wp_ledger_lock_held wp_rd after_def split: io_reply.splits)

lemma wp_rd_led:
  assumes "\<And>t. like s t \<Longrightarrow> Q (g (led s)) t" "\<And>e t. like s t \<Longrightarrow> R e t"
  shows "wp (rd EvFile (x_file E) (\<lambda>s. g (led s))) Q R s"
  using assms by (simp add: wp_rd after_def split: io_reply.splits)

lemma wp_replace_file:
  assumes "\<And>t. after (put_file f c (led s)) s t \<Longrightarrow> Q () t"
    and "\<And>e t h. like s t \<Longrightarrow> x_file E h = IoFailed e \<Longrightarrow> R e t"
    and "\<And>e t h. after (put_file f c (led s)) s t \<Longrightarrow> x_file E h = IoLost e \<Longrightarrow> R e t"
  shows "wp (replace_file E f c) Q R s"
  using assms by (simp add: replace_file_def wp_io after_def split: io_reply.splits)

lemma wp_write_lines:
  assumes "seeded (led s)" "0 < lock_depth s"
    and "\<And>t. after (put_file f (content_of_lines ls) (led s)) s t \<Longrightarrow> Q () t"
    and "\<And>e t. like s t \<Longrightarrow> R e t"
    and "\<And>e t. after (put_file f (content_of_lines ls) (led s)) s t \<Longrightarrow> R e t"
  shows "wp (write_lines E f ls) Q R s"
  using assms
  by (simp add: write_lines_def replace_file_def wp_thn wp_ensure_seeded wp_ledger_lock_held
      wp_rd wp_io after_def split: io_reply.splits)

lemma raises_lines [raises_intros]:
  assumes "plain_files E"
  shows "raises plain (replace_file E f c)" "raises plain (ensure_etc_layout E)"
    "raises plain (read_lines E f)" "raises plain (write_lines E f ls)"
  unfolding replace_file_def ensure_etc_layout_def ensure_seeded_file_def read_lines_def write_lines_def
  by (intro raises_intros; (erule plain_filesD[OF assms])?)+

section \<open>The record of issued numbers\<close>

definition read_issued_id_record :: "env \<Rightarrow> (id_kind \<Rightarrow> int option) cmd" where
  "read_issued_id_record E =
     bnd (tryE (rd EvFile (x_file E) (\<lambda>s. issued_ids (led s)))
               (\<lambda>e. throw (raised_from IssuedIdRecordCorrupt e)))
         (\<lambda>r. case r of IssuedAbsent \<Rightarrow> ret (\<lambda>_. None)
               | IssuedCorrupt \<Rightarrow> throw (raised IssuedIdRecordCorrupt)
               | Issued f \<Rightarrow> ret f)"

definition issued_or_0 :: "(id_kind \<Rightarrow> int option) \<Rightarrow> id_kind \<Rightarrow> int" where
  "issued_or_0 f k = (case f k of None \<Rightarrow> 0 | Some v \<Rightarrow> v)"

definition read_issued_id_max :: "env \<Rightarrow> id_kind \<Rightarrow> int cmd" where
  "read_issued_id_max E k =
     ledger_lock E (bnd (read_issued_id_record E) (\<lambda>f. ret (issued_or_0 f k)))"

definition record_issued_id :: "env \<Rightarrow> id_kind \<Rightarrow> int \<Rightarrow> unit cmd" where
  "record_issued_id E k v =
     ledger_lock E (bnd (read_issued_id_record E) (\<lambda>f.
       if v \<le> issued_or_0 f k then ret ()
       else io EvFile (x_file E) (\<lambda>s. s\<lparr>led := (led s)\<lparr>issued_ids := Issued (f(k \<mapsto> v))\<rparr>\<rparr>)))"

lemma raises_case_issued [raises_intros]:
  "raises P a \<Longrightarrow> raises P b \<Longrightarrow> (\<And>f. raises P (c f)) \<Longrightarrow>
     raises P (case x of IssuedAbsent \<Rightarrow> a | IssuedCorrupt \<Rightarrow> b | Issued f \<Rightarrow> c f)"
  by (simp split: issued.splits)

lemma raises_issued_record [raises_intros]:
  assumes "plain_files E"
  shows "raises plain (read_issued_id_record E)"
  unfolding read_issued_id_record_def
  by (intro raises_intros raises_tryE[where P=plain]; (erule plain_filesD[OF assms])?; simp)

lemma raises_issued [raises_intros]:
  assumes "plain_files E"
  shows "raises plain (read_issued_id_max E k)" "raises plain (record_issued_id E k v)"
  unfolding read_issued_id_max_def record_issued_id_def
  by (intro raises_intros assms; (erule plain_filesD[OF assms])?)+

text \<open>The greatest issued number of a ledger; nothing is promised of a corrupt record.\<close>

definition issued_max :: "ledger \<Rightarrow> id_kind \<Rightarrow> int" where
  "issued_max l k = (case issued_ids l of Issued f \<Rightarrow> issued_or_0 f k | _ \<Rightarrow> 0)"

lemma wp_read_issued_id_record:
  assumes "\<And>t f. like s t \<Longrightarrow> issued_ids (led s) \<noteq> IssuedCorrupt \<Longrightarrow> (\<And>k. issued_or_0 f k = issued_max (led s) k) \<Longrightarrow> Q f t"
    and "\<And>e t. like s t \<Longrightarrow> R e t"
  shows "wp (read_issued_id_record E) Q R s"
  using assms
  by (simp add: read_issued_id_record_def wp_simps issued_max_def issued_or_0_def
      split: io_reply.splits issued.splits)

lemma wp_read_issued_id_max:
  assumes "0 < lock_depth s" "\<And>t. like s t \<Longrightarrow> Q (issued_max (led s) k) t" "\<And>e t. like s t \<Longrightarrow> R e t"
  shows "wp (read_issued_id_max E k) Q R s"
  unfolding read_issued_id_max_def using assms
  by (auto simp: wp_ledger_lock_held wp_bnd wp_ret intro!: wp_read_issued_id_record dest: after_unlock)

text \<open>The ledger after a number was recorded.\<close>

definition issued_at_least :: "id_kind \<Rightarrow> int \<Rightarrow> ledger \<Rightarrow> ledger \<Rightarrow> bool" where
  "issued_at_least k v L M \<longleftrightarrow> (\<exists>r. M = L\<lparr>issued_ids := r\<rparr>) \<and> issued_max M k = max v (issued_max L k)
     \<and> (\<forall>j. j \<noteq> k \<longrightarrow> issued_max M j = issued_max L j)"

lemma issued_at_least_files:
  assumes "issued_at_least k v L M"
  shows "file_of f M = file_of f L" "sudoers M = sudoers L" "seeded M = seeded L"
proof -
  from assms obtain r where M: "M = L\<lparr>issued_ids := r\<rparr>" by (auto simp: issued_at_least_def)
  show "file_of f M = file_of f L" unfolding M by (cases f) simp_all
  show "sudoers M = sudoers L" "seeded M = seeded L" unfolding M by (simp_all add: seeded_iff)
qed

lemma issued_at_least_old: "v \<le> issued_max L k \<Longrightarrow> issued_at_least k v L L"
  by (auto simp: issued_at_least_def intro: exI[of _ "issued_ids L"])

lemma issued_at_least_new:
  assumes "\<And>j. issued_or_0 f j = issued_max L j" and "\<not> v \<le> issued_max L k"
  shows "issued_at_least k v L (L\<lparr>issued_ids := Issued (f(k \<mapsto> v))\<rparr>)"
  unfolding issued_at_least_def
proof (intro conjI allI impI)
  show "\<exists>r. L\<lparr>issued_ids := Issued (f(k \<mapsto> v))\<rparr> = L\<lparr>issued_ids := r\<rparr>" by blast
  show "issued_max (L\<lparr>issued_ids := Issued (f(k \<mapsto> v))\<rparr>) k = max v (issued_max L k)"
    using assms(2) by (simp add: issued_max_def issued_or_0_def)
  show "issued_max (L\<lparr>issued_ids := Issued (f(k \<mapsto> v))\<rparr>) j = issued_max L j" if "j \<noteq> k" for j
    using assms(1)[of j] that by (simp add: issued_max_def[of "L\<lparr>issued_ids := Issued (f(k \<mapsto> v))\<rparr>"] issued_or_0_def)
qed

lemma wp_record_issued_id:
  assumes "0 < lock_depth s"
    and "\<And>t M. after M s t \<Longrightarrow> issued_at_least k v (led s) M \<Longrightarrow> Q () t"
    and "\<And>e t. like s t \<Longrightarrow> R e t"
    and "\<And>e t M. after M s t \<Longrightarrow> issued_at_least k v (led s) M \<Longrightarrow> R e t"
  shows "wp (record_issued_id E k v) Q R s"
proof -
  let ?u = "s\<lparr>lock_depth := Suc (lock_depth s)\<rparr>"
  have "wp (read_issued_id_record E)
          (\<lambda>f. wp (if v \<le> issued_or_0 f k then ret ()
                  else io EvFile (x_file E) (\<lambda>s. s\<lparr>led := (led s)\<lparr>issued_ids := Issued (f(k \<mapsto> v))\<rparr>\<rparr>))
                 (\<lambda>a t. Q a (t\<lparr>lock_depth := lock_depth t - Suc 0\<rparr>))
                 (\<lambda>e t. R e (t\<lparr>lock_depth := lock_depth t - Suc 0\<rparr>)))
          (\<lambda>e t. R e (t\<lparr>lock_depth := lock_depth t - Suc 0\<rparr>)) ?u"
  proof (rule wp_read_issued_id_record)
    fix e t assume "after (led ?u) ?u t"
    then show "R e (t\<lparr>lock_depth := lock_depth t - Suc 0\<rparr>)" using assms(3) after_unlock by simp
  next
    fix t f
    assume a: "after (led ?u) ?u t" and m: "\<And>j. issued_or_0 f j = issued_max (led ?u) j"
    let ?M = "(led s)\<lparr>issued_ids := Issued (f(k \<mapsto> v))\<rparr>"
    from a have l: "led t = led s" by (simp add: after_def)
    from a have w: "after ?M s (t\<lparr>lock_depth := lock_depth t - Suc 0, led := ?M, hist := h\<rparr>)" for h
      by (simp add: after_def)
    from a have o: "after (led s) s (t\<lparr>lock_depth := lock_depth t - Suc 0, hist := h\<rparr>)" for h
      by (simp add: after_def)
    show "wp (if v \<le> issued_or_0 f k then ret ()
              else io EvFile (x_file E) (\<lambda>s. s\<lparr>led := (led s)\<lparr>issued_ids := Issued (f(k \<mapsto> v))\<rparr>\<rparr>))
             (\<lambda>a t. Q a (t\<lparr>lock_depth := lock_depth t - Suc 0\<rparr>))
             (\<lambda>e t. R e (t\<lparr>lock_depth := lock_depth t - Suc 0\<rparr>)) t"
    proof (cases "v \<le> issued_or_0 f k")
      case True
      with m have "issued_at_least k v (led s) (led s)" by (simp add: issued_at_least_old)
      with True assms(2)[OF o[of "hist t"]] show ?thesis by (simp add: wp_ret)
    next
      case False
      with m have "issued_at_least k v (led s) ?M" by (simp add: issued_at_least_new)
      with False assms(2)[OF w] assms(3)[OF o] assms(4)[OF w] l show ?thesis
        by (simp add: wp_io st_order split: io_reply.splits)
    qed
  qed
  with assms(1) show ?thesis by (simp add: record_issued_id_def wp_ledger_lock_held wp_bnd)
qed

section \<open>Sudoers files\<close>

definition lower_letter :: "char \<Rightarrow> bool" where
  "lower_letter c \<longleftrightarrow> 97 \<le> (of_char c :: nat) \<and> (of_char c :: nat) \<le> 122"

text \<open>\<open>_VALID_USERNAME_RE.fullmatch\<close>.\<close>

definition valid_username :: "string \<Rightarrow> bool" where
  "valid_username u = (case u of [] \<Rightarrow> False
     | c # cs \<Rightarrow> (lower_letter c \<or> c = CHR ''_'') \<and> length cs \<le> 31 \<and>
                 list_all (\<lambda>d. lower_letter d \<or> is_digit d \<or> d = CHR ''_'' \<or> d = CHR ''-'') cs)"

definition ensure_sudoers_file :: "env \<Rightarrow> string \<Rightarrow> string \<Rightarrow> unit cmd" where
  "ensure_sudoers_file E user policy =
     (if \<not> valid_username user then throw (raised ValueError)
      else let wanted = (if policy \<noteq> [] \<and> last policy = NL then policy else policy @ [NL]) in
        bnd (rd EvFile (x_file E) (\<lambda>s. sudoers (led s) user)) (\<lambda>old.
          if old = Some wanted then ret ()
          else io EvFile (x_file E) (\<lambda>s. s\<lparr>led := (led s)\<lparr>sudoers := (sudoers (led s))(user \<mapsto> wanted)\<rparr>\<rparr>)))"

lemma valid_username_plain: "valid_username u \<Longrightarrow> plain_field u \<and> u \<noteq> [] \<and> CHR '','' \<notin> set u"
  by (auto simp: valid_username_def plain_field_def unbroken_def line_break_def lower_letter_def
      is_digit_def list_all_iff split: list.splits)

end
