(* ===== verification/Nas.thy ===== *)
theory Nas
  imports Ledger "HOL-Library.List_Lexorder" "HOL-Library.Char_ord"
begin

text \<open>
  The NAS over SSH (\<open>utils.py\<close>): looking up who owns a home, making one, deleting one.
  A session is a connection followed by commands; each command is answered with an
  exit code and its standard output, or it fails in transport.
\<close>

section \<open>Sessions and commands\<close>

definition nas_session :: "env \<Rightarrow> 'a cmd \<Rightarrow> 'a cmd" where
  "nas_session E m =
     thn (ext EvNasConnect (\<lambda>h. case x_nas_connect E h of None \<Rightarrow> Inr () | Some e \<Rightarrow> Inl e)) m"

text \<open>\<open>_ssh_exec\<close>: the reply may be \<open>NasCommandTimeout\<close>.\<close>

definition ssh_exec :: "env \<Rightarrow> nas_cmd \<Rightarrow> (int \<times> string) cmd" where
  "ssh_exec E c = ext (EvNas c) (x_nas E c)"

definition ssh_run :: "env \<Rightarrow> nas_cmd \<Rightarrow> unit cmd" where
  "ssh_run E c = bnd (ssh_exec E c) (\<lambda>(code, out).
     if code \<noteq> 0 then throw (raised RuntimeError) else ret ())"

definition is_space :: "char \<Rightarrow> bool" where
  "is_space c \<longleftrightarrow> (of_char c :: nat) \<in> {9, 10, 11, 12, 13, 28, 29, 30, 31, 32, 133, 160}"

text \<open>\<open>str.strip()\<close>.\<close>

definition py_strip :: "string \<Rightarrow> string" where
  "py_strip s = rev (dropWhile is_space (rev (dropWhile is_space s)))"

definition ssh_capture :: "env \<Rightarrow> nas_cmd \<Rightarrow> (int \<times> string) cmd" where
  "ssh_capture E c = bnd (ssh_exec E c) (\<lambda>(code, out). ret (code, py_strip out))"

section \<open>Homes\<close>

definition team_dir_prefix :: string where
  "team_dir_prefix = ''_g_''"

definition user_home_path :: "env \<Rightarrow> string \<Rightarrow> exn + string" where
  "user_home_path E user =
     (if \<not> valid_username user then Inl (raised ValueError)
      else if take (length team_dir_prefix) user = team_dir_prefix then Inl (raised ValueError)
      else Inr (cfg_nfs_root E @ ''/'' @ user))"

definition home_owner_uid :: "env \<Rightarrow> string \<Rightarrow> int option cmd" where
  "home_owner_uid E path =
     bnd (ssh_capture E (NasTestExists path)) (\<lambda>(code, _).
       if code \<noteq> 0 then ret None
       else bnd (ssh_capture E (NasStatOwner path)) (\<lambda>(code, current).
         if code \<noteq> 0 then throw (raised HomeOwnerUnknown)
         else (case read_digits current of None \<Rightarrow> throw (raised HomeOwnerUnknown)
                                         | Some u \<Rightarrow> ret (Some u))))"

definition user_home_owner_uid :: "env \<Rightarrow> string \<Rightarrow> int option cmd" where
  "user_home_owner_uid E user =
     nas_session E (bnd (liftE (user_home_path E user)) (\<lambda>path. home_owner_uid E path))"

definition home_root_is_reachable :: "env \<Rightarrow> bool cmd" where
  "home_root_is_reachable E =
     nas_session E (bnd (ssh_capture E NasTestRoot) (\<lambda>(code, _). ret (code = 0)))"

text \<open>\<open>posixpath.basename\<close> and \<open>line.split(" ", 1)\<close> of a line with a space.\<close>

definition basename :: "string \<Rightarrow> string" where
  "basename p = rev (takeWhile (\<lambda>c. c \<noteq> CHR ''/'') (rev p))"

definition split_space :: "string \<Rightarrow> (string \<times> string) option" where
  "split_space l = (if CHR '' '' \<in> set l
     then Some (takeWhile (\<lambda>c. c \<noteq> CHR '' '') l, tl (dropWhile (\<lambda>c. c \<noteq> CHR '' '') l)) else None)"

definition other_homes_owned_by :: "env \<Rightarrow> int \<Rightarrow> string \<Rightarrow> string list cmd" where
  "other_homes_owned_by E uid user =
     nas_session E (bnd (ssh_capture E NasListOwners) (\<lambda>(code, out).
       let rows = List.map_filter split_space (splitlines out) in
       if code \<noteq> 0 \<and> rows = [] then throw (raised RuntimeError)
       else ret (sort (map (\<lambda>(ow, path). basename path)
              (filter (\<lambda>(ow, path). ow = show_int uid \<and> basename path \<noteq> user) rows)))))"

text \<open>\<open>e.home_created = current is None\<close>.\<close>

fun set_home_created :: "bool \<Rightarrow> exn \<Rightarrow> exn" where
  "set_home_created b (Exn k r c _) = Exn k r c b"
| "set_home_created b e = e"

definition create_user_home_directory :: "env \<Rightarrow> string \<Rightarrow> int \<Rightarrow> int \<Rightarrow> bool cmd" where
  "create_user_home_directory E user uid gid =
     bnd (liftE (user_home_path E user)) (\<lambda>path.
     nas_session E (
       bnd (home_owner_uid E path) (\<lambda>current.
       if current \<noteq> None \<and> current \<noteq> Some uid then throw (raised HomeOwnerMismatch)
       else thn (tryE (thn (ssh_run E (NasMkdir path))
                      (thn (ssh_run E (NasChown uid gid path))
                           (ssh_run E (NasChmod711 path))))
                      (\<lambda>e. throw (set_home_created (current = None) e)))
                (ret (current = None)))))"

definition delete_user_home_directory :: "env \<Rightarrow> string \<Rightarrow> unit cmd" where
  "delete_user_home_directory E user =
     bnd (liftE (user_home_path E user)) (\<lambda>path. nas_session E (ssh_run E (NasRmRf path)))"

definition nas_flush_gss_cache :: "env \<Rightarrow> unit cmd" where
  "nas_flush_gss_cache E = nas_session E (ssh_run E NasFlushGss)"

text \<open>
  \<open>nas_shared_gids_for_users\<close>: one script asks for every valid name; a line is
  \<open>name|gid gid ...\<close>, an empty list of gids means that the NAS does not know the name.
\<close>

fun partition_bar :: "string \<Rightarrow> string \<times> string" where
  "partition_bar [] = ([], [])"
| "partition_bar (c # s) = (if c = CHR ''|'' then ([], s)
                            else (case partition_bar s of (a, b) \<Rightarrow> (c # a, b)))"

definition split_ws :: "string \<Rightarrow> string list" where
  "split_ws s = filter (\<lambda>w. w \<noteq> []) (split_on CHR '' '' (map (\<lambda>c. if is_space c then CHR '' '' else c) s))"

definition gids_in_band :: "int \<Rightarrow> int option \<Rightarrow> string \<Rightarrow> int list" where
  "gids_in_band lo hi s = filter (\<lambda>g. lo \<le> g \<and> (case hi of None \<Rightarrow> True | Some h \<Rightarrow> g \<le> h))
                            (List.map_filter read_digits (split_ws s))"

definition nas_shared_gids_for_users ::
  "env \<Rightarrow> string list \<Rightarrow> int \<Rightarrow> int option \<Rightarrow> (string \<times> int list) list cmd" where
  "nas_shared_gids_for_users E users lo hi =
     (let names = sort (filter valid_username users) in
      if names = [] then ret []
      else nas_session E (bnd (ssh_capture E (NasIdGroups names)) (\<lambda>(_, text).
        ret (List.map_filter (\<lambda>line. case partition_bar line of (name, gids) \<Rightarrow>
               if py_strip gids = [] then None else Some (name, gids_in_band lo hi gids))
             (splitlines text)))))"

section \<open>What they leave alone\<close>

lemma keeps_nas_session [keeps_intros]:
  "keeps obs m \<Longrightarrow> (\<And>s h. obs (s\<lparr>hist := h\<rparr>) = obs s) \<Longrightarrow> keeps obs (nas_session E m)"
  by (simp add: nas_session_def keeps_intros)

lemma keeps_ssh [keeps_intros]:
  assumes "\<And>s h. obs (s\<lparr>hist := h\<rparr>) = obs s"
  shows "keeps obs (ssh_exec E c)" "keeps obs (ssh_run E c)" "keeps obs (ssh_capture E c)"
  unfolding ssh_run_def ssh_capture_def ssh_exec_def
  by (intro keeps_intros; simp add: assms)+

lemma keeps_homes [keeps_intros]:
  assumes "\<And>s h. obs (s\<lparr>hist := h\<rparr>) = obs s"
  shows "keeps obs (home_owner_uid E p)" "keeps obs (user_home_owner_uid E u)"
    "keeps obs (other_homes_owned_by E i u)" "keeps obs (create_user_home_directory E u i g)"
    "keeps obs (delete_user_home_directory E u)" "keeps obs (nas_flush_gss_cache E)"
    "keeps obs (home_root_is_reachable E)" "keeps obs (nas_shared_gids_for_users E us lo hi)"
  unfolding home_owner_uid_def user_home_owner_uid_def other_homes_owned_by_def
    create_user_home_directory_def delete_user_home_directory_def nas_flush_gss_cache_def
    home_root_is_reachable_def nas_shared_gids_for_users_def
  by (intro keeps_intros; simp add: assms)+

text \<open>The whole state but its history stays: what an operation that only asks the outside does.\<close>

definition unhist :: "st \<Rightarrow> st" where
  "unhist s = s\<lparr>hist := []\<rparr>"

lemma unhist_hist [simp]: "unhist (s\<lparr>hist := h\<rparr>) = unhist s"
  by (simp add: unhist_def)

lemma wp_asks:
  assumes "keeps unhist m" and "\<And>a t. like s t \<Longrightarrow> Q a t" and "\<And>e t. like s t \<Longrightarrow> R e t"
  shows "wp m Q R s"
proof (rule wpI)
  have l: "like s t" if "m s = (r, t)" for r t
  proof -
    have "unhist t = unhist s" using assms(1) that by (rule keepsE)
    then have "core (unhist t) = core (unhist s)" "lock_depth (unhist t) = lock_depth (unhist s)"
      "led (unhist t) = led (unhist s)" by simp_all
    then show ?thesis by (simp add: after_def unhist_def)
  qed
  show "m s = (Inr a, t) \<Longrightarrow> Q a t" for a t using l assms(2) by blast
  show "m s = (Inl e, t) \<Longrightarrow> R e t" for e t using l assms(3) by blast
qed

section \<open>Safety of the commands on homes\<close>

text \<open>Every path that goes into a command names the home of one valid user.\<close>

definition home_of :: "env \<Rightarrow> string \<Rightarrow> string \<Rightarrow> bool" where
  "home_of E user path \<longleftrightarrow> valid_username user \<and> take 3 user \<noteq> ''_g_'' \<and> path = cfg_nfs_root E @ ''/'' @ user"

lemma user_home_path_Inr: "user_home_path E user = Inr p \<longleftrightarrow> home_of E user p"
  by (auto simp: user_home_path_def home_of_def team_dir_prefix_def numeral_3_eq_3)

text \<open>The replies of the NAS when an operation on a home starts in state \<open>s\<close>.\<close>

definition probe_hist :: "st \<Rightarrow> history" where
  "probe_hist s = EvNasConnect # hist s"

lemma home_owner_uid_run:
  "home_owner_uid E p s =
     (case x_nas E (NasTestExists p) (hist s) of
        Inl e \<Rightarrow> (Inl e, s\<lparr>hist := EvNas (NasTestExists p) # hist s\<rparr>)
      | Inr (code, _) \<Rightarrow>
          if code \<noteq> 0 then (Inr None, s\<lparr>hist := EvNas (NasTestExists p) # hist s\<rparr>)
          else (let h = EvNas (NasTestExists p) # hist s;
                    s' = s\<lparr>hist := EvNas (NasStatOwner p) # h\<rparr> in
            case x_nas E (NasStatOwner p) h of
              Inl e \<Rightarrow> (Inl e, s')
            | Inr (code, out) \<Rightarrow>
                if code \<noteq> 0 then (Inl (raised HomeOwnerUnknown), s')
                else (case read_digits (py_strip out) of
                        None \<Rightarrow> (Inl (raised HomeOwnerUnknown), s')
                      | Some u \<Rightarrow> (Inr (Some u), s'))))"
  by (auto simp: home_owner_uid_def ssh_capture_def ssh_exec_def ext_def run
      split: sum.splits option.splits)

text \<open>A destructive command on a home: anything but a question.\<close>

fun is_question :: "nas_cmd \<Rightarrow> bool" where
  "is_question (NasTestExists p) = True"
| "is_question (NasStatOwner p) = True"
| "is_question NasListOwners = True"
| "is_question NasTestRoot = True"
| "is_question (NasIdGroups us) = True"
| "is_question _ = False"

text \<open>The events \<open>s\<close> to \<open>t\<close> added; only questions among those sent to the NAS.\<close>

definition only_asked :: "history \<Rightarrow> history \<Rightarrow> bool" where
  "only_asked h h' \<longleftrightarrow> (\<exists>new. h' = new @ h \<and> (\<forall>c. EvNas c \<in> set new \<longrightarrow> is_question c))"

lemma only_asked_refl [simp]: "only_asked h h"
  by (simp add: only_asked_def)

lemma only_asked_Cons [simp]:
  "only_asked h h' \<Longrightarrow> (\<forall>c. ev = EvNas c \<longrightarrow> is_question c) \<Longrightarrow> only_asked h (ev # h')"
  unfolding only_asked_def by (metis append_Cons set_ConsD)

lemma only_asked_trans: "only_asked h k \<Longrightarrow> only_asked k l \<Longrightarrow> only_asked h l"
  unfolding only_asked_def by (metis append_assoc Un_iff set_append)

lemma home_owner_uid_asks: "only_asked (hist s) (hist (state_of (home_owner_uid E p) s))"
  by (simp add: home_owner_uid_run Let_def split: sum.splits option.splits prod.splits)

text \<open>A home is only touched when the NAS said that it is not there or has the wanted owner.\<close>

lemma create_home_run:
  assumes "user_home_path E user = Inr p" and "x_nas_connect E (hist s) = None"
  shows "create_user_home_directory E user uid gid s =
    (case home_owner_uid E p (s\<lparr>hist := probe_hist s\<rparr>) of
       (Inl e, t) \<Rightarrow> (Inl e, t)
     | (Inr current, t) \<Rightarrow>
         if current \<noteq> None \<and> current \<noteq> Some uid then (Inl (raised HomeOwnerMismatch), t)
         else thn (tryE (thn (ssh_run E (NasMkdir p)) (thn (ssh_run E (NasChown uid gid p)) (ssh_run E (NasChmod711 p))))
                        (\<lambda>e. throw (set_home_created (current = None) e)))
                  (ret (current = None)) t)"
  using assms
  by (auto simp: create_user_home_directory_def nas_session_def ext_def run probe_hist_def
      split: prod.splits sum.splits)

lemma create_home_asks:
  assumes "\<not> only_asked (hist s) (hist (state_of (create_user_home_directory E user uid gid) s))"
  shows "\<exists>p. home_of E user p \<and> x_nas_connect E (hist s) = None \<and>
           result_of (home_owner_uid E p) (s\<lparr>hist := probe_hist s\<rparr>) \<in> {Inr None, Inr (Some uid)}"
proof (cases "user_home_path E user")
  case (Inl e)
  with assms show ?thesis by (simp add: create_user_home_directory_def run)
next
  case (Inr p)
  show ?thesis
  proof (cases "x_nas_connect E (hist s)")
    case (Some e)
    with Inr assms show ?thesis
      by (simp add: create_user_home_directory_def nas_session_def ext_def run)
  next
    case None
    obtain r t where o: "home_owner_uid E p (s\<lparr>hist := probe_hist s\<rparr>) = (r, t)" by fastforce
    have a: "only_asked (hist s) (hist t)"
      using home_owner_uid_asks[of "s\<lparr>hist := probe_hist s\<rparr>" E p] o
      by (auto simp: probe_hist_def only_asked_def)
    have "r \<in> {Inr None, Inr (Some uid)}"
    proof (rule ccontr)
      assume "r \<notin> {Inr None, Inr (Some uid)}"
      with a have "only_asked (hist s) (hist (state_of (create_user_home_directory E user uid gid) s))"
        by (cases r) (auto simp: create_home_run[OF Inr None] o)
      with assms show False by simp
    qed
    with None Inr o show ?thesis by (auto simp: user_home_path_Inr)
  qed
qed

lemma delete_home_asks:
  assumes "c \<in> set (hist (state_of (delete_user_home_directory E user) s))" and "c \<notin> set (hist s)"
  shows "c = EvNasConnect \<or> (\<exists>p. c = EvNas (NasRmRf p) \<and> home_of E user p)"
  using assms
  by (auto simp: delete_user_home_directory_def nas_session_def ssh_run_def ssh_exec_def ext_def run
      user_home_path_Inr split: sum.splits option.splits if_splits prod.splits)

end
