(* ===== verification/Krb5.thy ===== *)
theory Krb5
  imports Nas
begin

text \<open>
  The Kerberos helpers of \<open>main.py\<close>: commands to the AD controllers (with failover),
  commands to the farm nodes (with one retry), the keytab Secrets, the wait for a
  node to see a new account, and the table \<open>krb5_cleanup_pending\<close> of node cleanups
  that failed.
\<close>

section \<open>Commands to the AD controllers\<close>

definition ssh_transport_error :: int where
  "ssh_transport_error = 255"

fun is_timeout_expired :: "exn \<Rightarrow> bool" where
  "is_timeout_expired (Exn k r c h) = (k = TimeoutExpired)"
| "is_timeout_expired _ = False"

text \<open>The loop over the controllers, with the error of the one before.\<close>

primrec ad_nodes_loop :: "env \<Rightarrow> string \<Rightarrow> string list \<Rightarrow> exn option \<Rightarrow> string cmd" where
  "ad_nodes_loop E c [] last_error =
     throw (case last_error of None \<Rightarrow> raised RuntimeError | Some e \<Rightarrow> e)"
| "ad_nodes_loop E c (node # nodes) last_error =
     bnd (attempt (ext (EvAdSsh node c) (x_ad_ssh E node c))) (\<lambda>r. case r of
       Inl e \<Rightarrow> (if is_timeout_expired e then ad_nodes_loop E c nodes (Some e) else throw e)
     | Inr p \<Rightarrow> (case p of (rc, out) \<Rightarrow>
         if rc = ssh_transport_error then ad_nodes_loop E c nodes (Some (raised RuntimeError))
         else if rc \<noteq> 0 then throw (raised RuntimeError)
         else ret out))"

definition farm_ad_ssh :: "env \<Rightarrow> string \<Rightarrow> string cmd" where
  "farm_ad_ssh E c = (if cfg_ad_nodes E = [] then throw (raised RuntimeError)
                      else ad_nodes_loop E c (cfg_ad_nodes E) None)"

section \<open>Commands to the farm nodes\<close>

definition get_farm_node_info :: "env \<Rightarrow> string \<Rightarrow> string cmd" where
  "get_farm_node_info E node = (if node \<in> set (cfg_farm_nodes E) then ret node else throw (raised ValueError))"

text \<open>The two attempts of \<open>_farm_ssh\<close>: only a timeout is retried.  The exit code and output.\<close>

definition farm_ssh_reply :: "env \<Rightarrow> string \<Rightarrow> string \<Rightarrow> (int \<times> string) cmd" where
  "farm_ssh_reply E node c =
     tryE (ext (EvFarmSsh node c) (x_farm_ssh E node c))
          (\<lambda>e. if is_timeout_expired e then ext (EvFarmSsh node c) (x_farm_ssh E node c) else throw e)"

definition farm_ssh :: "env \<Rightarrow> string \<Rightarrow> string \<Rightarrow> string cmd" where
  "farm_ssh E node c = bnd (farm_ssh_reply E node c) (\<lambda>(rc, out).
     if rc \<noteq> 0 then throw (raised RuntimeError) else ret out)"

section \<open>Principals, keytabs and groups\<close>

definition ad_enabled :: "env \<Rightarrow> bool" where
  "ad_enabled E = cfg_krb5 E"

definition words :: "string list \<Rightarrow> string" where
  "words ws = join '' '' ws"

definition keytab_secret :: "string \<Rightarrow> string" where
  "keytab_secret user = ''krb5-keytab-'' @ user"

definition create_krb5_principal_and_secret :: "env \<Rightarrow> string \<Rightarrow> int \<Rightarrow> int \<Rightarrow> unit cmd" where
  "create_krb5_principal_and_secret E user uid gid =
     bnd (farm_ad_ssh E (words [''create'', user, show_int uid, show_int gid])) (\<lambda>out.
       if py_strip out = [] then throw (raised RuntimeError)
       else ext (EvCreateSecret (keytab_secret user)) (x_create_secret E (keytab_secret user)))"

definition await_ad_replicated :: "env \<Rightarrow> string \<Rightarrow> int \<Rightarrow> unit cmd" where
  "await_ad_replicated E user uid =
     bnd (farm_ad_ssh E (words [''await-replicated'', user, show_int uid])) (\<lambda>_. ret ())"

fun is_api_status :: "int \<Rightarrow> exn \<Rightarrow> bool" where
  "is_api_status n (Exn k r c h) = (k = ApiException n)"
| "is_api_status n _ = False"

definition delete_krb5_principal_and_secret :: "env \<Rightarrow> string \<Rightarrow> unit cmd" where
  "delete_krb5_principal_and_secret E user =
     thn (attempt (farm_ad_ssh E (words [''delete'', user])))
         (tryE (ext (EvDeleteSecret (keytab_secret user)) (x_delete_secret E (keytab_secret user)))
               (\<lambda>e. if is_api_status 404 e then ret () else throw e))"

definition create_ad_group :: "env \<Rightarrow> string \<Rightarrow> int \<Rightarrow> unit cmd" where
  "create_ad_group E name gid =
     (if \<not> ad_enabled E then ret ()
      else bnd (farm_ad_ssh E (words [''group-create'', name, show_int gid])) (\<lambda>_. ret ()))"

definition add_ad_group_member :: "env \<Rightarrow> string \<Rightarrow> string \<Rightarrow> unit cmd" where
  "add_ad_group_member E g user =
     (if \<not> ad_enabled E then ret ()
      else bnd (farm_ad_ssh E (words [''group-addmember'', g, user])) (\<lambda>_. ret ()))"

definition remove_ad_group_member :: "env \<Rightarrow> string \<Rightarrow> string \<Rightarrow> unit cmd" where
  "remove_ad_group_member E g user =
     (if \<not> ad_enabled E then ret ()
      else bnd (farm_ad_ssh E (words [''group-removemember'', g, user])) (\<lambda>_. ret ()))"

section \<open>The cleanup reservations\<close>

definition record_krb5_cleanup_pending :: "env \<Rightarrow> string \<Rightarrow> string \<Rightarrow> unit cmd" where
  "record_krb5_cleanup_pending E user node =
     thn (io EvDb (x_db E) (\<lambda>s. s))
         (tryE (io EvDb (x_db E) (\<lambda>s. s\<lparr>krb5_pending := List.insert (user, node) (krb5_pending s)\<rparr>))
               (\<lambda>_. ret ()))"

definition clear_krb5_cleanup_pending :: "env \<Rightarrow> string \<Rightarrow> string \<Rightarrow> unit cmd" where
  "clear_krb5_cleanup_pending E user node =
     thn (io EvDb (x_db E) (\<lambda>s. s))
         (io EvDb (x_db E) (\<lambda>s. s\<lparr>krb5_pending := removeAll (user, node) (krb5_pending s)\<rparr>))"

definition remove_krb5_from_farm :: "env \<Rightarrow> string \<Rightarrow> string \<Rightarrow> unit cmd" where
  "remove_krb5_from_farm E user node =
     bnd (get_farm_node_info E node) (\<lambda>n. bnd (farm_ssh E n (words [''remove'', user])) (\<lambda>_. ret ()))"

definition remove_krb5_from_all_farms :: "env \<Rightarrow> string \<Rightarrow> unit cmd" where
  "remove_krb5_from_all_farms E user =
     forM (cfg_farm_nodes E) (\<lambda>node.
       tryE (remove_krb5_from_farm E user node)
            (\<lambda>_. record_krb5_cleanup_pending E user node))"

section \<open>Waiting for a node, and deploying to it\<close>

definition now :: "env \<Rightarrow> int cmd" where
  "now E = ext EvTime (\<lambda>h. Inr (x_now E h))"

definition sleep :: "int \<Rightarrow> unit cmd" where
  "sleep d = ext (EvSleep d) (\<lambda>_. Inr ())"

definition starts_with :: "string \<Rightarrow> string \<Rightarrow> bool" where
  "starts_with p s \<longleftrightarrow> take (length p) s = p"

definition identity_state :: "string \<Rightarrow> string" where
  "identity_state out = (case find (starts_with ''identity_state='') (splitlines out) of
     None \<Rightarrow> [] | Some line \<Rightarrow> py_strip line)"

fun identity_loop :: "env \<Rightarrow> string \<Rightarrow> string \<Rightarrow> int \<Rightarrow> int \<Rightarrow> nat \<Rightarrow> unit cmd" where
  "identity_loop E node user uid deadline 0 = throw (raised OutOfFuel)"
| "identity_loop E node user uid deadline (Suc n) =
     bnd (farm_ssh E node (words [''check-identity'', user, show_int uid])) (\<lambda>out.
       if identity_state out = ''identity_state=ready'' then ret ()
       else if identity_state out = [] then throw (raised RuntimeError)
       else bnd (now E) (\<lambda>t.
         if deadline \<le> t then throw (raised NodeIdentityTimeout)
         else thn (sleep (cfg_identity_poll E)) (identity_loop E node user uid deadline n)))"

definition wait_node_identity :: "env \<Rightarrow> string \<Rightarrow> string \<Rightarrow> int \<Rightarrow> unit cmd" where
  "wait_node_identity E node user uid =
     bnd (now E) (\<lambda>t. identity_loop E node user uid (t + cfg_identity_wait E) (cfg_fuel E))"

definition deploy_krb5_to_farm :: "env \<Rightarrow> string \<Rightarrow> int \<Rightarrow> string \<Rightarrow> unit cmd" where
  "deploy_krb5_to_farm E user uid node_name =
     bnd (get_farm_node_info E node_name) (\<lambda>node.
     bnd (ext (EvReadSecret (keytab_secret user)) (x_read_secret E (keytab_secret user))) (\<lambda>keytab.
     thn (wait_node_identity E node user uid)
    (bnd (farm_ssh E node (words [''deploy'', user, show_int uid])) (\<lambda>_.
     thn (attempt (clear_krb5_cleanup_pending E user node_name)) (ret ())))))"

section \<open>The AD failover\<close>

text \<open>What one controller answers: it took the command, it refused it, or it could not be asked.\<close>

datatype ad_answer = AdOk string | AdRefused exn | AdUnreachable exn

definition ad_answer :: "env \<Rightarrow> string \<Rightarrow> string \<Rightarrow> history \<Rightarrow> ad_answer" where
  "ad_answer E c node h = (case x_ad_ssh E node c h of
     Inl e \<Rightarrow> if is_timeout_expired e then AdUnreachable e else AdRefused e
   | Inr (rc, out) \<Rightarrow> if rc = ssh_transport_error then AdUnreachable (raised RuntimeError)
                    else if rc \<noteq> 0 then AdRefused (raised RuntimeError) else AdOk out)"

text \<open>The history after asking \<open>nodes\<close> in turn.\<close>

definition asked :: "string \<Rightarrow> string list \<Rightarrow> history \<Rightarrow> history" where
  "asked c nodes h = map (\<lambda>n. EvAdSsh n c) (rev nodes) @ h"

lemma asked_simps [simp]: "asked c [] h = h" "asked c (n # ns) h = asked c ns (EvAdSsh n c # h)"
  by (simp_all add: asked_def)

lemma ad_nodes_loop_Cons:
  "ad_nodes_loop E c (n # ns) l s =
     (let s' = s\<lparr>hist := EvAdSsh n c # hist s\<rparr> in
      case ad_answer E c n (hist s) of
        AdOk out \<Rightarrow> (Inr out, s') | AdRefused e \<Rightarrow> (Inl e, s')
      | AdUnreachable e \<Rightarrow> ad_nodes_loop E c ns (Some e) s')"
  by (auto simp: ad_answer_def ext_def run Let_def split: sum.splits prod.splits)

text \<open>The first controller that can be asked decides; those after it are not asked.\<close>

lemma ad_nodes_loop_decided:
  assumes "\<forall>i<length pre. \<exists>e. ad_answer E c (pre ! i) (asked c (take i pre) (hist s)) = AdUnreachable e"
  shows "ad_nodes_loop E c (pre @ n # post) l s =
    (let s' = s\<lparr>hist := asked c (pre @ [n]) (hist s)\<rparr> in
     case ad_answer E c n (asked c pre (hist s)) of
       AdOk out \<Rightarrow> (Inr out, s') | AdRefused e \<Rightarrow> (Inl e, s')
     | AdUnreachable e \<Rightarrow> ad_nodes_loop E c post (Some e) s')"
  using assms
proof (induction pre arbitrary: l s)
  case Nil
  then show ?case by (simp add: ad_nodes_loop_Cons del: ad_nodes_loop.simps)
next
  case (Cons m pre)
  let ?s = "s\<lparr>hist := EvAdSsh m c # hist s\<rparr>"
  from Cons.prems obtain e where e: "ad_answer E c m (hist s) = AdUnreachable e"
    by (metis asked_simps(1) length_greater_0_conv list.distinct(1) nth_Cons_0 take_0)
  have "\<forall>i<length pre. \<exists>e. ad_answer E c (pre ! i) (asked c (take i pre) (hist ?s)) = AdUnreachable e"
    using Cons.prems by auto
  from Cons.IH[OF this] e show ?case
    by (simp add: ad_nodes_loop_Cons Let_def del: ad_nodes_loop.simps)
qed

section \<open>The identity wait returns\<close>

text \<open>\<open>time.monotonic\<close> does not go back, and \<open>time.sleep(d)\<close> takes at least \<open>d\<close>.\<close>

definition clock_law :: "env \<Rightarrow> bool" where
  "clock_law E \<longleftrightarrow> (\<forall>h ev. x_now E h \<le> x_now E (ev # h)) \<and>
     (\<forall>h d. x_now E h + d \<le> x_now E (EvSleep d # h))"

lemma farm_ssh_cases:
  "\<exists>r evs. farm_ssh E node c s = (r, s\<lparr>hist := evs @ hist s\<rparr>)"
  by (auto simp: farm_ssh_def farm_ssh_reply_def ext_def run split: sum.splits prod.splits)
    (metis append_Cons append_Nil)+

lemma clock_mono: "clock_law E \<Longrightarrow> x_now E h \<le> x_now E (evs @ h)"
  by (induction evs) (auto simp: clock_law_def intro: order_trans)

text \<open>The outside never answers with the marker of an unfinished loop.\<close>

definition fuel_free :: "env \<Rightarrow> bool" where
  "fuel_free E \<longleftrightarrow> (\<forall>node c h. x_farm_ssh E node c h \<noteq> Inl (raised OutOfFuel))"

lemma farm_ssh_fuel_free: "fuel_free E \<Longrightarrow> farm_ssh E node c s \<noteq> (Inl (raised OutOfFuel), t)"
  by (auto simp: farm_ssh_def farm_ssh_reply_def ext_def run fuel_free_def raised_def
      split: sum.splits prod.splits if_splits)

lemma identity_loop_returns:
  assumes "clock_law E" "fuel_free E"
    and "deadline - x_now E (hist s) \<le> int n * cfg_identity_poll E"
  shows "fst (identity_loop E node user uid deadline (Suc n) s) \<noteq> Inl (raised OutOfFuel)"
  using assms(3)
proof (induction n arbitrary: s)
  case (0 s)
  obtain r evs where f: "farm_ssh E node (words [''check-identity'', user, show_int uid]) s = (r, s\<lparr>hist := evs @ hist s\<rparr>)"
    using farm_ssh_cases by metis
  have "deadline \<le> x_now E (evs @ hist s)"
    using 0 clock_mono[OF assms(1), of "hist s" evs] by simp
  with f farm_ssh_fuel_free[OF assms(2), of node _ s] show ?case
    by (auto simp: run now_def ext_def raised_def split: sum.splits)
next
  case (Suc n s)
  obtain r evs where f: "farm_ssh E node (words [''check-identity'', user, show_int uid]) s = (r, s\<lparr>hist := evs @ hist s\<rparr>)"
    using farm_ssh_cases by metis
  let ?s = "s\<lparr>hist := EvSleep (cfg_identity_poll E) # EvTime # evs @ hist s\<rparr>"
  have "x_now E (hist s) + cfg_identity_poll E \<le> x_now E (hist ?s)"
  proof -
    have "x_now E (hist s) \<le> x_now E (EvTime # evs @ hist s)"
      using clock_mono[OF assms(1), of "hist s" "EvTime # evs"] by simp
    moreover have "x_now E (EvTime # evs @ hist s) + cfg_identity_poll E \<le> x_now E (hist ?s)"
      using assms(1) by (simp add: clock_law_def)
    ultimately show ?thesis by linarith
  qed
  with Suc.prems have "deadline - x_now E (hist ?s) \<le> int n * cfg_identity_poll E"
    by (simp add: algebra_simps)
  then have "fst (identity_loop E node user uid deadline (Suc n) ?s) \<noteq> Inl (raised OutOfFuel)"
    by (rule Suc.IH)
  with f farm_ssh_fuel_free[OF assms(2), of node _ s] show ?case
    by (subst identity_loop.simps(2))
      (auto simp: run now_def sleep_def ext_def raised_def simp del: identity_loop.simps split: sum.splits)
qed

section \<open>What they leave alone\<close>

lemma keeps_ad_nodes_loop [keeps_intros]:
  assumes "\<And>s h. obs (s\<lparr>hist := h\<rparr>) = obs s"
  shows "keeps obs (ad_nodes_loop E c ns l)"
proof (induction ns arbitrary: l)
  case (Cons n ns)
  show ?case unfolding ad_nodes_loop.simps by (intro keeps_intros) (simp_all add: assms Cons)
qed (simp add: keeps_intros)

lemma keeps_ad [keeps_intros]:
  assumes "\<And>s h. obs (s\<lparr>hist := h\<rparr>) = obs s"
  shows "keeps obs (farm_ad_ssh E c)" "keeps obs (farm_ssh_reply E n c)" "keeps obs (farm_ssh E n c)"
    "keeps obs (create_krb5_principal_and_secret E u i g)" "keeps obs (await_ad_replicated E u i)"
    "keeps obs (delete_krb5_principal_and_secret E u)" "keeps obs (create_ad_group E gn gi)"
    "keeps obs (add_ad_group_member E gn u)" "keeps obs (remove_ad_group_member E gn u)"
    "keeps obs (get_farm_node_info E n)" "keeps obs (remove_krb5_from_farm E u n)"
    "keeps obs (now E)" "keeps obs (sleep d)"
  unfolding farm_ad_ssh_def farm_ssh_reply_def farm_ssh_def create_krb5_principal_and_secret_def
    await_ad_replicated_def delete_krb5_principal_and_secret_def create_ad_group_def
    add_ad_group_member_def remove_ad_group_member_def get_farm_node_info_def remove_krb5_from_farm_def
    now_def sleep_def
  by (intro keeps_intros; simp add: assms)+

lemma keeps_identity_loop [keeps_intros]:
  assumes "\<And>s h. obs (s\<lparr>hist := h\<rparr>) = obs s"
  shows "keeps obs (identity_loop E n u i d k)"
proof (induction k)
  case (Suc k)
  show ?case unfolding identity_loop.simps by (intro keeps_intros) (simp_all add: assms Suc)
qed (simp add: keeps_intros)

lemma keeps_pending [keeps_intros]:
  assumes "\<And>s h. obs (s\<lparr>hist := h\<rparr>) = obs s" "\<And>s p. obs (s\<lparr>krb5_pending := p\<rparr>) = obs s"
  shows "keeps obs (record_krb5_cleanup_pending E u n)" "keeps obs (clear_krb5_cleanup_pending E u n)"
    "keeps obs (remove_krb5_from_all_farms E u)" "keeps obs (deploy_krb5_to_farm E u i n)"
  unfolding record_krb5_cleanup_pending_def clear_krb5_cleanup_pending_def remove_krb5_from_all_farms_def
    deploy_krb5_to_farm_def wait_node_identity_def
  by (intro keeps_intros; simp add: assms)+

end
