(* ===== verification/Account.thy ===== *)
theory Account
  imports Krb5
begin

text \<open>
  Creating and undoing accounts (\<open>lifecycle_steps/provision.py\<close>): the allocators of uids
  and gids, \<open>_rollback_user\<close>, giving a returning user the old uid back, and the steps
  of \<open>ACCOUNT_CREATE_STEPS\<close> and \<open>SUPP_GROUPS_ONLY_STEPS\<close>.
\<close>

section \<open>Allocators\<close>

lemma card_above_decreases:
  assumes "(c::int) \<in> S" and "finite S"
  shows "card (S \<inter> {c + 1..}) < card (S \<inter> {c..})"
proof (rule psubset_card_mono)
  have "c \<in> S \<inter> {c..}" "c \<notin> S \<inter> {c + 1..}" using assms by simp_all
  moreover have "S \<inter> {c + 1..} \<subseteq> S \<inter> {c..}" by auto
  ultimately show "S \<inter> {c + 1..} \<subset> S \<inter> {c..}" by (metis psubsetI)
qed (use assms in simp)

text \<open>\<open>while candidate in used: candidate += 1\<close>.\<close>

function first_free :: "int list \<Rightarrow> int \<Rightarrow> int" where
  "first_free used c = (if c \<in> set used then first_free used (c + 1) else c)"
  by pat_completeness auto

termination
  by (relation "measure (\<lambda>(used, c). card (set used \<inter> {c..}))") (simp_all add: card_above_decreases)

declare first_free.simps [simp del]

lemma first_free_not_used: "first_free used c \<notin> set used"
  by (induction used c rule: first_free.induct) (subst first_free.simps, simp)

lemma first_free_ge: "c \<le> first_free used c"
proof (induction used c rule: first_free.induct)
  case (1 used c)
  then show ?case by (subst first_free.simps) auto
qed

text \<open>No number between the start and the answer is free.\<close>

lemma first_free_least: "c \<le> x \<Longrightarrow> x < first_free used c \<Longrightarrow> x \<in> set used"
proof (induction used c rule: first_free.induct)
  case (1 used c)
  show ?case
  proof (cases "c \<in> set used")
    case True
    with 1 show ?thesis by (cases "x = c") (simp_all add: first_free.simps[of used c])
  next
    case False
    with 1 show ?thesis by (simp add: first_free.simps[of used c])
  qed
qed

definition allocate_next_uid :: "string list \<Rightarrow> int \<Rightarrow> int \<Rightarrow> int" where
  "allocate_next_uid lines min_uid issued =
     (let recs = entries parse_passwd_line lines;
          used = map pw_uid recs;
          managed = map pw_uid (filter (\<lambda>r. min_uid \<le> pw_uid r \<and> starts_with ''/home/'' (pw_home r)) recs)
      in first_free used (max (max_default (min_uid - 1) managed) issued + 1))"

definition allocate_next_gid :: "string list \<Rightarrow> int \<Rightarrow> int \<Rightarrow> int" where
  "allocate_next_gid lines min_gid issued =
     (let used = map gr_gid (entries parse_group_line lines);
          managed = filter (\<lambda>g. min_gid \<le> g \<and> g \<noteq> 65534) used
      in first_free (65534 # used) (max (max_default (min_gid - 1) managed) issued + 1))"

section \<open>Removing a user from the ledger\<close>

text \<open>
  A user taken out of one group line; \<open>None\<close> if the line goes because the group is the personal
  one and has no member left.
\<close>

definition without_member :: "string \<Rightarrow> group_entry \<Rightarrow> group_entry" where
  "without_member name r = r\<lparr>gr_members := filter (\<lambda>m. m \<noteq> name) (gr_members r)\<rparr>"

definition strip_group_line :: "(group_entry \<Rightarrow> bool) \<Rightarrow> string \<Rightarrow> string \<Rightarrow> exn + string option" where
  "strip_group_line personal name gl = (case parse_group_line gl of
     None \<Rightarrow> Inr (Some gl)
   | Some r \<Rightarrow>
       let r' = without_member name r
       in if personal r \<and> gr_members r' = [] then Inr None
          else bindE (format_group_entry r') (\<lambda>l. Inr (Some l)))"

definition catSome :: "'a option list \<Rightarrow> 'a list" where
  "catSome xs = List.map_filter (\<lambda>x. x) xs"

text \<open>The user taken out of the three files, the lines of \<open>passwd\<close> already read.\<close>

definition strip_user :: "env \<Rightarrow> (group_entry \<Rightarrow> bool) \<Rightarrow> string \<Rightarrow> string list \<Rightarrow> unit cmd" where
  "strip_user E personal name pw_lines =
     thn (write_passwd_lines E (drop_named parse_passwd_line pw_name name pw_lines))
    (bnd (read_shadow_lines E) (\<lambda>sh_lines.
     thn (write_shadow_lines E (drop_named parse_shadow_line sp_name name sh_lines))
    (bnd (read_group_lines E) (\<lambda>g_lines.
     bnd (liftE (mapE (strip_group_line personal name) g_lines)) (\<lambda>cleaned.
     write_group_lines E (catSome cleaned))))))"

text \<open>\<open>_rollback_user\<close>.\<close>

definition rolled_group :: "string \<Rightarrow> int option \<Rightarrow> group_entry \<Rightarrow> bool" where
  "rolled_group name primary_gid r \<longleftrightarrow> gr_name r = name \<or> primary_gid = Some (gr_gid r)"

definition rollback_locked :: "env \<Rightarrow> string \<Rightarrow> int option \<Rightarrow> unit cmd" where
  "rollback_locked E name primary_gid =
     bnd (read_passwd_lines E) (strip_user E (rolled_group name primary_gid) name)"

definition rollback_user :: "env \<Rightarrow> string \<Rightarrow> int option \<Rightarrow> unit cmd" where
  "rollback_user E name primary_gid = ledger_lock E (rollback_locked E name primary_gid)"

section \<open>The uid of a returning user\<close>

definition log_account :: "env \<Rightarrow> string \<Rightarrow> string \<Rightarrow> phase \<Rightarrow> string option \<Rightarrow> unit cmd" where
  "log_account E req name ph err = log_step E req name ''account'' CREATE_ACCOUNT ph err"

definition uid_candidates :: "ctx \<Rightarrow> int list" where
  "uid_candidates c = catSome [c_uid c, c_expected_uid c]"

definition returning_owner_uid :: "env \<Rightarrow> (int option \<times> string list) cmd" where
  "returning_owner_uid E =
     bnd (getC uid_candidates) (\<lambda>candidates.
       if candidates = [] then ret (None, [])
       else
         bnd (getC c_request) (\<lambda>req. bnd (needC c_name) (\<lambda>name.
         bnd (read_passwd_lines E) (\<lambda>lines.
           if has_named parse_passwd_line pw_name name lines then ret (None, [])
           else tryE
             (bnd (user_home_owner_uid E name) (\<lambda>ow.
                case ow of
                  None \<Rightarrow> ret (None, [])
                | Some uid \<Rightarrow>
                    if uid \<in> set candidates
                    then bnd (other_homes_owned_by E uid name) (\<lambda>sharers. ret (Some uid, sharers))
                    else ret (None, [])))
             (\<lambda>e. thn (log_account E req name (fail_phase e) (Some ''NAS_SSH_FAILED''))
                      (throw (infra_failed ''CREATE_ACCOUNT'' ''NAS_SSH_FAILED'' 500 (Some e))))))))"

definition uid_in_band :: "env \<Rightarrow> int \<Rightarrow> bool" where
  "uid_in_band E uid \<longleftrightarrow> cfg_uid_min E \<le> uid \<and> (case cfg_uid_max E of None \<Rightarrow> True | Some m \<Rightarrow> uid \<le> m)"

text \<open>The name that holds the number now: a passwd entry, else a group that is not the user's own.\<close>

definition uid_holder :: "int \<Rightarrow> string list \<Rightarrow> string list \<Rightarrow> string list \<Rightarrow> string option" where
  "uid_holder uid own_groups passwd_lines group_lines =
     (case find (\<lambda>r. pw_uid r = uid) (entries parse_passwd_line passwd_lines) of
        Some r \<Rightarrow> Some (pw_name r)
      | None \<Rightarrow> map_option gr_name
          (find (\<lambda>r. gr_gid r = uid \<and> gr_name r \<notin> set own_groups) (entries parse_group_line group_lines)))"

definition reclaim_uid :: "env \<Rightarrow> int \<Rightarrow> string list \<Rightarrow> string list \<Rightarrow> int cmd" where
  "reclaim_uid E uid sharers passwd_lines =
     bnd (getC c_request) (\<lambda>req. bnd (needC c_name) (\<lambda>name. bnd (getC c_pg_name) (\<lambda>pg.
     bnd (if \<not> uid_in_band E uid then ret True
          else if find (\<lambda>r. pw_uid r = uid) (entries parse_passwd_line passwd_lines) \<noteq> None then ret True
          else bnd (read_group_lines E) (\<lambda>g_lines.
            ret (uid_holder uid [name, case pg of None \<Rightarrow> name | Some g \<Rightarrow> g] passwd_lines g_lines \<noteq> None
                 \<or> sharers \<noteq> [])))
         (\<lambda>conflict.
           if conflict
           then thn (log_account E req name FAIL (Some ''EXPECTED_UID_CONFLICT''))
                    (throw (step_failed (Some ''CREATE_ACCOUNT'') ''EXPECTED_UID_CONFLICT'' 409 None False None))
           else ret uid))))"

definition delete_home_if_created :: "env \<Rightarrow> string \<Rightarrow> unit cmd" where
  "delete_home_if_created E name =
     bnd (getC c_home_created) (\<lambda>hc.
       if \<not> hc then ret ()
       else tryE (thn (delete_user_home_directory E name) (modC (\<lambda>c. c\<lparr>c_home_created := False\<rparr>)))
                 (\<lambda>_. ret ()))"

section \<open>The account step\<close>

definition home_dir :: "string \<Rightarrow> string" where
  "home_dir name = ''/home/'' @ name"

text \<open>The number of a new account: the returning user's own, or the next free one.\<close>

definition choose_uid :: "env \<Rightarrow> int option \<Rightarrow> string list \<Rightarrow> string list \<Rightarrow> int cmd" where
  "choose_uid E returning sharers lines = (case returning of
     Some u \<Rightarrow> reclaim_uid E u sharers lines
   | None \<Rightarrow>
       bnd (read_issued_id_max E UidKind) (\<lambda>issued.
         let uid = allocate_next_uid lines (cfg_uid_min E) issued in
         if (case cfg_uid_max E of None \<Rightarrow> False | Some m \<Rightarrow> m < uid)
         then bnd (getC c_request) (\<lambda>req. bnd (needC c_name) (\<lambda>name.
              thn (log_account E req name FAIL (Some ''UID_RANGE_EXHAUSTED''))
                  (throw (infra_failed ''CREATE_ACCOUNT'' ''UID_RANGE_EXHAUSTED'' 500 None))))
         else ret uid))"

text \<open>The mark left before the first write (#210); \<open>ckpt\<close> is \<open>ctx["_checkpoint"]\<close>.\<close>

definition write_marker :: "env \<Rightarrow> unit cmd option \<Rightarrow> int \<Rightarrow> unit cmd" where
  "write_marker E ckpt uid = (case ckpt of
     None \<Rightarrow> ret ()
   | Some save \<Rightarrow>
       thn (modC (\<lambda>c. c\<lparr>c_account_write_started := Some uid\<rparr>))
           (tryE save (\<lambda>e.
              if is_lease_lost e then throw e
              else bnd (getC c_request) (\<lambda>req. bnd (needC c_name) (\<lambda>name.
                   thn (log_account E req name (fail_phase e) (Some ''CHECKPOINT_FAILED''))
                       (throw (infra_failed ''CREATE_ACCOUNT'' ''CHECKPOINT_FAILED'' 500 (Some e))))))))"

definition new_passwd_entry :: "string \<Rightarrow> int \<Rightarrow> string \<Rightarrow> passwd_entry" where
  "new_passwd_entry name uid gecos = \<lparr>pw_name = name, pw_passwd = ''x'', pw_uid = uid, pw_gid = uid,
     pw_gecos = gecos, pw_home = home_dir name, pw_shell = ''/bin/bash''\<rparr>"

text \<open>Under the ledger lock: check, choose, record, mark, append.\<close>

definition create_passwd_locked :: "env \<Rightarrow> unit cmd option \<Rightarrow> int option \<Rightarrow> string list \<Rightarrow> int cmd" where
  "create_passwd_locked E ckpt returning sharers =
     bnd (getC c_request) (\<lambda>req. bnd (needC c_name) (\<lambda>name. bnd (getC c_gecos) (\<lambda>gecos.
     bnd (rd EvFile (x_file E) (\<lambda>s. splitlines (passwd_file (led s)))) (\<lambda>lines.
       if has_named parse_passwd_line pw_name name lines
       then thn (log_account E req name FAIL (Some ''USER_ALREADY_EXISTS''))
                (throw (plain_failed ''user already exists'' 409))
       else
         bnd (choose_uid E returning sharers lines) (\<lambda>uid.
         thn (record_issued_id E UidKind uid)
        (thn (write_marker E ckpt uid)
        (bnd (liftE (format_passwd_entry (new_passwd_entry name uid gecos))) (\<lambda>l.
         thn (replace_file E PasswdF (join [NL] (lines @ [l]) @ [NL]))
             (ret uid)))))))))"

text \<open>The primary group line: both its name and its gid match, or the ledger is broken.\<close>

definition primary_exists :: "string \<Rightarrow> int \<Rightarrow> string list \<Rightarrow> exn + bool" where
  "primary_exists pg gid lines =
     (let near = filter (\<lambda>r. gr_gid r = gid \<or> gr_name r = pg) (entries parse_group_line lines) in
      if list_all (\<lambda>r. gr_gid r = gid \<and> gr_name r = pg) near then Inr (near \<noteq> [])
      else Inl (raised RuntimeError))"

text \<open>One group line when \<open>name\<close> joins the group with gid \<open>g\<close>.\<close>

definition join_line :: "string \<Rightarrow> int \<Rightarrow> string \<Rightarrow> exn + string" where
  "join_line name g gl = (case parse_group_line gl of
     None \<Rightarrow> Inr gl
   | Some r \<Rightarrow> if gr_gid r = g
       then format_group_entry (if name \<in> set (gr_members r) then r else r\<lparr>gr_members := gr_members r @ [name]\<rparr>)
       else Inr gl)"

definition has_gid :: "int \<Rightarrow> string list \<Rightarrow> bool" where
  "has_gid g lines \<longleftrightarrow> list_ex (\<lambda>r. gr_gid r = g) (entries parse_group_line lines)"

definition new_group_entry :: "string \<Rightarrow> int \<Rightarrow> string list \<Rightarrow> group_entry" where
  "new_group_entry name g members = \<lparr>gr_name = name, gr_passwd = ''x'', gr_gid = g, gr_members = members\<rparr>"

text \<open>One supplementary group: join the line with its gid, or append a line.\<close>

definition add_supp_group :: "env \<Rightarrow> string \<Rightarrow> supp_group \<Rightarrow> string list \<times> (string \<times> int) list
    \<Rightarrow> (string list \<times> (string \<times> int) list) cmd" where
  "add_supp_group E name sg acc = (case acc of (g_lines, added) \<Rightarrow> (case sg_gid sg of
     None \<Rightarrow> throw (raised OtherError)
   | Some g \<Rightarrow>
       bnd (liftE (mapE (join_line name g) g_lines)) (\<lambda>updated.
       if has_gid g g_lines then ret (updated, added @ [(sg_name sg, g)])
       else thn (whenE (cfg_shared_gid_min E \<le> g) (record_issued_id E SharedGidKind g))
                (bnd (liftE (format_group_entry (new_group_entry (sg_name sg) g [name]))) (\<lambda>l.
                 ret (updated @ [l], added @ [(sg_name sg, g)]))))))"

definition add_supp_groups_locked :: "env \<Rightarrow> string \<Rightarrow> supp_group list \<Rightarrow> string list \<Rightarrow> (string \<times> int) list cmd" where
  "add_supp_groups_locked E name sgs g_lines =
     bnd (foldM (add_supp_group E name) sgs (g_lines, [])) (\<lambda>(lines, added).
     thn (replace_file E GroupF (join [NL] lines @ [NL])) (ret added))"

definition create_group_locked :: "env \<Rightarrow> string \<Rightarrow> string \<Rightarrow> int \<Rightarrow> supp_group list \<Rightarrow> (string \<times> int) list cmd" where
  "create_group_locked E name pg gid sgs =
     bnd (rd EvFile (x_file E) (\<lambda>s. splitlines (group_file (led s)))) (\<lambda>g_lines.
     bnd (liftE (primary_exists pg gid g_lines)) (\<lambda>pe.
     bnd (if pe then ret g_lines
          else bnd (liftE (format_group_entry (new_group_entry pg gid []))) (\<lambda>l. ret (g_lines @ [l])))
         (\<lambda>g_lines. add_supp_groups_locked E name sgs g_lines)))"

definition new_shadow_entry :: "string \<Rightarrow> string \<Rightarrow> int \<Rightarrow> shadow_entry" where
  "new_shadow_entry name hash today = \<lparr>sp_name = name, sp_passwd = hash, sp_lastchg = Some today,
     sp_min = Some 0, sp_max = Some 99999, sp_warn = Some 7, sp_inactive = None, sp_expire = None, sp_flag = ''''\<rparr>"

definition today_days :: "env \<Rightarrow> int cmd" where
  "today_days E = ext EvTime (\<lambda>h. Inr (x_wall E h div 86400000))"

definition create_shadow :: "env \<Rightarrow> string \<Rightarrow> unit cmd" where
  "create_shadow E name =
     bnd (getC c_passwd_hash) (\<lambda>hash.
       if hash = [] then throw (raised KeyError)
       else bnd (today_days E) (\<lambda>today.
         ledger_lock E (
           bnd (read_shadow_lines E) (\<lambda>sh_lines.
           bnd (liftE (format_shadow_entry (new_shadow_entry name hash today))) (\<lambda>l.
           write_shadow_lines E (sh_lines @ [l]))))))"

definition build_sudoers_policy :: "env \<Rightarrow> string \<Rightarrow> string option" where
  "build_sudoers_policy E name = (if cfg_sudo_commands E = [] then None
     else Some (name @ '' ALL=(ALL) PASSWD: '' @ join '', '' (cfg_sudo_commands E) @ [NL]))"

text \<open>The three parts after passwd undo the account when they fail.\<close>

definition or_rollback :: "env \<Rightarrow> string \<Rightarrow> string \<Rightarrow> string \<Rightarrow> string \<Rightarrow> 'a cmd \<Rightarrow> 'a cmd" where
  "or_rollback E req name code msg m = tryE m (\<lambda>e.
     thn (log_account E req name FAIL (Some code))
    (thn (rollback_user E name None) (throw (plain_failed msg 500))))"

definition step_create_account :: "env \<Rightarrow> unit cmd option \<Rightarrow> unit cmd" where
  "step_create_account E ckpt =
     bnd (getC c_request) (\<lambda>req. bnd (needC c_name) (\<lambda>name.
     bnd (needC c_pg_name) (\<lambda>pg. bnd (getC c_supp_groups) (\<lambda>sgs.
     thn (ensure_etc_layout E)
    (thn (log_account E req name START None)
    (bnd (returning_owner_uid E) (\<lambda>(returning, sharers).
     bnd (tryE (ledger_lock E (create_passwd_locked E ckpt returning sharers))
               (\<lambda>e. if is_step_failed e \<or> is_lease_lost e then throw e
                    else thn (log_account E req name FAIL (Some ''PASSWD_WRITE_FAILED'')) (throw e))) (\<lambda>uid.
     bnd (or_rollback E req name ''GROUP_WRITE_FAILED'' ''failed to write group''
            (ledger_lock E (create_group_locked E name pg uid sgs))) (\<lambda>added.
     thn (or_rollback E req name ''SHADOW_WRITE_FAILED'' ''failed to write shadow'' (create_shadow E name))
    (thn (case build_sudoers_policy E name of
            None \<Rightarrow> ret ()
          | Some policy \<Rightarrow> or_rollback E req name ''SUDOERS_CREATE_FAILED'' ''failed to create sudoers file''
              (ensure_sudoers_file E name policy))
    (thn (log_account E req name SUCCESS None)
         (modC (\<lambda>c. c\<lparr>c_uid := Some uid, c_gid := Some uid, c_added_supp := added\<rparr>)))))))))))))"

section \<open>Home, principal and groups\<close>

text \<open>The failure of the home and principal steps: the account is gone, so the job starts over there.\<close>

definition restart_failed :: "string \<Rightarrow> string \<Rightarrow> exn \<Rightarrow> bool \<Rightarrow> exn" where
  "restart_failed st err e retry = step_failed (Some st) err 500 (Some e) retry (Some CreateAccount)"

fun home_created_of :: "exn \<Rightarrow> bool" where
  "home_created_of (Exn k r c h) = h"
| "home_created_of _ = False"

fun is_owner_mismatch :: "exn \<Rightarrow> bool" where
  "is_owner_mismatch (Exn k r c h) = (k = HomeOwnerMismatch)"
| "is_owner_mismatch _ = False"

definition step_create_home :: "env \<Rightarrow> unit cmd" where
  "step_create_home E =
     bnd (getC c_request) (\<lambda>req. bnd (needC c_name) (\<lambda>name.
     thn (log_step E req name ''storage'' CREATE_HOME START None)
    (thn (tryE
       (bnd (needC c_uid) (\<lambda>uid. bnd (needC c_gid) (\<lambda>gid.
        bnd (create_user_home_directory E name uid gid) (\<lambda>created.
        modC (\<lambda>c. c\<lparr>c_home_created := created \<or> c_home_created c\<rparr>)))))
       (\<lambda>e. thn (modC (\<lambda>c. c\<lparr>c_home_created := home_created_of e \<or> c_home_created c\<rparr>))
            (let mismatch = is_owner_mismatch e;
                 code = (if mismatch then ''HOME_OWNER_MISMATCH'' else ''NAS_SSH_FAILED'') in
             thn (log_step E req name ''storage'' CREATE_HOME (fail_phase e) (Some code))
            (thn (rollback_user E name None)
                 (throw (restart_failed ''CREATE_HOME_DIRECTORY'' code e (\<not> mismatch)))))))
     (log_step E req name ''storage'' CREATE_HOME SUCCESS None))))"

definition step_create_krb5_principal :: "env \<Rightarrow> unit cmd" where
  "step_create_krb5_principal E =
     bnd (getC c_request) (\<lambda>req. bnd (needC c_name) (\<lambda>name.
       if \<not> cfg_krb5 E then ret ()
       else
         thn (log_step E req name ''kerberos'' CREATE_KRB5_PRINCIPAL START None)
        (thn (tryE
           (bnd (needC c_uid) (\<lambda>uid. bnd (needC c_gid) (\<lambda>gid.
            create_krb5_principal_and_secret E name uid gid)))
           (\<lambda>e. thn (log_step E req name ''kerberos'' CREATE_KRB5_PRINCIPAL (fail_phase e) (Some ''KDC_FAILED''))
               (thn (delete_home_if_created E name)
               (thn (attempt (farm_ad_ssh E (words [''delete'', name])))
               (thn (rollback_user E name None)
                    (throw (restart_failed ''CREATE_KRB5_PRINCIPAL'' ''KDC_FAILED'' e True)))))))
         (log_step E req name ''kerberos'' CREATE_KRB5_PRINCIPAL SUCCESS None))))"

definition step_await_ad_replication :: "env \<Rightarrow> unit cmd" where
  "step_await_ad_replication E =
     bnd (getC c_request) (\<lambda>req. bnd (needC c_name) (\<lambda>name.
       if \<not> ad_enabled E then ret ()
       else
         thn (log_step E req name ''replication'' CREATE_KRB5_PRINCIPAL START None)
        (thn (tryE (bnd (needC c_uid) (\<lambda>uid. await_ad_replicated E name uid))
           (\<lambda>e. thn (log_step E req name ''replication'' CREATE_KRB5_PRINCIPAL (fail_phase e)
                       (Some ''AD_REPLICATION_TIMEOUT''))
                    (throw (infra_failed ''AWAIT_AD_REPLICATION'' ''AD_REPLICATION_TIMEOUT'' 500 (Some e)))))
         (log_step E req name ''replication'' CREATE_KRB5_PRINCIPAL SUCCESS None))))"

definition step_add_user_groups :: "env \<Rightarrow> unit cmd" where
  "step_add_user_groups E =
     bnd (getC c_request) (\<lambda>req. bnd (getC c_username) (\<lambda>user. bnd (getC c_supp_groups) (\<lambda>sgs.
       if sgs = [] then ret ()
       else
         thn (log_step E req user ''groups'' CREATE_ACCOUNT START None)
        (tryE
           (bnd (ledger_lock E (
              bnd (rd EvFile (x_file E) (\<lambda>s. splitlines (group_file (led s)))) (\<lambda>g_lines.
              add_supp_groups_locked E user sgs g_lines))) (\<lambda>added.
            thn (log_step E req user ''groups'' CREATE_ACCOUNT SUCCESS None)
                (modC (\<lambda>c. c\<lparr>c_added_supp := c_added_supp c @ added\<rparr>))))
           (\<lambda>e. thn (log_step E req user ''groups'' CREATE_ACCOUNT FAIL (Some ''GROUP_WRITE_FAILED''))
                    (throw (plain_failed ''failed to add supplementary groups'' 500)))))))"

definition step_sync_ad_groups :: "env \<Rightarrow> unit cmd" where
  "step_sync_ad_groups E =
     bnd (getC c_request) (\<lambda>req.
     bnd (getC (\<lambda>c. case c_name c of None \<Rightarrow> c_username c | Some n \<Rightarrow> if n = [] then c_username c else n)) (\<lambda>name.
     bnd (getC c_supp_groups) (\<lambda>sgs.
       if sgs = [] \<or> \<not> ad_enabled E then ret ()
       else
         thn (log_step E req name ''groups'' CREATE_ACCOUNT START None)
        (thn (tryE
           (forM sgs (\<lambda>sg. case sg_gid sg of
              None \<Rightarrow> throw (raised OtherError)
            | Some g \<Rightarrow> thn (create_ad_group E (sg_name sg) g) (add_ad_group_member E (sg_name sg) name)))
           (\<lambda>e. thn (log_step E req name ''groups'' CREATE_ACCOUNT (fail_phase e) (Some ''AD_GROUP_SYNC_FAILED''))
                    (throw (infra_failed ''SYNC_AD_GROUPS'' ''AD_GROUP_SYNC_FAILED'' 500 (Some e)))))
         (log_step E req name ''groups'' CREATE_ACCOUNT SUCCESS None)))))"

section \<open>What the allocators promise\<close>

lemma allocate_next_uid_fresh:
  assumes "u = allocate_next_uid lines lo issued"
  shows "u \<notin> pw_uid ` set (entries parse_passwd_line lines)" "issued < u" "lo \<le> u"
proof -
  let ?recs = "entries parse_passwd_line lines"
  let ?man = "map pw_uid (filter (\<lambda>r. lo \<le> pw_uid r \<and> starts_with ''/home/'' (pw_home r)) ?recs)"
  have u: "u = first_free (map pw_uid ?recs) (max (max_default (lo - 1) ?man) issued + 1)"
    by (simp add: assms allocate_next_uid_def Let_def)
  show "u \<notin> pw_uid ` set ?recs"
    using first_free_not_used[of "map pw_uid ?recs"] by (simp add: u)
  have ge: "max (max_default (lo - 1) ?man) issued + 1 \<le> u"
    using first_free_ge by (simp add: u)
  then show "issued < u" by simp
  have "lo - 1 \<le> max_default (lo - 1) ?man"
    using max_default_in[of "lo - 1" ?man] by auto
  with ge show "lo \<le> u" by simp
qed

lemma allocate_next_gid_fresh:
  assumes "g = allocate_next_gid lines lo issued"
  shows "g \<notin> gr_gid ` set (entries parse_group_line lines)" "issued < g" "lo \<le> g" "g \<noteq> 65534"
proof -
  let ?used = "map gr_gid (entries parse_group_line lines)"
  let ?man = "filter (\<lambda>g. lo \<le> g \<and> g \<noteq> 65534) ?used"
  have g: "g = first_free (65534 # ?used) (max (max_default (lo - 1) ?man) issued + 1)"
    by (simp add: assms allocate_next_gid_def Let_def)
  show "g \<notin> gr_gid ` set (entries parse_group_line lines)" "g \<noteq> 65534"
    using first_free_not_used[of "65534 # ?used"] by (auto simp: g)
  have ge: "max (max_default (lo - 1) ?man) issued + 1 \<le> g"
    using first_free_ge by (simp add: g)
  then show "issued < g" by simp
  have "lo - 1 \<le> max_default (lo - 1) ?man"
    using max_default_in[of "lo - 1" ?man] by auto
  with ge show "lo \<le> g" by simp
qed

section \<open>The passwd part\<close>

definition lines_of :: "lfile \<Rightarrow> ledger \<Rightarrow> string list" where
  "lines_of f l = splitlines (file_of f l)"

text \<open>The step context up to the write mark.\<close>

definition same_ctx :: "ctx \<Rightarrow> ctx \<Rightarrow> bool" where
  "same_ctx c d \<longleftrightarrow> (\<exists>m. d = c\<lparr>c_account_write_started := m\<rparr>)"

lemma same_ctx_refl [simp]: "same_ctx c c"
  unfolding same_ctx_def by (rule exI[of _ "c_account_write_started c"]) simp

lemma same_ctxD:
  "same_ctx c d \<Longrightarrow> c_name d = c_name c" "same_ctx c d \<Longrightarrow> c_passwd_hash d = c_passwd_hash c"
  "same_ctx c d \<Longrightarrow> c_request d = c_request c" "same_ctx c d \<Longrightarrow> c_gecos d = c_gecos c"
  by (auto simp: same_ctx_def)

text \<open>A checkpoint saves the progress of the job and nothing else.\<close>

definition tame :: "'a cmd \<Rightarrow> bool" where
  "tame m \<longleftrightarrow> keeps led m \<and> keeps lock_depth m \<and> keeps cx m"

definition tame_ckpt :: "unit cmd option \<Rightarrow> bool" where
  "tame_ckpt ckpt \<longleftrightarrow> (case ckpt of None \<Rightarrow> True | Some m \<Rightarrow> tame m)"

lemma wp_tame:
  assumes "tame m" "\<And>a t. led t = led s \<Longrightarrow> lock_depth t = lock_depth s \<Longrightarrow> cx t = cx s \<Longrightarrow> Q a t"
    and "\<And>e t. led t = led s \<Longrightarrow> lock_depth t = lock_depth s \<Longrightarrow> cx t = cx s \<Longrightarrow> R e t"
  shows "wp m Q R s"
proof -
  have "led t = led s \<and> lock_depth t = lock_depth s \<and> cx t = cx s" if "m s = (r, t)" for r t
    using assms(1) that unfolding tame_def by (metis keepsE)
  with assms(2,3) show ?thesis by (intro wpI) blast+
qed

lemma wp_log_account:
  assumes "\<And>t. like s t \<Longrightarrow> Q () t"
  shows "wp (log_account E r n ph err) Q R s"
  unfolding log_account_def by (rule wp_log_step) (rule assms)

lemma wp_reclaim_uid:
  assumes "seeded (led s)" "0 < lock_depth s"
    and "\<And>t. like s t \<Longrightarrow> uid \<notin> pw_uid ` set (entries parse_passwd_line lines) \<Longrightarrow> uid_in_band E uid \<Longrightarrow> sharers = [] \<Longrightarrow> Q uid t"
    and "\<And>e t. like s t \<Longrightarrow> R e t"
  shows "wp (reclaim_uid E uid sharers lines) Q R s"
proof -
  have u: "find (\<lambda>r. pw_uid r = uid) (entries parse_passwd_line lines) = None \<Longrightarrow>
           uid \<notin> pw_uid ` set (entries parse_passwd_line lines)"
    by (auto simp: find_None_iff)
  have l: "wp (log_account E req name ph err) (\<lambda>_. R e) R s" for req name ph err e
    by (rule wp_log_account) (rule assms(4))
  have l': "wp (log_account E req name ph err) (\<lambda>_. R e) R t" if "like s t" for req name ph err e t
    by (rule wp_log_account) (use that assms(4) in \<open>auto simp: after_def\<close>)
  have g: "wp (read_group_lines E)
     (\<lambda>gl t. wp (if uid_holder uid own lines gl \<noteq> None \<or> sharers \<noteq> []
                then thn (log_account E req name ph err) (throw e) else ret uid) Q R t) R s"
    if "find (\<lambda>r. pw_uid r = uid) (entries parse_passwd_line lines) = None" "uid_in_band E uid"
    for own req name ph err e
    by (rule wp_read_lines[OF assms(1,2)])
      (use that u assms(3,4) l' in \<open>auto simp: wp_simps\<close>)
  show ?thesis
    unfolding reclaim_uid_def using g u l assms(3,4)
    by (auto simp: wp_simps after_def split: option.splits)
qed

lemma wp_choose_uid:
  assumes "seeded (led s)" "0 < lock_depth s"
    and "\<And>u t. like s t \<Longrightarrow> u \<notin> pw_uid ` set (entries parse_passwd_line lines) \<Longrightarrow>
           (returning = None \<Longrightarrow> issued_max (led s) UidKind < u) \<Longrightarrow> uid_in_band E u \<Longrightarrow>
           (\<And>v. returning = Some v \<Longrightarrow> u = v) \<Longrightarrow> Q u t"
    and "\<And>e t. like s t \<Longrightarrow> R e t"
  shows "wp (choose_uid E returning sharers lines) Q R s"
proof (cases returning)
  case (Some v)
  show ?thesis
    unfolding choose_uid_def Some option.case
    by (rule wp_reclaim_uid[OF assms(1,2)]) (use Some assms(3,4) in auto)
next
  case None
  have l: "wp (log_account E req name ph err) (\<lambda>_. R e) R t" if "like s t" for req name ph err e t
    by (rule wp_log_account) (use that assms(4) in \<open>auto simp: after_def\<close>)
  show ?thesis
    unfolding choose_uid_def None option.case wp_bnd
  proof (rule wp_read_issued_id_max[OF assms(2)])
    fix t assume t: "like s t"
    let ?u = "allocate_next_uid lines (cfg_uid_min E) (issued_max (led s) UidKind)"
    note f = allocate_next_uid_fresh[OF refl, where lines=lines and lo="cfg_uid_min E"
      and issued="issued_max (led s) UidKind"]
    show "wp (let uid = ?u in
              if case cfg_uid_max E of None \<Rightarrow> False | Some m \<Rightarrow> m < uid
              then bnd (getC c_request) (\<lambda>req. bnd (needC c_name) (\<lambda>name.
                     thn (log_account E req name FAIL (Some ''UID_RANGE_EXHAUSTED''))
                         (throw (infra_failed ''CREATE_ACCOUNT'' ''UID_RANGE_EXHAUSTED'' 500 None))))
              else ret uid) Q R t"
    proof (cases "case cfg_uid_max E of None \<Rightarrow> False | Some m \<Rightarrow> m < ?u")
      case True
      with t l assms(4) show ?thesis by (auto simp: Let_def wp_simps split: option.splits)
    next
      case False
      then have "uid_in_band E ?u" using f(3) by (auto simp: uid_in_band_def split: option.splits)
      with False t f None assms(3) show ?thesis by (auto simp: Let_def wp_simps)
    qed
  qed (rule assms(4))
qed

lemma wp_write_marker:
  assumes "tame_ckpt ckpt" "c_name (cx s) \<noteq> None"
    and "\<And>t. led t = led s \<Longrightarrow> lock_depth t = lock_depth s \<Longrightarrow> same_ctx (cx s) (cx t) \<Longrightarrow> Q () t"
    and "\<And>e t. led t = led s \<Longrightarrow> lock_depth t = lock_depth s \<Longrightarrow> same_ctx (cx s) (cx t) \<Longrightarrow> R e t"
  shows "wp (write_marker E ckpt uid) Q R s"
proof (cases ckpt)
  case None
  with assms(3)[of s] show ?thesis by (simp add: write_marker_def wp_ret)
next
  case (Some save)
  let ?s = "s\<lparr>cx := (cx s)\<lparr>c_account_write_started := Some uid\<rparr>\<rparr>"
  have sc: "same_ctx (cx s) (cx ?s)" by (auto simp: same_ctx_def)
  have "wp save Q (\<lambda>e. wp (if is_lease_lost e then throw e
              else bnd (getC c_request) (\<lambda>req. bnd (needC c_name) (\<lambda>name.
                   thn (log_account E req name (fail_phase e) (Some ''CHECKPOINT_FAILED''))
                       (throw (infra_failed ''CREATE_ACCOUNT'' ''CHECKPOINT_FAILED'' 500 (Some e)))))) Q R) ?s"
  proof (rule wp_tame)
    show "tame save" using assms(1) Some by (simp add: tame_ckpt_def)
    fix t :: st assume t: "led t = led ?s" "lock_depth t = lock_depth ?s" "cx t = cx ?s"
    then show "Q a t" for a using assms(3) sc by simp
    have R: "R e u" if "like t u" for e u
      using that t sc by (auto intro!: assms(4) simp: afterD)
    have l: "wp (log_account E req name ph err) (\<lambda>_. R e') R t" for req name ph err e'
      by (rule wp_log_account) (rule R)
    from t assms(2) have "c_name (cx t) \<noteq> None" by simp
    with l R[of t] show "wp (if is_lease_lost e then throw e
              else bnd (getC c_request) (\<lambda>req. bnd (needC c_name) (\<lambda>name.
                   thn (log_account E req name (fail_phase e) (Some ''CHECKPOINT_FAILED''))
                       (throw (infra_failed ''CREATE_ACCOUNT'' ''CHECKPOINT_FAILED'' 500 (Some e)))))) Q R t" for e
      by (auto simp: wp_simps split: option.splits)
  qed
  then show ?thesis by (simp add: write_marker_def Some wp_thn wp_tryE wp_modC)
qed

text \<open>The ledger after the account's passwd line was appended.\<close>

definition passwd_added :: "string \<Rightarrow> int \<Rightarrow> string \<Rightarrow> ledger \<Rightarrow> ledger \<Rightarrow> bool" where
  "passwd_added name uid gecos L M \<longleftrightarrow>
     (\<exists>l. lines_of PasswdF M = lines_of PasswdF L @ [l] \<and>
          parse_passwd_line l = Some (new_passwd_entry name uid gecos)) \<and>
     group_file M = group_file L \<and> shadow_file M = shadow_file L \<and> sudoers M = sudoers L \<and>
     issued_max M UidKind = max uid (issued_max L UidKind) \<and> issued_max M SharedGidKind = issued_max L SharedGidKind"

text \<open>Only the record of issued numbers moved, and only up.\<close>

definition only_issued :: "ledger \<Rightarrow> ledger \<Rightarrow> bool" where
  "only_issued L M \<longleftrightarrow> passwd_file M = passwd_file L \<and> group_file M = group_file L \<and>
     shadow_file M = shadow_file L \<and> sudoers M = sudoers L \<and>
     (\<forall>k. issued_max L k \<le> issued_max M k)"

lemma issued_only: "issued_at_least k v L M \<Longrightarrow> only_issued L M"
proof -
  assume a: "issued_at_least k v L M"
  then obtain r where M: "M = L\<lparr>issued_ids := r\<rparr>" by (auto simp: issued_at_least_def)
  have "issued_max L j \<le> issued_max M j" for j
    using a by (cases "j = k") (auto simp: issued_at_least_def)
  with M show ?thesis by (simp add: only_issued_def)
qed

lemma only_issued_refl [simp]: "only_issued L L"
  by (simp add: only_issued_def)

lemma appended_lines:
  assumes "unbroken l"
  shows "splitlines (join [NL] (splitlines c @ [l]) @ [NL]) = splitlines c @ [l]"
  using assms splitlines_all_unbroken by (intro splitlines_join) auto

lemma passwd_added_replace:
  assumes "format_passwd_entry (new_passwd_entry name uid gecos) = Inr l" "name \<noteq> []" "0 \<le> uid"
    and "issued_at_least UidKind uid L L'"
  shows "passwd_added name uid gecos L (put_file PasswdF (join [NL] (splitlines (passwd_file L) @ [l]) @ [NL]) L')"
proof -
  have u: "unbroken l" using assms(1) by (rule format_unbroken)
  have p: "parse_passwd_line l = Some (new_passwd_entry name uid gecos)"
    by (rule parse_format_passwd[OF assms(1)]) (use assms in \<open>simp add: passwd_ok_def new_passwd_entry_def\<close>)
  from assms(4) obtain r where L': "L' = L\<lparr>issued_ids := r\<rparr>" by (auto simp: issued_at_least_def)
  have i: "issued_max (put_file PasswdF c L') k = issued_max L' k" for c k
    by (simp add: issued_max_def)
  show ?thesis
    unfolding passwd_added_def i
    using p assms(4) appended_lines[OF u, of "passwd_file L"]
    by (simp add: lines_of_def L') (auto simp: issued_at_least_def L')
qed

lemma wp_create_passwd_locked:
  assumes "seeded (led s)" "0 < lock_depth s" "c_name (cx s) = Some name" "name \<noteq> []"
    and "tame_ckpt ckpt" "0 \<le> cfg_uid_min E" "plain_files E"
    and Q: "\<And>uid t. passwd_added name uid (c_gecos (cx s)) (led s) (led t) \<Longrightarrow> lock_depth t = lock_depth s \<Longrightarrow>
           same_ctx (cx s) (cx t) \<Longrightarrow> \<not> has_named parse_passwd_line pw_name name (lines_of PasswdF (led s)) \<Longrightarrow>
           uid \<notin> pw_uid ` set (entries parse_passwd_line (lines_of PasswdF (led s))) \<Longrightarrow>
           (returning = None \<Longrightarrow> issued_max (led s) UidKind < uid) \<Longrightarrow> uid_in_band E uid \<Longrightarrow>
           (\<And>v. returning = Some v \<Longrightarrow> uid = v) \<Longrightarrow> Q uid t"
    and R: "\<And>e t. lock_depth t = lock_depth s \<Longrightarrow> same_ctx (cx s) (cx t) \<Longrightarrow>
           only_issued (led s) (led t) \<or>
           (\<not> is_step_failed e \<and> (\<exists>uid. passwd_added name uid (c_gecos (cx s)) (led s) (led t))) \<Longrightarrow> R e t"
  shows "wp (create_passwd_locked E ckpt returning sharers) Q R s"
proof -
  let ?lines = "splitlines (passwd_file (led s))"
  let ?gecos = "c_gecos (cx s)"
  have R0: "R e t" if "like s t" for e t
    using that by (intro R) (auto simp: afterD)
  define k where "k = (\<lambda>uid. thn (record_issued_id E UidKind uid)
        (thn (write_marker E ckpt uid)
        (bnd (liftE (format_passwd_entry (new_passwd_entry name uid ?gecos))) (\<lambda>l.
         thn (replace_file E PasswdF (join [NL] (?lines @ [l]) @ [NL])) (ret uid)))))"
  have tail: "wp (k uid) Q R t"
    if t: "like s t" and n: "\<not> has_named parse_passwd_line pw_name name ?lines"
      and u: "uid \<notin> pw_uid ` set (entries parse_passwd_line ?lines)"
      and i: "returning = None \<Longrightarrow> issued_max (led s) UidKind < uid" and b: "uid_in_band E uid"
      and v: "\<And>v. returning = Some v \<Longrightarrow> uid = v" for uid t
    unfolding k_def wp_thn
  proof (rule wp_record_issued_id)
    note t' = afterD[OF t]
    show "0 < lock_depth t" using t' assms(2) by simp
    fix e t2 assume "after (led t) t t2"
    then show "R e t2" using t by (intro R0) (auto simp: after_def)
  next
    note t' = afterD[OF t]
    fix e t2 M assume "after M t t2" "issued_at_least UidKind uid (led t) M"
    then show "R e t2" using t' by (intro R) (auto dest: afterD issued_only)
  next
    note t' = afterD[OF t]
    fix t2 M assume "after M t t2" "issued_at_least UidKind uid (led t) M"
    then have t2: "led t2 = M" "lock_depth t2 = lock_depth s" "cx t2 = cx s"
      and M: "issued_at_least UidKind uid (led s) M"
      using t' by (simp_all add: afterD)
    show "wp (write_marker E ckpt uid)
       (\<lambda>_. wp (bnd (liftE (format_passwd_entry (new_passwd_entry name uid ?gecos)))
                (\<lambda>l. thn (replace_file E PasswdF (join [NL] (?lines @ [l]) @ [NL])) (ret uid))) Q R) R t2"
    proof (rule wp_write_marker[OF assms(5)])
      show "c_name (cx t2) \<noteq> None" using t2 assms(3) by simp
      fix e and t3 :: st assume t3: "led t3 = led t2" "lock_depth t3 = lock_depth t2" "same_ctx (cx t2) (cx t3)"
      then show "R e t3" using t2 M by (intro R) (auto dest: issued_only)
    next
      fix t3 :: st assume t3: "led t3 = led t2" "lock_depth t3 = lock_depth t2" "same_ctx (cx t2) (cx t3)"
      have R3: "R e (t3\<lparr>hist := h\<rparr>)" for e h using t2 t3 M by (intro R) (auto dest: issued_only)
      show "wp (bnd (liftE (format_passwd_entry (new_passwd_entry name uid ?gecos)))
                (\<lambda>l. thn (replace_file E PasswdF (join [NL] (?lines @ [l]) @ [NL])) (ret uid))) Q R t3"
      proof (cases "format_passwd_entry (new_passwd_entry name uid ?gecos)")
        case (Inl e)
        with R3[of _ "hist t3"] show ?thesis by (simp add: wp_bnd wp_liftE)
      next
        case (Inr l)
        have z: "0 \<le> uid" using b assms(6) by (simp add: uid_in_band_def)
        note added = passwd_added_replace[OF Inr assms(4) z M]
        have "wp (replace_file E PasswdF (join [NL] (?lines @ [l]) @ [NL])) (\<lambda>_. Q uid) R t3"
        proof (rule wp_replace_file)
          fix t4 assume "after (put_file PasswdF (join [NL] (?lines @ [l]) @ [NL]) (led t3)) t3 t4"
          note a = afterD(1-3)[OF this]
          show "Q uid t4"
            by (rule Q) (use a added t2 t3 n u i b v in \<open>simp_all add: lines_of_def del: put_file.simps\<close>)
        next
          fix e t4 assume "like t3 t4"
          then show "R e t4" using t2 t3 M by (intro R) (auto simp: afterD dest: issued_only)
        next
          fix e t4 h
          assume a: "after (put_file PasswdF (join [NL] (?lines @ [l]) @ [NL]) (led t3)) t3 t4"
            and "x_file E h = IoLost e"
          then have p: "\<not> is_step_failed e" using assms(7) plain_not_step_failed by (auto simp: plain_files_def)
          note a = afterD(1-3)[OF a]
          have "passwd_added name uid (c_gecos (cx s)) (led s) (led t4)"
            using added a t2 t3 by (simp del: put_file.simps)
          with p a t2 t3 show "R e t4" by (intro R) auto
        qed
        with Inr show ?thesis by (simp add: wp_bnd wp_thn wp_liftE wp_ret)
      qed
    qed
  qed
  have l: "wp (log_account E req nm ph err) (\<lambda>_. R e) R t" if "like s t" for req nm ph err e t
    by (rule wp_log_account) (use that R0 in \<open>auto simp: after_def\<close>)
  have ch: "wp (bnd (choose_uid E returning sharers ?lines) k) Q R t"
    if t: "like s t" and n: "\<not> has_named parse_passwd_line pw_name name ?lines" for t
    unfolding wp_bnd
  proof (rule wp_choose_uid)
    note t' = afterD(1,2)[OF t]
    show "seeded (led t)" "0 < lock_depth t" using t' assms(1,2) by simp_all
    have tr: "like s t2" if "like t t2" for t2
      using t that by (simp add: after_def)
    fix e t2 assume "like t t2"
    then show "R e t2" by (intro R0 tr)
  next
    note t' = afterD(1,2)[OF t]
    have tr: "like s t2" if "like t t2" for t2
      using t that by (simp add: after_def)
    fix u t2
    assume t2: "like t t2" and u: "u \<notin> pw_uid ` set (entries parse_passwd_line ?lines)"
      and i: "returning = None \<Longrightarrow> issued_max (led t) UidKind < u" and b: "uid_in_band E u"
      and v: "\<And>v. returning = Some v \<Longrightarrow> u = v"
    show "wp (k u) Q R t2"
      by (rule tail[OF tr[OF t2] n u _ b v]) (use i t' in simp_all)
  qed
  show ?thesis
    unfolding create_passwd_locked_def
    using assms(3) l ch R0
    by (auto simp: wp_simps k_def[symmetric] split: io_reply.splits)
qed

section \<open>The rollback\<close>

text \<open>Every ledger of the program has root in \<open>passwd\<close> and \<open>shadow\<close>: the seed puts it there.\<close>

definition rooted :: "ledger \<Rightarrow> bool" where
  "rooted L \<longleftrightarrow> seeded L \<and> has_named parse_passwd_line pw_name ''root'' (lines_of PasswdF L) \<and>
     has_named parse_shadow_line sp_name ''root'' (lines_of ShadowF L)"

lemma rooted_seeded: "rooted L \<Longrightarrow> seeded L"
  by (simp add: rooted_def)

definition rolled_back :: "string \<Rightarrow> (group_entry \<Rightarrow> bool) \<Rightarrow> ledger \<Rightarrow> ledger \<Rightarrow> bool" where
  "rolled_back name personal L M \<longleftrightarrow>
     lines_of PasswdF M = drop_named parse_passwd_line pw_name name (lines_of PasswdF L) \<and>
     lines_of ShadowF M = drop_named parse_shadow_line sp_name name (lines_of ShadowF L) \<and>
     (\<exists>cleaned. mapE (strip_group_line personal name) (lines_of GroupF L) = Inr cleaned \<and>
        lines_of GroupF M = catSome cleaned) \<and>
     issued_ids M = issued_ids L \<and> sudoers M = sudoers L"

text \<open>Nothing in the ledger names the user any more.\<close>

definition no_trace :: "string \<Rightarrow> ledger \<Rightarrow> bool" where
  "no_trace name M \<longleftrightarrow> \<not> has_named parse_passwd_line pw_name name (lines_of PasswdF M) \<and>
     \<not> has_named parse_shadow_line sp_name name (lines_of ShadowF M) \<and>
     (\<forall>r\<in>set (entries parse_group_line (lines_of GroupF M)). name \<notin> set (gr_members r))"

lemma set_catSome: "set (catSome xs) = {x. Some x \<in> set xs}"
  by (auto simp: catSome_def set_map_filter)

text \<open>The members of a parsed group line are names and not lists of names.\<close>

lemma parse_group_ok: "parse_group_line l = Some r \<Longrightarrow> group_ok r"
  using read_digits_nonneg split_on_no_sep
  by (auto simp: parse_group_line_def group_ok_def Option.bind_eq_Some_conv split: if_splits)

lemma group_ok_without [simp]: "group_ok r \<Longrightarrow> group_ok (without_member name r)"
  by (auto simp: group_ok_def without_member_def)

lemma drop_unbroken: "\<forall>l\<in>set (drop_named p nm n (splitlines c)). unbroken l"
  using splitlines_all_unbroken set_drop_named[of p nm n "splitlines c"] by blast

lemma strip_group_line_Some:
  assumes "strip_group_line personal name gl = Inr (Some l)"
  shows "(parse_group_line gl = None \<and> l = gl) \<or>
         (\<exists>r. parse_group_line gl = Some r \<and> parse_group_line l = Some (without_member name r) \<and> unbroken l)"
proof (cases "parse_group_line gl")
  case None
  with assms show ?thesis by (simp add: strip_group_line_def)
next
  case (Some r)
  with assms have f: "format_group_entry (without_member name r) = Inr l"
    by (auto simp: strip_group_line_def Let_def bindE_Inr_iff split: if_splits)
  with Some show ?thesis
    using parse_format_group[OF f] format_unbroken(2)[OF f] parse_group_ok by auto
qed

lemma catSome_unbroken:
  assumes "mapE (strip_group_line personal name) (splitlines c) = Inr cleaned"
  shows "\<forall>l\<in>set (catSome cleaned). unbroken l"
proof
  fix l assume "l \<in> set (catSome cleaned)"
  then have "Some l \<in> set cleaned" by (simp add: set_catSome)
  from mapE_Inr_in[OF assms this] obtain gl where "gl \<in> set (splitlines c)" "strip_group_line personal name gl = Inr (Some l)"
    by blast
  with strip_group_line_Some splitlines_all_unbroken show "unbroken l" by blast
qed

lemma rolled_back_no_trace: "rolled_back name personal L M \<Longrightarrow> no_trace name M"
  unfolding rolled_back_def no_trace_def
proof (elim conjE exE, intro conjI)
  fix cleaned
  assume m: "mapE (strip_group_line personal name) (lines_of GroupF L) = Inr cleaned"
    and c: "lines_of GroupF M = catSome cleaned"
  show "\<forall>r\<in>set (entries parse_group_line (lines_of GroupF M)). name \<notin> set (gr_members r)"
  proof
    fix r assume "r \<in> set (entries parse_group_line (lines_of GroupF M))"
    then obtain l where "Some l \<in> set cleaned" "parse_group_line l = Some r"
      by (auto simp: c set_entries set_catSome)
    moreover from mapE_Inr_in[OF m this(1)] obtain gl where "strip_group_line personal name gl = Inr (Some l)" by blast
    ultimately show "name \<notin> set (gr_members r)"
      using strip_group_line_Some by (force simp: without_member_def)
  qed
qed simp_all

lemma rooted_after_drops:
  assumes "rooted L" "name \<noteq> ''root''"
  shows "seeded (put_file PasswdF (content_of_lines (drop_named parse_passwd_line pw_name name (lines_of PasswdF L))) L)"
    "seeded (put_file ShadowF (content_of_lines (drop_named parse_shadow_line sp_name name (lines_of ShadowF L)))
       (put_file PasswdF (content_of_lines (drop_named parse_passwd_line pw_name name (lines_of PasswdF L))) L))"
proof -
  have "has_named parse_passwd_line pw_name ''root'' (drop_named parse_passwd_line pw_name name (lines_of PasswdF L))"
    "has_named parse_shadow_line sp_name ''root'' (drop_named parse_shadow_line sp_name name (lines_of ShadowF L))"
    using assms by (auto simp: rooted_def has_named_iff entries_drop_named)
  then have "drop_named parse_passwd_line pw_name name (lines_of PasswdF L) \<noteq> []"
    "drop_named parse_shadow_line sp_name name (lines_of ShadowF L) \<noteq> []"
    by (auto simp: has_named_def)
  then have p: "content_of_lines (drop_named parse_passwd_line pw_name name (lines_of PasswdF L)) \<noteq> []"
    "content_of_lines (drop_named parse_shadow_line sp_name name (lines_of ShadowF L)) \<noteq> []"
    by (simp_all add: content_empty_iff[OF drop_unbroken] lines_of_def)
  with assms(1) show "seeded (put_file PasswdF (content_of_lines (drop_named parse_passwd_line pw_name name (lines_of PasswdF L))) L)"
    by (intro seeded_put) (auto simp: rooted_def)
  with assms(1) p show "seeded (put_file ShadowF (content_of_lines (drop_named parse_shadow_line sp_name name (lines_of ShadowF L)))
       (put_file PasswdF (content_of_lines (drop_named parse_passwd_line pw_name name (lines_of PasswdF L))) L))"
    by (intro seeded_put) (auto simp: rooted_def)
qed

lemma wp_strip_user:
  assumes "0 < lock_depth s" "rooted (led s)" "name \<noteq> ''root''"
    and Q: "\<And>t. rolled_back name personal (led s) (led t) \<Longrightarrow> lock_depth t = lock_depth s \<Longrightarrow> cx t = cx s \<Longrightarrow> Q () t"
    and R: "\<And>e t. lock_depth t = lock_depth s \<Longrightarrow> cx t = cx s \<Longrightarrow> R e t"
  shows "wp (strip_user E personal name (lines_of PasswdF (led s))) Q R s"
proof -
  define d where "d = lock_depth s"
  define L where "L = led s"
  define pw where "pw = drop_named parse_passwd_line pw_name name (lines_of PasswdF L)"
  define sh where "sh = drop_named parse_shadow_line sp_name name (lines_of ShadowF L)"
  define L1 where "L1 = put_file PasswdF (content_of_lines pw) L"
  define L2 where "L2 = put_file ShadowF (content_of_lines sh) L1"
  note seeded = rooted_after_drops[OF assms(2,3), folded L_def, folded pw_def sh_def, folded L1_def, folded L2_def]
  have files: "file_of ShadowF L1 = file_of ShadowF L" "file_of GroupF L2 = file_of GroupF L"
    by (simp_all add: L1_def L2_def)
  have d: "0 < d" using assms(1) by (simp add: d_def)
  have R'I: "R e t" if "lock_depth t = d" "cx t = cx s" for e t
    using that by (auto simp: d_def intro!: R)
  have grp: "wp (bnd (liftE (mapE (strip_group_line personal name) (lines_of GroupF L)))
       (\<lambda>cleaned. write_group_lines E (catSome cleaned))) Q R t"
    if t: "led t = L2" "lock_depth t = d" "cx t = cx s" for t
  proof (cases "mapE (strip_group_line personal name) (lines_of GroupF L)")
    case (Inl e)
    with t R'I show ?thesis by (simp add: wp_simps)
  next
    case (Inr cleaned)
    have "unbroken l" if "l \<in> set (catSome cleaned)" for l
      using catSome_unbroken[of personal name "group_file L"] Inr that by (simp add: lines_of_def)
    then have g: "splitlines (content_of_lines (catSome cleaned)) = catSome cleaned"
      by (intro splitlines_content) simp
    have pwl: "splitlines (content_of_lines pw) = pw" and shl: "splitlines (content_of_lines sh) = sh"
      unfolding pw_def sh_def lines_of_def by (intro splitlines_content drop_unbroken)+
    have rb: "rolled_back name personal L (put_file GroupF (content_of_lines (catSome cleaned)) L2)"
      unfolding rolled_back_def using Inr g pwl shl
      by (simp add: lines_of_def L2_def L1_def pw_def sh_def)
    have "wp (write_group_lines E (catSome cleaned)) Q R t"
    proof (rule wp_write_lines)
      show "seeded (led t)" "0 < lock_depth t" using t seeded d by simp_all
    qed (use assms(1) t rb R'I in \<open>auto simp: afterD d_def L_def intro!: Q\<close>)
    with Inr show ?thesis by (simp add: wp_simps)
  qed
  let ?grp = "bnd (read_group_lines E) (\<lambda>g_lines.
     bnd (liftE (mapE (strip_group_line personal name) g_lines)) (\<lambda>cleaned. write_group_lines E (catSome cleaned)))"
  let ?sh = "bnd (read_shadow_lines E) (\<lambda>sh_lines.
     thn (write_shadow_lines E (drop_named parse_shadow_line sp_name name sh_lines)) ?grp)"
  have rg: "wp ?grp Q R t" if "led t = L2" "lock_depth t = d" "cx t = cx s" for t
    unfolding wp_bnd
    by (rule wp_read_lines)
      (use assms(1) that grp files seeded R'I in \<open>auto simp: afterD wp_bnd[symmetric] lines_of_def d_def\<close>)
  have wsh: "wp (thn (write_shadow_lines E sh) ?grp) Q R t"
    if t: "led t = L1" "lock_depth t = d" "cx t = cx s" for t
    unfolding wp_thn
    by (rule wp_write_lines)
      (use assms(1) t rg seeded R'I in \<open>auto simp: afterD L2_def d_def\<close>)
  have rsh: "wp ?sh Q R t" if t: "led t = L1" "lock_depth t = d" "cx t = cx s" for t
    unfolding wp_bnd[of "read_shadow_lines E"]
    by (rule wp_read_lines)
      (use assms(1) t wsh seeded R'I files(1) in \<open>auto simp: afterD sh_def lines_of_def d_def\<close>)
  have wpw: "wp (thn (write_passwd_lines E pw) ?sh) Q R t"
    if t: "led t = L" "lock_depth t = d" "cx t = cx s" for t
    unfolding wp_thn[of "write_passwd_lines E pw"]
    by (rule wp_write_lines)
      (use assms(1) t rsh rooted_seeded[OF assms(2)] R'I in \<open>auto simp: afterD L1_def L_def d_def\<close>)
  from wpw[of s] show ?thesis
    unfolding strip_user_def pw_def L_def d_def by simp
qed

lemma wp_rollback_locked:
  assumes "0 < lock_depth s" "rooted (led s)" "name \<noteq> ''root''"
    and Q: "\<And>t. rolled_back name (rolled_group name pg) (led s) (led t) \<Longrightarrow> lock_depth t = lock_depth s \<Longrightarrow> cx t = cx s \<Longrightarrow> Q () t"
    and R: "\<And>e t. lock_depth t = lock_depth s \<Longrightarrow> cx t = cx s \<Longrightarrow> R e t"
  shows "wp (rollback_locked E name pg) Q R s"
  unfolding rollback_locked_def wp_bnd
proof (rule wp_read_lines)
  fix t
  assume t: "like s t"
  from afterD(1,2,3)[OF t] have eq: "led t = led s" "lock_depth t = lock_depth s" "cx t = cx s" .
  have "wp (strip_user E (rolled_group name pg) name (lines_of PasswdF (led t))) Q R t"
    by (rule wp_strip_user) (use assms(1-3) eq in \<open>auto intro!: Q R\<close>)
  then show "wp (strip_user E (rolled_group name pg) name (splitlines (file_of PasswdF (led s)))) Q R t"
    by (simp add: eq lines_of_def)
next
  fix e t
  assume t: "like s t"
  from afterD(2,3)[OF t] show "R e t" by (rule R)
qed (use assms rooted_seeded in auto)

lemma wp_rollback_held:
  assumes "0 < lock_depth s" "rooted (led s)" "name \<noteq> ''root''"
    and Q: "\<And>t. rolled_back name (rolled_group name pg) (led s) (led t) \<Longrightarrow> lock_depth t = lock_depth s \<Longrightarrow> cx t = cx s \<Longrightarrow> Q () t"
    and R: "\<And>e t. lock_depth t = lock_depth s \<Longrightarrow> cx t = cx s \<Longrightarrow> R e t"
  shows "wp (rollback_user E name pg) Q R s"
  unfolding rollback_user_def wp_ledger_lock_held[OF assms(1)]
  by (rule wp_rollback_locked) (use assms(2,3) in \<open>auto intro!: Q R\<close>)


section \<open>The group part\<close>

text \<open>An entry that at most gained the member \<open>name\<close>.\<close>

definition grown :: "string \<Rightarrow> group_entry \<Rightarrow> group_entry \<Rightarrow> bool" where
  "grown name r r' \<longleftrightarrow> r' = r \<or> (name \<notin> set (gr_members r) \<and> r' = r\<lparr>gr_members := gr_members r @ [name]\<rparr>)"

lemma grown_trans: "grown name r s \<Longrightarrow> grown name s t \<Longrightarrow> grown name r t"
  by (auto simp: grown_def)

lemma grown_same: "grown name r s \<Longrightarrow> gr_name s = gr_name r \<and> gr_gid s = gr_gid r \<and> set (gr_members r) \<subseteq> set (gr_members s)"
  by (auto simp: grown_def)

text \<open>The old entries in their order, each at most grown, then new ones.\<close>

definition grown_list :: "string \<Rightarrow> group_entry list \<Rightarrow> group_entry list \<Rightarrow> bool" where
  "grown_list name rs ss \<longleftrightarrow> (\<exists>pre new. ss = pre @ new \<and> list_all2 (grown name) rs pre)"

lemma grown_list_refl [simp]: "grown_list name rs (rs @ new)"
  unfolding grown_list_def
  by (rule exI[of _ rs], rule exI[of _ new]) (simp add: list_all2_refl grown_def)

lemma grown_list_trans: "grown_list name rs ss \<Longrightarrow> grown_list name ss ts \<Longrightarrow> grown_list name rs ts"
proof -
  assume "grown_list name rs ss" "grown_list name ss ts"
  then obtain pre new pre' new' where
    a: "ss = pre @ new" "list_all2 (grown name) rs pre" "ts = pre' @ new'" "list_all2 (grown name) (pre @ new) pre'"
    by (auto simp: grown_list_def)
  then obtain p n where p: "pre' = p @ n" "list_all2 (grown name) pre p"
    by (auto simp: list_all2_append1)
  have "list_all2 (grown name) rs p"
    using list_all2_trans[OF _ a(2) p(2)] grown_trans by blast
  with a p show ?thesis by (auto simp: grown_list_def)
qed

lemma grown_list_in:
  assumes "grown_list name rs ss" "r \<in> set rs"
  shows "\<exists>s\<in>set ss. grown name r s"
proof -
  from assms obtain pre new where p: "ss = pre @ new" "list_all2 (grown name) rs pre"
    by (auto simp: grown_list_def)
  from assms(2) obtain i where "i < length rs" "rs ! i = r" by (auto simp: in_set_conv_nth)
  with p show ?thesis
    by (auto simp: list_all2_conv_all_nth intro!: bexI[of _ "pre ! i"])
qed

definition member_name :: "string \<Rightarrow> bool" where
  "member_name name \<longleftrightarrow> name \<noteq> [] \<and> CHR '','' \<notin> set name"

lemma join_line_Inr:
  assumes "join_line name g gl = Inr l" "member_name name" "unbroken gl"
  shows "unbroken l \<and> (case parse_group_line gl of None \<Rightarrow> l = gl
     | Some r \<Rightarrow> \<exists>r'. parse_group_line l = Some r' \<and> grown name r r' \<and> (gr_gid r = g \<longrightarrow> name \<in> set (gr_members r')))"
proof (cases "parse_group_line gl")
  case None
  with assms show ?thesis by (simp add: join_line_def)
next
  case (Some r)
  show ?thesis
  proof (cases "gr_gid r = g")
    case False
    with Some assms show ?thesis by (simp add: join_line_def grown_def)
  next
    case True
    let ?r = "if name \<in> set (gr_members r) then r else r\<lparr>gr_members := gr_members r @ [name]\<rparr>"
    from Some True assms(1) have f: "format_group_entry ?r = Inr l" by (simp add: join_line_def)
    have "group_ok ?r"
      using parse_group_ok[OF Some] assms(2) by (auto simp: group_ok_def member_name_def)
    from parse_format_group[OF f this] format_unbroken(2)[OF f] Some show ?thesis
      by (auto simp: grown_def)
  qed
qed

lemma join_lines_Inr:
  assumes "mapE (join_line name g) ls = Inr us" "member_name name" "\<forall>l\<in>set ls. unbroken l"
  shows "(\<forall>l\<in>set us. unbroken l) \<and> list_all2 (grown name) (entries parse_group_line ls) (entries parse_group_line us)
    \<and> (\<forall>r\<in>set (entries parse_group_line us). gr_gid r = g \<longrightarrow> name \<in> set (gr_members r))"
  using assms
proof (induction ls arbitrary: us)
  case Nil
  then show ?case by simp
next
  case (Cons gl ls)
  then obtain l ks where l: "join_line name g gl = Inr l" "mapE (join_line name g) ls = Inr ks" "us = l # ks"
    by (auto simp: bindE_Inr_iff)
  with Cons have IH: "(\<forall>l\<in>set ks. unbroken l) \<and> list_all2 (grown name) (entries parse_group_line ls) (entries parse_group_line ks)
    \<and> (\<forall>r\<in>set (entries parse_group_line ks). gr_gid r = g \<longrightarrow> name \<in> set (gr_members r))" by simp
  have j: "unbroken l \<and> (case parse_group_line gl of None \<Rightarrow> l = gl
     | Some r \<Rightarrow> \<exists>r'. parse_group_line l = Some r' \<and> grown name r r' \<and> (gr_gid r = g \<longrightarrow> name \<in> set (gr_members r')))"
    using l(1) Cons.prems by (intro join_line_Inr) auto
  show ?case
  proof (cases "parse_group_line gl")
    case None
    with j l IH show ?thesis by auto
  next
    case (Some r)
    with j obtain r' where "parse_group_line l = Some r'" "grown name r r'" "gr_gid r = g \<longrightarrow> name \<in> set (gr_members r')"
      by auto
    with Some j l IH grown_same show ?thesis by force
  qed
qed

text \<open>Group lines \<open>ls\<close> became \<open>us\<close> with \<open>name\<close> in the groups \<open>gs\<close>.\<close>

definition joined :: "string \<Rightarrow> int list \<Rightarrow> string list \<Rightarrow> string list \<Rightarrow> bool" where
  "joined name gs ls us \<longleftrightarrow> (\<forall>l\<in>set us. unbroken l) \<and>
     grown_list name (entries parse_group_line ls) (entries parse_group_line us) \<and>
     (\<forall>g\<in>set gs. \<exists>r\<in>set (entries parse_group_line us). gr_gid r = g \<and> name \<in> set (gr_members r))"

lemma joined_Nil: "\<forall>l\<in>set ls. unbroken l \<Longrightarrow> joined name [] ls ls"
  using grown_list_refl[of name "entries parse_group_line ls" "[]"] by (simp add: joined_def)

lemma joined_trans:
  assumes "joined name gs ls us" "joined name hs us vs"
  shows "joined name (gs @ hs) ls vs"
proof -
  have "\<exists>r\<in>set (entries parse_group_line vs). gr_gid r = g \<and> name \<in> set (gr_members r)" if "g \<in> set gs" for g
  proof -
    from assms(1) that obtain r where r: "r \<in> set (entries parse_group_line us)" "gr_gid r = g" "name \<in> set (gr_members r)"
      by (auto simp: joined_def)
    from assms(2) have "grown_list name (entries parse_group_line us) (entries parse_group_line vs)" by (simp add: joined_def)
    from grown_list_in[OF this r(1)] r grown_same show ?thesis by fastforce
  qed
  with assms grown_list_trans show ?thesis by (auto simp: joined_def)
qed

lemma joined_step:
  assumes "mapE (join_line name g) ls = Inr us" "member_name name" "\<forall>l\<in>set ls. unbroken l" "has_gid g ls"
  shows "joined name [g] ls us"
proof -
  note j = join_lines_Inr[OF assms(1-3)]
  from assms(4) obtain r where "r \<in> set (entries parse_group_line ls)" "gr_gid r = g"
    by (auto simp: has_gid_def list_ex_iff)
  moreover have gl: "grown_list name (entries parse_group_line ls) (entries parse_group_line us)"
    using j by (auto simp: grown_list_def)
  ultimately obtain s where "s \<in> set (entries parse_group_line us)" "gr_gid s = g"
    using grown_list_in grown_same by metis
  with j gl show ?thesis by (auto simp: joined_def)
qed

lemma joined_new:
  assumes "mapE (join_line name g) ls = Inr us" "member_name name" "\<forall>l\<in>set ls. unbroken l"
    and "format_group_entry (new_group_entry gn g [name]) = Inr l" "gn \<noteq> []" "0 \<le> g"
  shows "joined name [g] ls (us @ [l])"
proof -
  note j = join_lines_Inr[OF assms(1-3)]
  have p: "parse_group_line l = Some (new_group_entry gn g [name])"
    by (rule parse_format_group[OF assms(4)])
      (use assms in \<open>auto simp: group_ok_def new_group_entry_def member_name_def\<close>)
  with j format_unbroken(2)[OF assms(4)] show ?thesis
    by (auto simp: joined_def grown_list_def new_group_entry_def)
qed

text \<open>Only the greatest shared gid may have moved.\<close>

definition shared_issued :: "ledger \<Rightarrow> ledger \<Rightarrow> bool" where
  "shared_issued L M \<longleftrightarrow> only_issued L M \<and> issued_max M UidKind = issued_max L UidKind"

lemma shared_issued_refl [simp]: "shared_issued L L"
  by (simp add: shared_issued_def)

lemma shared_issued_trans: "shared_issued L M \<Longrightarrow> shared_issued M N \<Longrightarrow> shared_issued L N"
  by (auto simp: shared_issued_def only_issued_def intro: order_trans)

lemma issued_shared: "issued_at_least SharedGidKind v L M \<Longrightarrow> shared_issued L M"
  by (auto simp: shared_issued_def issued_only) (simp add: issued_at_least_def)

text \<open>Supplementary groups that fit on a line.\<close>

definition supp_ok :: "supp_group list \<Rightarrow> bool" where
  "supp_ok sgs \<longleftrightarrow> (\<forall>sg\<in>set sgs. sg_name sg \<noteq> [] \<and> (\<forall>g. sg_gid sg = Some g \<longrightarrow> 0 \<le> g))"

definition supp_gids :: "supp_group list \<Rightarrow> int list" where
  "supp_gids sgs = List.map_filter sg_gid sgs"

lemma supp_gids_Cons [simp]: "supp_gids [] = []"
  "supp_gids (sg # sgs) = (case sg_gid sg of None \<Rightarrow> [] | Some g \<Rightarrow> [g]) @ supp_gids sgs"
  by (simp_all add: supp_gids_def List.map_filter_def split: option.splits)

lemma shared_issued_rooted: "shared_issued L M \<Longrightarrow> rooted M = rooted L"
  by (simp add: shared_issued_def only_issued_def rooted_def seeded_iff lines_of_def)

lemma rooted_put_group: "rooted L \<Longrightarrow> c \<noteq> [] \<Longrightarrow> rooted (put_file GroupF c L)"
  by (simp add: rooted_def seeded_iff lines_of_def)

lemma wp_add_supp_group:
  assumes "0 < lock_depth s" "member_name name" "\<forall>l\<in>set ls. unbroken l" "supp_ok [sg]"
    and Q: "\<And>us acc' t. joined name (supp_gids [sg]) ls us \<Longrightarrow> sg_gid sg \<noteq> None \<Longrightarrow> shared_issued (led s) (led t) \<Longrightarrow>
           lock_depth t = lock_depth s \<Longrightarrow> cx t = cx s \<Longrightarrow> Q (us, acc') t"
    and R: "\<And>e t. lock_depth t = lock_depth s \<Longrightarrow> cx t = cx s \<Longrightarrow> (rooted (led s) \<Longrightarrow> rooted (led t)) \<Longrightarrow> R e t"
  shows "wp (add_supp_group E name sg (ls, acc)) Q R s"
proof (cases "sg_gid sg")
  case None
  with R show ?thesis by (simp add: add_supp_group_def wp_throw)
next
  case (Some g)
  show ?thesis
  proof (cases "mapE (join_line name g) ls")
    case (Inl e)
    with Some R show ?thesis by (simp add: add_supp_group_def wp_simps)
  next
    case (Inr us)
    show ?thesis
    proof (cases "has_gid g ls")
      case True
      from joined_step[OF Inr assms(2,3) True] Some have "joined name (supp_gids [sg]) ls us" by simp
      with True Inr Some Q show ?thesis by (simp add: add_supp_group_def wp_simps)
    next
      case False
      let ?f = "format_group_entry (new_group_entry (sg_name sg) g [name])"
      let ?k = "bnd (liftE ?f) (\<lambda>l. ret (us @ [l], acc @ [(sg_name sg, g)]))"
      have k: "wp ?k Q R t" if t: "lock_depth t = lock_depth s" "cx t = cx s" "shared_issued (led s) (led t)" for t
      proof (cases ?f)
        case (Inl e)
        with t R shared_issued_rooted[OF t(3)] show ?thesis by (simp add: wp_simps)
      next
        case (Inr l)
        have "joined name [g] ls (us @ [l])"
          by (rule joined_new[OF \<open>mapE (join_line name g) ls = Inr us\<close> assms(2,3) Inr])
            (use assms(4) Some in \<open>auto simp: supp_ok_def\<close>)
        with Inr t Some Q show ?thesis by (simp add: wp_simps)
      qed
      have "wp (record_issued_id E SharedGidKind g) (\<lambda>_. wp ?k Q R) R s"
        by (rule wp_record_issued_id[OF assms(1)])
          (use R in \<open>auto simp: afterD shared_issued_rooted[OF issued_shared] intro!: k issued_shared\<close>)
      with False Inr Some k show ?thesis by (simp add: add_supp_group_def wp_simps)
    qed
  qed
qed

lemma wp_add_supp_fold:
  assumes "0 < lock_depth s" "member_name name" "\<forall>l\<in>set ls. unbroken l" "supp_ok sgs"
    and Q: "\<And>us acc' t. joined name (supp_gids sgs) ls us \<Longrightarrow> (\<forall>sg\<in>set sgs. sg_gid sg \<noteq> None) \<Longrightarrow>
           shared_issued (led s) (led t) \<Longrightarrow> lock_depth t = lock_depth s \<Longrightarrow> cx t = cx s \<Longrightarrow> Q (us, acc') t"
    and R: "\<And>e t. lock_depth t = lock_depth s \<Longrightarrow> cx t = cx s \<Longrightarrow> (rooted (led s) \<Longrightarrow> rooted (led t)) \<Longrightarrow> R e t"
  shows "wp (foldM (add_supp_group E name) sgs (ls, acc)) Q R s"
  using assms(1,3,4) Q R
proof (induction sgs arbitrary: ls acc s Q)
  case Nil
  then show ?case by (simp add: wp_ret joined_Nil)
next
  case (Cons sg sgs)
  have "wp (add_supp_group E name sg (ls, acc)) (\<lambda>b. wp (foldM (add_supp_group E name) sgs b) Q R) R s"
  proof (rule wp_add_supp_group[OF Cons.prems(1) assms(2) Cons.prems(2)])
    show "supp_ok [sg]" using Cons.prems(3) by (simp add: supp_ok_def)
    fix us acc' and t :: st
    assume j: "joined name (supp_gids [sg]) ls us" and g: "sg_gid sg \<noteq> None"
      and i: "shared_issued (led s) (led t)" and t: "lock_depth t = lock_depth s" "cx t = cx s"
    show "wp (foldM (add_supp_group E name) sgs (us, acc')) Q R t"
    proof (rule Cons.IH)
      show "0 < lock_depth t" "supp_ok sgs" using Cons.prems t by (simp_all add: supp_ok_def)
      show "\<forall>l\<in>set us. unbroken l" using j by (simp add: joined_def)
      show "R e u" if "lock_depth u = lock_depth t" "cx u = cx t" "rooted (led t) \<Longrightarrow> rooted (led u)" for e u
        using that t Cons.prems(5) shared_issued_rooted[OF i] by simp
      fix vs acc2 and u :: st
      assume j': "joined name (supp_gids sgs) us vs" and "\<forall>sg\<in>set sgs. sg_gid sg \<noteq> None"
        and "shared_issued (led t) (led u)" "lock_depth u = lock_depth t" "cx u = cx t"
      with g i t joined_trans[OF j j'] shared_issued_trans show "Q (vs, acc2) u"
        by (intro Cons.prems(4)) auto
    qed
  qed (use Cons.prems(5) in simp)
  then show ?case by (simp add: wp_bnd)
qed

text \<open>The group file after \<open>name\<close> joined.\<close>

definition groups_written :: "string \<Rightarrow> int list \<Rightarrow> string list \<Rightarrow> ledger \<Rightarrow> ledger \<Rightarrow> bool" where
  "groups_written name gs ls L M \<longleftrightarrow> (\<exists>us. joined name gs ls us \<and>
     entries parse_group_line (lines_of GroupF M) = entries parse_group_line us) \<and>
     passwd_file M = passwd_file L \<and> shadow_file M = shadow_file L \<and> sudoers M = sudoers L \<and>
     (\<forall>k. issued_max L k \<le> issued_max M k) \<and> issued_max M UidKind = issued_max L UidKind"

lemma parse_group_Nil [simp]: "parse_group_line [] = None"
  by (simp add: parse_group_line_def strip_final_nl_def)

lemma groups_written_put:
  assumes "joined name gs ls us" "shared_issued L L'"
  shows "groups_written name gs ls L (put_file GroupF (join [NL] us @ [NL]) L')"
proof -
  have "entries parse_group_line (splitlines (join [NL] us @ [NL])) = entries parse_group_line us"
    using assms(1) splitlines_join[of us] by (cases "us = []") (auto simp: joined_def)
  moreover have "issued_max (put_file GroupF c L') k = issued_max L' k" for c k
    by (simp add: issued_max_def)
  ultimately show ?thesis
    using assms by (auto simp: groups_written_def shared_issued_def only_issued_def lines_of_def)
qed

lemma wp_add_supp_groups_locked:
  assumes "0 < lock_depth s" "member_name name" "\<forall>l\<in>set ls. unbroken l" "supp_ok sgs"
    and Q: "\<And>added t. groups_written name (supp_gids sgs) ls (led s) (led t) \<Longrightarrow> (\<forall>sg\<in>set sgs. sg_gid sg \<noteq> None) \<Longrightarrow>
           lock_depth t = lock_depth s \<Longrightarrow> cx t = cx s \<Longrightarrow> Q added t"
    and R: "\<And>e t. lock_depth t = lock_depth s \<Longrightarrow> cx t = cx s \<Longrightarrow> (rooted (led s) \<Longrightarrow> rooted (led t)) \<Longrightarrow> R e t"
  shows "wp (add_supp_groups_locked E name sgs ls) Q R s"
  unfolding add_supp_groups_locked_def wp_bnd
proof (rule wp_add_supp_fold[OF assms(1-4)])
  fix us acc' and t :: st
  assume j: "joined name (supp_gids sgs) ls us" and g: "\<forall>sg\<in>set sgs. sg_gid sg \<noteq> None"
    and i: "shared_issued (led s) (led t)" and t: "lock_depth t = lock_depth s" "cx t = cx s"
  have "wp (replace_file E GroupF (join [NL] us @ [NL])) (\<lambda>_. Q acc') R t"
  proof (rule wp_replace_file)
    fix u assume "after (put_file GroupF (join [NL] us @ [NL]) (led t)) t u"
    note a = afterD(1-3)[OF this]
    show "Q acc' u"
      by (rule Q) (use a t g groups_written_put[OF j i] in \<open>simp_all del: put_file.simps\<close>)
  next
    fix e and u :: st assume "like t u"
    then show "R e u" using t R shared_issued_rooted[OF i] by (simp add: afterD)
  next
    fix e and u :: st assume a: "after (put_file GroupF (join [NL] us @ [NL]) (led t)) t u"
    then show "R e u" using t R shared_issued_rooted[OF i] rooted_put_group by (simp add: afterD del: put_file.simps)
  qed
  then show "wp (case (us, acc') of (lines, added) \<Rightarrow> thn (replace_file E GroupF (join [NL] lines @ [NL])) (ret added)) Q R t"
    by (simp add: wp_simps)
qed (rule R)

section \<open>The account step as a whole\<close>

subsection \<open>What the ledger says of a user\<close>

definition passwd_entries :: "ledger \<Rightarrow> passwd_entry list" where
  "passwd_entries L = entries parse_passwd_line (lines_of PasswdF L)"

definition group_entries :: "ledger \<Rightarrow> group_entry list" where
  "group_entries L = entries parse_group_line (lines_of GroupF L)"

definition shadow_entries :: "ledger \<Rightarrow> shadow_entry list" where
  "shadow_entries L = entries parse_shadow_line (lines_of ShadowF L)"

definition has_account :: "string \<Rightarrow> int \<Rightarrow> ledger \<Rightarrow> bool" where
  "has_account name uid L \<longleftrightarrow> (\<exists>r\<in>set (passwd_entries L). pw_name r = name \<and> pw_uid r = uid \<and> pw_gid r = uid \<and> pw_home r = home_dir name)"

definition in_group :: "string \<Rightarrow> int \<Rightarrow> ledger \<Rightarrow> bool" where
  "in_group name g L \<longleftrightarrow> (\<exists>r\<in>set (group_entries L). gr_gid r = g \<and> name \<in> set (gr_members r))"

definition has_group :: "string \<Rightarrow> int \<Rightarrow> ledger \<Rightarrow> bool" where
  "has_group pg g L \<longleftrightarrow> (\<exists>r\<in>set (group_entries L). gr_gid r = g \<and> gr_name r = pg)"

definition has_password :: "string \<Rightarrow> string \<Rightarrow> ledger \<Rightarrow> bool" where
  "has_password name hash L \<longleftrightarrow> (\<exists>r\<in>set (shadow_entries L). sp_name r = name \<and> sp_passwd r = hash)"

text \<open>The other processes keep root, and do not take away what this job gave the user.\<close>

definition rely_rooted :: "env \<Rightarrow> bool" where
  "rely_rooted E \<longleftrightarrow> (\<forall>h L. rooted L \<longrightarrow> rooted (x_interfere E h L))"

definition rely_user :: "env \<Rightarrow> string \<Rightarrow> string \<Rightarrow> bool" where
  "rely_user E name pg \<longleftrightarrow> (\<forall>h L.
     (\<forall>uid. has_account name uid L \<longrightarrow> has_account name uid (x_interfere E h L)) \<and>
     (\<forall>g. in_group name g L \<longrightarrow> in_group name g (x_interfere E h L)) \<and>
     (\<forall>g. has_group pg g L \<longrightarrow> has_group pg g (x_interfere E h L)) \<and>
     (\<forall>hash. has_password name hash L \<longrightarrow> has_password name hash (x_interfere E h L)))"

lemma rely_rootedD: "rely_rooted E \<Longrightarrow> rooted L \<Longrightarrow> rooted (x_interfere E h L)"
  by (simp add: rely_rooted_def)

lemma rely_userD:
  assumes "rely_user E name pg"
  shows "has_account name uid L \<Longrightarrow> has_account name uid (x_interfere E h L)"
    "in_group name g L \<Longrightarrow> in_group name g (x_interfere E h L)"
    "has_group pg g L \<Longrightarrow> has_group pg g (x_interfere E h L)"
    "has_password name hash L \<Longrightarrow> has_password name hash (x_interfere E h L)"
  using assms by (simp_all add: rely_user_def)

subsection \<open>Entering the lock from outside\<close>

text \<open>A body that runs under the lock, entered with the lock free: it starts from what the others left.\<close>

lemma wp_lock_free:
  assumes "lock_depth s = 0"
    and "\<And>h t. led t = x_interfere E h (led s) \<Longrightarrow> lock_depth t = 1 \<Longrightarrow> cx t = cx s \<Longrightarrow>
       wp m (\<lambda>a u. \<forall>h'. Q a (u\<lparr>lock_depth := 0, hist := h'\<rparr>)) (\<lambda>e u. \<forall>h'. R e (u\<lparr>lock_depth := 0, hist := h'\<rparr>)) t"
    and "\<And>e h'. x_ledger_lock E (hist s) = Some e \<Longrightarrow> R e (s\<lparr>hist := h'\<rparr>)"
  shows "wp (ledger_lock E m) Q R s"
proof (cases "x_ledger_lock E (hist s)")
  case (Some e)
  with assms show ?thesis by (simp add: wp_ledger_lock_free)
next
  case None
  have "wp m (\<lambda>a u. \<forall>h'. Q a (u\<lparr>lock_depth := 0, hist := h'\<rparr>)) (\<lambda>e u. \<forall>h'. R e (u\<lparr>lock_depth := 0, hist := h'\<rparr>))
      (s\<lparr>led := x_interfere E (hist s) (led s), lock_depth := 1, hist := EvLedgerLock # hist s\<rparr>)"
    by (rule assms(2)) simp_all
  then have "wp m (\<lambda>a t. Q a (t\<lparr>lock_depth := 0, hist := EvLedgerUnlock # hist t\<rparr>))
              (\<lambda>e t. R e (t\<lparr>lock_depth := 0, hist := EvLedgerUnlock # hist t\<rparr>))
      (s\<lparr>led := x_interfere E (hist s) (led s), lock_depth := 1, hist := EvLedgerLock # hist s\<rparr>)"
    by (rule wp_weaken) simp_all
  with None assms(1) show ?thesis by (simp add: wp_ledger_lock_free)
qed

text \<open>The states between the parts: lock free, root there, the context up to the mark.\<close>

definition calm :: "ctx \<Rightarrow> st \<Rightarrow> bool" where
  "calm c t \<longleftrightarrow> lock_depth t = 0 \<and> rooted (led t) \<and> same_ctx c (cx t)"

lemma calm_like: "like s t \<Longrightarrow> calm c s \<Longrightarrow> calm c t"
  by (auto simp: calm_def afterD)

lemma calm_hist [simp]: "calm c (s\<lparr>hist := h\<rparr>) = calm c s"
  by (simp add: calm_def)

lemma same_ctx_trans: "same_ctx a b \<Longrightarrow> same_ctx b c \<Longrightarrow> same_ctx a c"
  by (auto simp: same_ctx_def)

lemma strip_group_line_Inl:
  assumes "strip_group_line personal name gl = Inl e"
  shows "plain e"
proof (cases "parse_group_line gl")
  case None
  with assms show ?thesis by (simp add: strip_group_line_def)
next
  case (Some r)
  with assms have "format_group_entry (without_member name r) = Inl e"
    by (auto simp: strip_group_line_def Let_def bindE_def split: if_splits sum.splits)
  then show ?thesis by (rule format_Inl)
qed

lemma raises_rollback [raises_intros]:
  assumes "plain_files E"
  shows "raises plain (rollback_user E name pg)"
proof -
  have "plain e" if "mapE (strip_group_line personal name) ls = Inl e" for personal ls e
    using mapE_Inl[OF that] strip_group_line_Inl by blast
  then show ?thesis
    unfolding rollback_user_def rollback_locked_def strip_user_def
    by (intro raises_intros raises_lines assms) (auto intro: plain_filesD[OF assms])
qed

lemma wp_rollback:
  assumes "lock_depth s = 0" "rooted (led s)" "rely_rooted E" "name \<noteq> ''root''" "plain_files E"
    and Q: "\<And>t. no_trace name (led t) \<Longrightarrow> lock_depth t = 0 \<Longrightarrow> cx t = cx s \<Longrightarrow> Q () t"
    and R: "\<And>e t. plain e \<Longrightarrow> lock_depth t = 0 \<Longrightarrow> cx t = cx s \<Longrightarrow> R e t"
  shows "wp (rollback_user E name pg) Q R s"
proof -
  have w: "wp (rollback_user E name pg) (\<lambda>_ t. no_trace name (led t) \<and> lock_depth t = 0 \<and> cx t = cx s)
      (\<lambda>_ t. lock_depth t = 0 \<and> cx t = cx s) s"
    unfolding rollback_user_def
  proof (rule wp_lock_free[OF assms(1)])
    fix h and t :: st assume t: "led t = x_interfere E h (led s)" "lock_depth t = 1" "cx t = cx s"
    with assms have "rooted (led t)" by (simp add: rely_rootedD)
    then show "wp (rollback_locked E name pg)
        (\<lambda>a u. \<forall>h'. no_trace name (led (u\<lparr>lock_depth := 0, hist := h'\<rparr>)) \<and>
                  lock_depth (u\<lparr>lock_depth := 0, hist := h'\<rparr>) = 0 \<and> cx (u\<lparr>lock_depth := 0, hist := h'\<rparr>) = cx s)
        (\<lambda>e u. \<forall>h'. lock_depth (u\<lparr>lock_depth := 0, hist := h'\<rparr>) = 0 \<and> cx (u\<lparr>lock_depth := 0, hist := h'\<rparr>) = cx s) t"
      using t assms(4) by (intro wp_rollback_locked) (auto dest: rolled_back_no_trace)
  qed (simp_all add: assms(1))
  from wp_conj[OF w raises_wp[OF raises_rollback[OF assms(5)]]] show ?thesis
    by (rule wp_weaken) (use Q R in auto)
qed

subsection \<open>The group part\<close>

definition groups_done :: "string \<Rightarrow> string \<Rightarrow> int \<Rightarrow> int list \<Rightarrow> ledger \<Rightarrow> ledger \<Rightarrow> bool" where
  "groups_done name pg uid gs L M \<longleftrightarrow> has_group pg uid M \<and> (\<forall>g\<in>set gs. in_group name g M) \<and>
     grown_list name (group_entries L) (group_entries M) \<and>
     passwd_file M = passwd_file L \<and> shadow_file M = shadow_file L \<and> sudoers M = sudoers L \<and>
     (\<forall>k. issued_max L k \<le> issued_max M k) \<and> issued_max M UidKind = issued_max L UidKind"

lemma groups_writtenD:
  assumes "groups_written name gs ls L M"
    and "grown_list name (group_entries L) (entries parse_group_line ls)"
    and "r \<in> set (entries parse_group_line ls)" "gr_gid r = uid" "gr_name r = pg"
  shows "groups_done name pg uid gs L M"
proof -
  from assms(1) obtain us where u: "joined name gs ls us" "entries parse_group_line (lines_of GroupF M) = entries parse_group_line us"
    by (auto simp: groups_written_def)
  then have g: "grown_list name (entries parse_group_line ls) (entries parse_group_line us)" by (simp add: joined_def)
  from grown_list_in[OF this assms(3)] grown_same assms(4,5) u(2) have "has_group pg uid M"
    by (auto simp: has_group_def group_entries_def)
  moreover have "grown_list name (group_entries L) (group_entries M)"
    using grown_list_trans[OF assms(2) g] u(2) by (simp add: group_entries_def)
  moreover have "\<forall>g\<in>set gs. in_group name g M"
    using u by (simp add: in_group_def group_entries_def joined_def)
  ultimately show ?thesis
    using assms(1) by (simp add: groups_done_def groups_written_def)
qed

lemma primary_exists_Inr:
  assumes "primary_exists pg gid ls = Inr pe"
  shows "pe \<longleftrightarrow> (\<exists>r\<in>set (entries parse_group_line ls). gr_gid r = gid \<and> gr_name r = pg)"
    "r \<in> set (entries parse_group_line ls) \<Longrightarrow> gr_gid r = gid \<longleftrightarrow> gr_name r = pg"
proof -
  let ?near = "filter (\<lambda>r. gr_gid r = gid \<or> gr_name r = pg) (entries parse_group_line ls)"
  let ?b = "list_all (\<lambda>r. gr_gid r = gid \<and> gr_name r = pg) ?near"
  have e: "primary_exists pg gid ls = (if ?b then Inr (?near \<noteq> []) else Inl (raised RuntimeError))"
    by (simp only: primary_exists_def Let_def)
  have b: "?b"
  proof (rule ccontr)
    assume "\<not> ?b"
    with e have "primary_exists pg gid ls = Inl (raised RuntimeError)" by (simp only: if_False)
    with assms show False by simp
  qed
  then have all: "\<forall>r\<in>set ?near. gr_gid r = gid \<and> gr_name r = pg" unfolding list_all_iff .
  from e b have "Inr pe = (Inr (?near \<noteq> []) :: exn + bool)" using assms by (simp only: if_True)
  then have pe: "pe = (?near \<noteq> [])" by (simp only: sum.inject)
  have near: "r \<in> set ?near \<longleftrightarrow> r \<in> set (entries parse_group_line ls) \<and> (gr_gid r = gid \<or> gr_name r = pg)" for r
    by (simp only: set_filter mem_Collect_eq)
  have ne: "xs \<noteq> [] \<longleftrightarrow> (\<exists>r. r \<in> set xs)" for xs :: "group_entry list"
    by (cases xs) auto
  show "pe \<longleftrightarrow> (\<exists>r\<in>set (entries parse_group_line ls). gr_gid r = gid \<and> gr_name r = pg)"
    unfolding pe ne using all near by blast
  show "gr_gid r = gid \<longleftrightarrow> gr_name r = pg" if "r \<in> set (entries parse_group_line ls)"
    using all near that by blast
qed

lemma wp_create_group_locked:
  assumes "0 < lock_depth s" "member_name name" "supp_ok sgs" "pg \<noteq> []" "0 \<le> uid"
    and Q: "\<And>added t. groups_done name pg uid (supp_gids sgs) (led s) (led t) \<Longrightarrow> (\<forall>sg\<in>set sgs. sg_gid sg \<noteq> None) \<Longrightarrow>
           lock_depth t = lock_depth s \<Longrightarrow> cx t = cx s \<Longrightarrow> Q added t"
    and R: "\<And>e t. lock_depth t = lock_depth s \<Longrightarrow> cx t = cx s \<Longrightarrow> (rooted (led s) \<Longrightarrow> rooted (led t)) \<Longrightarrow> R e t"
  shows "wp (create_group_locked E name pg uid sgs) Q R s"
proof -
  let ?ls = "splitlines (group_file (led s))"
  have ub: "\<forall>l\<in>set ?ls. unbroken l" using splitlines_all_unbroken by blast
  have ge: "group_entries (led s) = entries parse_group_line ?ls"
    by (simp add: group_entries_def lines_of_def)
  have fin: "wp (add_supp_groups_locked E name sgs ls) Q R t"
    if "led t = led s" "lock_depth t = lock_depth s" "cx t = cx s" and "\<forall>l\<in>set ls. unbroken l"
      and "grown_list name (group_entries (led s)) (entries parse_group_line ls)"
      and "r \<in> set (entries parse_group_line ls)" "gr_gid r = uid" "gr_name r = pg" for ls r and t :: st
    by (rule wp_add_supp_groups_locked)
      (use assms(1-3) that groups_writtenD[OF _ that(5-8)] in \<open>auto intro!: Q R\<close>)
  have tail: "wp (bnd (liftE (primary_exists pg uid ?ls)) (\<lambda>pe.
     bnd (if pe then ret ?ls
          else bnd (liftE (format_group_entry (new_group_entry pg uid []))) (\<lambda>l. ret (?ls @ [l])))
         (\<lambda>g_lines. add_supp_groups_locked E name sgs g_lines))) Q R t"
    if t: "led t = led s" "lock_depth t = lock_depth s" "cx t = cx s" for t :: st
  proof (cases "primary_exists pg uid ?ls")
    case (Inl e)
    with t R show ?thesis by (simp add: wp_simps)
  next
    case (Inr pe)
    show ?thesis
    proof (cases pe)
      case True
      with primary_exists_Inr(1)[OF Inr] obtain r where "r \<in> set (entries parse_group_line ?ls)" "gr_gid r = uid" "gr_name r = pg"
        by blast
      with fin[OF t ub] Inr True ge show ?thesis
        using grown_list_refl[of name "group_entries (led s)" "[]"] by (simp add: wp_simps)
    next
      case False
      show ?thesis
      proof (cases "format_group_entry (new_group_entry pg uid [])")
        case (Inl e)
        with t R False \<open>primary_exists pg uid ?ls = Inr pe\<close> show ?thesis by (simp add: wp_simps)
      next
        case (Inr l)
        have p: "parse_group_line l = Some (new_group_entry pg uid [])"
          by (rule parse_format_group[OF Inr]) (use assms in \<open>simp add: group_ok_def new_group_entry_def\<close>)
        have "wp (add_supp_groups_locked E name sgs (?ls @ [l])) Q R t"
          by (rule fin[OF t, where r="new_group_entry pg uid []"])
            (use ub format_unbroken(2)[OF Inr] p ge in \<open>auto simp: new_group_entry_def\<close>)
        with False Inr \<open>primary_exists pg uid ?ls = Inr pe\<close> show ?thesis by (simp add: wp_simps)
      qed
    qed
  qed
  show ?thesis
    unfolding create_group_locked_def wp_bnd[of "rd EvFile (x_file E) f" for f]
  proof (rule wp_rd_led[where g="\<lambda>l. splitlines (group_file l)"])
    fix e and t :: st assume "like s t"
    then show "R e t" by (intro R) (simp_all add: afterD)
  qed (rule tail; simp add: afterD)
qed

subsection \<open>The shadow part\<close>

lemma wp_create_shadow_locked:
  assumes "0 < lock_depth s" "rooted (led s)" "name \<noteq> []" "0 \<le> today"
    and Q: "\<And>t. shadow_entries (led t) = shadow_entries (led s) @ [new_shadow_entry name hash today] \<Longrightarrow>
           passwd_file (led t) = passwd_file (led s) \<Longrightarrow> group_file (led t) = group_file (led s) \<Longrightarrow>
           rooted (led t) \<Longrightarrow> lock_depth t = lock_depth s \<Longrightarrow> cx t = cx s \<Longrightarrow> Q () t"
    and R: "\<And>e t. lock_depth t = lock_depth s \<Longrightarrow> cx t = cx s \<Longrightarrow> rooted (led t) \<Longrightarrow> R e t"
  shows "wp (bnd (read_shadow_lines E) (\<lambda>sh_lines.
           bnd (liftE (format_shadow_entry (new_shadow_entry name hash today))) (\<lambda>l.
           write_shadow_lines E (sh_lines @ [l])))) Q R s"
  unfolding wp_bnd[of "read_shadow_lines E"]
proof (rule wp_read_lines[OF rooted_seeded[OF assms(2)] assms(1)])
  fix t assume "like s t"
  note t = afterD(1-3)[OF this]
  let ?f = "format_shadow_entry (new_shadow_entry name hash today)"
  let ?ls = "splitlines (file_of ShadowF (led s))"
  show "wp (bnd (liftE ?f) (\<lambda>l. write_shadow_lines E (?ls @ [l]))) Q R t"
  proof (cases ?f)
    case (Inl e)
    with t R assms(2) show ?thesis by (simp add: wp_simps)
  next
    case (Inr l)
    have ok: "shadow_ok (new_shadow_entry name hash today)"
      using assms(3,4) by (simp add: shadow_ok_def new_shadow_entry_def nonneg_opt_def)
    let ?L = "put_file ShadowF (content_of_lines (?ls @ [l])) (led s)"
    have ub: "\<forall>k\<in>set ?ls. unbroken k" using splitlines_all_unbroken by blast
    have e: "entries parse_shadow_line (splitlines (content_of_lines (?ls @ [l])))
        = entries parse_shadow_line ?ls @ [new_shadow_entry name hash today]"
      by (rule shadow_codec.entries_written[OF Inr ok ub])
    have ne: "content_of_lines (?ls @ [l]) \<noteq> []"
      using ub format_unbroken(3)[OF Inr] by (subst content_empty_iff) auto
    have rt: "rooted ?L"
      using assms(2) e ne by (auto simp: rooted_def seeded_iff lines_of_def has_named_iff)
    have "wp (write_shadow_lines E (?ls @ [l])) Q R t"
    proof (rule wp_write_lines)
      show "seeded (led t)" "0 < lock_depth t" using t assms(1,2) rooted_seeded by simp_all
      fix u :: st
      { fix e assume "like t u" with t R assms(2) show "R e u" by (simp add: afterD) }
      { fix e assume "after (put_file ShadowF (content_of_lines (?ls @ [l])) (led t)) t u"
        with t R rt show "R e u" by (simp add: afterD del: put_file.simps file_of.simps) }
      assume "after (put_file ShadowF (content_of_lines (?ls @ [l])) (led t)) t u"
      then have u: "led u = ?L" "lock_depth u = lock_depth s" "cx u = cx s"
        using t by (simp_all add: afterD del: put_file.simps file_of.simps)
      show "Q () u"
        by (rule Q) (use u e rt in \<open>simp_all add: shadow_entries_def lines_of_def\<close>)
    qed
    with Inr show ?thesis by (simp add: wp_simps)
  qed
qed (use R assms(2) in \<open>simp add: afterD\<close>)

subsection \<open>Putting the parts together\<close>

text \<open>The failures after which the step has already removed the account again.\<close>

definition rolled_msgs :: "string set" where
  "rolled_msgs = {''failed to write group'', ''failed to write shadow'', ''failed to create sudoers file''}"

fun rolled :: "exn \<Rightarrow> bool" where
  "rolled (StepFailed f c) = (f_error f \<in> rolled_msgs)"
| "rolled _ = False"

lemma plain_not_rolled: "plain e \<Longrightarrow> \<not> rolled e"
  by (cases e) simp_all

lemma lost_not_rolled: "is_lease_lost e \<Longrightarrow> \<not> rolled e"
  by (cases e) simp_all

lemma raises_mono: "raises P m \<Longrightarrow> (\<And>e. P e \<Longrightarrow> Q e) \<Longrightarrow> raises Q m"
  unfolding raises_def by blast

lemma not_rolled_failures [simp]:
  "\<not> rolled (plain_failed ''user already exists'' n)"
  "\<not> rolled (infra_failed s ''UID_RANGE_EXHAUSTED'' n c)" "\<not> rolled (infra_failed s ''CHECKPOINT_FAILED'' n c)"
  "\<not> rolled (infra_failed s ''NAS_SSH_FAILED'' n c)"
  "\<not> rolled (step_failed so ''EXPECTED_UID_CONFLICT'' n c b r)"
  by (simp_all add: plain_failed_def infra_failed_def step_failed_def rolled_msgs_def)

lemma raises_log_account [raises_intros]: "raises P (log_account E r n ph err)"
  unfolding log_account_def by (rule raises_log_step)

lemma raises_ctx [raises_intros]: "raises P (getC f)" "raises P (modC g)" "raises (\<lambda>e. \<not> rolled e) (needC k)"
  by (auto simp: raises_def getC_def modC_def needC_def run raised_def split: option.splits prod.splits sum.splits)

lemma create_passwd_not_rolled:
  assumes p: "plain_files E"
  shows "raises (\<lambda>e. \<not> rolled e) (create_passwd_locked E ckpt returning sharers)"
proof -
  note m = raises_mono[OF _ plain_not_rolled]
  have f: "raises (\<lambda>e. \<not> rolled e) (liftE (format_passwd_entry d))" for d
    by (intro raises_intros plain_not_rolled) (rule format_Inl(1))
  have r: "raises (\<lambda>e. \<not> rolled e) (rd EvFile (x_file E) g)" for g :: "st \<Rightarrow> string list"
    by (intro raises_intros; rule plain_not_rolled; erule plain_filesD[OF p])
  have c: "raises (\<lambda>e. \<not> rolled e) (choose_uid E returning sharers ls)" for ls
    unfolding choose_uid_def reclaim_uid_def Let_def
    by (intro raises_intros m[OF raises_issued(1)[OF p]] m[OF raises_lines(3)[OF p]]) simp_all
  have w: "raises (\<lambda>e. \<not> rolled e) (write_marker E ckpt uid)" for uid
  proof (cases ckpt)
    case None
    then show ?thesis by (simp add: write_marker_def raises_intros)
  next
    case (Some save)
    have "raises (\<lambda>e. \<not> rolled e) (tryE save (\<lambda>e.
              if is_lease_lost e then throw e
              else bnd (getC c_request) (\<lambda>req. bnd (needC c_name) (\<lambda>name.
                   thn (log_account E req name (fail_phase e) (Some ''CHECKPOINT_FAILED''))
                       (throw (infra_failed ''CREATE_ACCOUNT'' ''CHECKPOINT_FAILED'' 500 (Some e)))))))"
    proof (rule raises_tryE[where P="\<lambda>_. True"])
      show "raises (\<lambda>_. True) save" by (simp add: raises_def)
      show "raises (\<lambda>e. \<not> rolled e) (if is_lease_lost e then throw e
        else bnd (getC c_request) (\<lambda>req. bnd (needC c_name) (\<lambda>name.
             thn (log_account E req name (fail_phase e) (Some ''CHECKPOINT_FAILED''))
                 (throw (infra_failed ''CREATE_ACCOUNT'' ''CHECKPOINT_FAILED'' 500 (Some e))))))" for e
      proof (cases "is_lease_lost e")
        case False
        then show ?thesis unfolding if_not_P[OF False] by (intro raises_intros) simp
      qed (simp add: raises_intros lost_not_rolled)
    qed
    then show ?thesis
      unfolding write_marker_def Some option.case by (rule raises_thn[OF raises_ctx(2)])
  qed
  show ?thesis
    unfolding create_passwd_locked_def
    by (intro raises_intros f r c w m[OF raises_issued(2)[OF p]] m[OF raises_lines(1)[OF p]]) simp
qed

lemma wp_read_lines_free:
  assumes "calm c s" "rely_rooted E" "plain_files E"
    and Q: "\<And>t. calm c t \<Longrightarrow> cx t = cx s \<Longrightarrow> Q (lines_of f (led t)) t"
    and R: "\<And>e t. plain e \<Longrightarrow> calm c t \<Longrightarrow> cx t = cx s \<Longrightarrow> R e t"
  shows "wp (read_lines E f) Q R s"
proof -
  from assms(1) have s: "lock_depth s = 0" "rooted (led s)" "same_ctx c (cx s)" by (simp_all add: calm_def)
  show ?thesis
    unfolding read_lines_def wp_thn wp_ensure_seeded[OF rooted_seeded[OF s(2)]]
  proof (rule wp_lock_free[OF s(1)])
    fix h and t :: st
    assume t: "led t = x_interfere E h (led s)" "lock_depth t = 1" "cx t = cx s"
    with assms(2) s have rt: "rooted (led t)" by (simp add: rely_rootedD)
    show "wp (rd EvFile (x_file E) (\<lambda>s. splitlines (file_of f (led s))))
        (\<lambda>a u. \<forall>h'. Q a (u\<lparr>lock_depth := 0, hist := h'\<rparr>)) (\<lambda>e u. \<forall>h'. R e (u\<lparr>lock_depth := 0, hist := h'\<rparr>)) t"
    proof -
      have c: "calm c (t\<lparr>lock_depth := 0, hist := h'\<rparr>)" "cx (t\<lparr>lock_depth := 0, hist := h'\<rparr>) = cx s" for h'
        using rt t s by (simp_all add: calm_def)
      show ?thesis
        unfolding wp_rd using Q[OF c] R[OF _ c] plain_filesD[OF assms(3)]
        by (auto simp: lines_of_def split: io_reply.splits)
    qed
  next
    fix e h' assume "x_ledger_lock E (hist s) = Some e"
    then show "R e (s\<lparr>hist := h'\<rparr>)" using assms(1,3) by (intro R) (auto dest: plain_filesD)
  qed
qed

lemma wp_returning_owner_uid:
  assumes "calm c s" "rely_rooted E" "plain_files E" "c_name c \<noteq> None"
    and Q: "\<And>r t. calm c t \<Longrightarrow> cx t = cx s \<Longrightarrow> Q r t"
    and R: "\<And>e t. \<not> rolled e \<Longrightarrow> calm c t \<Longrightarrow> R e t"
  shows "wp (returning_owner_uid E) Q R s"
proof -
  from assms(1) have n: "c_name (cx s) = c_name c" by (auto simp: calm_def dest: same_ctxD)
  from assms(4) obtain name where name: "c_name c = Some name" by blast
  define look where "look = (\<lambda>cand. tryE
             (bnd (user_home_owner_uid E name) (\<lambda>ow.
                case ow of
                  None \<Rightarrow> ret (None, [])
                | Some uid \<Rightarrow>
                    if uid \<in> set cand
                    then bnd (other_homes_owned_by E uid name) (\<lambda>sharers. ret (Some uid, sharers))
                    else ret (None, [])))
             (\<lambda>e. thn (log_account E (c_request (cx s)) name (fail_phase e) (Some ''NAS_SSH_FAILED''))
                      (throw (infra_failed ''CREATE_ACCOUNT'' ''NAS_SSH_FAILED'' 500 (Some e)))))"
  have look: "wp (look cand) Q R t" if t: "calm c t" "cx t = cx s" for cand and t :: st
  proof -
    have Ql: "Q r u" if "like t u" for r u
      using that t by (intro Q) (auto simp: calm_def afterD)
    have h: "wp (thn (log_account E (c_request (cx s)) name (fail_phase e) (Some ''NAS_SSH_FAILED''))
               (throw (infra_failed ''CREATE_ACCOUNT'' ''NAS_SSH_FAILED'' 500 (Some e)))) Q R u"
      if u: "like t u" for e u
      unfolding wp_thn wp_throw
    proof (rule wp_log_account)
      fix v assume "like u v"
      with u t have "calm c v" using calm_like by blast
      then show "R (infra_failed ''CREATE_ACCOUNT'' ''NAS_SSH_FAILED'' 500 (Some e)) v" by (intro R) simp_all
    qed
    show ?thesis
      unfolding look_def wp_tryE
    proof (rule wp_asks)
      show "keeps unhist (bnd (user_home_owner_uid E name) (\<lambda>ow.
                case ow of None \<Rightarrow> ret (None, [])
                | Some uid \<Rightarrow> if uid \<in> set cand
                    then bnd (other_homes_owned_by E uid name) (\<lambda>sharers. ret (Some uid, sharers))
                    else ret (None, [])))"
        by (intro keeps_intros) simp_all
    qed (use Ql h in simp_all)
  qed
  have rl: "wp (read_passwd_lines E) (\<lambda>ls t. wp (if has_named parse_passwd_line pw_name name ls
        then ret (None, []) else look cand) Q R t) R s" for cand
    by (rule wp_read_lines_free[OF assms(1-3)])
      (use look Q R plain_not_rolled in \<open>auto simp: wp_simps\<close>)
  show ?thesis
    unfolding returning_owner_uid_def
    using rl[unfolded look_def] name n Q assms(1) by (simp add: wp_simps)
qed

text \<open>A part that undoes the account when it fails: the failure it raises says so truthfully.\<close>

lemma wp_or_rollback:
  assumes "rely_rooted E" "name \<noteq> ''root''" "plain_files E"
    and m: "wp m Q (\<lambda>e t. calm c t) s"
    and R: "\<And>e t. lock_depth t = 0 \<Longrightarrow> same_ctx c (cx t) \<Longrightarrow> (rolled e \<Longrightarrow> no_trace name (led t)) \<Longrightarrow> R e t"
  shows "wp (or_rollback E req name code msg m) Q R s"
  unfolding or_rollback_def wp_tryE wp_thn
proof (rule wp_weaken[OF m])
  fix e and t :: st assume t: "calm c t"
  show "wp (log_account E req name FAIL (Some code))
      (\<lambda>_. wp (rollback_user E name None) (\<lambda>_. wp (throw (plain_failed msg 500)) Q R) R) R t"
  proof (rule wp_log_account)
    fix u assume "like t u"
    with t have u: "calm c u" by (rule calm_like[rotated])
    then have d: "lock_depth u = 0" "rooted (led u)" "same_ctx c (cx u)" by (simp_all add: calm_def)
    show "wp (rollback_user E name None) (\<lambda>_. wp (throw (plain_failed msg 500)) Q R) R u"
      by (rule wp_rollback[OF d(1,2) assms(1-3)])
        (use d(3) in \<open>auto simp: wp_throw intro!: R dest: plain_not_rolled\<close>)
  qed
qed assumption

text \<open>What the four parts leave behind, one after the other.\<close>

definition account_made :: "env \<Rightarrow> string \<Rightarrow> int \<Rightarrow> ledger \<Rightarrow> bool" where
  "account_made E name uid L \<longleftrightarrow> has_account name uid L \<and> uid_in_band E uid"

definition groups_made :: "env \<Rightarrow> string \<Rightarrow> string \<Rightarrow> int \<Rightarrow> supp_group list \<Rightarrow> ledger \<Rightarrow> bool" where
  "groups_made E name pg uid sgs L \<longleftrightarrow> account_made E name uid L \<and> has_group pg uid L \<and>
     (\<forall>g\<in>set (supp_gids sgs). in_group name g L)"

lemma made_interfere:
  assumes "rely_user E name pg"
  shows "account_made E name uid L \<Longrightarrow> account_made E name uid (x_interfere E h L)"
    "groups_made E name pg uid sgs L \<Longrightarrow> groups_made E name pg uid sgs (x_interfere E h L)"
  using rely_userD[OF assms] by (simp_all add: account_made_def groups_made_def)

lemma has_account_cong: "passwd_file M = passwd_file L \<Longrightarrow> has_account name uid M = has_account name uid L"
  by (simp add: has_account_def passwd_entries_def lines_of_def)

lemma in_group_cong: "group_file M = group_file L \<Longrightarrow> in_group name g M = in_group name g L"
  "group_file M = group_file L \<Longrightarrow> has_group name g M = has_group name g L"
  by (simp_all add: in_group_def has_group_def group_entries_def lines_of_def)

lemma passwd_added_account:
  assumes "passwd_added name uid gecos L M"
  shows "has_account name uid M"
  using assms
  by (auto simp: passwd_added_def has_account_def passwd_entries_def entries_def set_map_filter new_passwd_entry_def)

lemma rooted_ledger: "rooted L \<longleftrightarrow> passwd_file L \<noteq> [] \<and> group_file L \<noteq> [] \<and> shadow_file L \<noteq> [] \<and>
     has_named parse_passwd_line pw_name ''root'' (splitlines (passwd_file L)) \<and>
     has_named parse_shadow_line sp_name ''root'' (splitlines (shadow_file L))"
  by (auto simp: rooted_def seeded_iff lines_of_def)

lemma groups_done_rooted: "groups_done name pg uid gs L M \<Longrightarrow> rooted L \<Longrightarrow> rooted M"
  by (auto simp: groups_done_def rooted_ledger has_group_def group_entries_def lines_of_def entries_def
      List.map_filter_def)

lemma rooted_passwd:
  assumes "rooted L"
  shows "passwd_added name uid gecos L M \<Longrightarrow> rooted M" "only_issued L M \<Longrightarrow> rooted M"
proof -
  assume "passwd_added name uid gecos L M"
  then obtain l where "splitlines (passwd_file M) = splitlines (passwd_file L) @ [l]"
    "group_file M = group_file L" "shadow_file M = shadow_file L"
    by (auto simp: passwd_added_def lines_of_def)
  with assms show "rooted M" by (auto simp: rooted_ledger has_named_def)
qed (use assms in \<open>simp add: rooted_ledger only_issued_def\<close>)

lemma wp_passwd_part:
  assumes "calm c s" "c_name c = Some name" "name \<noteq> []" "rely_rooted E" "tame_ckpt ckpt"
    "0 \<le> cfg_uid_min E" "plain_files E"
    and Q: "\<And>uid t. account_made E name uid (led t) \<Longrightarrow> calm c t \<Longrightarrow> Q uid t"
    and R: "\<And>e t. calm c t \<Longrightarrow> R e t"
  shows "wp (ledger_lock E (create_passwd_locked E ckpt returning sharers)) Q R s"
proof -
  from assms(1) have s: "lock_depth s = 0" "rooted (led s)" "same_ctx c (cx s)" by (simp_all add: calm_def)
  show ?thesis
  proof (rule wp_lock_free[OF s(1)])
    fix h and t :: st
    assume t: "led t = x_interfere E h (led s)" "lock_depth t = 1" "cx t = cx s"
    with assms(4) s have rt: "rooted (led t)" by (simp add: rely_rootedD)
    have n: "c_name (cx t) = Some name" using t(3) s(3) assms(2) by (auto dest: same_ctxD)
    show "wp (create_passwd_locked E ckpt returning sharers)
        (\<lambda>a u. \<forall>h'. Q a (u\<lparr>lock_depth := 0, hist := h'\<rparr>)) (\<lambda>e u. \<forall>h'. R e (u\<lparr>lock_depth := 0, hist := h'\<rparr>)) t"
    proof (rule wp_create_passwd_locked[OF rooted_seeded[OF rt] _ n assms(3,5,6,7)])
      fix uid and u :: st
      assume "passwd_added name uid (c_gecos (cx t)) (led t) (led u)" "same_ctx (cx t) (cx u)" "uid_in_band E uid"
      then show "\<forall>h'. Q uid (u\<lparr>lock_depth := 0, hist := h'\<rparr>)"
        using passwd_added_account rooted_passwd(1)[OF rt] same_ctx_trans s(3) t(3)
        by (auto intro!: Q simp: account_made_def calm_def)
    next
      fix e and u :: st
      assume "same_ctx (cx t) (cx u)" "only_issued (led t) (led u) \<or>
           (\<not> is_step_failed e \<and> (\<exists>uid. passwd_added name uid (c_gecos (cx t)) (led t) (led u)))"
      then show "\<forall>h'. R e (u\<lparr>lock_depth := 0, hist := h'\<rparr>)"
        using rooted_passwd[OF rt] same_ctx_trans s(3) t(3) by (auto intro!: R simp: calm_def)
    qed (use t in simp)
  qed (use assms(1) in \<open>simp add: R\<close>)
qed

lemma wp_group_part:
  assumes "calm c s" "member_name name" "supp_ok sgs" "pg \<noteq> []" "0 \<le> uid" "rely_rooted E" "rely_user E name pg"
    and "account_made E name uid (led s)"
    and Q: "\<And>added t. groups_made E name pg uid sgs (led t) \<Longrightarrow> calm c t \<Longrightarrow> Q added t"
    and R: "\<And>e t. calm c t \<Longrightarrow> R e t"
  shows "wp (ledger_lock E (create_group_locked E name pg uid sgs)) Q R s"
proof -
  from assms(1) have s: "lock_depth s = 0" "rooted (led s)" "same_ctx c (cx s)" by (simp_all add: calm_def)
  show ?thesis
  proof (rule wp_lock_free[OF s(1)])
    fix h and t :: st
    assume t: "led t = x_interfere E h (led s)" "lock_depth t = 1" "cx t = cx s"
    with assms(6) s have rt: "rooted (led t)" by (simp add: rely_rootedD)
    have a: "account_made E name uid (led t)" using made_interfere[OF assms(7)] assms(8) t(1) by simp
    show "wp (create_group_locked E name pg uid sgs)
        (\<lambda>a u. \<forall>h'. Q a (u\<lparr>lock_depth := 0, hist := h'\<rparr>)) (\<lambda>e u. \<forall>h'. R e (u\<lparr>lock_depth := 0, hist := h'\<rparr>)) t"
    proof (rule wp_create_group_locked[OF _ assms(2-5)])
      fix added and u :: st
      assume u: "groups_done name pg uid (supp_gids sgs) (led t) (led u)" "cx u = cx t"
      have "rooted (led u)" using u(1) rt by (rule groups_done_rooted)
      then have "calm c (u\<lparr>lock_depth := 0, hist := h'\<rparr>)" for h'
        using u(2) s(3) t(3) by (simp add: calm_def)
      moreover have "has_account name uid (led u) = has_account name uid (led t)"
        by (rule has_account_cong) (use u(1) in \<open>simp add: groups_done_def\<close>)
      then have "groups_made E name pg uid sgs (led u)"
        using u(1) a by (simp add: groups_done_def groups_made_def account_made_def)
      ultimately show "\<forall>h'. Q added (u\<lparr>lock_depth := 0, hist := h'\<rparr>)" by (simp add: Q)
    next
      fix e and u :: st assume "cx u = cx t" "rooted (led t) \<Longrightarrow> rooted (led u)"
      then show "\<forall>h'. R e (u\<lparr>lock_depth := 0, hist := h'\<rparr>)"
        using rt s(3) t(3) by (auto intro!: R simp: calm_def)
    qed (use t in simp)
  qed (use assms(1) in \<open>simp add: R\<close>)
qed

lemma wp_shadow_part:
  assumes "calm c s" "name \<noteq> []" "rely_rooted E" "rely_user E name pg" "\<And>h. 0 \<le> x_wall E h"
    and "groups_made E name pg uid sgs (led s)"
    and Q: "\<And>t. groups_made E name pg uid sgs (led t) \<Longrightarrow> has_password name (c_passwd_hash c) (led t) \<Longrightarrow>
           calm c t \<Longrightarrow> Q () t"
    and R: "\<And>e t. calm c t \<Longrightarrow> R e t"
  shows "wp (create_shadow E name) Q R s"
proof -
  from assms(1) have s: "lock_depth s = 0" "rooted (led s)" "same_ctx c (cx s)" by (simp_all add: calm_def)
  then have hash: "c_passwd_hash (cx s) = c_passwd_hash c" by (simp add: same_ctxD)
  have main: "wp (ledger_lock E (
           bnd (read_shadow_lines E) (\<lambda>sh_lines.
           bnd (liftE (format_shadow_entry (new_shadow_entry name (c_passwd_hash c) today))) (\<lambda>l.
           write_shadow_lines E (sh_lines @ [l]))))) Q R v"
    if v: "calm c v" "led v = led s" "0 \<le> today" for today and v :: st
  proof (rule wp_lock_free)
    show "lock_depth v = 0" using v(1) by (simp add: calm_def)
  next
    fix h and t :: st
    assume t: "led t = x_interfere E h (led v)" "lock_depth t = 1" "cx t = cx v"
    with assms(3) s(2) v have rt: "rooted (led t)" by (simp add: rely_rootedD)
    have g: "groups_made E name pg uid sgs (led t)" using made_interfere[OF assms(4)] assms(6) t(1) v(2) by simp
    have cv: "same_ctx c (cx v)" using v(1) by (simp add: calm_def)
    show "wp (bnd (read_shadow_lines E) (\<lambda>sh_lines.
           bnd (liftE (format_shadow_entry (new_shadow_entry name (c_passwd_hash c) today))) (\<lambda>l.
           write_shadow_lines E (sh_lines @ [l]))))
        (\<lambda>a u. \<forall>h'. Q a (u\<lparr>lock_depth := 0, hist := h'\<rparr>)) (\<lambda>e u. \<forall>h'. R e (u\<lparr>lock_depth := 0, hist := h'\<rparr>)) t"
    proof (rule wp_create_shadow_locked[OF _ rt assms(2) v(3)])
      fix u :: st
      assume u: "shadow_entries (led u) = shadow_entries (led t) @ [new_shadow_entry name (c_passwd_hash c) today]"
        "passwd_file (led u) = passwd_file (led t)" "group_file (led u) = group_file (led t)"
        "rooted (led u)" "cx u = cx t"
      have "groups_made E name pg uid sgs (led u)"
        using g has_account_cong[OF u(2)] in_group_cong[OF u(3)]
        by (simp add: groups_made_def account_made_def)
      moreover have "has_password name (c_passwd_hash c) (led u)"
        by (simp add: has_password_def u(1) new_shadow_entry_def)
      ultimately show "\<forall>h'. Q () (u\<lparr>lock_depth := 0, hist := h'\<rparr>)"
        using u(4,5) t(3) cv by (simp add: Q calm_def)
    next
      fix e and u :: st assume "cx u = cx t" "rooted (led u)"
      then show "\<forall>h'. R e (u\<lparr>lock_depth := 0, hist := h'\<rparr>)" using t(3) cv by (simp add: R calm_def)
    qed (use t in simp)
  qed (use v(1) in \<open>simp add: R\<close>)
  have d: "0 \<le> x_wall E h div 86400000" for h
    using assms(5)[of h] by (simp add: pos_imp_zdiv_nonneg_iff)
  show ?thesis
    unfolding create_shadow_def today_days_def
    using main[of "s\<lparr>hist := EvTime # hist s\<rparr>"] d assms(1) R by (simp add: wp_simps hash)
qed

lemma wp_sudoers_part:
  assumes "calm c s"
    and Q: "\<And>t. passwd_file (led t) = passwd_file (led s) \<Longrightarrow> group_file (led t) = group_file (led s) \<Longrightarrow>
           shadow_file (led t) = shadow_file (led s) \<Longrightarrow> calm c t \<Longrightarrow> Q () t"
    and R: "\<And>e t. calm c t \<Longrightarrow> R e t"
  shows "wp (ensure_sudoers_file E user policy) Q R s"
  unfolding ensure_sudoers_file_def Let_def
  using assms by (auto simp: wp_simps calm_def rooted_ledger split: io_reply.splits)

text \<open>
  What the step may assume: the request names a user and a primary group the ledger's
  format can hold, the lock is free, the other processes are well behaved, the
  checkpoint writes only its own row, and failing files raise exceptions of their own.
\<close>

definition account_setting :: "env \<Rightarrow> unit cmd option \<Rightarrow> string \<Rightarrow> string \<Rightarrow> st \<Rightarrow> bool" where
  "account_setting E ckpt name pg s \<longleftrightarrow>
     c_name (cx s) = Some name \<and> member_name name \<and> name \<noteq> ''root'' \<and>
     c_pg_name (cx s) = Some pg \<and> pg \<noteq> [] \<and> supp_ok (c_supp_groups (cx s)) \<and>
     lock_depth s = 0 \<and> rooted (led s) \<and> 0 \<le> cfg_uid_min E \<and> (\<forall>h. 0 \<le> x_wall E h) \<and>
     plain_files E \<and> rely_rooted E \<and> rely_user E name pg \<and> tame_ckpt ckpt"

definition account_done :: "env \<Rightarrow> string \<Rightarrow> string \<Rightarrow> ctx \<Rightarrow> st \<Rightarrow> bool" where
  "account_done E name pg c t \<longleftrightarrow> lock_depth t = 0 \<and>
     (\<exists>uid. c_uid (cx t) = Some uid \<and> c_gid (cx t) = Some uid \<and> uid_in_band E uid \<and>
        has_account name uid (led t) \<and> has_group pg uid (led t) \<and>
        (\<forall>g\<in>set (supp_gids (c_supp_groups c)). in_group name g (led t)) \<and>
        has_password name (c_passwd_hash c) (led t))"

definition account_undone :: "string \<Rightarrow> exn \<Rightarrow> st \<Rightarrow> bool" where
  "account_undone name e t \<longleftrightarrow> lock_depth t = 0 \<and> (rolled e \<longrightarrow> no_trace name (led t))"

lemma made_cong:
  assumes "passwd_file M = passwd_file L" "group_file M = group_file L"
  shows "groups_made E name pg uid sgs M = groups_made E name pg uid sgs L"
  using has_account_cong[OF assms(1)] in_group_cong[OF assms(2)]
  by (simp add: groups_made_def account_made_def)

lemma wp_create_account:
  assumes a: "account_setting E ckpt name pg s"
  shows "wp (step_create_account E ckpt) (\<lambda>_. account_done E name pg (cx s)) (account_undone name) s"
proof -
  let ?c = "cx s"
  let ?R = "account_undone name"
  from a have name: "c_name (cx s) = Some name" "c_pg_name (cx s) = Some pg" "name \<noteq> []" "pg \<noteq> []"
    "name \<noteq> ''root''" "member_name name" "supp_ok (c_supp_groups (cx s))"
    by (simp_all add: account_setting_def member_name_def)
  from a have E: "rely_rooted E" "rely_user E name pg" "plain_files E" "tame_ckpt ckpt" "0 \<le> cfg_uid_min E"
    "\<And>h. 0 \<le> x_wall E h" by (simp_all add: account_setting_def)
  from a have s: "calm ?c s" "seeded (led s)" by (simp_all add: account_setting_def calm_def rooted_def)
  have R: "?R e t" if "calm ?c t" "\<not> rolled e" for e t
    using that by (simp add: account_undone_def calm_def)
  have R': "?R e t" if "lock_depth t = 0" "rolled e \<Longrightarrow> no_trace name (led t)" for e t
    using that by (simp add: account_undone_def)
  note undo = wp_or_rollback[where c="?c", OF E(1) name(5) E(3) _ R']
  have fin: "wp (thn (log_account E req name SUCCESS None)
        (modC (\<lambda>c. c\<lparr>c_uid := Some uid, c_gid := Some uid, c_added_supp := added\<rparr>)))
      (\<lambda>_. account_done E name pg ?c) ?R t"
    if "groups_made E name pg uid (c_supp_groups ?c) (led t)" "has_password name (c_passwd_hash ?c) (led t)" "calm ?c t"
    for req uid added t
    unfolding wp_thn
  proof (rule wp_log_account)
    fix u assume "like t u"
    then have u: "led u = led t" "lock_depth u = lock_depth t" by (simp_all add: afterD)
    show "wp (modC (\<lambda>c. c\<lparr>c_uid := Some uid, c_gid := Some uid, c_added_supp := added\<rparr>))
        (\<lambda>_. account_done E name pg ?c) ?R u"
      using that u by (simp add: wp_modC account_done_def groups_made_def account_made_def calm_def)
  qed
  have sudo: "wp (case build_sudoers_policy E name of None \<Rightarrow> ret ()
          | Some policy \<Rightarrow> or_rollback E req name code msg (ensure_sudoers_file E name policy))
      (\<lambda>_ t. groups_made E name pg uid (c_supp_groups ?c) (led t) \<and>
             has_password name (c_passwd_hash ?c) (led t) \<and> calm ?c t) ?R t"
    if "groups_made E name pg uid (c_supp_groups ?c) (led t)" "has_password name (c_passwd_hash ?c) (led t)" "calm ?c t"
    for req code msg uid t
  proof (cases "build_sudoers_policy E name")
    case (Some policy)
    show ?thesis
      unfolding Some option.case
    proof (rule undo, rule wp_sudoers_part[OF that(3)])
      fix u assume u: "passwd_file (led u) = passwd_file (led t)" "group_file (led u) = group_file (led t)"
        "shadow_file (led u) = shadow_file (led t)" "calm ?c u"
      have "groups_made E name pg uid (c_supp_groups ?c) (led u)" using made_cong[OF u(1,2)] that(1) by simp
      moreover have "has_password name (c_passwd_hash ?c) (led u)"
        using that(2) by (simp add: has_password_def shadow_entries_def lines_of_def u(3))
      ultimately show "groups_made E name pg uid (c_supp_groups ?c) (led u) \<and>
             has_password name (c_passwd_hash ?c) (led u) \<and> calm ?c u" using u(4) by simp
    qed
  qed (use that in \<open>simp add: wp_ret\<close>)
  define rest where "rest = (\<lambda>uid. 
     bnd (or_rollback E (c_request ?c) name ''GROUP_WRITE_FAILED'' ''failed to write group''
            (ledger_lock E (create_group_locked E name pg uid (c_supp_groups ?c)))) (\<lambda>added.
     thn (or_rollback E (c_request ?c) name ''SHADOW_WRITE_FAILED'' ''failed to write shadow'' (create_shadow E name))
    (thn (case build_sudoers_policy E name of
            None \<Rightarrow> ret ()
          | Some policy \<Rightarrow> or_rollback E (c_request ?c) name ''SUDOERS_CREATE_FAILED'' ''failed to create sudoers file''
              (ensure_sudoers_file E name policy))
    (thn (log_account E (c_request ?c) name SUCCESS None)
         (modC (\<lambda>c. c\<lparr>c_uid := Some uid, c_gid := Some uid, c_added_supp := added\<rparr>))))))"
  have rest: "wp (rest uid) (\<lambda>_. account_done E name pg ?c) ?R t"
    if t: "account_made E name uid (led t)" "calm ?c t" for uid t
  proof -
    have u: "0 \<le> uid" using t(1) E(5) by (simp add: account_made_def uid_in_band_def)
    show ?thesis
      unfolding rest_def wp_bnd
    proof (rule undo, rule wp_group_part[OF t(2) name(6,7,4) u E(1,2) t(1)])
      fix added v assume v: "groups_made E name pg uid (c_supp_groups ?c) (led v)" "calm ?c v"
      show "wp (thn (or_rollback E (c_request ?c) name ''SHADOW_WRITE_FAILED'' ''failed to write shadow'' (create_shadow E name))
          (thn (case build_sudoers_policy E name of
            None \<Rightarrow> ret ()
          | Some policy \<Rightarrow> or_rollback E (c_request ?c) name ''SUDOERS_CREATE_FAILED'' ''failed to create sudoers file''
              (ensure_sudoers_file E name policy))
          (thn (log_account E (c_request ?c) name SUCCESS None)
            (modC (\<lambda>c. c\<lparr>c_uid := Some uid, c_gid := Some uid, c_added_supp := added\<rparr>)))))
          (\<lambda>_. account_done E name pg ?c) ?R v"
        unfolding wp_thn[of "or_rollback E req name code msg m" for req code msg m]
      proof (rule undo, rule wp_shadow_part[OF v(2) name(3) E(1,2,6) v(1)])
        fix w assume "groups_made E name pg uid (c_supp_groups ?c) (led w)"
          "has_password name (c_passwd_hash ?c) (led w)" "calm ?c w"
        from sudo[OF this] show "wp (thn (case build_sudoers_policy E name of
            None \<Rightarrow> ret ()
          | Some policy \<Rightarrow> or_rollback E (c_request ?c) name ''SUDOERS_CREATE_FAILED'' ''failed to create sudoers file''
              (ensure_sudoers_file E name policy))
          (thn (log_account E (c_request ?c) name SUCCESS None)
            (modC (\<lambda>c. c\<lparr>c_uid := Some uid, c_gid := Some uid, c_added_supp := added\<rparr>))))
          (\<lambda>_. account_done E name pg ?c) ?R w"
          unfolding wp_thn[of "case build_sudoers_policy E name of None \<Rightarrow> x | Some p \<Rightarrow> y p" for x y]
          by (rule wp_weaken) (use fin in blast)+
      qed
    qed
  qed
  have passwd: "wp (bnd (tryE (ledger_lock E (create_passwd_locked E ckpt returning sharers))
               (\<lambda>e. if is_step_failed e \<or> is_lease_lost e then throw e
                    else thn (log_account E (c_request ?c) name FAIL (Some ''PASSWD_WRITE_FAILED'')) (throw e))) rest)
      (\<lambda>_. account_done E name pg ?c) ?R t" if t: "calm ?c t" for returning sharers t
    unfolding wp_bnd wp_tryE
  proof (rule wp_weaken[OF wp_conj[OF wp_passwd_part[OF t name(1,3) E(1,4,5,3), of "\<lambda>uid t. account_made E name uid (led t) \<and> calm ?c t" "\<lambda>_. calm ?c"]
          raises_wp[OF raises_ledger_lock[OF create_passwd_not_rolled[OF E(3)]]]]])
    fix e u assume u: "calm ?c u \<and> \<not> rolled e"
    have "wp (log_account E (c_request ?c) name FAIL (Some ''PASSWD_WRITE_FAILED'')) (\<lambda>_. ?R e) ?R u"
      by (rule wp_log_account) (use u R calm_like in blast)
    with u R show "wp (if is_step_failed e \<or> is_lease_lost e then throw e
          else thn (log_account E (c_request ?c) name FAIL (Some ''PASSWD_WRITE_FAILED'')) (throw e))
        (\<lambda>uid. wp (rest uid) (\<lambda>_. account_done E name pg ?c) ?R) ?R u"
      by (simp add: wp_simps)
  qed (use rest plain_not_rolled[OF plain_filesD(3)[OF E(3)]] in auto)
  show ?thesis
    unfolding step_create_account_def wp_bnd wp_getC wp_needC wp_thn name(1,2) option.case wp_ensure_seeded[OF s(2)]
  proof (rule wp_log_account)
    fix t assume "like s t"
    then have t: "calm ?c t" by (rule calm_like) (rule s(1))
    have n: "c_name ?c \<noteq> None" by (simp add: name)
    show "wp (returning_owner_uid E) (\<lambda>p. wp (case p of (returning, sharers) \<Rightarrow>
       bnd (tryE (ledger_lock E (create_passwd_locked E ckpt returning sharers))
               (\<lambda>e. if is_step_failed e \<or> is_lease_lost e then throw e
                    else thn (log_account E (c_request ?c) name FAIL (Some ''PASSWD_WRITE_FAILED'')) (throw e)))
       (\<lambda>uid. 
     bnd (or_rollback E (c_request ?c) name ''GROUP_WRITE_FAILED'' ''failed to write group''
            (ledger_lock E (create_group_locked E name pg uid (c_supp_groups ?c)))) (\<lambda>added.
     thn (or_rollback E (c_request ?c) name ''SHADOW_WRITE_FAILED'' ''failed to write shadow'' (create_shadow E name))
    (thn (case build_sudoers_policy E name of
            None \<Rightarrow> ret ()
          | Some policy \<Rightarrow> or_rollback E (c_request ?c) name ''SUDOERS_CREATE_FAILED'' ''failed to create sudoers file''
              (ensure_sudoers_file E name policy))
    (thn (log_account E (c_request ?c) name SUCCESS None)
         (modC (\<lambda>c. c\<lparr>c_uid := Some uid, c_gid := Some uid, c_added_supp := added\<rparr>))))))) 
        (\<lambda>_. account_done E name pg ?c) ?R) ?R t"
      unfolding rest_def[symmetric]
      by (rule wp_returning_owner_uid[OF t E(1,3) n])
        (use passwd R in \<open>auto split: prod.splits\<close>)
  qed
qed

end
