(* ===== verification/K8s.thy ===== *)
theory K8s
  imports Account "HOL-Library.AList"
begin

text \<open>
  The Kubernetes helpers: names of nodes and mount points, what a Pod's state says, running a
  script in a user's Pods, the NodePort Services (\<open>utils.py\<close>), the account Secrets
  (\<open>lifecycle_steps/provision.py\<close>), the progress shown to the user
  (\<open>adapters/pod_status.py\<close>) and the measurements of Prometheus.

  The Services are shared with the other controllers: every call to the API first lets
  \<open>x_cluster\<close> change them.
\<close>

section \<open>Names\<close>

definition load_k8s :: "env \<Rightarrow> unit cmd" where
  "load_k8s E = ext EvLoadK8s (\<lambda>h. case x_load_k8s E h of None \<Rightarrow> Inr () | Some e \<Rightarrow> Inl e)"

text \<open>\<open>str.lower\<close> on the code points below 256.\<close>

definition lower_char :: "char \<Rightarrow> char" where
  "lower_char c = (let n = (of_char c :: nat) in
     if (65 \<le> n \<and> n \<le> 90) \<or> (192 \<le> n \<and> n \<le> 222 \<and> n \<noteq> 215) then char_of (n + 32) else c)"

definition lower :: "string \<Rightarrow> string" where
  "lower s = map lower_char s"

definition resolve_k8s_node_name :: "env \<Rightarrow> string option \<Rightarrow> string option cmd" where
  "resolve_k8s_node_name E candidate = (case candidate of
     None \<Rightarrow> ret None
   | Some c \<Rightarrow> (let s = lower (py_strip c) in
       if s = [] then ret None
       else thn (load_k8s E)
         (tryE (bnd (ext EvNodes (x_nodes E)) (\<lambda>nodes.
                  ret (map_option (\<lambda>n. lower (kn_name n)) (find (\<lambda>n. lower (kn_name n) = s) nodes))))
               (\<lambda>_. ret None))))"

text \<open>\<open>^farm(\d+)$\<close>, case ignored; \<open>$\<close> also matches before a final newline.\<close>

definition farm_mount_root :: "string \<Rightarrow> exn + string" where
  "farm_mount_root node = (let t = strip_final_nl node; ds = drop 4 t in
     if lower (take 4 t) = ''farm'' \<and> ds \<noteq> [] \<and> list_all is_digit ds
     then Inr (''/home/tako'' @ ds @ ''/share/user'') else Inl (raised ValueError))"

definition generate_pod_name :: "env \<Rightarrow> string \<Rightarrow> string cmd" where
  "generate_pod_name E user =
     bnd (ext EvUuid (\<lambda>h. Inr (x_uuid E h))) (\<lambda>suffix. ret (''ailab-'' @ user @ ''-'' @ suffix))"

definition account_secret_name :: "string \<Rightarrow> string" where
  "account_secret_name pod = pod @ ''-account''"

section \<open>The state of a Pod\<close>

definition is_pod_ready :: "pod_view \<Rightarrow> bool" where
  "is_pod_ready pod \<longleftrightarrow> pv_phase pod = ''Running'' \<and> pv_ready pod"

definition failure_waiting_reasons :: "string list" where
  "failure_waiting_reasons = [''ImagePullBackOff'', ''ErrImagePull'', ''ErrImageNeverPull'', ''InvalidImageName'',
     ''CrashLoopBackOff'', ''CreateContainerConfigError'', ''CreateContainerError'', ''RunContainerError'']"

text \<open>\<open>a or b\<close> of an optional text.\<close>

definition text_or :: "string option \<Rightarrow> string \<Rightarrow> string" where
  "text_or a b = (case a of None \<Rightarrow> b | Some t \<Rightarrow> if t = [] then b else t)"

definition terminated_detail :: "string option \<times> int option \<times> string option \<Rightarrow> string" where
  "terminated_detail t = (case t of (why, code, message) \<Rightarrow>
     ''PodFailed - '' @ text_or why ''Error'' @
     (case code of None \<Rightarrow> [] | Some c \<Rightarrow> '' (exit='' @ show_int c @ '')'') @
     (case message of None \<Rightarrow> [] | Some m \<Rightarrow> if m = [] then [] else '': '' @ m))"

definition pod_failure_reason :: "pod_view \<Rightarrow> string option" where
  "pod_failure_reason pod =
     (if pv_phase pod = ''Failed''
      then (case List.map_filter cs_terminated (pv_statuses pod) of
              t # _ \<Rightarrow> Some (terminated_detail t)
            | [] \<Rightarrow> Some (text_or (pv_reason pod) ''PodFailed''))
      else map_option (\<lambda>(why, message). why @ '': '' @ message)
             (find (\<lambda>(why, message). why \<in> set failure_waiting_reasons)
                (List.map_filter cs_waiting (pv_statuses pod))))"

fun event_stage :: "string \<Rightarrow> string option" where
  "event_stage r = (if r = ''Pulling'' then Some ''pulling_image''
     else if r \<in> {''Pulled'', ''Created'', ''Started'', ''BackOff''} then Some ''starting_container''
     else if r = ''FailedMount'' then Some ''mount_retrying'' else None)"

text \<open>\<open>max(xs, key=f)\<close>: the first of the greatest.\<close>

fun first_max :: "('a \<Rightarrow> int) \<Rightarrow> 'a list \<Rightarrow> 'a option" where
  "first_max f [] = None"
| "first_max f (x # xs) = (case first_max f xs of None \<Rightarrow> Some x | Some y \<Rightarrow> Some (if f x < f y then y else x))"

definition latest_stage :: "pod_event list \<Rightarrow> string option" where
  "latest_stage evs = (case first_max pe_time (filter (\<lambda>e. event_stage (pe_reason e) \<noteq> None) evs) of
     None \<Rightarrow> None | Some e \<Rightarrow> event_stage (pe_reason e))"

text \<open>The stage of the newest event that stands for one; a failed look-up is no news.\<close>

definition pod_progress_stage :: "env \<Rightarrow> string \<Rightarrow> string option cmd" where
  "pod_progress_stage E pod =
     tryE (bnd (ext (EvEvents pod) (x_events E pod)) (\<lambda>evs. ret (latest_stage evs))) (\<lambda>_. ret None)"

text \<open>The summary of a start, without the duration and the size of a download.\<close>

record start_summary =
  ss_source :: "string option"
  ss_mount_retries :: nat
  ss_restarts :: nat

definition no_summary :: start_summary where
  "no_summary = \<lparr>ss_source = None, ss_mount_retries = 0, ss_restarts = 0\<rparr>"

definition add_start_event :: "pod_event \<Rightarrow> start_summary \<Rightarrow> start_summary" where
  "add_start_event e s = (let n = max 1 (pe_count e) in
     if pe_reason e = ''Pulled''
     then (if contains ''already present on machine'' (pe_message e)
           then s\<lparr>ss_source := (case ss_source s of None \<Rightarrow> Some ''cached'' | Some x \<Rightarrow> Some x)\<rparr>
           else s\<lparr>ss_source := Some ''pulled''\<rparr>)
     else if pe_reason e = ''FailedMount'' then s\<lparr>ss_mount_retries := ss_mount_retries s + n\<rparr>
     else if pe_reason e = ''BackOff'' then s\<lparr>ss_restarts := ss_restarts s + n\<rparr>
     else s)"

definition summarize_pod_start_events :: "env \<Rightarrow> string \<Rightarrow> start_summary cmd" where
  "summarize_pod_start_events E pod =
     tryE (bnd (ext (EvEvents pod) (x_events E pod)) (\<lambda>evs. ret (fold add_start_event evs no_summary)))
          (\<lambda>_. ret no_summary)"

section \<open>The Pods of a user\<close>

definition list_user_pods :: "env \<Rightarrow> string \<Rightarrow> pod_view list cmd" where
  "list_user_pods E user = ext (EvListPods user) (x_list_pods E user)"

definition get_existing_pod :: "env \<Rightarrow> string \<Rightarrow> string option cmd" where
  "get_existing_pod E user =
     thn (load_k8s E) (bnd (list_user_pods E user) (\<lambda>pods.
       ret (map_option pv_name (find (\<lambda>p. pv_phase p = ''Running'') pods))))"

definition delete_pod_util :: "env \<Rightarrow> string \<Rightarrow> unit cmd" where
  "delete_pod_util E pod = thn (load_k8s E) (ext (EvDeletePod pod) (x_delete_pod E pod))"

definition exec_in_pod ::
  "env \<Rightarrow> string \<Rightarrow> string \<Rightarrow> string list \<Rightarrow> string option \<Rightarrow> string cmd" where
  "exec_in_pod E pod script args input = ext (EvExec pod script args input) (x_exec E pod script args input)"

definition no_report :: pods_report where
  "no_report = \<lparr>pr_synced = [], pr_failed = [], pr_error = False\<rparr>"

text \<open>One Pod of \<open>_exec_on_running_pods\<close>; \<open>script\<close> names the script.\<close>

definition exec_on_pod ::
  "env \<Rightarrow> string \<Rightarrow> string \<Rightarrow> string list \<Rightarrow> string option \<Rightarrow> pod_view \<Rightarrow> pods_report \<Rightarrow> pods_report cmd" where
  "exec_on_pod E user script args input pod rep =
     (if pv_phase pod \<noteq> ''Running'' then ret rep
      else bnd (attempt (exec_in_pod E (pv_name pod) script (user # args) input)) (\<lambda>r. ret (case r of
        Inl e \<Rightarrow> rep\<lparr>pr_failed := pr_failed rep @ [pv_name pod]\<rparr>
      | Inr out \<Rightarrow> if contains ''__RC=0'' out then rep\<lparr>pr_synced := pr_synced rep @ [pv_name pod]\<rparr>
                   else rep\<lparr>pr_failed := pr_failed rep @ [pv_name pod]\<rparr>)))"

definition exec_on_running_pods ::
  "env \<Rightarrow> string \<Rightarrow> string \<Rightarrow> string list \<Rightarrow> string option \<Rightarrow> pods_report cmd" where
  "exec_on_running_pods E user script args input =
     bnd (attempt (thn (load_k8s E) (list_user_pods E user))) (\<lambda>r. case r of
       Inl e \<Rightarrow> ret (no_report\<lparr>pr_error := True\<rparr>)
     | Inr pods \<Rightarrow> foldM (exec_on_pod E user script args input) pods no_report)"

definition sync_running_pod_groups :: "env \<Rightarrow> string \<Rightarrow> (string \<times> int) list \<Rightarrow> pods_report cmd" where
  "sync_running_pod_groups E user groups = (if groups = [] then ret no_report
     else exec_on_running_pods E user ''group-sync''
            (map (\<lambda>(n, g). n @ '':'' @ show_int g) (sort_key fst groups)) None)"

definition remove_running_pod_groups :: "env \<Rightarrow> string \<Rightarrow> string list \<Rightarrow> pods_report cmd" where
  "remove_running_pod_groups E user groups = (if groups = [] then ret no_report
     else exec_on_running_pods E user ''group-remove'' (sort groups) None)"

definition sync_running_pod_password :: "env \<Rightarrow> string \<Rightarrow> string \<Rightarrow> pods_report cmd" where
  "sync_running_pod_password E user hash = exec_on_running_pods E user ''password-sync'' [] (Some (hash @ [NL]))"

text \<open>Every Pod's account Secret gets the new hash; a Pod without one is passed over.\<close>

definition update_one_secret :: "env \<Rightarrow> string \<Rightarrow> pod_view \<Rightarrow> string list \<Rightarrow> string list cmd" where
  "update_one_secret E hash pod updated = (let name = account_secret_name (pv_name pod) in
     bnd (attempt (ext (EvSetHash name hash) (x_patch_secret E name))) (\<lambda>r. case r of
       Inr _ \<Rightarrow> ret (updated @ [name])
     | Inl e \<Rightarrow> if is_api_status 404 e then ret updated else throw e))"

definition update_account_secrets :: "env \<Rightarrow> string \<Rightarrow> string \<Rightarrow> string list cmd" where
  "update_account_secrets E user hash =
     thn (load_k8s E) (bnd (list_user_pods E user) (\<lambda>pods.
     bnd (foldM (update_one_secret E hash) pods []) (\<lambda>updated. ret (sort updated))))"

text \<open>\<open>wait_for_pod_deleted\<close> of \<open>main.py\<close> polls the API until the Pod is gone or a minute is over.\<close>

definition wait_for_pod_deleted :: "env \<Rightarrow> string \<Rightarrow> bool cmd" where
  "wait_for_pod_deleted E pod = ext (EvWaitDeleted pod) (x_wait_deleted E pod)"

section \<open>NodePort Services\<close>

text \<open>
  One call to the Services API: what the others did shows first, then the call takes effect
  or is refused by the API (\<open>f\<close>), or the call itself fails, with or without its effect.
\<close>

definition services_call :: "env \<Rightarrow> (service list \<Rightarrow> exn + ('a \<times> service list)) \<Rightarrow> 'a cmd" where
  "services_call E f = (\<lambda>s.
     let v = x_cluster E (hist s) (services s);
         s' = s\<lparr>services := v, hist := EvServices # hist s\<rparr>
     in case x_k8s E (hist s) of
          IoFailed e \<Rightarrow> (Inl e, s')
        | IoOk \<Rightarrow> (case f v of Inl e \<Rightarrow> (Inl e, s') | Inr (a, w) \<Rightarrow> (Inr a, s'\<lparr>services := w\<rparr>))
        | IoLost e \<Rightarrow> (case f v of Inl _ \<Rightarrow> (Inl e, s') | Inr (a, w) \<Rightarrow> (Inl e, s'\<lparr>services := w\<rparr>)))"

text \<open>The API refuses a name in use (409) and a node port in use (422).\<close>

definition add_service :: "service \<Rightarrow> service list \<Rightarrow> exn + (unit \<times> service list)" where
  "add_service v vs =
     (if svc_name v \<in> svc_name ` set vs then Inl (raised (ApiException 409))
      else if svc_node_port v \<in> svc_node_port ` set vs then Inl (raised (ApiException 422))
      else Inr ((), vs @ [v]))"

definition drop_service :: "string \<Rightarrow> service list \<Rightarrow> exn + (unit \<times> service list)" where
  "drop_service name vs =
     (if name \<in> svc_name ` set vs then Inr ((), filter (\<lambda>v. svc_name v \<noteq> name) vs)
      else Inl (raised (ApiException 404)))"

definition list_pod_services :: "env \<Rightarrow> string \<Rightarrow> service list cmd" where
  "list_pod_services E pod = services_call E (\<lambda>vs. Inr (filter (\<lambda>v. svc_pod v = pod) vs, vs))"

definition nodeport_service_body ::
  "env \<Rightarrow> string \<Rightarrow> string \<Rightarrow> port_info \<Rightarrow> bool \<Rightarrow> int \<Rightarrow> service cmd" where
  "nodeport_service_body E user pod p blocked decided_at = (case external_port p of
     None \<Rightarrow> throw (raised KeyError)
   | Some np \<Rightarrow> bnd (ext EvUuid (\<lambda>h. Inr (x_uuid E h))) (\<lambda>suffix. ret
       \<lparr>svc_name = ''ailab-'' @ user @ ''-'' @ suffix, svc_user = user, svc_pod = pod,
        svc_port = internal_port p, svc_node_port = np,
        svc_purpose = (if usage_purpose p = [] then ''custom'' else usage_purpose p),
        svc_blocked = blocked, svc_decided = (if blocked then decided_at else 0), svc_version = 1\<rparr>))"

definition create_nodeport_services ::
  "env \<Rightarrow> string \<Rightarrow> string \<Rightarrow> port_info list \<Rightarrow> bool \<Rightarrow> int \<Rightarrow> unit cmd" where
  "create_nodeport_services E user pod ports blocked decided_at =
     thn (load_k8s E) (forM ports (\<lambda>p.
       bnd (nodeport_service_body E user pod p blocked decided_at) (\<lambda>v. services_call E (add_service v))))"

definition delete_nodeport_services :: "env \<Rightarrow> string \<Rightarrow> unit cmd" where
  "delete_nodeport_services E pod =
     thn (load_k8s E) (bnd (list_pod_services E pod) (\<lambda>vs.
       forM vs (\<lambda>v. services_call E (drop_service (svc_name v)))))"

section \<open>Account Secrets\<close>

definition hash_login_password :: "env \<Rightarrow> string \<Rightarrow> string cmd" where
  "hash_login_password E password = ext EvCrypt (\<lambda>h. Inr (x_crypt E password h))"

definition decode_login_password :: "env \<Rightarrow> string \<Rightarrow> exn + string" where
  "decode_login_password E b = (case x_base64 E b of
     None \<Rightarrow> Inl (raised LoginPasswordMissing)
   | Some p \<Rightarrow> if p = [] then Inl (raised LoginPasswordMissing) else Inr p)"

text \<open>\<open>^\$6\$(rounds=\d+\$)?[./0-9A-Za-z]{1,16}\$[./0-9A-Za-z]{86}$\<close>.\<close>

definition crypt_char :: "char \<Rightarrow> bool" where
  "crypt_char c \<longleftrightarrow> c = CHR ''.'' \<or> c = CHR ''/'' \<or> is_digit c \<or> lower_letter c \<or>
     (65 \<le> (of_char c :: nat) \<and> (of_char c :: nat) \<le> 90)"

text \<open>The salt and hash, after \<open>$6$\<close> and the rounds.\<close>

definition crypt_tail :: "string \<Rightarrow> bool" where
  "crypt_tail q = (let salt = takeWhile crypt_char q; h = dropWhile crypt_char q in
     1 \<le> length salt \<and> length salt \<le> 16 \<and> h \<noteq> [] \<and> hd h = CHR ''$'' \<and>
     length (tl h) = 86 \<and> list_all crypt_char (tl h))"

definition after_rounds :: "string \<Rightarrow> string option" where
  "after_rounds r = (if take 7 r = ''rounds=''
     then (let ds = takeWhile is_digit (drop 7 r); q = dropWhile is_digit (drop 7 r) in
           if ds \<noteq> [] \<and> q \<noteq> [] \<and> hd q = CHR ''$'' then Some (tl q) else None)
     else Some r)"

definition sha512_crypt :: "string \<Rightarrow> bool" where
  "sha512_crypt s = (let t = strip_final_nl s in
     take 3 t = ''$6$'' \<and> (case after_rounds (drop 3 t) of None \<Rightarrow> False | Some q \<Rightarrow> crypt_tail q))"

definition checked_login_password_hash :: "string \<Rightarrow> exn + string" where
  "checked_login_password_hash hash =
     (if hash = [] \<or> \<not> sha512_crypt hash then Inl (raised LoginPasswordMissing) else Inr hash)"

definition login_password_hash :: "env \<Rightarrow> user_info option \<Rightarrow> string cmd" where
  "login_password_hash E info = (case info of
     Some u \<Rightarrow> if ui_passwd_hash u \<noteq> [] then liftE (checked_login_password_hash (ui_passwd_hash u))
                else bnd (liftE (decode_login_password E (ui_passwd_base64 u))) (hash_login_password E)
   | None \<Rightarrow> bnd (liftE (decode_login_password E [])) (hash_login_password E))"

text \<open>The two fields of an account Secret, the hash already decoded; empty if absent.\<close>

definition login_password_for_recreate :: "env \<Rightarrow> string \<Rightarrow> user_info option \<Rightarrow> string cmd" where
  "login_password_for_recreate E old_pod info = (let name = account_secret_name old_pod in
     bnd (attempt (ext (EvReadSecret name) (x_read_account_secret E name))) (\<lambda>r. case r of
       Inl e \<Rightarrow> if is_api_status 404 e then login_password_hash E info else throw e
     | Inr (hash, plaintext) \<Rightarrow>
         if hash \<noteq> [] then liftE (checked_login_password_hash hash)
         else if plaintext \<noteq> [] then bnd (liftE (decode_login_password E plaintext)) (hash_login_password E)
         else login_password_hash E info))"

definition ensure_account_secret :: "env \<Rightarrow> string \<Rightarrow> string \<Rightarrow> unit cmd" where
  "ensure_account_secret E pod hash = (let name = account_secret_name pod in
     bnd (liftE (checked_login_password_hash hash)) (\<lambda>_.
     tryE (ext (EvCreateSecret name) (x_create_secret E name))
          (\<lambda>e. if is_api_status 409 e then ext (EvReplaceSecret name) (x_replace_secret E name) else throw e)))"

definition own_account_secret :: "env \<Rightarrow> string \<Rightarrow> string option \<Rightarrow> unit cmd" where
  "own_account_secret E pod pod_uid = (let name = account_secret_name pod in
     case pod_uid of
       None \<Rightarrow> ret ()
     | Some u \<Rightarrow> if u = [] then ret ()
         else tryE (ext (EvPatchSecret name) (x_patch_secret E name)) (\<lambda>_. ret ()))"

definition delete_account_secret :: "env \<Rightarrow> string \<Rightarrow> unit cmd" where
  "delete_account_secret E pod = (let name = account_secret_name pod in
     tryE (ext (EvDeleteSecret name) (x_delete_secret E name)) (\<lambda>_. ret ()))"

section \<open>The progress shown to the user\<close>

definition set_pod_creation_status :: "env \<Rightarrow> string \<Rightarrow> string \<Rightarrow> unit cmd" where
  "set_pod_creation_status E key stage =
     tryE (io EvRedis (x_redis E) (\<lambda>s. s\<lparr>pod_status := (pod_status s)(key \<mapsto> stage)\<rparr>)) (\<lambda>_. ret ())"

section \<open>Measurements\<close>

text \<open>Scores are in thousandths; no answer is infinitely busy.\<close>

definition node_gpu_score :: "env \<Rightarrow> string \<Rightarrow> int option cmd" where
  "node_gpu_score E node =
     tryE (bnd (ext (EvProm node) (x_score E node)) (\<lambda>v. ret (Some v))) (\<lambda>_. ret None)"

fun less_score :: "int option \<Rightarrow> int option \<Rightarrow> bool" where
  "less_score None b = False"
| "less_score (Some x) None = True"
| "less_score (Some x) (Some y) = (x < y)"

text \<open>One round of \<open>select_best_node_from_prometheus\<close>.\<close>

definition better_node :: "env \<Rightarrow> string \<Rightarrow> string option \<times> int option \<Rightarrow> (string option \<times> int option) cmd" where
  "better_node E node best =
     bnd (node_gpu_score E node) (\<lambda>v. ret (if less_score v (snd best) then (Some node, v) else best))"

definition select_best_node :: "env \<Rightarrow> string list \<Rightarrow> string option cmd" where
  "select_best_node E nodes = bnd (foldM (better_node E) nodes (None, None)) (\<lambda>p. ret (fst p))"

text \<open>\<open>normalize_gpu_model\<close>: the words of the upper-case name, without the maker's.\<close>

definition upper_char :: "char \<Rightarrow> string" where
  "upper_char c = (if lower_letter c then [char_of ((of_char c :: nat) - 32)]
     else if (of_char c :: nat) = 223 then ''SS'' else [c])"

definition word_char :: "char \<Rightarrow> bool" where
  "word_char c \<longleftrightarrow> is_digit c \<or> (65 \<le> (of_char c :: nat) \<and> (of_char c :: nat) \<le> 90)"

definition normalize_gpu_model :: "string \<Rightarrow> string list" where
  "normalize_gpu_model name =
     filter (\<lambda>t. t \<noteq> [] \<and> t \<notin> {''NVIDIA'', ''GEFORCE'', ''GENERATION''})
       (split_on CHR '' '' (map (\<lambda>c. if word_char c then c else CHR '' '') (concat (map upper_char name))))"

text \<open>The GPUs of a node, one entry per UUID (the last series wins), in the order of their index.\<close>

definition gpu_inventory :: "(string \<times> int \<times> string) list \<Rightarrow> (string \<times> string) list" where
  "gpu_inventory rows =
     map (\<lambda>(u, i, m). (u, m))
       (sort_key (\<lambda>(u, i, m). i)
         (fold (\<lambda>(u, i, m) acc. AList.update u (i, m) acc) (filter (\<lambda>(u, i, m). u \<noteq> []) rows) []))"

definition list_node_gpus :: "env \<Rightarrow> string \<Rightarrow> (string \<times> string) list cmd" where
  "list_node_gpus E node = bnd (ext (EvProm node) (x_gpus E node)) (\<lambda>rows. ret (gpu_inventory rows))"

end
