(* ===== verification/Lease.thy ===== *)
theory Lease
  imports Krb5
begin

text \<open>
  The ownership of jobs (\<open>adapters/job_control.py\<close>): the statements on the table
  \<open>job_control\<close> as functions of the table, the operations \<open>claim\<close>, \<open>record_step\<close>,
  \<open>renew\<close> and \<open>release\<close> over them, and the system of all controllers as a step
  relation on the shared table, whose invariant is that no two controllers hold a live
  lease on the same job.
\<close>

section \<open>Statements\<close>

type_synonym jobtab = "int \<Rightarrow> lease option"

definition no_saved :: saved where
  "no_saved = \<lparr>sv_uid = None, sv_gid = None, sv_pod_name = None, sv_node = None, sv_allocated_ports = [],
     sv_pod_node_name = None, sv_verify_ports = [], sv_verify_node = None, sv_home_created = False,
     sv_account_write_started = None, sv_old_pod_name = None, sv_from_node = None, sv_skipped = False,
     sv_skip_reason = None, sv_old_pod_cleanup = None, sv_committed_image = None,
     sv_committed_image_node = None\<rparr>"

text \<open>\<open>INSERT\<close>: the primary key refuses a second row.\<close>

definition insert_row :: "int \<Rightarrow> lease \<Rightarrow> jobtab \<Rightarrow> bool \<times> jobtab" where
  "insert_row j r t = (if t j = None then (True, t(j \<mapsto> r)) else (False, t))"

text \<open>
  The three updates answer whether a row changed, as MySQL counts rows: a row that
  matches but already holds the new values is not counted.
\<close>

definition take_over :: "int \<Rightarrow> string \<Rightarrow> int \<Rightarrow> string \<Rightarrow> int \<Rightarrow> jobtab \<Rightarrow> bool \<times> jobtab" where
  "take_over j owner until held old t = (case t j of
     None \<Rightarrow> (False, t)
   | Some r \<Rightarrow> if l_owner r = held \<and> l_until r = old
       then (owner \<noteq> held \<or> until \<noteq> old, t(j \<mapsto> r\<lparr>l_owner := owner, l_until := until\<rparr>))
       else (False, t))"

definition write_progress :: "int \<Rightarrow> string \<Rightarrow> step list \<Rightarrow> saved \<Rightarrow> jobtab \<Rightarrow> bool \<times> jobtab" where
  "write_progress j owner d sv t = (case t j of
     None \<Rightarrow> (False, t)
   | Some r \<Rightarrow> if l_owner r = owner
       then (l_done r \<noteq> d \<or> l_saved r \<noteq> sv, t(j \<mapsto> r\<lparr>l_done := d, l_saved := sv\<rparr>))
       else (False, t))"

definition owned_by :: "int \<Rightarrow> string \<Rightarrow> jobtab \<Rightarrow> bool" where
  "owned_by j owner t = (case t j of None \<Rightarrow> False | Some r \<Rightarrow> l_owner r = owner)"

fun renew_rows :: "int list \<Rightarrow> string \<Rightarrow> int \<Rightarrow> jobtab \<Rightarrow> nat \<times> jobtab" where
  "renew_rows [] owner until t = (0, t)"
| "renew_rows (j # js) owner until t = (case t j of
     None \<Rightarrow> renew_rows js owner until t
   | Some r \<Rightarrow> if l_owner r = owner
       then (case renew_rows js owner until (t(j \<mapsto> r\<lparr>l_until := until\<rparr>)) of
               (n, t') \<Rightarrow> ((if l_until r = until then n else Suc n), t'))
       else renew_rows js owner until t)"

definition delete_row :: "int \<Rightarrow> string \<Rightarrow> jobtab \<Rightarrow> jobtab" where
  "delete_row j owner t = (if owned_by j owner t then t(j := None) else t)"

section \<open>Operations\<close>

text \<open>One statement: the other controllers may have been there before it.\<close>

definition sql :: "env \<Rightarrow> (jobtab \<Rightarrow> 'a \<times> jobtab) \<Rightarrow> 'a cmd" where
  "sql E f = (\<lambda>s.
     let t = x_controllers E (hist s) (job_control s);
         s' = s\<lparr>job_control := t, hist := EvDb # hist s\<rparr>
     in case x_db E (hist s) of
          IoOk \<Rightarrow> (Inr (fst (f t)), s'\<lparr>job_control := snd (f t)\<rparr>)
        | IoFailed e \<Rightarrow> (Inl e, s')
        | IoLost e \<Rightarrow> (Inl e, s'\<lparr>job_control := snd (f t)\<rparr>))"

definition wall_clock :: "env \<Rightarrow> int cmd" where
  "wall_clock E = ext EvTime (\<lambda>h. Inr (x_wall E h))"

definition claim :: "env \<Rightarrow> int \<Rightarrow> (step list \<times> saved) option cmd" where
  "claim E j =
     bnd (wall_clock E) (\<lambda>now.
     bnd (sql E (\<lambda>t. (t j, t))) (\<lambda>row. case row of
       None \<Rightarrow>
         bnd (sql E (insert_row j \<lparr>l_owner = cfg_owner E, l_until = now + cfg_lease_ttl E,
                                   l_done = [], l_saved = no_saved\<rparr>))
             (\<lambda>fresh. if fresh then ret (Some ([], no_saved)) else throw (raised DbError))
     | Some r \<Rightarrow>
         if l_owner r \<noteq> cfg_owner E \<and> now < l_until r then ret None
         else
           bnd (sql E (take_over j (cfg_owner E) (now + cfg_lease_ttl E) (l_owner r) (l_until r)))
               (\<lambda>won. if \<not> won then ret None else ret (Some (l_done r, l_saved r)))))"

definition record_step :: "env \<Rightarrow> int \<Rightarrow> step list \<Rightarrow> saved \<Rightarrow> unit cmd" where
  "record_step E j d sv =
     bnd (sql E (write_progress j (cfg_owner E) d sv)) (\<lambda>changed.
       if changed then ret ()
       else bnd (sql E (\<lambda>t. (owned_by j (cfg_owner E) t, t))) (\<lambda>mine.
         if mine then ret () else throw (raised LeaseLost)))"

definition renew :: "env \<Rightarrow> int list \<Rightarrow> nat cmd" where
  "renew E js = (if js = [] then ret 0
     else bnd (wall_clock E) (\<lambda>now. sql E (renew_rows js (cfg_owner E) (now + cfg_lease_ttl E))))"

definition release :: "env \<Rightarrow> int \<Rightarrow> unit cmd" where
  "release E j = sql E (\<lambda>t. ((), delete_row j (cfg_owner E) t))"

lemma wp_sql [wp_simps]:
  "wp (sql E f) Q R = (\<lambda>s.
     let t = x_controllers E (hist s) (job_control s); s' = s\<lparr>job_control := t, hist := EvDb # hist s\<rparr>
     in case x_db E (hist s) of
          IoOk \<Rightarrow> Q (fst (f t)) (s'\<lparr>job_control := snd (f t)\<rparr>)
        | IoFailed e \<Rightarrow> R e s'
        | IoLost e \<Rightarrow> R e (s'\<lparr>job_control := snd (f t)\<rparr>))"
  by (simp add: wp_def sql_def Let_def fun_eq_iff split: io_reply.splits)

lemma keeps_sql [keeps_intros]:
  assumes "\<And>s h. obs (s\<lparr>hist := h\<rparr>) = obs s" "\<And>s t. obs (s\<lparr>job_control := t\<rparr>) = obs s"
  shows "keeps obs (sql E f)"
  by (simp add: keeps_def sql_def Let_def assms split: io_reply.splits)

lemma keeps_lease [keeps_intros]:
  assumes "\<And>s h. obs (s\<lparr>hist := h\<rparr>) = obs s" "\<And>s t. obs (s\<lparr>job_control := t\<rparr>) = obs s"
  shows "keeps obs (claim E j)" "keeps obs (record_step E j d sv)" "keeps obs (renew E js)"
    "keeps obs (release E j)"
  unfolding claim_def record_step_def renew_def release_def wall_clock_def
  by (intro keeps_intros assms)+

section \<open>Fencing\<close>

text \<open>
  What a writer may rely on: whoever does not own the row changes nothing, and a write
  never moves the ownership.
\<close>

locale fenced =
  fixes owner :: "'t \<Rightarrow> 'o option"
    and "write" :: "'o \<Rightarrow> 'd \<Rightarrow> 't \<Rightarrow> 't"
  assumes write_other: "owner t \<noteq> Some c \<Longrightarrow> write c d t = t"
    and write_owner: "owner (write c d t) = owner t"
begin

text \<open>However many late writers there are, the owner's progress stands.\<close>

lemma late_writes: "\<forall>(c, d)\<in>set ws. owner t \<noteq> Some c \<Longrightarrow> fold (\<lambda>(c, d). write c d) ws t = t"
  by (induction ws) (auto simp: write_other)

lemma writes_owner: "owner (fold (\<lambda>(c, d). write c d) ws t) = owner t"
  by (induction ws arbitrary: t) (auto simp: write_owner)

end

definition row_owner :: "int \<Rightarrow> jobtab \<Rightarrow> string option" where
  "row_owner j t = map_option l_owner (t j)"

lemma owned_by_iff: "owned_by j c t \<longleftrightarrow> row_owner j t = Some c"
  by (auto simp: owned_by_def row_owner_def split: option.splits)

lemma write_progress_other: "\<not> owned_by j c t \<Longrightarrow> write_progress j c d sv t = (False, t)"
  by (auto simp: write_progress_def owned_by_def split: option.splits)

lemma write_progress_owner: "row_owner k (snd (write_progress j c d sv t)) = row_owner k t"
  by (auto simp: write_progress_def row_owner_def split: option.splits)

interpretation row: fenced "row_owner j" "\<lambda>c p t. snd (write_progress j c (fst p) (snd p) t)" for j
  by unfold_locales (simp_all add: write_progress_other owned_by_iff write_progress_owner)

section \<open>The system of controllers\<close>

text \<open>
  The shared table, the clock, what each controller believes to hold (until when), and
  the row each has read while its \<open>claim\<close> is between the two statements.
\<close>

record lsys =
  ls_tab :: jobtab
  ls_clock :: int
  ls_held :: "string \<Rightarrow> int \<Rightarrow> int option"
  ls_read :: "string \<Rightarrow> int \<Rightarrow> (lease option \<times> int) option"

definition set_held :: "string \<Rightarrow> int \<Rightarrow> int option \<Rightarrow> lsys \<Rightarrow> lsys" where
  "set_held c j u S = S\<lparr>ls_held := (ls_held S)(c := (ls_held S c)(j := u))\<rparr>"

definition set_read :: "string \<Rightarrow> int \<Rightarrow> (lease option \<times> int) option \<Rightarrow> lsys \<Rightarrow> lsys" where
  "set_read c j r S = S\<lparr>ls_read := (ls_read S)(c := (ls_read S c)(j := r))\<rparr>"

inductive lstep :: "int \<Rightarrow> lsys \<Rightarrow> lsys \<Rightarrow> bool" for ttl :: int where
  Tick: "0 \<le> d \<Longrightarrow> lstep ttl S (S\<lparr>ls_clock := ls_clock S + d\<rparr>)"
| Select: "lstep ttl S (set_read c j (Some (ls_tab S j, ls_clock S)) S)"
| Insert: "ls_read S c j = Some (None, n) \<Longrightarrow>
    insert_row j \<lparr>l_owner = c, l_until = n + ttl, l_done = [], l_saved = no_saved\<rparr> (ls_tab S) = (won, t) \<Longrightarrow>
    lstep ttl S (set_read c j None ((if won then set_held c j (Some (n + ttl)) S else S)\<lparr>ls_tab := t\<rparr>))"
| TakeOver: "ls_read S c j = Some (Some r, n) \<Longrightarrow> \<not> (l_owner r \<noteq> c \<and> n < l_until r) \<Longrightarrow>
    take_over j c (n + ttl) (l_owner r) (l_until r) (ls_tab S) = (won, t) \<Longrightarrow>
    lstep ttl S (set_read c j None ((if won then set_held c j (Some (n + ttl)) S else S)\<lparr>ls_tab := t\<rparr>))"
| GiveUp: "lstep ttl S (set_read c j None S)"
| Record: "lstep ttl S (S\<lparr>ls_tab := snd (write_progress j c d sv (ls_tab S))\<rparr>)"
| Renew: "owned_by j c (ls_tab S) \<Longrightarrow> n \<le> ls_clock S \<Longrightarrow>
    lstep ttl S (set_held c j (Some (n + ttl)) (S\<lparr>ls_tab := snd (renew_rows [j] c (n + ttl) (ls_tab S))\<rparr>))"
| Release: "lstep ttl S (set_held c j None (S\<lparr>ls_tab := delete_row j c (ls_tab S)\<rparr>))"
| Lost: "lstep ttl S (set_held c j None S)"

inductive_cases lstepE: "lstep ttl S T"

inductive lreach :: "int \<Rightarrow> lsys \<Rightarrow> lsys \<Rightarrow> bool" for ttl :: int and S\<^sub>0 :: lsys where
  init: "lreach ttl S\<^sub>0 S\<^sub>0"
| step: "lreach ttl S\<^sub>0 S \<Longrightarrow> lstep ttl S T \<Longrightarrow> lreach ttl S\<^sub>0 T"

text \<open>A lease that has not run out is in the table, and nobody reads the future.\<close>

definition lease_inv :: "lsys \<Rightarrow> bool" where
  "lease_inv S \<longleftrightarrow>
     (\<forall>c j u. ls_held S c j = Some u \<and> ls_clock S < u \<longrightarrow>
        (\<exists>r. ls_tab S j = Some r \<and> l_owner r = c \<and> l_until r = u)) \<and>
     (\<forall>c j r n. ls_read S c j = Some (r, n) \<longrightarrow> n \<le> ls_clock S)"

lemma lease_invD:
  "lease_inv S \<Longrightarrow> ls_held S c j = Some u \<Longrightarrow> ls_clock S < u \<Longrightarrow>
     \<exists>r. ls_tab S j = Some r \<and> l_owner r = c \<and> l_until r = u"
  "lease_inv S \<Longrightarrow> ls_read S c j = Some (r, n) \<Longrightarrow> n \<le> ls_clock S"
  unfolding lease_inv_def by blast+

lemma lease_invI:
  assumes "\<And>c j u. ls_held S c j = Some u \<Longrightarrow> ls_clock S < u \<Longrightarrow>
     \<exists>r. ls_tab S j = Some r \<and> l_owner r = c \<and> l_until r = u"
    and "\<And>c j r n. ls_read S c j = Some (r, n) \<Longrightarrow> n \<le> ls_clock S"
  shows "lease_inv S"
  using assms unfolding lease_inv_def by blast

definition lsys_init :: lsys where
  "lsys_init = \<lparr>ls_tab = (\<lambda>_. None), ls_clock = 0, ls_held = (\<lambda>_ _. None), ls_read = (\<lambda>_ _. None)\<rparr>"

lemma lease_inv_init: "lease_inv lsys_init"
  by (simp add: lease_inv_def lsys_init_def)

lemmas lease_updates = set_held_def set_read_def lease_inv_def

lemma lease_inv_takeover:
  assumes i: "lease_inv S" and r: "ls_read S c j = Some (Some r, n)"
    and free: "\<not> (l_owner r \<noteq> c \<and> n < l_until r)"
    and t: "take_over j c (n + ttl) (l_owner r) (l_until r) (ls_tab S) = (won, t)"
  shows "lease_inv (set_read c j None ((if won then set_held c j (Some (n + ttl)) S else S)\<lparr>ls_tab := t\<rparr>))"
proof -
  from i r have n: "n \<le> ls_clock S" by (rule lease_invD(2))
  show ?thesis
  proof (cases "\<exists>q. ls_tab S j = Some q \<and> l_owner q = l_owner r \<and> l_until q = l_until r")
    case False
    with t have "won = False" "t = ls_tab S" by (auto simp: take_over_def split: option.splits if_splits)
    with i show ?thesis by (simp add: lease_updates)
  next
    case True
    then obtain q where q: "ls_tab S j = Some q" "l_owner q = l_owner r" "l_until q = l_until r" by blast
    with t have t: "t = (ls_tab S)(j \<mapsto> q\<lparr>l_owner := c, l_until := n + ttl\<rparr>)"
      "won = (c \<noteq> l_owner r \<or> n + ttl \<noteq> l_until r)"
      by (auto simp: take_over_def)
    have other: "c' = c" if "ls_held S c' j = Some u" "ls_clock S < u" for c' u
    proof -
      from lease_invD(1)[OF i that] q(1) have "l_owner q = c'" "l_until q = u" by auto
      with free q(2,3) n that(2) show ?thesis by auto
    qed
    have own: "u = l_until q \<and> l_owner q = c" if "ls_held S c j = Some u" "ls_clock S < u" for u
      using lease_invD(1)[OF i that] q(1) by auto
    show ?thesis
    proof (rule lease_invI)
      fix d k u
      assume h: "ls_held (set_read c j None ((if won then set_held c j (Some (n + ttl)) S else S)\<lparr>ls_tab := t\<rparr>)) d k = Some u"
        "ls_clock (set_read c j None ((if won then set_held c j (Some (n + ttl)) S else S)\<lparr>ls_tab := t\<rparr>)) < u"
      then have clock: "ls_clock S < u" by (auto simp: set_read_def set_held_def split: if_splits)
      show "\<exists>r. ls_tab (set_read c j None ((if won then set_held c j (Some (n + ttl)) S else S)\<lparr>ls_tab := t\<rparr>)) k = Some r \<and>
          l_owner r = d \<and> l_until r = u"
      proof (cases "k = j")
        case False
        with h have "ls_held S d k = Some u" by (auto simp: set_read_def set_held_def split: if_splits)
        with lease_invD(1)[OF i this clock] False t(1) show ?thesis by (simp add: set_read_def)
      next
        case True
        show ?thesis
        proof (cases "won \<and> d = c")
          case True
          with h \<open>k = j\<close> t(1) show ?thesis by (simp add: set_read_def set_held_def)
        next
          case False
          with h(1) \<open>k = j\<close> have old: "ls_held S d j = Some u" by (auto simp: set_read_def set_held_def split: if_splits)
          from other[OF old clock] have "d = c" .
          with False own[of u] old clock t(2) q \<open>k = j\<close> t(1) show ?thesis by (auto simp: set_read_def)
        qed
      qed
    next
      fix d k r n'
      assume "ls_read (set_read c j None ((if won then set_held c j (Some (n + ttl)) S else S)\<lparr>ls_tab := t\<rparr>)) d k = Some (r, n')"
      then have "ls_read S d k = Some (r, n')" by (auto simp: set_read_def set_held_def split: if_splits)
      from lease_invD(2)[OF i this]
      show "n' \<le> ls_clock (set_read c j None ((if won then set_held c j (Some (n + ttl)) S else S)\<lparr>ls_tab := t\<rparr>))"
        by (simp add: set_read_def set_held_def)
    qed
  qed
qed

lemma lease_inv_step:
  assumes "lstep ttl S T" and i: "lease_inv S"
  shows "lease_inv T"
  using assms(1)
proof cases
  case (Insert c j n won t)
  show ?thesis
  proof (cases "ls_tab S j")
    case None
    with Insert have t: "won" "t = (ls_tab S)(j \<mapsto> \<lparr>l_owner = c, l_until = n + ttl, l_done = [], l_saved = no_saved\<rparr>)"
      by (simp_all add: insert_row_def)
    have no: "\<not> (ls_held S d j = Some u \<and> ls_clock S < u)" for d u
      using lease_invD(1)[OF i, of d j u] None by auto
    show ?thesis
      unfolding Insert(1)
      by (rule lease_invI; use t no lease_invD[OF i] in \<open>auto simp: set_held_def set_read_def split: if_splits\<close>)
  next
    case (Some r)
    with Insert have "\<not> won" "t = ls_tab S" by (simp_all add: insert_row_def)
    then show ?thesis
      unfolding Insert(1)
      by (intro lease_invI) (use lease_invD[OF i] in \<open>auto simp: set_held_def set_read_def split: if_splits\<close>)
  qed
next
  case (TakeOver c j r n won t)
  then show ?thesis using lease_inv_takeover[OF i] by blast
next
  case (Record j c d sv)
  have p: "\<exists>r'. snd (write_progress j c d sv (ls_tab S)) k = Some r' \<and> l_owner r' = l_owner r \<and> l_until r' = l_until r"
    if "ls_tab S k = Some r" for k r
    using that by (auto simp: write_progress_def split: option.splits if_splits)
  show ?thesis
    unfolding Record
  proof (rule lease_invI, goal_cases)
    case (1 c' k u)
    then have "ls_held S c' k = Some u" "ls_clock S < u" by simp_all
    from lease_invD(1)[OF i this] p[of k] show ?case by fastforce
  qed (use lease_invD(2)[OF i] in simp)
next
  case (Renew j c n)
  then obtain q where q: "ls_tab S j = Some q" "l_owner q = c" by (auto simp: owned_by_def split: option.splits)
  have other: "d = c" if "ls_held S d j = Some u" "ls_clock S < u" for d u
    using lease_invD(1)[OF i that] q by auto
  show ?thesis
    unfolding Renew(1)
    by (rule lease_invI) (use q other lease_invD[OF i] in \<open>auto simp: set_held_def split: if_splits\<close>)
next
  case (Release c j)
  have "ls_tab T k = ls_tab S k" if "ls_tab S k = Some r" "\<not> (k = j \<and> l_owner r = c)" for k r
    using that unfolding Release by (auto simp: set_held_def delete_row_def owned_by_def)
  moreover have "ls_held S d k = Some u \<and> \<not> (k = j \<and> d = c)" if "ls_held T d k = Some u" for d k u
    using that unfolding Release by (auto simp: set_held_def split: if_splits)
  moreover have "ls_clock T = ls_clock S" "ls_read T = ls_read S" unfolding Release by (simp_all add: set_held_def)
  ultimately show ?thesis
    by (intro lease_invI) (metis lease_invD[OF i])+
next
  case (Tick d)
  show ?thesis
    unfolding Tick(1)
    by (rule lease_invI) (use lease_invD[OF i] Tick(2) in force)+
next
  case (Select c j)
  show ?thesis
    unfolding Select
    by (rule lease_invI) (use lease_invD[OF i] in \<open>auto simp: set_read_def split: if_splits\<close>)
next
  case (GiveUp c j)
  show ?thesis
    unfolding GiveUp
    by (rule lease_invI) (use lease_invD[OF i] in \<open>auto simp: set_read_def split: if_splits\<close>)
next
  case (Lost c j)
  show ?thesis
    unfolding Lost
    by (rule lease_invI) (use lease_invD[OF i] in \<open>auto simp: set_held_def split: if_splits\<close>)
qed

lemma lease_inv_reach: "lreach ttl S\<^sub>0 S \<Longrightarrow> lease_inv S\<^sub>0 \<Longrightarrow> lease_inv S"
  by (induction rule: lreach.induct) (auto intro: lease_inv_step)

lemma lease_inv_exclusive:
  assumes "lease_inv S" "ls_held S c j = Some u" "ls_clock S < u" "ls_held S d j = Some v" "ls_clock S < v"
  shows "c = d"
proof -
  from lease_invD(1)[OF assms(1-3)] lease_invD(1)[OF assms(1,4,5)] show ?thesis by auto
qed

text \<open>A controller whose lease is live keeps the row against everybody else's steps.\<close>

lemma lease_kept:
  assumes "lstep ttl S T" "lease_inv S" "ls_held S c j = Some u" "ls_clock S < u" "ls_held T c j = Some u"
    "ls_clock T < u"
  shows "row_owner j (ls_tab T) = Some c"
  using lease_invD(1)[OF lease_inv_step[OF assms(1,2)] assms(5,6)] by (auto simp: row_owner_def)

section \<open>What the operations promise\<close>

lemma wp_claim:
  "wp (claim E j)
     (\<lambda>r t. case r of None \<Rightarrow> True | Some (d, sv) \<Rightarrow> owned_by j (cfg_owner E) (job_control t))
     (\<lambda>_ _. True) s"
  by (auto simp: claim_def wall_clock_def wp_simps Let_def owned_by_def insert_row_def take_over_def
      split: io_reply.splits option.splits)

lemma record_step_fenced:
  assumes "\<And>h t. x_controllers E h t = t" "\<not> owned_by j (cfg_owner E) (job_control s)" "\<And>h. x_db E h = IoOk"
  shows "record_step E j d sv s = (Inl (raised LeaseLost), s\<lparr>hist := EvDb # EvDb # hist s\<rparr>)"
  using assms by (simp add: record_step_def sql_def run Let_def write_progress_other)

end
