(* ===== verification/Nodeports.thy ===== *)
theory Nodeports
  imports K8s Lease
begin

text \<open>
  The allocation of NodePorts (\<open>lifecycle_steps/provision.py\<close>): the table
  \<open>nodeport_allocations\<close>, its reconciliation with the Services of the cluster, and the
  transactions that allocate and release the ports of a Pod.

  The table in the state is the committed one.  A statement first lets the other
  controllers change it (\<open>x_nodeports\<close>); \<open>SELECT ... FOR UPDATE\<close> locks it until the commit.
  Times are in milliseconds, the settings in seconds.
\<close>

section \<open>Statements\<close>

definition app_stmt :: "env \<Rightarrow> unit cmd" where
  "app_stmt E = io EvAppDb (x_app_db E) (\<lambda>s. s)"

definition app_select :: "env \<Rightarrow> (int \<Rightarrow> nodeport list \<Rightarrow> 'a) \<Rightarrow> 'a cmd" where
  "app_select E f = (\<lambda>s.
     let t = x_nodeports E (hist s) (nodeports s);
         s' = s\<lparr>nodeports := t, hist := EvAppDb # hist s\<rparr>
     in case x_app_db E (hist s) of
          IoOk \<Rightarrow> (Inr (f (x_wall E (hist s)) t), s') | IoFailed e \<Rightarrow> (Inl e, s') | IoLost e \<Rightarrow> (Inl e, s'))"

definition app_commit :: "env \<Rightarrow> (nodeport list \<Rightarrow> nodeport list) \<Rightarrow> unit cmd" where
  "app_commit E f = (\<lambda>s.
     let t = x_nodeports E (hist s) (nodeports s);
         s' = s\<lparr>nodeports := t, hist := EvAppDb # hist s\<rparr>
     in case x_app_db E (hist s) of
          IoOk \<Rightarrow> (Inr (), s'\<lparr>nodeports := f t\<rparr>)
        | IoFailed e \<Rightarrow> (Inl e, s')
        | IoLost e \<Rightarrow> (Inl e, s'\<lparr>nodeports := f t\<rparr>))"

text \<open>The commit of a transaction that holds the whole table locked.\<close>

definition commit_locked :: "env \<Rightarrow> nodeport list \<Rightarrow> unit cmd" where
  "commit_locked E t = io EvAppDb (x_app_db E) (\<lambda>s. s\<lparr>nodeports := t\<rparr>)"

definition rows_of :: "string \<Rightarrow> nodeport list \<Rightarrow> nodeport list" where
  "rows_of pod t = filter (\<lambda>r. np_pod r = pod) t"

definition without_pods :: "string list \<Rightarrow> nodeport list \<Rightarrow> nodeport list" where
  "without_pods pods t = filter (\<lambda>r. np_pod r \<notin> set pods) t"

section \<open>Reconciliation\<close>

text \<open>The Pods whose newest row is older than the grace.\<close>

definition past_grace :: "int \<Rightarrow> int \<Rightarrow> nodeport list \<Rightarrow> string list" where
  "past_grace grace clk t =
     filter (\<lambda>pod. \<forall>r\<in>set (rows_of pod t). np_created r < clk - 1000 * grace) (remdups (map np_pod t))"

definition stale_pods :: "int \<Rightarrow> service list \<Rightarrow> int \<Rightarrow> nodeport list \<Rightarrow> string list" where
  "stale_pods grace vs clk t = filter (\<lambda>pod. pod \<notin> svc_pod ` set vs) (past_grace grace clk t)"

text \<open>\<open>DELETE ... WHERE pod_name = \<dots>\<close> of every stale Pod, counting rows.\<close>

definition delete_stale :: "env \<Rightarrow> string list \<Rightarrow> nat cmd" where
  "delete_stale E stale =
     foldM (\<lambda>pod n. bnd (app_select E (\<lambda>_ t. length (rows_of pod t))) (\<lambda>k. ret (n + k))) stale 0"

definition reconcile_transaction :: "env \<Rightarrow> service list \<Rightarrow> nat cmd" where
  "reconcile_transaction E vs =
     tryE (bnd (app_select E (stale_pods (cfg_nodeport_grace E) vs)) (\<lambda>stale.
             if stale = [] then ret 0
             else bnd (delete_stale E stale) (\<lambda>n.
                  thn (app_commit E (without_pods stale)) (ret n))))
          (\<lambda>_. thn (app_stmt E) (ret 0))"

definition reconcile_nodeport_allocations :: "env \<Rightarrow> nat cmd" where
  "reconcile_nodeport_allocations E =
     bnd (wall_clock E) (\<lambda>now. bnd (getS last_reconcile) (\<lambda>last.
       if now - last < 1000 * cfg_reconcile_interval E then ret 0
       else bnd (wall_clock E) (\<lambda>now'.
         thn (modS (\<lambda>s. s\<lparr>last_reconcile := now'\<rparr>))
        (thn (load_k8s E)
        (bnd (attempt (services_call E (\<lambda>vs. Inr (vs, vs)))) (\<lambda>r. case r of
           Inl _ \<Rightarrow> ret 0
         | Inr vs \<Rightarrow> thn (app_stmt E) (reconcile_transaction E vs)))))))"

section \<open>Allocation and release\<close>

definition cluster_reserved_nodeports :: "env \<Rightarrow> int list cmd" where
  "cluster_reserved_nodeports E =
     thn (load_k8s E) (bnd (ext EvReserved (x_reserved E)) (\<lambda>ps. ret (filter (\<lambda>p. p \<noteq> 0) ps)))"

definition available_ports :: "env \<Rightarrow> int list \<Rightarrow> int list" where
  "available_ports E used = filter (\<lambda>p. p \<notin> set used) [cfg_nodeport_min E..cfg_nodeport_max E]"

text \<open>\<open>port.get("usage_purpose", "custom")\<close>.\<close>

definition purpose_of :: "string option \<Rightarrow> string" where
  "purpose_of p = (case p of None \<Rightarrow> ''custom'' | Some t \<Rightarrow> t)"

definition insert_port :: "env \<Rightarrow> string \<Rightarrow> string \<Rightarrow> string \<Rightarrow> int \<times> int \<times> string option
    \<Rightarrow> nodeport list \<times> port_info list \<Rightarrow> (nodeport list \<times> port_info list) cmd" where
  "insert_port E user pod node p acc = (case p of (np, internal, purpose) \<Rightarrow> (case acc of (t, out) \<Rightarrow>
     bnd (getS (\<lambda>s. x_wall E (hist s))) (\<lambda>now.
     thn (app_stmt E)
         (if np \<in> np_port ` set t then throw (raised DbError)
          else ret (t @ [\<lparr>np_port = np, np_pod = pod, np_user = user, np_node = node, np_internal = internal,
                          np_purpose = purpose_of purpose, np_created = now\<rparr>],
                    out @ [\<lparr>internal_port = internal, external_port = Some np,
                            usage_purpose = purpose_of purpose\<rparr>])))))"

definition allocate_transaction ::
  "env \<Rightarrow> string \<Rightarrow> string \<Rightarrow> string \<Rightarrow> (int \<times> string option) list \<Rightarrow> port_info list cmd" where
  "allocate_transaction E user pod node ports =
     bnd (app_select E (\<lambda>_ t. t)) (\<lambda>t.
     bnd (tryE (cluster_reserved_nodeports E) (\<lambda>_. ret [])) (\<lambda>reserved.
     let available = available_ports E (map np_port t @ reserved) in
       if length available < length ports then throw (raised ValueError)
       else bnd (foldM (insert_port E user pod node) (zip available ports) (t, [])) (\<lambda>(t', result).
            thn (commit_locked E t') (ret result))))"

definition allocate_nodeports ::
  "env \<Rightarrow> string \<Rightarrow> string \<Rightarrow> string \<Rightarrow> (int \<times> string option) list \<Rightarrow> port_info list cmd" where
  "allocate_nodeports E user pod node ports =
     bnd (reconcile_nodeport_allocations E) (\<lambda>_.
     thn (app_stmt E)
         (tryE (allocate_transaction E user pod node ports) (\<lambda>e. thn (app_stmt E) (throw e))))"

definition release_nodeports :: "env \<Rightarrow> string \<Rightarrow> unit cmd" where
  "release_nodeports E pod =
     thn (app_stmt E) (thn (app_stmt E) (app_commit E (without_pods [pod])))"

section \<open>What the statements keep\<close>

lemma wp_app_stmt [wp_simps]:
  "wp (app_stmt E) Q R = (\<lambda>s. case x_app_db E (hist s) of IoOk \<Rightarrow> Q () (s\<lparr>hist := EvAppDb # hist s\<rparr>)
     | IoFailed e \<Rightarrow> R e (s\<lparr>hist := EvAppDb # hist s\<rparr>) | IoLost e \<Rightarrow> R e (s\<lparr>hist := EvAppDb # hist s\<rparr>))"
  by (simp add: app_stmt_def wp_io)

lemma wp_app_select [wp_simps]:
  "wp (app_select E f) Q R = (\<lambda>s.
     let t = x_nodeports E (hist s) (nodeports s); s' = s\<lparr>nodeports := t, hist := EvAppDb # hist s\<rparr>
     in case x_app_db E (hist s) of IoOk \<Rightarrow> Q (f (x_wall E (hist s)) t) s' | IoFailed e \<Rightarrow> R e s' | IoLost e \<Rightarrow> R e s')"
  by (simp add: wp_def app_select_def Let_def fun_eq_iff split: io_reply.splits)

lemma wp_app_commit [wp_simps]:
  "wp (app_commit E f) Q R = (\<lambda>s.
     let t = x_nodeports E (hist s) (nodeports s); s' = s\<lparr>nodeports := t, hist := EvAppDb # hist s\<rparr>
     in case x_app_db E (hist s) of IoOk \<Rightarrow> Q () (s'\<lparr>nodeports := f t\<rparr>)
        | IoFailed e \<Rightarrow> R e s' | IoLost e \<Rightarrow> R e (s'\<lparr>nodeports := f t\<rparr>))"
  by (simp add: wp_def app_commit_def Let_def fun_eq_iff split: io_reply.splits)

lemma wp_commit_locked [wp_simps]:
  "wp (commit_locked E t) Q R = (\<lambda>s. case x_app_db E (hist s) of
       IoOk \<Rightarrow> Q () (s\<lparr>hist := EvAppDb # hist s, nodeports := t\<rparr>)
     | IoFailed e \<Rightarrow> R e (s\<lparr>hist := EvAppDb # hist s\<rparr>)
     | IoLost e \<Rightarrow> R e (s\<lparr>hist := EvAppDb # hist s, nodeports := t\<rparr>))"
  by (simp add: commit_locked_def wp_io fun_eq_iff split: io_reply.splits)

lemma wp_services_call [wp_simps]:
  "wp (services_call E f) Q R = (\<lambda>s.
     let v = x_cluster E (hist s) (services s); s' = s\<lparr>services := v, hist := EvServices # hist s\<rparr>
     in case x_k8s E (hist s) of
          IoFailed e \<Rightarrow> R e s'
        | IoOk \<Rightarrow> (case f v of Inl e \<Rightarrow> R e s' | Inr (a, w) \<Rightarrow> Q a (s'\<lparr>services := w\<rparr>))
        | IoLost e \<Rightarrow> (case f v of Inl _ \<Rightarrow> R e s' | Inr (a, w) \<Rightarrow> R e (s'\<lparr>services := w\<rparr>)))"
  by (simp add: wp_def services_call_def Let_def fun_eq_iff split: io_reply.splits sum.splits prod.splits)

text \<open>What every writer of the table keeps: two rows never have the same port, and every port is in
  the configured range.\<close>

definition ports_inv :: "env \<Rightarrow> nodeport list \<Rightarrow> bool" where
  "ports_inv E t \<longleftrightarrow> distinct (map np_port t) \<and>
     (\<forall>r\<in>set t. cfg_nodeport_min E \<le> np_port r \<and> np_port r \<le> cfg_nodeport_max E)"

text \<open>The other controllers keep it too, and only drop rows or add rows of their own.\<close>

definition rely_ports :: "env \<Rightarrow> bool" where
  "rely_ports E \<longleftrightarrow> (\<forall>h t. ports_inv E t \<longrightarrow> ports_inv E (x_nodeports E h t))"

lemma ports_inv_without: "ports_inv E t \<Longrightarrow> ports_inv E (without_pods pods t)"
  by (auto simp: ports_inv_def without_pods_def distinct_map inj_on_def)

lemma distinct_available: "distinct (available_ports E used)"
  by (simp add: available_ports_def)

lemma available_iff: "p \<in> set (available_ports E used) \<longleftrightarrow>
    cfg_nodeport_min E \<le> p \<and> p \<le> cfg_nodeport_max E \<and> p \<notin> set used"
  by (auto simp: available_ports_def)

text \<open>The port of each request, and the rows the transaction adds.\<close>

definition granted :: "(int \<times> int \<times> string option) list \<Rightarrow> port_info list" where
  "granted ps = map (\<lambda>(np, internal, purpose). \<lparr>internal_port = internal, external_port = Some np,
     usage_purpose = purpose_of purpose\<rparr>) ps"

definition row_for :: "string \<Rightarrow> string \<Rightarrow> string \<Rightarrow> nodeport \<Rightarrow> int \<times> int \<times> string option \<Rightarrow> bool" where
  "row_for user pod node r p \<longleftrightarrow> (case p of (np, internal, purpose) \<Rightarrow> np_port r = np \<and> np_pod r = pod \<and>
     np_user r = user \<and> np_node r = node \<and> np_internal r = internal \<and> np_purpose r = purpose_of purpose)"

text \<open>A transaction that has not committed: the table is the one of \<open>s\<close>.\<close>

definition same_table :: "st \<Rightarrow> st \<Rightarrow> bool" where
  "same_table s t \<longleftrightarrow> nodeports t = nodeports s"

lemma wp_insert_ports:
  assumes "distinct (map fst ps)" "\<forall>np\<in>set (map fst ps). np \<notin> np_port ` set t"
    and "\<And>rows u. same_table s u \<Longrightarrow> list_all2 (row_for user pod node) rows ps \<Longrightarrow>
       Q (t @ rows, out @ granted ps) u"
    and "\<And>e u. same_table s u \<Longrightarrow> R e u"
  shows "wp (foldM (insert_port E user pod node) ps (t, out)) Q R s"
  using assms
proof (induction ps arbitrary: t out s)
  case Nil
  then show ?case by (simp add: wp_simps granted_def same_table_def)
next
  case (Cons p ps)
  obtain np internal purpose where p: "p = (np, internal, purpose)" by (cases p)
  let ?row = "\<lambda>now. \<lparr>np_port = np, np_pod = pod, np_user = user, np_node = node, np_internal = internal,
                    np_purpose = purpose_of purpose, np_created = now\<rparr>"
  let ?out = "out @ [\<lparr>internal_port = internal, external_port = Some np, usage_purpose = purpose_of purpose\<rparr>]"
  have "wp (foldM (insert_port E user pod node) ps (t @ [?row now], ?out)) Q R u" if "same_table s u" for now u
  proof (rule Cons.IH)
    show "distinct (map fst ps)" using Cons.prems(1) by simp
    show "\<forall>np'\<in>set (map fst ps). np' \<notin> np_port ` set (t @ [?row now])"
      using Cons.prems(1,2) p by auto
    fix rows v
    assume v: "same_table u v" and r: "list_all2 (row_for user pod node) rows ps"
    have "list_all2 (row_for user pod node) (?row now # rows) (p # ps)"
      using r by (simp add: p row_for_def)
    from Cons.prems(3)[OF _ this, of v] v that
    show "Q ((t @ [?row now]) @ rows, ?out @ granted ps) v"
      by (simp add: same_table_def granted_def p)
  qed (use Cons.prems(4) that in \<open>simp add: same_table_def\<close>)
  with Cons.prems(2,4) p show ?case
    by (simp add: insert_port_def[of E user pod node "(np, internal, purpose)"] wp_simps same_table_def
        split: io_reply.splits)
qed

lemma wp_load_k8s [wp_simps]:
  "wp (load_k8s E) Q R = (\<lambda>s. case x_load_k8s E (hist s) of None \<Rightarrow> Q () (s\<lparr>hist := EvLoadK8s # hist s\<rparr>)
     | Some e \<Rightarrow> R e (s\<lparr>hist := EvLoadK8s # hist s\<rparr>))"
  by (simp add: load_k8s_def wp_ext fun_eq_iff split: option.splits)

text \<open>
  The transaction as a whole: it starts from some table \<open>t\<^sub>0\<close> the others left, and either commits
  the granted ports or leaves \<open>t\<^sub>0\<close>; when the commit's answer is lost it may have done either.
\<close>

definition granted_in :: "env \<Rightarrow> string \<Rightarrow> string \<Rightarrow> string \<Rightarrow> (int \<times> string option) list \<Rightarrow>
    nodeport list \<Rightarrow> nodeport list \<Rightarrow> port_info list \<Rightarrow> bool" where
  "granted_in E user pod node ports t\<^sub>0 t out \<longleftrightarrow>
     (\<exists>nps rows. length nps = length ports \<and> distinct nps \<and>
        (\<forall>np\<in>set nps. cfg_nodeport_min E \<le> np \<and> np \<le> cfg_nodeport_max E \<and> np \<notin> np_port ` set t\<^sub>0) \<and>
        out = granted (zip nps ports) \<and> t = t\<^sub>0 @ rows \<and> list_all2 (row_for user pod node) rows (zip nps ports))"

definition maybe_granted :: "env \<Rightarrow> string \<Rightarrow> string \<Rightarrow> string \<Rightarrow> (int \<times> string option) list \<Rightarrow>
    nodeport list \<Rightarrow> nodeport list \<Rightarrow> bool" where
  "maybe_granted E user pod node ports t\<^sub>0 t \<longleftrightarrow>
     t = t\<^sub>0 \<or> (\<exists>h e. x_app_db E h = IoLost e) \<and> (\<exists>out. granted_in E user pod node ports t\<^sub>0 t out)"

lemma granted_in_inv:
  assumes "granted_in E user pod node ports t\<^sub>0 t out" "ports_inv E t\<^sub>0"
  shows "ports_inv E t"
proof -
  from assms(1) obtain nps rows where n: "length nps = length ports" "distinct nps"
    "\<forall>np\<in>set nps. cfg_nodeport_min E \<le> np \<and> np \<le> cfg_nodeport_max E \<and> np \<notin> np_port ` set t\<^sub>0"
    "t = t\<^sub>0 @ rows" "list_all2 (row_for user pod node) rows (zip nps ports)"
    by (auto simp: granted_in_def)
  have "list_all2 (\<lambda>r p. np_port r = fst p) rows (zip nps ports)"
    using n(5) by (rule list_all2_mono) (auto simp: row_for_def)
  then have "map np_port rows = map fst (zip nps ports)"
    by (simp add: list_all2_conv_all_nth list_eq_iff_nth_eq)
  with n(1) have ports: "map np_port rows = nps" by simp
  have in_nps: "np_port r \<in> set nps" if "r \<in> set rows" for r
    using that unfolding ports[symmetric] by simp
  have new: "cfg_nodeport_min E \<le> np_port r" "np_port r \<le> cfg_nodeport_max E" "np_port r \<notin> np_port ` set t\<^sub>0"
    if "r \<in> set rows" for r
    using n(3) in_nps[OF that] by simp_all
  have "distinct (map np_port rows)" using n(2) ports by simp
  moreover have "np_port ` set t\<^sub>0 \<inter> np_port ` set rows = {}"
    unfolding disjoint_iff using new(3) by (metis imageE)
  ultimately have "distinct (map np_port t)"
    using assms(2) by (simp add: ports_inv_def n(4))
  moreover have "cfg_nodeport_min E \<le> np_port r \<and> np_port r \<le> cfg_nodeport_max E" if "r \<in> set t" for r
    using assms(2) that new(1,2)[of r] by (auto simp: ports_inv_def n(4))
  ultimately show ?thesis by (simp add: ports_inv_def)
qed

lemma zip_map_fst_zip: "length ys \<le> length xs \<Longrightarrow> zip (map fst (zip xs ys)) ys = zip xs ys"
  by (induction xs ys rule: list_induct2') auto

lemma zip_available:
  assumes "length ports \<le> length (available_ports E used)"
  shows "length (map fst (zip (available_ports E used) ports)) = length ports"
    "distinct (map fst (zip (available_ports E used) ports))"
    "zip (map fst (zip (available_ports E used) ports)) ports = zip (available_ports E used) ports"
    "p \<in> set (map fst (zip (available_ports E used) ports)) \<Longrightarrow>
       cfg_nodeport_min E \<le> p \<and> p \<le> cfg_nodeport_max E \<and> p \<notin> set used"
proof -
  have t: "map fst (zip (available_ports E used) ports) = take (length ports) (available_ports E used)"
    using assms by (simp add: map_fst_zip_take min_def)
  show "length (map fst (zip (available_ports E used) ports)) = length ports"
    using assms by simp
  show "distinct (map fst (zip (available_ports E used) ports))"
    unfolding t using distinct_available by (rule distinct_take)
  show "zip (map fst (zip (available_ports E used) ports)) ports = zip (available_ports E used) ports"
    using assms by (rule zip_map_fst_zip)
  show "cfg_nodeport_min E \<le> p \<and> p \<le> cfg_nodeport_max E \<and> p \<notin> set used"
    if "p \<in> set (map fst (zip (available_ports E used) ports))"
    using in_set_takeD[OF that[unfolded t]] unfolding available_iff .
qed

lemma wp_reserved:
  assumes "\<And>ps u. same_table s u \<Longrightarrow> Q ps u"
  shows "wp (tryE (cluster_reserved_nodeports E) (\<lambda>_. ret [])) Q R s"
  using assms
  by (simp add: cluster_reserved_nodeports_def wp_simps same_table_def split: option.splits sum.splits)

lemma wp_allocate_transaction:
  "wp (allocate_transaction E user pod node ports)
     (\<lambda>out u. granted_in E user pod node ports (x_nodeports E (hist s) (nodeports s)) (nodeports u) out)
     (\<lambda>e u. maybe_granted E user pod node ports (x_nodeports E (hist s) (nodeports s)) (nodeports u)) s"
proof -
  let ?t = "x_nodeports E (hist s) (nodeports s)"
  let ?s = "s\<lparr>nodeports := ?t, hist := EvAppDb # hist s\<rparr>"
  have rest: "wp (tryE (cluster_reserved_nodeports E) (\<lambda>_. ret []))
      (\<lambda>reserved. wp (let available = available_ports E (map np_port ?t @ reserved) in
         if length available < length ports then throw (raised ValueError)
         else bnd (foldM (insert_port E user pod node) (zip available ports) (?t, [])) (\<lambda>(t', result).
            thn (commit_locked E t') (ret result)))
       (\<lambda>out u. granted_in E user pod node ports ?t (nodeports u) out)
       (\<lambda>e u. maybe_granted E user pod node ports ?t (nodeports u)))
     (\<lambda>e u. maybe_granted E user pod node ports ?t (nodeports u)) ?s"
  proof (rule wp_reserved)
    fix reserved u
    assume u: "same_table ?s u"
    let ?a = "available_ports E (map np_port ?t @ reserved)"
    show "wp (let available = ?a in
         if length available < length ports then throw (raised ValueError)
         else bnd (foldM (insert_port E user pod node) (zip available ports) (?t, [])) (\<lambda>(t', result).
            thn (commit_locked E t') (ret result)))
       (\<lambda>out u. granted_in E user pod node ports ?t (nodeports u) out)
       (\<lambda>e u. maybe_granted E user pod node ports ?t (nodeports u)) u"
    proof (cases "length ?a < length ports")
      case True
      with u show ?thesis by (simp add: wp_simps Let_def same_table_def maybe_granted_def)
    next
      case False
      then have l: "length ports \<le> length ?a" by simp
      note z = zip_available[OF l]
      have "wp (foldM (insert_port E user pod node) (zip ?a ports) (?t, []))
        (\<lambda>p. wp (case p of (t', result) \<Rightarrow> thn (commit_locked E t') (ret result))
           (\<lambda>out u. granted_in E user pod node ports ?t (nodeports u) out)
           (\<lambda>e u. maybe_granted E user pod node ports ?t (nodeports u)))
        (\<lambda>e u. maybe_granted E user pod node ports ?t (nodeports u)) u"
      proof (rule wp_insert_ports)
        show "distinct (map fst (zip ?a ports))" by (rule z(2))
        show "\<forall>np\<in>set (map fst (zip ?a ports)). np \<notin> np_port ` set ?t" using z(4) by auto
        fix rows v
        assume v: "same_table u v" and r: "list_all2 (row_for user pod node) rows (zip ?a ports)"
        have g: "granted_in E user pod node ports ?t (?t @ rows) (granted (zip ?a ports))"
          unfolding granted_in_def
          by (intro exI[of _ "map fst (zip ?a ports)"] exI[of _ rows])
            (use z r in \<open>auto simp: z(3)\<close>)
        show "wp (case (?t @ rows, [] @ granted (zip ?a ports)) of (t', result) \<Rightarrow> thn (commit_locked E t') (ret result))
           (\<lambda>out u. granted_in E user pod node ports ?t (nodeports u) out)
           (\<lambda>e u. maybe_granted E user pod node ports ?t (nodeports u)) v"
          using g v u by (auto simp: wp_simps same_table_def maybe_granted_def split: io_reply.splits)
      qed (use u in \<open>simp add: same_table_def maybe_granted_def\<close>)
      with l show ?thesis by (simp add: Let_def wp_bnd)
    qed
  qed
  have same: "maybe_granted E user pod node ports ?t ?t" by (simp add: maybe_granted_def)
  show ?thesis
    unfolding allocate_transaction_def wp_bnd[of "app_select E (\<lambda>_ t. t)"] wp_app_select Let_def[of ?t] Let_def[of ?s]
    by (cases "x_app_db E (hist s)") (simp_all add: same, subst wp_bnd, rule rest)
qed

end
