(* ===== verification/Reconcile.thy ===== *)
theory Reconcile
  imports Nodeports
begin

text \<open>
  The reconciliation (\<open>reconcile_krb5.py\<close>): the node cleanups that failed, the keytabs nobody should
  have, the group lists the NAS keeps in its GSS contexts, and the names of the shared groups on the
  farm nodes.  It runs every half hour; two parts are also started right after a group changed, as
  background threads, behind a lock in Redis (\<open>adapters/nas_gss_flush_lock.py\<close>).
\<close>

section \<open>Cleanups that failed\<close>

text \<open>A statement on \<open>krb5_cleanup_pending\<close>: what others did shows first.\<close>

definition pending_stmt ::
  "env \<Rightarrow> ((string \<times> string) list \<Rightarrow> 'a \<times> (string \<times> string) list) \<Rightarrow> 'a cmd" where
  "pending_stmt E f = (\<lambda>s.
     let p = x_pending E (hist s) (krb5_pending s);
         s' = s\<lparr>krb5_pending := p, hist := EvDb # hist s\<rparr>
     in case x_db E (hist s) of
          IoOk \<Rightarrow> (Inr (fst (f p)), s'\<lparr>krb5_pending := snd (f p)\<rparr>)
        | IoFailed e \<Rightarrow> (Inl e, s')
        | IoLost e \<Rightarrow> (Inl e, s'\<lparr>krb5_pending := snd (f p)\<rparr>))"

definition read_pending :: "env \<Rightarrow> (string \<times> string) list cmd" where
  "read_pending E = pending_stmt E (\<lambda>p. (p, p))"

text \<open>\<open>DELETE\<close> of one row: who deletes it has the reservation.\<close>

definition claim_pending :: "env \<Rightarrow> string \<Rightarrow> string \<Rightarrow> bool cmd" where
  "claim_pending E user node = pending_stmt E (\<lambda>p. ((user, node) \<in> set p, removeAll (user, node) p))"

definition expected_krb5_usernames :: "env \<Rightarrow> string \<Rightarrow> string list cmd" where
  "expected_krb5_usernames E node =
     app_select E (\<lambda>_ t. remdups (map np_user (filter (\<lambda>r. np_node r = node) t)))"

text \<open>One reservation.  A keytab in use stays, and what cannot be told is left for the next time.\<close>

definition settle_pending :: "env \<Rightarrow> string \<Rightarrow> string \<Rightarrow> unit cmd" where
  "settle_pending E user node =
     bnd (claim_pending E user node) (\<lambda>claimed.
       if \<not> claimed then ret ()
       else bnd (attempt (expected_krb5_usernames E node)) (\<lambda>r. case r of
         Inl e \<Rightarrow> record_krb5_cleanup_pending E user node
       | Inr used \<Rightarrow>
           if user \<in> set used then ret ()
           else tryE (remove_krb5_from_farm E user node) (\<lambda>_. record_krb5_cleanup_pending E user node)))"

definition reconcile_krb5_cleanup_pending :: "env \<Rightarrow> unit cmd" where
  "reconcile_krb5_cleanup_pending E =
     bnd (read_pending E) (\<lambda>rows. forM rows (\<lambda>(user, node). settle_pending E user node))"

text \<open>The keytabs without a port: only reported.\<close>

definition orphans_of_node :: "env \<Rightarrow> string \<Rightarrow> (string \<times> string) list \<Rightarrow> (string \<times> string) list cmd" where
  "orphans_of_node E node found =
     bnd (attempt (bnd (get_farm_node_info E node) (\<lambda>n. farm_ssh E n ''list''))) (\<lambda>r. case r of
       Inl e \<Rightarrow> ret found
     | Inr out \<Rightarrow> bnd (expected_krb5_usernames E node) (\<lambda>used.
         ret (found @ map (\<lambda>u. (u, node))
           (filter (\<lambda>u. u \<notin> set used) (remdups (filter (\<lambda>u. u \<noteq> []) (splitlines out)))))))"

definition reconcile_krb5_orphans :: "env \<Rightarrow> (string \<times> string) list cmd" where
  "reconcile_krb5_orphans E = foldM (orphans_of_node E) (cfg_farm_nodes E) []"

section \<open>The shared groups of the ledger\<close>

definition in_shared_band :: "env \<Rightarrow> int \<Rightarrow> bool" where
  "in_shared_band E g \<longleftrightarrow> cfg_shared_gid_min E \<le> g \<and> (case cfg_shared_gid_max E of None \<Rightarrow> True | Some m \<Rightarrow> g \<le> m)"

definition shared_groups :: "env \<Rightarrow> string list \<Rightarrow> group_entry list" where
  "shared_groups E ls = filter (\<lambda>g. in_shared_band E (gr_gid g)) (entries parse_group_line ls)"

definition ledger_shared_gids :: "env \<Rightarrow> int list cmd" where
  "ledger_shared_gids E = bnd (read_group_lines E) (\<lambda>ls. ret (map gr_gid (shared_groups E ls)))"

definition shared_gids_of :: "string \<Rightarrow> group_entry list \<Rightarrow> int list" where
  "shared_gids_of user gs = map gr_gid (filter (\<lambda>g. user \<in> set (gr_members g)) gs)"

text \<open>Every account of the ledger and every member of a shared group, with its shared groups.\<close>

definition ledger_shared_gids_by_user :: "env \<Rightarrow> (string \<times> int list) list cmd" where
  "ledger_shared_gids_by_user E =
     bnd (read_passwd_lines E) (\<lambda>ps. bnd (read_group_lines E) (\<lambda>ls.
       let gs = shared_groups E ls in
       ret (map (\<lambda>u. (u, shared_gids_of u gs))
              (remdups (map pw_name (entries parse_passwd_line ps) @ concat (map gr_members gs))))))"

definition ledger_shared_group_names :: "env \<Rightarrow> string list cmd" where
  "ledger_shared_group_names E =
     bnd (read_group_lines E) (\<lambda>ls. ret (sort (remdups (map gr_name (shared_groups E ls)))))"

section \<open>The GSS contexts of the NAS\<close>

text \<open>What a user has according to the NAS; the last line of a name counts.\<close>

definition nas_gids :: "(string \<times> int list) list \<Rightarrow> string \<Rightarrow> int list option" where
  "nas_gids reply user = map_of (rev reply) user"

text \<open>The NAS is behind the ledger for this user.\<close>

definition stale_user :: "(string \<times> int list) list \<Rightarrow> int list \<Rightarrow> string \<times> int list \<Rightarrow> bool" where
  "stale_user reply known w = (case w of (user, gids) \<Rightarrow> (case nas_gids reply user of
     None \<Rightarrow> gids \<noteq> []
   | Some got \<Rightarrow> set got \<inter> set known \<noteq> set gids))"

definition flushed_for :: "env \<Rightarrow> int cmd" where
  "flushed_for E = tryE (rd EvFile (x_file E) (\<lambda>s. case gss_state s of None \<Rightarrow> 0 | Some m \<Rightarrow> m)) (\<lambda>_. ret 0)"

definition write_gss_state :: "env \<Rightarrow> int \<Rightarrow> unit cmd" where
  "write_gss_state E m = io EvFile (x_file E) (\<lambda>s. s\<lparr>gss_state := Some m\<rparr>)"

text \<open>The look-ups and the decision, once the group file is newer than the last flush.\<close>

definition flush_if_agreed :: "env \<Rightarrow> int \<Rightarrow> bool cmd" where
  "flush_if_agreed E mtime =
     bnd (ledger_shared_gids_by_user E) (\<lambda>wanted.
     bnd (ledger_shared_gids E) (\<lambda>known.
     bnd (attempt (nas_shared_gids_for_users E (map fst wanted) (cfg_shared_gid_min E) (cfg_shared_gid_max E)))
       (\<lambda>r. case r of
         Inl e \<Rightarrow> ret False
       | Inr reply \<Rightarrow>
           if list_ex (stale_user reply known) wanted then ret False
           else bnd (attempt (nas_flush_gss_cache E)) (\<lambda>f. case f of
             Inl e \<Rightarrow> ret False
           | Inr _ \<Rightarrow> thn (write_gss_state E mtime) (ret True)))))"

definition reconcile_nas_gss_cache :: "env \<Rightarrow> bool cmd" where
  "reconcile_nas_gss_cache E =
     bnd (ext EvMtime (\<lambda>h. Inr (x_mtime E h))) (\<lambda>m. case m of
       None \<Rightarrow> ret False
     | Some mtime \<Rightarrow> bnd (flushed_for E) (\<lambda>old.
         if mtime \<le> old then ret False else flush_if_agreed E mtime))"

section \<open>The lock of the background loops\<close>

definition flush_lock_call :: "env \<Rightarrow> (string option \<Rightarrow> 'a \<times> string option) \<Rightarrow> 'a cmd" where
  "flush_lock_call E f = (\<lambda>s.
     let l = x_flush_lock E (hist s) (flush_lock s);
         s' = s\<lparr>flush_lock := l, hist := EvFlushLock # hist s\<rparr>
     in case x_redis E (hist s) of
          IoOk \<Rightarrow> (Inr (fst (f l)), s'\<lparr>flush_lock := snd (f l)\<rparr>)
        | IoFailed e \<Rightarrow> (Inl e, s')
        | IoLost e \<Rightarrow> (Inl e, s'\<lparr>flush_lock := snd (f l)\<rparr>))"

text \<open>\<open>SET ... NX EX\<close> with a fresh token.  The lock may also go by its time to live.\<close>

definition try_acquire_flush_lock :: "env \<Rightarrow> string option cmd" where
  "try_acquire_flush_lock E =
     bnd (ext EvUuid (\<lambda>h. Inr (x_uuid E h))) (\<lambda>token.
       flush_lock_call E (\<lambda>l. if l = None then (Some token, Some token) else (None, l)))"

definition release_flush_lock :: "env \<Rightarrow> string \<Rightarrow> unit cmd" where
  "release_flush_lock E token =
     tryE (flush_lock_call E (\<lambda>l. ((), if l = Some token then None else l))) (\<lambda>_. ret ())"

definition ondemand_poll :: int where
  "ondemand_poll = 20"

definition ondemand_timeout :: int where
  "ondemand_timeout = 600"

fun flush_loop :: "env \<Rightarrow> int \<Rightarrow> nat \<Rightarrow> unit cmd" where
  "flush_loop E deadline 0 = throw (raised OutOfFuel)"
| "flush_loop E deadline (Suc n) =
     bnd (now E) (\<lambda>t.
       if deadline \<le> t then ret ()
       else bnd (tryE (reconcile_nas_gss_cache E) (\<lambda>_. ret False)) (\<lambda>ok.
         if ok then ret () else thn (sleep ondemand_poll) (flush_loop E deadline n)))"

definition nas_gss_flush_retry_loop :: "env \<Rightarrow> string \<Rightarrow> unit cmd" where
  "nas_gss_flush_retry_loop E token =
     bnd (now E) (\<lambda>t. finallyE (flush_loop E (t + ondemand_timeout) (cfg_fuel E)) (release_flush_lock E token))"

text \<open>The start of a thread; what the thread does is an operation of its own.\<close>

definition start_thread :: "env \<Rightarrow> string \<Rightarrow> unit cmd" where
  "start_thread E what = ext (EvThread what) (\<lambda>h. case x_thread E h of None \<Rightarrow> Inr () | Some e \<Rightarrow> Inl e)"

definition trigger_nas_gss_flush_ondemand :: "env \<Rightarrow> bool cmd" where
  "trigger_nas_gss_flush_ondemand E =
     bnd (try_acquire_flush_lock E) (\<lambda>got. case got of
       None \<Rightarrow> ret False
     | Some token \<Rightarrow>
         thn (tryE (start_thread E ''nas-gss-flush'') (\<lambda>e. thn (release_flush_lock E token) (throw e)))
             (ret True))"

section \<open>The group names of the farm nodes\<close>

text \<open>A command with standard input.\<close>

definition farm_ssh_input :: "env \<Rightarrow> string \<Rightarrow> string \<Rightarrow> string \<Rightarrow> string cmd" where
  "farm_ssh_input E node c input = farm_ssh E node (c @ NL # input)"

definition sync_idmap_groups :: "env \<Rightarrow> string list \<Rightarrow> unit cmd" where
  "sync_idmap_groups E names = (let valid = sort (remdups (filter valid_username names)) in
     if valid = [] then ret ()
     else forM (cfg_farm_nodes E) (\<lambda>node.
       bnd (attempt (farm_ssh_input E node ''idmap-group-sync'' (join [NL] valid @ [NL]))) (\<lambda>_. ret ())))"

definition reconcile_idmap_groups :: "env \<Rightarrow> unit cmd" where
  "reconcile_idmap_groups E =
     (if \<not> ad_enabled E then ret () else bnd (ledger_shared_group_names E) (sync_idmap_groups E))"

definition trigger_idmap_sync_ondemand :: "env \<Rightarrow> string list \<Rightarrow> bool cmd" where
  "trigger_idmap_sync_ondemand E names =
     (if remdups names = [] \<or> cfg_farm_nodes E = [] then ret False
      else thn (start_thread E (''idmap-group-sync '' @ words (sort (remdups names)))) (ret True))"

text \<open>The job of the half hour.\<close>

definition reconcile_all :: "env \<Rightarrow> unit cmd" where
  "reconcile_all E =
     thn (reconcile_krb5_cleanup_pending E)
    (bnd (reconcile_krb5_orphans E) (\<lambda>_.
     bnd (reconcile_nas_gss_cache E) (\<lambda>_.
     reconcile_idmap_groups E)))"

end
