(* ===== verification/Shared_Groups.thy ===== *)
theory Shared_Groups
  imports Reconcile
begin

text \<open>
  The jobs on shared groups (\<open>lifecycle_steps/group.py\<close>): making a group, and putting a user into
  groups or taking one out.  The AD controllers decide what the NAS grants, so they are asked first;
  the \<open>group\<close> file and the running Pods follow.
\<close>

section \<open>The checks of the input\<close>

text \<open>\<open>{r["name"]: r for ...}.get(n)\<close>: the last one of a name counts.\<close>

definition last_named :: "('r \<Rightarrow> string) \<Rightarrow> string \<Rightarrow> 'r list \<Rightarrow> 'r option" where
  "last_named name n rs = map_of (rev (map (\<lambda>r. (name r, r)) rs)) n"

definition ledger_users :: "env \<Rightarrow> passwd_entry list cmd" where
  "ledger_users E = bnd (read_passwd_lines E) (\<lambda>ls. ret (entries parse_passwd_line ls))"

definition ledger_groups :: "env \<Rightarrow> group_entry list cmd" where
  "ledger_groups E = bnd (read_group_lines E) (\<lambda>ls. ret (entries parse_group_line ls))"

definition reserved_group_names :: "string list" where
  "reserved_group_names = [''_ssh'', ''adm'', ''audio'', ''backup'', ''bin'', ''cdrom'', ''crontab'', ''daemon'',
     ''dialout'', ''dip'', ''disk'', ''docker'', ''fax'', ''floppy'', ''games'', ''gnats'', ''input'', ''irc'',
     ''kmem'', ''kvm'', ''list'', ''lp'', ''mail'', ''man'', ''messagebus'', ''news'', ''nogroup'', ''nova'',
     ''operator'', ''plugdev'', ''polkitd'', ''proxy'', ''render'', ''root'', ''sasl'', ''shadow'', ''src'',
     ''ssh'', ''ssl-cert'', ''staff'', ''sudo'', ''svmanager'', ''sys'', ''systemd-journal'',
     ''systemd-network'', ''systemd-resolve'', ''systemd-timesync'', ''tape'', ''tty'', ''users'', ''utmp'',
     ''uucp'', ''video'', ''voice'', ''www-data'']"

definition no_retry :: "string \<Rightarrow> string \<Rightarrow> int \<Rightarrow> exn" where
  "no_retry st err status = step_failed (Some st) err status None False None"

definition refuse :: "string \<Rightarrow> string \<Rightarrow> int \<Rightarrow> 'a cmd" where
  "refuse st err status = throw (infra_failed st err status None)"

definition check_create :: "env \<Rightarrow> string \<Rightarrow> int option \<Rightarrow> string list \<Rightarrow> unit cmd" where
  "check_create E name gid members =
     bnd (ledger_users E) (\<lambda>users.
       if name \<in> pw_name ` set users then refuse ''ADD_GROUP'' ''GROUP_NAME_CONFLICTS_USER'' 400
       else if name \<in> set reserved_group_names then refuse ''ADD_GROUP'' ''GROUP_NAME_RESERVED'' 409
       else if list_ex (\<lambda>m. m \<notin> pw_name ` set users) members then refuse ''ADD_GROUP'' ''INVALID_GROUP_MEMBER'' 400
       else if (case gid of None \<Rightarrow> False | Some g \<Rightarrow> \<not> in_shared_band E g)
       then refuse ''ADD_GROUP'' ''GID_OUT_OF_RANGE'' 400
       else ret ())"

definition check_add :: "env \<Rightarrow> string \<Rightarrow> string list \<Rightarrow> unit cmd" where
  "check_add E user groups =
     bnd (ledger_users E) (\<lambda>users.
       if user \<notin> pw_name ` set users then refuse ''ADD_USER_GROUPS'' ''USER_NOT_FOUND'' 404
       else bnd (ledger_groups E) (\<lambda>known.
         if list_ex (\<lambda>g. g \<notin> gr_name ` set known) groups then refuse ''ADD_USER_GROUPS'' ''GROUP_NOT_FOUND'' 404
         else ret ()))"

definition check_remove :: "env \<Rightarrow> string \<Rightarrow> string \<Rightarrow> unit cmd" where
  "check_remove E user name =
     bnd (ledger_groups E) (\<lambda>groups. case last_named gr_name name groups of
       None \<Rightarrow> refuse ''REMOVE_USER_GROUP'' ''GROUP_NOT_FOUND'' 404
     | Some g \<Rightarrow> bnd (ledger_users E) (\<lambda>users.
         if (case last_named pw_name user users of None \<Rightarrow> False | Some u \<Rightarrow> pw_gid u = gr_gid g)
         then refuse ''REMOVE_USER_GROUP'' ''PRIMARY_GROUP'' 409 else ret ()))"

section \<open>A group line\<close>

definition id_record_failed :: "exn \<Rightarrow> exn" where
  "id_record_failed e = infra_failed ''ADD_GROUP'' ''ISSUED_ID_RECORD_FAILED'' 500 (Some e)"

definition issue_shared_gid :: "env \<Rightarrow> string list \<Rightarrow> int cmd" where
  "issue_shared_gid E ls =
     bnd (tryE (read_issued_id_max E SharedGidKind) (\<lambda>e. throw (id_record_failed e))) (\<lambda>issued.
       let gid = allocate_next_gid ls (cfg_shared_gid_min E) issued in
       if (case cfg_shared_gid_max E of None \<Rightarrow> False | Some m \<Rightarrow> m < gid)
       then throw (no_retry ''ADD_GROUP'' ''GID_RANGE_EXHAUSTED'' 500) else ret gid)"

definition record_shared_gid :: "env \<Rightarrow> int \<Rightarrow> unit cmd" where
  "record_shared_gid E gid = tryE (record_issued_id E SharedGidKind gid) (\<lambda>e. throw (id_record_failed e))"

definition group_file_lines :: "env \<Rightarrow> string list cmd" where
  "group_file_lines E = rd EvFile (x_file E) (\<lambda>s. splitlines (group_file (led s)))"

definition write_group_file :: "env \<Rightarrow> string list \<Rightarrow> unit cmd" where
  "write_group_file E ls = replace_file E GroupF (join [NL] ls @ [NL])"

definition shared_group_locked :: "env \<Rightarrow> string \<Rightarrow> int cmd" where
  "shared_group_locked E name =
     bnd (group_file_lines E) (\<lambda>ls. case find_named parse_group_line gr_name name ls of
       Some r \<Rightarrow> if in_shared_band E (gr_gid r) then ret (gr_gid r)
                 else throw (no_retry ''ADD_GROUP'' ''GROUP_NAME_EXISTS'' 409)
     | None \<Rightarrow>
         bnd (issue_shared_gid E ls) (\<lambda>gid.
         thn (record_shared_gid E gid)
        (bnd (liftE (format_group_entry (new_group_entry name gid []))) (\<lambda>l.
         thn (write_group_file E (ls @ [l])) (ret gid)))))"

definition shared_group_gid :: "env \<Rightarrow> string \<Rightarrow> int cmd" where
  "shared_group_gid E name = thn (ensure_etc_layout E) (ledger_lock E (shared_group_locked E name))"

text \<open>The gid of the line to write: of the line that is there, a new one, or the wanted one if it is free.\<close>

definition gid_of_line :: "env \<Rightarrow> group_entry option \<Rightarrow> int option \<Rightarrow> string list \<Rightarrow> string list \<Rightarrow> int cmd" where
  "gid_of_line E old gid members ls = (case old of
     Some r \<Rightarrow>
       if (case gid of None \<Rightarrow> False | Some g \<Rightarrow> gr_gid r \<noteq> g) \<or> \<not> set (gr_members r) \<subseteq> set members
       then refuse ''ADD_GROUP'' ''GROUP_NAME_EXISTS'' 409 else ret (gr_gid r)
   | None \<Rightarrow> (case gid of
       None \<Rightarrow> issue_shared_gid E ls
     | Some g \<Rightarrow> if has_gid g ls then refuse ''ADD_GROUP'' ''GROUP_GID_EXISTS'' 409 else ret g))"

definition put_line :: "string \<Rightarrow> string \<Rightarrow> string \<Rightarrow> string" where
  "put_line name entry line = (case parse_group_line line of
     None \<Rightarrow> line | Some r \<Rightarrow> if gr_name r = name then entry else line)"

definition write_group_locked :: "env \<Rightarrow> string \<Rightarrow> int option \<Rightarrow> string list \<Rightarrow> int cmd" where
  "write_group_locked E name gid members =
     bnd (group_file_lines E) (\<lambda>ls. let old = find_named parse_group_line gr_name name ls in
     bnd (gid_of_line E old gid members ls) (\<lambda>g.
     thn (whenE (old = None) (record_shared_gid E g))
    (bnd (liftE (format_group_entry (new_group_entry name g (sort members)))) (\<lambda>entry.
     thn (write_group_file E (map (put_line name entry) ls @ (if old = None then [entry] else [])))
         (ret g)))))"

definition write_group_line :: "env \<Rightarrow> string \<Rightarrow> int option \<Rightarrow> string list \<Rightarrow> int cmd" where
  "write_group_line E name gid members =
     thn (ensure_etc_layout E) (ledger_lock E (write_group_locked E name gid members))"

section \<open>The members of a group\<close>

definition changed_members :: "bool \<Rightarrow> string \<Rightarrow> string list \<Rightarrow> string list" where
  "changed_members member user current =
     (if member then sort (remdups (user # current)) else filter (\<lambda>m. m \<noteq> user) current)"

text \<open>One line, and whether it changed.\<close>

definition member_line :: "bool \<Rightarrow> string list \<Rightarrow> string \<Rightarrow> string \<Rightarrow> exn + (string \<times> bool)" where
  "member_line member names user gl = (case parse_group_line gl of
     None \<Rightarrow> Inr (gl, False)
   | Some r \<Rightarrow>
       let wanted = changed_members member user (gr_members r) in
       if gr_name r \<in> set names \<and> wanted \<noteq> gr_members r
       then bindE (format_group_entry (r\<lparr>gr_members := wanted\<rparr>)) (\<lambda>l. Inr (l, True))
       else Inr (gl, False))"

definition set_membership_locked :: "env \<Rightarrow> string list \<Rightarrow> string \<Rightarrow> bool \<Rightarrow> unit cmd" where
  "set_membership_locked E names user member =
     bnd (read_group_lines E) (\<lambda>ls.
     bnd (liftE (mapE (member_line member names user) ls)) (\<lambda>out.
     whenE (list_ex snd out) (write_group_lines E (map fst out))))"

definition set_group_membership :: "env \<Rightarrow> string list \<Rightarrow> string \<Rightarrow> bool \<Rightarrow> unit cmd" where
  "set_group_membership E names user member = ledger_lock E (set_membership_locked E names user member)"

section \<open>Side effects that may fail\<close>

definition flush_nas_group_cache :: "env \<Rightarrow> unit cmd" where
  "flush_nas_group_cache E =
     (if \<not> ad_enabled E then ret ()
      else tryE (bnd (trigger_nas_gss_flush_ondemand E) (\<lambda>_. ret ())) (\<lambda>_. ret ()))"

definition register_idmap_groups :: "env \<Rightarrow> string list \<Rightarrow> unit cmd" where
  "register_idmap_groups E names =
     (if names = [] \<or> \<not> ad_enabled E then ret ()
      else tryE (bnd (trigger_idmap_sync_ondemand E names) (\<lambda>_. ret ())) (\<lambda>_. ret ()))"

definition step_trigger_nas_gss_flush :: "env \<Rightarrow> unit cmd" where
  "step_trigger_nas_gss_flush E =
     bnd (getC c_supp_groups) (\<lambda>sgs. if sgs = [] then ret () else flush_nas_group_cache E)"

section \<open>The steps\<close>

definition resolve_group :: "env \<Rightarrow> supp_group \<Rightarrow> supp_group list \<Rightarrow> supp_group list cmd" where
  "resolve_group E sg resolved = (case sg_gid sg of
     Some g \<Rightarrow> ret (resolved @ [sg])
   | None \<Rightarrow>
       thn (check_create E (sg_name sg) None [])
      (bnd (shared_group_gid E (sg_name sg)) (\<lambda>g. ret (resolved @ [sg\<lparr>sg_gid := Some g\<rparr>]))))"

fun new_group_code :: "exn \<Rightarrow> string" where
  "new_group_code (StepFailed f c) = take 64 (if f_error f = [] then ''NEW_GROUP_FAILED'' else f_error f)"
| "new_group_code _ = ''NEW_GROUP_FAILED''"

definition step_resolve_new_groups :: "env \<Rightarrow> unit cmd" where
  "step_resolve_new_groups E =
     bnd (getC c_supp_groups) (\<lambda>sgs.
       if list_all (\<lambda>sg. sg_gid sg \<noteq> None) sgs then ret ()
       else bnd (getC (\<lambda>c. text_or (c_name c) (c_username c))) (\<lambda>user. bnd (getC c_request) (\<lambda>req.
         thn (log_step E req user ''new_groups'' CREATE_ACCOUNT START None)
        (bnd (tryE (foldM (resolve_group E) sgs [])
                (\<lambda>e. thn (log_step E req user ''new_groups'' CREATE_ACCOUNT (fail_phase e) (Some (new_group_code e)))
                         (throw e))) (\<lambda>resolved.
         thn (modC (\<lambda>c. c\<lparr>c_supp_groups := resolved\<rparr>))
        (thn (register_idmap_groups E (map sg_name (filter (\<lambda>sg. sg_gid sg = None) sgs)))
             (log_step E req user ''new_groups'' CREATE_ACCOUNT SUCCESS None)))))))"

definition step_group_create :: "env \<Rightarrow> unit cmd" where
  "step_group_create E =
     bnd (needC c_group_name) (\<lambda>name. bnd (getC (\<lambda>c. (c_group_requested_gid c, c_group_members c))) (\<lambda>(want, members).
     thn (check_create E name want members)
    (bnd (write_group_line E name want members) (\<lambda>gid.
     thn (tryE (thn (create_ad_group E name gid) (forM (sort members) (add_ad_group_member E name)))
               (\<lambda>e. throw (infra_failed ''ADD_GROUP'' ''AD_GROUP_CREATE_FAILED'' 500 (Some e))))
    (thn (register_idmap_groups E [name])
         (modC (\<lambda>c. c\<lparr>c_group_gid := Some gid\<rparr>)))))))"

text \<open>\<open>{g: known[g]["gid"] for g in groups}\<close>.\<close>

definition gids_of_groups :: "group_entry list \<Rightarrow> string list \<Rightarrow> exn + (string \<times> int) list" where
  "gids_of_groups known groups = mapE (\<lambda>g. case last_named gr_name g known of
     None \<Rightarrow> Inl (raised KeyError) | Some r \<Rightarrow> Inr (g, gr_gid r)) (remdups groups)"

definition member_failed :: "string \<Rightarrow> exn \<Rightarrow> exn" where
  "member_failed st e = infra_failed st ''AD_GROUP_MEMBER_FAILED'' 500 (Some e)"

definition step_group_add_member :: "env \<Rightarrow> unit cmd" where
  "step_group_add_member E =
     bnd (getC (\<lambda>c. (c_username c, c_group_names c))) (\<lambda>(user, groups).
     thn (check_add E user groups)
    (bnd (ledger_groups E) (\<lambda>known. bnd (liftE (gids_of_groups known groups)) (\<lambda>gids.
     thn (tryE (forM (sort (map fst gids)) (\<lambda>g. add_ad_group_member E g user))
               (\<lambda>e. throw (member_failed ''ADD_USER_GROUPS'' e)))
    (thn (set_group_membership E (map fst gids) user True)
    (bnd (sync_running_pod_groups E user gids) (\<lambda>pods.
     thn (modC (\<lambda>c. c\<lparr>c_group_pods := Some pods\<rparr>)) (flush_nas_group_cache E))))))))"

definition step_group_remove_member :: "env \<Rightarrow> unit cmd" where
  "step_group_remove_member E =
     bnd (getC c_username) (\<lambda>user. bnd (needC c_group_name) (\<lambda>name.
     thn (check_remove E user name)
    (thn (tryE (remove_ad_group_member E name user) (\<lambda>e. throw (member_failed ''REMOVE_USER_GROUP'' e)))
    (thn (set_group_membership E [name] user False)
    (bnd (remove_running_pod_groups E user [name]) (\<lambda>pods.
     thn (modC (\<lambda>c. c\<lparr>c_group_pods := Some pods\<rparr>)) (flush_nas_group_cache E)))))))"

end
