(* ===== verification/Access.thy ===== *)
theory Access
  imports Shared_Groups K8s
begin

text \<open>
  Blocking and opening all ports of an account (\<open>lifecycle_steps/access.py\<close>): the selector of every
  Service of the user is patched, and the time at which the job was registered is written beside it, so
  that a job run late gives way to a decision made later.
\<close>

section \<open>What a Service says of the decision\<close>

definition is_blocked :: "service \<Rightarrow> bool" where
  "is_blocked v = svc_blocked v"

definition decided_at :: "service \<Rightarrow> int" where
  "decided_at v = svc_decided v"

text \<open>\<open>_superseded\<close>: some Service was set to the opposite by a later decision; blocking wins a tie.\<close>

definition superseded :: "service list \<Rightarrow> bool \<Rightarrow> int \<Rightarrow> bool" where
  "superseded vs blocked at =
     (if blocked then list_ex (\<lambda>v. \<not> is_blocked v \<and> at < decided_at v) vs
      else list_ex (\<lambda>v. is_blocked v \<and> at \<le> decided_at v) vs)"

definition unsettled :: "bool \<Rightarrow> int \<Rightarrow> service \<Rightarrow> bool" where
  "unsettled blocked at v \<longleftrightarrow> is_blocked v \<noteq> blocked \<or> decided_at v < at"

section \<open>The step\<close>

definition list_user_services :: "env \<Rightarrow> string \<Rightarrow> service list cmd" where
  "list_user_services E user = services_call E (\<lambda>vs. Inr (filter (\<lambda>v. svc_user v = user) vs, vs))"

text \<open>The API server: a patch of a Service that is gone fails with 404, one that names another
  \<open>resourceVersion\<close> than the stored one with 409; a patch that is taken makes a new version.\<close>

definition patched :: "bool \<Rightarrow> int \<Rightarrow> service \<Rightarrow> service" where
  "patched blocked at v = v\<lparr>svc_blocked := blocked, svc_decided := at, svc_version := Suc (svc_version v)\<rparr>"

definition patch_service ::
  "string \<Rightarrow> nat \<Rightarrow> bool \<Rightarrow> int \<Rightarrow> service list \<Rightarrow> exn + (unit \<times> service list)" where
  "patch_service name version blocked at vs =
     (case find (\<lambda>v. svc_name v = name) vs of
        None \<Rightarrow> Inl (raised (ApiException 404))
      | Some v \<Rightarrow> if svc_version v \<noteq> version then Inl (raised (ApiException 409))
                  else Inr ((), map (\<lambda>w. if svc_name w = name then patched blocked at w else w) vs))"

definition set_service_access :: "env \<Rightarrow> bool \<Rightarrow> int \<Rightarrow> service \<Rightarrow> unit cmd" where
  "set_service_access E blocked at v =
     services_call E (patch_service (svc_name v) (svc_version v) blocked (max at (decided_at v)))"

text \<open>What the \<open>try\<close> block finds and does: whether the job is superseded, and how many Services there are.\<close>

definition change_access :: "env \<Rightarrow> string \<Rightarrow> bool \<Rightarrow> int \<Rightarrow> (bool \<times> nat) cmd" where
  "change_access E user blocked at =
     thn (load_k8s E) (bnd (list_user_services E user) (\<lambda>vs.
       let late = superseded vs blocked at;
           stale = (if late then [] else filter (unsettled blocked at) vs)
       in thn (forM stale (set_service_access E blocked at)) (ret (late, length vs))))"

definition step_set_account_access :: "env \<Rightarrow> unit cmd" where
  "step_set_account_access E =
     bnd (getC (\<lambda>c. (c_username c, c_blocked c, c_decided_at c))) (\<lambda>(user, blocked, at).
     bnd (tryE (change_access E user blocked at)
            (\<lambda>e. throw (infra_failed ''CHANGE_ACCESS'' ''ACCESS_CHANGE_FAILED'' 500 (Some e)))) (\<lambda>(late, n).
     if late then throw (no_retry ''CHANGE_ACCESS'' ''ACCESS_SUPERSEDED'' 409)
     else modC (\<lambda>c. c\<lparr>c_access_services := int n\<rparr>)))"

end
