(* ===== verification/Traces.thy ===== *)
theory Traces
  imports Krb5
begin

text \<open>
  What operations do to the state as a whole: moves along a preorder of the states of a job, and the
  requests an operation sends.
\<close>

section \<open>Moves along a preorder of the states of a job\<close>

locale progress = trail R for R :: "st \<Rightarrow> st \<Rightarrow> bool"
begin

lemma context_read [moves_intros]: "moves R (getC g)" "moves R (needC k)"
  unfolding getC_def needC_def by (intro moves_intros)+

end

section \<open>The requests an operation sends\<close>

text \<open>\<open>emits P m\<close>: the history only grows by events that satisfy \<open>P\<close>.\<close>

definition grew :: "(event \<Rightarrow> bool) \<Rightarrow> st \<Rightarrow> st \<Rightarrow> bool" where
  "grew P s t \<longleftrightarrow> (\<exists>evs. hist t = evs @ hist s \<and> (\<forall>ev\<in>set evs. P ev))"

abbreviation emits :: "(event \<Rightarrow> bool) \<Rightarrow> 'a cmd \<Rightarrow> bool" where
  "emits P m \<equiv> moves (grew P) m"

interpretation trace: progress "grew P" for P
  by unfold_locales (auto simp: grew_def)

lemma grew_refl: "hist t = hist s \<Longrightarrow> grew P s t"
  by (simp add: grew_def)

lemma grew_step: "P ev \<Longrightarrow> hist t = ev # hist s \<Longrightarrow> grew P s t"
  unfolding grew_def by (rule exI[of _ "[ev]"]) simp

lemma grew_exact: "grew P s t \<Longrightarrow> hist t = evs @ hist s \<Longrightarrow> ev \<in> set evs \<Longrightarrow> P ev"
  by (auto simp: grew_def)

lemma emits_mono: "emits P m \<Longrightarrow> (\<And>ev. P ev \<Longrightarrow> Q ev) \<Longrightarrow> emits Q m"
  by (erule moves_mono) (auto simp: grew_def)

lemma emits_modC [moves_intros]: "emits P (modC h)"
  by (simp add: modC_def trace.upd grew_refl)

lemma emits_ext [moves_intros]: "P ev \<Longrightarrow> emits P (ext ev f)"
  by (simp add: moves_def ext_def grew_step)

lemma emits_io [moves_intros]:
  assumes "P ev" "\<And>s. hist (upd s) = hist s"
  shows "emits P (io ev f upd)"
  using assms by (auto simp: moves_def io_def Let_def intro!: grew_step split: io_reply.splits)

lemma emits_rd [moves_intros]: "P ev \<Longrightarrow> emits P (rd ev f g)"
  unfolding rd_def by (intro moves_intros) simp_all

section \<open>Logging and the farm nodes\<close>

lemma emits_log [moves_intros]:
  assumes "P EvLogDb"
  shows "emits P (log_operation_id E a)" "emits P (log_operation E a)" "emits P (log_step E r u res act ph err)"
  unfolding log_operation_id_def log_operation_def log_step_def
  by (intro moves_intros trace.upd grew_refl; simp add: assms)+

lemma emits_farm [moves_intros]:
  assumes "P (EvFarmSsh node c)"
  shows "emits P (farm_ssh_reply E node c)" "emits P (farm_ssh E node c)"
  unfolding farm_ssh_def farm_ssh_reply_def by (intro moves_intros assms)+

lemma emits_remove_farm [moves_intros]:
  assumes "P (EvFarmSsh node (words [''remove'', user]))"
  shows "emits P (remove_krb5_from_farm E user node)"
  unfolding remove_krb5_from_farm_def get_farm_node_info_def
  using assms by (auto simp: moves_def run grew_refl dest!: movesD[OF emits_farm(2), of P node "words [''remove'', user]"]
      split: prod.splits sum.splits)

lemma emits_pending [moves_intros]:
  assumes "P EvDb"
  shows "emits P (record_krb5_cleanup_pending E user node)" "emits P (clear_krb5_cleanup_pending E user node)"
  unfolding record_krb5_cleanup_pending_def clear_krb5_cleanup_pending_def
  by (intro moves_intros; simp add: assms)+

end
