(* ===== verification/Samples.thy ===== *)
theory Samples
  imports Account
begin

text \<open>
  A concrete environment, step context and state.  The outside answers every request,
  nobody interferes, the NAS knows no home.  The witnesses of the properties start from
  them and change the part that matters.
\<close>

definition env0 :: env where
  "env0 = \<lparr>
     cfg_uid_min = 10000,
     cfg_uid_max = None,
     cfg_shared_gid_min = 20000,
     cfg_shared_gid_max = None,
     cfg_mode = Full,
     cfg_step_max_attempts = 3,
     cfg_verify_max_attempts = 3,
     cfg_retry_delay = False,
     cfg_krb5 = False,
     cfg_ad_nodes = [''dc1'', ''dc2''],
     cfg_sudo_commands = [],
     cfg_nfs_root = ''/nfs'',
     cfg_farm_nodes = [''farm1'', ''farm2''],
     cfg_node_port = \<lambda>_. 22,
     cfg_identity_wait = 60,
     cfg_identity_poll = 5,
     cfg_fuel = 100,
     cfg_owner = ''ctl1'',
     cfg_lease_ttl = 30000,
     cfg_fault_injection = False,
     x_now = \<lambda>_. 0,
     x_wall = \<lambda>_. 86400000,
     x_log_db = \<lambda>_. IoOk,
     x_db = \<lambda>_. IoOk,
     x_file = \<lambda>_. IoOk,
     x_redis = \<lambda>_. IoOk,
     x_template = \<lambda>_. None,
     x_controllers = \<lambda>_ t. t,
     x_ledger_lock = \<lambda>_. None,
     x_interfere = \<lambda>_ L. L,
     x_nas_connect = \<lambda>_. None,
     x_nas = \<lambda>_ _. Inr (1, []),
     x_ad_ssh = \<lambda>_ _ _. Inr (0, ''ok''),
     x_farm_ssh = \<lambda>_ _ _. Inr (0, ''identity_state=ready''),
     x_read_secret = \<lambda>_ _. Inr [],
     x_create_secret = \<lambda>_ _. Inr (),
     x_patch_secret = \<lambda>_ _. Inr (),
     x_delete_secret = \<lambda>_ _. Inr (),
     cfg_nodeport_min = 30000,
     cfg_nodeport_max = 30010,
     cfg_reconcile_interval = 300,
     cfg_nodeport_grace = 300,
     cfg_pod_wait = 3,
     cfg_priority = [],
     cfg_realm = [],
     cfg_cpu_limit = [],
     cfg_mem_limit = [],
     cfg_namespace = [],
     cfg_helper_configured = True,
     cfg_max_added = 20000000000,
     cfg_endpoint_wait = 30,
     x_load_k8s = \<lambda>_. None,
     x_read_account_secret = \<lambda>_ _. Inr ([], []),
     x_replace_secret = \<lambda>_ _. Inr (),
     x_read_pod = \<lambda>_ _. Inl (Exn (ApiException 404) None None False),
     x_list_pods = \<lambda>_ _. Inr [],
     x_create_pod = \<lambda>_ _. Inr None,
     x_delete_pod = \<lambda>_ _. Inr (),
     x_wait_deleted = \<lambda>_ _. Inr True,
     x_pod_log = \<lambda>_ _. Inr [],
     x_events = \<lambda>_ _. Inr [],
     x_nodes = \<lambda>_. Inr [],
     x_k8s = \<lambda>_. IoOk,
     x_cluster = \<lambda>_ v. v,
     x_reserved = \<lambda>_. Inr [],
     x_exec = \<lambda>_ _ _ _ _. Inr [],
     x_was = \<lambda>_ _. Inr (404, None),
     x_score = \<lambda>_ _. Inr 0,
     x_gpus = \<lambda>_ _. Inr [],
     x_uuid = \<lambda>_. [],
     x_tcp = \<lambda>_ _ _. (True, []),
     x_app_db = \<lambda>_. IoOk,
     x_nodeports = \<lambda>_ p. p,
     x_image_store = \<lambda>_ _. Inr True,
     x_helper = \<lambda>_ _ _. Inr (Inr 0),
     x_crypt = \<lambda>_ _. [],
     x_base64 = \<lambda>_. None,
     x_mtime = \<lambda>_. Some 1,
     x_thread = \<lambda>_. None,
     x_flush_lock = \<lambda>_ l. l,
     x_pending = \<lambda>_ p. p\<rparr>"

definition ctx0 :: ctx where
  "ctx0 = \<lparr>
     c_request = ''req1'',
     c_username = ''kim'',
     c_name = Some ''kim'',
     c_uid = None,
     c_gid = None,
     c_passwd_hash = ''$6$x'',
     c_gecos = [],
     c_pg_name = Some ''kim'',
     c_supp_groups = [],
     c_added_supp = [],
     c_expected_uid = None,
     c_account_write_started = None,
     c_account_absent_is_goal = False,
     c_home_created = False,
     c_home_deleted = False,
     c_pod_name = None,
     c_node = None,
     c_node_name = None,
     c_pod_node_name = None,
     c_allocated_ports = [],
     c_wanted_ports = [],
     c_nodes = [],
     c_min_ratio = 0,
     c_config_by_request = False,
     c_user_info = None,
     c_node_list = None,
     c_pod_spec = None,
     c_v1 = False,
     c_already_absent = False,
     c_image = None,
     c_blocked = False,
     c_decided_at = 0,
     c_access_blocked = False,
     c_access_decided_at = 0,
     c_access_services = 0,
     c_group_name = None,
     c_group_requested_gid = None,
     c_group_members = [],
     c_group_names = [],
     c_group_gid = None,
     c_group_pods = None,
     c_password_secrets = [],
     c_password_pods = None,
     c_old_pod_name = None,
     c_from_node = None,
     c_force = False,
     c_recreate = False,
     c_keep_changes = False,
     c_skipped = False,
     c_skip_reason = None,
     c_old_pod_cleanup = None,
     c_committed_image = None,
     c_committed_image_node = None,
     c_verify_ports = [],
     c_verify_node = None\<rparr>"

text \<open>A ledger in use: root and one user, \<open>lee\<close>.\<close>

definition ledger0 :: ledger where
  "ledger0 = \<lparr>
     passwd_file = ''root:x:0:0:root:/root:/bin/bash'' @ NL # ''lee:x:10000:10000::/home/lee:/bin/bash'' @ [NL],
     group_file = ''root:x:0:'' @ NL # ''lee:x:10000:'' @ [NL],
     shadow_file = ''root:*:19000:0:99999:7:::'' @ NL # ''lee:$6$y:19000:0:99999:7:::'' @ [NL],
     sudoers = (\<lambda>_. None),
     issued_ids = Issued (\<lambda>k. case k of UidKind \<Rightarrow> Some 10000 | SharedGidKind \<Rightarrow> None)\<rparr>"

definition st0 :: st where
  "st0 = \<lparr>led = ledger0, lock_depth = 0, oplog = [], write_failures = 0, job_control = (\<lambda>_. None),
     job_inputs = (\<lambda>_. None), job_details = (\<lambda>_. None), pod_status = (\<lambda>_. None), nodeports = [],
     services = [], last_reconcile = 0, krb5_pending = [], gss_state = None, flush_lock = None, faults = [], fault_seen = (\<lambda>_. 0),
     cx = ctx0, cur_job = None, cur_attempt = 1, cur_step = None, hist = []\<rparr>"

text \<open>The equations that evaluate the string functions and the operations on concrete inputs.\<close>

lemmas run_strings = strip_final_nl_def line_break_def read_digits_def read_opt_digits_def is_digit_def
  digit_val_def read_nat_def show_int_def show_nat.simps digit_char_def char_of_def unbroken_def
  ledger_field_def list_ex_iff Suc_0_mod_numeral bit_0 show_opt_def last_field_def starts_with_def

lemmas run_lines = parse_passwd_line_def parse_group_line_def parse_shadow_line_def
  format_passwd_entry_def format_group_entry_def format_shadow_entry_def content_of_lines_def
  has_named_def catSome_def map_filter_simps max_default_def

lemmas run_calls = getC_def needC_def modC_def run Let_def io_def rd_def ext_def log_account_def log_step_def
  log_operation_def log_operation_id_def log_row_def next_row_id_def logargs_def ledger_lock_def
  acquire_ledger_lock_def release_ledger_lock_def read_lines_def write_lines_def replace_file_def
  ensure_etc_layout_def ensure_seeded_file_def

lemma rooted_sample: "rooted ledger0"
  by (simp add: rooted_def seeded_iff ledger0_def lines_of_def run_lines run_strings)

end
