(* ===== verification/Access_Props.thy ===== *)
theory Access_Props
  imports Access Traces Samples
begin

text \<open>
  The property of the decisions on access, with its instance.
\<close>

section \<open>The order of decisions\<close>

text \<open>A decision is a time and whether it blocks; of two decisions of the same time blocking is the later.\<close>

definition no_later :: "int \<times> bool \<Rightarrow> int \<times> bool \<Rightarrow> bool" where
  "no_later d e \<longleftrightarrow> fst d < fst e \<or> fst d = fst e \<and> (snd d \<longrightarrow> snd e)"

lemma no_later_refl [simp]: "no_later d d"
  by (simp add: no_later_def)

lemma no_later_trans: "no_later d e \<Longrightarrow> no_later e f \<Longrightarrow> no_later d f"
  by (auto simp: no_later_def)

definition decision :: "service \<Rightarrow> int \<times> bool" where
  "decision v = (decided_at v, is_blocked v)"

text \<open>How the Service of one name may change: it may go, but if it is there it was there before, with the
  same user, and either untouched or in a new version with no earlier decision.\<close>

definition newer :: "service \<Rightarrow> service \<Rightarrow> bool" where
  "newer v w \<longleftrightarrow> svc_user w = svc_user v \<and>
     (w = v \<or> svc_version v < svc_version w \<and> no_later (decision v) (decision w))"

definition forward :: "string \<Rightarrow> service list \<Rightarrow> service list \<Rightarrow> bool" where
  "forward name vs ws \<longleftrightarrow> (\<forall>w\<in>set ws. svc_name w = name \<longrightarrow> (\<exists>v\<in>set vs. svc_name v = name \<and> newer v w))"

lemma newer_refl [simp]: "newer v v"
  by (simp add: newer_def)

lemma newer_trans: "newer u v \<Longrightarrow> newer v w \<Longrightarrow> newer u w"
  by (auto simp: newer_def intro: no_later_trans)

lemma newer_decision: "newer v w \<Longrightarrow> no_later (decision v) (decision w)"
  by (auto simp: newer_def)

lemma newer_same: "newer v w \<Longrightarrow> svc_version w = svc_version v \<Longrightarrow> w = v"
  by (auto simp: newer_def)

lemma forward_refl [simp]: "forward n vs vs"
  by (auto simp: forward_def)

lemma forward_trans: "forward n vs ws \<Longrightarrow> forward n ws us \<Longrightarrow> forward n vs us"
  unfolding forward_def by (meson newer_trans)

text \<open>What is relied on: Services have distinct names, and for the Service \<open>name\<close> the others keep to the same rule.\<close>

definition names_distinct :: "service list \<Rightarrow> bool" where
  "names_distinct vs \<longleftrightarrow> distinct (map svc_name vs)"

definition rely_access :: "env \<Rightarrow> string \<Rightarrow> bool" where
  "rely_access E name \<longleftrightarrow> (\<forall>h vs. names_distinct vs \<longrightarrow>
     names_distinct (x_cluster E h vs) \<and> forward name vs (x_cluster E h vs))"

lemma same_name: "names_distinct vs \<Longrightarrow> v \<in> set vs \<Longrightarrow> w \<in> set vs \<Longrightarrow> svc_name v = svc_name w \<Longrightarrow> v = w"
  unfolding names_distinct_def by (metis distinct_map inj_onD)

section \<open>The writes of the step\<close>

text \<open>Between a reading \<open>L\<close> of the Services and now.\<close>

definition since :: "string \<Rightarrow> service list \<Rightarrow> st \<Rightarrow> bool" where
  "since n L s \<longleftrightarrow> names_distinct (services s) \<and> forward n L (services s)"

lemma since_upd [simp]: "since n L (s\<lparr>hist := h\<rparr>) = since n L s" "since n L (s\<lparr>cx := c\<rparr>) = since n L s"
  by (simp_all add: since_def)

lemma wp_call_forward:
  assumes "rely_access E n" "since n L s"
    and "\<And>h vs a ws. names_distinct vs \<Longrightarrow> forward n L vs \<Longrightarrow> f vs = Inr (a, ws) \<Longrightarrow>
           names_distinct ws \<and> forward n L ws \<and> (\<forall>t. services t = ws \<longrightarrow> Q a t)"
    and "\<And>e t. since n L t \<Longrightarrow> R e t"
  shows "wp (services_call E f) Q R s"
proof -
  let ?v = "x_cluster E (hist s) (services s)"
  have v: "names_distinct ?v" "forward n L ?v"
    using assms(1,2) by (auto simp: rely_access_def since_def intro: forward_trans)
  show ?thesis
    using assms(3)[OF v] assms(4) v
    by (auto simp: wp_def services_call_def Let_def since_def split: io_reply.splits sum.splits prod.splits)
qed

text \<open>An unsettled Service of a reading that is not superseded gets no earlier decision.\<close>

lemma patch_goes_forward:
  assumes "\<not> superseded [v] blocked at"
  shows "newer v (patched blocked (max at (decided_at v)) v)"
    "no_later (at, blocked) (decision (patched blocked (max at (decided_at v)) v))"
  using assms
  by (auto simp: superseded_def newer_def patched_def no_later_def decision_def decided_at_def is_blocked_def
      not_less not_le split: if_splits)

lemma settled_decision:
  "\<not> unsettled blocked at v \<Longrightarrow> no_later (at, blocked) (decision v)"
  by (auto simp: unsettled_def no_later_def decision_def)

lemma patch_service_forward:
  assumes "names_distinct vs" "forward n L vs" "names_distinct L" "v \<in> set L"
    and "\<not> superseded [v] blocked at"
    and "patch_service (svc_name v) (svc_version v) blocked (max at (decided_at v)) vs = Inr (u, ws)"
  shows "names_distinct ws \<and> forward n L ws"
    "forward n vs ws"
    "w \<in> set ws \<Longrightarrow> svc_name w = n \<Longrightarrow> n = svc_name v \<Longrightarrow> no_later (at, blocked) (decision w)"
proof -
  let ?p = "patched blocked (max at (decided_at v))"
  have ws: "ws = map (\<lambda>w. if svc_name w = svc_name v then ?p w else w) vs"
    and found: "\<exists>x. find (\<lambda>w. svc_name w = svc_name v) vs = Some x \<and> svc_version x = svc_version v"
    using assms(6) by (auto simp: patch_service_def split: option.splits if_splits)
  have same: "w = v" if w: "w \<in> set vs" "svc_name w = svc_name v" "svc_name v = n" for w
  proof -
    from found obtain x where x: "x \<in> set vs" "svc_name x = svc_name v" "svc_version x = svc_version v"
      by (metis (mono_tags, lifting) find_SomeD)
    have "w = x" using same_name[OF assms(1)] w x by simp
    moreover obtain v' where "v' \<in> set L" "svc_name v' = n" "newer v' w"
      using assms(2) w by (auto simp: forward_def)
    moreover have "v' = v" using same_name[OF assms(3)] calculation w assms(4) by simp
    ultimately show ?thesis using x newer_same by metis
  qed
  have "map svc_name ws = map svc_name vs" by (auto simp: ws patched_def)
  with assms(1) have d: "names_distinct ws" by (simp add: names_distinct_def)
  show f: "forward n vs ws" unfolding forward_def
  proof (intro ballI impI)
    fix w assume w: "w \<in> set ws" "svc_name w = n"
    then obtain x where x: "x \<in> set vs" "w = (if svc_name x = svc_name v then ?p x else x)" by (auto simp: ws)
    show "\<exists>v\<in>set vs. svc_name v = n \<and> newer v w"
    proof (cases "svc_name x = svc_name v")
      case True
      then have "svc_name v = n" using x w by (simp add: patched_def)
      with same[OF x(1) True] x True patch_goes_forward(1)[OF assms(5)] show ?thesis by auto
    next
      case False
      with x w show ?thesis by auto
    qed
  qed
  from d forward_trans[OF assms(2) f] show "names_distinct ws \<and> forward n L ws" by simp
  assume w: "w \<in> set ws" "svc_name w = n" "n = svc_name v"
  then obtain x where x: "x \<in> set vs" "w = (if svc_name x = svc_name v then ?p x else x)" by (auto simp: ws)
  have nx: "svc_name x = svc_name v"
  proof (rule ccontr)
    assume "svc_name x \<noteq> svc_name v"
    with x(2) have "w = x" by simp
    with w \<open>svc_name x \<noteq> svc_name v\<close> show False by simp
  qed
  have "x = v" by (rule same[OF x(1) nx]) (use w in simp)
  with x(2) have "w = ?p v" by simp
  with patch_goes_forward(2)[OF assms(5)] show "no_later (at, blocked) (decision w)" by simp
qed

text \<open>The decision holds of the Service \<open>n\<close>, or a later one does.\<close>

definition applied :: "string \<Rightarrow> string \<Rightarrow> int \<times> bool \<Rightarrow> service list \<Rightarrow> bool" where
  "applied n user d vs \<longleftrightarrow>
     (\<forall>w\<in>set vs. svc_name w = n \<and> svc_user w = user \<longrightarrow> no_later d (decision w))"

lemma applied_forward: "applied n user d vs \<Longrightarrow> forward n vs ws \<Longrightarrow> applied n user d ws"
  unfolding applied_def forward_def newer_def by (metis no_later_trans)

text \<open>Starting later: everything said of a later reading is said of the earlier one.\<close>

lemma since_trans: "since n L s \<Longrightarrow> since n (services s) t \<Longrightarrow> since n L t"
  by (auto simp: since_def intro: forward_trans)

lemma since_start: "names_distinct (services s) \<Longrightarrow> since n (services s) s"
  by (simp add: since_def)

lemma wp_set_all:
  assumes "rely_access E n" "names_distinct L" "\<forall>v\<in>set ls. v \<in> set L \<and> \<not> superseded [v] blocked at" "since n L s"
    and "\<forall>v\<in>set ks. svc_name v = n \<longrightarrow> applied n user (at, blocked) (services s)"
  shows "wp (forM ls (set_service_access E blocked at))
    (\<lambda>_ t. since n L t \<and> (\<forall>v\<in>set ks \<union> set ls. svc_name v = n \<longrightarrow> applied n user (at, blocked) (services t)))
    (\<lambda>_ t. since n L t) s"
  using assms(3-)
proof (induction ls arbitrary: s ks)
  case Nil
  then show ?case by (simp add: wp_ret)
next
  case (Cons v ls)
  let ?d = "\<lambda>ks t. \<forall>v\<in>set ks. svc_name v = n \<longrightarrow> applied n user (at, blocked) (services t)"
  have "wp (set_service_access E blocked at v) (\<lambda>_ t. since n L t \<and> ?d (v # ks) t) (\<lambda>_ t. since n L t) s"
    unfolding set_service_access_def
  proof (rule wp_call_forward[OF assms(1)])
    show "since n (services s) s" using Cons.prems(2) by (simp add: since_def)
    fix h vs u ws
    assume vs: "names_distinct vs" "forward n (services s) vs"
      and p: "patch_service (svc_name v) (svc_version v) blocked (max at (decided_at v)) vs = Inr (u, ws)"
    have L: "forward n L vs" using vs Cons.prems(2) by (auto simp: since_def intro: forward_trans)
    have v: "v \<in> set L" "\<not> superseded [v] blocked at" using Cons.prems(1) by simp_all
    note f = patch_service_forward[OF vs(1) L assms(2) v p]
    have ks: "applied n user (at, blocked) ws" if "svc_name x = n" "x \<in> set ks" for x
      using Cons.prems(3) that applied_forward[OF applied_forward[OF _ vs(2)] f(2)] by metis
    have v: "applied n user (at, blocked) ws" if "svc_name v = n"
      unfolding applied_def using f(3)[OF _ _ that[symmetric]] by simp
    have "\<forall>x\<in>set (v # ks). svc_name x = n \<longrightarrow> applied n user (at, blocked) ws"
      using ks v by auto
    then have "since n L t \<and> ?d (v # ks) t" if "services t = ws" for t
      unfolding since_def that using f(1) by blast
    then show "names_distinct ws \<and> forward n (services s) ws \<and>
        (\<forall>t. services t = ws \<longrightarrow> since n L t \<and> ?d (v # ks) t)"
      using f(1) forward_trans[OF vs(2) f(2)] by blast
  next
    fix e t assume "since n (services s) t"
    with Cons.prems(2) show "since n L t" by (rule since_trans)
  qed
  then show ?case unfolding forM.simps wp_thn
  proof (rule wp_weaken)
    fix u t assume t: "since n L t \<and> ?d (v # ks) t"
    have "\<forall>v\<in>set ls. v \<in> set L \<and> \<not> superseded [v] blocked at" using Cons.prems(1) by simp
    from Cons.IH[OF this, of t "v # ks"] t
    show "wp (forM ls (set_service_access E blocked at))
      (\<lambda>_ t. since n L t \<and> (\<forall>x\<in>set ks \<union> set (v # ls). svc_name x = n \<longrightarrow> applied n user (at, blocked) (services t)))
      (\<lambda>_ t. since n L t) t" by (simp add: Un_commute)
  qed simp
qed

section \<open>A later decision stays\<close>

lemma superseded_one: "\<not> superseded vs b d \<Longrightarrow> v \<in> set vs \<Longrightarrow> \<not> superseded [v] b d"
  by (auto simp: superseded_def list_ex_iff)

text \<open>When every unsettled Service of the reading is done, the decision holds of all of them.\<close>

lemma all_applied:
  assumes "since n L u"
    and "\<forall>v\<in>set (filter (unsettled blocked at) (filter (\<lambda>v. svc_user v = user) L)).
           svc_name v = n \<longrightarrow> applied n user (at, blocked) (services u)"
  shows "applied n user (at, blocked) (services u)"
  unfolding applied_def
proof (intro ballI impI)
  fix w assume w: "w \<in> set (services u)" "svc_name w = n \<and> svc_user w = user"
  then obtain v where v: "v \<in> set L" "svc_name v = n" "newer v w"
    using assms(1) unfolding since_def forward_def by blast
  then have user: "svc_user v = user" using w by (simp add: newer_def)
  show "no_later (at, blocked) (decision w)"
  proof (cases "unsettled blocked at v")
    case True
    with v(1) user have "v \<in> set (filter (unsettled blocked at) (filter (\<lambda>v. svc_user v = user) L))" by simp
    with assms(2) v(2) have "applied n user (at, blocked) (services u)" by blast
    with w show ?thesis by (simp add: applied_def)
  next
    case False
    with settled_decision newer_decision[OF v(3)] show ?thesis by (blast intro: no_later_trans)
  qed
qed

lemma wp_set_stale:
  assumes "rely_access E n" "since n (services s) s" "us = filter (\<lambda>v. svc_user v = user) (services s)"
    and "\<not> superseded us blocked at"
  shows "wp (forM (filter (unsettled blocked at) us) (set_service_access E blocked at))
    (\<lambda>_ t. since n (services s) t \<and> applied n user (at, blocked) (services t)) (\<lambda>_ t. since n (services s) t) s"
proof -
  have d: "names_distinct (services s)" using assms(2) by (simp add: since_def)
  have "\<forall>v\<in>set (filter (unsettled blocked at) us). v \<in> set (services s) \<and> \<not> superseded [v] blocked at"
    using superseded_one[OF assms(4)] assms(3) by auto
  have "\<forall>v\<in>set []. svc_name v = n \<longrightarrow> applied n user (at, blocked) (services s)" by simp
  note all = wp_set_all[OF assms(1) d \<open>\<forall>v\<in>set (filter _ us). _\<close> assms(2) this]
  show ?thesis
  proof (rule wp_weaken[OF all])
    fix a t assume t: "since n (services s) t \<and> (\<forall>v\<in>set [] \<union> set (filter (unsettled blocked at) us).
      svc_name v = n \<longrightarrow> applied n user (at, blocked) (services t))"
    then have "applied n user (at, blocked) (services t)" unfolding assms(3)
      by (intro all_applied[of n "services s"]) blast+
    with t show "since n (services s) t \<and> applied n user (at, blocked) (services t)" by blast
  qed
qed

lemma wp_change_access:
  assumes "rely_access E n" "names_distinct (services s)"
  shows "wp (change_access E user blocked at)
    (\<lambda>(late, k) t. since n (services s) t \<and> (\<not> late \<longrightarrow> applied n user (at, blocked) (services t)))
    (\<lambda>_ t. since n (services s) t) s"
proof -
  let ?S = "\<lambda>t. since n (services s) t"
  let ?us = "\<lambda>L. filter (\<lambda>v. svc_user v = user) L"
  have load: "wp (load_k8s E) (\<lambda>_. ?S) (\<lambda>_. ?S) s"
    unfolding load_k8s_def using assms(2) by (auto simp: wp_simps since_def split: option.split)
  have listed: "wp (list_user_services E user) (\<lambda>us t. us = ?us (services t) \<and> ?S t) (\<lambda>_. ?S) u" if "?S u" for u
    unfolding list_user_services_def
    by (rule wp_call_forward[OF assms(1) that]) (auto simp: since_def)
  have rest: "wp (forM (if superseded us blocked at then [] else filter (unsettled blocked at) us) (set_service_access E blocked at))
      (\<lambda>_ t. ?S t \<and> (\<not> superseded us blocked at \<longrightarrow> applied n user (at, blocked) (services t))) (\<lambda>_. ?S) u"
    if u: "us = ?us (services u) \<and> ?S u" for us u
  proof (cases "superseded us blocked at")
    case True
    with u show ?thesis by (simp add: wp_ret)
  next
    case False
    have "since n (services u) u" using u by (simp add: since_def)
    note stale = wp_set_stale[OF assms(1) this conjunct1[OF u] False]
    show ?thesis unfolding if_not_P[OF False]
      by (rule wp_weaken[OF stale]) (use u False in \<open>auto intro: since_trans\<close>)
  qed
  have body: "wp (let late = superseded us blocked at; stale = (if late then [] else filter (unsettled blocked at) us)
      in thn (forM stale (set_service_access E blocked at)) (ret (late, length us)))
      (\<lambda>(late, k) t. ?S t \<and> (\<not> late \<longrightarrow> applied n user (at, blocked) (services t))) (\<lambda>_. ?S) u"
    if u: "us = ?us (services u) \<and> ?S u" for us u
    unfolding Let_def wp_thn wp_ret prod.case by (rule rest[OF u])
  show ?thesis unfolding change_access_def wp_thn[of "load_k8s E"] wp_bnd[of "list_user_services E user"]
    by (rule wp_weaken[OF load], rule wp_weaken[OF listed], assumption, rule body)
qed

text \<open>C27: a job that blocks or opens an account never undoes a decision made later.  If the others keep
  to it, every write of the step moves the decision on a Service on (a later time, or the same time and
  blocked), and after a step that succeeded every Service of the user that was there carries its decision
  or a later one.\<close>

theorem later_decision_stays:
  assumes "rely_access E n" "names_distinct (services s)"
    and "step_set_account_access E s = (r, t)"
  shows "forward n (services s) (services t) \<and>
     (r = Inr () \<longrightarrow> (\<forall>w\<in>set (services t). svc_name w = n \<and> svc_user w = c_username (cx s) \<longrightarrow>
        no_later (c_decided_at (cx s), c_blocked (cx s)) (decision w)))"
proof -
  have "wp (step_set_account_access E)
    (\<lambda>_ t. since n (services s) t \<and> applied n (c_username (cx s)) (c_decided_at (cx s), c_blocked (cx s)) (services t))
    (\<lambda>_ t. since n (services s) t) s"
    unfolding step_set_account_access_def wp_bnd[of "getC _"] wp_getC prod.case
      wp_bnd[of "tryE _ _"] wp_tryE wp_throw
    by (rule wp_weaken[OF wp_change_access[OF assms(1,2)]]) (auto simp: wp_simps modC_def)
  with assms(3) show ?thesis by (cases r) (auto simp: wp_def since_def applied_def)
qed

text \<open>Two Services of \<open>lee\<close>, opened at 3; a block registered at 5 goes through.\<close>

definition svc_open :: "string \<Rightarrow> int \<Rightarrow> service" where
  "svc_open name port = \<lparr>svc_name = name, svc_user = ''lee'', svc_pod = ''p'', svc_port = 22, svc_node_port = port,
     svc_purpose = ''ssh'', svc_blocked = False, svc_decided = 3, svc_version = 1\<rparr>"

definition st_access :: st where
  "st_access = st0\<lparr>services := [svc_open ''a'' 30001, svc_open ''b'' 30002],
     cx := ctx0\<lparr>c_username := ''lee'', c_blocked := True, c_decided_at := 5\<rparr>\<rparr>"

theorem later_decision_stays_witness:
  "\<exists>t. step_set_account_access env0 st_access = (Inr (), t) \<and> forward ''b'' (services st_access) (services t) \<and>
     (\<exists>w\<in>set (services t). svc_name w = ''b'' \<and> no_later (5, True) (decision w))"
proof -
  obtain r t where r: "step_set_account_access env0 st_access = (r, t)" by fastforce
  have ok: "result_of (step_set_account_access env0) st_access = Inr ()"
    "map svc_name (services (state_of (step_set_account_access env0) st_access)) = [''a'', ''b'']"
    "map svc_user (services (state_of (step_set_account_access env0) st_access)) = [''lee'', ''lee'']"
    by (simp_all add: step_set_account_access_def change_access_def list_user_services_def superseded_def
        unsettled_def is_blocked_def decided_at_def set_service_access_def patch_service_def patched_def svc_open_def
        st_access_def st0_def env0_def ctx0_def run_calls services_call_def load_k8s_def)
  have "rely_access env0 ''b''" by (simp add: rely_access_def env0_def)
  moreover have "names_distinct (services st_access)" by (simp add: names_distinct_def st_access_def svc_open_def)
  ultimately have "forward ''b'' (services st_access) (services t) \<and> (r = Inr () \<longrightarrow> (\<forall>w\<in>set (services t).
      svc_name w = ''b'' \<and> svc_user w = ''lee'' \<longrightarrow> no_later (5, True) (decision w)))"
    using later_decision_stays[OF _ _ r] by (simp add: st_access_def)
  with ok r show ?thesis by (cases t) (auto simp: map_eq_Cons_conv)
qed

end
