(* ===== verification/Account_Props.thy ===== *)
theory Account_Props
  imports Account Samples
begin

text \<open>
  The properties of the account steps, the ledger formats, the number allocators, the
  NAS homes and the Kerberos commands, each with an instance on the sample state.
\<close>

section \<open>Running the sample\<close>

text \<open>The equations that evaluate the account step.\<close>

lemmas run_account = step_create_account_def returning_owner_uid_def uid_candidates_def
  create_passwd_locked_def choose_uid_def read_issued_id_max_def read_issued_id_record_def
  issued_or_0_def record_issued_id_def write_marker_def allocate_next_uid_def first_free.simps
  new_passwd_entry_def home_dir_def create_group_locked_def primary_exists_def
  add_supp_groups_locked_def add_supp_group_def new_group_entry_def join_line_def has_gid_def
  create_shadow_def today_days_def new_shadow_entry_def or_rollback_def build_sudoers_policy_def


lemma setting_sample:
  assumes "\<And>h. f h \<in> {IoOk, IoFailed (raised OSError)}"
  shows "account_setting (env0\<lparr>x_file := f\<rparr>) None ''kim'' ''kim'' st0"
proof -
  have "plain e" if "f h = IoFailed e \<or> f h = IoLost e" for h e
    using assms[of h] that by auto
  then have "plain_files (env0\<lparr>x_file := f\<rparr>)"
    by (auto simp: plain_files_def env0_def)
  moreover have "rely_rooted (env0\<lparr>x_file := f\<rparr>)" "rely_user (env0\<lparr>x_file := f\<rparr>) ''kim'' ''kim''"
    by (simp_all add: rely_rooted_def rely_user_def env0_def)
  moreover have "cfg_uid_min env0 = 10000" "x_wall env0 h = 86400000" for h by (simp_all add: env0_def)
  ultimately show ?thesis
    by (simp add: account_setting_def st0_def ctx0_def rooted_sample tame_ckpt_def supp_ok_def member_name_def)
qed

lemma setting_sample0: "account_setting env0 None ''kim'' ''kim'' st0"
  using setting_sample[of "x_file env0"] by (simp add: env0_def)

section \<open>The account step\<close>

text \<open>C1: when \<open>step_create_account\<close> succeeds, the ledger of the moment it returns holds the
  account: a passwd line with a number of the configured band and the user's home, a group line
  of the primary group with the same number, the user among the members of every requested
  supplementary group, and the password hash in shadow; the context carries the number and the
  ledger lock is free.  Other processes may change the ledger whenever the lock is free, as long
  as they keep root and this user's entries.\<close>

theorem create_account_complete:
  assumes "account_setting E ckpt name pg s" and "step_create_account E ckpt s = (Inr (), t)"
  shows "account_done E name pg (cx s) t"
  using wp_Inr[OF wp_create_account[OF assms(1)] assms(2)] .

theorem create_account_complete_witness:
  "account_done env0 ''kim'' ''kim'' ctx0 (state_of (step_create_account env0 None) st0)"
proof -
  have "result_of (step_create_account env0 None) st0 = Inr ()"
    by (simp add: st0_def env0_def ctx0_def ledger0_def run_calls run_account run_lines run_strings)
  then have "step_create_account env0 None st0 = (Inr (), state_of (step_create_account env0 None) st0)"
    by (simp add: prod_eq_iff)
  from create_account_complete[OF setting_sample0 this] show ?thesis by (simp add: st0_def)
qed





section \<open>The ledger formats\<close>

text \<open>C3: a formatted entry of passwd, group or shadow that is appended to a file adds exactly that
  entry: whatever its fields hold, reading the written file gives the old entries followed by this
  one.  A field that could end the line or the field is refused by the format functions, so no
  request can smuggle in another account, group or password.\<close>

theorem ledger_append_exact:
  "(format_passwd_entry p = Inr l \<and> passwd_ok p \<longrightarrow>
      entries parse_passwd_line (splitlines (content_of_lines (splitlines f @ [l]))) =
      entries parse_passwd_line (splitlines f) @ [p]) \<and>
   (format_group_entry g = Inr k \<and> group_ok g \<longrightarrow>
      entries parse_group_line (splitlines (content_of_lines (splitlines f @ [k]))) =
      entries parse_group_line (splitlines f) @ [g]) \<and>
   (format_shadow_entry d = Inr m \<and> shadow_ok d \<longrightarrow>
      entries parse_shadow_line (splitlines (content_of_lines (splitlines f @ [m]))) =
      entries parse_shadow_line (splitlines f) @ [d])"
  using passwd_codec.entries_written group_codec.entries_written shadow_codec.entries_written
    splitlines_all_unbroken by blast

theorem ledger_append_exact_witness:
  "entries parse_group_line (splitlines (content_of_lines (splitlines (group_file ledger0) @ [''lab:x:20000:kim,lee'']))) =
     entries parse_group_line (splitlines (group_file ledger0)) @
     [\<lparr>gr_name = ''lab'', gr_passwd = ''x'', gr_gid = 20000, gr_members = [''kim'', ''lee'']\<rparr>]"
proof -
  let ?g = "\<lparr>gr_name = ''lab'', gr_passwd = ''x'', gr_gid = 20000, gr_members = [''kim'', ''lee'']\<rparr>"
  have "format_group_entry ?g = Inr ''lab:x:20000:kim,lee'' \<and> group_ok ?g"
    by (simp add: run_lines run_strings group_ok_def)
  with ledger_append_exact show ?thesis by blast
qed

section \<open>The allocators\<close>


section \<open>Homes on the NAS\<close>



section \<open>Kerberos commands\<close>

text \<open>\<open>_farm_ad_ssh\<close> asks the AD controllers in their configured order.  When the first ones cannot be
  asked (a timeout, or ssh's own exit code 255) the next one is asked; the first one that takes or
  refuses the command decides, and no later one is asked, so a command is not run twice.\<close>

lemma ad_command_decided_once:
  assumes "cfg_ad_nodes E = pre @ node # post"
    and "\<forall>i<length pre. \<exists>e. ad_answer E c (pre ! i) (asked c (take i pre) (hist s)) = AdUnreachable e"
  shows "(\<forall>out. ad_answer E c node (asked c pre (hist s)) = AdOk out \<longrightarrow>
            farm_ad_ssh E c s = (Inr out, s\<lparr>hist := asked c (pre @ [node]) (hist s)\<rparr>)) \<and>
         (\<forall>e. ad_answer E c node (asked c pre (hist s)) = AdRefused e \<longrightarrow>
            farm_ad_ssh E c s = (Inl e, s\<lparr>hist := asked c (pre @ [node]) (hist s)\<rparr>))"
  using ad_nodes_loop_decided[OF assms(2), of node post None] assms(1)
  by (auto simp: farm_ad_ssh_def Let_def)

text \<open>C6: waiting for a farm node to see a new account ends: with a clock that does not go back and a
  sleep that takes its time, \<open>wait_node_identity\<close> returns or raises an error of its own within
  \<open>wait / poll + 1\<close> questions, whatever the node answers.  The model's loop never runs out of fuel.\<close>

theorem identity_wait_ends:
  assumes "clock_law E" "fuel_free E" "0 < cfg_fuel E"
    and "cfg_identity_wait E \<le> int (cfg_fuel E - 1) * cfg_identity_poll E"
  shows "result_of (wait_node_identity E node user uid) s \<noteq> Inl (raised OutOfFuel)"
proof -
  obtain n where n: "cfg_fuel E = Suc n" using assms(3) gr0_conv_Suc by auto
  let ?s = "s\<lparr>hist := EvTime # hist s\<rparr>"
  have "x_now E (hist s) \<le> x_now E (hist ?s)" using assms(1) by (simp add: clock_law_def)
  with assms(4) n have "x_now E (hist s) + cfg_identity_wait E - x_now E (hist ?s) \<le> int n * cfg_identity_poll E"
    by simp
  from identity_loop_returns[OF assms(1,2) this] n show ?thesis
    by (simp add: wait_node_identity_def now_def ext_def run del: identity_loop.simps)
qed

text \<open>A clock that counts the sleeps.\<close>

fun slept :: "history \<Rightarrow> int" where
  "slept [] = 0"
| "slept (EvSleep d # h) = max 0 d + slept h"
| "slept (_ # h) = slept h"

lemma slept_mono: "slept h \<le> slept (ev # h)"
  by (cases ev) simp_all

theorem identity_wait_ends_witness:
  "result_of (wait_node_identity
      (env0\<lparr>x_now := slept, x_farm_ssh := \<lambda>_ _ _. Inr (0, ''identity_state=pending'')\<rparr>) ''farm1'' ''kim'' 10001) st0
   \<noteq> Inl (raised OutOfFuel)"
  by (rule identity_wait_ends)
    (simp_all add: clock_law_def fuel_free_def env0_def slept_mono)

section \<open>Unknown results\<close>

text \<open>\<open>_is_unknown_result\<close> holds of an exception exactly when one of the first ten exceptions on its
  chain is a timeout, the next one being the reason of a \<open>MaxRetryError\<close> and the cause of any other;
  and a step's log row says UNKNOWN instead of FAIL exactly then.\<close>

lemma unknown_result_exact:
  "(is_unknown_result e \<longleftrightarrow> (\<exists>i<10. \<exists>x. chain i e = Some x \<and> is_timeout x)) \<and>
   (\<forall>x. fail_phase x = (if \<exists>i<10. \<exists>y. chain i (Some x) = Some y \<and> is_timeout y then UNKNOWN else FAIL))"
  by (simp add: is_unknown_result_def fail_phase_def unknown_within_chain)

end
