(* ===== verification/Account_Tool.thy ===== *)
theory Account_Tool
  imports Nas
begin

text \<open>
  The account tool (\<open>k8s_account_manager.py\<close>): entries of the three account files and of \<open>sudoers.d\<close>,
  read, changed and written as whole files.

  It is a program of its own, with its own parser: a line is split at every colon and an invalid line
  fails the whole file.  The state is the file system, a text and a mode per path; a write replaces
  the file or fails without a change (\<open>_atomic_write\<close>).  The password hash, the date and \<open>visudo\<close> are
  outside; their replies and the failing writes may depend on the state, which counts the writes.
\<close>

section \<open>The file system\<close>

datatype acct_exn = AcctMissing | AcctValue | AcctKey | AcctWrite | AcctSudoers

record acct =
  ac_files :: "string \<rightharpoonup> string \<times> nat"
  ac_writes :: nat

type_synonym 'a acct_prog = "(acct, acct_exn, 'a) prog"

record acct_env =
  ae_fails :: "string \<Rightarrow> acct \<Rightarrow> bool"
  ae_crypt :: "string \<Rightarrow> acct \<Rightarrow> string"
  ae_today :: int
  ae_visudo :: "string \<Rightarrow> acct \<Rightarrow> bool option"

definition atomic_write :: "acct_env \<Rightarrow> string \<Rightarrow> string \<Rightarrow> nat \<Rightarrow> unit acct_prog" where
  "atomic_write A path text mode =
     bnd (getS (ae_fails A path)) (\<lambda>fails.
       if fails then thn (modS (\<lambda>s. s\<lparr>ac_writes := Suc (ac_writes s)\<rparr>)) (throw AcctWrite)
       else modS (\<lambda>s. s\<lparr>ac_files := (ac_files s)(path \<mapsto> (text, mode)), ac_writes := Suc (ac_writes s)\<rparr>))"

text \<open>Reading in text mode turns every line end into a newline.\<close>

fun universal :: "string \<Rightarrow> string" where
  "universal [] = []"
| "universal (c # s) = (if c = CR then NL # universal (skip_nl s) else c # universal s)"

text \<open>\<open>readlines\<close>, without the final newlines.\<close>

definition text_lines :: "string \<Rightarrow> string list" where
  "text_lines t = (let ps = split_on NL (universal t) in if last ps = [] then butlast ps else ps)"

definition read_entries :: "(string \<Rightarrow> acct_exn + 'e) \<Rightarrow> string \<Rightarrow> acct_exn + 'e list" where
  "read_entries parse t = mapE parse (filter (\<lambda>l. py_strip l \<noteq> []) (text_lines t))"

definition load_entries :: "(string \<Rightarrow> acct_exn + 'e) \<Rightarrow> string \<Rightarrow> 'e list acct_prog" where
  "load_entries parse path = bnd (getS (\<lambda>s. ac_files s path)) (\<lambda>f. case f of
     None \<Rightarrow> throw AcctMissing
   | Some (t, _) \<Rightarrow> liftE (read_entries parse t))"

definition file_text :: "('e \<Rightarrow> string) \<Rightarrow> 'e list \<Rightarrow> string" where
  "file_text ser es = concat (map (\<lambda>e. ser e @ [NL]) es)"

section \<open>Entries\<close>

text \<open>\<open>int\<close> on a text: white space around, a sign, digits with single underscores between them.\<close>

definition py_int :: "string \<Rightarrow> acct_exn + int" where
  "py_int s = (let t = py_strip s; neg = (take 1 t = ''-''); ds = (if neg \<or> take 1 t = ''+'' then drop 1 t else t);
       ps = split_on CHR ''_'' ds
     in if list_all (\<lambda>p. p \<noteq> [] \<and> list_all is_digit p) ps
        then Inr (if neg then - int (read_nat (concat ps)) else int (read_nat (concat ps)))
        else Inl AcctValue)"

definition py_int_or_none :: "string \<Rightarrow> acct_exn + int option" where
  "py_int_or_none s = (if s = [] then Inr None else bindE (py_int s) (\<lambda>i. Inr (Some i)))"

definition tool_parse_passwd :: "string \<Rightarrow> acct_exn + passwd_entry" where
  "tool_parse_passwd line = (let parts = split_on CHR '':'' line in
     if length parts \<noteq> 7 then Inl AcctValue
     else bindE (py_int (parts ! 2)) (\<lambda>u. bindE (py_int (parts ! 3)) (\<lambda>g.
       Inr \<lparr>pw_name = parts ! 0, pw_passwd = parts ! 1, pw_uid = u, pw_gid = g, pw_gecos = parts ! 4,
            pw_home = parts ! 5, pw_shell = parts ! 6\<rparr>)))"

definition serialize_passwd :: "passwd_entry \<Rightarrow> string" where
  "serialize_passwd e = join '':'' [pw_name e, pw_passwd e, show_int (pw_uid e), show_int (pw_gid e), pw_gecos e,
     pw_home e, pw_shell e]"

definition tool_parse_group :: "string \<Rightarrow> acct_exn + group_entry" where
  "tool_parse_group line = (let parts = split_on CHR '':'' line in
     if length parts \<noteq> 4 then Inl AcctValue
     else let members = (if parts ! 3 \<noteq> [] then split_on CHR '','' (parts ! 3) else []) in
       bindE (py_int (parts ! 2)) (\<lambda>g. Inr \<lparr>gr_name = parts ! 0, gr_passwd = parts ! 1, gr_gid = g,
         gr_members = filter (\<lambda>m. m \<noteq> []) members\<rparr>))"

definition serialize_group :: "group_entry \<Rightarrow> string" where
  "serialize_group e = join '':'' [gr_name e, gr_passwd e, show_int (gr_gid e), join '','' (gr_members e)]"

definition tool_parse_shadow :: "string \<Rightarrow> acct_exn + shadow_entry" where
  "tool_parse_shadow line = (let parts = split_on CHR '':'' line in
     if length parts \<noteq> 9 then Inl AcctValue
     else bindE (py_int_or_none (parts ! 2)) (\<lambda>l. bindE (py_int_or_none (parts ! 3)) (\<lambda>i.
       bindE (py_int_or_none (parts ! 4)) (\<lambda>a. bindE (py_int_or_none (parts ! 5)) (\<lambda>w.
       bindE (py_int_or_none (parts ! 6)) (\<lambda>n. bindE (py_int_or_none (parts ! 7)) (\<lambda>e.
         Inr \<lparr>sp_name = parts ! 0, sp_passwd = parts ! 1, sp_lastchg = l, sp_min = i, sp_max = a, sp_warn = w,
              sp_inactive = n, sp_expire = e, sp_flag = parts ! 8\<rparr>)))))))"

definition serialize_shadow :: "shadow_entry \<Rightarrow> string" where
  "serialize_shadow e = join '':'' [sp_name e, sp_passwd e, show_opt (sp_lastchg e), show_opt (sp_min e),
     show_opt (sp_max e), show_opt (sp_warn e), show_opt (sp_inactive e), show_opt (sp_expire e), sp_flag e]"

section \<open>One file\<close>

definition load_passwd :: "string \<Rightarrow> passwd_entry list acct_prog" where
  "load_passwd = load_entries tool_parse_passwd"

definition load_group :: "string \<Rightarrow> group_entry list acct_prog" where
  "load_group = load_entries tool_parse_group"

definition load_shadow :: "string \<Rightarrow> shadow_entry list acct_prog" where
  "load_shadow = load_entries tool_parse_shadow"

definition save_passwd :: "acct_env \<Rightarrow> string \<Rightarrow> passwd_entry list \<Rightarrow> unit acct_prog" where
  "save_passwd A path es = atomic_write A path (file_text serialize_passwd es) 420"

definition save_group :: "acct_env \<Rightarrow> string \<Rightarrow> group_entry list \<Rightarrow> unit acct_prog" where
  "save_group A path es = atomic_write A path (file_text serialize_group es) 420"

definition save_shadow :: "acct_env \<Rightarrow> string \<Rightarrow> shadow_entry list \<Rightarrow> unit acct_prog" where
  "save_shadow A path es = atomic_write A path (file_text serialize_shadow es) 384"

text \<open>A dictionary by name keeps the place of the first entry and the value of the last.\<close>

fun dict_put :: "('e \<Rightarrow> string) \<Rightarrow> 'e \<Rightarrow> 'e list \<Rightarrow> 'e list" where
  "dict_put nm e [] = [e]"
| "dict_put nm e (x # xs) = (if nm x = nm e then e # xs else x # dict_put nm e xs)"

definition dict_of :: "('e \<Rightarrow> string) \<Rightarrow> 'e list \<Rightarrow> 'e list" where
  "dict_of nm es = foldl (\<lambda>d e. dict_put nm e d) [] es"

definition upsert_passwd :: "acct_env \<Rightarrow> string \<Rightarrow> passwd_entry \<Rightarrow> unit acct_prog" where
  "upsert_passwd A path e = bnd (load_passwd path) (\<lambda>es. save_passwd A path (dict_put pw_name e (dict_of pw_name es)))"

definition upsert_group :: "acct_env \<Rightarrow> string \<Rightarrow> group_entry \<Rightarrow> unit acct_prog" where
  "upsert_group A path e = bnd (load_group path) (\<lambda>es. save_group A path (dict_put gr_name e (dict_of gr_name es)))"

definition upsert_shadow :: "acct_env \<Rightarrow> string \<Rightarrow> shadow_entry \<Rightarrow> unit acct_prog" where
  "upsert_shadow A path e = bnd (load_shadow path) (\<lambda>es. save_shadow A path (dict_put sp_name e (dict_of sp_name es)))"

definition delete_passwd_user :: "acct_env \<Rightarrow> string \<Rightarrow> string \<Rightarrow> unit acct_prog" where
  "delete_passwd_user A path user = bnd (load_passwd path) (\<lambda>es. save_passwd A path (filter (\<lambda>e. pw_name e \<noteq> user) es))"

definition delete_group_line :: "acct_env \<Rightarrow> string \<Rightarrow> string \<Rightarrow> unit acct_prog" where
  "delete_group_line A path grp = bnd (load_group path) (\<lambda>es. save_group A path (filter (\<lambda>e. gr_name e \<noteq> grp) es))"

definition delete_shadow_user :: "acct_env \<Rightarrow> string \<Rightarrow> string \<Rightarrow> unit acct_prog" where
  "delete_shadow_user A path user = bnd (load_shadow path) (\<lambda>es. save_shadow A path (filter (\<lambda>e. sp_name e \<noteq> user) es))"

text \<open>The loops that stop at the first entry found: \<open>None\<close> if there is none.\<close>

fun update_first :: "('e \<Rightarrow> bool) \<Rightarrow> ('e \<Rightarrow> 'e) \<Rightarrow> 'e list \<Rightarrow> 'e list option" where
  "update_first p f [] = None"
| "update_first p f (x # xs) = (if p x then Some (f x # xs) else map_option (Cons x) (update_first p f xs))"

definition tool_add_to_group :: "acct_env \<Rightarrow> string \<Rightarrow> string \<Rightarrow> string \<Rightarrow> unit acct_prog" where
  "tool_add_to_group A path grp user = bnd (load_group path) (\<lambda>es.
     case find (\<lambda>e. gr_name e = grp) es of
       None \<Rightarrow> ret ()
     | Some g \<Rightarrow> if user \<in> set (gr_members g) then ret ()
         else save_group A path (the (update_first (\<lambda>e. gr_name e = grp)
                (\<lambda>e. e\<lparr>gr_members := gr_members e @ [user]\<rparr>) es)))"

definition tool_remove_from_group :: "acct_env \<Rightarrow> string \<Rightarrow> string \<Rightarrow> string \<Rightarrow> unit acct_prog" where
  "tool_remove_from_group A path grp user = bnd (load_group path) (\<lambda>es.
     case update_first (\<lambda>e. gr_name e = grp \<and> user \<in> set (gr_members e))
            (\<lambda>e. e\<lparr>gr_members := remove1 user (gr_members e)\<rparr>) es of
       None \<Rightarrow> ret ()
     | Some es' \<Rightarrow> save_group A path es')"

definition set_shadow_password :: "acct_env \<Rightarrow> string \<Rightarrow> string \<Rightarrow> string \<Rightarrow> string \<Rightarrow> unit acct_prog" where
  "set_shadow_password A path user plaintext hash =
     (if plaintext = [] \<and> hash = [] then throw AcctValue
      else bnd (load_shadow path) (\<lambda>es.
           bnd (if hash \<noteq> [] then ret hash else getS (ae_crypt A plaintext)) (\<lambda>h.
           case update_first (\<lambda>e. sp_name e = user) (\<lambda>e. e\<lparr>sp_passwd := h, sp_lastchg := Some (ae_today A)\<rparr>) es of
             None \<Rightarrow> throw AcctKey
           | Some es' \<Rightarrow> save_shadow A path es')))"

definition locked_hash :: "string \<Rightarrow> string" where
  "locked_hash h = (if take 1 h = ''!'' then h else CHR ''!'' # h)"

definition unlocked_hash :: "string \<Rightarrow> string" where
  "unlocked_hash h = (let k = dropWhile (\<lambda>c. c = CHR ''!'') h in if k = [] then ''!'' else k)"

definition change_hash :: "(string \<Rightarrow> string) \<Rightarrow> acct_env \<Rightarrow> string \<Rightarrow> string \<Rightarrow> unit acct_prog" where
  "change_hash f A path user = bnd (load_shadow path) (\<lambda>es.
     case update_first (\<lambda>e. sp_name e = user) (\<lambda>e. e\<lparr>sp_passwd := f (sp_passwd e)\<rparr>) es of
       None \<Rightarrow> throw AcctKey
     | Some es' \<Rightarrow> save_shadow A path es')"

definition lock_shadow_account :: "acct_env \<Rightarrow> string \<Rightarrow> string \<Rightarrow> unit acct_prog" where
  "lock_shadow_account = change_hash locked_hash"

definition unlock_shadow_account :: "acct_env \<Rightarrow> string \<Rightarrow> string \<Rightarrow> unit acct_prog" where
  "unlock_shadow_account = change_hash unlocked_hash"

section \<open>Sudoers\<close>

text \<open>\<open>os.path.join\<close>.\<close>

definition path_join :: "string \<Rightarrow> string \<Rightarrow> string" where
  "path_join a b = (if take 1 b = ''/'' then b else if a = [] \<or> last a = CHR ''/'' then a @ b else a @ ''/'' @ b)"

definition default_policy :: "string \<Rightarrow> string" where
  "default_policy user = user @ '' ALL=(ALL) NOPASSWD:ALL''"

definition with_final_nl :: "string \<Rightarrow> string" where
  "with_final_nl t = (if t \<noteq> [] \<and> last t = NL then t else t @ [NL])"

text \<open>The file is written first and checked afterwards.\<close>

definition write_sudoers_user :: "acct_env \<Rightarrow> string \<Rightarrow> string \<Rightarrow> string option \<Rightarrow> bool \<Rightarrow> unit acct_prog" where
  "write_sudoers_user A dir user policy validate =
     (let target = path_join dir user;
          line = (case policy of None \<Rightarrow> default_policy user @ [NL] | Some p \<Rightarrow> p)
      in thn (atomic_write A target (with_final_nl line) 288)
         (if validate then bnd (getS (ae_visudo A target)) (\<lambda>v. case v of
              Some False \<Rightarrow> throw AcctSudoers
            | _ \<Rightarrow> ret ())
          else ret ()))"

definition delete_sudoers_user :: "acct_env \<Rightarrow> string \<Rightarrow> string \<Rightarrow> unit acct_prog" where
  "delete_sudoers_user A dir user =
     (let p = path_join dir user in bnd (getS (\<lambda>s. ac_files s p)) (\<lambda>f. case f of
        None \<Rightarrow> ret ()
      | Some _ \<Rightarrow> bnd (getS (ae_fails A p)) (\<lambda>fails.
          if fails then thn (modS (\<lambda>s. s\<lparr>ac_writes := Suc (ac_writes s)\<rparr>)) (throw AcctWrite)
          else modS (\<lambda>s. s\<lparr>ac_files := (ac_files s)(p := None), ac_writes := Suc (ac_writes s)\<rparr>))))"

section \<open>Accounts\<close>

record account_db =
  db_passwd :: string
  db_group :: string
  db_shadow :: string
  db_sudoers :: string

record new_user =
  nu_name :: string
  nu_uid :: int
  nu_gid :: int
  nu_home :: string
  nu_shell :: string
  nu_gecos :: string
  nu_plain :: string
  nu_hash :: string
  nu_sudo :: bool

definition passwd_of_user :: "new_user \<Rightarrow> passwd_entry" where
  "passwd_of_user u = \<lparr>pw_name = nu_name u, pw_passwd = ''x'', pw_uid = nu_uid u, pw_gid = nu_gid u,
     pw_gecos = nu_gecos u, pw_home = nu_home u, pw_shell = nu_shell u\<rparr>"

definition shadow_of_user :: "acct_env \<Rightarrow> new_user \<Rightarrow> string \<Rightarrow> shadow_entry" where
  "shadow_of_user A u h = \<lparr>sp_name = nu_name u, sp_passwd = h,
     sp_lastchg = (if nu_plain u \<noteq> [] \<or> nu_hash u \<noteq> [] then Some (ae_today A) else None),
     sp_min = Some 0, sp_max = Some 99999, sp_warn = Some 7, sp_inactive = None, sp_expire = None, sp_flag = []\<rparr>"

definition create_user :: "acct_env \<Rightarrow> account_db \<Rightarrow> new_user \<Rightarrow> unit acct_prog" where
  "create_user A D u =
     bnd (load_passwd (db_passwd D)) (\<lambda>ps.
     if list_ex (\<lambda>e. pw_name e = nu_name u) ps then throw AcctValue
     else thn (save_passwd A (db_passwd D) (ps @ [passwd_of_user u]))
     (bnd (load_shadow (db_shadow D)) (\<lambda>ss.
     if list_ex (\<lambda>e. sp_name e = nu_name u) ss then throw AcctValue
     else bnd (if nu_hash u \<noteq> [] then ret (nu_hash u) else if nu_plain u = [] then ret ''!''
               else getS (ae_crypt A (nu_plain u))) (\<lambda>h.
     thn (save_shadow A (db_shadow D) (ss @ [shadow_of_user A u h]))
     (if nu_sudo u then write_sudoers_user A (db_sudoers D) (nu_name u) (Some (default_policy (nu_name u))) True
      else ret ())))))"

definition drop_member :: "string \<Rightarrow> group_entry \<Rightarrow> group_entry" where
  "drop_member user g = g\<lparr>gr_members := remove1 user (gr_members g)\<rparr>"

definition delete_user :: "acct_env \<Rightarrow> account_db \<Rightarrow> string \<Rightarrow> bool \<Rightarrow> unit acct_prog" where
  "delete_user A D user with_sudo =
     thn (delete_passwd_user A (db_passwd D) user)
    (thn (delete_shadow_user A (db_shadow D) user)
    (bnd (load_group (db_group D)) (\<lambda>gs.
     thn (save_group A (db_group D) (map (drop_member user) gs))
     (if with_sudo then delete_sudoers_user A (db_sudoers D) user else ret ()))))"

definition ensure_group :: "acct_env \<Rightarrow> account_db \<Rightarrow> string \<Rightarrow> int \<Rightarrow> string \<Rightarrow> unit acct_prog" where
  "ensure_group A D grp gid passwd = bnd (load_group (db_group D)) (\<lambda>gs.
     if list_ex (\<lambda>g. gr_name g = grp) gs then ret ()
     else save_group A (db_group D) (gs @ [\<lparr>gr_name = grp, gr_passwd = passwd, gr_gid = gid, gr_members = []\<rparr>]))"

end
