(* ===== verification/Account_Tool_Props.thy ===== *)
theory Account_Tool_Props
  imports Account_Tool
begin

text \<open>
  What the account tool guarantees: entries whose fields fit on a line survive writing and reading, so that a
  deletion undoes a creation; and what it does not: fields are not checked, so a comment field can
  carry a whole further line.
\<close>

section \<open>Texts and lines\<close>

definition fits :: "string \<Rightarrow> bool" where
  "fits f \<longleftrightarrow> CHR '':'' \<notin> set f \<and> NL \<notin> set f \<and> CR \<notin> set f"

lemma plain_fits: "plain_field f \<Longrightarrow> fits f"
  by (auto simp: fits_def plain_field_def unbroken_def)

lemma fits_simps [simp]: "fits (show_int i)" "fits (show_opt v)" "fits []"
  by (simp_all add: plain_fits)

lemma universal_id: "CR \<notin> set s \<Longrightarrow> universal s = s"
  by (induction s) auto

lemma universal_no_CR: "CR \<notin> set (universal s)"
  by (induction s rule: universal.induct) auto

lemma split_on_subset: "p \<in> set (split_on c s) \<Longrightarrow> set p \<subseteq> set s"
  by (induction s arbitrary: p) (fastforce split: list.splits if_splits)+

lemma split_lines:
  "\<forall>l\<in>set ls. NL \<notin> set l \<Longrightarrow> split_on NL (concat (map (\<lambda>l. l @ [NL]) ls)) = ls @ [[]]"
  by (induction ls) (auto simp: split_on_sep)

lemma text_lines_of:
  assumes "\<forall>e\<in>set es. NL \<notin> set (ser e) \<and> CR \<notin> set (ser e)"
  shows "text_lines (file_text ser es) = map ser es"
proof -
  have "universal (file_text ser es) = file_text ser es"
    using assms by (intro universal_id) (auto simp: file_text_def)
  moreover have "split_on NL (file_text ser es) = map ser es @ [[]]"
    using assms split_lines[of "map ser es"] by (simp add: file_text_def comp_def)
  ultimately show ?thesis by (simp add: text_lines_def Let_def)
qed

lemma text_lines_clean: "l \<in> set (text_lines t) \<Longrightarrow> NL \<notin> set l \<and> CR \<notin> set l"
  using split_on_subset[of l NL "universal t"] universal_no_CR[of t]
  by (auto simp: text_lines_def Let_def dest: split_on_no_sep in_set_butlastD split: if_splits)

lemma py_strip_ne:
  assumes "c \<in> set s" "\<not> is_space c"
  shows "py_strip s \<noteq> []"
proof -
  let ?t = "dropWhile is_space s"
  have t: "?t \<noteq> []" using assms by (simp add: dropWhile_eq_Nil_conv) blast
  then have "\<not> is_space (hd ?t)" by (rule hd_dropWhile)
  with t have "\<exists>x\<in>set (rev ?t). \<not> is_space x" by (metis list.set_sel(1) set_rev)
  then show ?thesis by (simp add: py_strip_def dropWhile_eq_Nil_conv)
qed

section \<open>Numbers\<close>

lemma strip_unspaced:
  assumes "\<forall>c\<in>set s. \<not> is_space c"
  shows "py_strip s = s"
proof -
  have "dropWhile is_space t = t" if "\<forall>c\<in>set t. \<not> is_space c" for t using that by (cases t) auto
  from this[of s] this[of "rev s"] assms show ?thesis by (simp add: py_strip_def)
qed

lemma digit_plain: "is_digit c \<Longrightarrow> \<not> is_space c \<and> c \<noteq> CHR ''_'' \<and> c \<noteq> CHR ''-'' \<and> c \<noteq> CHR ''+''"
  by (auto simp: is_digit_def is_space_def)

lemma py_int_show [simp]: "py_int (show_int i) = Inr i"
proof -
  have d: "list_all is_digit (show_nat n)" "show_nat n \<noteq> []" for n using show_nat_digits by auto
  have s: "py_strip (show_int i) = show_int i"
    using d digit_plain by (intro strip_unspaced) (auto simp: show_int_def list_all_iff is_space_def)
  have n: "split_on CHR ''_'' (show_nat n) = [show_nat n]" for n
    using d[of n] digit_plain by (intro split_on_plain) (auto simp: list_all_iff)
  have f: "take 1 (show_nat n) \<noteq> ''-'' \<and> take 1 (show_nat n) \<noteq> ''+''" for n
    using d[of n] digit_plain by (cases "show_nat n") (auto simp: list_all_iff)
  show ?thesis
    using d n f by (simp add: py_int_def s Let_def) (simp add: show_int_def)
qed

lemma py_int_or_none_show [simp]: "py_int_or_none (show_opt v) = Inr v"
proof -
  have "show_int i \<noteq> []" for i using show_nat_digits by (auto simp: show_int_def)
  then show ?thesis by (cases v) (auto simp: py_int_or_none_def show_opt_def)
qed

section \<open>The interface of an entry format\<close>

text \<open>A format with the entries it can hold: they parse back, stay on a line that is not blank, and whatever
  was read from a line is one of them.\<close>

definition entries_at :: "(string \<Rightarrow> acct_exn + 'e) \<Rightarrow> (string \<rightharpoonup> string \<times> nat) \<Rightarrow> string \<Rightarrow> acct_exn + 'e list" where
  "entries_at parse F path = (case F path of None \<Rightarrow> Inl AcctMissing | Some (t, m) \<Rightarrow> read_entries parse t)"

lemma entries_at_same: "F path = G path \<Longrightarrow> entries_at parse F path = entries_at parse G path"
  by (simp add: entries_at_def)

locale entry_format =
  fixes parse :: "string \<Rightarrow> acct_exn + 'e"
    and ser :: "'e \<Rightarrow> string"
    and fit :: "'e \<Rightarrow> bool"
  assumes parse_ser: "fit e \<Longrightarrow> parse (ser e) = Inr e"
    and ser_line: "fit e \<Longrightarrow> NL \<notin> set (ser e) \<and> CR \<notin> set (ser e) \<and> CHR '':'' \<in> set (ser e)"
    and parse_fit: "parse l = Inr e \<Longrightarrow> NL \<notin> set l \<Longrightarrow> CR \<notin> set l \<Longrightarrow> fit e"
begin

lemma read_text: "\<forall>e\<in>set es. fit e \<Longrightarrow> read_entries parse (file_text ser es) = Inr es"
proof -
  assume fit: "\<forall>e\<in>set es. fit e"
  have "py_strip (ser e) \<noteq> []" if "e \<in> set es" for e
    using fit that ser_line[of e] by (intro py_strip_ne[of "CHR '':''"]) (auto simp: is_space_def)
  then have "filter (\<lambda>l. py_strip l \<noteq> []) (map ser es) = map ser es" by (auto simp: filter_id_conv)
  moreover have "text_lines (file_text ser es) = map ser es"
    using fit ser_line by (intro text_lines_of) auto
  moreover have "mapE parse (map ser es) = Inr es"
    using fit by (induction es) (auto simp: parse_ser)
  ultimately show ?thesis by (simp add: read_entries_def)
qed

lemma read_fit: "read_entries parse t = Inr es \<Longrightarrow> e \<in> set es \<Longrightarrow> fit e"
  unfolding read_entries_def by (drule (1) mapE_Inr_in) (auto dest: text_lines_clean intro: parse_fit)

lemma load_at: "result_of (load_entries parse path) s = entries_at parse (ac_files s) path"
  by (simp add: load_entries_def entries_at_def run split: option.split)

lemma wp_load: "wp (load_entries parse path) Q R =
    (\<lambda>s. case entries_at parse (ac_files s) path of Inl e \<Rightarrow> R e s | Inr es \<Rightarrow> Q es s)"
  by (rule ext) (simp add: load_entries_def entries_at_def wp_simps split: option.split sum.split)

lemma at_fit: "entries_at parse F path = Inr es \<Longrightarrow> e \<in> set es \<Longrightarrow> fit e"
  using read_fit by (auto simp: entries_at_def split: option.splits)

end

definition passwd_fits :: "passwd_entry \<Rightarrow> bool" where
  "passwd_fits e \<longleftrightarrow> fits (pw_name e) \<and> fits (pw_passwd e) \<and> fits (pw_gecos e) \<and> fits (pw_home e) \<and> fits (pw_shell e)"

definition group_fits :: "group_entry \<Rightarrow> bool" where
  "group_fits e \<longleftrightarrow> fits (gr_name e) \<and> fits (gr_passwd e) \<and>
     (\<forall>m\<in>set (gr_members e). fits m \<and> m \<noteq> [] \<and> CHR '','' \<notin> set m)"

definition shadow_fits :: "shadow_entry \<Rightarrow> bool" where
  "shadow_fits e \<longleftrightarrow> fits (sp_name e) \<and> fits (sp_passwd e) \<and> fits (sp_flag e)"

lemma fits_part: "p \<in> set (split_on CHR '':'' l) \<Longrightarrow> NL \<notin> set l \<Longrightarrow> CR \<notin> set l \<Longrightarrow> fits p"
  using split_on_subset[of p "CHR '':''" l] by (auto simp: fits_def dest: split_on_no_sep)

lemma join_clean: "c \<notin> set sep \<Longrightarrow> \<forall>l\<in>set ls. c \<notin> set l \<Longrightarrow> c \<notin> set (join sep ls)"
proof (induction ls)
  case (Cons l ls)
  then show ?case by (cases "ls = []") (auto simp: join_Cons)
qed simp

lemma fits_members: "\<forall>m\<in>set ms. fits m \<Longrightarrow> fits (join '','' ms)"
  by (auto simp: fits_def join_clean)

lemma split_fields: "ps \<noteq> [] \<Longrightarrow> \<forall>p\<in>set ps. fits p \<Longrightarrow> split_on CHR '':'' (join '':'' ps) = ps"
  by (rule split_on_join) (auto simp: fits_def)

lemma line_clean:
  assumes "\<forall>p\<in>set ps. fits p" "2 \<le> length ps"
  shows "NL \<notin> set (join '':'' ps) \<and> CR \<notin> set (join '':'' ps) \<and> CHR '':'' \<in> set (join '':'' ps)"
proof -
  obtain p q rest where "ps = p # q # rest" using assms(2) by (metis Suc_le_length_iff numeral_2_eq_2)
  with assms(1) show ?thesis by (auto simp: fits_def join_clean)
qed

lemma passwd_parts:
  "tool_parse_passwd l = Inr e \<Longrightarrow> {pw_name e, pw_passwd e, pw_gecos e, pw_home e, pw_shell e} \<subseteq> set (split_on CHR '':'' l)"
  by (auto simp: tool_parse_passwd_def Let_def bindE_Inr_iff split: if_splits)

interpretation tool_passwd: entry_format tool_parse_passwd serialize_passwd passwd_fits
proof unfold_locales
  fix e assume e: "passwd_fits e"
  show "tool_parse_passwd (serialize_passwd e) = Inr e"
    unfolding tool_parse_passwd_def serialize_passwd_def
    using e by (subst split_fields) (auto simp: passwd_fits_def Let_def)
  show "NL \<notin> set (serialize_passwd e) \<and> CR \<notin> set (serialize_passwd e) \<and> CHR '':'' \<in> set (serialize_passwd e)"
    unfolding serialize_passwd_def using e by (intro line_clean) (auto simp: passwd_fits_def)
next
  fix l e assume "tool_parse_passwd l = Inr e" "NL \<notin> set l" "CR \<notin> set l"
  then show "passwd_fits e"
    using passwd_parts[of l e] fits_part[of _ l] by (simp add: passwd_fits_def)
qed

lemma group_parts:
  assumes "tool_parse_group l = Inr e"
  shows "{gr_name e, gr_passwd e} \<subseteq> set (split_on CHR '':'' l) \<and>
     (\<exists>f\<in>set (split_on CHR '':'' l). \<forall>m\<in>set (gr_members e). m \<noteq> [] \<and> m \<in> set (split_on CHR '','' f))"
proof -
  let ?ps = "split_on CHR '':'' l"
  have n: "length ?ps = 4" using assms by (auto simp: tool_parse_group_def Let_def split: if_splits)
  then have "?ps ! 3 \<in> set ?ps" "?ps ! 0 \<in> set ?ps" "?ps ! 1 \<in> set ?ps" by simp_all
  moreover obtain g where "e = \<lparr>gr_name = ?ps ! 0, gr_passwd = ?ps ! 1, gr_gid = g, gr_members =
      filter (\<lambda>m. m \<noteq> []) (if ?ps ! 3 \<noteq> [] then split_on CHR '','' (?ps ! 3) else [])\<rparr>"
    using assms n by (auto simp: tool_parse_group_def Let_def bindE_Inr_iff simp del: split_on.simps)
  ultimately show ?thesis by (auto simp del: split_on.simps)
qed

interpretation tool_group: entry_format tool_parse_group serialize_group group_fits
proof unfold_locales
  fix e assume e: "group_fits e"
  have "filter (\<lambda>m. m \<noteq> []) (split_on CHR '','' (join '','' (gr_members e))) = gr_members e"
    using e by (intro filter_split_join) (auto simp: group_fits_def)
  then show "tool_parse_group (serialize_group e) = Inr e"
    unfolding tool_parse_group_def serialize_group_def
    using e by (subst split_fields) (auto simp: group_fits_def fits_members Let_def)
  show "NL \<notin> set (serialize_group e) \<and> CR \<notin> set (serialize_group e) \<and> CHR '':'' \<in> set (serialize_group e)"
    unfolding serialize_group_def using e by (intro line_clean) (auto simp: group_fits_def fits_members)
next
  fix l e assume l: "tool_parse_group l = Inr e" "NL \<notin> set l" "CR \<notin> set l"
  have part: "fits m \<and> CHR '','' \<notin> set m" if "fits f" "m \<in> set (split_on CHR '','' f)" for m f
    using that(1) split_on_subset[OF that(2)] split_on_no_sep[OF that(2)] unfolding fits_def by blast
  obtain f where f: "f \<in> set (split_on CHR '':'' l)" "\<forall>m\<in>set (gr_members e). m \<noteq> [] \<and> m \<in> set (split_on CHR '','' f)"
    "gr_name e \<in> set (split_on CHR '':'' l)" "gr_passwd e \<in> set (split_on CHR '':'' l)"
    using group_parts[OF l(1)] by blast
  from fits_part[OF f(1) l(2,3)] fits_part[OF f(3) l(2,3)] fits_part[OF f(4) l(2,3)] f(2) show "group_fits e"
    by (simp add: group_fits_def part)
qed

lemma shadow_parts:
  "tool_parse_shadow l = Inr e \<Longrightarrow> {sp_name e, sp_passwd e, sp_flag e} \<subseteq> set (split_on CHR '':'' l)"
  by (auto simp: tool_parse_shadow_def Let_def bindE_Inr_iff split: if_splits)

interpretation tool_shadow: entry_format tool_parse_shadow serialize_shadow shadow_fits
proof unfold_locales
  fix e assume e: "shadow_fits e"
  show "tool_parse_shadow (serialize_shadow e) = Inr e"
    unfolding tool_parse_shadow_def serialize_shadow_def
    using e by (subst split_fields) (auto simp: shadow_fits_def Let_def)
  show "NL \<notin> set (serialize_shadow e) \<and> CR \<notin> set (serialize_shadow e) \<and> CHR '':'' \<in> set (serialize_shadow e)"
    unfolding serialize_shadow_def using e by (intro line_clean) (auto simp: shadow_fits_def)
next
  fix l e assume "tool_parse_shadow l = Inr e" "NL \<notin> set l" "CR \<notin> set l"
  then show "shadow_fits e"
    using shadow_parts[of l e] fits_part[of _ l] by (simp add: shadow_fits_def)
qed

section \<open>Creating and deleting\<close>

lemmas load_defs = load_passwd_def load_group_def load_shadow_def

lemmas wp_loads = tool_passwd.wp_load[folded load_passwd_def] tool_group.wp_load[folded load_group_def]
  tool_shadow.wp_load[folded load_shadow_def]

lemmas load_ats = tool_passwd.load_at[folded load_passwd_def] tool_group.load_at[folded load_group_def]
  tool_shadow.load_at[folded load_shadow_def]

lemma wp_atomic_write: "wp (atomic_write A path text mode) Q R = (\<lambda>s.
    if ae_fails A path s then R AcctWrite (s\<lparr>ac_writes := Suc (ac_writes s)\<rparr>)
    else Q () (s\<lparr>ac_files := (ac_files s)(path \<mapsto> (text, mode)), ac_writes := Suc (ac_writes s)\<rparr>))"
  by (rule ext) (simp add: atomic_write_def wp_simps)

lemmas saves = save_passwd_def save_group_def save_shadow_def

text \<open>The three files and the file of the user in \<open>sudoers.d\<close> are four.\<close>

definition four_files :: "account_db \<Rightarrow> string \<Rightarrow> bool" where
  "four_files D user \<longleftrightarrow> distinct [db_passwd D, db_group D, db_shadow D, path_join (db_sudoers D) user]"

definition user_fits :: "new_user \<Rightarrow> bool" where
  "user_fits u \<longleftrightarrow> fits (nu_name u) \<and> fits (nu_gecos u) \<and> fits (nu_home u) \<and> fits (nu_shell u) \<and> fits (nu_hash u)"

definition crypt_fits :: "acct_env \<Rightarrow> bool" where
  "crypt_fits A \<longleftrightarrow> (\<forall>p s. fits (ae_crypt A p s))"

text \<open>What the three files hold.\<close>

definition accounts_at :: "account_db \<Rightarrow> acct \<Rightarrow> (acct_exn + passwd_entry list) \<times> (acct_exn + shadow_entry list) \<times>
    (acct_exn + group_entry list)" where
  "accounts_at D s = (entries_at tool_parse_passwd (ac_files s) (db_passwd D),
     entries_at tool_parse_shadow (ac_files s) (db_shadow D), entries_at tool_parse_group (ac_files s) (db_group D))"

lemma accounts_other:
  "p \<noteq> db_passwd D \<Longrightarrow> p \<noteq> db_shadow D \<Longrightarrow> p \<noteq> db_group D \<Longrightarrow> ac_files t = (ac_files s)(p := x) \<Longrightarrow>
     accounts_at D t = accounts_at D s"
  by (simp add: accounts_at_def entries_at_def)

lemma wp_sudoers:
  assumes "four_files D user" "accounts_at D s = a"
  shows "wp (write_sudoers_user A (db_sudoers D) user policy v) (\<lambda>_ t. accounts_at D t = a) (\<lambda>_ _. True) s"
  using assms accounts_other[of "path_join (db_sudoers D) user" D _ s]
  by (auto simp: write_sudoers_user_def Let_def wp_simps wp_atomic_write four_files_def split: option.split bool.split)

lemma wp_create_user:
  assumes "four_files D (nu_name u)" "user_fits u" "crypt_fits A" "accounts_at D s = (Inr ps, Inr ss, g)"
  shows "wp (create_user A D u)
     (\<lambda>_ t. nu_name u \<notin> pw_name ` set ps \<and> nu_name u \<notin> sp_name ` set ss \<and>
        (\<exists>h. accounts_at D t = (Inr (ps @ [passwd_of_user u]), Inr (ss @ [shadow_of_user A u h]), g)))
     (\<lambda>_ _. True) s"
proof -
  let ?Q = "\<lambda>_ t. nu_name u \<notin> pw_name ` set ps \<and> nu_name u \<notin> sp_name ` set ss \<and>
        (\<exists>h. accounts_at D t = (Inr (ps @ [passwd_of_user u]), Inr (ss @ [shadow_of_user A u h]), g))"
  let ?t = "\<lambda>h. s\<lparr>ac_files := (ac_files s)(db_passwd D \<mapsto> (file_text serialize_passwd (ps @ [passwd_of_user u]), 420),
     db_shadow D \<mapsto> (file_text serialize_shadow (ss @ [shadow_of_user A u h]), 384)), ac_writes := Suc (Suc (ac_writes s))\<rparr>"
  have d: "db_passwd D \<noteq> db_shadow D" "db_passwd D \<noteq> db_group D" "db_shadow D \<noteq> db_group D"
    using assms(1) by (auto simp: four_files_def)
  have at: "entries_at tool_parse_passwd (ac_files s) (db_passwd D) = Inr ps"
    "entries_at tool_parse_shadow (ac_files s) (db_shadow D) = Inr ss"
    "entries_at tool_parse_group (ac_files s) (db_group D) = g"
    using assms(4) by (simp_all add: accounts_at_def)
  have written: "accounts_at D (?t h) = (Inr (ps @ [passwd_of_user u]), Inr (ss @ [shadow_of_user A u h]), g)"
    if "fits h" for h
  proof -
    have "\<forall>e\<in>set (ps @ [passwd_of_user u]). passwd_fits e" "\<forall>e\<in>set (ss @ [shadow_of_user A u h]). shadow_fits e"
      using tool_passwd.at_fit[OF at(1)] tool_shadow.at_fit[OF at(2)] assms(2) that
      by (auto simp: user_fits_def passwd_of_user_def shadow_of_user_def passwd_fits_def shadow_fits_def fits_def)
    from tool_passwd.read_text[OF this(1)] tool_shadow.read_text[OF this(2)]
    show ?thesis using d at(3) by (simp add: accounts_at_def entries_at_def)
  qed
  have hash: "fits (nu_hash u)" "fits ''!''" "fits (ae_crypt A p v)" for p v
    using assms(2,3) by (simp_all add: user_fits_def crypt_fits_def) (simp add: fits_def)
  have last: "wp (if nu_sudo u then write_sudoers_user A (db_sudoers D) (nu_name u) (Some (default_policy (nu_name u))) True
      else ret ()) ?Q (\<lambda>_ _. True) (?t h)"
    if "fits h" "\<forall>e\<in>set ps. pw_name e \<noteq> nu_name u" "\<forall>e\<in>set ss. sp_name e \<noteq> nu_name u" for h
    using written[OF that(1)] that(2,3)
    by (auto simp: wp_ret intro!: wp_weaken[OF wp_sudoers[OF assms(1) written[OF that(1)]]])
  have sh: "entries_at tool_parse_shadow ((ac_files s)(db_passwd D \<mapsto> x)) (db_shadow D) = Inr ss" for x
    using at(2) d by (simp add: entries_at_def)
  show ?thesis
    unfolding create_user_def saves
    using last[OF hash(1)] last[OF hash(2)] last[OF hash(3)]
    by (simp add: wp_simps wp_loads wp_atomic_write at sh list_ex_iff del: fun_upd_apply split: if_splits)
qed

lemma drop_member_fits: "group_fits g \<Longrightarrow> group_fits (drop_member user g)"
  using set_remove1_subset[of user "gr_members g"] unfolding group_fits_def drop_member_def by (simp add: subset_iff)

text \<open>A loaded file that is written back without some of its entries.\<close>

lemma wp_delete_user:
  assumes "four_files D user" "accounts_at D s = (Inr ps, Inr ss, Inr gs)"
  shows "wp (delete_user A D user w)
     (\<lambda>_ t. accounts_at D t = (Inr (filter (\<lambda>e. pw_name e \<noteq> user) ps), Inr (filter (\<lambda>e. sp_name e \<noteq> user) ss),
        Inr (map (drop_member user) gs)))
     (\<lambda>_ _. True) s"
proof -
  let ?ps = "filter (\<lambda>e. pw_name e \<noteq> user) ps" and ?ss = "filter (\<lambda>e. sp_name e \<noteq> user) ss"
    and ?gs = "map (drop_member user) gs"
  let ?F = "(ac_files s)(db_passwd D \<mapsto> (file_text serialize_passwd ?ps, 420))"
  let ?G = "?F(db_shadow D \<mapsto> (file_text serialize_shadow ?ss, 384))"
  let ?H = "?G(db_group D \<mapsto> (file_text serialize_group ?gs, 420))"
  have d: "db_passwd D \<noteq> db_shadow D" "db_passwd D \<noteq> db_group D" "db_shadow D \<noteq> db_group D"
    and j: "path_join (db_sudoers D) user \<notin> {db_passwd D, db_shadow D, db_group D}"
    using assms(1) by (auto simp: four_files_def)
  have at: "entries_at tool_parse_passwd (ac_files s) (db_passwd D) = Inr ps"
    "entries_at tool_parse_shadow (ac_files s) (db_shadow D) = Inr ss"
    "entries_at tool_parse_group (ac_files s) (db_group D) = Inr gs"
    using assms(2) by (simp_all add: accounts_at_def)
  have seen: "entries_at tool_parse_shadow ?F (db_shadow D) = Inr ss" "entries_at tool_parse_group ?G (db_group D) = Inr gs"
    using at(2,3) d by (simp_all add: entries_at_def)
  have fit: "\<forall>e\<in>set ?ps. passwd_fits e" "\<forall>e\<in>set ?ss. shadow_fits e" "\<forall>e\<in>set ?gs. group_fits e"
    using tool_passwd.at_fit[OF at(1)] tool_shadow.at_fit[OF at(2)] tool_group.at_fit[OF at(3)]
    by (simp_all add: drop_member_fits)
  have last: "accounts_at D t = (Inr ?ps, Inr ?ss, Inr ?gs)" if "ac_files t = ?H" for t
    using tool_passwd.read_text[OF fit(1)] tool_shadow.read_text[OF fit(2)] tool_group.read_text[OF fit(3)] d that
    by (simp add: accounts_at_def entries_at_def)
  have last': "accounts_at D t = (Inr ?ps, Inr ?ss, Inr ?gs)"
    if "ac_files t = ?H(path_join (db_sudoers D) user := x)" for t x
    using last[of "t\<lparr>ac_files := ?H\<rparr>"] accounts_other[of "path_join (db_sudoers D) user" D t "t\<lparr>ac_files := ?H\<rparr>" x] that j
    by simp
  show ?thesis
    unfolding delete_user_def delete_passwd_user_def delete_shadow_user_def delete_sudoers_user_def saves Let_def
    by (auto simp: wp_simps wp_loads wp_atomic_write at seen last last' simp del: fun_upd_apply split: option.split)
qed

lemma creation_undone:
  assumes "four_files D (nu_name u)" and "user_fits u" and "crypt_fits A"
    and "create_user A D u s = (Inr (), t)" and "delete_user A D (nu_name u) w t = (Inr (), v)"
    and "accounts_at D s = (Inr ps, Inr ss, Inr gs)"
  shows "accounts_at D v = (Inr ps, Inr ss, Inr (map (drop_member (nu_name u)) gs))"
proof -
  from wp_Inr[OF wp_create_user[OF assms(1-3,6)] assms(4)] obtain h where
    n: "nu_name u \<notin> pw_name ` set ps" "nu_name u \<notin> sp_name ` set ss" and
    t: "accounts_at D t = (Inr (ps @ [passwd_of_user u]), Inr (ss @ [shadow_of_user A u h]), Inr gs)" by blast
  have "filter (\<lambda>e. pw_name e \<noteq> nu_name u) (ps @ [passwd_of_user u]) = ps"
    "filter (\<lambda>e. sp_name e \<noteq> nu_name u) (ss @ [shadow_of_user A u h]) = ss"
    using n by (simp_all add: passwd_of_user_def shadow_of_user_def) (force intro!: filter_True)+
  with wp_Inr[OF wp_delete_user[OF assms(1) t] assms(5)] show ?thesis by simp
qed

text \<open>Nothing fails: every write is done, and \<open>visudo\<close> is not there or has no complaint.\<close>

definition reliable :: "acct_env \<Rightarrow> bool" where
  "reliable A \<longleftrightarrow> (\<forall>p s. \<not> ae_fails A p s \<and> ae_visudo A p s \<noteq> Some False)"

lemma sudoers_return:
  assumes "reliable A"
  shows "wp (write_sudoers_user A dir user policy v) (\<lambda>_ _. True) (\<lambda>_ _. False) s"
proof -
  have "\<not> ae_fails A p t" "ae_visudo A p t \<noteq> Some False" for p t using assms by (simp_all add: reliable_def)
  then show ?thesis
    unfolding write_sudoers_user_def Let_def by (auto simp: wp_simps wp_atomic_write split: option.split bool.split)
qed

lemma create_returns:
  assumes "reliable A" "four_files D (nu_name u)" "accounts_at D s = (Inr ps, Inr ss, g)"
    and "nu_name u \<notin> pw_name ` set ps" "nu_name u \<notin> sp_name ` set ss"
  shows "\<exists>t. create_user A D u s = (Inr (), t)"
proof -
  have at: "entries_at tool_parse_passwd (ac_files s) (db_passwd D) = Inr ps"
    "entries_at tool_parse_shadow ((ac_files s)(db_passwd D \<mapsto> x)) (db_shadow D) = Inr ss" for x
    using assms(2,3) by (auto simp: accounts_at_def entries_at_def four_files_def)
  have n: "\<not> list_ex (\<lambda>e. pw_name e = nu_name u) ps" "\<not> list_ex (\<lambda>e. sp_name e = nu_name u) ss"
    using assms(4,5) by (force simp: list_ex_iff)+
  have "wp (create_user A D u) (\<lambda>_ _. True) (\<lambda>_ _. False) s"
    unfolding create_user_def saves using assms(1) n sudoers_return[OF assms(1)]
    by (simp add: wp_simps wp_loads wp_atomic_write at reliable_def del: fun_upd_apply)
  then show ?thesis by (auto simp: wp_def split: prod.splits sum.splits)
qed

lemma delete_returns:
  assumes "reliable A" "four_files D user" "accounts_at D s = (Inr ps, Inr ss, Inr gs)"
  shows "\<exists>t. delete_user A D user w s = (Inr (), t)"
proof -
  have at: "entries_at tool_parse_passwd (ac_files s) (db_passwd D) = Inr ps"
    "entries_at tool_parse_shadow ((ac_files s)(db_passwd D \<mapsto> x)) (db_shadow D) = Inr ss"
    "entries_at tool_parse_group ((ac_files s)(db_passwd D \<mapsto> x, db_shadow D \<mapsto> y)) (db_group D) = Inr gs" for x y
    using assms(2,3) by (auto simp: accounts_at_def entries_at_def four_files_def)
  have "wp (delete_user A D user w) (\<lambda>_ _. True) (\<lambda>_ _. False) s"
    unfolding delete_user_def delete_passwd_user_def delete_shadow_user_def delete_sudoers_user_def saves Let_def
    using assms(1)
    by (auto simp: wp_simps wp_loads wp_atomic_write at reliable_def simp del: fun_upd_apply split: option.split)
  then show ?thesis by (auto simp: wp_def split: prod.splits sum.splits)
qed

text \<open>C35: Creating a user who is in neither passwd nor shadow and deleting it again succeeds when nothing outside fails, and brings the files back: if no field of the new user carries a colon or a line end, the entries of passwd and shadow are afterwards those from before, in their order and whatever else they hold, and the user is struck from the member lists of the groups.\<close>

theorem deletion_undoes_creation:
  assumes "reliable A" and "crypt_fits A" and "four_files D (nu_name u)" and "user_fits u"
    and "result_of (load_passwd (db_passwd D)) s = Inr ps" and "nu_name u \<notin> pw_name ` set ps"
    and "result_of (load_shadow (db_shadow D)) s = Inr ss" and "nu_name u \<notin> sp_name ` set ss"
    and "result_of (load_group (db_group D)) s = Inr gs"
  shows "\<exists>t v. create_user A D u s = (Inr (), t) \<and> delete_user A D (nu_name u) w t = (Inr (), v) \<and>
    result_of (load_passwd (db_passwd D)) v = Inr ps \<and> result_of (load_shadow (db_shadow D)) v = Inr ss \<and>
    result_of (load_group (db_group D)) v = Inr (map (drop_member (nu_name u)) gs)"
proof -
  have s: "accounts_at D s = (Inr ps, Inr ss, Inr gs)" using assms(5,7,9) by (simp add: accounts_at_def load_ats)
  obtain t where t: "create_user A D u s = (Inr (), t)"
    using create_returns[OF assms(1,3) s assms(6,8)] by blast
  obtain h where "accounts_at D t = (Inr (ps @ [passwd_of_user u]), Inr (ss @ [shadow_of_user A u h]), Inr gs)"
    using wp_Inr[OF wp_create_user[OF assms(3,4,2) s] t] by blast
  from delete_returns[OF assms(1,3) this] obtain v where v: "delete_user A D (nu_name u) w t = (Inr (), v)" by blast
  from creation_undone[OF assms(3,4,2) t v s] t v show ?thesis by (simp add: accounts_at_def load_ats)
qed

text \<open>Two accounts and a group, no failures and no \<open>visudo\<close>.\<close>

definition tool0 :: acct_env where
  "tool0 = \<lparr>ae_fails = (\<lambda>p s. False), ae_crypt = (\<lambda>p s. ''h''), ae_today = 20000, ae_visudo = (\<lambda>p s. None)\<rparr>"

definition db0 :: account_db where
  "db0 = \<lparr>db_passwd = ''p'', db_group = ''g'', db_shadow = ''s'', db_sudoers = ''d''\<rparr>"

definition acct_empty :: acct where
  "acct_empty = \<lparr>ac_files = (\<lambda>f. if f \<in> {''p'', ''g'', ''s''} then Some ([], 420) else None), ac_writes = 0\<rparr>"

definition new_jy :: new_user where
  "new_jy = \<lparr>nu_name = ''jy'', nu_uid = 7, nu_gid = 7, nu_home = ''h'', nu_shell = ''b'', nu_gecos = [], nu_plain = [],
     nu_hash = ''h'', nu_sudo = True\<rparr>"

lemma empty_entries: "read_entries parse [] = Inr []"
  by (simp add: read_entries_def text_lines_def)

lemma loads_empty:
  "result_of (load_passwd ''p'') acct_empty = Inr []" "result_of (load_shadow ''s'') acct_empty = Inr []"
  "result_of (load_group ''g'') acct_empty = Inr []"
  by (simp_all add: load_ats entries_at_def acct_empty_def empty_entries)

theorem deletion_undoes_creation_witness:
  "\<exists>t v. create_user tool0 db0 new_jy acct_empty = (Inr (), t) \<and> delete_user tool0 db0 ''jy'' True t = (Inr (), v) \<and>
     result_of (load_passwd ''p'') v = Inr []"
  using deletion_undoes_creation[of tool0 db0 new_jy acct_empty "[]" "[]" "[]" True] loads_empty
  by (auto simp: reliable_def crypt_fits_def four_files_def user_fits_def fits_def tool0_def db0_def new_jy_def path_join_def)

section \<open>A field that is not checked\<close>

lemma wp_sudoers_file:
  assumes "p \<noteq> path_join dir user" "ac_files s p = x"
  shows "wp (write_sudoers_user A dir user policy v) (\<lambda>_ t. ac_files t p = x) (\<lambda>_ _. True) s"
  using assms by (auto simp: write_sudoers_user_def Let_def wp_simps wp_atomic_write split: option.split bool.split)

lemma wp_create_file:
  assumes "four_files D (nu_name u)" "accounts_at D s = (Inr ps, Inr ss, g)"
  shows "wp (create_user A D u)
     (\<lambda>_ t. ac_files t (db_passwd D) = Some (file_text serialize_passwd (ps @ [passwd_of_user u]), 420)) (\<lambda>_ _. True) s"
proof -
  have d: "db_passwd D \<noteq> db_shadow D" "db_passwd D \<noteq> path_join (db_sudoers D) (nu_name u)"
    using assms(1) by (auto simp: four_files_def)
  have at: "entries_at tool_parse_passwd (ac_files s) (db_passwd D) = Inr ps"
    "entries_at tool_parse_shadow ((ac_files s)(db_passwd D \<mapsto> x)) (db_shadow D) = Inr ss" for x
    using assms by (auto simp: accounts_at_def entries_at_def four_files_def)
  show ?thesis
    unfolding create_user_def saves using d
    by (simp add: wp_simps wp_loads wp_atomic_write at wp_sudoers_file[OF d(2)])
qed

text \<open>Fields are not checked: a comment that closes its line and opens another creates a second account of the caller's choice. For any entry that fits on a line and ends in the home and shell of the new user, the comment below makes the creation succeed, and passwd then holds, besides the new user, exactly that entry, its number included (0, say).\<close>

lemma comment_smuggles_account:
  assumes "reliable A" and "four_files D (nu_name u)" and "fits (nu_name u)" and "passwd_fits e"
    and "nu_gecos u = '':h:s'' @ [NL] @ join '':'' [pw_name e, pw_passwd e, show_int (pw_uid e), show_int (pw_gid e), pw_gecos e]"
    and "nu_home u = pw_home e" and "nu_shell u = pw_shell e"
    and "result_of (load_passwd (db_passwd D)) s = Inr ps" and "nu_name u \<notin> pw_name ` set ps"
    and "result_of (load_shadow (db_shadow D)) s = Inr ss" and "nu_name u \<notin> sp_name ` set ss"
  shows "\<exists>t. create_user A D u s = (Inr (), t) \<and> result_of (load_passwd (db_passwd D)) t =
    Inr (ps @ [(passwd_of_user u)\<lparr>pw_gecos := [], pw_home := ''h'', pw_shell := ''s''\<rparr>, e])"
proof -
  let ?u = "(passwd_of_user u)\<lparr>pw_gecos := [], pw_home := ''h'', pw_shell := ''s''\<rparr>"
  obtain g where s: "accounts_at D s = (Inr ps, Inr ss, g)" using assms(8,10) by (simp add: accounts_at_def load_ats)
  obtain t where t: "create_user A D u s = (Inr (), t)"
    using create_returns[OF assms(1,2) s assms(9,11)] by blast
  have "file_text serialize_passwd (ps @ [passwd_of_user u]) = file_text serialize_passwd (ps @ [?u, e])"
    using assms(5-7) by (simp add: file_text_def serialize_passwd_def passwd_of_user_def)
  with wp_Inr[OF wp_create_file[OF assms(2) s] t]
  have "ac_files t (db_passwd D) = Some (file_text serialize_passwd (ps @ [?u, e]), 420)" by simp
  moreover have "\<forall>x\<in>set (ps @ [?u, e]). passwd_fits x"
    using tool_passwd.at_fit[of "ac_files s" "db_passwd D" ps] assms(3,4,8)
    by (auto simp: load_ats passwd_fits_def passwd_of_user_def fits_def)
  ultimately show ?thesis using t tool_passwd.read_text by (auto simp: load_ats entries_at_def)
qed

definition new_evil :: new_user where
  "new_evil = new_jy\<lparr>nu_gecos := '':h:s'' @ [NL] @ ''eve:x:0:0:''\<rparr>"

section \<open>Locking\<close>

text \<open>A hash that does not begin with the mark of a lock comes back.\<close>

lemma unlock_lock: "take 1 h \<noteq> ''!'' \<Longrightarrow> h \<noteq> [] \<Longrightarrow> unlocked_hash (locked_hash h) = h"
  by (cases h) (auto simp: unlocked_hash_def locked_hash_def)

lemma locked_twice: "locked_hash (locked_hash h) = locked_hash h"
  by (simp add: locked_hash_def)

text \<open>A creation that finds the user in the shadow file has already written passwd, so that the next attempt
  is refused for another reason.\<close>

lemma half_created:
  assumes "reliable A" "four_files D (nu_name u)" "accounts_at D s = (Inr ps, Inr ss, g)"
    and "nu_name u \<notin> pw_name ` set ps" "nu_name u \<in> sp_name ` set ss"
  shows "\<exists>t. create_user A D u s = (Inl AcctValue, t) \<and>
     ac_files t (db_passwd D) = Some (file_text serialize_passwd (ps @ [passwd_of_user u]), 420)"
proof -
  have at: "entries_at tool_parse_passwd (ac_files s) (db_passwd D) = Inr ps"
    "entries_at tool_parse_shadow ((ac_files s)(db_passwd D \<mapsto> x)) (db_shadow D) = Inr ss" for x
    using assms(2,3) by (auto simp: accounts_at_def entries_at_def four_files_def)
  have "\<not> list_ex (\<lambda>e. pw_name e = nu_name u) ps" "list_ex (\<lambda>e. sp_name e = nu_name u) ss"
    using assms(4,5) by (force simp: list_ex_iff)+
  with assms(1) have "wp (create_user A D u) (\<lambda>_ _. False) (\<lambda>e t. e = AcctValue \<and>
     ac_files t (db_passwd D) = Some (file_text serialize_passwd (ps @ [passwd_of_user u]), 420)) s"
    unfolding create_user_def saves by (simp add: wp_simps wp_loads wp_atomic_write at reliable_def)
  then show ?thesis by (auto simp: wp_def split: prod.splits sum.splits)
qed

end
