(* ===== verification/Engine.thy ===== *)
theory Engine
  imports Lease
begin

text \<open>
  The job engine (\<open>application/jobs.py\<close>): running one step under the retry policy
  (\<open>_execute_step\<close>) and the loop over the steps of a job with its rewinds (the body of
  \<open>_run_job\<close>).  The step functions, the cleanups before a step, the observers and the
  judges are a record \<open>plant\<close>: the engine is the same whatever they do.
\<close>

section \<open>Injected faults\<close>

text \<open>\<open>adapters/fault_injection.py\<close>: \<open>armed\<close> and \<open>mark_fired\<close>.\<close>

definition fault_matches :: "string \<Rightarrow> step \<Rightarrow> string \<Rightarrow> string \<Rightarrow> fault_row \<Rightarrow> bool" where
  "fault_matches user stp boundary act r \<longleftrightarrow> fa_username r = user \<and> fa_step r = stp \<and>
     fa_boundary r = boundary \<and> fa_action r = act \<and> (act = ''fail_persistent'' \<or> \<not> fa_fired r)"

definition first_fault :: "string \<Rightarrow> step \<Rightarrow> string \<Rightarrow> string \<Rightarrow> fault_row list \<Rightarrow> fault_row option" where
  "first_fault user stp boundary act rows =
     (case sort_key fa_id (filter (fault_matches user stp boundary act) rows) of [] \<Rightarrow> None | r # _ \<Rightarrow> Some r)"

definition armed :: "env \<Rightarrow> string \<Rightarrow> step \<Rightarrow> string \<Rightarrow> string \<Rightarrow> fault_row option cmd" where
  "armed E user stp boundary act =
     (if \<not> cfg_fault_injection E then ret None
      else bnd (tryE (rd EvDb (x_db E) (\<lambda>s. first_fault user stp boundary act (faults s))) (\<lambda>_. ret None))
        (\<lambda>row. case row of
           None \<Rightarrow> ret None
         | Some r \<Rightarrow>
             thn (modS (\<lambda>s. s\<lparr>fault_seen := (fault_seen s)(fa_id r := Suc (fault_seen s (fa_id r)))\<rparr>))
                 (bnd (getS (\<lambda>s. fault_seen s (fa_id r))) (\<lambda>seen.
                  ret (if seen < max 1 (fa_occurrence r) then None else Some r)))))"

definition mark_row :: "int \<Rightarrow> fault_row \<Rightarrow> fault_row" where
  "mark_row i r = (if fa_id r = i then r\<lparr>fa_fired := True\<rparr> else r)"

definition mark_fired :: "env \<Rightarrow> int \<Rightarrow> bool cmd" where
  "mark_fired E i =
     (if \<not> cfg_fault_injection E then ret False
      else bnd (getS (\<lambda>s. list_ex (\<lambda>r. fa_id r = i \<and> \<not> fa_fired r) (faults s))) (\<lambda>unfired.
        tryE (thn (io EvDb (x_db E) (\<lambda>s. s\<lparr>faults := map (mark_row i) (faults s)\<rparr>)) (ret unfired))
             (\<lambda>_. ret False)))"

section \<open>The policy\<close>

text \<open>\<open>step.__name__\<close>.\<close>

fun step_name :: "step \<Rightarrow> string" where
  "step_name FetchUserConfig = ''step_fetch_user_config''"
| "step_name PreparePod = ''step_prepare_pod''"
| "step_name SelectNode = ''step_select_node''"
| "step_name BuildPodSpec = ''step_build_pod_spec''"
| "step_name CreatePodK8s = ''step_create_pod_k8s''"
| "step_name WaitReady = ''step_wait_ready''"
| "step_name CreateServices = ''step_create_services''"
| "step_name CreateAccount = ''step_create_account''"
| "step_name CreateHome = ''step_create_home''"
| "step_name CreateKrb5Principal = ''step_create_krb5_principal''"
| "step_name AwaitAdReplication = ''step_await_ad_replication''"
| "step_name AddUserGroups = ''step_add_user_groups''"
| "step_name SyncAdGroups = ''step_sync_ad_groups''"
| "step_name TriggerNasGssFlush = ''step_trigger_nas_gss_flush''"
| "step_name DeleteServices = ''step_delete_services''"
| "step_name ReleaseNodeports = ''step_release_nodeports''"
| "step_name DeletePodK8s = ''step_delete_pod_k8s''"
| "step_name CleanupPodNodeKrb5 = ''step_cleanup_pod_node_krb5''"
| "step_name RemoveNodeImage = ''step_remove_node_image''"
| "step_name CheckAccountRevocable = ''step_check_account_revocable''"
| "step_name DeleteAccount = ''step_delete_account''"
| "step_name RemoveKrb5 = ''step_remove_krb5''"
| "step_name MigrateSelectTarget = ''step_migrate_select_target''"
| "step_name MigrateInheritPassword = ''step_migrate_inherit_password''"
| "step_name MigrateCommitImage = ''step_migrate_commit_image''"
| "step_name MigrateCleanupOld = ''step_migrate_cleanup_old''"
| "step_name ChangeLoginPassword = ''step_change_login_password''"
| "step_name DeleteExpiredHome = ''step_delete_expired_home''"
| "step_name RestoreMissingHome = ''step_restore_missing_home''"
| "step_name GroupCreate = ''step_group_create''"
| "step_name GroupAddMember = ''step_group_add_member''"
| "step_name GroupRemoveMember = ''step_group_remove_member''"
| "step_name ResolveNewGroups = ''step_resolve_new_groups''"
| "step_name ChangePorts = ''step_change_ports''"
| "step_name SetAccountAccess = ''step_set_account_access''"
| "step_name VerifyUid = ''step_verify_uid''"
| "step_name VerifyHomeIo = ''step_verify_home_io''"
| "step_name VerifyKrb5 = ''step_verify_krb5''"
| "step_name VerifyGpu = ''step_verify_gpu''"
| "step_name VerifyEndpoint = ''step_verify_endpoint''"
| "step_name CaptureAccessTargets = ''step_capture_access_targets''"
| "step_name VerifyRevoked = ''step_verify_revoked''"
| "step_name VerifyAccountRevoked = ''step_verify_account_revoked''"

definition last_chars :: "nat \<Rightarrow> 'a list \<Rightarrow> 'a list" where
  "last_chars n xs = drop (length xs - n) xs"

record plant =
  pl_exec :: "unit cmd option \<Rightarrow> step \<Rightarrow> unit cmd"
  pl_pre :: "step \<Rightarrow> unit cmd option"
  pl_observe :: "step \<Rightarrow> bool cmd option"
  pl_judge :: "step \<Rightarrow> bool cmd option"

definition verify_steps :: "step list" where
  "verify_steps = [VerifyUid, VerifyKrb5, VerifyHomeIo, VerifyGpu, VerifyEndpoint]"

definition verify_rerun_safe :: "step list" where
  "verify_rerun_safe = verify_steps @ [CaptureAccessTargets, VerifyRevoked, VerifyAccountRevoked]"

definition rerun_safe :: "step list" where
  "rerun_safe = [FetchUserConfig, PreparePod, SelectNode, BuildPodSpec, CreateHome, WaitReady, CreateServices,
     DeleteServices, ReleaseNodeports, DeletePodK8s, RemoveNodeImage, CleanupPodNodeKrb5, CheckAccountRevocable,
     DeleteAccount, RemoveKrb5, MigrateSelectTarget, MigrateInheritPassword, MigrateCommitImage,
     MigrateCleanupOld, AddUserGroups, SyncAdGroups, AwaitAdReplication, ChangeLoginPassword,
     DeleteExpiredHome, RestoreMissingHome, GroupCreate, GroupAddMember, GroupRemoveMember, ResolveNewGroups,
     ChangePorts, SetAccountAccess]"

definition always_rerun :: "step list" where
  "always_rerun = [FetchUserConfig, MigrateInheritPassword, ResolveNewGroups]"

definition defer_done :: "step \<Rightarrow> step option" where
  "defer_done s = (if s = BuildPodSpec then Some CreatePodK8s else None)"

fun job_action :: "kind \<Rightarrow> action" where
  "job_action Provision = PROVISION"
| "job_action Revoke = REVOKE"
| "job_action Migrate = MIGRATE"
| "job_action Password = CHANGE_PASSWORD"
| "job_action Group = CHANGE_GROUP"
| "job_action Home = PURGE_HOME"
| "job_action Port = CHANGE_PORT"
| "job_action Access = CHANGE_ACCESS"

definition is_baseline :: "env \<Rightarrow> bool" where
  "is_baseline E \<longleftrightarrow> cfg_mode E = Baseline"

definition max_attempts :: "env \<Rightarrow> step \<Rightarrow> nat" where
  "max_attempts E stp = (if is_baseline E then 1
     else if stp \<in> set verify_rerun_safe then cfg_verify_max_attempts E
     else cfg_step_max_attempts E)"

fun retry_of :: "exn \<Rightarrow> bool" where
  "retry_of (StepFailed f c) = f_retry f"
| "retry_of _ = True"

fun restart_of :: "exn \<Rightarrow> step option" where
  "restart_of (StepFailed f c) = f_restart f"
| "restart_of _ = None"

fun unknown_of :: "exn \<Rightarrow> bool" where
  "unknown_of (StepFailed f c) = f_unknown f"
| "unknown_of e = is_unknown_result (Some e)"

fun client_error :: "exn \<Rightarrow> bool" where
  "client_error (StepFailed f c) = (400 \<le> f_status f \<and> f_status f < 500)"
| "client_error _ = False"

fun error_code :: "exn \<Rightarrow> string option" where
  "error_code (StepFailed f c) = Some (f_error f)"
| "error_code _ = None"

section \<open>One step\<close>

text \<open>The body with the two injection points, under its attempt number and step name.\<close>

definition with_attempt :: "nat \<Rightarrow> step \<Rightarrow> unit cmd \<Rightarrow> unit cmd" where
  "with_attempt n stp m =
     bnd (getS (\<lambda>s. (cur_attempt s, cur_step s))) (\<lambda>(a, b).
     thn (modS (\<lambda>s. s\<lparr>cur_attempt := n, cur_step := Some stp\<rparr>))
         (finallyE m (modS (\<lambda>s. s\<lparr>cur_attempt := a, cur_step := b\<rparr>))))"

definition run_once :: "env \<Rightarrow> plant \<Rightarrow> unit cmd option \<Rightarrow> string \<Rightarrow> step \<Rightarrow> nat \<Rightarrow> unit cmd" where
  "run_once E P ckpt user stp n = with_attempt n stp
     (bnd (armed E user stp ''X2'' ''fail_persistent'') (\<lambda>x2. case x2 of
        Some r \<Rightarrow> thn (if fa_fired r then ret () else bnd (mark_fired E (fa_id r)) (\<lambda>_. ret ()))
                       (throw (raised RuntimeError))
      | None \<Rightarrow>
        thn (pl_exec P ckpt stp)
       (bnd (armed E user stp ''X4'' ''response_loss'') (\<lambda>x4. case x4 of
          None \<Rightarrow> ret ()
        | Some r \<Rightarrow> bnd (mark_fired E (fa_id r)) (\<lambda>fired.
            if fired then throw (raised_from RuntimeError (raised RequestsReadTimeout)) else ret ())))))"

text \<open>A failed cleanup before a step is only logged.\<close>

definition pre_step :: "plant \<Rightarrow> step \<Rightarrow> unit cmd" where
  "pre_step P stp = (case pl_pre P stp of None \<Rightarrow> ret () | Some hook \<Rightarrow> tryE hook (\<lambda>_. ret ()))"

definition retry_pause :: "env \<Rightarrow> unit cmd" where
  "retry_pause E = (if cfg_retry_delay E then sleep 2000 else ret ())"

text \<open>After an unknown result: is the effect there?  \<open>True\<close> ends the step as a success.\<close>

definition observed :: "plant \<Rightarrow> step \<Rightarrow> exn \<Rightarrow> bool cmd" where
  "observed P stp err = (case pl_observe P stp of
     Some ob \<Rightarrow> tryE ob (\<lambda>oe. throw (StepDegraded stp ''OBSERVE_FAILED'' oe True))
   | None \<Rightarrow> if stp \<notin> set rerun_safe \<and> stp \<notin> set verify_rerun_safe
       then throw (StepDegraded stp ''UNRESUMABLE_UNKNOWN'' err True) else ret False)"

record jobinfo =
  ji_kind :: kind
  ji_request :: string
  ji_user :: string
  ji_job :: "int option"

definition log_retry :: "env \<Rightarrow> jobinfo \<Rightarrow> step \<Rightarrow> nat \<Rightarrow> exn \<Rightarrow> unit cmd" where
  "log_retry E J stp n err = log_operation E
     ((logargs (ji_request J) (ji_user J) (job_action (ji_kind J)) RETRY)
        \<lparr>lo_attempt := n, lo_resource := Some (last_chars 32 (step_name stp)), lo_error := error_code err\<rparr>)"

text \<open>What to do with the failure \<open>err\<close> of attempt \<open>n\<close>, \<open>again\<close> being the attempts left.\<close>

definition after_failure ::
  "env \<Rightarrow> plant \<Rightarrow> jobinfo \<Rightarrow> step \<Rightarrow> nat \<Rightarrow> bool \<Rightarrow> exn \<Rightarrow> unit cmd \<Rightarrow> unit cmd" where
  "after_failure E P J stp n final err again =
     (if is_lease_lost err \<or> is_baseline E \<or> \<not> retry_of err then throw err
      else case restart_of err of
        Some rf \<Rightarrow> throw (StepRewind stp rf err)
      | None \<Rightarrow>
          bnd (if unknown_of err then observed P stp err else ret False) (\<lambda>seen.
            if seen then ret ()
            else if \<not> unknown_of err \<and> client_error err then throw err
            else if final then throw (StepDegraded stp ''RETRIES_EXHAUSTED'' err (unknown_of err))
            else thn (log_retry E J stp (n + 1) err) (thn (retry_pause E) again)))"

text \<open>The loop over the attempts, with \<open>k\<close> left; \<open>m\<close> is the number of all of them.\<close>

fun attempts :: "env \<Rightarrow> plant \<Rightarrow> jobinfo \<Rightarrow> unit cmd option \<Rightarrow> step \<Rightarrow> nat \<Rightarrow> nat \<Rightarrow> unit cmd" where
  "attempts E P J ckpt stp m 0 = ret ()"
| "attempts E P J ckpt stp m (Suc k) =
     thn (pre_step P stp)
    (bnd (attempt (run_once E P ckpt (ji_user J) stp (m - k))) (\<lambda>r. case r of
       Inr _ \<Rightarrow> ret ()
     | Inl err \<Rightarrow> after_failure E P J stp (m - k) (k = 0) err (attempts E P J ckpt stp m k)))"

definition execute_step :: "env \<Rightarrow> plant \<Rightarrow> jobinfo \<Rightarrow> unit cmd option \<Rightarrow> step \<Rightarrow> unit cmd" where
  "execute_step E P J ckpt stp = attempts E P J ckpt stp (max_attempts E stp) (max_attempts E stp)"

section \<open>The steps of a job\<close>

definition saved_ctx :: "ctx \<Rightarrow> saved" where
  "saved_ctx c = \<lparr>sv_uid = c_uid c, sv_gid = c_gid c, sv_pod_name = c_pod_name c, sv_node = c_node c,
     sv_allocated_ports = c_allocated_ports c, sv_pod_node_name = c_pod_node_name c,
     sv_verify_ports = c_verify_ports c, sv_verify_node = c_verify_node c, sv_home_created = c_home_created c,
     sv_account_write_started = c_account_write_started c, sv_old_pod_name = c_old_pod_name c,
     sv_from_node = c_from_node c, sv_skipped = c_skipped c, sv_skip_reason = c_skip_reason c,
     sv_old_pod_cleanup = c_old_pod_cleanup c, sv_committed_image = c_committed_image c,
     sv_committed_image_node = c_committed_image_node c\<rparr>"

definition or_else :: "'a option \<Rightarrow> 'a option \<Rightarrow> 'a option" where
  "or_else a b = (case a of None \<Rightarrow> b | Some x \<Rightarrow> Some x)"

text \<open>\<open>ctx.update(saved)\<close> on the context of a job that starts.\<close>

definition restore_ctx :: "saved \<Rightarrow> ctx \<Rightarrow> ctx" where
  "restore_ctx s c = c\<lparr>c_uid := or_else (sv_uid s) (c_uid c), c_gid := or_else (sv_gid s) (c_gid c),
     c_pod_name := or_else (sv_pod_name s) (c_pod_name c), c_node := or_else (sv_node s) (c_node c),
     c_allocated_ports := (if sv_allocated_ports s = [] then c_allocated_ports c else sv_allocated_ports s),
     c_pod_node_name := or_else (sv_pod_node_name s) (c_pod_node_name c),
     c_verify_ports := (if sv_verify_ports s = [] then c_verify_ports c else sv_verify_ports s),
     c_verify_node := or_else (sv_verify_node s) (c_verify_node c),
     c_home_created := (sv_home_created s \<or> c_home_created c),
     c_account_write_started := or_else (sv_account_write_started s) (c_account_write_started c),
     c_old_pod_name := or_else (sv_old_pod_name s) (c_old_pod_name c),
     c_from_node := or_else (sv_from_node s) (c_from_node c),
     c_skipped := (sv_skipped s \<or> c_skipped c), c_skip_reason := or_else (sv_skip_reason s) (c_skip_reason c),
     c_old_pod_cleanup := or_else (sv_old_pod_cleanup s) (c_old_pod_cleanup c),
     c_committed_image := or_else (sv_committed_image s) (c_committed_image c),
     c_committed_image_node := or_else (sv_committed_image_node s) (c_committed_image_node c)\<rparr>"

definition save_progress :: "env \<Rightarrow> jobinfo \<Rightarrow> step list \<Rightarrow> unit cmd" where
  "save_progress E J done_steps = (case ji_job J of
     None \<Rightarrow> ret ()
   | Some j \<Rightarrow> bnd (getC saved_ctx) (\<lambda>sv. record_step E j done_steps sv))"

text \<open>\<open>ctx["_checkpoint"]\<close>.\<close>

definition checkpoint :: "env \<Rightarrow> jobinfo \<Rightarrow> step list \<Rightarrow> unit cmd option" where
  "checkpoint E J done_steps = (if ji_job J = None \<or> is_baseline E then None else Some (save_progress E J done_steps))"

definition already_done :: "step \<Rightarrow> step list \<Rightarrow> bool" where
  "already_done stp done_steps = (case defer_done stp of
     Some partner \<Rightarrow> partner \<in> set done_steps | None \<Rightarrow> stp \<in> set done_steps)"

definition judged :: "env \<Rightarrow> plant \<Rightarrow> step \<Rightarrow> bool cmd" where
  "judged E P stp = (if is_baseline E then ret False
     else case pl_judge P stp of None \<Rightarrow> ret False | Some j \<Rightarrow> j)"

text \<open>One round of the loop; \<open>True\<close> if the step is to be recorded as done.\<close>

definition round_of :: "env \<Rightarrow> plant \<Rightarrow> jobinfo \<Rightarrow> step list \<Rightarrow> step \<Rightarrow> bool cmd" where
  "round_of E P J done_steps stp =
     (if stp \<in> set always_rerun then thn (execute_step E P J (checkpoint E J done_steps) stp) (ret False)
      else if already_done stp done_steps then ret False
      else bnd (judged E P stp) (\<lambda>fine.
        thn (if fine then ret () else execute_step E P J (checkpoint E J done_steps) stp)
            (ret (defer_done stp = None))))"

fun index_of :: "'a \<Rightarrow> 'a list \<Rightarrow> nat" where
  "index_of x [] = 0"
| "index_of x (y # ys) = (if x = y then 0 else Suc (index_of x ys))"

text \<open>The outcome of the loop: the exception that ended it, if any, and the done list then.\<close>

type_synonym loop_end = "exn option \<times> step list"

function steps_loop :: "env \<Rightarrow> plant \<Rightarrow> jobinfo \<Rightarrow> step list \<Rightarrow> nat \<Rightarrow> nat \<Rightarrow> step list \<Rightarrow> loop_end cmd" where
  "steps_loop E P J steps i rewinds dn =
     (if length steps \<le> i then ret (None, dn)
      else bnd (getC c_skipped) (\<lambda>skipped.
        if skipped then ret (None, dn)
        else bnd (attempt (round_of E P J dn (steps ! i))) (\<lambda>r. case r of
          Inr rec \<Rightarrow>
            if \<not> rec then steps_loop E P J steps (Suc i) rewinds dn
            else bnd (attempt (save_progress E J (dn @ [steps ! i]))) (\<lambda>w. case w of
              Inl e \<Rightarrow> ret (Some e, dn @ [steps ! i])
            | Inr _ \<Rightarrow> steps_loop E P J steps (Suc i) rewinds (dn @ [steps ! i]))
        | Inl (StepRewind st rf err) \<Rightarrow>
            if rf \<notin> set steps then ret (Some err, dn)
            else if cfg_step_max_attempts E - 1 \<le> rewinds
            then ret (Some (StepDegraded st ''RETRIES_EXHAUSTED'' err False), dn)
            else
              (let i' = index_of rf steps; dn' = filter (\<lambda>d. d \<notin> set (drop i' steps)) dn in
               thn (log_retry E J st (rewinds + 2) err)
              (bnd (attempt (save_progress E J dn')) (\<lambda>w. case w of
                 Inl e \<Rightarrow> ret (Some e, dn')
               | Inr _ \<Rightarrow> thn (retry_pause E) (steps_loop E P J steps i' (Suc rewinds) dn'))))
        | Inl e \<Rightarrow> ret (Some e, dn))))"
  by pat_completeness auto

termination
  by (relation "measures [\<lambda>(E, P, J, steps, i, rewinds, dn). cfg_step_max_attempts E - rewinds,
                          \<lambda>(E, P, J, steps, i, rewinds, dn). length steps - i]") auto

declare steps_loop.simps [simp del]

section \<open>What a step can come to\<close>

lemma baseline_once:
  assumes "is_baseline E"
  shows "execute_step E P J ckpt stp = thn (pre_step P stp) (run_once E P ckpt (ji_user J) stp 1)"
proof -
  have "bnd (attempt m) (case_sum throw ret) = m" for m :: "unit cmd"
    by (auto simp: fun_eq_iff run split: prod.splits sum.splits)
  with assms show ?thesis
    by (simp add: execute_step_def max_attempts_def after_failure_def)
qed

text \<open>How a step of a recovering mode can fail.\<close>

definition step_failure :: "step \<Rightarrow> exn \<Rightarrow> bool" where
  "step_failure stp e \<longleftrightarrow> is_lease_lost e \<or> \<not> retry_of e \<or> (client_error e \<and> \<not> unknown_of e) \<or>
     (\<exists>rf err. e = StepRewind stp rf err \<and> restart_of err = Some rf) \<or>
     (\<exists>reason c u. e = StepDegraded stp reason c u \<and>
        reason \<in> {''OBSERVE_FAILED'', ''UNRESUMABLE_UNKNOWN'', ''RETRIES_EXHAUSTED''})"

lemma raises_attempt_any: "raises P (attempt m)"
  by (simp add: raises_def run split: prod.splits)

lemma raises_pre_step: "raises Q (pre_step P stp)"
  unfolding pre_step_def
  by (auto simp: raises_def run split: option.splits prod.splits sum.splits)

lemma raises_retry: "raises Q (log_retry E J st n err)" "raises Q (retry_pause E)"
  unfolding log_retry_def retry_pause_def sleep_def
  by (intro raises_intros; simp add: logargs_def)+

lemma raises_observed: "raises (step_failure stp) (observed P stp err)"
  unfolding observed_def step_failure_def
  by (auto simp: raises_def run split: option.splits prod.splits sum.splits if_splits)

lemma raises_after_failure:
  assumes "\<not> is_baseline E" "raises (step_failure stp) again"
  shows "raises (step_failure stp) (after_failure E P J stp n final err again)"
proof (cases "is_lease_lost err \<or> is_baseline E \<or> \<not> retry_of err")
  case True
  with assms(1) have "step_failure stp err" by (auto simp: step_failure_def)
  with True show ?thesis by (simp add: after_failure_def raises_throw)
next
  case False
  show ?thesis
  proof (cases "restart_of err")
    case (Some rf)
    with False show ?thesis by (simp add: after_failure_def raises_throw step_failure_def)
  next
    case None
    have this': "raises (step_failure stp) (if seen then ret ()
            else if \<not> unknown_of err \<and> client_error err then throw err
            else if final then throw (StepDegraded stp ''RETRIES_EXHAUSTED'' err (unknown_of err))
            else thn (log_retry E J stp (n + 1) err) (thn (retry_pause E) again))" for seen
      using assms(2) by (auto intro!: raises_intros raises_retry simp: step_failure_def)
    have o: "raises (step_failure stp) (if unknown_of err then observed P stp err else ret False)"
      by (intro raises_branch raises_basic raises_observed)
    show ?thesis
      unfolding after_failure_def if_not_P[OF False] None option.case
      by (rule raises_bnd[OF o this'])
  qed
qed

lemma raises_attempts:
  assumes "\<not> is_baseline E"
  shows "raises (step_failure stp) (attempts E P J ckpt stp m k)"
proof (induction k)
  case (Suc k)
  show ?case
    using Suc raises_after_failure[OF assms Suc]
    by (auto intro!: raises_thn raises_bnd raises_pre_step raises_attempt_any raises_basic split: sum.splits)
qed (simp add: raises_basic)

lemma raises_execute_step: "\<not> is_baseline E \<Longrightarrow> raises (step_failure stp) (execute_step E P J ckpt stp)"
  unfolding execute_step_def by (rule raises_attempts)

section \<open>What the engine keeps, and how often it runs a step\<close>

text \<open>The observations that the engine's own bookkeeping does not touch.\<close>

definition bookkept :: "(st \<Rightarrow> 'b) \<Rightarrow> bool" where
  "bookkept obs \<longleftrightarrow> (\<forall>s h. obs (s\<lparr>hist := h\<rparr>) = obs s) \<and> (\<forall>s l. obs (s\<lparr>oplog := l\<rparr>) = obs s) \<and>
     (\<forall>s n. obs (s\<lparr>write_failures := n\<rparr>) = obs s) \<and> (\<forall>s n. obs (s\<lparr>cur_attempt := n\<rparr>) = obs s) \<and>
     (\<forall>s n. obs (s\<lparr>cur_step := n\<rparr>) = obs s) \<and> (\<forall>s n. obs (s\<lparr>faults := n\<rparr>) = obs s) \<and>
     (\<forall>s n. obs (s\<lparr>fault_seen := n\<rparr>) = obs s) \<and> (\<forall>s t. obs (s\<lparr>job_control := t\<rparr>) = obs s)"

lemma bookkeptD:
  assumes "bookkept obs"
  shows "obs (s\<lparr>hist := h\<rparr>) = obs s" "obs (s\<lparr>oplog := l\<rparr>) = obs s" "obs (s\<lparr>write_failures := n\<rparr>) = obs s"
    "obs (s\<lparr>cur_attempt := n\<rparr>) = obs s" "obs (s\<lparr>cur_step := x\<rparr>) = obs s" "obs (s\<lparr>faults := y\<rparr>) = obs s"
    "obs (s\<lparr>fault_seen := z\<rparr>) = obs s" "obs (s\<lparr>job_control := t\<rparr>) = obs s"
  using assms by (simp_all add: bookkept_def)

lemma keeps_armed:
  assumes "bookkept obs"
  shows "keeps obs (armed E user stp b a)" "keeps obs (mark_fired E i)"
  unfolding armed_def mark_fired_def
  by (intro keeps_intros keeps_modS; simp add: bookkeptD[OF assms])+

lemma keeps_retry:
  assumes "bookkept obs"
  shows "keeps obs (log_retry E J st n err)" "keeps obs (retry_pause E)"
  unfolding log_retry_def retry_pause_def sleep_def
  by (intro keeps_intros; simp add: bookkeptD[OF assms])+

lemma keeps_save_progress:
  assumes "bookkept obs"
  shows "keeps obs (save_progress E J d)"
  unfolding save_progress_def by (intro keeps_intros; simp add: bookkeptD[OF assms])

text \<open>\<open>costs c n m\<close>: \<open>m\<close> raises the cost \<open>c\<close> by at most \<open>n\<close>, however it ends.\<close>

definition costs :: "(st \<Rightarrow> nat) \<Rightarrow> nat \<Rightarrow> 'a cmd \<Rightarrow> bool" where
  "costs c n m \<longleftrightarrow> (\<forall>s. c (snd (m s)) \<le> c s + n)"

lemma costs_keeps: "keeps c m \<Longrightarrow> costs c n m"
  by (simp add: costs_def keeps_def)

lemma costsD: "costs c n m \<Longrightarrow> m s = (r, t) \<Longrightarrow> c t \<le> c s + n"
  unfolding costs_def by (metis snd_conv)

lemma costs_bnd: "costs c n m \<Longrightarrow> (\<And>a. costs c k (f a)) \<Longrightarrow> costs c (n + k) (bnd m f)"
  unfolding costs_def[of c "n + k"]
proof
  fix s assume m: "costs c n m" and f: "\<And>a. costs c k (f a)"
  obtain r t where mt: "m s = (r, t)" by fastforce
  show "c (snd (bnd m f s)) \<le> c s + (n + k)"
  proof (cases r)
    case (Inr a)
    obtain q u where fu: "f a t = (q, u)" by fastforce
    show ?thesis using costsD[OF m mt] costsD[OF f fu] Inr mt fu by (simp add: run)
  qed (use costsD[OF m mt] mt in \<open>simp add: run\<close>)
qed

lemma costs_thn: "costs c n m \<Longrightarrow> costs c k m' \<Longrightarrow> costs c (n + k) (thn m m')"
  unfolding thn_def by (rule costs_bnd)

lemma costs_attempt: "costs c n m \<Longrightarrow> costs c n (attempt m)"
  unfolding costs_def by (auto simp: run split: prod.splits) (metis snd_conv)

lemma costs_finallyE: "costs c n m \<Longrightarrow> keeps c f \<Longrightarrow> costs c n (finallyE m f)"
  unfolding costs_def keeps_def
proof
  fix s assume m: "\<forall>s. c (snd (m s)) \<le> c s + n" and f: "\<forall>s. c (snd (f s)) = c s"
  obtain r t where mt: "m s = (r, t)" by fastforce
  obtain q u where fu: "f t = (q, u)" by fastforce
  have "c t \<le> c s + n" using m mt by (metis snd_conv)
  moreover have "c u = c t" using f fu by (metis snd_conv)
  ultimately show "c (snd (finallyE m f s)) \<le> c s + n" using mt fu by (simp add: run split: sum.splits)
qed

lemma costs_run_once:
  assumes "bookkept c" "costs c 1 (pl_exec P ckpt stp)"
  shows "costs c 1 (run_once E P ckpt user stp n)"
proof -
  have k: "keeps c (case x4 of None \<Rightarrow> ret ()
        | Some r \<Rightarrow> bnd (mark_fired E (fa_id r)) (\<lambda>fired.
            if fired then throw (raised_from RuntimeError (raised RequestsReadTimeout)) else ret ()))" for x4
    by (intro keeps_intros keeps_armed assms)
  have e: "costs c (0 + (1 + (0 + 0))) (bnd (armed E user stp ''X2'' ''fail_persistent'') (\<lambda>x2. case x2 of
        Some r \<Rightarrow> thn (if fa_fired r then ret () else bnd (mark_fired E (fa_id r)) (\<lambda>_. ret ()))
                       (throw (raised RuntimeError))
      | None \<Rightarrow>
        thn (pl_exec P ckpt stp)
       (bnd (armed E user stp ''X4'' ''response_loss'') (\<lambda>x4. case x4 of
          None \<Rightarrow> ret ()
        | Some r \<Rightarrow> bnd (mark_fired E (fa_id r)) (\<lambda>fired.
            if fired then throw (raised_from RuntimeError (raised RequestsReadTimeout)) else ret ())))))"
  proof (rule costs_bnd[OF costs_keeps[OF keeps_armed(1)[OF assms(1)]]])
    fix x2 :: "fault_row option"
    show "costs c (1 + (0 + 0)) (case x2 of
        Some r \<Rightarrow> thn (if fa_fired r then ret () else bnd (mark_fired E (fa_id r)) (\<lambda>_. ret ()))
                       (throw (raised RuntimeError))
      | None \<Rightarrow>
        thn (pl_exec P ckpt stp)
       (bnd (armed E user stp ''X4'' ''response_loss'') (\<lambda>x4. case x4 of
          None \<Rightarrow> ret ()
        | Some r \<Rightarrow> bnd (mark_fired E (fa_id r)) (\<lambda>fired.
            if fired then throw (raised_from RuntimeError (raised RequestsReadTimeout)) else ret ()))))"
    proof (cases x2)
      case None
      show ?thesis
        unfolding None option.case
        by (intro costs_thn costs_bnd assms(2) costs_keeps[OF k] costs_keeps[OF keeps_armed(1)[OF assms(1)]])
    next
      case (Some r)
      show ?thesis
        unfolding Some option.case
        by (intro costs_keeps keeps_intros keeps_armed assms(1))
    qed
  qed
  have g: "keeps c (getS (\<lambda>s. (cur_attempt s, cur_step s)))" by (rule keeps_getS)
  have m: "keeps c (modS (\<lambda>s. s\<lparr>cur_attempt := a, cur_step := b\<rparr>))" for a b
    by (rule keeps_modS) (simp add: bookkeptD[OF assms(1)])
  have b: "costs c (0 + 1) (case p of (a, b) \<Rightarrow> thn (modS (\<lambda>s. s\<lparr>cur_attempt := n, cur_step := Some stp\<rparr>))
         (finallyE x (modS (\<lambda>s. s\<lparr>cur_attempt := a, cur_step := b\<rparr>))))" if "costs c 1 x" for p and x :: "unit cmd"
    unfolding case_prod_beta
    by (intro costs_thn costs_finallyE that m costs_keeps[OF m])
  from costs_bnd[OF costs_keeps[OF g, of 0] b] e show ?thesis
    unfolding run_once_def with_attempt_def by simp
qed

text \<open>The cleanups and observers of a plant that cost nothing.\<close>

definition free_helpers :: "(st \<Rightarrow> nat) \<Rightarrow> plant \<Rightarrow> step \<Rightarrow> bool" where
  "free_helpers c P stp \<longleftrightarrow> (\<forall>m. pl_pre P stp = Some m \<longrightarrow> keeps c m) \<and> (\<forall>m. pl_observe P stp = Some m \<longrightarrow> keeps c m)"

lemma keeps_helpers:
  assumes "free_helpers c P stp"
  shows "keeps c (pre_step P stp)" "keeps c (observed P stp err)"
  using assms unfolding pre_step_def observed_def free_helpers_def
  by (auto intro!: keeps_intros split: option.splits)

lemma costs_after_failure:
  assumes "bookkept c" "free_helpers c P stp" "costs c k again"
  shows "costs c k (after_failure E P J stp n final err again)"
proof (cases "is_lease_lost err \<or> is_baseline E \<or> \<not> retry_of err")
  case True
  then show ?thesis by (simp add: after_failure_def costs_keeps keeps_throw)
next
  case False
  show ?thesis
  proof (cases "restart_of err")
    case (Some rf)
    with False show ?thesis by (simp add: after_failure_def costs_keeps keeps_throw)
  next
    case None
    have o: "keeps c (if unknown_of err then observed P stp err else ret False)"
      by (intro keeps_intros keeps_helpers assms(2))
    have "costs c (0 + (0 + k)) (thn (log_retry E J stp (n + 1) err) (thn (retry_pause E) again))"
      by (intro costs_thn costs_keeps keeps_retry assms)
    then have "costs c k (if seen then ret ()
            else if \<not> unknown_of err \<and> client_error err then throw err
            else if final then throw (StepDegraded stp ''RETRIES_EXHAUSTED'' err (unknown_of err))
            else thn (log_retry E J stp (n + 1) err) (thn (retry_pause E) again))" for seen
      by (simp add: costs_keeps keeps_throw keeps_ret)
    from costs_bnd[OF costs_keeps[OF o, of 0] this] show ?thesis
      unfolding after_failure_def if_not_P[OF False] None option.case by simp
  qed
qed

lemma costs_attempts:
  assumes "bookkept c" "free_helpers c P stp" "costs c 1 (pl_exec P ckpt stp)"
  shows "costs c k (attempts E P J ckpt stp m k)"
proof (induction k)
  case 0
  show ?case by (simp add: costs_keeps keeps_ret)
next
  case (Suc k)
  have h: "costs c k (case r of Inr _ \<Rightarrow> ret ()
     | Inl err \<Rightarrow> after_failure E P J stp (m - k) (k = 0) err (attempts E P J ckpt stp m k))" for r :: "exn + unit"
    using costs_after_failure[OF assms(1,2) Suc] by (auto simp: costs_keeps keeps_ret split: sum.splits)
  have "costs c (0 + (1 + k)) (attempts E P J ckpt stp m (Suc k))"
    unfolding attempts.simps
    by (intro costs_thn costs_bnd costs_attempt costs_run_once costs_keeps keeps_helpers assms h)
  then show ?case by simp
qed

lemma costs_execute_step:
  assumes "bookkept c" "free_helpers c P stp" "costs c 1 (pl_exec P ckpt stp)"
  shows "costs c (max_attempts E stp) (execute_step E P J ckpt stp)"
  unfolding execute_step_def by (rule costs_attempts[OF assms])

section \<open>The loop over the steps\<close>

text \<open>
  Rewinds only go back: a step that fails names itself or an earlier step to start over
  from, and only the engine raises \<open>_StepRewind\<close>.
\<close>

fun is_rewind :: "exn \<Rightarrow> bool" where
  "is_rewind (StepRewind st rf err) = True"
| "is_rewind _ = False"

definition back_exn :: "step list \<Rightarrow> step \<Rightarrow> exn \<Rightarrow> bool" where
  "back_exn steps stp e \<longleftrightarrow> \<not> is_rewind e \<and>
     (\<forall>rf. restart_of e = Some rf \<longrightarrow> rf \<in> set steps \<longrightarrow> index_of rf steps \<le> index_of stp steps)"

definition backward :: "plant \<Rightarrow> step list \<Rightarrow> bool" where
  "backward P steps \<longleftrightarrow> (\<forall>ck stp. raises (back_exn steps stp) (pl_exec P ck stp)) \<and>
     (\<forall>stp j. pl_judge P stp = Some j \<longrightarrow> raises (\<lambda>e. \<not> is_rewind e) j)"

definition recordable :: "step \<Rightarrow> bool" where
  "recordable stp \<longleftrightarrow> stp \<notin> set always_rerun \<and> defer_done stp = None"

lemma index_of_nth: "x \<in> set xs \<Longrightarrow> index_of x xs < length xs \<and> xs ! index_of x xs = x"
  by (induction xs) auto

lemma index_of_distinct: "distinct xs \<Longrightarrow> i < length xs \<Longrightarrow> index_of (xs ! i) xs = i"
  by (metis index_of_nth nth_eq_iff_index_eq nth_mem)

lemma raises_attempt_bnd:
  assumes "raises P m" "\<And>a. raises Q (f (Inr a))" "\<And>e. P e \<Longrightarrow> raises Q (f (Inl e))"
  shows "raises Q (bnd (attempt m) f)"
proof (rule raisesI)
  fix s e t assume r: "bnd (attempt m) f s = (Inl e, t)"
  obtain q u where m: "m s = (q, u)" by fastforce
  then have "f q u = (Inl e, t)" using r by (simp add: run)
  then show "Q e"
    using raisesD[OF assms(1)] raisesD[OF assms(2)] raisesD[OF assms(3)] m by (cases q) blast+
qed

lemma raises_run_once:
  assumes "raises (back_exn steps stp) (pl_exec P ckpt stp)"
  shows "raises (back_exn steps stp) (run_once E P ckpt user stp n)"
proof -
  have a: "raises Q (armed E user stp b c)" "raises Q (mark_fired E i)" for Q b c i
    unfolding armed_def mark_fired_def
    by (auto simp: raises_def run split: option.splits prod.splits sum.splits if_splits)
  show ?thesis
    unfolding run_once_def with_attempt_def
    by (intro raises_intros assms a) (simp_all add: raised_def raised_from_def back_exn_def)
qed

definition rewind_ok :: "step list \<Rightarrow> step \<Rightarrow> exn \<Rightarrow> bool" where
  "rewind_ok steps stp e \<longleftrightarrow> (\<forall>st rf err. e = StepRewind st rf err \<longrightarrow> rf \<in> set steps \<longrightarrow>
     index_of rf steps \<le> index_of stp steps)"

lemma not_rewind_ok: "\<not> is_rewind e \<Longrightarrow> rewind_ok steps stp e"
  by (auto simp: rewind_ok_def)

lemma rewind_after_failure:
  assumes "back_exn steps stp err" "raises (rewind_ok steps stp) again"
  shows "raises (rewind_ok steps stp) (after_failure E P J stp n final err again)"
proof -
  have e: "rewind_ok steps stp err" using assms(1) by (simp add: back_exn_def not_rewind_ok)
  have r: "rewind_ok steps stp (StepRewind stp rf err)" if "restart_of err = Some rf" for rf
    using assms(1) that by (auto simp: rewind_ok_def back_exn_def)
  have d: "rewind_ok steps stp (StepDegraded stp a b c)" for a b c by (simp add: rewind_ok_def)
  have o: "raises (rewind_ok steps stp) (observed P stp err)"
    unfolding observed_def
    by (auto simp: raises_def run d split: option.splits prod.splits sum.splits if_splits)
  show ?thesis
    unfolding after_failure_def
    using r by (cases "restart_of err") (auto intro!: raises_intros o e d raises_retry assms(2))
qed

lemma rewind_execute:
  assumes "raises (back_exn steps stp) (pl_exec P ckpt stp)"
  shows "raises (rewind_ok steps stp) (execute_step E P J ckpt stp)"
proof -
  have "raises (rewind_ok steps stp) (attempts E P J ckpt stp m k)" for m k
  proof (induction k)
    case (Suc k)
    show ?case
      unfolding attempts.simps
      by (intro raises_thn raises_pre_step raises_attempt_bnd[OF raises_run_once[OF assms]])
        (auto intro: raises_basic rewind_after_failure[OF _ Suc])
  qed (simp add: raises_basic)
  then show ?thesis by (simp add: execute_step_def)
qed

lemma rewind_round:
  assumes "backward P steps"
  shows "raises (rewind_ok steps stp) (round_of E P J d stp)"
proof -
  have x: "raises (rewind_ok steps stp) (execute_step E P J ck stp)" for ck
    by (rule rewind_execute) (use assms in \<open>simp add: backward_def\<close>)
  have j: "raises (rewind_ok steps stp) (judged E P stp)"
    unfolding judged_def using assms not_rewind_ok
    by (auto simp: backward_def raises_def run split: option.splits)
  show ?thesis
    unfolding round_of_def by (intro raises_intros x j)
qed

text \<open>When the loop ends without an exception, every recordable step is in the done list.\<close>

lemma round_rec: "round_of E P J d stp s = (Inr rec, t) \<Longrightarrow>
    (rec \<longrightarrow> recordable stp) \<and> (\<not> rec \<longrightarrow> recordable stp \<longrightarrow> stp \<in> set d)"
  by (auto simp: round_of_def run already_done_def recordable_def split: if_splits option.splits prod.splits sum.splits)

definition covered :: "step list \<Rightarrow> nat \<Rightarrow> step list \<Rightarrow> bool" where
  "covered steps i d \<longleftrightarrow> (\<forall>k<i. recordable (steps ! k) \<longrightarrow> steps ! k \<in> set d)"

lemma covered_back:
  assumes "distinct steps" "covered steps i d" "i' \<le> i" "i \<le> length steps"
  shows "covered steps i' (filter (\<lambda>x. x \<notin> set (drop i' steps)) d)"
proof -
  have "steps ! k \<notin> set (drop i' steps)" if "k < i'" for k
    using assms(1,3,4) that
    by (auto simp: in_set_conv_nth nth_eq_iff_index_eq)
  with assms show ?thesis by (auto simp: covered_def)
qed

lemma loop_induct:
  fixes m n :: nat
  assumes "\<And>i rw d. (\<And>d'. i < n \<Longrightarrow> Q (Suc i) rw d') \<Longrightarrow> (\<And>i' d'. rw < m \<Longrightarrow> Q i' (Suc rw) d') \<Longrightarrow> Q i rw d"
  shows "Q i rw d"
proof (induction "(m - rw, n - i)" arbitrary: i rw d rule: wf_induct_rule[OF wf_lex_prod[OF wf_less wf_less]])
  case 1
  show ?case
    by (rule assms) (auto intro!: 1 simp: diff_less_mono2)
qed

text \<open>One turn of the loop, in terms of weakest preconditions.\<close>

lemma wp_turn:
  assumes "length steps \<le> i \<or> c_skipped (cx s) \<Longrightarrow> Q (None, d) s"
    and "i < length steps \<Longrightarrow> \<not> c_skipped (cx s) \<Longrightarrow> wp (round_of E P J d (steps ! i))
         (\<lambda>rec t. if rec then wp (save_progress E J (d @ [steps ! i]))
                    (\<lambda>_. wp (steps_loop E P J steps (Suc i) rw (d @ [steps ! i])) Q R) (\<lambda>e. Q (Some e, d @ [steps ! i])) t
                  else wp (steps_loop E P J steps (Suc i) rw d) Q R t)
         (\<lambda>e t. if is_rewind e
            then (\<forall>st rf err. e = StepRewind st rf err \<longrightarrow>
              (if rf \<notin> set steps then Q (Some err, d) t
               else if cfg_step_max_attempts E - 1 \<le> rw then Q (Some (StepDegraded st ''RETRIES_EXHAUSTED'' err False), d) t
               else (let i' = index_of rf steps; d' = filter (\<lambda>x. x \<notin> set (drop i' steps)) d in
                 wp (log_retry E J st (rw + 2) err) (\<lambda>_. wp (save_progress E J d')
                    (\<lambda>_. wp (retry_pause E) (\<lambda>_. wp (steps_loop E P J steps i' (Suc rw) d') Q R) R)
                    (\<lambda>e. Q (Some e, d'))) R t)))
            else Q (Some e, d) t) s"
  shows "wp (steps_loop E P J steps i rw d) Q R s"
proof (cases "length steps \<le> i \<or> c_skipped (cx s)")
  case True
  with assms(1) show ?thesis by (auto simp: steps_loop.simps[of E P J steps i] wp_simps)
next
  case False
  then have f: "\<not> length steps \<le> i" "\<not> c_skipped (cx s)" "i < length steps" by auto
  show ?thesis
    unfolding steps_loop.simps[of E P J steps i] if_not_P[OF f(1)] wp_bnd wp_getC if_not_P[OF f(2)] wp_attempt
    using assms(2)[OF f(3,2)]
    by (rule wp_weaken) (auto simp: wp_simps Let_def split: exn.splits if_splits)
qed

lemma wp_never:
  assumes "raises (\<lambda>_. False) m" "\<And>a t. Q a t"
  shows "wp m Q R s"
  using assms by (intro wpI) (auto dest: raisesD)

definition loop_post :: "step list \<Rightarrow> loop_end \<Rightarrow> st \<Rightarrow> bool" where
  "loop_post steps r t \<longleftrightarrow> (fst r = None \<longrightarrow> c_skipped (cx t) \<or> covered steps (length steps) (snd r))"

lemma loop_post_Some [simp]: "loop_post steps (Some e, d) t"
  by (simp add: loop_post_def)

lemma loop_covers:
  assumes "backward P steps" "distinct steps"
  shows "covered steps i d \<Longrightarrow> wp (steps_loop E P J steps i rw d) (loop_post steps) (\<lambda>_ _. True) s"
proof (induction i rw d arbitrary: s rule: loop_induct[where n="length steps" and m="cfg_step_max_attempts E"])
  case (1 i rw d s)
  show ?case
  proof (rule wp_turn, goal_cases)
    case 1
    with \<open>covered steps i d\<close> show ?case by (auto simp: covered_def loop_post_def)
  next
    case 2
    let ?stp = "steps ! i"
    have save: "wp (save_progress E J d') (\<lambda>_. wp (steps_loop E P J steps (Suc i) rw d') (loop_post steps) (\<lambda>_ _. True))
        (\<lambda>e. loop_post steps (Some e, d')) t" if "covered steps (Suc i) d'" for d' t
      using "1.IH"(1)[OF 2(1) that] by - (rule wpI, simp_all)
    have ok: "wp (round_of E P J d ?stp) (\<lambda>rec _. (rec \<longrightarrow> recordable ?stp) \<and> (\<not> rec \<longrightarrow> recordable ?stp \<longrightarrow> ?stp \<in> set d))
        (\<lambda>e _. rewind_ok steps ?stp e) s"
      using round_rec raisesD[OF rewind_round[OF assms(1)]] by (intro wpI) blast+
    show ?case
    proof (rule wp_weaken[OF ok], goal_cases)
      case (1 rec t)
      have "covered steps (Suc i) (if rec then d @ [?stp] else d)"
        using \<open>covered steps i d\<close> 1 by (auto simp: covered_def less_Suc_eq)
      then show ?case using save[of "d @ [?stp]"] "1.IH"(1)[OF 2(1)] by (cases rec) simp_all
    next
      case (2 e t)
      have undo: "wp (log_retry E J st (rw + 2) err) (\<lambda>_. wp (save_progress E J d')
                    (\<lambda>_. wp (retry_pause E) (\<lambda>_. wp (steps_loop E P J steps i' (Suc rw) d') (loop_post steps) (\<lambda>_ _. True)) (\<lambda>_ _. True))
                    (\<lambda>e. loop_post steps (Some e, d'))) (\<lambda>_ _. True) t"
        if "covered steps i' d'" "rw < cfg_step_max_attempts E" for st err i' d'
      proof (rule wp_never[OF raises_retry(1)], rule wpI)
        fix t' show "wp (retry_pause E) (\<lambda>_. wp (steps_loop E P J steps i' (Suc rw) d') (loop_post steps) (\<lambda>_ _. True)) (\<lambda>_ _. True) t'"
          using "1.IH"(2)[OF that(2,1)] by (rule wp_never[OF raises_retry(2)])
      qed simp
      have "covered steps (index_of rf steps) (filter (\<lambda>x. x \<notin> set (drop (index_of rf steps) steps)) d)"
        if "e = StepRewind st rf err" "rf \<in> set steps" for st rf err
      proof (rule covered_back[OF assms(2) \<open>covered steps i d\<close>])
        show "index_of rf steps \<le> i"
          using 2 that index_of_distinct[OF assms(2) \<open>i < length steps\<close>] by (auto simp: rewind_ok_def)
      qed (use \<open>i < length steps\<close> in simp)
      then show ?case using undo by (auto simp: Let_def)
    qed
  qed
qed

end
