(* ===== verification/Pods.thy ===== *)
theory Pods
  imports Nodeports Engine
begin

text \<open>
  The creation of a user's Pod (\<open>lifecycle_steps/provision.py\<close>): the seven steps from the user
  configuration of admin_be to the Services, the Pod specification, and what each failure takes
  back.

  A key of the step context that no step has set reads as \<open>None\<close>; \<open>needC\<close> is the subscription
  that raises \<open>KeyError\<close>.  \<open>c_v1\<close> tells whether \<open>ctx["v1"]\<close> is set.
\<close>

section \<open>Log rows and failures\<close>

definition log_pod :: "env \<Rightarrow> string \<Rightarrow> string \<Rightarrow> string option \<Rightarrow> string option \<Rightarrow> string option \<Rightarrow>
    action \<Rightarrow> phase \<Rightarrow> string option \<Rightarrow> unit cmd" where
  "log_pod E req user pod node res act ph err =
     log_operation E ((logargs req user act ph)\<lparr>lo_pod := pod, lo_node := node, lo_resource := res, lo_error := err\<rparr>)"

fun is_api_exn :: "exn \<Rightarrow> bool" where
  "is_api_exn (Exn (ApiException n) r c h) = True"
| "is_api_exn _ = False"

text \<open>\<open>ValueError\<close> and its subclass \<open>LoginPasswordMissing\<close>.\<close>

fun is_value_error :: "exn \<Rightarrow> bool" where
  "is_value_error (Exn k r c h) = (k = ValueError \<or> k = LoginPasswordMissing)"
| "is_value_error _ = False"

fun is_kind :: "exn_kind \<Rightarrow> exn \<Rightarrow> bool" where
  "is_kind k (Exn k' r c h) = (k' = k)"
| "is_kind k _ = False"

text \<open>The Pod is gone and its ports are free, so the job goes back to where they are allocated.\<close>

definition pod_restart_failed :: "string \<Rightarrow> string \<Rightarrow> exn option \<Rightarrow> exn" where
  "pod_restart_failed st err c = step_failed (Some st) err 500 c True (Some BuildPodSpec)"

section \<open>Taking back a Pod that did not come up\<close>

record create_rollback =
  rb_nodeports :: bool
  rb_pod :: bool
  rb_services :: bool
  rb_log :: "string option"

definition succeeded :: "unit cmd \<Rightarrow> bool cmd" where
  "succeeded m = bnd (attempt m) (\<lambda>r. ret (case r of Inl _ \<Rightarrow> False | Inr _ \<Rightarrow> True))"

definition pod_log_tail :: "env \<Rightarrow> string \<Rightarrow> string option cmd" where
  "pod_log_tail E pod =
     bnd (attempt (ext (EvPodLog pod) (x_pod_log E pod))) (\<lambda>r. ret (case r of
       Inl _ \<Rightarrow> None
     | Inr t \<Rightarrow> if py_strip t = [] then None else Some (last_chars 2000 (py_strip t))))"

definition delete_created_pod :: "env \<Rightarrow> string \<Rightarrow> bool cmd" where
  "delete_created_pod E pod =
     bnd (attempt (ext (EvDeletePod pod) (x_delete_pod E pod))) (\<lambda>r. ret (case r of
       Inr _ \<Rightarrow> True | Inl e \<Rightarrow> is_api_status 404 e))"

definition cleanup_create_failure :: "env \<Rightarrow> string \<Rightarrow> bool \<Rightarrow> bool \<Rightarrow> create_rollback cmd" where
  "cleanup_create_failure E pod has_v1 delete_services =
     bnd (if delete_services then succeeded (delete_nodeport_services E pod) else ret False) (\<lambda>services.
     bnd (succeeded (release_nodeports E pod)) (\<lambda>released.
       if has_v1
       then bnd (pod_log_tail E pod) (\<lambda>tail.
            bnd (delete_created_pod E pod) (\<lambda>deleted.
            thn (delete_account_secret E pod)
                (ret \<lparr>rb_nodeports = released, rb_pod = deleted, rb_services = services, rb_log = tail\<rparr>)))
       else ret \<lparr>rb_nodeports = released, rb_pod = False, rb_services = services, rb_log = None\<rparr>))"

section \<open>The user configuration\<close>

text \<open>The gids this job gave to the groups of the request; a later entry of a name wins.\<close>

definition resolved_gid :: "supp_group list \<Rightarrow> string \<Rightarrow> int option" where
  "resolved_gid sgs n =
     map_of (rev (List.map_filter (\<lambda>sg. map_option (Pair (sg_name sg)) (sg_gid sg)) sgs)) n"

definition fill_gid :: "supp_group list \<Rightarrow> string \<times> int option \<Rightarrow> string \<times> int option" where
  "fill_gid sgs g = (fst g, case snd g of None \<Rightarrow> resolved_gid sgs (fst g) | Some i \<Rightarrow> Some i)"

definition fill_new_group_gids :: "env \<Rightarrow> user_info \<Rightarrow> user_info cmd" where
  "fill_new_group_gids E info = (case ui_groups info of
     None \<Rightarrow> ret info
   | Some gs \<Rightarrow> bnd (getC c_supp_groups) (\<lambda>sgs.
       let filled = map (fill_gid sgs) gs in
       if list_ex (\<lambda>g. snd g = None) filled
       then bnd (getC c_request) (\<lambda>req. bnd (getC c_username) (\<lambda>user.
            thn (log_pod E req user None None None FETCH_USER_CONFIG FAIL (Some ''GROUP_GID_UNRESOLVED''))
                (throw (step_failed (Some ''FETCH_USER_CONFIG'') ''GROUP_GID_UNRESOLVED'' 409 None False None))))
       else ret (info\<lparr>ui_groups := Some filled\<rparr>)))"

definition config_failed :: "env \<Rightarrow> string \<Rightarrow> string \<Rightarrow> phase \<Rightarrow> string \<Rightarrow> int \<Rightarrow> exn option \<Rightarrow> 'a cmd" where
  "config_failed E req user ph err status c =
     thn (log_pod E req user None None None FETCH_USER_CONFIG ph (Some err))
         (throw (infra_failed ''FETCH_USER_CONFIG'' err status c))"

text \<open>
  \<open>x_was\<close> answers the status and the decoded object, \<open>None\<close> for JSON that is no object; what it
  raises is a \<open>RequestException\<close>, or the \<open>ValueError\<close> of a body that is not JSON.
\<close>

definition config_url :: "string \<Rightarrow> string \<Rightarrow> bool \<Rightarrow> string" where
  "config_url req user by_request = (if by_request then ''by-request/'' @ req else user)"

definition checked_config :: "env \<Rightarrow> string \<Rightarrow> string \<Rightarrow> int \<times> user_info option \<Rightarrow> user_info cmd" where
  "checked_config E req user r = (case snd r of
     None \<Rightarrow> config_failed E req user FAIL ''USER_CONFIG_INVALID_RESPONSE'' 502 None
   | Some info \<Rightarrow>
       if ui_not_found info \<or> fst r = 404
       then config_failed E req user FAIL ''USER_CONFIG_NOT_FOUND'' 404 None
       else if 400 \<le> fst r
       then config_failed E req user FAIL ''USER_CONFIG_FETCH_FAILED'' 502 None
       else ret info)"

definition step_fetch_user_config :: "env \<Rightarrow> unit cmd" where
  "step_fetch_user_config E =
     bnd (getC c_request) (\<lambda>req. bnd (getC c_username) (\<lambda>user. bnd (getC c_config_by_request) (\<lambda>by_request.
     let url = config_url req user by_request in
     thn (log_pod E req user None None None FETCH_USER_CONFIG START None)
    (bnd (attempt (ext (EvWas url) (x_was E url))) (\<lambda>r.
     bnd (case r of
            Inl e \<Rightarrow> if is_value_error e
              then config_failed E req user FAIL ''USER_CONFIG_INVALID_RESPONSE'' 502 None
              else config_failed E req user (fail_phase e) ''USER_CONFIG_FETCH_FAILED'' 502 (Some e)
          | Inr p \<Rightarrow> checked_config E req user p) (\<lambda>info.
     bnd (fill_new_group_gids E info) (\<lambda>info.
     thn (log_pod E req user None None None FETCH_USER_CONFIG SUCCESS None)
         (modC (\<lambda>c. c\<lparr>c_user_info := Some (case c_image c of
            None \<Rightarrow> info | Some i \<Rightarrow> if i = [] then info else info\<lparr>ui_image := i\<rparr>)\<rparr>)))))))))"

section \<open>The name and the candidate nodes\<close>

definition setup_failed :: "string \<Rightarrow> exn" where
  "setup_failed st = infra_failed st ''K8S_CLIENT_SETUP_FAILED'' 500 None"

definition check_pod_absent :: "env \<Rightarrow> string \<Rightarrow> unit cmd" where
  "check_pod_absent E pod =
     bnd (attempt (ext (EvReadPod pod) (x_read_pod E pod))) (\<lambda>r. case r of
       Inr _ \<Rightarrow> throw (infra_failed ''CHECK_EXISTING_POD'' ''POD_ALREADY_EXISTS'' 409 None)
     | Inl e \<Rightarrow>
         if is_step_failed e then throw e
         else if is_api_exn e
         then (if is_api_status 404 e then ret ()
               else throw (infra_failed ''CHECK_EXISTING_POD'' ''POD_CHECK_FAILED'' 500 None))
         else throw (infra_failed ''CHECK_EXISTING_POD'' ''POD_CHECK_FAILED'' 500 (Some e)))"

definition wanted_nodes :: "user_info \<Rightarrow> string list" where
  "wanted_nodes info = map (\<lambda>n. lower (py_strip (gn_name n))) (filter (\<lambda>n. gn_name n \<noteq> []) (ui_gpu_nodes info))"

definition ready_worker_nodes :: "env \<Rightarrow> string list cmd" where
  "ready_worker_nodes E =
     bnd (tryE (thn (load_k8s E) (ext EvNodes (x_nodes E)))
               (\<lambda>e. throw (infra_failed ''LIST_NODES'' ''NODE_LIST_FAILED'' 500
                              (if is_api_exn e then None else Some e)))) (\<lambda>nodes.
     ret (map kn_name (filter (\<lambda>n. kn_ready n \<and> \<not> kn_control n) nodes)))"

definition step_prepare_pod :: "env \<Rightarrow> unit cmd" where
  "step_prepare_pod E =
     bnd (getC c_username) (\<lambda>user. bnd (needC c_user_info) (\<lambda>info.
     bnd (generate_pod_name E user) (\<lambda>pod.
     thn (modC (\<lambda>c. c\<lparr>c_pod_name := Some pod\<rparr>))
    (thn (tryE (load_k8s E) (\<lambda>_. throw (setup_failed ''CHECK_EXISTING_POD'')))
    (thn (check_pod_absent E pod)
    (bnd (if wanted_nodes info \<noteq> [] then ret (wanted_nodes info) else ready_worker_nodes E) (\<lambda>nodes.
     modC (\<lambda>c. c\<lparr>c_node_list := Some nodes\<rparr>))))))))"

definition step_select_node :: "env \<Rightarrow> unit cmd" where
  "step_select_node E =
     bnd (getC c_request) (\<lambda>req. bnd (getC c_username) (\<lambda>user. bnd (needC c_pod_name) (\<lambda>pod.
     thn (set_pod_creation_status E req ''selecting_node'')
    (thn (log_pod E req user (Some pod) None None SELECT_NODE START None)
    (bnd (tryE (bnd (needC c_node_list) (select_best_node E))
            (\<lambda>e. thn (set_pod_creation_status E req ''failed'')
                (thn (log_pod E req user (Some pod) None None SELECT_NODE (fail_phase e) (Some ''NODE_SELECTION_FAILED''))
                     (throw (infra_failed ''SELECT_NODE'' ''NODE_SELECTION_FAILED'' 500 (Some e)))))) (\<lambda>best.
     thn (log_pod E req user (Some pod) best None SELECT_NODE SUCCESS None)
         (modC (\<lambda>c. c\<lparr>c_node := best\<rparr>))))))))"

section \<open>The Pod specification\<close>

definition save_image_metadata :: "env \<Rightarrow> unit cmd" where
  "save_image_metadata E = io EvRedis (x_redis E) (\<lambda>s. s)"

text \<open>The saved image of the user, if \<open>docker load\<close> takes it; the tags name the two questions.\<close>

definition load_user_image :: "env \<Rightarrow> string \<Rightarrow> string \<Rightarrow> string cmd" where
  "load_user_image E user base =
     bnd (ext (EvImageStore (''exists '' @ user)) (x_image_store E (''exists '' @ user))) (\<lambda>saved.
       if \<not> saved then thn (save_image_metadata E) (ret base)
       else tryE (thn (ext (EvImageStore (''load '' @ user)) (x_image_store E (''load '' @ user)))
                  (thn (save_image_metadata E) (ret (''user-'' @ user @ '':latest''))))
                 (\<lambda>_. thn (save_image_metadata E) (ret base)))"

text \<open>\<open>str.isdigit\<close> also holds for the superscripts 2, 3 and 1, which \<open>int\<close> refuses.\<close>

definition isdigit_char :: "char \<Rightarrow> bool" where
  "isdigit_char c \<longleftrightarrow> is_digit c \<or> (of_char c :: nat) \<in> {178, 179, 185}"

fun normalize_gid :: "gid_value \<Rightarrow> exn + int option" where
  "normalize_gid (GidInt i) = Inr (Some i)"
| "normalize_gid (GidText t) = (if t \<noteq> [] \<and> list_all isdigit_char t
     then (case read_digits t of None \<Rightarrow> Inl (raised ValueError) | Some i \<Rightarrow> Inr (Some i))
     else Inr None)"

definition normalize_gid_list :: "gid_value list \<Rightarrow> exn + int list" where
  "normalize_gid_list vs = (case mapE normalize_gid vs of
     Inl e \<Rightarrow> Inl e | Inr gs \<Rightarrow> Inr (catSome gs))"

text \<open>\<open>groups\<close> first; a group without a gid never matches one of the ledger.\<close>

definition gids_of_user :: "user_info \<Rightarrow> exn + int list" where
  "gids_of_user info = (case ui_groups info of
     None \<Rightarrow> normalize_gid_list (ui_gid info)
   | Some gs \<Rightarrow> if gs = [] then normalize_gid_list (ui_gid info) else Inr (List.map_filter snd gs))"

text \<open>The name of the first group with the gid.\<close>

definition group_of_gid :: "int \<Rightarrow> string list \<Rightarrow> string option" where
  "group_of_gid g ls = map_option gr_name (find (\<lambda>r. gr_gid r = g) (entries parse_group_line ls))"

text \<open>The uid, gid and primary group of the ledger, the only source for them.\<close>

definition ledger_identity :: "env \<Rightarrow> string \<Rightarrow> (int \<times> int \<times> string) cmd" where
  "ledger_identity E user =
     bnd (read_passwd_lines E) (\<lambda>ls. case find_named parse_passwd_line pw_name user ls of
       None \<Rightarrow> throw (raised ValueError)
     | Some p \<Rightarrow> bnd (read_group_lines E) (\<lambda>gls.
         ret (pw_uid p, pw_gid p, case group_of_gid (pw_gid p) gls of None \<Rightarrow> user | Some n \<Rightarrow> n)))"

fun supp_entries :: "string list \<Rightarrow> int list \<Rightarrow> int list \<Rightarrow> string list" where
  "supp_entries ls seen [] = []"
| "supp_entries ls seen (g # gs) = (if g \<in> set seen then supp_entries ls seen gs
     else (case group_of_gid g ls of
             None \<Rightarrow> supp_entries ls (g # seen) gs
           | Some n \<Rightarrow> (n @ '':'' @ show_int g) # supp_entries ls (g # seen) gs))"

definition build_user_groups_env :: "env \<Rightarrow> string \<Rightarrow> int \<Rightarrow> int list \<Rightarrow> string cmd" where
  "build_user_groups_env E pg gid gids =
     bnd (read_group_lines E) (\<lambda>ls.
       ret (join '','' ((pg @ '':'' @ show_int gid) # supp_entries ls [gid] gids)))"

definition resolve_visible_gpus :: "env \<Rightarrow> string \<Rightarrow> int \<Rightarrow> string list \<Rightarrow> string cmd" where
  "resolve_visible_gpus E node n models = (if n \<le> 0 then ret ''void''
     else let wanted = map normalize_gpu_model (filter (\<lambda>m. m \<noteq> []) models) in
       if wanted = [] then throw (raised ValueError)
       else bnd (list_node_gpus E node) (\<lambda>inventory.
         let uuids = map fst (filter (\<lambda>g. normalize_gpu_model (snd g) \<in> set wanted) inventory) in
         if uuids = [] then throw (raised ValueError) else ret (join '','' uuids)))"

definition base_ports :: "(int \<times> string option) list" where
  "base_ports = [(22, Some ''ssh''), (8888, Some ''jupyter'')]"

definition wants_vnc :: "(int \<times> string option) list \<Rightarrow> bool" where
  "wants_vnc ps \<longleftrightarrow> list_ex (\<lambda>(i, p). p = Some ''novnc'' \<or> p = Some ''vnc'' \<or> i = 6080) ps"

definition log_spec :: "env \<Rightarrow> string \<Rightarrow> string \<Rightarrow> string \<Rightarrow> string \<Rightarrow> string \<Rightarrow> action \<Rightarrow> phase \<Rightarrow> unit cmd" where
  "log_spec E key user pod node res act ph = log_pod E key user (Some pod) (Some node) (Some res) act ph None"

definition allocate_for_spec ::
  "env \<Rightarrow> string \<Rightarrow> string \<Rightarrow> string \<Rightarrow> string \<Rightarrow> (int \<times> string option) list \<Rightarrow> port_info list cmd" where
  "allocate_for_spec E key user pod node ports =
     thn (set_pod_creation_status E key ''allocating_nodeport'')
    (thn (log_spec E key user pod node ''nodeport'' ALLOCATE_NODEPORT START)
    (bnd (tryE (allocate_nodeports E user pod node ports)
            (\<lambda>e. thn (log_spec E key user pod node ''nodeport'' ALLOCATE_NODEPORT (fail_phase e)) (throw e)))
         (\<lambda>allocated. thn (log_spec E key user pod node ''nodeport'' ALLOCATE_NODEPORT SUCCESS) (ret allocated))))"

definition deploy_for_spec :: "env \<Rightarrow> string \<Rightarrow> string \<Rightarrow> string \<Rightarrow> string \<Rightarrow> int \<Rightarrow> unit cmd" where
  "deploy_for_spec E key user pod node uid =
     thn (set_pod_creation_status E key ''deploying_krb5'')
    (thn (log_spec E key user pod node ''kerberos'' DEPLOY_KRB5 START)
    (thn (tryE (deploy_krb5_to_farm E user uid node)
            (\<lambda>e. thn (log_spec E key user pod node ''kerberos'' DEPLOY_KRB5 (fail_phase e)) (throw e)))
         (log_spec E key user pod node ''kerberos'' DEPLOY_KRB5 SUCCESS)))"

text \<open>The limits and GPUs of the node, from the first entry of its name.\<close>

definition node_resources :: "env \<Rightarrow> user_info \<Rightarrow> string \<Rightarrow> string \<times> string \<times> int \<times> string list" where
  "node_resources E info node = (case find (\<lambda>n. lower (gn_name n) = lower node) (ui_gpu_nodes info) of
     None \<Rightarrow> (cfg_cpu_limit E, cfg_mem_limit E, 0, [])
   | Some n \<Rightarrow> ((case gn_cpu n of None \<Rightarrow> cfg_cpu_limit E | Some t \<Rightarrow> t),
                (case gn_mem n of None \<Rightarrow> cfg_mem_limit E | Some t \<Rightarrow> t), gn_num_gpu n, gn_models n))"

text \<open>The part of \<open>build_pod_spec\<close> after the allocation, inside its \<open>try\<close>.\<close>

definition spec_body :: "env \<Rightarrow> string \<Rightarrow> string \<Rightarrow> user_info \<Rightarrow> string \<Rightarrow> string \<Rightarrow> string \<Rightarrow> string \<Rightarrow>
    int \<times> int \<times> string \<Rightarrow> int list \<Rightarrow> port_info list \<Rightarrow> pod_spec cmd" where
  "spec_body E key user info node pod img pull who gids allocated = (case who of (uid, gid, pg) \<Rightarrow>
     (case node_resources E info node of (cpu, mem, num_gpu, models) \<Rightarrow>
     bnd (resolve_visible_gpus E node num_gpu models) (\<lambda>gpus.
     bnd (liftE (farm_mount_root node)) (\<lambda>home.
     thn (whenE (cfg_realm E \<noteq> []) (deploy_for_spec E key user pod node uid))
    (bnd (build_user_groups_env E pg gid gids) (\<lambda>groups_env.
     ret \<lparr>ps_name = pod, ps_user = user, ps_has_gpu = (0 < num_gpu), ps_node = node,
          ps_priority = cfg_priority E, ps_image = img, ps_pull = pull,
          ps_ports = map internal_port allocated, ps_uid = uid, ps_gid = gid, ps_group = pg,
          ps_gpus = gpus, ps_secret = account_secret_name pod, ps_groups_env = groups_env,
          ps_vnc = wants_vnc (ui_ports info),
          ps_krb5 = (if cfg_realm E = [] then None
                     else Some (user @ ''@'' @ cfg_realm E @ '' FILE:/run/user/'' @ show_int uid @ ''/krb5cc_ailab'')),
          ps_cpu = cpu, ps_mem = mem, ps_home = home\<rparr>))))))"

definition spec_or_release :: "env \<Rightarrow> string \<Rightarrow> 'a cmd \<Rightarrow> 'a cmd" where
  "spec_or_release E pod m =
     tryE m (\<lambda>e. bnd (succeeded (release_nodeports E pod)) (\<lambda>_. throw (raised_from PodSpecBuildError e)))"

definition build_pod_spec ::
  "env \<Rightarrow> string \<Rightarrow> user_info \<Rightarrow> string \<Rightarrow> string \<Rightarrow> string \<Rightarrow> string option \<Rightarrow> (pod_spec \<times> port_info list) cmd" where
  "build_pod_spec E user info target pod req own_image =
     (let key = (if req = [] then user else req);
          baked = (case own_image of None \<Rightarrow> False | Some i \<Rightarrow> i \<noteq> []) in
     thn (ensure_etc_layout E)
    (bnd (resolve_k8s_node_name E (Some target)) (\<lambda>canonical. case canonical of
       None \<Rightarrow> throw (raised ValueError)
     | Some node \<Rightarrow>
     bnd (if baked then ret (the own_image) else load_user_image E user (ui_image info)) (\<lambda>img.
     bnd (ledger_identity E user) (\<lambda>who.
     bnd (liftE (gids_of_user info)) (\<lambda>gids.
     bnd (allocate_for_spec E key user pod node (base_ports @ ui_ports info)) (\<lambda>allocated.
     spec_or_release E pod
       (bnd (spec_body E key user info node pod img (if baked then ''Never'' else ''IfNotPresent'')
               who gids allocated) (\<lambda>spec.
        ret (spec, allocated))))))))))"

definition step_build_pod_spec :: "env \<Rightarrow> unit cmd" where
  "step_build_pod_spec E =
     bnd (getC c_request) (\<lambda>req. bnd (getC c_username) (\<lambda>user. bnd (needC c_pod_name) (\<lambda>pod.
     bnd (getC c_node) (\<lambda>best.
     thn (set_pod_creation_status E req ''building_pod_spec'')
    (bnd (attempt (case best of
            None \<Rightarrow> throw (raised ValueError)
          | Some node \<Rightarrow> if node = [] then throw (raised ValueError)
              else bnd (needC c_user_info) (\<lambda>info. bnd (getC c_committed_image) (\<lambda>image.
                   build_pod_spec E user info node pod req image)))) (\<lambda>r. case r of
       Inl e \<Rightarrow> thn (set_pod_creation_status E req ''failed'')
         (throw (if is_value_error e
                 then infra_failed ''BUILD_POD_SPEC'' ''POD_SPEC_BUILD_FAILED'' 400 None
                 else infra_failed ''BUILD_POD_SPEC'' ''POD_SPEC_BUILD_FAILED'' 500 (Some e)))
     | Inr (spec, allocated) \<Rightarrow>
         modC (\<lambda>c. c\<lparr>c_pod_spec := Some spec, c_allocated_ports := allocated\<rparr>)))))))"

section \<open>Creating the Pod\<close>

definition create_pod_failed :: "env \<Rightarrow> string \<Rightarrow> string \<Rightarrow> string \<Rightarrow> string option \<Rightarrow> exn \<Rightarrow> unit cmd" where
  "create_pod_failed E req user pod best e =
     thn (set_pod_creation_status E req ''failed'')
    (bnd (cleanup_create_failure E pod True False) (\<lambda>_.
     thn (log_pod E req user (Some pod) best (Some ''pod'') CREATE_POD_K8S
            (if is_api_exn e then FAIL else fail_phase e) (Some ''POD_CREATE_FAILED''))
         (throw (pod_restart_failed ''CREATE_POD'' ''POD_CREATE_FAILED''
                   (if is_api_exn e then None else Some e)))))"

definition password_missing :: "env \<Rightarrow> string \<Rightarrow> string \<Rightarrow> string \<Rightarrow> string option \<Rightarrow> string cmd" where
  "password_missing E req user pod best =
     thn (set_pod_creation_status E req ''failed'')
    (bnd (cleanup_create_failure E pod False False) (\<lambda>_.
     thn (log_pod E req user (Some pod) best (Some ''pod'') CREATE_POD_K8S FAIL (Some ''LOGIN_PASSWORD_MISSING''))
         (throw (infra_failed ''CREATE_POD'' ''LOGIN_PASSWORD_MISSING'' 422 None))))"

definition submit_pod :: "env \<Rightarrow> string \<Rightarrow> string \<Rightarrow> unit cmd" where
  "submit_pod E pod hash =
     thn (ensure_account_secret E pod hash)
    (bnd (needC c_pod_spec) (\<lambda>spec.
     bnd (ext (EvCreatePod pod) (x_create_pod E spec)) (\<lambda>pod_uid.
     own_account_secret E pod pod_uid)))"

definition step_create_pod_k8s :: "env \<Rightarrow> unit cmd" where
  "step_create_pod_k8s E =
     bnd (getC c_request) (\<lambda>req. bnd (getC c_username) (\<lambda>user. bnd (needC c_pod_name) (\<lambda>pod.
     bnd (getC c_node) (\<lambda>best.
     thn (tryE (load_k8s E) (\<lambda>_. bnd (cleanup_create_failure E pod False False) (\<lambda>_.
            throw (pod_restart_failed ''CREATE_POD'' ''K8S_CLIENT_SETUP_FAILED'' None))))
    (thn (modC (\<lambda>c. c\<lparr>c_v1 := True\<rparr>))
    (bnd (needC c_user_info) (\<lambda>info.
     bnd (tryE (login_password_hash E (Some info))
            (\<lambda>e. if is_kind LoginPasswordMissing e then password_missing E req user pod best else throw e)) (\<lambda>hash.
     thn (set_pod_creation_status E req ''creating_pod'')
    (thn (log_pod E req user (Some pod) best (Some ''pod'') CREATE_POD_K8S START None)
    (thn (tryE (submit_pod E pod hash) (create_pod_failed E req user pod best))
         (log_pod E req user (Some pod) best (Some ''pod'') CREATE_POD_K8S SUCCESS None)))))))))))"

section \<open>Waiting until it is ready\<close>

fun wait_substage :: "string \<Rightarrow> action option" where
  "wait_substage s = (if s = ''pulling_image'' then Some PULL_IMAGE
     else if s = ''starting_container'' then Some START_CONTAINER
     else if s = ''mount_retrying'' then Some MOUNT_VOLUME else None)"

record sub_log =
  sl_req :: string
  sl_user :: string
  sl_pod :: string
  sl_node :: "string option"

definition log_sub :: "env \<Rightarrow> sub_log \<Rightarrow> action \<Rightarrow> phase \<Rightarrow> string option \<Rightarrow> unit cmd" where
  "log_sub E L act ph err = log_pod E (sl_req L) (sl_user L) (Some (sl_pod L)) (sl_node L) (Some ''pod'') act ph err"

definition close_sub :: "env \<Rightarrow> sub_log \<Rightarrow> action option \<Rightarrow> phase \<Rightarrow> string option \<Rightarrow> unit cmd" where
  "close_sub E L open_sub ph err = (case open_sub of None \<Rightarrow> ret () | Some act \<Rightarrow> log_sub E L act ph err)"

text \<open>Every fifth round looks at the events: the open sub-stage and the last stage shown.\<close>

definition show_progress :: "env \<Rightarrow> sub_log \<Rightarrow> action option \<Rightarrow> string \<Rightarrow> (action option \<times> string) cmd" where
  "show_progress E L open_sub last_stage =
     bnd (pod_progress_stage E (sl_pod L)) (\<lambda>progress. case progress of
       None \<Rightarrow> ret (open_sub, last_stage)
     | Some stage \<Rightarrow>
         thn (case wait_substage stage of
                None \<Rightarrow> ret ()
              | Some act \<Rightarrow> whenE (Some act \<noteq> open_sub)
                  (thn (close_sub E L open_sub SUCCESS None) (log_sub E L act START None)))
        (thn (whenE (stage \<noteq> last_stage) (set_pod_creation_status E (sl_req L) stage))
             (ret (case wait_substage stage of None \<Rightarrow> open_sub | Some act \<Rightarrow> Some act, stage))))"

text \<open>
  The loop with \<open>n\<close> rounds left, in round \<open>i\<close>: the sub-stage still open, and what the loop found,
  an exception, \<open>None\<close> for a ready Pod or why the Pod failed.
\<close>

fun ready_loop :: "env \<Rightarrow> sub_log \<Rightarrow> nat \<Rightarrow> nat \<Rightarrow> action option \<Rightarrow> string \<Rightarrow>
    (action option \<times> (exn + string option)) cmd" where
  "ready_loop E L 0 i open_sub last_stage =
     ret (open_sub, Inr (Some (''pod not ready within '' @ show_nat i @ ''s'')))"
| "ready_loop E L (Suc n) i open_sub last_stage =
     bnd (attempt (ext (EvReadPod (sl_pod L)) (x_read_pod E (sl_pod L)))) (\<lambda>r. case r of
       Inl e \<Rightarrow> ret (open_sub, Inl e)
     | Inr pod \<Rightarrow>
         if is_pod_ready pod then thn (close_sub E L open_sub SUCCESS None) (ret (None, Inr None))
         else (case pod_failure_reason pod of
           Some why \<Rightarrow> ret (open_sub, Inr (Some why))
         | None \<Rightarrow> bnd (if i mod 5 = 0 then show_progress E L open_sub last_stage
                        else ret (open_sub, last_stage)) (\<lambda>p.
             thn (sleep 1000) (ready_loop E L n (Suc i) (fst p) (snd p)))))"

definition wait_failed :: "env \<Rightarrow> sub_log \<Rightarrow> action option \<Rightarrow> unit cmd" where
  "wait_failed E L open_sub =
     thn (close_sub E L open_sub FAIL (Some ''POD_READY_TIMEOUT''))
    (thn (set_pod_creation_status E (sl_req L) ''failed'')
    (bnd (cleanup_create_failure E (sl_pod L) True False) (\<lambda>_.
     thn (log_sub E L WAIT_READY FAIL (Some ''POD_READY_TIMEOUT''))
         (throw (step_failed (Some ''WAIT_POD_READY'') ''POD_READY_TIMEOUT'' 500 None False None)))))"

definition wait_check_failed :: "env \<Rightarrow> sub_log \<Rightarrow> action option \<Rightarrow> exn \<Rightarrow> unit cmd" where
  "wait_check_failed E L open_sub e = (if is_step_failed e then throw e else
     thn (close_sub E L open_sub FAIL (Some ''POD_READY_CHECK_FAILED''))
    (thn (set_pod_creation_status E (sl_req L) ''failed'')
    (bnd (cleanup_create_failure E (sl_pod L) True False) (\<lambda>_.
     thn (log_sub E L WAIT_READY (if is_api_exn e then FAIL else fail_phase e) (Some ''POD_READY_CHECK_FAILED''))
         (throw (pod_restart_failed ''WAIT_POD_READY'' ''POD_READY_CHECK_FAILED''
                   (if is_api_exn e then None else Some e)))))))"

text \<open>\<open>ctx["v1"]\<close> was set by the step before, in the same process.\<close>

definition need_v1 :: "unit cmd" where
  "need_v1 = bnd (getC c_v1) (\<lambda>v1. if v1 then ret () else throw (raised KeyError))"

text \<open>After the loop.\<close>

definition wait_outcome :: "env \<Rightarrow> sub_log \<Rightarrow> action option \<times> (exn + string option) \<Rightarrow> unit cmd" where
  "wait_outcome E L p =
     thn (case snd p of
            Inl e \<Rightarrow> wait_check_failed E L (fst p) e
          | Inr None \<Rightarrow> ret ()
          | Inr (Some _) \<Rightarrow> wait_failed E L (fst p))
    (bnd (summarize_pod_start_events E (sl_pod L)) (\<lambda>_.
     log_sub E L WAIT_READY SUCCESS None))"

definition wait_pod :: "env \<Rightarrow> sub_log \<Rightarrow> unit cmd" where
  "wait_pod E L =
     thn (set_pod_creation_status E (sl_req L) ''pulling_image'')
    (thn (log_sub E L WAIT_READY START None)
    (bnd (ready_loop E L (cfg_pod_wait E) 0 None ''pulling_image'') (wait_outcome E L)))"

definition step_wait_ready :: "env \<Rightarrow> unit cmd" where
  "step_wait_ready E =
     bnd (getC c_request) (\<lambda>req. bnd (getC c_username) (\<lambda>user. bnd (needC c_pod_name) (\<lambda>pod.
     bnd (getC c_node) (\<lambda>best.
     thn need_v1 (wait_pod E \<lparr>sl_req = req, sl_user = user, sl_pod = pod, sl_node = best\<rparr>)))))"

section \<open>The Services\<close>

definition create_services_failed :: "env \<Rightarrow> string \<Rightarrow> string \<Rightarrow> string \<Rightarrow> string option \<Rightarrow> exn \<Rightarrow> unit cmd" where
  "create_services_failed E req user pod best e =
     thn (set_pod_creation_status E req ''failed'')
    (bnd (cleanup_create_failure E pod True True) (\<lambda>_.
     thn (log_pod E req user (Some pod) best (Some ''service'') CREATE_SERVICE
            (if is_api_exn e then FAIL else fail_phase e) (Some ''NODEPORT_SERVICE_CREATE_FAILED''))
         (throw (pod_restart_failed ''CREATE_NODEPORT_SERVICE'' ''NODEPORT_SERVICE_CREATE_FAILED''
                   (if is_api_exn e then None else Some e)))))"

definition step_create_services :: "env \<Rightarrow> unit cmd" where
  "step_create_services E =
     bnd (getC c_request) (\<lambda>req. bnd (getC c_username) (\<lambda>user. bnd (needC c_pod_name) (\<lambda>pod.
     bnd (getC c_node) (\<lambda>best. thn need_v1
    (thn (set_pod_creation_status E req ''creating_services'')
    (thn (log_pod E req user (Some pod) best (Some ''service'') CREATE_SERVICE START None)
    (bnd (getC (\<lambda>c. (c_allocated_ports c, c_access_blocked c, c_access_decided_at c))) (\<lambda>(ports, blocked, decided).
     thn (tryE (create_nodeport_services E user pod ports blocked decided)
            (create_services_failed E req user pod best))
    (thn (log_pod E req user (Some pod) best (Some ''service'') CREATE_SERVICE SUCCESS None)
         (set_pod_creation_status E req ''ready''))))))))))"

definition pod_create_steps :: "step list" where
  "pod_create_steps = [FetchUserConfig, PreparePod, SelectNode, BuildPodSpec, CreatePodK8s, WaitReady, CreateServices]"

end
