(* ===== verification/Node_Image.thy ===== *)
theory Node_Image
  imports K8s
begin

text \<open>
  Images baked on a node (\<open>adapters/node_image.py\<close>): references, the commands a helper Pod runs on
  the node, and the thaw that must follow a failed commit of a running container.

  A helper Pod (creating it, waiting for it, reading its log, deleting it) is the request
  \<open>x_helper\<close>: it raises what the API raises or \<open>IMAGE_HELPER_TIMEOUT\<close>, or answers the code of the
  failure it reports (empty if it gives none) or the number in its result.
\<close>

definition repository :: string where
  "repository = ''ailab.local/user-image''"

definition ref_for :: "string \<Rightarrow> string \<Rightarrow> string" where
  "ref_for namespace pod = repository @ ''/'' @ namespace @ '':'' @ pod"

definition is_user_image :: "string option \<Rightarrow> bool" where
  "is_user_image img = (case img of None \<Rightarrow> False | Some i \<Rightarrow> starts_with (repository @ ''/'') i)"

definition node_image_error :: "string \<Rightarrow> exn" where
  "node_image_error code = raised (NodeImageError code)"

definition image_error_from :: "string \<Rightarrow> exn \<Rightarrow> exn" where
  "image_error_from code e = raised_from (NodeImageError code) e"

fun image_code :: "exn \<Rightarrow> string option" where
  "image_code (Exn (NodeImageError code) r c h) = Some code"
| "image_code _ = None"

text \<open>\<open>^[0-9a-f]{64}$\<close> after the first \<open>://\<close>, if there is one.\<close>

definition hex_char :: "char \<Rightarrow> bool" where
  "hex_char c \<longleftrightarrow> is_digit c \<or> (97 \<le> (of_char c :: nat) \<and> (of_char c :: nat) \<le> 102)"

fun after_scheme :: "string \<Rightarrow> string option" where
  "after_scheme [] = None"
| "after_scheme (c # cs) = (if take 3 (c # cs) = ''://'' then Some (drop 3 (c # cs)) else after_scheme cs)"

definition container_id :: "string option \<Rightarrow> exn + string" where
  "container_id st = (let s = (case st of None \<Rightarrow> [] | Some t \<Rightarrow> t);
       v = (case after_scheme s of None \<Rightarrow> s | Some t \<Rightarrow> t);
       t = strip_final_nl v in
     if length t = 64 \<and> list_all hex_char t then Inr v
     else Inl (node_image_error ''IMAGE_COMMIT_NO_CONTAINER''))"

text \<open>A part of a reference: it starts and ends with a letter or digit.\<close>

definition alnum :: "char \<Rightarrow> bool" where
  "alnum c \<longleftrightarrow> is_digit c \<or> lower_letter c"

definition ref_part :: "(char \<Rightarrow> bool) \<Rightarrow> string \<Rightarrow> bool" where
  "ref_part inner s \<longleftrightarrow> s \<noteq> [] \<and> alnum (hd s) \<and> alnum (last s) \<and> list_all (\<lambda>c. alnum c \<or> inner c) s"

definition checked_ref :: "string \<Rightarrow> exn + string" where
  "checked_ref ref = (let t = strip_final_nl ref; p = repository @ ''/'';
       rest = drop (length p) t; ns = takeWhile (\<lambda>c. c \<noteq> CHR '':'') rest;
       tag = dropWhile (\<lambda>c. c \<noteq> CHR '':'') rest in
     if starts_with p t \<and> ref_part (\<lambda>c. c = CHR ''-'') ns \<and> tag \<noteq> [] \<and>
        ref_part (\<lambda>c. c = CHR ''-'' \<or> c = CHR ''.'') (tl tag)
     then Inr ref else Inl (node_image_error ''IMAGE_REF_INVALID''))"

definition run_helper :: "env \<Rightarrow> string \<Rightarrow> string \<Rightarrow> string \<Rightarrow> int cmd" where
  "run_helper E node args fail_code =
     (if \<not> cfg_helper_configured E then throw (node_image_error ''IMAGE_HELPER_NOT_CONFIGURED'')
      else bnd (ext (EvHelper node args) (x_helper E node args)) (\<lambda>r. case r of
        Inr n \<Rightarrow> ret n
      | Inl code \<Rightarrow> throw (node_image_error (if code = [] then fail_code else code))))"

definition thaw_args :: "string \<Rightarrow> string" where
  "thaw_args runtime_id = words [''thaw'', runtime_id]"

text \<open>\<open>_thaw_or_raise\<close>: a result without \<open>frozen\<close> counts as frozen.\<close>

definition thaw_or_raise :: "env \<Rightarrow> string \<Rightarrow> string \<Rightarrow> exn \<Rightarrow> unit cmd" where
  "thaw_or_raise E node runtime_id failure =
     bnd (tryE (run_helper E node (thaw_args runtime_id) ''IMAGE_THAW_FAILED'')
               (\<lambda>_. throw (image_error_from ''IMAGE_LEFT_PAUSED'' failure))) (\<lambda>frozen.
       if frozen \<noteq> 0 then throw (image_error_from ''IMAGE_LEFT_PAUSED'' failure)
       else if image_code failure = Some ''IMAGE_LEFT_PAUSED''
       then throw (image_error_from ''IMAGE_COMMIT_FAILED'' failure)
       else ret ())"

definition commit_image :: "env \<Rightarrow> string \<Rightarrow> string option \<Rightarrow> string \<Rightarrow> bool \<Rightarrow> int cmd" where
  "commit_image E node container ref running =
     bnd (liftE (container_id container)) (\<lambda>runtime_id.
     bnd (liftE (checked_ref ref)) (\<lambda>ref'.
     tryE (run_helper E node (words ([''commit'', runtime_id, ref'] @ (if running then [''running''] else [])))
             ''IMAGE_COMMIT_FAILED'')
          (\<lambda>failure. thn (whenE running (thaw_or_raise E node runtime_id failure)) (throw failure))))"

definition remove_image :: "env \<Rightarrow> string \<Rightarrow> string \<Rightarrow> bool cmd" where
  "remove_image E node ref =
     bnd (liftE (checked_ref ref)) (\<lambda>ref'.
     bnd (run_helper E node (words [''remove'', ref']) ''IMAGE_REMOVE_FAILED'') (\<lambda>n. ret (n \<noteq> 0)))"

definition remove_node_image_quietly :: "env \<Rightarrow> string \<Rightarrow> string \<Rightarrow> unit cmd" where
  "remove_node_image_quietly E node ref = tryE (bnd (remove_image E node ref) (\<lambda>_. ret ())) (\<lambda>_. ret ())"

section \<open>A container is never left stopped in silence\<close>

text \<open>
  The outcome of a commit of a running container: it succeeded, or what it raises says that the
  container is still stopped, or the thaw said that it runs.
\<close>

definition left_paused :: "exn \<Rightarrow> bool" where
  "left_paused e \<longleftrightarrow> image_code e = Some ''IMAGE_LEFT_PAUSED''"

definition thawed :: "env \<Rightarrow> string \<Rightarrow> string \<Rightarrow> history \<Rightarrow> bool" where
  "thawed E node runtime_id h\<^sub>1 \<longleftrightarrow>
     (\<exists>h. h\<^sub>1 = EvHelper node (thaw_args runtime_id) # h \<and> x_helper E node (thaw_args runtime_id) h = Inr (Inr 0))"

lemma image_code_simps [simp]: "image_code (image_error_from code e) = Some code"
  "image_code (node_image_error code) = Some code"
  by (simp_all add: image_error_from_def node_image_error_def raised_def raised_from_def)

lemma wp_run_helper:
  assumes "cfg_helper_configured E"
  shows "wp (run_helper E node args fc) Q R s = (case x_helper E node args (hist s) of
      Inl e \<Rightarrow> R e (s\<lparr>hist := EvHelper node args # hist s\<rparr>)
    | Inr (Inr n) \<Rightarrow> Q n (s\<lparr>hist := EvHelper node args # hist s\<rparr>)
    | Inr (Inl code) \<Rightarrow> R (node_image_error (if code = [] then fc else code)) (s\<lparr>hist := EvHelper node args # hist s\<rparr>))"
  using assms by (simp add: run_helper_def wp_simps split: sum.splits)

lemma wp_thaw_or_raise:
  assumes "cfg_helper_configured E"
  shows "wp (thaw_or_raise E node i failure)
     (\<lambda>_ t. thawed E node i (hist t) \<and> \<not> left_paused failure) (\<lambda>e t. left_paused e \<or> thawed E node i (hist t)) s"
  using assms
  by (simp add: thaw_or_raise_def wp_bnd wp_tryE wp_run_helper wp_throw wp_ret wp_if left_paused_def thawed_def
      split: sum.splits)

text \<open>The helper is only asked once its arguments are good; then the outcome is one of the three.\<close>

lemma wp_commit_running:
  assumes c: "cfg_helper_configured E" and i: "container_id container = Inr i" and r: "checked_ref ref = Inr ref"
  shows "wp (commit_image E node container ref True) (\<lambda>_ _. True)
     (\<lambda>e t. left_paused e \<or> thawed E node i (hist t)) s"
proof -
  have h: "wp (thn (thaw_or_raise E node i failure) (throw failure)) Q
      (\<lambda>e t. left_paused e \<or> thawed E node i (hist t)) u" for failure u and Q :: "int \<Rightarrow> st \<Rightarrow> bool"
    unfolding wp_thn wp_throw by (rule wp_weaken[OF wp_thaw_or_raise[OF c]]) auto
  show ?thesis
    unfolding commit_image_def i r
    by (simp add: wp_bnd wp_liftE wp_tryE wp_run_helper[OF c] whenE_def h split: sum.splits)
qed

lemma commit_unasked:
  assumes "container_id container = Inl e \<or> (\<exists>i. container_id container = Inr i) \<and> checked_ref ref = Inl e"
  shows "commit_image E node container ref running s = (Inl e, s)"
  using assms by (auto simp: commit_image_def run)

end
