(* ===== verification/Revoke.thy ===== *)
theory Revoke
  imports Pods Node_Image
begin

text \<open>
  The steps that take access back (\<open>lifecycle_steps/revoke.py\<close>): Services, ports, the Pod, its
  image and keytab, the account and its Kerberos principal.

  The dictionary \<open>rollback\<close> of the response body is left out.  The job's context holds it, so its
  subscription does not fail.
\<close>

section \<open>The Pod\<close>

definition log_on :: "env \<Rightarrow> string \<Rightarrow> string \<Rightarrow> string \<Rightarrow> string option \<Rightarrow> string \<Rightarrow> action \<Rightarrow> phase \<Rightarrow> string option \<Rightarrow> unit cmd" where
  "log_on E req user pod node res act ph err = log_pod E req user (Some pod) node (Some res) act ph err"

definition step_delete_services :: "env \<Rightarrow> unit cmd" where
  "step_delete_services E =
     bnd (getC c_request) (\<lambda>req. bnd (getC c_username) (\<lambda>user. bnd (needC c_pod_name) (\<lambda>pod.
     thn (log_on E req user pod None ''service'' DELETE_SERVICE START None)
    (thn (tryE (delete_nodeport_services E pod) (\<lambda>e.
            thn (log_on E req user pod None ''service'' DELETE_SERVICE (if is_api_exn e then FAIL else fail_phase e)
                   (Some ''NODEPORT_SERVICE_DELETE_FAILED''))
                (throw (infra_failed ''DELETE_NODEPORT_SERVICE'' ''NODEPORT_SERVICE_DELETE_FAILED'' 500
                          (if is_api_exn e then None else Some e)))))
         (log_on E req user pod None ''service'' DELETE_SERVICE SUCCESS None)))))"

definition step_release_nodeports :: "env \<Rightarrow> unit cmd" where
  "step_release_nodeports E =
     bnd (getC c_request) (\<lambda>req. bnd (getC c_username) (\<lambda>user. bnd (needC c_pod_name) (\<lambda>pod.
     thn (log_on E req user pod None ''nodeport'' RELEASE_NODEPORT START None)
    (thn (tryE (release_nodeports E pod) (\<lambda>e.
            thn (log_on E req user pod None ''nodeport'' RELEASE_NODEPORT (fail_phase e) (Some ''NODEPORT_RELEASE_FAILED''))
                (throw (infra_failed ''RELEASE_NODEPORT'' ''NODEPORT_RELEASE_FAILED'' 500 (Some e)))))
         (log_on E req user pod None ''nodeport'' RELEASE_NODEPORT SUCCESS None)))))"

text \<open>The node of a Pod, \<open>None\<close> before it is scheduled.\<close>

definition node_of :: "pod_view \<Rightarrow> string option" where
  "node_of p = (if pv_node p = [] then None else Some (pv_node p))"

text \<open>What is kept of the Pod before it goes: its node (for the keytab) and an image baked for it.\<close>

definition look_up_pod :: "env \<Rightarrow> string \<Rightarrow> string option cmd" where
  "look_up_pod E pod =
     bnd (attempt (ext (EvReadPod pod) (x_read_pod E pod))) (\<lambda>r. case r of
       Inl _ \<Rightarrow> ret None
     | Inr p \<Rightarrow>
         let node = (if cfg_realm E \<noteq> [] then node_of p else None);
             img = (case pv_images p of [] \<Rightarrow> None | i # _ \<Rightarrow> Some i)
         in thn (whenE (is_user_image img)
                   (modC (\<lambda>c. c\<lparr>c_committed_image := img, c_committed_image_node := node_of p\<rparr>)))
                (ret node))"

definition delete_failed :: "env \<Rightarrow> string \<Rightarrow> string \<Rightarrow> string \<Rightarrow> string option \<Rightarrow> exn \<Rightarrow> 'a cmd" where
  "delete_failed E req user pod node e =
     thn (log_on E req user pod node ''pod'' DELETE_POD_K8S (if is_api_exn e then FAIL else fail_phase e)
            (Some ''POD_DELETE_FAILED''))
         (throw (infra_failed ''DELETE_POD'' ''POD_DELETE_FAILED'' 500 (if is_api_exn e then None else Some e)))"

definition await_deletion :: "env \<Rightarrow> string \<Rightarrow> string \<Rightarrow> string \<Rightarrow> string option \<Rightarrow> unit cmd" where
  "await_deletion E req user pod node =
     bnd (tryE (wait_for_pod_deleted E pod) (delete_failed E req user pod node)) (\<lambda>gone.
       if \<not> gone
       then thn (log_on E req user pod node ''pod'' DELETE_POD_K8S FAIL (Some ''POD_DELETE_TIMEOUT''))
                (throw (infra_failed ''DELETE_POD'' ''POD_DELETE_TIMEOUT'' 500 None))
       else log_on E req user pod node ''pod'' DELETE_POD_K8S SUCCESS None)"

definition step_delete_pod_k8s :: "env \<Rightarrow> unit cmd" where
  "step_delete_pod_k8s E =
     bnd (getC c_request) (\<lambda>req. bnd (getC c_username) (\<lambda>user. bnd (needC c_pod_name) (\<lambda>pod.
     thn (tryE (load_k8s E) (\<lambda>_. throw (setup_failed ''DELETE_POD'')))
    (bnd (look_up_pod E pod) (\<lambda>node.
     thn (modC (\<lambda>c. c\<lparr>c_pod_node_name := node\<rparr>))
    (thn (log_on E req user pod node ''pod'' DELETE_POD_K8S START None)
    (bnd (attempt (thn (ext (EvDeletePod pod) (x_delete_pod E pod)) (delete_account_secret E pod))) (\<lambda>r. case r of
       Inr _ \<Rightarrow> await_deletion E req user pod node
     | Inl e \<Rightarrow> if is_api_status 404 e
         then thn (log_on E req user pod node ''pod'' DELETE_POD_K8S SUCCESS None)
                  (modC (\<lambda>c. c\<lparr>c_already_absent := True\<rparr>))
         else delete_failed E req user pod node e))))))))"

text \<open>A helper Pod without a node name (the empty one here) goes anywhere.\<close>

definition step_remove_node_image :: "env \<Rightarrow> unit cmd" where
  "step_remove_node_image E = bnd (getC c_committed_image) (\<lambda>img. case img of
     None \<Rightarrow> ret ()
   | Some i \<Rightarrow> if i = [] then ret ()
       else bnd (getC c_committed_image_node) (\<lambda>node.
            remove_node_image_quietly E (case node of None \<Rightarrow> [] | Some n \<Rightarrow> n) i))"

section \<open>The keytab on the node of the Pod\<close>

text \<open>The user's Pods on the node, other than the one of this job.\<close>

definition others_on_node :: "string option \<Rightarrow> string \<Rightarrow> pod_view list \<Rightarrow> pod_view list" where
  "others_on_node own node pods = filter (\<lambda>p. Some (pv_name p) \<noteq> own \<and> node_of p = Some node) pods"

definition step_cleanup_pod_node_krb5 :: "env \<Rightarrow> unit cmd" where
  "step_cleanup_pod_node_krb5 E =
     bnd (getC c_already_absent) (\<lambda>absent. bnd (getC c_username) (\<lambda>user. bnd (getC c_pod_node_name) (\<lambda>pod_node.
     case pod_node of
       None \<Rightarrow> ret ()
     | Some node \<Rightarrow>
         if absent \<or> cfg_realm E = [] \<or> node = [] then ret ()
         else bnd (getC c_pod_name) (\<lambda>own.
           bnd (attempt (thn (load_k8s E) (list_user_pods E user))) (\<lambda>r. case r of
             Inl _ \<Rightarrow> ret ()
           | Inr pods \<Rightarrow>
               if others_on_node own node pods \<noteq> [] then ret ()
               else tryE (remove_krb5_from_farm E user node)
                         (\<lambda>_. record_krb5_cleanup_pending E user node))))))"

definition pod_delete_steps :: "step list" where
  "pod_delete_steps = [DeleteServices, ReleaseNodeports, DeletePodK8s, RemoveNodeImage, CleanupPodNodeKrb5]"

section \<open>The account\<close>

definition some_text :: "string option \<Rightarrow> bool" where
  "some_text t \<longleftrightarrow> (case t of None \<Rightarrow> False | Some s \<Rightarrow> s \<noteq> [])"

definition text_or_else :: "string option \<Rightarrow> string option \<Rightarrow> string option" where
  "text_or_else a b = (if some_text a then a else b)"

definition step_check_account_revocable :: "env \<Rightarrow> unit cmd" where
  "step_check_account_revocable E =
     bnd (getC c_username) (\<lambda>user. bnd (getC (\<lambda>c. (c_node_name c, c_pod_node_name c, c_pod_name c))) (\<lambda>(node, pod_node, own).
       if cfg_realm E \<noteq> [] \<and> \<not> some_text (text_or_else node pod_node)
       then throw (infra_failed ''DELETE_ACCOUNT'' ''ACCOUNT_NODE_UNKNOWN'' 409 None)
       else thn (load_k8s E) (bnd (list_user_pods E user) (\<lambda>pods.
         if list_ex (\<lambda>p. Some (pv_name p) \<noteq> own) pods
         then throw (infra_failed ''DELETE_ACCOUNT'' ''ACCOUNT_IN_USE'' 409 None)
         else ret ()))))"

text \<open>\<open>_remove_account_leftovers\<close>: files are only written when something is removed.\<close>

definition leftover_group :: "string \<Rightarrow> group_entry \<Rightarrow> bool" where
  "leftover_group user r \<longleftrightarrow> gr_name r = user"

definition touches_user :: "string \<Rightarrow> string \<Rightarrow> bool" where
  "touches_user user gl = (case parse_group_line gl of
     None \<Rightarrow> False
   | Some r \<Rightarrow> user \<in> set (gr_members r) \<or> (leftover_group user r \<and> gr_members (without_member user r) = []))"

definition remove_account_leftovers :: "env \<Rightarrow> string \<Rightarrow> unit cmd" where
  "remove_account_leftovers E user =
     bnd (read_shadow_lines E) (\<lambda>sh_lines.
     thn (whenE (length (drop_named parse_shadow_line sp_name user sh_lines) \<noteq> length sh_lines)
            (write_shadow_lines E (drop_named parse_shadow_line sp_name user sh_lines)))
    (bnd (read_group_lines E) (\<lambda>g_lines.
     bnd (liftE (mapE (strip_group_line (leftover_group user) user) g_lines)) (\<lambda>cleaned.
     whenE (list_ex (touches_user user) g_lines) (write_group_lines E (catSome cleaned))))))"

section \<open>Evidence of a deletion\<close>

text \<open>The number of the last successful creation, 0 if there is none.\<close>

definition last_created :: "string \<Rightarrow> oprow list \<Rightarrow> int" where
  "last_created user rows = max_default 0 (map op_id (filter (\<lambda>r. op_username r = user \<and>
     op_action r = CREATE_ACCOUNT \<and> op_resource r = Some ''account'' \<and> op_phase r = SUCCESS) rows))"

definition deletes_account :: "string \<Rightarrow> int \<Rightarrow> oprow \<Rightarrow> bool" where
  "deletes_account user created r \<longleftrightarrow> op_username r = user \<and> op_action r = DELETE_ACCOUNT \<and>
     op_resource r = Some ''account'' \<and> created < op_id r \<and>
     ((op_phase r = SUCCESS \<and> \<not> op_absent r) \<or> op_error r = Some ''ACCOUNT_FILE_WRITE_FAILED'')"

definition query_deletion_evidence :: "string \<Rightarrow> oprow list \<Rightarrow> oprow option" where
  "query_deletion_evidence user rows =
     first_max op_id (filter (deletes_account user (last_created user rows)) rows)"

definition account_deletion_evidence :: "env \<Rightarrow> string \<Rightarrow> oprow option cmd" where
  "account_deletion_evidence E user =
     tryE (rd EvLogDb (x_log_db E) (\<lambda>s. query_deletion_evidence user (oplog s)))
          (\<lambda>e. throw (raised_from OtherError e))"

text \<open>\<open>raise StepFailed(..., cause=e) from e\<close>.\<close>

definition evidence_failed :: "exn \<Rightarrow> exn" where
  "evidence_failed e = StepFailed \<lparr>f_error = ''EVIDENCE_LOOKUP_FAILED'', f_step = None, f_status = 503,
     f_unknown = is_unknown_result (Some e), f_retry = True, f_restart = None\<rparr> (Some e)"

definition log_delete_account :: "env \<Rightarrow> string \<Rightarrow> string \<Rightarrow> string option \<Rightarrow> phase \<Rightarrow> string option \<Rightarrow> bool \<Rightarrow> unit cmd" where
  "log_delete_account E req user node ph err absent =
     log_operation E ((logargs req user DELETE_ACCOUNT ph)\<lparr>lo_node := node, lo_resource := Some ''account'',
                        lo_error := err, lo_absent := absent\<rparr>)"

text \<open>No line of \<open>passwd\<close> names the user.\<close>

definition delete_absent_account :: "env \<Rightarrow> string \<Rightarrow> string \<Rightarrow> string option \<Rightarrow> bool \<Rightarrow> unit cmd" where
  "delete_absent_account E req user node absent_is_goal =
     bnd (if absent_is_goal
          then tryE (account_deletion_evidence E user) (\<lambda>e. throw (evidence_failed e))
          else ret None) (\<lambda>evidence. case evidence of
       Some _ \<Rightarrow> thn (remove_account_leftovers E user) (log_delete_account E req user node SUCCESS None True)
     | None \<Rightarrow>
         if absent_is_goal
         then thn (log_delete_account E req user node FAIL (Some ''ACCOUNT_ABSENT_UNVERIFIED'') False)
                  (throw (plain_failed ''ACCOUNT_ABSENT_UNVERIFIED'' 404))
         else thn (log_delete_account E req user node FAIL (Some ''USER_NOT_FOUND'') False)
                  (throw (plain_failed ''user not found'' 404)))"

definition primary_group :: "int \<Rightarrow> group_entry \<Rightarrow> bool" where
  "primary_group g r \<longleftrightarrow> gr_gid r = g"

text \<open>The last line of the user counts.\<close>

definition delete_account_locked :: "env \<Rightarrow> string \<Rightarrow> string \<Rightarrow> string option \<Rightarrow> bool \<Rightarrow> unit cmd" where
  "delete_account_locked E req user node absent_is_goal =
     bnd (read_passwd_lines E) (\<lambda>ls. case find_named parse_passwd_line pw_name user (rev ls) of
       None \<Rightarrow> delete_absent_account E req user node absent_is_goal
     | Some p \<Rightarrow>
         thn (tryE (strip_user E (primary_group (pw_gid p)) user ls)
                (\<lambda>e. thn (log_delete_account E req user node FAIL (Some ''ACCOUNT_FILE_WRITE_FAILED'') False) (throw e)))
             (log_delete_account E req user node SUCCESS None False))"

definition step_delete_account :: "env \<Rightarrow> unit cmd" where
  "step_delete_account E =
     bnd (getC c_request) (\<lambda>req. bnd (getC c_username) (\<lambda>user. bnd (getC c_node_name) (\<lambda>node.
     bnd (getC c_account_absent_is_goal) (\<lambda>goal.
     thn (log_delete_account E req user node START None False)
         (ledger_lock E (delete_account_locked E req user node goal))))))"

section \<open>The principal\<close>

definition log_krb5_removal :: "env \<Rightarrow> string \<Rightarrow> string \<Rightarrow> string option \<Rightarrow> phase \<Rightarrow> string option \<Rightarrow> unit cmd" where
  "log_krb5_removal E req user node ph err = log_pod E req user None node (Some ''kerberos'') REMOVE_KRB5 ph err"

definition remove_node_keytab :: "env \<Rightarrow> string \<Rightarrow> string \<Rightarrow> string \<Rightarrow> unit cmd" where
  "remove_node_keytab E req user node =
     tryE (thn (remove_krb5_from_farm E user node) (log_krb5_removal E req user (Some node) SUCCESS None))
          (\<lambda>e. thn (log_krb5_removal E req user (Some node) (fail_phase e) (Some ''KRB5_FARM_CLEANUP_FAILED''))
                   (record_krb5_cleanup_pending E user node))"

definition step_remove_krb5 :: "env \<Rightarrow> unit cmd" where
  "step_remove_krb5 E =
     bnd (getC c_request) (\<lambda>req. bnd (getC c_username) (\<lambda>user.
     bnd (getC (\<lambda>c. text_or_else (c_node_name c) (c_pod_node_name c))) (\<lambda>node.
       if cfg_realm E = [] then ret ()
       else
         thn (log_krb5_removal E req user node START None)
        (thn (tryE (delete_krb5_principal_and_secret E user)
               (\<lambda>e. thn (log_krb5_removal E req user node (fail_phase e) (Some ''KRB5_PRINCIPAL_DELETE_FAILED'')) (throw e)))
             (if some_text node then remove_node_keytab E req user (the node)
              else thn (remove_krb5_from_all_farms E user)
                       (log_krb5_removal E req user None SUCCESS None))))))"

end
