(* ===== verification/Port_Change.thy ===== *)
theory Port_Change
  imports Pods Revoke
begin

text \<open>
  Adding and removing the extra ports of a running Pod (\<open>lifecycle_steps/port.py\<close>): the step gets the whole
  list of extra ports there shall be, and brings the rows and the Services of the Pod to it.
\<close>

definition port_failed :: "string \<Rightarrow> int \<Rightarrow> exn option \<Rightarrow> exn" where
  "port_failed code status c = infra_failed ''CHANGE_PORT'' code status c"

text \<open>The ports of every Pod, which this step leaves alone (\<open>request_models.py\<close>).\<close>

definition protected_ports :: "int list" where
  "protected_ports = [22, 8888, 6080]"

definition allocations :: "env \<Rightarrow> string \<Rightarrow> nodeport list cmd" where
  "allocations E pod = thn (app_stmt E) (app_select E (\<lambda>_ t. rows_of pod t))"

text \<open>A \<open>DELETE\<close> for every port, and the commit of all of them.\<close>

definition without_internal :: "string \<Rightarrow> int list \<Rightarrow> nodeport list \<Rightarrow> nodeport list" where
  "without_internal pod ports t = filter (\<lambda>r. np_pod r \<noteq> pod \<or> np_internal r \<notin> set ports) t"

definition release_internal :: "env \<Rightarrow> string \<Rightarrow> int list \<Rightarrow> unit cmd" where
  "release_internal E pod ports =
     thn (app_stmt E) (thn (forM ports (\<lambda>_. app_stmt E)) (app_commit E (without_internal pod ports)))"

text \<open>\<open>_services_by_port\<close>; the dict is read through \<open>names_at\<close> and \<open>has_service\<close>.\<close>

definition names_at :: "service list \<Rightarrow> int \<Rightarrow> string list" where
  "names_at vs port = map svc_name (filter (\<lambda>v. svc_port v = port) vs)"

definition has_service :: "service list \<Rightarrow> int \<Rightarrow> bool" where
  "has_service vs port \<longleftrightarrow> list_ex (\<lambda>v. svc_port v = port) vs"

definition read_live_pod :: "env \<Rightarrow> string \<Rightarrow> pod_view cmd" where
  "read_live_pod E pod =
     bnd (tryE (ext (EvReadPod pod) (x_read_pod E pod))
            (\<lambda>e. if is_api_status 404 e then throw (port_failed ''POD_NOT_FOUND'' 404 None) else throw e)) (\<lambda>p.
       if pv_deleting p then throw (port_failed ''POD_NOT_FOUND'' 404 None) else ret p)"

text \<open>\<open>{p["internal_port"]: p.get("usage_purpose") or "custom"}\<close>: of a port named twice the last purpose counts.\<close>

definition purpose_or_custom :: "string \<Rightarrow> string" where
  "purpose_or_custom p = (if p = [] then ''custom'' else p)"

definition wanted_purpose :: "port_info list \<Rightarrow> int \<Rightarrow> string option" where
  "wanted_purpose ps = map_of (rev (map (\<lambda>p. (internal_port p, purpose_or_custom (usage_purpose p))) ps))"

definition wanted_list :: "port_info list \<Rightarrow> int list" where
  "wanted_list ps = map internal_port ps"

definition extra_ports :: "nodeport list \<Rightarrow> int list" where
  "extra_ports rows = filter (\<lambda>p. p \<notin> set protected_ports) (map np_internal rows)"

text \<open>\<open>sorted(set(xs) - set(ys))\<close>.\<close>

definition sorted_diff :: "int list \<Rightarrow> int list \<Rightarrow> int list" where
  "sorted_diff xs ys = sort (remdups (filter (\<lambda>x. x \<notin> set ys) xs))"

definition row_info :: "nodeport \<Rightarrow> port_info" where
  "row_info r = \<lparr>internal_port = np_internal r, external_port = Some (np_port r),
     usage_purpose = purpose_or_custom (np_purpose r)\<rparr>"

definition remove_ports :: "env \<Rightarrow> string \<Rightarrow> service list \<Rightarrow> int list \<Rightarrow> unit cmd" where
  "remove_ports E pod vs removed =
     thn (forM removed (\<lambda>port. forM (names_at vs port) (\<lambda>n. services_call E (drop_service n))))
         (whenE (removed \<noteq> []) (release_internal E pod removed))"

definition add_ports :: "env \<Rightarrow> string \<Rightarrow> string \<Rightarrow> string \<Rightarrow> port_info list \<Rightarrow> int list \<Rightarrow> unit cmd" where
  "add_ports E user pod node wanted added =
     whenE (added \<noteq> [])
       (bnd (allocate_nodeports E user pod node (map (\<lambda>p. (p, wanted_purpose wanted p)) added)) (\<lambda>_. ret ()))"

text \<open>The Services of the wanted ports that had none when the step started.\<close>

definition fill_services ::
  "env \<Rightarrow> string \<Rightarrow> string \<Rightarrow> port_info list \<Rightarrow> service list \<Rightarrow> bool \<Rightarrow> int \<Rightarrow> port_info list cmd" where
  "fill_services E user pod wanted vs blocked at =
     bnd (allocations E pod) (\<lambda>rows.
     let ports = map row_info rows;
         missing = filter (\<lambda>p. internal_port p \<in> set (wanted_list wanted) \<and> \<not> has_service vs (internal_port p)) ports
     in thn (whenE (missing \<noteq> []) (create_nodeport_services E user pod missing blocked at)) (ret ports))"

definition change_rows ::
  "env \<Rightarrow> string \<Rightarrow> string \<Rightarrow> string \<Rightarrow> port_info list \<Rightarrow> bool \<Rightarrow> int \<Rightarrow> nodeport list \<Rightarrow> port_info list cmd" where
  "change_rows E user pod node wanted blocked at rows = (
     let extra = extra_ports rows; removed = sorted_diff extra (wanted_list wanted);
         added = sorted_diff (wanted_list wanted) extra
     in bnd (list_pod_services E pod) (\<lambda>vs.
        thn (remove_ports E pod vs removed)
       (thn (add_ports E user pod node wanted added)
            (fill_services E user pod wanted vs blocked at))))"

definition change_ports ::
  "env \<Rightarrow> string \<Rightarrow> string \<Rightarrow> port_info list \<Rightarrow> bool \<Rightarrow> int \<Rightarrow> (string \<times> port_info list) cmd" where
  "change_ports E user pod wanted blocked at =
     thn (load_k8s E)
    (bnd (read_live_pod E pod) (\<lambda>p.
     bnd (allocations E pod) (\<lambda>rows.
       if rows = [] then throw (port_failed ''POD_NOT_FOUND'' 404 None)
       else if list_ex (\<lambda>r. np_user r \<noteq> user) rows then throw (port_failed ''POD_OWNER_MISMATCH'' 409 None)
       else bnd (change_rows E user pod (pv_node p) wanted blocked at rows) (\<lambda>ports. ret (pv_node p, ports)))))"

definition step_change_ports :: "env \<Rightarrow> unit cmd" where
  "step_change_ports E =
     bnd (getC (\<lambda>c. (c_username c, c_wanted_ports c, c_access_blocked c, c_access_decided_at c)))
       (\<lambda>(user, wanted, blocked, at).
     bnd (needC c_pod_name) (\<lambda>pod.
     bnd (tryE (change_ports E user pod wanted blocked at)
            (\<lambda>e. if is_step_failed e then throw e else throw (port_failed ''PORT_CHANGE_FAILED'' 500 (Some e))))
       (\<lambda>(node, ports). modC (\<lambda>c. c\<lparr>c_node := (if node = [] then None else Some node), c_allocated_ports := ports\<rparr>))))"

end
