(* ===== verification/Port_Facts.thy ===== *)
theory Port_Facts
  imports Nodeports
begin

text \<open>
  What the operations on the NodePort table keep and promise: a rule for any invariant of the
  table and the Services, the allocation as a whole, the release, and the Services of a Pod when
  nobody else is at work.
\<close>

section \<open>Frames\<close>

lemma keeps_app_stmt: "(\<And>s h. obs (s\<lparr>hist := h\<rparr>) = obs s) \<Longrightarrow> keeps obs (app_stmt E)"
  by (simp add: app_stmt_def keeps_intros)

lemma keeps_app_tables:
  assumes "\<And>s h. obs (s\<lparr>hist := h\<rparr>) = obs s" "\<And>s t. obs (s\<lparr>nodeports := t\<rparr>) = obs s"
  shows "keeps obs (app_select E f)" "keeps obs (app_commit E g)" "keeps obs (commit_locked E t)"
  by (auto simp: keeps_def app_select_def app_commit_def commit_locked_def io_def Let_def assms split: io_reply.splits)

lemma keeps_load_k8s: "(\<And>s h. obs (s\<lparr>hist := h\<rparr>) = obs s) \<Longrightarrow> keeps obs (load_k8s E)"
  unfolding load_k8s_def by (intro keeps_intros)

lemma keeps_allocate_transaction:
  assumes "\<And>s h. obs (s\<lparr>hist := h\<rparr>) = obs s" "\<And>s t. obs (s\<lparr>nodeports := t\<rparr>) = obs s"
  shows "keeps obs (allocate_transaction E user pod node ports)"
  unfolding allocate_transaction_def cluster_reserved_nodeports_def insert_port_def
  by (intro keeps_intros keeps_app_tables keeps_app_stmt keeps_load_k8s assms)

section \<open>Invariants of the table\<close>

text \<open>
  \<open>P\<close> holds of the table and \<open>V\<close> of the Services whatever the others do, and dropping the rows of
  the Pods that the reconciliation calls stale keeps \<open>P\<close>.
\<close>

definition table_good :: "(nodeport list \<Rightarrow> bool) \<Rightarrow> (service list \<Rightarrow> bool) \<Rightarrow> st \<Rightarrow> bool" where
  "table_good P V s \<longleftrightarrow> P (nodeports s) \<and> V (services s)"

lemma table_good_upd [simp]: "table_good P V (s\<lparr>hist := h\<rparr>) = table_good P V s"
  "table_good P V (s\<lparr>last_reconcile := n\<rparr>) = table_good P V s"
  by (simp_all add: table_good_def)

locale table_law =
  fixes P :: "nodeport list \<Rightarrow> bool" and V :: "service list \<Rightarrow> bool" and E :: env
  assumes P_others: "P t \<Longrightarrow> P (x_nodeports E h t)"
    and V_others: "V vs \<Longrightarrow> V (x_cluster E h vs)"
    and P_stale: "P t \<Longrightarrow> P t' \<Longrightarrow> V vs \<Longrightarrow>
      P (without_pods (stale_pods (cfg_nodeport_grace E) vs (x_wall E h) t) t')"
begin

lemma wp_select:
  assumes "\<And>t clk. P t \<Longrightarrow> Q (f clk t) (s\<lparr>nodeports := t, hist := EvAppDb # hist s\<rparr>)" "table_good P V s"
    and "\<And>e u. table_good P V u \<Longrightarrow> R e u"
  shows "wp (app_select E f) Q R s"
  using assms P_others[of "nodeports s" "hist s"]
  by (auto simp: wp_simps Let_def table_good_def split: io_reply.splits)

lemma wp_delete_stale:
  assumes "table_good P V s" and "\<And>n u. table_good P V u \<Longrightarrow> Q n u" and "\<And>e u. table_good P V u \<Longrightarrow> R e u"
  shows "wp (delete_stale E stale) Q R s"
proof -
  have "wp (delete_stale E stale) (\<lambda>_. table_good P V) R s"
    unfolding delete_stale_def
  proof (rule wp_foldM_inv)
    fix pod n u
    assume u: "table_good P V u"
    show "wp (bnd (app_select E (\<lambda>_ t. length (rows_of pod t))) (\<lambda>k. ret (n + k))) (\<lambda>_. table_good P V) R u"
      unfolding wp_bnd using u
      by (intro wp_select) (auto simp: wp_simps table_good_def assms(3))
  qed (rule assms(1))
  then show ?thesis by (rule wp_weaken) (use assms in auto)
qed

lemma wp_reconcile_transaction:
  assumes s: "table_good P V s" and vs: "V vs"
  shows "wp (reconcile_transaction E vs) (\<lambda>_. table_good P V) (\<lambda>_. table_good P V) s"
proof -
  let ?f = "stale_pods (cfg_nodeport_grace E) vs"
  let ?t = "x_nodeports E (hist s) (nodeports s)"
  let ?u = "s\<lparr>nodeports := ?t, hist := EvAppDb # hist s\<rparr>"
  let ?stale = "?f (x_wall E (hist s)) ?t"
  have t: "P ?t" and u: "table_good P V ?u" using s by (simp_all add: table_good_def P_others)
  have commit: "wp (app_commit E (without_pods ?stale)) (\<lambda>_. table_good P V) (\<lambda>_. table_good P V) v" if "table_good P V v" for v
    using that P_stale[OF t _ vs, of "x_nodeports E (hist v) (nodeports v)"] P_others
    by (auto simp: wp_simps Let_def table_good_def split: io_reply.splits)
  have rest: "wp (if ?stale = [] then ret 0 else bnd (delete_stale E ?stale) (\<lambda>n.
      thn (app_commit E (without_pods ?stale)) (ret n))) (\<lambda>_. table_good P V)
      (\<lambda>_. wp (thn (app_stmt E) (ret (0::nat))) (\<lambda>_. table_good P V) (\<lambda>_. table_good P V)) ?u"
  proof (cases "?stale = []")
    case True
    then show ?thesis using u by (simp add: wp_simps)
  next
    case False
    have undo: "wp (thn (app_stmt E) (ret (0::nat))) (\<lambda>_. table_good P V) (\<lambda>_. table_good P V) v" if "table_good P V v" for v
      using that by (auto simp: wp_simps split: io_reply.splits)
    have "wp (thn (app_commit E (without_pods ?stale)) (ret n)) (\<lambda>_. table_good P V)
        (\<lambda>_. wp (thn (app_stmt E) (ret (0::nat))) (\<lambda>_. table_good P V) (\<lambda>_. table_good P V)) v" if "table_good P V v" for n :: nat and v
      unfolding wp_thn[of "app_commit E (without_pods ?stale)"]
      using commit[OF that] by (rule wp_weaken) (simp_all only: wp_ret undo)
    then have "wp (delete_stale E ?stale) (\<lambda>n. wp (thn (app_commit E (without_pods ?stale)) (ret n)) (\<lambda>_. table_good P V)
        (\<lambda>_. wp (thn (app_stmt E) (ret (0::nat))) (\<lambda>_. table_good P V) (\<lambda>_. table_good P V)))
        (\<lambda>_. wp (thn (app_stmt E) (ret (0::nat))) (\<lambda>_. table_good P V) (\<lambda>_. table_good P V)) ?u"
      by (intro wp_delete_stale u undo)
    then show ?thesis unfolding wp_bnd[of "delete_stale E ?stale"] if_not_P[OF False] .
  qed
  have "wp (thn (app_stmt E) (ret (0::nat))) (\<lambda>_. table_good P V) (\<lambda>_. table_good P V) ?u"
    using u by (auto simp: wp_simps split: io_reply.splits)
  with rest show ?thesis
    unfolding reconcile_transaction_def wp_tryE wp_bnd[of "app_select E ?f"] wp_app_select Let_def[of ?t] Let_def[of ?u]
    by (cases "x_app_db E (hist s)") simp_all
qed

lemma wp_reconcile:
  assumes s: "table_good P V s"
  shows "wp (reconcile_nodeport_allocations E) (\<lambda>_. table_good P V) (\<lambda>_. table_good P V) s"
proof -
  have tr: "wp (reconcile_transaction E vs) (\<lambda>_. table_good P V) (\<lambda>_. table_good P V) u" if "table_good P V u" "V vs" for u vs
    using that by (rule wp_reconcile_transaction)
  show ?thesis
    unfolding reconcile_nodeport_allocations_def using s
    by (auto simp: wp_simps wall_clock_def Let_def table_good_def V_others intro!: tr
        split: option.splits io_reply.splits)
qed

text \<open>The request as a whole: the grant is made on a table of the law.\<close>

lemma wp_allocate:
  assumes s: "table_good P V s"
    and g: "\<And>h e t t' out. x_app_db E h = IoLost e \<Longrightarrow> P t \<Longrightarrow> granted_in E user pod node ports t t' out \<Longrightarrow> P t'"
  shows "wp (allocate_nodeports E user pod node ports)
    (\<lambda>out u. V (services u) \<and> (\<exists>t. P t \<and> granted_in E user pod node ports t (nodeports u) out))
    (\<lambda>_. table_good P V) s"
proof -
  let ?m = "allocate_transaction E user pod node ports"
  let ?Q = "\<lambda>out u. V (services u) \<and> (\<exists>t. P t \<and> granted_in E user pod node ports t (nodeports u) out)"
  have m: "wp ?m ?Q (\<lambda>_. table_good P V) u" if u: "table_good P V u" for u
  proof -
    let ?t = "x_nodeports E (hist u) (nodeports u)"
    have t: "P ?t" using u by (simp add: table_good_def P_others)
    have "keeps services ?m" by (rule keeps_allocate_transaction) simp_all
    from keeps_wp[OF this, of u] wp_allocate_transaction[of E user pod node ports u]
    have "wp ?m (\<lambda>out v. services v = services u \<and> granted_in E user pod node ports ?t (nodeports v) out)
       (\<lambda>e v. services v = services u \<and> maybe_granted E user pod node ports ?t (nodeports v)) u"
      by (rule wp_conj)
    then show ?thesis
      by (rule wp_weaken) (use u t in \<open>auto simp: table_good_def maybe_granted_def intro: g\<close>)
  qed
  have undo: "wp (thn (app_stmt E) (throw e)) ?Q (\<lambda>_. table_good P V) u" if "table_good P V u" for e u
    using that by (auto simp: wp_simps split: io_reply.splits)
  have tr: "wp (tryE ?m (\<lambda>e. thn (app_stmt E) (throw e))) ?Q (\<lambda>_. table_good P V) u"
    if "table_good P V u" for u
    unfolding wp_tryE using m[OF that] by (rule wp_weaken) (simp_all only: undo)
  have "wp (thn (app_stmt E) (tryE ?m (\<lambda>e. thn (app_stmt E) (throw e)))) ?Q (\<lambda>_. table_good P V) u"
    if "table_good P V u" for u
    unfolding wp_thn[of "app_stmt E"] wp_app_stmt using that by (auto intro!: tr split: io_reply.splits)
  with wp_reconcile[OF s] show ?thesis
    unfolding allocate_nodeports_def wp_bnd by (auto elim: wp_weaken)
qed

end

section \<open>The two invariants\<close>

text \<open>The shape of the table, which needs nothing of the cluster.\<close>

interpretation shape: table_law "\<lambda>t. rely_ports E \<longrightarrow> ports_inv E t" "\<lambda>_. True" E for E
  by unfold_locales (auto simp: rely_ports_def intro: ports_inv_without)

text \<open>A row of a Pod that still has its Services, or that is younger than the grace.\<close>

definition others_keep :: "env \<Rightarrow> nodeport \<Rightarrow> bool" where
  "others_keep E r \<longleftrightarrow> (\<forall>h t. r \<in> set t \<longrightarrow> r \<in> set (x_nodeports E h t))"

definition stays_up :: "env \<Rightarrow> string \<Rightarrow> bool" where
  "stays_up E pod \<longleftrightarrow> (\<forall>h vs. pod \<in> svc_pod ` set vs \<longrightarrow> pod \<in> svc_pod ` set (x_cluster E h vs))"

definition young :: "env \<Rightarrow> nodeport \<Rightarrow> bool" where
  "young E r \<longleftrightarrow> (\<forall>h. x_wall E h \<le> np_created r + 1000 * cfg_nodeport_grace E)"

definition spared :: "env \<Rightarrow> nodeport \<Rightarrow> service list \<Rightarrow> bool" where
  "spared E r vs \<longleftrightarrow> (stays_up E (np_pod r) \<and> np_pod r \<in> svc_pod ` set vs) \<or> young E r"

lemma not_stale:
  assumes "spared E r vs" "r \<in> set t"
  shows "np_pod r \<notin> set (stale_pods (cfg_nodeport_grace E) vs (x_wall E h) t)"
proof
  assume stale: "np_pod r \<in> set (stale_pods (cfg_nodeport_grace E) vs (x_wall E h) t)"
  then have "np_created r < x_wall E h - 1000 * cfg_nodeport_grace E" "np_pod r \<notin> svc_pod ` set vs"
    using assms(2) by (auto simp: stale_pods_def past_grace_def rows_of_def)
  with assms(1) show False
    unfolding spared_def young_def by (metis add.commute diff_le_eq less_diff_eq not_less)
qed

interpretation kept: table_law "\<lambda>t. others_keep E r \<longrightarrow> r \<in> set t" "spared E r" E for E r
proof unfold_locales
  fix t t' vs h
  assume "others_keep E r \<longrightarrow> r \<in> set t" "others_keep E r \<longrightarrow> r \<in> set t'" "spared E r vs"
  then show "others_keep E r \<longrightarrow> r \<in> set (without_pods (stale_pods (cfg_nodeport_grace E) vs (x_wall E h) t) t')"
    using not_stale[of E r vs t h] by (auto simp: without_pods_def)
qed (auto simp: others_keep_def spared_def stays_up_def)

section \<open>The table as a map\<close>

text \<open>
  The specification: a finite map from ports to their rows.  An allocation extends it by as many
  new ports of the Pod as it asks for, a release takes all ports of the Pod out.
\<close>

definition port_map :: "nodeport list \<Rightarrow> int \<Rightarrow> nodeport option" where
  "port_map t = map_of (map (\<lambda>r. (np_port r, r)) t)"

definition free_ports :: "string \<Rightarrow> (int \<Rightarrow> nodeport option) \<Rightarrow> int \<Rightarrow> nodeport option" where
  "free_ports pod m = (\<lambda>p. case m p of None \<Rightarrow> None | Some r \<Rightarrow> if np_pod r = pod then None else Some r)"

definition alloc_spec :: "string \<Rightarrow> nat \<Rightarrow> (int \<Rightarrow> nodeport option) \<Rightarrow> (int \<Rightarrow> nodeport option) \<Rightarrow> bool" where
  "alloc_spec pod n m m' \<longleftrightarrow> (\<exists>new. m' = m ++ new \<and> dom m \<inter> dom new = {} \<and> card (dom new) = n \<and>
     (\<forall>p r. new p = Some r \<longrightarrow> np_port r = p \<and> np_pod r = pod))"

lemma port_map_SomeD: "port_map t p = Some r \<Longrightarrow> r \<in> set t \<and> np_port r = p"
  unfolding port_map_def by (drule map_of_SomeD) auto

lemma dom_port_map: "dom (port_map t) = np_port ` set t"
  by (simp add: port_map_def dom_map_of_conv_image_fst image_image)

lemma port_map_eq_Some:
  assumes "distinct (map np_port t)"
  shows "port_map t p = Some r \<longleftrightarrow> r \<in> set t \<and> np_port r = p"
proof -
  have "distinct (map fst (map (\<lambda>r. (np_port r, r)) t))" using assms by (simp add: o_def)
  then show ?thesis by (auto simp: port_map_def map_of_eq_Some_iff)
qed

lemma port_map_without:
  assumes "distinct (map np_port t)"
  shows "port_map (without_pods [pod] t) = free_ports pod (port_map t)"
proof
  fix p
  have d: "distinct (map np_port (without_pods [pod] t))"
    using assms by (simp add: without_pods_def distinct_map_filter)
  show "port_map (without_pods [pod] t) p = free_ports pod (port_map t) p"
  proof (cases "port_map t p")
    case None
    then have "p \<notin> np_port ` set t" by (simp add: dom_port_map[symmetric] domIff)
    then have "p \<notin> np_port ` set (without_pods [pod] t)" by (auto simp: without_pods_def)
    then have "port_map (without_pods [pod] t) p = None" by (simp add: dom_port_map[symmetric] domIff)
    with None show ?thesis by (simp add: free_ports_def)
  next
    case (Some r)
    then have r: "r \<in> set t" "np_port r = p" using port_map_SomeD by blast+
    show ?thesis
    proof (cases "np_pod r = pod")
      case True
      have "p \<notin> np_port ` set (without_pods [pod] t)"
      proof
        assume "p \<in> np_port ` set (without_pods [pod] t)"
        then obtain q where q: "q \<in> set t" "np_pod q \<noteq> pod" "np_port q = p" by (auto simp: without_pods_def)
        with r assms have "q = r" by (auto simp: distinct_map dest: inj_onD)
        with q True show False by simp
      qed
      then have "port_map (without_pods [pod] t) p = None" by (simp add: dom_port_map[symmetric] domIff)
      with Some True show ?thesis by (simp add: free_ports_def)
    next
      case False
      then have "port_map (without_pods [pod] t) p = Some r"
        unfolding port_map_eq_Some[OF d] using r by (simp add: without_pods_def)
      with Some False show ?thesis by (simp add: free_ports_def)
    qed
  qed
qed

lemma granted_rows:
  assumes "granted_in E user pod node ports t\<^sub>0 t out"
  obtains rows where "t = t\<^sub>0 @ rows" "distinct (map np_port rows)" "length rows = length ports"
    "\<forall>r\<in>set rows. np_pod r = pod \<and> np_port r \<notin> np_port ` set t\<^sub>0"
    "map external_port out = map (Some \<circ> np_port) rows" "map internal_port out = map fst ports"
proof -
  from assms obtain nps rows where n: "length nps = length ports" "distinct nps"
    "\<forall>np\<in>set nps. cfg_nodeport_min E \<le> np \<and> np \<le> cfg_nodeport_max E \<and> np \<notin> np_port ` set t\<^sub>0"
    "out = granted (zip nps ports)"
    "t = t\<^sub>0 @ rows" "list_all2 (row_for user pod node) rows (zip nps ports)"
    by (auto simp: granted_in_def)
  have "list_all2 (\<lambda>r p. np_port r = fst p) rows (zip nps ports)"
    using n(6) by (rule list_all2_mono) (auto simp: row_for_def)
  then have "map np_port rows = map fst (zip nps ports)"
    by (simp add: list_all2_conv_all_nth list_eq_iff_nth_eq)
  with n(1) have ports: "map np_port rows = nps" by simp
  have "np_pod r = pod" if "r \<in> set rows" for r
    using list_all2_mono[OF n(6), of "\<lambda>r _. np_pod r = pod"] that
    by (auto simp: row_for_def list_all2_conv_all_nth in_set_conv_nth)
  moreover have "np_port r \<notin> np_port ` set t\<^sub>0" if "r \<in> set rows" for r
  proof -
    have "np_port r \<in> set nps" using that unfolding ports[symmetric] by simp
    with n(3) show ?thesis by blast
  qed
  moreover have "map external_port out = map (Some \<circ> np_port) rows"
  proof -
    have "map external_port out = map (Some \<circ> fst) (zip nps ports)"
      by (simp add: n(4) granted_def o_def case_prod_beta)
    also have "\<dots> = map Some (map fst (zip nps ports))" by simp
    also have "\<dots> = map (Some \<circ> np_port) rows" using n(1) ports by (metis list.map_comp map_fst_zip)
    finally show ?thesis .
  qed
  moreover have "map internal_port out = map fst ports"
  proof -
    have "map internal_port out = map (fst \<circ> snd) (zip nps ports)"
      by (simp add: n(4) granted_def o_def case_prod_beta)
    also have "\<dots> = map fst (map snd (zip nps ports))" by simp
    also have "\<dots> = map fst ports" using n(1) by simp
    finally show ?thesis .
  qed
  moreover have "length rows = length ports" using ports n(1) by (metis length_map)
  moreover have "distinct (map np_port rows)" using ports n(2) by simp
  ultimately show ?thesis using that n(5) by blast
qed

lemma granted_alloc_spec:
  assumes "granted_in E user pod node ports t\<^sub>0 t out" "ports_inv E t\<^sub>0"
  shows "alloc_spec pod (length ports) (port_map t\<^sub>0) (port_map t)"
proof -
  from granted_rows[OF assms(1)] obtain rows where r: "t = t\<^sub>0 @ rows" "distinct (map np_port rows)"
    "length rows = length ports" "\<forall>r\<in>set rows. np_pod r = pod \<and> np_port r \<notin> np_port ` set t\<^sub>0"
    by metis
  have disj: "dom (port_map t\<^sub>0) \<inter> dom (port_map rows) = {}"
    unfolding dom_port_map disjoint_iff using r(4) by (metis imageE)
  have "port_map t = port_map rows ++ port_map t\<^sub>0"
    by (simp add: r(1) port_map_def)
  also have "\<dots> = port_map t\<^sub>0 ++ port_map rows" using disj by (metis Int_commute map_add_comm)
  finally have "port_map t = port_map t\<^sub>0 ++ port_map rows" .
  moreover have "card (dom (port_map rows)) = length ports"
    using distinct_card[OF r(2)] r(3) by (simp add: dom_port_map)
  moreover have "np_port x = p \<and> np_pod x = pod" if "port_map rows p = Some x" for p x
  proof -
    from port_map_SomeD[OF that] have x: "x \<in> set rows" "np_port x = p" by blast+
    from bspec[OF r(4) x(1)] x(2) show ?thesis by blast
  qed
  ultimately show ?thesis unfolding alloc_spec_def using disj by blast
qed

text \<open>A release undoes an allocation of a Pod that had no port.\<close>

lemma free_after_alloc:
  assumes "alloc_spec pod n m m'" "free_ports pod m = m"
  shows "free_ports pod m' = m"
proof
  fix p
  from assms(1) obtain new where n: "m' = m ++ new" "dom m \<inter> dom new = {}"
    "\<forall>p r. new p = Some r \<longrightarrow> np_port r = p \<and> np_pod r = pod" by (auto simp: alloc_spec_def)
  show "free_ports pod m' p = m p"
  proof (cases "new p")
    case None
    then have "free_ports pod m' p = free_ports pod m p" by (simp add: free_ports_def n(1) map_add_def)
    with assms(2) show ?thesis by simp
  next
    case (Some r)
    with n(2) have "m p = None" by blast
    with Some n(3) show ?thesis by (simp add: free_ports_def n(1) map_add_def)
  qed
qed

lemma wp_release:
  assumes "\<And>h. x_app_db E h = IoOk" and "\<And>h u. Q () (s\<lparr>hist := h,
      nodeports := without_pods [pod] (x_nodeports E (EvAppDb # EvAppDb # hist s) (nodeports s))\<rparr>)"
  shows "wp (release_nodeports E pod) Q R s"
  using assms(2)[of "EvAppDb # EvAppDb # EvAppDb # hist s"]
  by (simp add: release_nodeports_def wp_simps assms(1) Let_def)

section \<open>Services when nobody else is at work\<close>

definition quiet_cluster :: "env \<Rightarrow> bool" where
  "quiet_cluster E \<longleftrightarrow> (\<forall>h v. x_cluster E h v = v) \<and> (\<forall>h. x_k8s E h = IoOk) \<and> (\<forall>h. x_load_k8s E h = None)"

lemma wp_quiet_call:
  assumes "quiet_cluster E"
  shows "wp (services_call E f) Q R s = (case f (services s) of
     Inl e \<Rightarrow> R e (s\<lparr>hist := EvServices # hist s\<rparr>)
   | Inr (a, w) \<Rightarrow> Q a (s\<lparr>hist := EvServices # hist s, services := w\<rparr>))"
  using assms by (auto simp: wp_simps quiet_cluster_def Let_def split: sum.splits)

text \<open>\<open>vs\<close> with Services of the Pod added.\<close>

definition grown_services :: "string \<Rightarrow> service list \<Rightarrow> st \<Rightarrow> bool" where
  "grown_services pod vs s \<longleftrightarrow> distinct (map svc_name (services s)) \<and>
     (\<exists>ws. services s = vs @ ws \<and> (\<forall>v\<in>set ws. svc_pod v = pod))"

lemma wp_create_services:
  assumes q: "quiet_cluster E" and "grown_services pod vs s"
  shows "wp (create_nodeport_services E user pod ports blocked decided)
    (\<lambda>_. grown_services pod vs) (\<lambda>_. grown_services pod vs) s"
proof -
  have add: "wp (services_call E (add_service v)) (\<lambda>_. grown_services pod vs) (\<lambda>_. grown_services pod vs) u"
    if "grown_services pod vs u" "svc_pod v = pod" for v u
    using that unfolding wp_quiet_call[OF q] by (auto simp: add_service_def grown_services_def)
  have one: "wp (bnd (nodeport_service_body E user pod p blocked decided) (\<lambda>v. services_call E (add_service v)))
      (\<lambda>_. grown_services pod vs) (\<lambda>_. grown_services pod vs) u" if "grown_services pod vs u" for p u
    using that unfolding nodeport_service_body_def
    by (auto simp: wp_bnd wp_throw wp_ret wp_ext wp_case_option grown_services_def[of pod vs "_\<lparr>hist := _\<rparr>"]
        grown_services_def[of pod vs u] intro!: add split: option.splits)
  have "wp (forM ports (\<lambda>p. bnd (nodeport_service_body E user pod p blocked decided)
      (\<lambda>v. services_call E (add_service v)))) (\<lambda>_. grown_services pod vs) (\<lambda>_. grown_services pod vs)
      (s\<lparr>hist := EvLoadK8s # hist s\<rparr>)"
    by (rule wp_forM_inv) (rule one, assumption, use assms(2) in \<open>simp add: grown_services_def\<close>)
  then show ?thesis
    unfolding create_nodeport_services_def wp_thn wp_load_k8s using q by (simp add: quiet_cluster_def)
qed

lemma wp_drop_services:
  assumes q: "quiet_cluster E"
  shows "distinct (map svc_name (services s)) \<Longrightarrow> distinct (map svc_name vs) \<Longrightarrow>
    svc_name ` set vs \<subseteq> svc_name ` set (services s) \<Longrightarrow>
    wp (forM vs (\<lambda>v. services_call E (drop_service (svc_name v))))
      (\<lambda>_ u. services u = filter (\<lambda>v. svc_name v \<notin> svc_name ` set vs) (services s)) (\<lambda>_ _. False) s"
proof (induction vs arbitrary: s)
  case Nil
  then show ?case by (simp add: wp_simps)
next
  case (Cons v vs)
  let ?u = "s\<lparr>hist := EvServices # hist s, services := filter (\<lambda>w. svc_name w \<noteq> svc_name v) (services s)\<rparr>"
  have v: "svc_name v \<in> svc_name ` set (services s)" using Cons.prems(3) by simp
  have "wp (forM vs (\<lambda>v. services_call E (drop_service (svc_name v))))
      (\<lambda>_ u. services u = filter (\<lambda>v. svc_name v \<notin> svc_name ` set vs) (services ?u)) (\<lambda>_ _. False) ?u"
  proof (rule Cons.IH)
    show "distinct (map svc_name (services ?u))" using Cons.prems(1) by (simp add: distinct_map_filter)
    show "svc_name ` set vs \<subseteq> svc_name ` set (services ?u)"
    proof
      fix n assume n: "n \<in> svc_name ` set vs"
      moreover have "svc_name v \<notin> svc_name ` set vs" using Cons.prems(2) by simp
      ultimately have "n \<noteq> svc_name v" by blast
      moreover have "n \<in> svc_name ` set (services s)" using n Cons.prems(3) by auto
      ultimately show "n \<in> svc_name ` set (services ?u)" by auto
    qed
  qed (use Cons.prems(2) in simp)
  then have "wp (forM vs (\<lambda>v. services_call E (drop_service (svc_name v))))
      (\<lambda>_ u. services u = filter (\<lambda>w. svc_name w \<notin> svc_name ` set (v # vs)) (services s)) (\<lambda>_ _. False) ?u"
    by (rule wp_weaken) (auto intro!: filter_cong)
  with v show ?case by (simp add: wp_thn wp_quiet_call[OF q] drop_service_def[of "svc_name v" "services s"])
qed

lemma wp_delete_services:
  assumes q: "quiet_cluster E" and d: "distinct (map svc_name (services s))"
  shows "wp (delete_nodeport_services E pod)
    (\<lambda>_ u. services u = filter (\<lambda>v. svc_pod v \<noteq> pod) (services s)) (\<lambda>_ _. False) s"
proof -
  let ?vs = "filter (\<lambda>v. svc_pod v = pod) (services s)"
  let ?u = "s\<lparr>hist := EvServices # EvLoadK8s # hist s\<rparr>"
  have "svc_name v \<notin> svc_name ` set ?vs \<longleftrightarrow> svc_pod v \<noteq> pod" if "v \<in> set (services s)" for v
    using d that by (auto simp: distinct_map dest: inj_onD)
  then have f: "filter (\<lambda>v. svc_name v \<notin> svc_name ` set ?vs) (services ?u) = filter (\<lambda>v. svc_pod v \<noteq> pod) (services s)"
    by (auto intro!: filter_cong)
  have "wp (forM ?vs (\<lambda>v. services_call E (drop_service (svc_name v))))
      (\<lambda>_ u. services u = filter (\<lambda>v. svc_name v \<notin> svc_name ` set ?vs) (services ?u)) (\<lambda>_ _. False) ?u"
    by (rule wp_drop_services[OF q]) (use d in \<open>auto simp: distinct_map_filter\<close>)
  then have "wp (forM ?vs (\<lambda>v. services_call E (drop_service (svc_name v))))
      (\<lambda>_ u. services u = filter (\<lambda>v. svc_pod v \<noteq> pod) (services s)) (\<lambda>_ _. False) ?u"
    unfolding f .
  then show ?thesis
    using q by (simp add: delete_nodeport_services_def list_pod_services_def wp_thn wp_bnd wp_load_k8s
        wp_quiet_call[OF q] quiet_cluster_def)
qed

end
