(* ===== verification/Change_Props.thy ===== *)
theory Change_Props
  imports Port_Change Port_Facts Traces Samples
begin

text \<open>
  The property of the change of ports, with its instance.
\<close>

section \<open>One Pod's part of the table and of the Services\<close>

definition services_of :: "string \<Rightarrow> service list \<Rightarrow> service list" where
  "services_of pod vs = filter (\<lambda>v. svc_pod v = pod) vs"

text \<open>The others leave the rows and the Services of the Pod alone; names of Services are never used twice.\<close>

definition rely_pod :: "env \<Rightarrow> string \<Rightarrow> bool" where
  "rely_pod E pod \<longleftrightarrow> (\<forall>h t. rows_of pod (x_nodeports E h t) = rows_of pod t) \<and>
     (\<forall>h vs. services_of pod (x_cluster E h vs) = services_of pod vs \<and>
        (distinct (map svc_name vs) \<longrightarrow> distinct (map svc_name (x_cluster E h vs))))"

text \<open>The state of the Pod: the rows \<open>T\<close> as a predicate on the rows, its Services as a set.\<close>

definition pod_state :: "string \<Rightarrow> (nodeport list \<Rightarrow> bool) \<Rightarrow> (service set \<Rightarrow> bool) \<Rightarrow> st \<Rightarrow> bool" where
  "pod_state pod T V s \<longleftrightarrow> T (rows_of pod (nodeports s)) \<and> V (set (services_of pod (services s))) \<and>
     distinct (map svc_name (services s))"

lemma pod_state_upd [simp]: "pod_state pod T V (s\<lparr>hist := h\<rparr>) = pod_state pod T V s"
  "pod_state pod T V (s\<lparr>cx := c\<rparr>) = pod_state pod T V s"
  by (simp_all add: pod_state_def)

lemma pod_state_mono:
  "pod_state pod T V s \<Longrightarrow> (\<And>t. T t \<Longrightarrow> T' t) \<Longrightarrow> (\<And>v. V v \<Longrightarrow> V' v) \<Longrightarrow> pod_state pod T' V' s"
  by (auto simp: pod_state_def)

lemma wp_stmt_pod:
  assumes "pod_state pod T V s" "\<And>t. pod_state pod T V t \<Longrightarrow> Q () t" "\<And>e t. pod_state pod T V t \<Longrightarrow> R e t"
  shows "wp (app_stmt E) Q R s"
  using assms by (auto simp: wp_app_stmt split: io_reply.splits)

lemma wp_select_pod:
  assumes "rely_pod E pod" "pod_state pod T V s"
    and "\<And>t u. T (rows_of pod t) \<Longrightarrow> pod_state pod (\<lambda>r. r = rows_of pod t \<and> T r) V u \<Longrightarrow> Q (rows_of pod t) u"
    and "\<And>e t. pod_state pod T V t \<Longrightarrow> R e t"
  shows "wp (app_select E (\<lambda>_ t. rows_of pod t)) Q R s"
  using assms by (auto simp: wp_app_select Let_def pod_state_def rely_pod_def split: io_reply.splits)

lemma wp_commit_pod:
  assumes "rely_pod E pod" "pod_state pod T V s" "\<And>t. T (rows_of pod t) \<Longrightarrow> T' (rows_of pod (f t))"
    and "\<And>t. pod_state pod T' V t \<Longrightarrow> Q () t" "\<And>e t. pod_state pod T V t \<Longrightarrow> R e t" "\<And>e t. pod_state pod T' V t \<Longrightarrow> R e t"
  shows "wp (app_commit E f) Q R s"
  using assms by (auto simp: wp_app_commit Let_def pod_state_def rely_pod_def split: io_reply.splits)

lemma wp_call_pod:
  assumes "rely_pod E pod" "pod_state pod T V s"
    and "\<And>vs a ws. V (set (services_of pod vs)) \<Longrightarrow> distinct (map svc_name vs) \<Longrightarrow> f vs = Inr (a, ws) \<Longrightarrow>
       V' a (set (services_of pod ws)) \<and> distinct (map svc_name ws)"
    and "\<And>a t. pod_state pod T (V' a) t \<Longrightarrow> Q a t" "\<And>e t. pod_state pod T V t \<Longrightarrow> R e t"
    and "\<And>a e t. pod_state pod T (V' a) t \<Longrightarrow> R e t"
  shows "wp (services_call E f) Q R s"
proof -
  let ?v = "x_cluster E (hist s) (services s)"
  have v: "V (set (services_of pod ?v))" "distinct (map svc_name ?v)" "T (rows_of pod (nodeports s))"
    using assms(1,2) by (simp_all add: rely_pod_def pod_state_def)
  show ?thesis
    using assms(3)[OF v(1,2)] assms(4-) v
    by (auto simp: wp_services_call Let_def pod_state_def split: io_reply.splits sum.splits prod.splits)
qed

section \<open>Taking Services away\<close>

lemma forM_concat: "forM (concat (map f xs)) g = forM xs (\<lambda>x. forM (f x) g)"
proof (induction xs)
  case (Cons x xs)
  have "forM (ys @ zs) g = thn (forM ys g) (forM zs g)" for ys zs
    by (induction ys) (auto simp: fun_eq_iff run split: prod.splits sum.splits)
  with Cons show ?case by simp
qed simp

text \<open>Between all of \<open>W\<close> and what is left when \<open>names\<close> are gone.\<close>

definition between :: "service set \<Rightarrow> string set \<Rightarrow> service set \<Rightarrow> bool" where
  "between W names vs \<longleftrightarrow> vs \<subseteq> W \<and> {v \<in> W. svc_name v \<notin> names} \<subseteq> vs"

lemma wp_drop_names:
  assumes "rely_pod E pod" "pod_state pod T (\<lambda>vs. vs = {v \<in> W. svc_name v \<notin> set ks}) s"
  shows "wp (forM ns (\<lambda>n. services_call E (drop_service n)))
    (\<lambda>_. pod_state pod T (\<lambda>vs. vs = {v \<in> W. svc_name v \<notin> set ks \<union> set ns}))
    (\<lambda>_. pod_state pod T (between W (set ks \<union> set ns))) s"
  using assms(2)
proof (induction ns arbitrary: s ks)
  case Nil
  then show ?case by (simp add: wp_ret)
next
  case (Cons n ns)
  have "wp (services_call E (drop_service n)) (\<lambda>_. pod_state pod T (\<lambda>vs. vs = {v \<in> W. svc_name v \<notin> set (n # ks)}))
      (\<lambda>_. pod_state pod T (between W (set ks \<union> set (n # ns)))) s"
  proof (rule wp_call_pod[OF assms(1) Cons.prems, where V'="\<lambda>_ vs. vs = {v \<in> W. svc_name v \<notin> set (n # ks)}"])
    fix vs u ws
    assume vs: "set (services_of pod vs) = {v \<in> W. svc_name v \<notin> set ks}" "distinct (map svc_name vs)"
      and d: "drop_service n vs = Inr (u, ws)"
    then have ws: "ws = filter (\<lambda>v. svc_name v \<noteq> n) vs" by (auto simp: drop_service_def split: if_splits)
    have "services_of pod ws = filter (\<lambda>v. svc_name v \<noteq> n) (services_of pod vs)"
      by (simp add: ws services_of_def conj_commute)
    then show "set (services_of pod ws) = {v \<in> W. svc_name v \<notin> set (n # ks)} \<and> distinct (map svc_name ws)"
      using vs by (auto simp: ws distinct_map_filter)
  next
    fix e t
    assume "pod_state pod T (\<lambda>vs. vs = {v \<in> W. svc_name v \<notin> set ks}) t"
    then show "pod_state pod T (between W (set ks \<union> set (n # ns))) t"
      by (rule pod_state_mono) (auto simp: between_def)
  next
    fix u e t
    assume "pod_state pod T (\<lambda>vs. vs = {v \<in> W. svc_name v \<notin> set (n # ks)}) t"
    then show "pod_state pod T (between W (set ks \<union> set (n # ns))) t"
      by (rule pod_state_mono) (auto simp: between_def)
  qed
  then show ?case unfolding forM.simps wp_thn
    by (rule wp_weaken) (use Cons.IH[of "n # ks"] in simp_all)
qed

section \<open>The phases of the step\<close>

text \<open>Every Service has a row with its node port and its port; rows that stay are still there.\<close>

definition backed :: "service set \<Rightarrow> nodeport list \<Rightarrow> bool" where
  "backed vs t \<longleftrightarrow> (\<forall>v\<in>vs. \<exists>r\<in>set t. np_port r = svc_node_port v \<and> np_internal r = svc_port v)"

definition sound_pod :: "string \<Rightarrow> nodeport set \<Rightarrow> st \<Rightarrow> bool" where
  "sound_pod pod K s \<longleftrightarrow> backed (set (services_of pod (services s))) (rows_of pod (nodeports s)) \<and>
     K \<subseteq> set (rows_of pod (nodeports s))"

lemma sound_podI:
  "pod_state pod T V s \<Longrightarrow> (\<And>t vs. T t \<Longrightarrow> V vs \<Longrightarrow> backed vs t \<and> K \<subseteq> set t) \<Longrightarrow> sound_pod pod K s"
  unfolding pod_state_def sound_pod_def by blast

definition kept_rows :: "int list \<Rightarrow> nodeport list \<Rightarrow> nodeport list" where
  "kept_rows removed t = filter (\<lambda>r. np_internal r \<notin> set removed) t"

definition kept_services :: "int list \<Rightarrow> service set \<Rightarrow> service set" where
  "kept_services removed vs = {v \<in> vs. svc_port v \<notin> set removed}"

lemma rows_without_internal: "rows_of pod (without_internal pod ports t) = kept_rows ports (rows_of pod t)"
  by (auto simp: rows_of_def without_internal_def kept_rows_def intro: filter_cong)

lemma backed_mono: "backed vs t \<Longrightarrow> set t \<subseteq> set u \<Longrightarrow> backed vs u"
  unfolding backed_def by (meson subsetD)

lemma backed_kept: "backed vs t \<Longrightarrow> backed (kept_services removed vs) (kept_rows removed t)"
  by (auto simp: backed_def kept_services_def kept_rows_def) metis

lemma names_of_removed:
  assumes "distinct (map svc_name vs)"
  shows "{v \<in> set vs. svc_name v \<notin> set (concat (map (names_at vs) removed))} = kept_services removed (set vs)"
proof -
  have "svc_name v \<in> set (concat (map (names_at vs) removed)) \<longleftrightarrow> svc_port v \<in> set removed" if "v \<in> set vs" for v
    using that assms by (auto simp: names_at_def distinct_map dest: inj_onD)
  then show ?thesis by (auto simp: kept_services_def)
qed

lemma wp_release_internal:
  assumes "rely_pod E pod" "pod_state pod (\<lambda>t. t = D) V s"
  shows "wp (release_internal E pod ports) (\<lambda>_. pod_state pod (\<lambda>t. t = kept_rows ports D) V)
    (\<lambda>_ t. pod_state pod (\<lambda>t. t = D) V t \<or> pod_state pod (\<lambda>t. t = kept_rows ports D) V t) s"
proof -
  let ?R = "\<lambda>_ t. pod_state pod (\<lambda>t. t = D) V t \<or> pod_state pod (\<lambda>t. t = kept_rows ports D) V t"
  have commit: "wp (app_commit E (without_internal pod ports)) (\<lambda>_. pod_state pod (\<lambda>t. t = kept_rows ports D) V) ?R t"
    if "pod_state pod (\<lambda>t. t = D) V t" for t
    by (rule wp_commit_pod[OF assms(1) that]) (auto simp: rows_without_internal)
  have "wp (forM ports (\<lambda>_. app_stmt E)) (\<lambda>_. pod_state pod (\<lambda>t. t = D) V) ?R t"
    if "pod_state pod (\<lambda>t. t = D) V t" for t
    by (rule wp_forM_inv[where I="pod_state pod (\<lambda>t. t = D) V"]) (auto intro: wp_stmt_pod that)
  then show ?thesis unfolding release_internal_def wp_thn[of "app_stmt E"] wp_thn[of "forM _ _"]
    by (intro wp_stmt_pod[OF assms(2)]) (auto intro: wp_weaken commit)
qed

lemma wp_remove_ports:
  assumes "rely_pod E pod" "pod_state pod (\<lambda>t. t = D) (\<lambda>v. v = set vs) s" "distinct (map svc_name vs)"
    and "backed (set vs) D"
  shows "wp (remove_ports E pod vs removed)
    (\<lambda>_. pod_state pod (\<lambda>t. t = kept_rows removed D) (\<lambda>v. v = kept_services removed (set vs)))
    (\<lambda>_. sound_pod pod (set (kept_rows removed D))) s"
proof -
  let ?V = "\<lambda>v. v = kept_services removed (set vs)"
  let ?names = "concat (map (names_at vs) removed)"
  have sound: "sound_pod pod (set (kept_rows removed D)) t"
    if "pod_state pod (\<lambda>t. t = D \<or> t = kept_rows removed D) ?V t" for t
    using that by (rule sound_podI) (use backed_kept[OF assms(4), of removed] in \<open>auto simp: backed_def kept_rows_def\<close>)
  have drop: "wp (forM removed (\<lambda>port. forM (names_at vs port) (\<lambda>n. services_call E (drop_service n))))
      (\<lambda>_. pod_state pod (\<lambda>t. t = D) ?V) (\<lambda>_. sound_pod pod (set (kept_rows removed D))) s"
    unfolding forM_concat[symmetric]
  proof (rule wp_weaken[OF wp_drop_names[OF assms(1), where ks="[]" and W="set vs"]])
    show "pod_state pod (\<lambda>t. t = D) (\<lambda>v. v = {v \<in> set vs. svc_name v \<notin> set []}) s" using assms(2) by simp
    fix u t assume "pod_state pod (\<lambda>t. t = D) (\<lambda>v. v = {v \<in> set vs. svc_name v \<notin> set [] \<union> set ?names}) t"
    then show "pod_state pod (\<lambda>t. t = D) ?V t" using names_of_removed[OF assms(3), of removed] by simp
  next
    fix e t assume "pod_state pod (\<lambda>t. t = D) (between (set vs) (set [] \<union> set ?names)) t"
    then show "sound_pod pod (set (kept_rows removed D)) t"
      by (rule sound_podI) (use assms(4) in \<open>auto simp: between_def backed_def kept_rows_def\<close>)
  qed
  have "wp (whenE (removed \<noteq> []) (release_internal E pod removed))
      (\<lambda>_. pod_state pod (\<lambda>t. t = kept_rows removed D) ?V) (\<lambda>_. sound_pod pod (set (kept_rows removed D))) t"
    if "pod_state pod (\<lambda>t. t = D) ?V t" for t
  proof (cases "removed = []")
    case True
    with that show ?thesis by (simp add: wp_whenE kept_rows_def)
  next
    case False
    have "wp (release_internal E pod removed) (\<lambda>_. pod_state pod (\<lambda>t. t = kept_rows removed D) ?V)
      (\<lambda>_. sound_pod pod (set (kept_rows removed D))) t"
      by (rule wp_weaken[OF wp_release_internal[OF assms(1) that]])
        (auto intro!: sound elim!: pod_state_mono)
    with False show ?thesis by (simp add: wp_whenE)
  qed
  then show ?thesis unfolding remove_ports_def wp_thn[of "forM removed _"] by (rule wp_weaken[OF drop])
qed

text \<open>The allocation: the rows \<open>D\<close> stay, and new rows of the Pod are for \<open>added\<close>.\<close>

definition grown_rows :: "nodeport list \<Rightarrow> int list \<Rightarrow> nodeport list \<Rightarrow> bool" where
  "grown_rows D added t \<longleftrightarrow> set D \<subseteq> set t \<and> np_internal ` set t \<subseteq> np_internal ` set D \<union> set added"

definition is_up :: "env \<Rightarrow> string \<Rightarrow> service set \<Rightarrow> bool" where
  "is_up E pod W \<longleftrightarrow> rely_pod E pod \<and> W \<noteq> {}"

interpretation growing: table_law "\<lambda>t. is_up E pod W \<longrightarrow> grown_rows D added (rows_of pod t)"
  "\<lambda>vs. is_up E pod W \<longrightarrow> set (services_of pod vs) = W \<and> distinct (map svc_name vs)" E for E pod W D added
proof unfold_locales
  fix t t' vs h
  assume "is_up E pod W \<longrightarrow> grown_rows D added (rows_of pod t')"
    "is_up E pod W \<longrightarrow> set (services_of pod vs) = W \<and> distinct (map svc_name vs)"
  moreover have "rows_of pod (without_pods (stale_pods g vs c t) t') = rows_of pod t'"
    if "set (services_of pod vs) = W" "W \<noteq> {}" for g c
    using that by (auto simp: rows_of_def without_pods_def stale_pods_def services_of_def intro!: filter_cong)
  ultimately show "is_up E pod W \<longrightarrow> grown_rows D added
      (rows_of pod (without_pods (stale_pods (cfg_nodeport_grace E) vs (x_wall E h) t) t'))"
    by (simp add: is_up_def)
qed (auto simp: is_up_def rely_pod_def)

lemma granted_internals:
  assumes "granted_in E user pod node (map (\<lambda>p. (p, f p)) added) t\<^sub>0 t out"
  obtains rows where "rows_of pod t = rows_of pod t\<^sub>0 @ rows" "map np_internal rows = added"
proof -
  from assms obtain nps rows where n: "length nps = length added" "t = t\<^sub>0 @ rows"
    "list_all2 (row_for user pod node) rows (zip nps (map (\<lambda>p. (p, f p)) added))"
    by (auto simp: granted_in_def)
  have "list_all2 (\<lambda>r p. np_pod r = pod \<and> np_internal r = fst (snd p)) rows (zip nps (map (\<lambda>p. (p, f p)) added))"
    using n(3) by (rule list_all2_mono) (auto simp: row_for_def)
  then have "\<forall>r\<in>set rows. np_pod r = pod"
    and m: "map np_internal rows = map (\<lambda>p. fst (snd p)) (zip nps (map (\<lambda>p. (p, f p)) added))"
    by (auto simp: list_all2_conv_all_nth in_set_conv_nth list_eq_iff_nth_eq)
  then have "rows_of pod t = rows_of pod t\<^sub>0 @ rows" by (simp add: n(2) rows_of_def)
  moreover have "map np_internal rows = added"
    unfolding m using n(1) by (auto simp: list_eq_iff_nth_eq)
  ultimately show ?thesis using that by blast
qed

lemma grown_granted:
  assumes "granted_in E user pod node (map (\<lambda>p. (p, f p)) added) t\<^sub>0 t out" "grown_rows D added (rows_of pod t\<^sub>0)"
  shows "grown_rows D added (rows_of pod t)" "np_internal ` set (rows_of pod t) = np_internal ` set D \<union> set added"
proof -
  obtain rows where r: "rows_of pod t = rows_of pod t\<^sub>0 @ rows" "map np_internal rows = added"
    using granted_internals[OF assms(1)] .
  have "np_internal ` set rows = set added" using r(2) by (metis list.set_map)
  with r(1) assms(2) show "grown_rows D added (rows_of pod t)"
    "np_internal ` set (rows_of pod t) = np_internal ` set D \<union> set added"
    by (auto simp: grown_rows_def)
qed

lemma wp_add_ports:
  assumes "rely_pod E pod" "W \<noteq> {}" "pod_state pod (\<lambda>t. t = D) (\<lambda>v. v = W) s" "backed W D"
  shows "wp (add_ports E user pod node wanted added)
    (\<lambda>_. pod_state pod (\<lambda>t. grown_rows D added t \<and> np_internal ` set t = np_internal ` set D \<union> set added) (\<lambda>v. v = W))
    (\<lambda>_. sound_pod pod (set D)) s"
proof (cases "added = []")
  case True
  with assms(3) show ?thesis
    by (auto simp: add_ports_def wp_whenE grown_rows_def elim: pod_state_mono)
next
  case False
  let ?ps = "map (\<lambda>p. (p, wanted_purpose wanted p)) added"
  let ?P = "\<lambda>t. is_up E pod W \<longrightarrow> grown_rows D added (rows_of pod t)"
  let ?V = "\<lambda>vs. is_up E pod W \<longrightarrow> set (services_of pod vs) = W \<and> distinct (map svc_name vs)"
  have up: "is_up E pod W" using assms(1,2) by (simp add: is_up_def)
  have good: "table_good ?P ?V s" using assms(3) by (auto simp: table_good_def pod_state_def grown_rows_def)
  have grant: "?P t'" if "?P t" "granted_in E user pod node ?ps t t' out" for t t' out
    using grown_granted(1)[OF that(2)] that(1) by blast
  have "wp (allocate_nodeports E user pod node ?ps)
    (\<lambda>out u. ?V (services u) \<and> (\<exists>t. ?P t \<and> granted_in E user pod node ?ps t (nodeports u) out)) (\<lambda>_. table_good ?P ?V) s"
    using good by (rule growing.wp_allocate) (rule grant)
  then have "wp (allocate_nodeports E user pod node ?ps)
    (\<lambda>_. pod_state pod (\<lambda>t. grown_rows D added t \<and> np_internal ` set t = np_internal ` set D \<union> set added) (\<lambda>v. v = W))
    (\<lambda>_. sound_pod pod (set D)) s"
  proof (rule wp_weaken)
    fix out and u :: st
    assume "?V (services u) \<and> (\<exists>t. ?P t \<and> granted_in E user pod node ?ps t (nodeports u) out)"
    with up obtain t where t: "grown_rows D added (rows_of pod t)" "granted_in E user pod node ?ps t (nodeports u) out"
      "set (services_of pod (services u)) = W" "distinct (map svc_name (services u))" by blast
    then show "pod_state pod (\<lambda>t. grown_rows D added t \<and> np_internal ` set t = np_internal ` set D \<union> set added) (\<lambda>v. v = W) u"
      unfolding pod_state_def using grown_granted[OF t(2,1)] t(3,4) by simp
  next
    fix e and u :: st assume "table_good ?P ?V u"
    with up have "grown_rows D added (rows_of pod (nodeports u))" "set (services_of pod (services u)) = W"
      by (simp_all add: table_good_def)
    with assms(4) show "sound_pod pod (set D) u"
      unfolding sound_pod_def grown_rows_def backed_def by blast
  qed
  with False show ?thesis by (simp add: add_ports_def wp_whenE wp_bnd wp_ret)
qed

text \<open>The Services: those there were stay, and each port of \<open>ports\<close> gets one.\<close>

definition served :: "service set \<Rightarrow> nodeport list \<Rightarrow> int set \<Rightarrow> service set \<Rightarrow> bool" where
  "served W t ports vs \<longleftrightarrow> W \<subseteq> vs \<and> backed vs t \<and> (\<forall>p\<in>ports. \<exists>v\<in>vs. svc_port v = p)"

lemma wp_create_one:
  assumes "rely_pod E pod" "pod_state pod (\<lambda>r. r = t) (served W t ports) s" "x \<in> set t"
  shows "wp (bnd (nodeport_service_body E user pod (row_info x) blocked at) (\<lambda>v. services_call E (add_service v)))
    (\<lambda>_. pod_state pod (\<lambda>r. r = t) (served W t (insert (np_internal x) ports)))
    (\<lambda>_. pod_state pod (\<lambda>r. r = t) (served W t ports)) s"
proof -
  have add: "wp (services_call E (add_service v))
      (\<lambda>_. pod_state pod (\<lambda>r. r = t) (served W t (insert (np_internal x) ports)))
      (\<lambda>_. pod_state pod (\<lambda>r. r = t) (served W t ports)) u"
    if "pod_state pod (\<lambda>r. r = t) (served W t ports) u" "svc_pod v = pod" "svc_port v = np_internal x"
      "svc_node_port v = np_port x" for v u
  proof (rule wp_call_pod[OF assms(1) that(1), where V'="\<lambda>_. served W t (insert (np_internal x) ports)"])
    fix vs a ws
    assume vs: "served W t ports (set (services_of pod vs))" "distinct (map svc_name vs)" "add_service v vs = Inr (a, ws)"
    then have "ws = vs @ [v]" "svc_name v \<notin> svc_name ` set vs" by (auto simp: add_service_def split: if_splits)
    with vs that(2-4) assms(3) show "served W t (insert (np_internal x) ports) (set (services_of pod ws)) \<and>
        distinct (map svc_name ws)"
      by (auto simp: served_def services_of_def backed_def)
  next
    fix u e v assume "pod_state pod (\<lambda>r. r = t) (served W t (insert (np_internal x) ports)) v"
    then show "pod_state pod (\<lambda>r. r = t) (served W t ports) v"
      by (rule pod_state_mono) (auto simp: served_def)
  qed
  show ?thesis unfolding nodeport_service_body_def row_info_def
    using assms(2) by (auto simp: wp_bnd wp_ext wp_ret intro!: add)
qed

lemma wp_create_all:
  assumes "rely_pod E pod" "set rows \<subseteq> set t"
  shows "pod_state pod (\<lambda>r. r = t) (served W t ports) s \<Longrightarrow>
    wp (forM (map row_info rows) (\<lambda>p. bnd (nodeport_service_body E user pod p blocked at) (\<lambda>v. services_call E (add_service v))))
      (\<lambda>_. pod_state pod (\<lambda>r. r = t) (served W t (np_internal ` set rows \<union> ports)))
      (\<lambda>_. pod_state pod (\<lambda>r. r = t) (served W t {})) s"
  using assms(2)
proof (induction rows arbitrary: s ports)
  case Nil
  then show ?case by (simp add: wp_ret)
next
  case (Cons x rows)
  have x: "x \<in> set t" "set rows \<subseteq> set t" using Cons.prems(2) by simp_all
  show ?case unfolding list.map forM.simps wp_thn
  proof (rule wp_weaken[OF wp_create_one[OF assms(1) Cons.prems(1) x(1)]])
    fix a u assume u: "pod_state pod (\<lambda>r. r = t) (served W t (insert (np_internal x) ports)) u"
    show "wp (forM (map row_info rows) (\<lambda>p. bnd (nodeport_service_body E user pod p blocked at) (\<lambda>v. services_call E (add_service v))))
      (\<lambda>_. pod_state pod (\<lambda>r. r = t) (served W t (np_internal ` set (x # rows) \<union> ports)))
      (\<lambda>_. pod_state pod (\<lambda>r. r = t) (served W t {})) u"
      using Cons.IH[OF u x(2)] by simp
  next
    fix e u assume "pod_state pod (\<lambda>r. r = t) (served W t ports) u"
    then show "pod_state pod (\<lambda>r. r = t) (served W t {}) u" by (rule pod_state_mono) (auto simp: served_def)
  qed
qed

lemma has_service_set: "has_service vs p \<longleftrightarrow> (\<exists>v\<in>set vs. svc_port v = p)"
  by (auto simp: has_service_def list_ex_iff)

text \<open>The Services the step looked up are \<open>vs\<close>; of those the ones in \<open>W\<close> are left.\<close>

lemma wp_fill_services:
  assumes "rely_pod E pod" "pod_state pod T (\<lambda>v. v = W) s" "\<And>t. T t \<Longrightarrow> backed W t \<and> K \<subseteq> set t"
    and "\<And>p. p \<in> set (wanted_list wanted) \<Longrightarrow> has_service vs p \<Longrightarrow> \<exists>v\<in>W. svc_port v = p"
  shows "wp (fill_services E user pod wanted vs blocked at)
    (\<lambda>_ u. sound_pod pod K u \<and> T (rows_of pod (nodeports u)) \<and>
       (\<forall>p\<in>set (wanted_list wanted) \<inter> np_internal ` set (rows_of pod (nodeports u)).
          \<exists>v\<in>set (services_of pod (services u)). svc_port v = p))
    (\<lambda>_. sound_pod pod K) s"
proof -
  let ?w = "set (wanted_list wanted)"
  let ?ok = "\<lambda>u. sound_pod pod K u \<and> T (rows_of pod (nodeports u)) \<and>
       (\<forall>p\<in>?w \<inter> np_internal ` set (rows_of pod (nodeports u)). \<exists>v\<in>set (services_of pod (services u)). svc_port v = p)"
  let ?missing = "\<lambda>t. filter (\<lambda>r. np_internal r \<in> ?w \<and> \<not> has_service vs (np_internal r)) t"
  have sound: "sound_pod pod K u" if "pod_state pod T (\<lambda>v. v = W) u" for u
    using that by (rule sound_podI) (use assms(3) in blast)
  have ends: "sound_pod pod K u" if "pod_state pod (\<lambda>r. r = t) (served W t ps) u" "T t" for t ps u
    using that(1) by (rule sound_podI) (use assms(3)[OF that(2)] in \<open>auto simp: served_def\<close>)
  have ok: "?ok u"
    if u: "pod_state pod (\<lambda>r. r = t) (served W t (np_internal ` set (?missing t))) u" and t: "T t" for t u
  proof -
    have "\<exists>v\<in>set (services_of pod (services u)). svc_port v = p" if "p \<in> ?w" "p \<in> np_internal ` set t" for p
    proof (cases "has_service vs p")
      case True
      with assms(4)[OF that(1)] u show ?thesis by (auto simp: pod_state_def served_def)
    next
      case False
      with that have "p \<in> np_internal ` set (?missing t)" by auto
      with u show ?thesis unfolding pod_state_def served_def by blast
    qed
    with ends[OF u t] u t show ?thesis by (auto simp: pod_state_def)
  qed
  have body: "wp (whenE (map row_info (?missing t) \<noteq> []) (create_nodeport_services E user pod (map row_info (?missing t)) blocked at))
      (\<lambda>_. ?ok) (\<lambda>_. sound_pod pod K) u"
    if u: "pod_state pod (\<lambda>r. r = t \<and> T r) (\<lambda>v. v = W) u" and t: "T t" for t u
  proof -
    have start: "pod_state pod (\<lambda>r. r = t) (served W t {}) v" if "pod_state pod (\<lambda>r. r = t \<and> T r) (\<lambda>v. v = W) v" for v
      using that by (rule pod_state_mono) (use assms(3)[OF t] in \<open>auto simp: served_def\<close>)
    have "wp (forM (map row_info (?missing t)) (\<lambda>p. bnd (nodeport_service_body E user pod p blocked at)
        (\<lambda>v. services_call E (add_service v)))) (\<lambda>_. ?ok) (\<lambda>_. sound_pod pod K) v"
      if "pod_state pod (\<lambda>r. r = t \<and> T r) (\<lambda>v. v = W) v" for v
      by (rule wp_weaken[OF wp_create_all[OF assms(1) _ start[OF that], of "?missing t"]])
        (use ok[OF _ t] ends[OF _ t] in auto)
    then have "wp (create_nodeport_services E user pod (map row_info (?missing t)) blocked at) (\<lambda>_. ?ok) (\<lambda>_. sound_pod pod K) u"
      unfolding create_nodeport_services_def wp_thn[of "load_k8s E"] wp_load_k8s
      using u ends[OF start t] by (auto split: option.split)
    moreover have "?ok u" if "?missing t = []" using ok[OF _ t] start[OF u] that by simp
    ultimately show ?thesis by (simp only: wp_whenE split: if_split) simp
  qed
  have eq: "filter (\<lambda>p. internal_port p \<in> ?w \<and> \<not> has_service vs (internal_port p)) (map row_info t) = map row_info (?missing t)" for t
    by (simp add: filter_map o_def row_info_def)
  show ?thesis unfolding fill_services_def allocations_def wp_bnd[of "thn _ _"] wp_thn[of "app_stmt E"] Let_def eq
      wp_thn[of "whenE _ _"] wp_ret
    by (rule wp_stmt_pod[OF assms(2)], rule wp_select_pod[OF assms(1)], assumption, rule body, assumption+)
      (rule sound, assumption)+
qed

section \<open>The step as a whole\<close>

text \<open>The rows the step must not touch: those of protected and of wanted ports.\<close>

definition lasting_rows :: "port_info list \<Rightarrow> nodeport list \<Rightarrow> nodeport set" where
  "lasting_rows wanted t = {r \<in> set t. np_internal r \<in> set protected_ports \<union> set (wanted_list wanted)}"

definition extra_set :: "nodeport list \<Rightarrow> int set" where
  "extra_set t = np_internal ` set t - set protected_ports"

text \<open>What a successful change leaves of the Pod.\<close>

definition ports_as_wanted :: "string \<Rightarrow> port_info list \<Rightarrow> st \<Rightarrow> bool" where
  "ports_as_wanted pod wanted s \<longleftrightarrow> (let t = rows_of pod (nodeports s) in
     extra_set t = set (wanted_list wanted) - set protected_ports \<and> set (wanted_list wanted) \<subseteq> np_internal ` set t \<and>
     (\<forall>p\<in>set (wanted_list wanted). \<exists>v\<in>set (services_of pod (services s)). svc_port v = p))"

text \<open>The Pod before: every Service has its row, names are distinct, a protected port has a Service.\<close>

definition pod_before :: "string \<Rightarrow> st \<Rightarrow> bool" where
  "pod_before pod s \<longleftrightarrow> backed (set (services_of pod (services s))) (rows_of pod (nodeports s)) \<and>
     distinct (map svc_name (services s)) \<and>
     (\<exists>v\<in>set (services_of pod (services s)). svc_port v \<in> set protected_ports)"

lemma set_sorted_diff: "set (sorted_diff xs ys) = set xs - set ys"
  by (auto simp: sorted_diff_def)

lemma extra_ports_set: "set (extra_ports t) = extra_set t"
  by (auto simp: extra_ports_def extra_set_def)

lemma kept_internals:
  "np_internal ` set (kept_rows (sorted_diff (extra_ports D) ws) D) =
     np_internal ` set D - (extra_set D - set ws)"
  by (auto simp: kept_rows_def set_sorted_diff extra_ports_set)

lemma wp_change_rows:
  assumes "rely_pod E pod" "pod_state pod (\<lambda>t. t = D) (\<lambda>v. v = W) s" "backed W D"
    and "\<exists>v\<in>W. svc_port v \<in> set protected_ports"
  shows "wp (change_rows E user pod node wanted blocked at D)
    (\<lambda>_ u. sound_pod pod (lasting_rows wanted D) u \<and> ports_as_wanted pod wanted u)
    (\<lambda>_. sound_pod pod (lasting_rows wanted D)) s"
proof -
  let ?w = "wanted_list wanted"
  let ?removed = "sorted_diff (extra_ports D) ?w" and ?added = "sorted_diff ?w (extra_ports D)"
  let ?D = "kept_rows ?removed D" and ?W = "kept_services ?removed W"
  let ?T = "\<lambda>t. grown_rows ?D ?added t \<and> np_internal ` set t = np_internal ` set ?D \<union> set ?added"
  have removed: "set ?removed = extra_set D - set ?w" and added: "set ?added = set ?w - extra_set D"
    by (simp_all add: set_sorted_diff extra_ports_set)
  have lasting: "lasting_rows wanted D \<subseteq> set ?D"
    by (auto simp: lasting_rows_def kept_rows_def removed extra_set_def)
  have sound: "sound_pod pod (lasting_rows wanted D) u" if "sound_pod pod (set ?D) u" for u
    using that lasting by (auto simp: sound_pod_def)
  have T: "?T t \<Longrightarrow> backed ?W t \<and> set ?D \<subseteq> set t" for t
    using backed_mono[OF backed_kept[OF assms(3), of ?removed]] by (simp add: grown_rows_def)
  have full: "ports_as_wanted pod wanted u"
    if "?T (rows_of pod (nodeports u))" "\<forall>p\<in>set ?w \<inter> np_internal ` set (rows_of pod (nodeports u)).
        \<exists>v\<in>set (services_of pod (services u)). svc_port v = p" for u
  proof -
    have i: "np_internal ` set (rows_of pod (nodeports u)) = (np_internal ` set D - (extra_set D - set ?w)) \<union> (set ?w - extra_set D)"
      using that(1) kept_internals[of D ?w] added by simp
    then have "extra_set (rows_of pod (nodeports u)) = set ?w - set protected_ports"
      "set ?w \<subseteq> np_internal ` set (rows_of pod (nodeports u))" by (auto simp: extra_set_def)
    with that(2) show ?thesis unfolding ports_as_wanted_def Let_def by (simp add: Int_absorb2)
  qed
  have W: "?W \<noteq> {}" using assms(4) by (auto simp: kept_services_def removed extra_set_def)
  have fill: "wp (fill_services E user pod wanted vs blocked at)
      (\<lambda>_ u. sound_pod pod (lasting_rows wanted D) u \<and> ports_as_wanted pod wanted u)
      (\<lambda>_. sound_pod pod (lasting_rows wanted D)) u"
    if "pod_state pod ?T (\<lambda>v. v = ?W) u" "set vs = W" for vs u
  proof (rule wp_weaken[OF wp_fill_services[OF assms(1) that(1)]])
    show "backed ?W t \<and> set ?D \<subseteq> set t" if "?T t" for t using T[OF that] .
    show "\<exists>v\<in>?W. svc_port v = p" if "p \<in> set ?w" "has_service vs p" for p
      using that \<open>set vs = W\<close> by (auto simp: has_service_set kept_services_def removed)
  qed (use sound full in blast)+
  have add: "wp (add_ports E user pod node wanted ?added)
      (\<lambda>_. wp (fill_services E user pod wanted vs blocked at)
        (\<lambda>_ u. sound_pod pod (lasting_rows wanted D) u \<and> ports_as_wanted pod wanted u)
        (\<lambda>_. sound_pod pod (lasting_rows wanted D))) (\<lambda>_. sound_pod pod (lasting_rows wanted D)) u"
    if "pod_state pod (\<lambda>t. t = ?D) (\<lambda>v. v = ?W) u" "set vs = W" for vs u
    by (rule wp_weaken[OF wp_add_ports[OF assms(1) W that(1) backed_kept[OF assms(3)]]])
      (rule fill[OF _ that(2)], assumption, rule sound)
  have remove: "wp (remove_ports E pod vs ?removed)
      (\<lambda>_. wp (add_ports E user pod node wanted ?added) (\<lambda>_. wp (fill_services E user pod wanted vs blocked at)
        (\<lambda>_ u. sound_pod pod (lasting_rows wanted D) u \<and> ports_as_wanted pod wanted u)
        (\<lambda>_. sound_pod pod (lasting_rows wanted D))) (\<lambda>_. sound_pod pod (lasting_rows wanted D)))
      (\<lambda>_. sound_pod pod (lasting_rows wanted D)) u"
    if "pod_state pod (\<lambda>t. t = D) (\<lambda>v. v = set vs) u" "set vs = W" "distinct (map svc_name vs)" for vs u
    by (rule wp_weaken[OF wp_remove_ports[OF assms(1) that(1,3)]]) (use that(2) assms(3) add sound in auto)
  show ?thesis
    unfolding change_rows_def Let_def wp_bnd[of "list_pod_services E pod"]
      wp_thn[of "remove_ports _ _ _ _"] wp_thn[of "add_ports _ _ _ _ _ _"]
    unfolding list_pod_services_def
  proof (rule wp_call_pod[OF assms(1,2), where V'="\<lambda>vs v. v = set vs \<and> set vs = W \<and> distinct (map svc_name vs)"])
    fix vs a ws
    assume "set (services_of pod vs) = W" "distinct (map svc_name vs)"
      "Inr (filter (\<lambda>v. svc_pod v = pod) vs, vs) = (Inr (a, ws) :: exn + (service list \<times> service list))"
    then show "(set (services_of pod ws) = set a \<and> set a = W \<and> distinct (map svc_name a)) \<and> distinct (map svc_name ws)"
      by (auto simp: services_of_def distinct_map_filter)
  next
    fix vs t assume "pod_state pod (\<lambda>t. t = D) (\<lambda>v. v = set vs \<and> set vs = W \<and> distinct (map svc_name vs)) t"
    then show "wp (remove_ports E pod vs ?removed)
      (\<lambda>_. wp (add_ports E user pod node wanted ?added) (\<lambda>_. wp (fill_services E user pod wanted vs blocked at)
        (\<lambda>_ u. sound_pod pod (lasting_rows wanted D) u \<and> ports_as_wanted pod wanted u)
        (\<lambda>_. sound_pod pod (lasting_rows wanted D))) (\<lambda>_. sound_pod pod (lasting_rows wanted D)))
      (\<lambda>_. sound_pod pod (lasting_rows wanted D)) t"
      by (intro remove) (auto simp: pod_state_def)
  qed (use lasting assms(3) in \<open>auto simp: sound_pod_def pod_state_def lasting_rows_def\<close>)
qed

lemma wp_change_ports:
  assumes "rely_pod E pod" "pod_before pod s"
  shows "wp (change_ports E user pod wanted blocked at)
    (\<lambda>_ u. sound_pod pod (lasting_rows wanted (rows_of pod (nodeports s))) u \<and> ports_as_wanted pod wanted u)
    (\<lambda>_. sound_pod pod (lasting_rows wanted (rows_of pod (nodeports s)))) s"
proof -
  let ?D = "rows_of pod (nodeports s)" and ?W = "set (services_of pod (services s))"
  let ?S = "pod_state pod (\<lambda>t. t = ?D) (\<lambda>v. v = ?W)"
  let ?Q = "\<lambda>_ u. sound_pod pod (lasting_rows wanted ?D) u \<and> ports_as_wanted pod wanted u"
  let ?R = "\<lambda>_. sound_pod pod (lasting_rows wanted ?D)"
  have s: "?S s" using assms(2) by (simp add: pod_state_def pod_before_def)
  have sound: "?R e u" if "?S u" for e u
    using that by (rule sound_podI) (use assms(2) in \<open>auto simp: pod_before_def lasting_rows_def\<close>)
  have change: "wp (bnd (change_rows E user pod node wanted blocked at ?D) (\<lambda>ports. ret (node, ports))) ?Q ?R u"
    if "?S u" for node u
    unfolding wp_bnd[of "change_rows _ _ _ _ _ _ _ _"] wp_ret
    by (rule wp_change_rows[OF assms(1) that]) (use assms(2) in \<open>simp_all add: pod_before_def\<close>)
  have checks: "wp (if rows = [] then throw (port_failed ''POD_NOT_FOUND'' 404 None)
       else if list_ex (\<lambda>r. np_user r \<noteq> user) rows then throw (port_failed ''POD_OWNER_MISMATCH'' 409 None)
       else bnd (change_rows E user pod node wanted blocked at rows) (\<lambda>ports. ret (node, ports))) ?Q ?R u"
    if "?S u" "rows = ?D" for rows node u
    using change[OF that(1)] sound[OF that(1)] unfolding that(2) wp_if wp_throw by (simp only: split: if_split) blast
  have rows: "wp (allocations E pod) (\<lambda>rows. wp (if rows = [] then throw (port_failed ''POD_NOT_FOUND'' 404 None)
       else if list_ex (\<lambda>r. np_user r \<noteq> user) rows then throw (port_failed ''POD_OWNER_MISMATCH'' 409 None)
       else bnd (change_rows E user pod node wanted blocked at rows) (\<lambda>ports. ret (node, ports))) ?Q ?R) ?R u"
    if "?S u" for node u
    unfolding allocations_def wp_thn[of "app_stmt E"]
    by (rule wp_stmt_pod[OF that], rule wp_select_pod[OF assms(1)], assumption, rule checks)
      (erule pod_state_mono, simp, simp, simp, rule sound, assumption, rule sound, assumption)
  have read: "wp (read_live_pod E pod) (\<lambda>_. ?S) ?R u" if "?S u" for u
    using that sound unfolding read_live_pod_def
    by (auto simp: wp_bnd wp_tryE wp_ext wp_if wp_throw wp_ret split: sum.split)
  have "wp (load_k8s E) (\<lambda>_. ?S) ?R s" using s sound unfolding wp_load_k8s by (auto split: option.split)
  then show ?thesis
    unfolding change_ports_def wp_thn[of "load_k8s E"] wp_bnd[of "read_live_pod E pod"] wp_bnd[of "allocations E pod"]
    by (rule wp_weaken) (rule wp_weaken[OF read], assumption, rule rows)
qed

text \<open>C28: a change of ports never leaves a Service whose external port is not recorded for the Pod (which
  the next request could give to another Pod), and never drops the row of a protected or a wanted port,
  however the step ends.  If it succeeds, the extra ports recorded for the Pod are exactly the wanted
  ones and each wanted port has a Service.  The Pod must not be changed by others meanwhile, and must
  have had the Service of a protected port.\<close>

theorem ports_changed_safely:
  assumes "rely_pod E pod" "pod_before pod s" "c_pod_name (cx s) = Some pod"
    and "step_change_ports E s = (r, t)"
  shows "sound_pod pod (lasting_rows (c_wanted_ports (cx s)) (rows_of pod (nodeports s))) t \<and>
     (r = Inr () \<longrightarrow> ports_as_wanted pod (c_wanted_ports (cx s)) t)"
proof -
  let ?w = "c_wanted_ports (cx s)" and ?K = "lasting_rows (c_wanted_ports (cx s)) (rows_of pod (nodeports s))"
  have "wp (step_change_ports E) (\<lambda>_ u. sound_pod pod ?K u \<and> ports_as_wanted pod ?w u) (\<lambda>_. sound_pod pod ?K) s"
    unfolding step_change_ports_def wp_bnd[of "getC _"] wp_getC prod.case wp_bnd[of "needC _"] wp_needC assms(3)
      option.case wp_bnd[of "tryE _ _"] wp_tryE
    by (rule wp_weaken[OF wp_change_ports[OF assms(1,2)]])
      (auto simp: wp_simps sound_pod_def ports_as_wanted_def)
  with assms(4) show ?thesis by (cases r) (auto simp: wp_def)
qed

text \<open>A Pod of \<open>lee\<close> with ssh and port 9000, which is to have 7000 instead.\<close>

definition pod_lee :: pod_view where
  "pod_lee = \<lparr>pv_name = ''p'', pv_phase = ''Running'', pv_reason = None, pv_ready = True, pv_node = ''farm1'',
     pv_deleting = False, pv_images = [''i''], pv_statuses = []\<rparr>"

definition row_at :: "int \<Rightarrow> int \<Rightarrow> nodeport" where
  "row_at np port = \<lparr>np_port = np, np_pod = ''p'', np_user = ''lee'', np_node = ''farm1'', np_internal = port,
     np_purpose = [], np_created = 0\<rparr>"

definition service_at :: "string \<Rightarrow> int \<Rightarrow> int \<Rightarrow> service" where
  "service_at name np port = \<lparr>svc_name = name, svc_user = ''lee'', svc_pod = ''p'', svc_port = port,
     svc_node_port = np, svc_purpose = [], svc_blocked = False, svc_decided = 0, svc_version = 1\<rparr>"

definition st_change :: st where
  "st_change = st0\<lparr>nodeports := [row_at 30000 22, row_at 30001 9000],
     services := [service_at ''a'' 30000 22, service_at ''b'' 30001 9000],
     cx := ctx0\<lparr>c_username := ''lee'', c_pod_name := Some ''p'',
       c_wanted_ports := [\<lparr>internal_port = 7000, external_port = None, usage_purpose = []\<rparr>]\<rparr>\<rparr>"

definition env_change :: env where
  "env_change = env0\<lparr>x_read_pod := \<lambda>_ _. Inr pod_lee, x_uuid := \<lambda>_. ''u''\<rparr>"

lemmas run_change = change_ports_def read_live_pod_def allocations_def change_rows_def sorted_diff_def extra_ports_def
  protected_ports_def wanted_list_def list_pod_services_def remove_ports_def names_at_def release_internal_def
  without_internal_def drop_service_def add_ports_def wanted_purpose_def purpose_or_custom_def fill_services_def
  row_info_def has_service_def create_nodeport_services_def nodeport_service_body_def add_service_def
  allocate_nodeports_def reconcile_nodeport_allocations_def wall_clock_def app_stmt_def
  app_select_def app_commit_def commit_locked_def reconcile_transaction_def stale_pods_def past_grace_def
  rows_of_def without_pods_def delete_stale_def allocate_transaction_def cluster_reserved_nodeports_def
  available_ports_def insert_port_def purpose_of_def load_k8s_def services_call_def io_def ext_def

theorem ports_changed_safely_witness:
  "\<exists>t. step_change_ports env_change st_change = (Inr (), t) \<and> sound_pod ''p'' {row_at 30000 22} t \<and>
     ports_as_wanted ''p'' (c_wanted_ports (cx st_change)) t"
proof -
  obtain r t where r: "step_change_ports env_change st_change = (r, t)" by fastforce
  have ok: "result_of (step_change_ports env_change) st_change = Inr ()"
    by (simp add: step_change_ports_def run_change st_change_def st0_def env_change_def env0_def pod_lee_def row_at_def
        service_at_def ctx0_def run_calls run_strings upto_rec_numeral Let_def)
  have "rely_pod env_change ''p''" "pod_before ''p'' st_change" "c_pod_name (cx st_change) = Some ''p''"
    by (simp_all add: rely_pod_def env_change_def env0_def pod_before_def backed_def services_of_def rows_of_def
        st_change_def row_at_def service_at_def protected_ports_def)
  from ports_changed_safely[OF this r] ok r have
    "sound_pod ''p'' (lasting_rows (c_wanted_ports (cx st_change)) (rows_of ''p'' (nodeports st_change))) t"
    "ports_as_wanted ''p'' (c_wanted_ports (cx st_change)) t" by simp_all
  moreover have "row_at 30000 22 \<in> lasting_rows (c_wanted_ports (cx st_change)) (rows_of ''p'' (nodeports st_change))"
    by (simp add: lasting_rows_def rows_of_def st_change_def row_at_def protected_ports_def)
  ultimately show ?thesis using ok r by (auto simp: sound_pod_def)
qed

end
