(* ===== verification/Jobs.thy ===== *)
theory Jobs
  imports Revoke
begin

text \<open>
  The execution of one job (\<open>_run_job\<close> of \<open>application/jobs.py\<close>): which steps a job has, what its
  context holds, how an interrupted account step is judged, how a failed creation is compensated and
  how the end of a job is recorded, with the Redis entries of \<open>adapters/pod_status.py\<close>.

  The step functions come as the argument \<open>ex\<close>, as for the engine.
\<close>

section \<open>The Redis entries of a job\<close>

definition get_pod_creation_status :: "env \<Rightarrow> string \<Rightarrow> string option cmd" where
  "get_pod_creation_status E key = rd EvRedis (x_redis E) (\<lambda>s. pod_status s key)"

definition put_entry :: "kind \<Rightarrow> string \<Rightarrow> job_entry option \<Rightarrow> st \<Rightarrow> st" where
  "put_entry k req e s = s\<lparr>job_inputs := (job_inputs s)((k, req) := e)\<rparr>"

definition load_job_input :: "env \<Rightarrow> kind \<Rightarrow> string \<Rightarrow> job_entry option cmd" where
  "load_job_input E k req = rd EvRedis (x_redis E) (\<lambda>s. job_inputs s (k, req))"

text \<open>\<open>SET ... NX\<close>: \<open>False\<close> if the job is registered already.\<close>

definition save_job_input :: "env \<Rightarrow> kind \<Rightarrow> string \<Rightarrow> job \<Rightarrow> bool cmd" where
  "save_job_input E k req jb =
     bnd (getS (\<lambda>s. job_inputs s (k, req) = None)) (\<lambda>fresh.
     thn (io EvRedis (x_redis E) (\<lambda>s. if fresh
            then put_entry k req (Some \<lparr>e_state = Queued, e_job = Some jb, e_result = None\<rparr>) s else s))
         (ret fresh))"

definition mark_job_running :: "env \<Rightarrow> kind \<Rightarrow> string \<Rightarrow> unit cmd" where
  "mark_job_running E k req = bnd (load_job_input E k req) (\<lambda>raw. case raw of
     None \<Rightarrow> ret ()
   | Some e \<Rightarrow> io EvRedis (x_redis E) (put_entry k req (Some (e\<lparr>e_state := Running\<rparr>))))"

definition mark_job_done :: "env \<Rightarrow> kind \<Rightarrow> string \<Rightarrow> job_result \<Rightarrow> unit cmd" where
  "mark_job_done E k req res = bnd (load_job_input E k req) (\<lambda>raw.
     let e = (case raw of None \<Rightarrow> \<lparr>e_state = Done, e_job = None, e_result = None\<rparr> | Some e \<Rightarrow> e)
     in io EvRedis (x_redis E) (put_entry k req (Some (e\<lparr>e_state := Done, e_result := Some res\<rparr>))))"

definition delete_job_input :: "env \<Rightarrow> kind \<Rightarrow> string \<Rightarrow> unit cmd" where
  "delete_job_input E k req = io EvRedis (x_redis E) (put_entry k req None)"

definition save_job_result :: "env \<Rightarrow> kind \<Rightarrow> string \<Rightarrow> result_detail \<Rightarrow> unit cmd" where
  "save_job_result E k req d =
     tryE (io EvRedis (x_redis E) (\<lambda>s. s\<lparr>job_details := (job_details s)((k, req) \<mapsto> d)\<rparr>)) (\<lambda>_. ret ())"

definition load_job_result :: "env \<Rightarrow> kind \<Rightarrow> string \<Rightarrow> result_detail option cmd" where
  "load_job_result E k req = tryE (rd EvRedis (x_redis E) (\<lambda>s. job_details s (k, req))) (\<lambda>_. ret None)"

section \<open>Keys, steps and context\<close>

fun job_key_prefix :: "kind \<Rightarrow> string" where
  "job_key_prefix Password = ''password-reset-''"
| "job_key_prefix Group = ''group-op-''"
| "job_key_prefix Home = ''home-cleanup-''"
| "job_key_prefix Port = ''port-change-''"
| "job_key_prefix Access = ''access-op-''"
| "job_key_prefix _ = []"

definition job_key :: "kind \<Rightarrow> string \<Rightarrow> string" where
  "job_key k req = job_key_prefix k @ req"

definition account_create_steps :: "step list" where
  "account_create_steps = [CreateAccount, CreateHome, CreateKrb5Principal, AwaitAdReplication, SyncAdGroups]"

definition supp_groups_only_steps :: "step list" where
  "supp_groups_only_steps = [AddUserGroups, SyncAdGroups, TriggerNasGssFlush]"

definition migrate_steps :: "step list" where
  "migrate_steps = [MigrateSelectTarget, FetchUserConfig, MigrateInheritPassword, PreparePod, MigrateCommitImage,
     BuildPodSpec, CreatePodK8s, WaitReady, CreateServices, MigrateCleanupOld]"

fun group_step :: "group_op \<Rightarrow> step" where
  "group_step GCreate = GroupCreate"
| "group_step GAdd = GroupAddMember"
| "group_step GRemove = GroupRemoveMember"

definition provision_groups :: "job \<Rightarrow> supp_group list" where
  "provision_groups jb = (case j_account jb of Some a \<Rightarrow> a_supp_groups a | None \<Rightarrow> j_supp_groups_only jb)"

definition provision_steps :: "job \<Rightarrow> step list" where
  "provision_steps jb =
     (if list_ex (\<lambda>g. sg_gid g = None) (provision_groups jb) then [ResolveNewGroups] else []) @
     (if j_account jb \<noteq> None then account_create_steps
      else if j_supp_groups_only jb \<noteq> [] then supp_groups_only_steps @ [RestoreMissingHome]
      else [RestoreMissingHome]) @ pod_create_steps"

definition revoke_account_steps :: "step list" where
  "revoke_account_steps = [CheckAccountRevocable, DeleteAccount, RemoveKrb5]"

definition revoke_steps :: "job \<Rightarrow> step list" where
  "revoke_steps jb = (if some_text (j_pod_name jb) then pod_delete_steps else []) @
     (if j_delete_account jb then revoke_account_steps else [])"

definition is_full :: "env \<Rightarrow> bool" where
  "is_full E \<longleftrightarrow> cfg_mode E = Full"

definition job_steps :: "env \<Rightarrow> kind \<Rightarrow> job \<Rightarrow> step list" where
  "job_steps E k jb = (case k of
     Password \<Rightarrow> [ChangeLoginPassword]
   | Home \<Rightarrow> [DeleteExpiredHome]
   | Port \<Rightarrow> [ChangePorts]
   | Access \<Rightarrow> [SetAccountAccess]
   | Group \<Rightarrow> [group_step (j_op jb)]
   | Migrate \<Rightarrow> if is_full E then butlast migrate_steps @ verify_steps @ [last migrate_steps] else migrate_steps
   | Provision \<Rightarrow> provision_steps jb @ (if is_full E then verify_steps else [])
   | Revoke \<Rightarrow> if is_full E \<and> revoke_steps jb \<noteq> []
       then (if some_text (j_pod_name jb) then [CaptureAccessTargets] else []) @ revoke_steps jb @
            (if some_text (j_pod_name jb) then [VerifyRevoked] else []) @
            (if j_delete_account jb then [VerifyAccountRevoked] else [])
       else revoke_steps jb)"

text \<open>The context of a request before any key but the first two is set.\<close>

definition blank_ctx :: "string \<Rightarrow> string \<Rightarrow> ctx" where
  "blank_ctx req user = \<lparr>c_request = req, c_username = user, c_name = None, c_uid = None, c_gid = None,
     c_passwd_hash = [], c_gecos = [], c_pg_name = None, c_supp_groups = [], c_added_supp = [],
     c_expected_uid = None, c_account_write_started = None, c_account_absent_is_goal = False,
     c_home_created = False, c_home_deleted = False, c_pod_name = None, c_node = None, c_node_name = None,
     c_pod_node_name = None, c_allocated_ports = [], c_wanted_ports = [], c_nodes = [], c_min_ratio = 200,
     c_config_by_request = False, c_user_info = None, c_node_list = None, c_pod_spec = None, c_v1 = False,
     c_already_absent = False, c_image = None, c_blocked = False, c_decided_at = 0, c_access_blocked = False,
     c_access_decided_at = 0, c_access_services = 0, c_group_name = None, c_group_requested_gid = None,
     c_group_members = [], c_group_names = [], c_group_gid = None, c_group_pods = None,
     c_password_secrets = [], c_password_pods = None, c_old_pod_name = None, c_from_node = None,
     c_force = False, c_recreate = False, c_keep_changes = False, c_skipped = False, c_skip_reason = None,
     c_old_pod_cleanup = None, c_committed_image = None, c_committed_image_node = None, c_verify_ports = [],
     c_verify_node = None\<rparr>"

definition job_ctx :: "kind \<Rightarrow> string \<Rightarrow> job \<Rightarrow> ctx" where
  "job_ctx k req jb = (let c = blank_ctx req (j_username jb) in case k of
     Password \<Rightarrow> c\<lparr>c_passwd_hash := j_passwd_hash jb\<rparr>
   | Home \<Rightarrow> c\<lparr>c_expected_uid := Some (j_expected_uid jb)\<rparr>
   | Port \<Rightarrow> c\<lparr>c_pod_name := j_pod_name jb, c_wanted_ports := j_ports jb,
               c_access_blocked := j_access_blocked jb, c_access_decided_at := j_decided_at jb\<rparr>
   | Access \<Rightarrow> c\<lparr>c_blocked := j_blocked jb, c_decided_at := j_decided_at jb\<rparr>
   | Group \<Rightarrow> c\<lparr>c_group_name := j_group_name jb, c_group_requested_gid := j_gid jb,
                c_group_members := j_members jb, c_group_names := j_groups jb\<rparr>
   | Provision \<Rightarrow> (case j_account jb of
        Some a \<Rightarrow> c\<lparr>c_config_by_request := True, c_name := Some (j_username jb), c_passwd_hash := a_passwd_hash a,
                   c_gecos := a_gecos a, c_pg_name := Some (a_pg_name a), c_supp_groups := a_supp_groups a,
                   c_expected_uid := a_expected_uid a\<rparr>
      | None \<Rightarrow> c\<lparr>c_config_by_request := True, c_supp_groups := j_supp_groups_only jb\<rparr>)
   | Revoke \<Rightarrow> c\<lparr>c_pod_name := j_pod_name jb, c_node_name := j_node_name jb\<rparr>
   | Migrate \<Rightarrow> c\<lparr>c_access_blocked := j_access_blocked jb, c_access_decided_at := j_decided_at jb,
        c_config_by_request := True, c_old_pod_name := j_pod_name jb, c_nodes := j_nodes jb,
        c_min_ratio := (case j_min_ratio jb of None \<Rightarrow> 200 | Some r \<Rightarrow> r), c_force := j_force jb,
        c_recreate := j_recreate jb, c_keep_changes := j_keep_changes jb, c_image := j_image jb\<rparr>)"

section \<open>Is the effect there?\<close>

definition observe_account_created :: "env \<Rightarrow> bool cmd" where
  "observe_account_created E =
     bnd (read_passwd_lines E) (\<lambda>ls. bnd (getC c_username) (\<lambda>user.
       case find_named parse_passwd_line pw_name user ls of
         None \<Rightarrow> ret False
       | Some e \<Rightarrow> thn (modC (\<lambda>c. c\<lparr>c_uid := or_else (c_uid c) (Some (pw_uid e)),
                                   c_gid := or_else (c_gid c) (Some (pw_gid e))\<rparr>)) (ret True)))"

text \<open>A look-up that answers 404 says no; any other failure is raised.\<close>

definition found_or_404 :: "'a cmd \<Rightarrow> bool cmd" where
  "found_or_404 m = tryE (bnd m (\<lambda>_. ret True)) (\<lambda>e. if is_api_status 404 e then ret False else throw e)"

definition observe_krb5_principal :: "env \<Rightarrow> bool cmd" where
  "observe_krb5_principal E = thn (load_k8s E) (bnd (getC c_username) (\<lambda>user.
     found_or_404 (ext (EvReadSecret (keytab_secret user)) (x_read_secret E (keytab_secret user)))))"

definition observe_pod_created :: "env \<Rightarrow> bool cmd" where
  "observe_pod_created E = thn (load_k8s E) (bnd (needC c_pod_name) (\<lambda>pod.
     found_or_404 (ext (EvReadPod pod) (x_read_pod E pod))))"

fun step_observer :: "env \<Rightarrow> step \<Rightarrow> bool cmd option" where
  "step_observer E CreateAccount = Some (observe_account_created E)"
| "step_observer E CreateKrb5Principal = Some (observe_krb5_principal E)"
| "step_observer E CreatePodK8s = Some (observe_pod_created E)"
| "step_observer E _ = None"

fun pre_hook :: "env \<Rightarrow> step \<Rightarrow> unit cmd option" where
  "pre_hook E BuildPodSpec = Some (bnd (getC c_pod_name) (\<lambda>pod. case pod of
     None \<Rightarrow> ret () | Some p \<Rightarrow> whenE (p \<noteq> []) (release_nodeports E p)))"
| "pre_hook E CreateServices = Some (bnd (needC c_pod_name) (delete_nodeport_services E))"
| "pre_hook E _ = None"

section \<open>An interrupted account step\<close>

text \<open>\<open>int(sg["gid"])\<close>.\<close>

definition int_gid :: "supp_group \<Rightarrow> exn + int" where
  "int_gid g = (case sg_gid g of None \<Rightarrow> Inl (raised OtherError) | Some i \<Rightarrow> Inr i)"

definition missing_supp :: "string \<Rightarrow> group_entry list \<Rightarrow> supp_group \<Rightarrow> exn + string list" where
  "missing_supp name groups g =
     (if groups = [] then Inr [''group:'' @ sg_name g]
      else bindE (int_gid g) (\<lambda>i.
        Inr (if list_ex (\<lambda>r. gr_gid r = i \<and> name \<in> set (gr_members r)) groups then [] else [''group:'' @ sg_name g])))"

text \<open>An account job always names its primary group.\<close>

definition missing_primary :: "string option \<Rightarrow> int \<Rightarrow> group_entry list \<Rightarrow> string list" where
  "missing_primary pg gid groups =
     (if list_ex (\<lambda>r. gr_gid r = gid \<and> Some (gr_name r) = pg) groups then [] else [''group:primary''])"

definition missing_sudoers :: "env \<Rightarrow> string \<Rightarrow> ledger \<Rightarrow> string list" where
  "missing_sudoers E name L =
     (if build_sudoers_policy E name \<noteq> None \<and> \<not> some_text (sudoers L name) then [''sudoers''] else [])"

definition account_missing_parts :: "env \<Rightarrow> string \<Rightarrow> passwd_entry \<Rightarrow> string list cmd" where
  "account_missing_parts E name p =
     bnd (read_group_lines E) (\<lambda>g_lines. let groups = entries parse_group_line g_lines in
     bnd (getC (\<lambda>c. (c_pg_name c, c_supp_groups c))) (\<lambda>(pg, supp).
     bnd (liftE (mapE (missing_supp name groups) supp)) (\<lambda>missing.
     bnd (read_shadow_lines E) (\<lambda>sh_lines.
     bnd (getS (\<lambda>s. missing_sudoers E name (led s))) (\<lambda>sudo.
     ret (missing_primary pg (pw_gid p) groups @ concat missing @
          (if has_named parse_shadow_line sp_name name sh_lines then [] else [''shadow'']) @ sudo))))))"

text \<open>
  Under the ledger lock: the entry if this job wrote the whole account.  An account the job only
  began to write is taken back, and one with another number is left alone.
\<close>

definition judge_locked :: "env \<Rightarrow> string \<Rightarrow> int \<Rightarrow> passwd_entry option cmd" where
  "judge_locked E name marker =
     bnd (read_passwd_lines E) (\<lambda>ls. case find_named parse_passwd_line pw_name name ls of
       None \<Rightarrow> ret None
     | Some p \<Rightarrow>
         if pw_uid p \<noteq> marker then ret None
         else bnd (account_missing_parts E name p) (\<lambda>missing.
           if missing \<noteq> []
           then thn (rollback_user E name (Some (pw_gid p)))
               (thn (modC (\<lambda>c. c\<lparr>c_uid := Some marker\<rparr>)) (ret None))
           else ret (Some p)))"

fun is_degraded :: "exn \<Rightarrow> bool" where
  "is_degraded (StepDegraded st r c u) = True"
| "is_degraded _ = False"

definition added_of :: "supp_group list \<Rightarrow> (string \<times> int) list" where
  "added_of gs = List.map_filter (\<lambda>g. map_option (Pair (sg_name g)) (sg_gid g)) gs"

definition judge_interrupted_account :: "env \<Rightarrow> bool cmd" where
  "judge_interrupted_account E =
     bnd (getC c_account_write_started) (\<lambda>marker. case marker of
       None \<Rightarrow> ret False
     | Some m \<Rightarrow>
         bnd (needC c_name) (\<lambda>name.
         bnd (tryE (ledger_lock E (judge_locked E name m))
                (\<lambda>e. if is_degraded e then throw e else throw (StepDegraded CreateAccount ''OBSERVE_FAILED'' e True)))
           (\<lambda>entry. case entry of
             None \<Rightarrow> ret False
           | Some p \<Rightarrow>
               thn (modC (\<lambda>c. c\<lparr>c_uid := Some (pw_uid p), c_gid := Some (pw_gid p),
                                c_added_supp := added_of (c_supp_groups c)\<rparr>))
              (bnd (getC c_request) (\<lambda>req.
               thn (log_account E req name SUCCESS None) (ret True))))))"

fun resume_judge :: "env \<Rightarrow> step \<Rightarrow> bool cmd option" where
  "resume_judge E CreateAccount = Some (judge_interrupted_account E)"
| "resume_judge E _ = None"

definition job_plant :: "env \<Rightarrow> (unit cmd option \<Rightarrow> step \<Rightarrow> unit cmd) \<Rightarrow> plant" where
  "job_plant E ex = \<lparr>pl_exec = ex, pl_pre = pre_hook E, pl_observe = step_observer E, pl_judge = resume_judge E\<rparr>"

section \<open>The list of unfinished jobs\<close>

definition job_kinds :: "kind list" where
  "job_kinds = [Provision, Revoke, Migrate, Password, Group, Home, Port, Access]"

definition job_kind :: "action \<Rightarrow> kind option" where
  "job_kind a = find (\<lambda>k. job_action k = a) job_kinds"

definition is_end_phase :: "phase \<Rightarrow> bool" where
  "is_end_phase p \<longleftrightarrow> p = SUCCESS \<or> p = FAIL \<or> p = UNKNOWN"

text \<open>The row \<open>e\<close> ends the job that \<open>s\<close> started.\<close>

definition ends_row :: "oprow \<Rightarrow> oprow \<Rightarrow> bool" where
  "ends_row s e \<longleftrightarrow> op_request e = op_request s \<and> op_action e = op_action s \<and> op_id s < op_id e \<and>
     is_end_phase (op_phase e)"

definition unfinished_row :: "oprow list \<Rightarrow> oprow \<Rightarrow> bool" where
  "unfinished_row rows s \<longleftrightarrow> job_kind (op_action s) \<noteq> None \<and> op_phase s = START \<and> \<not> list_ex (ends_row s) rows"

definition unfinished_jobs :: "oprow list \<Rightarrow> (kind \<times> string \<times> string \<times> int) list" where
  "unfinished_jobs rows = map (\<lambda>s. (the (job_kind (op_action s)), op_request s, op_username s, op_id s))
     (sort_key op_id (filter (unfinished_row rows) rows))"

definition find_unfinished_jobs :: "env \<Rightarrow> nat \<Rightarrow> (kind \<times> string \<times> string \<times> int) list cmd" where
  "find_unfinished_jobs E limit = rd EvLogDb (x_log_db E) (\<lambda>s. take limit (unfinished_jobs (oplog s)))"

definition end_row_for :: "kind \<Rightarrow> string \<Rightarrow> int \<Rightarrow> oprow \<Rightarrow> bool" where
  "end_row_for k req i r \<longleftrightarrow> op_request r = req \<and> op_action r = job_action k \<and> i < op_id r \<and> is_end_phase (op_phase r)"

definition job_end_exists :: "env \<Rightarrow> kind \<Rightarrow> string \<Rightarrow> int \<Rightarrow> bool cmd" where
  "job_end_exists E k req i =
     tryE (rd EvLogDb (x_log_db E) (\<lambda>s. list_ex (end_row_for k req i) (oplog s))) (\<lambda>_. ret False)"

section \<open>The end of a job\<close>

text \<open>A creation that did not come to the Pod has its progress closed.\<close>

definition close_progress :: "env \<Rightarrow> kind \<Rightarrow> string \<Rightarrow> phase \<Rightarrow> unit cmd" where
  "close_progress E k req ph =
     whenE ((k = Provision \<or> k = Migrate) \<and> ph \<noteq> SUCCESS)
       (tryE (bnd (get_pod_creation_status E req) (\<lambda>stage.
                whenE (stage \<noteq> Some ''failed'') (set_pod_creation_status E req ''failed''))) (\<lambda>_. ret ()))"

text \<open>The numbers of a reused account come from the ledger.\<close>

definition fill_ids :: "env \<Rightarrow> kind \<Rightarrow> ctx \<Rightarrow> ctx cmd" where
  "fill_ids E k c =
     (if k = Provision \<and> (c_uid c = None \<or> c_gid c = None)
      then tryE (bnd (read_passwd_lines E) (\<lambda>ls. case find_named parse_passwd_line pw_name (c_username c) ls of
                   None \<Rightarrow> ret c
                 | Some e \<Rightarrow> ret (c\<lparr>c_uid := Some (pw_uid e), c_gid := Some (pw_gid e)\<rparr>)))
                (\<lambda>_. ret c)
      else ret c)"

definition made_of :: "ctx \<Rightarrow> made_pod" where
  "made_of c = \<lparr>mp_uid = c_uid c, mp_gid = c_gid c, mp_pod = c_pod_name c, mp_node = c_node c,
     mp_ports = c_allocated_ports c\<rparr>"

definition moved_of :: "ctx \<Rightarrow> moved_pod" where
  "moved_of c = \<lparr>mv_skipped = c_skipped c, mv_reason = c_skip_reason c, mv_from = c_from_node c,
     mv_to = (if c_skipped c then None else c_node c), mv_old_pod = c_old_pod_name c,
     mv_cleanup = c_old_pod_cleanup c, mv_kept = some_text (c_committed_image c),
     mv_image = (if c_skipped c then None else c_image c)\<rparr>"

definition result_of_job :: "kind \<Rightarrow> ctx \<Rightarrow> result_detail" where
  "result_of_job k c = (case k of
     Provision \<Rightarrow> ProvisionResult (made_of c) (added_of (c_supp_groups c))
   | Password \<Rightarrow> PasswordResult (c_password_secrets c) (c_password_pods c)
   | Group \<Rightarrow> GroupResult (c_group_gid c) (c_group_pods c)
   | Home \<Rightarrow> HomeResult (c_home_deleted c)
   | Access \<Rightarrow> AccessResult (c_blocked c) (c_access_services c)
   | Migrate \<Rightarrow> MigrateResult (if c_skipped c
         then (made_of c)\<lparr>mp_pod := None, mp_node := None, mp_ports := []\<rparr> else made_of c) (moved_of c)
   | _ \<Rightarrow> PodResult (made_of c))"

text \<open>The row first, then the input: a row that was not written keeps the input with the result.\<close>

definition end_args :: "kind \<Rightarrow> string \<Rightarrow> string \<Rightarrow> job_result \<Rightarrow> logargs" where
  "end_args k req user res = (logargs req user (job_action k) (r_phase res))
     \<lparr>lo_pod := r_pod res, lo_node := r_node res, lo_error := r_error res, lo_raise := True\<rparr>"

definition record_job_result :: "env \<Rightarrow> kind \<Rightarrow> string \<Rightarrow> string \<Rightarrow> job_result \<Rightarrow> unit cmd" where
  "record_job_result E k req user res =
     bnd (attempt (log_operation E (end_args k req user res))) (\<lambda>r. case r of
       Inl _ \<Rightarrow> tryE (mark_job_done E k req res) (\<lambda>_. ret ())
     | Inr _ \<Rightarrow> tryE (delete_job_input E k req) (\<lambda>_. ret ()))"

definition finish_job :: "env \<Rightarrow> kind \<Rightarrow> string \<Rightarrow> string \<Rightarrow> phase \<Rightarrow> string option \<Rightarrow> ctx \<Rightarrow> unit cmd" where
  "finish_job E k req user ph code c =
     thn (close_progress E k req ph)
    (bnd (if ph = SUCCESS
          then bnd (fill_ids E k c) (\<lambda>d.
            thn (save_job_result E k req (result_of_job k d))
           (thn (whenE (k = Provision \<and> is_full E) (set_pod_creation_status E req ''ready'')) (ret d)))
          else ret c) (\<lambda>d.
     record_job_result E k req user \<lparr>r_phase = ph, r_error = code, r_pod = c_pod_name d,
       r_node = text_or_else (c_node d) (c_pod_node_name d)\<rparr>))"

section \<open>Compensation\<close>

text \<open>Running steps on a context of their own.\<close>

definition with_ctx :: "ctx \<Rightarrow> 'a cmd \<Rightarrow> 'a cmd" where
  "with_ctx c m = bnd (getS cx) (\<lambda>old. thn (modC (\<lambda>_. c)) (finallyE m (modC (\<lambda>_. old))))"

definition comp_ctx :: "job \<Rightarrow> ctx \<Rightarrow> ctx" where
  "comp_ctx jb c = (blank_ctx (c_request c) (j_username jb))\<lparr>c_node_name := c_node c, c_pod_name := c_pod_name c\<rparr>"

fun status_of :: "exn \<Rightarrow> int option" where
  "status_of (StepFailed f c) = Some (f_status f)"
| "status_of _ = None"

definition undo_account :: "env \<Rightarrow> unit cmd" where
  "undo_account E =
     thn (step_check_account_revocable E)
    (thn (tryE (step_delete_account E) (\<lambda>e. if status_of e = Some 404 then ret () else throw e))
         (step_remove_krb5 E))"

definition held_codes :: "string list" where
  "held_codes = [''ACCOUNT_NODE_UNKNOWN'', ''ACCOUNT_IN_USE'']"

fun undo_failed :: "exn \<Rightarrow> string" where
  "undo_failed (StepFailed f c) =
     (if f_error f \<in> set held_codes then ''held:'' @ f_error f else ''failed:'' @ f_error f)"
| "undo_failed _ = ''failed''"

definition compensate_provision :: "env \<Rightarrow> kind \<Rightarrow> job \<Rightarrow> ctx \<Rightarrow> step list \<Rightarrow> string option cmd" where
  "compensate_provision E k jb c dn =
     (if k \<noteq> Provision \<or> CreateKrb5Principal \<notin> set dn then ret None
      else tryE (thn (with_ctx (comp_ctx jb c) (undo_account E)) (ret (Some ''account_removed'')))
                (\<lambda>e. ret (Some (undo_failed e))))"

definition blind_ctx :: "ctx \<Rightarrow> ctx" where
  "blind_ctx c = c\<lparr>c_node := None, c_pod_name := None, c_pod_node_name := None\<rparr>"

definition interrupt_baseline_job :: "env \<Rightarrow> kind \<Rightarrow> string \<Rightarrow> string \<Rightarrow> job \<Rightarrow> ctx \<Rightarrow> step list \<Rightarrow> unit cmd" where
  "interrupt_baseline_job E k req user jb c dn =
     bnd (compensate_provision E k jb (blind_ctx c) dn) (\<lambda>_.
     finish_job E k req user FAIL (Some ''INTERRUPTED'') (blind_ctx c))"

section \<open>One job\<close>

definition end_phase :: "env \<Rightarrow> bool \<Rightarrow> phase" where
  "end_phase E unknown = (if unknown \<and> \<not> is_baseline E then UNKNOWN else FAIL)"

definition release_lease :: "env \<Rightarrow> int option \<Rightarrow> unit cmd" where
  "release_lease E j = (case j of None \<Rightarrow> ret () | Some i \<Rightarrow> tryE (release E i) (\<lambda>_. ret ()))"

text \<open>The handlers around the loop.  A lost lease ends nothing: the new owner goes on.\<close>

fun end_job :: "env \<Rightarrow> jobinfo \<Rightarrow> job \<Rightarrow> ctx \<Rightarrow> step list \<Rightarrow> exn option \<Rightarrow> unit cmd" where
  "end_job E J jb c dn None =
     thn (finish_job E (ji_kind J) (ji_request J) (ji_user J) SUCCESS None c) (release_lease E (ji_job J))"
| "end_job E J jb c dn (Some (StepDegraded st r e u)) =
     thn (finish_job E (ji_kind J) (ji_request J) (ji_user J) (if u then UNKNOWN else FAIL) (Some ''DEGRADED'') c)
         (release_lease E (ji_job J))"
| "end_job E J jb c dn (Some (StepFailed f e)) =
     bnd (compensate_provision E (ji_kind J) jb c dn) (\<lambda>_.
     thn (finish_job E (ji_kind J) (ji_request J) (ji_user J) (end_phase E (f_unknown f))
            (Some (if f_error f = [] then ''STEP_FAILED'' else take 64 (f_error f))) c)
         (release_lease E (ji_job J)))"
| "end_job E J jb c dn (Some e) =
     (if is_lease_lost e then ret ()
      else bnd (compensate_provision E (ji_kind J) jb c dn) (\<lambda>_.
        thn (finish_job E (ji_kind J) (ji_request J) (ji_user J) (end_phase E (fail_phase e = UNKNOWN))
               (Some ''UNEXPECTED_ERROR'') c)
            (release_lease E (ji_job J))))"

definition start_ctx :: "env \<Rightarrow> jobinfo \<Rightarrow> job \<Rightarrow> saved \<Rightarrow> ctx" where
  "start_ctx E J jb sv = (restore_ctx sv (job_ctx (ji_kind J) (ji_request J) jb))
     \<lparr>c_account_absent_is_goal := \<not> is_baseline E\<rparr>"

definition run_steps :: "env \<Rightarrow> (unit cmd option \<Rightarrow> step \<Rightarrow> unit cmd) \<Rightarrow> jobinfo \<Rightarrow> job \<Rightarrow> step list \<Rightarrow> unit cmd" where
  "run_steps E ex J jb dn =
     bnd (steps_loop E (job_plant E ex) J (job_steps E (ji_kind J) jb) 0 0 dn) (\<lambda>(err, dn').
     bnd (getS cx) (\<lambda>c. end_job E J jb c dn' err))"

text \<open>What a registered job is: not there, over but for its row, or to be run.\<close>

definition run_stored :: "env \<Rightarrow> (unit cmd option \<Rightarrow> step \<Rightarrow> unit cmd) \<Rightarrow> jobinfo \<Rightarrow> step list \<Rightarrow> saved \<Rightarrow> job_entry \<Rightarrow> unit cmd" where
  "run_stored E ex J dn sv e =
     (if e_state e = Done
      then (case e_result e of
              None \<Rightarrow> throw (raised KeyError)
            | Some res \<Rightarrow> thn (record_job_result E (ji_kind J) (ji_request J) (ji_user J) res) (release_lease E (ji_job J)))
      else thn (mark_job_running E (ji_kind J) (ji_request J))
        (case e_job e of
           None \<Rightarrow> throw (raised KeyError)
         | Some jb \<Rightarrow>
             if dn \<noteq> [] \<and> is_baseline E
             then thn (interrupt_baseline_job E (ji_kind J) (ji_request J) (ji_user J) jb
                         (restore_ctx sv (job_ctx (ji_kind J) (ji_request J) jb)) dn) (release_lease E (ji_job J))
             else thn (modC (\<lambda>_. start_ctx E J jb sv)) (run_steps E ex J jb dn)))"

definition run_missing :: "env \<Rightarrow> jobinfo \<Rightarrow> unit cmd" where
  "run_missing E J =
     bnd (case ji_job J of None \<Rightarrow> ret False | Some i \<Rightarrow> job_end_exists E (ji_kind J) (ji_request J) i) (\<lambda>ended.
       thn (whenE (\<not> ended) (finish_job E (ji_kind J) (ji_request J) (ji_user J) FAIL (Some ''JOB_INPUT_MISSING'')
              (blank_ctx (ji_request J) (ji_user J))))
           (release_lease E (ji_job J)))"

definition run_job_body :: "env \<Rightarrow> (unit cmd option \<Rightarrow> step \<Rightarrow> unit cmd) \<Rightarrow> jobinfo \<Rightarrow> unit cmd" where
  "run_job_body E ex J =
     bnd (case ji_job J of None \<Rightarrow> ret (Some ([], no_saved)) | Some i \<Rightarrow> tryE (claim E i) (\<lambda>_. ret None)) (\<lambda>lease.
     case lease of
       None \<Rightarrow> ret ()
     | Some (dn, sv) \<Rightarrow>
         bnd (load_job_input E (ji_kind J) (ji_request J)) (\<lambda>stored. case stored of
           None \<Rightarrow> run_missing E J
         | Some e \<Rightarrow> run_stored E ex J dn sv e))"

definition run_job :: "env \<Rightarrow> (unit cmd option \<Rightarrow> step \<Rightarrow> unit cmd) \<Rightarrow> jobinfo \<Rightarrow> unit cmd" where
  "run_job E ex J =
     bnd (getS cur_job) (\<lambda>old. thn (modS (\<lambda>s. s\<lparr>cur_job := ji_job J\<rparr>))
       (finallyE (run_job_body E ex J) (modS (\<lambda>s. s\<lparr>cur_job := old\<rparr>))))"

end
