(* ===== verification/Revoke_Facts.thy ===== *)
theory Revoke_Facts
  imports Revoke Account Traces
begin

text \<open>
  What the revocation steps come to: the ledger after a deletion, the evidence an absent account
  needs, and where a keytab is removed.
\<close>

section \<open>The ledger after a deletion\<close>

lemma wp_log_delete_account:
  assumes "\<And>t. like s t \<Longrightarrow> Q () t"
  shows "wp (log_delete_account E r u n ph err ab) Q R s"
  unfolding log_delete_account_def
  by (rule wp_log_operation) (simp_all add: assms logargs_def)

lemma find_named_rev: "find_named p nm n (rev ls) = None \<longleftrightarrow> \<not> has_named p nm n ls"
  by (auto simp: find_named_def find_None_iff has_named_iff set_entries)

lemma untouched_members:
  assumes "\<not> list_ex (touches_user user) ls" "r \<in> set (entries parse_group_line ls)"
  shows "user \<notin> set (gr_members r)"
proof -
  from assms(2) obtain l where "l \<in> set ls" "parse_group_line l = Some r" by (auto simp: set_entries)
  with assms(1) show ?thesis by (force simp: list_ex_iff touches_user_def)
qed

lemma cleaned_members:
  assumes "mapE (strip_group_line personal user) (splitlines c) = Inr cleaned"
    "r \<in> set (entries parse_group_line (splitlines (content_of_lines (catSome cleaned))))"
  shows "user \<notin> set (gr_members r)"
proof -
  have "splitlines (content_of_lines (catSome cleaned)) = catSome cleaned"
    using catSome_unbroken[OF assms(1)] by (rule splitlines_content)
  with assms(2) obtain l where "Some l \<in> set cleaned" "parse_group_line l = Some r"
    by (auto simp: set_entries set_catSome)
  moreover from mapE_Inr_in[OF assms(1) this(1)] obtain gl where "strip_group_line personal user gl = Inr (Some l)" by blast
  ultimately show ?thesis using strip_group_line_Some by (force simp: without_member_def)
qed

text \<open>The shadow lines are only written when one of them goes.\<close>

lemma drop_named_length:
  "length (drop_named p nm n ls) = length ls \<longleftrightarrow> \<not> has_named p nm n ls"
proof
  assume "length (drop_named p nm n ls) = length ls"
  then have "drop_named p nm n ls = ls" unfolding drop_named_def by (metis length_filter_map filter_id_conv length_filter_less nat_less_le)
  then show "\<not> has_named p nm n ls" by (metis not_has_drop_named)
qed (simp add: drop_named_none)

definition shadow_clean :: "string \<Rightarrow> ledger \<Rightarrow> ledger \<Rightarrow> bool" where
  "shadow_clean user L M \<longleftrightarrow> passwd_file M = passwd_file L \<and> group_file M = group_file L \<and> seeded M \<and>
     \<not> has_named parse_shadow_line sp_name user (lines_of ShadowF M)"

lemma wp_leftover_shadow:
  assumes s: "0 < lock_depth s" "rooted (led s)" "user \<noteq> ''root''"
    and Q: "\<And>t. shadow_clean user (led s) (led t) \<Longrightarrow> lock_depth t = lock_depth s \<Longrightarrow> Q () t"
    and R: "\<And>e t. lock_depth t = lock_depth s \<Longrightarrow> R e t"
  shows "wp (bnd (read_shadow_lines E) (\<lambda>sh_lines.
     whenE (length (drop_named parse_shadow_line sp_name user sh_lines) \<noteq> length sh_lines)
            (write_shadow_lines E (drop_named parse_shadow_line sp_name user sh_lines)))) Q R s"
proof -
  define sh where "sh = drop_named parse_shadow_line sp_name user (lines_of ShadowF (led s))"
  have ne: "content_of_lines sh \<noteq> []"
  proof -
    have "has_named parse_shadow_line sp_name ''root'' sh"
      using s(2,3) by (auto simp: sh_def rooted_def has_named_iff entries_drop_named)
    then have "sh \<noteq> []" by (auto simp: has_named_def)
    then show ?thesis unfolding sh_def lines_of_def by (simp add: content_empty_iff[OF drop_unbroken])
  qed
  have "splitlines (content_of_lines sh) = sh"
    unfolding sh_def lines_of_def by (intro splitlines_content drop_unbroken)
  then have c: "shadow_clean user (led s) (put_file ShadowF (content_of_lines sh) (led s))"
    using seeded_put[OF rooted_seeded[OF s(2)] ne, of ShadowF]
    by (simp add: shadow_clean_def lines_of_def sh_def)
  show ?thesis
    unfolding wp_bnd wp_whenE
  proof (rule wp_read_lines)
    fix t assume t: "like s t"
    then have eq: "led t = led s" "lock_depth t = lock_depth s" by (simp_all add: afterD)
    show "(if length (drop_named parse_shadow_line sp_name user (splitlines (file_of ShadowF (led s)))) \<noteq>
            length (splitlines (file_of ShadowF (led s)))
         then wp (write_shadow_lines E (drop_named parse_shadow_line sp_name user (splitlines (file_of ShadowF (led s))))) Q R
         else Q ()) t"
    proof (cases "has_named parse_shadow_line sp_name user (lines_of ShadowF (led s))")
      case False
      with s(2) have "shadow_clean user (led s) (led t)" by (simp add: shadow_clean_def eq rooted_seeded)
      with False show ?thesis by (simp add: drop_named_length lines_of_def Q eq)
    next
      case True
      have "wp (write_shadow_lines E sh) Q R t"
        by (rule wp_write_lines) (use s rooted_seeded[OF s(2)] c in \<open>auto simp: eq afterD intro!: Q R\<close>)
      with True show ?thesis by (simp add: drop_named_length lines_of_def sh_def)
    qed
  qed (use s rooted_seeded in \<open>auto simp: afterD intro!: R\<close>)
qed

lemma wp_leftovers:
  assumes s: "0 < lock_depth s" "rooted (led s)" "user \<noteq> ''root''"
    and p: "\<not> has_named parse_passwd_line pw_name user (lines_of PasswdF (led s))"
  shows "wp (remove_account_leftovers E user) (\<lambda>_ t. no_trace user (led t) \<and> lock_depth t = lock_depth s)
     (\<lambda>_ t. lock_depth t = lock_depth s) s"
proof -
  let ?Q = "\<lambda>_ t. no_trace user (led t) \<and> lock_depth t = lock_depth s"
  let ?R = "\<lambda>_ t. lock_depth t = lock_depth s"
  define rest where "rest = bnd (read_group_lines E) (\<lambda>g_lines.
     bnd (liftE (mapE (strip_group_line (leftover_group user) user) g_lines)) (\<lambda>cleaned.
     whenE (list_ex (touches_user user) g_lines) (write_group_lines E (catSome cleaned))))"
  have rest: "wp rest ?Q ?R t"
    if t: "shadow_clean user (led s) (led t)" "lock_depth t = lock_depth s" for t
    unfolding rest_def wp_bnd
  proof (rule wp_read_lines)
    fix u assume u: "like t u"
    then have eq: "led u = led t" "lock_depth u = lock_depth s" using t(2) by (simp_all add: afterD)
    have np: "\<not> has_named parse_passwd_line pw_name user (lines_of PasswdF (led t))"
      using p t(1) by (simp add: shadow_clean_def lines_of_def)
    show "wp (liftE (mapE (strip_group_line (leftover_group user) user) (splitlines (file_of GroupF (led t)))))
        (\<lambda>cleaned. wp (whenE (list_ex (touches_user user) (splitlines (file_of GroupF (led t))))
            (write_group_lines E (catSome cleaned))) ?Q ?R) ?R u"
    proof (cases "mapE (strip_group_line (leftover_group user) user) (splitlines (file_of GroupF (led t)))")
      case (Inl e)
      then show ?thesis by (simp add: wp_liftE eq)
    next
      case (Inr cleaned)
      have "wp (write_group_lines E (catSome cleaned)) ?Q ?R u"
      proof (rule wp_write_lines)
        show "seeded (led u)" "0 < lock_depth u" using t(1) s(1) eq by (simp_all add: shadow_clean_def)
      next
        fix v assume "after (put_file GroupF (content_of_lines (catSome cleaned)) (led u)) u v"
        then have v: "led v = put_file GroupF (content_of_lines (catSome cleaned)) (led t)" "lock_depth v = lock_depth s"
          using eq by (simp_all add: afterD)
        with t(1) np cleaned_members[of "leftover_group user" user "file_of GroupF (led t)", OF Inr] show "?Q () v"
          by (auto simp: no_trace_def shadow_clean_def lines_of_def)
      qed (use eq in \<open>auto simp: afterD\<close>)
      moreover have "no_trace user (led t)" if "\<not> list_ex (touches_user user) (splitlines (file_of GroupF (led t)))"
        using untouched_members[OF that] t(1) np by (auto simp: no_trace_def shadow_clean_def lines_of_def)
      ultimately show ?thesis using Inr eq by (simp add: wp_liftE wp_whenE)
    qed
  qed (use t s(1) in \<open>auto simp: shadow_clean_def afterD\<close>)
  have assoc: "wp (bnd m (\<lambda>x. thn (f x) r)) Q' R' u = wp (bnd m f) (\<lambda>_. wp r Q' R') R' u"
    for m :: "string list cmd" and f and r :: "unit cmd" and Q' R' u
    by (simp add: wp_bnd wp_thn)
  show ?thesis
    unfolding remove_account_leftovers_def rest_def[symmetric] assoc
    by (rule wp_leftover_shadow[OF s]) (use rest in auto)
qed

text \<open>Reading the lines under the lock changes nothing but the history.\<close>

lemma read_lines_run:
  assumes "seeded (led s)" "0 < lock_depth s"
  shows "\<exists>x h. read_lines E f s = (x, s\<lparr>hist := h\<rparr>) \<and> (x = Inr (lines_of f (led s)) \<or> (\<exists>e. x = Inl e))"
proof -
  have "wp (read_lines E f) (\<lambda>a t. a = lines_of f (led s) \<and> (\<exists>h. t = s\<lparr>hist := h\<rparr>)) (\<lambda>e t. \<exists>h. t = s\<lparr>hist := h\<rparr>) s"
    using assms
    by (auto simp: read_lines_def wp_thn wp_ensure_seeded wp_ledger_lock_held wp_rd lines_of_def
        intro!: exI[of _ "EvFile # hist s"] split: io_reply.splits)
  then show ?thesis by (auto simp: wp_def split: prod.splits sum.splits)
qed

text \<open>The evidence for an account that is not there.\<close>

lemma first_max_in: "first_max f xs = Some x \<Longrightarrow> x \<in> set xs"
  by (induction xs arbitrary: x) (auto split: option.splits if_splits)

lemma evidence_in:
  "query_deletion_evidence user rows = Some r \<Longrightarrow> r \<in> set rows \<and> deletes_account user (last_created user rows) r"
  unfolding query_deletion_evidence_def by (drule first_max_in) simp

lemma wp_absent:
  assumes s: "0 < lock_depth s" "rooted (led s)" "user \<noteq> ''root''"
    and p: "\<not> has_named parse_passwd_line pw_name user (lines_of PasswdF (led s))"
  shows "wp (delete_absent_account E req user node goal)
     (\<lambda>_ t. no_trace user (led t) \<and> lock_depth t = lock_depth s \<and> goal \<and> query_deletion_evidence user (oplog s) \<noteq> None)
     (\<lambda>_ t. lock_depth t = lock_depth s) s"
proof -
  let ?Q = "\<lambda>_ t. no_trace user (led t) \<and> lock_depth t = lock_depth s \<and> goal \<and> query_deletion_evidence user (oplog s) \<noteq> None"
  let ?R = "\<lambda>_ t. lock_depth t = lock_depth s"
  have fails: "wp (thn (log_delete_account E req user node FAIL err False) (throw e)) ?Q ?R s" for err and e :: exn
    unfolding wp_thn by (rule wp_log_delete_account) (simp add: wp_throw afterD)
  have found: "wp (thn (remove_account_leftovers E user) (log_delete_account E req user node SUCCESS None True)) ?Q ?R t"
    if t: "t = s\<lparr>hist := h\<rparr>" "goal" "query_deletion_evidence user (oplog s) \<noteq> None" for t h
    unfolding wp_thn
  proof (rule wp_weaken[OF wp_leftovers])
    fix u :: st assume u: "no_trace user (led u) \<and> lock_depth u = lock_depth t"
    show "wp (log_delete_account E req user node SUCCESS None True) ?Q ?R u"
      by (rule wp_log_delete_account) (use u t in \<open>simp add: afterD\<close>)
  qed (use s p t in simp_all)
  have fails': "wp (thn (log_delete_account E req user node FAIL err False) (throw e)) ?Q ?R (s\<lparr>hist := h\<rparr>)"
    for err h and e :: exn
    unfolding wp_thn by (rule wp_log_delete_account) (simp add: wp_throw afterD)
  show ?thesis
  proof (cases goal)
    case True
    then show ?thesis
      unfolding delete_absent_account_def account_deletion_evidence_def
      using found fails'
      by (auto simp: wp_bnd wp_tryE wp_rd wp_throw wp_case_option raised_from_def split: io_reply.splits option.splits)
  next
    case False
    then show ?thesis
      unfolding delete_absent_account_def using fails by (simp add: wp_bnd wp_ret)
  qed
qed

lemma wp_delete_locked:
  assumes s: "0 < lock_depth s" "rooted (led s)" "user \<noteq> ''root''"
  shows "wp (delete_account_locked E req user node goal)
     (\<lambda>_ t. no_trace user (led t) \<and> lock_depth t = lock_depth s \<and>
        (has_named parse_passwd_line pw_name user (lines_of PasswdF (led s)) \<or>
         (goal \<and> query_deletion_evidence user (oplog s) \<noteq> None)))
     (\<lambda>_ t. lock_depth t = lock_depth s) s"
proof -
  let ?has = "has_named parse_passwd_line pw_name user (lines_of PasswdF (led s))"
  let ?Q = "\<lambda>_ t. no_trace user (led t) \<and> lock_depth t = lock_depth s \<and>
        (?has \<or> (goal \<and> query_deletion_evidence user (oplog s) \<noteq> None))"
  let ?R = "\<lambda>_ t. lock_depth t = lock_depth s"
  obtain x h where rd: "read_passwd_lines E s = (x, s\<lparr>hist := h\<rparr>)"
      "x = Inr (lines_of PasswdF (led s)) \<or> (\<exists>e. x = Inl e)"
    using read_lines_run[OF rooted_seeded[OF s(2)] s(1)] by metis
  define t where "t = s\<lparr>hist := h\<rparr>"
  have t: "led t = led s" "lock_depth t = lock_depth s" "oplog t = oplog s" by (simp_all add: t_def)
  have body: "wp (case find_named parse_passwd_line pw_name user (rev (lines_of PasswdF (led s))) of
       None \<Rightarrow> delete_absent_account E req user node goal
     | Some p \<Rightarrow>
         thn (tryE (strip_user E (primary_group (pw_gid p)) user (lines_of PasswdF (led s)))
                (\<lambda>e. thn (log_delete_account E req user node FAIL (Some ''ACCOUNT_FILE_WRITE_FAILED'') False) (throw e)))
             (log_delete_account E req user node SUCCESS None False)) ?Q ?R t"
  proof (cases "find_named parse_passwd_line pw_name user (rev (lines_of PasswdF (led s)))")
    case None
    then have np: "\<not> has_named parse_passwd_line pw_name user (lines_of PasswdF (led t))"
      by (simp add: find_named_rev t)
    have "wp (delete_absent_account E req user node goal) ?Q ?R t"
      by (rule wp_weaken[OF wp_absent]) (use np s t in auto)
    with None show ?thesis by simp
  next
    case (Some p)
    then have has: ?has using find_named_rev by (metis option.distinct(1))
    have "wp (strip_user E (primary_group (pw_gid p)) user (lines_of PasswdF (led t)))
        (\<lambda>_. wp (log_delete_account E req user node SUCCESS None False) ?Q ?R)
        (\<lambda>e. wp (log_delete_account E req user node FAIL (Some ''ACCOUNT_FILE_WRITE_FAILED'') False) (\<lambda>_. ?R e) ?R) t"
    proof (rule wp_strip_user)
      fix u :: st assume u: "rolled_back user (primary_group (pw_gid p)) (led t) (led u)" "lock_depth u = lock_depth t"
      show "wp (log_delete_account E req user node SUCCESS None False) ?Q ?R u"
        by (rule wp_log_delete_account) (use u has rolled_back_no_trace t in \<open>auto simp: afterD\<close>)
    next
      fix e and u :: st assume u: "lock_depth u = lock_depth t"
      show "wp (log_delete_account E req user node FAIL (Some ''ACCOUNT_FILE_WRITE_FAILED'') False) (\<lambda>_. ?R e) ?R u"
        by (rule wp_log_delete_account) (use u t in \<open>simp add: afterD\<close>)
    qed (use s t in simp_all)
    with Some t show ?thesis by (simp add: wp_thn wp_tryE wp_throw)
  qed
  show ?thesis
    unfolding delete_account_locked_def wp_bnd
    using rd body by (auto simp: wp_def t_def)
qed

text \<open>The row that says the deletion starts is no evidence of one.\<close>

lemma started_row:
  assumes "op_phase r = START" "op_error r = None"
  shows "query_deletion_evidence user (rows @ [r]) = query_deletion_evidence user rows"
  using assms by (simp add: query_deletion_evidence_def last_created_def deletes_account_def)

lemma log_start_run:
  assumes "\<And>t. led t = led s \<Longrightarrow> lock_depth t = lock_depth s \<Longrightarrow>
      query_deletion_evidence user (oplog t) = query_deletion_evidence user (oplog s) \<Longrightarrow>
      hist t = EvLogDb # hist s \<Longrightarrow> Q () t"
  shows "wp (log_delete_account E req u n START None False) Q R s"
  unfolding log_delete_account_def log_operation_def log_operation_id_def
  by (auto simp: wp_simps logargs_def log_row_def Let_def started_row split: io_reply.splits intro!: assms)

lemma wp_delete_account:
  assumes s: "lock_depth s = 0" "rooted (led s)" "rely_rooted E" "c_username (cx s) = user" "user \<noteq> ''root''"
  shows "wp (step_delete_account E)
     (\<lambda>_ t. no_trace user (led t) \<and> lock_depth t = 0 \<and>
        (has_named parse_passwd_line pw_name user (lines_of PasswdF (x_interfere E (EvLogDb # hist s) (led s))) \<or>
         (c_account_absent_is_goal (cx s) \<and> query_deletion_evidence user (oplog s) \<noteq> None)))
     (\<lambda>_ t. lock_depth t = 0) s"
  unfolding step_delete_account_def wp_bnd wp_getC wp_thn s(4)
proof (rule log_start_run)
  fix t :: st
  assume t: "led t = led s" "lock_depth t = lock_depth s" "hist t = EvLogDb # hist s"
    "query_deletion_evidence user (oplog t) = query_deletion_evidence user (oplog s)"
  let ?t = "t\<lparr>led := x_interfere E (hist t) (led t), lock_depth := 1, hist := EvLedgerLock # hist t\<rparr>"
  have "wp (delete_account_locked E (c_request (cx s)) user (c_node_name (cx s)) (c_account_absent_is_goal (cx s)))
     (\<lambda>_ u. no_trace user (led u) \<and> lock_depth u = lock_depth ?t \<and>
        (has_named parse_passwd_line pw_name user (lines_of PasswdF (led ?t)) \<or>
         (c_account_absent_is_goal (cx s) \<and> query_deletion_evidence user (oplog ?t) \<noteq> None)))
     (\<lambda>_ u. lock_depth u = lock_depth ?t) ?t"
    by (rule wp_delete_locked) (use s t in \<open>simp_all add: rely_rootedD\<close>)
  then have "wp (delete_account_locked E (c_request (cx s)) user (c_node_name (cx s)) (c_account_absent_is_goal (cx s)))
     (\<lambda>_ u. no_trace user (led u) \<and>
        (has_named parse_passwd_line pw_name user (lines_of PasswdF (x_interfere E (EvLogDb # hist s) (led s))) \<or>
         (c_account_absent_is_goal (cx s) \<and> query_deletion_evidence user (oplog s) \<noteq> None)))
     (\<lambda>_ _. True) ?t"
    by (rule wp_weaken) (use t in auto)
  then show "wp (ledger_lock E (delete_account_locked E (c_request (cx s)) user (c_node_name (cx s)) (c_account_absent_is_goal (cx s))))
     (\<lambda>_ t. no_trace user (led t) \<and> lock_depth t = 0 \<and>
        (has_named parse_passwd_line pw_name user (lines_of PasswdF (x_interfere E (EvLogDb # hist s) (led s))) \<or>
         (c_account_absent_is_goal (cx s) \<and> query_deletion_evidence user (oplog s) \<noteq> None)))
     (\<lambda>_ t. lock_depth t = 0) t"
    using s(1) t(2) by (simp add: wp_ledger_lock_free split: option.split)
qed

section \<open>The keytab of the node\<close>

definition unshared :: "env \<Rightarrow> ctx \<Rightarrow> history \<Rightarrow> string \<Rightarrow> bool" where
  "unshared E c h node \<longleftrightarrow> c_pod_node_name c = Some node \<and> \<not> c_already_absent c \<and>
     (\<exists>pods. x_list_pods E (c_username c) h = Inr pods \<and> others_on_node (c_pod_name c) node pods = [])"

definition farm_event :: "string \<Rightarrow> string \<Rightarrow> event \<Rightarrow> bool" where
  "farm_event user node ev \<longleftrightarrow> (\<forall>n c. ev = EvFarmSsh n c \<longrightarrow> n = node \<and> c = words [''remove'', user])"

lemma emits_node_removal:
  "emits (farm_event user node) (tryE (remove_krb5_from_farm E user node) (\<lambda>_. record_krb5_cleanup_pending E user node))"
  by (intro moves_intros) (simp_all add: farm_event_def)

definition careful :: "env \<Rightarrow> st \<Rightarrow> event \<Rightarrow> bool" where
  "careful E s ev \<longleftrightarrow> (\<forall>n c. ev = EvFarmSsh n c \<longrightarrow>
     unshared E (cx s) (EvLoadK8s # hist s) n \<and> c = words [''remove'', c_username (cx s)])"

lemma wp_cleanup_keytab:
  "wp (step_cleanup_pod_node_krb5 E) (\<lambda>_. grew (careful E s) s) (\<lambda>_. grew (careful E s) s) s"
proof -
  have quiet: "grew (careful E s) s (s\<lparr>hist := evs @ hist s\<rparr>)" if "\<forall>ev\<in>set evs. \<forall>n c. ev \<noteq> EvFarmSsh n c" for evs
    using that by (auto simp: grew_def careful_def)
  have go: "wp (tryE (remove_krb5_from_farm E (c_username (cx s)) node) (\<lambda>_. record_krb5_cleanup_pending E (c_username (cx s)) node))
      (\<lambda>_. grew (careful E s) s) (\<lambda>_. grew (careful E s) s) (s\<lparr>hist := [EvListPods (c_username (cx s)), EvLoadK8s] @ hist s\<rparr>)"
    if "c_pod_node_name (cx s) = Some node" "\<not> c_already_absent (cx s)"
      "x_list_pods E (c_username (cx s)) (EvLoadK8s # hist s) = Inr pods" "others_on_node (c_pod_name (cx s)) node pods = []"
    for node pods
  proof (rule wp_weaken[OF moves_wp[OF emits_mono[OF emits_node_removal, of _ _ "careful E s"]]])
    fix ev assume "farm_event (c_username (cx s)) node ev"
    then show "(careful E s) ev" using that by (auto simp: farm_event_def unshared_def careful_def)
  qed (use trace.trans[OF quiet[of "[EvListPods (c_username (cx s)), EvLoadK8s]"]] in auto)
  show ?thesis
    unfolding step_cleanup_pod_node_krb5_def load_k8s_def list_user_pods_def wp_bnd wp_getC
    using quiet[of "[]"] quiet[of "[EvLoadK8s]"] quiet[of "[EvListPods (c_username (cx s)), EvLoadK8s]"] go
    by (auto simp: wp_simps split: option.split sum.split)
qed

section \<open>Removed, or still to be removed\<close>

text \<open>The node took the removal of the keytab.\<close>

definition node_removed :: "env \<Rightarrow> string \<Rightarrow> string \<Rightarrow> st \<Rightarrow> bool" where
  "node_removed E user node t \<longleftrightarrow> (\<exists>evs h out. hist t = evs @ EvFarmSsh node (words [''remove'', user]) # h \<and>
     x_farm_ssh E node (words [''remove'', user]) h = Inr (0, out))"

definition settled :: "env \<Rightarrow> string \<Rightarrow> string \<Rightarrow> st \<Rightarrow> bool" where
  "settled E user node t \<longleftrightarrow> node_removed E user node t \<or> (user, node) \<in> set (krb5_pending t)"

lemma settled_later:
  assumes "settled E user node s" "\<exists>evs. hist t = evs @ hist s" "set (krb5_pending s) \<subseteq> set (krb5_pending t)"
  shows "settled E user node t"
proof (cases "node_removed E user node s")
  case True
  then obtain a h out where "hist s = a @ EvFarmSsh node (words [''remove'', user]) # h"
    "x_farm_ssh E node (words [''remove'', user]) h = Inr (0, out)" by (auto simp: node_removed_def)
  moreover from assms(2) obtain b where "hist t = b @ hist s" by blast
  ultimately have "node_removed E user node t"
    unfolding node_removed_def by (intro exI[of _ "b @ a"] exI[of _ h]) simp
  then show ?thesis by (simp add: settled_def)
next
  case False
  with assms show ?thesis by (auto simp: settled_def)
qed

lemma node_removed_last:
  "hist t = EvFarmSsh node (words [''remove'', user]) # h \<Longrightarrow> x_farm_ssh E node (words [''remove'', user]) h = Inr (0, out) \<Longrightarrow>
   node_removed E user node t"
  unfolding node_removed_def by (metis append_Nil)

lemma wp_remove_farm:
  "wp (remove_krb5_from_farm E user node) (\<lambda>_ t. node_removed E user node t \<and> krb5_pending t = krb5_pending s)
     (\<lambda>_ t. krb5_pending t = krb5_pending s) s"
  unfolding remove_krb5_from_farm_def get_farm_node_info_def farm_ssh_def farm_ssh_reply_def
  by (auto simp: wp_simps split: sum.split intro!: node_removed_last)

lemma wp_record_pending:
  assumes "\<And>h. x_db E h = IoOk"
  shows "wp (record_krb5_cleanup_pending E user node)
     (\<lambda>_ t. krb5_pending t = List.insert (user, node) (krb5_pending s) \<and> (\<exists>evs. hist t = evs @ hist s)) (\<lambda>_ _. False) s"
  by (simp add: record_krb5_cleanup_pending_def wp_simps assms)

text \<open>Removing the keytab of one node, with the reservation for the node that could not be reached.\<close>

lemma wp_remove_or_record:
  assumes "\<And>h. x_db E h = IoOk"
  shows "wp (tryE (remove_krb5_from_farm E user node) (\<lambda>_. record_krb5_cleanup_pending E user node))
     (\<lambda>_ t. settled E user node t \<and> set (krb5_pending s) \<subseteq> set (krb5_pending t) \<and> (\<exists>evs. hist t = evs @ hist s))
     (\<lambda>_ _. False) s"
proof -
  have "wp (remove_krb5_from_farm E user node)
      (\<lambda>_ t. (node_removed E user node t \<and> krb5_pending t = krb5_pending s) \<and> grew (\<lambda>_. True) s t)
      (\<lambda>_ t. krb5_pending t = krb5_pending s \<and> grew (\<lambda>_. True) s t) s"
    by (rule wp_conj[OF wp_remove_farm moves_wp]) (rule emits_remove_farm, simp)
  then show ?thesis
    unfolding wp_tryE
  proof (rule wp_weaken)
    fix e and t :: st assume t: "krb5_pending t = krb5_pending s \<and> grew (\<lambda>_. True) s t"
    show "wp (record_krb5_cleanup_pending E user node)
       (\<lambda>_ u. settled E user node u \<and> set (krb5_pending s) \<subseteq> set (krb5_pending u) \<and> (\<exists>evs. hist u = evs @ hist s))
       (\<lambda>_ _. False) t"
      by (rule wp_weaken[OF wp_record_pending[OF assms]]) (use t in \<open>auto simp: settled_def grew_def\<close>)
  qed (auto simp: settled_def grew_def)
qed

lemma wp_remove_all_farms:
  assumes "\<And>h. x_db E h = IoOk"
  shows "wp (remove_krb5_from_all_farms E user) (\<lambda>_ t. \<forall>node\<in>set (cfg_farm_nodes E). settled E user node t) (\<lambda>_ _. False) s"
proof -
  have "wp (forM ns (\<lambda>node. tryE (remove_krb5_from_farm E user node) (\<lambda>_. record_krb5_cleanup_pending E user node)))
      (\<lambda>_ t. \<forall>node\<in>D \<union> set ns. settled E user node t) (\<lambda>_ _. False) u"
    if "\<forall>node\<in>D. settled E user node u" for ns D u
    using that
  proof (induction ns arbitrary: D u)
    case (Cons n ns)
    have "wp (tryE (remove_krb5_from_farm E user n) (\<lambda>_. record_krb5_cleanup_pending E user n))
        (\<lambda>_. wp (forM ns (\<lambda>node. tryE (remove_krb5_from_farm E user node) (\<lambda>_. record_krb5_cleanup_pending E user node)))
          (\<lambda>_ t. \<forall>node\<in>D \<union> set (n # ns). settled E user node t) (\<lambda>_ _. False)) (\<lambda>_ _. False) u"
    proof (rule wp_weaken[OF wp_remove_or_record[OF assms]])
      fix v :: st
      assume "settled E user n v \<and> set (krb5_pending u) \<subseteq> set (krb5_pending v) \<and> (\<exists>evs. hist v = evs @ hist u)"
      then have "\<forall>node\<in>insert n D. settled E user node v" using Cons.prems settled_later by auto
      from Cons.IH[OF this] show "wp (forM ns (\<lambda>node. tryE (remove_krb5_from_farm E user node) (\<lambda>_. record_krb5_cleanup_pending E user node)))
          (\<lambda>_ t. \<forall>node\<in>D \<union> set (n # ns). settled E user node t) (\<lambda>_ _. False) v" by simp
    qed simp
    then show ?case by (simp add: wp_thn)
  qed (simp add: wp_ret)
  from this[of "{}"] show ?thesis by (simp add: remove_krb5_from_all_farms_def)
qed

end
