(* ===== verification/Job_Facts.thy ===== *)
theory Job_Facts
  imports Jobs Revoke_Facts Port_Facts
begin

text \<open>
  What the execution of a job comes to: its stored input is accounted for by an end row, an
  interrupted account step is judged without touching another job's account, and a compensation is
  guarded.
\<close>

section \<open>Moves that only see the log and the job inputs\<close>

text \<open>
  A preorder of this kind lets every step append rows to the operation log and change anything but the
  Redis entries of jobs.
\<close>

locale row_progress = progress +
  assumes same: "oplog t = oplog s \<Longrightarrow> job_inputs t = job_inputs s \<Longrightarrow> R s t"
    and row: "oplog t = oplog s @ [r] \<Longrightarrow> job_inputs t = job_inputs s \<Longrightarrow> R s t"
begin

lemma keep: "keeps (\<lambda>s. (oplog s, job_inputs s)) m \<Longrightarrow> moves R m"
  by (auto simp: moves_def keeps_def same)

lemma mods: "(\<And>s. oplog (g s) = oplog s) \<Longrightarrow> (\<And>s. job_inputs (g s) = job_inputs s) \<Longrightarrow> moves R (modS g)"
  by (rule upd) (simp add: same)

lemma ctx [moves_intros]: "moves R (modC h)"
  by (simp add: modC_def mods)

lemma asks [moves_intros]: "moves R (ext ev f)" "moves R (rd ev h g)"
  by (auto intro!: keep keeps_intros)

lemma writes:
  assumes "\<And>s. oplog (u s) = oplog s" "\<And>s. job_inputs (u s) = job_inputs s"
  shows "moves R (io ev f u)"
  by (rule keep) (auto intro!: keeps_io simp: assms)

lemma logs [moves_intros]: "moves R (log_operation_id E a)" "moves R (log_operation E a)"
  "moves R (log_step E r u res act ph err)" "moves R (log_account E r n ph err)"
proof -
  have "R s (s\<lparr>hist := h, oplog := oplog s @ [x]\<rparr>)" for s h x
    by (rule row) simp_all
  then show l: "moves R (log_operation_id E a)" for a
    unfolding log_operation_id_def
    by (intro moves_intros mods) (auto simp: moves_def io_def Let_def same row split: io_reply.splits)
  then show "moves R (log_operation E a)" for a unfolding log_operation_def by (intro moves_intros)
  then show "moves R (log_step E r u res act ph err)" "moves R (log_account E r n ph err)"
    unfolding log_account_def log_step_def by blast+
qed

lemma tables [moves_intros]: "moves R (sql E f)" "moves R (claim E j)" "moves R (record_step E j d sv)"
  "moves R (release E j)"
  by (rule keep; intro keeps_intros; simp)+

lemma locks [moves_intros]: "moves R m \<Longrightarrow> moves R (ledger_lock E m)"
  unfolding ledger_lock_def acquire_ledger_lock_def release_ledger_lock_def
  by (intro moves_intros mods) (auto simp: moves_def same split: option.splits)

lemma files [moves_intros]: "moves R (replace_file E f c)" "moves R (read_lines E f)" "moves R (write_lines E f ls)"
  unfolding replace_file_def read_lines_def write_lines_def ensure_etc_layout_def ensure_seeded_file_def
  by (intro moves_intros writes; simp)+

lemma strips [moves_intros]: "moves R (strip_user E p n ls)" "moves R (rollback_user E n pg)"
  unfolding strip_user_def rollback_user_def rollback_locked_def by (intro moves_intros)+

text \<open>The steps that take an account back.\<close>

lemma pending [moves_intros]: "moves R (record_krb5_cleanup_pending E u n)"
  unfolding record_krb5_cleanup_pending_def by (intro moves_intros writes; simp)

lemma farms [moves_intros]: "moves R (farm_ssh E n c)" "moves R (remove_krb5_from_farm E u n)"
  "moves R (remove_krb5_from_all_farms E u)" "moves R (farm_ad_ssh E c)" "moves R (delete_krb5_principal_and_secret E u)"
  by (rule keep; intro keeps_intros; simp)+

lemma undo [moves_intros]: "moves R (undo_account E)"
  unfolding undo_account_def step_check_account_revocable_def step_delete_account_def step_remove_krb5_def
    delete_account_locked_def delete_absent_account_def account_deletion_evidence_def remove_account_leftovers_def
    remove_node_keytab_def log_krb5_removal_def log_delete_account_def log_pod_def load_k8s_def list_user_pods_def
  by (intro moves_intros)

lemma comp [moves_intros]: "moves R (compensate_provision E k jb c dn)"
  unfolding compensate_provision_def with_ctx_def by (intro moves_intros)

text \<open>Observers, judges and cleanups.\<close>

lemma observers: "step_observer E stp = Some ob \<Longrightarrow> moves R ob"
  by (cases stp) (auto simp: observe_account_created_def observe_krb5_principal_def observe_pod_created_def
      found_or_404_def load_k8s_def intro!: moves_intros)

lemma judges: "resume_judge E stp = Some j \<Longrightarrow> moves R j"
  by (cases stp) (auto simp: judge_interrupted_account_def judge_locked_def account_missing_parts_def intro!: moves_intros)

lemma services [moves_intros]: "moves R (services_call E f)"
  by (simp add: moves_def services_call_def Let_def same split: io_reply.split sum.split prod.split)

lemma ports [moves_intros]: "moves R (release_nodeports E pod)" "moves R (delete_nodeport_services E pod)"
  unfolding release_nodeports_def delete_nodeport_services_def load_k8s_def list_pod_services_def
  by (intro moves_intros keep[OF keeps_app_stmt] keep[OF keeps_app_tables(2)]; simp)+

lemma hooks: "pre_hook E stp = Some h \<Longrightarrow> moves R h"
  by (cases stp) (auto intro!: moves_intros)

text \<open>The engine on a job's plant, when the steps themselves move along \<open>R\<close>.\<close>

lemma retries [moves_intros]: "moves R (log_retry E J st n err)" "moves R (retry_pause E)"
  unfolding log_retry_def retry_pause_def sleep_def by (intro moves_intros)+

lemma faulty [moves_intros]: "moves R (armed E user stp b a)" "moves R (mark_fired E i)"
  unfolding armed_def mark_fired_def by (intro moves_intros mods writes; simp)+

lemma saving [moves_intros]: "moves R (save_progress E J d)"
  unfolding save_progress_def by (intro moves_intros)

lemma one_step:
  assumes "\<And>stp. moves R (ex c stp)"
  shows "moves R (execute_step E (job_plant E ex) J c stp)"
proof -
  let ?P = "job_plant E ex"
  have once: "moves R (run_once E ?P c (ji_user J) stp n)" for n
    unfolding run_once_def with_attempt_def job_plant_def plant.simps by (intro moves_intros mods assms; simp)
  have pre: "moves R (pre_step ?P stp)"
    by (cases "pre_hook E stp") (simp_all add: pre_step_def job_plant_def basic handle hooks)
  have obs: "moves R (observed ?P stp err)" for err
    by (cases "step_observer E stp") (simp_all add: observed_def job_plant_def basic handle observers)
  have "moves R (attempts E ?P J c stp m k)" for m k
  proof (induction k)
    case (Suc k)
    have "moves R (after_failure E ?P J stp (m - k) (k = 0) err (attempts E ?P J c stp m k))" for err
      unfolding after_failure_def by (intro moves_intros obs Suc)
    then show ?case unfolding attempts.simps by (intro moves_intros once pre)
  qed (simp add: basic)
  then show ?thesis unfolding execute_step_def .
qed

lemma one_round:
  assumes "\<And>d stp. moves R (ex (checkpoint E J d) stp)"
  shows "moves R (round_of E (job_plant E ex) J d stp)"
proof -
  have "moves R (judged E (job_plant E ex) stp)"
    by (cases "resume_judge E stp") (simp_all add: judged_def job_plant_def basic judges)
  then show ?thesis unfolding round_of_def by (intro moves_intros one_step assms)
qed

lemma all_rounds:
  assumes "\<And>d stp. moves R (ex (checkpoint E J d) stp)"
  shows "moves R (steps_loop E (job_plant E ex) J steps i rw d)"
proof (rule loop_induct[where n="length steps" and m="cfg_step_max_attempts E - 1"
      and Q="\<lambda>i rw d. moves R (steps_loop E (job_plant E ex) J steps i rw d)"])
  fix i rw d
  assume next': "\<And>d'. i < length steps \<Longrightarrow> moves R (steps_loop E (job_plant E ex) J steps (Suc i) rw d')"
    and back': "\<And>i' d'. rw < cfg_step_max_attempts E - 1 \<Longrightarrow> moves R (steps_loop E (job_plant E ex) J steps i' (Suc rw) d')"
  have if': "moves R (if b then m else n)" if "b \<Longrightarrow> moves R m" "\<not> b \<Longrightarrow> moves R n" for b and m n :: "loop_end cmd"
    using that by simp
  show "moves R (steps_loop E (job_plant E ex) J steps i rw d)"
    unfolding steps_loop.simps[of E "job_plant E ex" J steps i]
    apply (intro if' basic context_read seq branch(5) caught one_round assms)
    subgoal for skipped r e using back' by (cases e) (auto intro!: moves_intros simp: Let_def)
    subgoal for skipped r rec using next' by simp
    using next' by (auto intro!: moves_intros)
qed

end

section \<open>A stored input is accounted for\<close>

text \<open>From \<open>s\<close> to \<open>t\<close> the log only grew, and if the input of the job went, a new row ends the job.\<close>

definition accounted :: "kind \<Rightarrow> string \<Rightarrow> st \<Rightarrow> st \<Rightarrow> bool" where
  "accounted k req s t \<longleftrightarrow> (\<exists>new. oplog t = oplog s @ new \<and>
     (job_inputs s (k, req) \<noteq> None \<and> job_inputs t (k, req) = None \<longrightarrow>
        (\<exists>r\<in>set new. op_request r = req \<and> op_action r = job_action k \<and> is_end_phase (op_phase r) \<and>
           (\<forall>x\<in>set (oplog s). op_id x < op_id r))))"

interpretation acc: row_progress "accounted k req" for k req
proof unfold_locales
  fix s t u
  assume "accounted k req s t" "accounted k req t u"
  then show "accounted k req s u" unfolding accounted_def by fastforce
qed (auto simp: accounted_def)

lemma accounted_cur_job [simp]: "accounted k req s (t\<lparr>cur_job := j\<rparr>) = accounted k req s t"
  by (simp add: accounted_def)

lemma next_row_id_less: "x \<in> set rows \<Longrightarrow> op_id x < next_row_id rows"
  using max_default_ge[of "op_id x" "map op_id rows" 0] by (simp add: next_row_id_def)

text \<open>Writing the end row, and then the input.\<close>

lemma record_accounted:
  assumes "is_end_phase (r_phase res)"
  shows "moves (accounted k req) (record_job_result E k req user res)"
proof (rule movesI)
  fix s r t assume m: "record_job_result E k req user res s = (r, t)"
  have "wp (record_job_result E k req user res) (\<lambda>_. accounted k req s) (\<lambda>_. accounted k req s) s"
    unfolding record_job_result_def log_operation_def log_operation_id_def mark_job_done_def delete_job_input_def load_job_input_def
    using assms next_row_id_less
    by (auto simp: wp_simps end_args_def logargs_def put_entry_def Let_def accounted_def log_row_def split: io_reply.split option.split)
  with m show "accounted k req s t" by (cases r) (auto simp: wp_def)
qed

text \<open>Other entries of Redis.\<close>

lemma entries_accounted [moves_intros]: "moves (accounted k req) (set_pod_creation_status E key stage)"
  "moves (accounted k req) (get_pod_creation_status E key)" "moves (accounted k req) (load_job_input E k' req')"
  "moves (accounted k req) (save_job_result E k' req' d)"
  unfolding set_pod_creation_status_def get_pod_creation_status_def load_job_input_def save_job_result_def
  by (intro moves_intros acc.writes; simp)+

lemma running_accounted [moves_intros]: "moves (accounted k req) (mark_job_running E k' req')"
proof -
  have "moves (accounted k req) (io EvRedis (x_redis E) (put_entry k' req' (Some e)))" for e
    by (auto simp: moves_def io_def Let_def put_entry_def accounted_def split: io_reply.split)
  then show ?thesis unfolding mark_job_running_def by (intro moves_intros)
qed

lemma finish_accounted:
  assumes "is_end_phase ph"
  shows "moves (accounted k req) (finish_job E k req user ph code c)"
  unfolding finish_job_def close_progress_def fill_ids_def
  by (intro moves_intros record_accounted) (simp add: assms)

lemma end_accounted: "moves (accounted (ji_kind J) (ji_request J)) (end_job E J jb c dn err)"
proof -
  have r: "moves (accounted k req) (release_lease E j)" for k req j
    unfolding release_lease_def by (intro moves_intros)
  have f: "moves (accounted k req) (finish_job E k req user (end_phase E u) code c)" for k req user u code
    by (rule finish_accounted) (simp add: end_phase_def is_end_phase_def)
  consider "err = None" | e where "err = Some e" by (cases err) auto
  then show ?thesis
  proof cases
    case 1
    then show ?thesis by (simp add: acc.seq' finish_accounted r is_end_phase_def)
  next
    case (2 e)
    then show ?thesis
      by (cases e) (auto intro!: acc.seq' acc.seq acc.comp acc.branch acc.basic finish_accounted f r simp: is_end_phase_def)
  qed
qed

text \<open>A stored result comes from an end of the job.\<close>

definition ended_well :: "job_entry \<Rightarrow> bool" where
  "ended_well e \<longleftrightarrow> (\<forall>res. e_result e = Some res \<longrightarrow> is_end_phase (r_phase res))"

lemma stored_accounted:
  assumes "ended_well e" "\<And>d stp. moves (accounted (ji_kind J) (ji_request J)) (ex (checkpoint E J d) stp)"
  shows "moves (accounted (ji_kind J) (ji_request J)) (run_stored E ex J dn sv e)"
proof -
  let ?acc = "accounted (ji_kind J) (ji_request J)"
  have r: "moves ?acc (release_lease E j)" for j
    unfolding release_lease_def by (intro moves_intros)
  have f: "moves ?acc (finish_job E (ji_kind J) (ji_request J) user FAIL code c)" for user code c
    by (rule finish_accounted) (simp add: is_end_phase_def)
  have i: "moves ?acc (interrupt_baseline_job E (ji_kind J) (ji_request J) user jb c dn)" for user jb c
    unfolding interrupt_baseline_job_def by (intro moves_intros f)
  have s: "moves ?acc (run_steps E ex J jb dn)" for jb
    unfolding run_steps_def by (intro moves_intros acc.all_rounds assms(2) end_accounted)
  have d: "moves ?acc (case e_result e of None \<Rightarrow> throw (raised KeyError)
      | Some res \<Rightarrow> thn (record_job_result E (ji_kind J) (ji_request J) (ji_user J) res) (release_lease E (ji_job J)))"
    using assms(1) by (auto simp: ended_well_def intro!: moves_intros record_accounted r split: option.split)
  show ?thesis unfolding run_stored_def by (intro moves_intros d i s r)
qed

lemma missing_accounted: "moves (accounted (ji_kind J) (ji_request J)) (run_missing E J)"
  unfolding run_missing_def job_end_exists_def release_lease_def
  by (intro moves_intros finish_accounted) (simp add: is_end_phase_def)

lemma keeps_inputs_claim: "keeps job_inputs (case j of None \<Rightarrow> ret (Some ([], no_saved)) | Some i \<Rightarrow> tryE (claim E i) (\<lambda>_. ret None))"
  by (intro keeps_intros) simp_all

lemma wp_run_job:
  assumes "\<And>e. job_inputs s (ji_kind J, ji_request J) = Some e \<Longrightarrow> ended_well e"
    and "\<And>d stp. moves (accounted (ji_kind J) (ji_request J)) (ex (checkpoint E J d) stp)"
  shows "wp (run_job E ex J) (\<lambda>_. accounted (ji_kind J) (ji_request J) s) (\<lambda>_. accounted (ji_kind J) (ji_request J) s) s"
proof -
  let ?acc = "accounted (ji_kind J) (ji_request J)"
  let ?s = "s\<lparr>cur_job := ji_job J\<rparr>"
  have step: "wp m (\<lambda>_. ?acc s) (\<lambda>_. ?acc s) t" if "moves ?acc m" "?acc s t" for t and m :: "unit cmd"
    by (rule wp_weaken[OF moves_wp[OF that(1)]]) (use acc.trans that(2) in blast)+
  have load: "wp (load_job_input E (ji_kind J) (ji_request J))
      (\<lambda>st. wp (case st of None \<Rightarrow> run_missing E J | Some e \<Rightarrow> run_stored E ex J dn sv e) (\<lambda>_. ?acc s) (\<lambda>_. ?acc s)) (\<lambda>_. ?acc s) t"
    if t: "job_inputs t = job_inputs s" "?acc s t" for dn sv t
  proof -
    have "wp (case job_inputs t (ji_kind J, ji_request J) of None \<Rightarrow> run_missing E J | Some e \<Rightarrow> run_stored E ex J dn sv e)
        (\<lambda>_. ?acc s) (\<lambda>_. ?acc s) u" if "?acc s u" for u
      using assms that t(1) by (auto intro!: step missing_accounted stored_accounted split: option.split)
    moreover have "?acc s (t\<lparr>hist := h\<rparr>)" for h using t(2) by (simp add: accounted_def)
    ultimately show ?thesis by (simp add: load_job_input_def wp_rd split: io_reply.split)
  qed
  have "wp (run_job_body E ex J) (\<lambda>_. ?acc s) (\<lambda>_. ?acc s) ?s"
    unfolding run_job_body_def wp_bnd
  proof (rule wp_weaken[OF wp_conj[OF keeps_wp[OF keeps_inputs_claim] moves_wp]])
    show "moves ?acc (case ji_job J of None \<Rightarrow> ret (Some ([], no_saved)) | Some i \<Rightarrow> tryE (claim E i) (\<lambda>_. ret None))"
      by (intro moves_intros)
  next
    fix lease t assume t: "job_inputs t = job_inputs ?s \<and> ?acc ?s t"
    then have "?acc s t" by (auto simp: accounted_def)
    with t load show "wp (case lease of None \<Rightarrow> ret () | Some (dn, sv) \<Rightarrow>
         bnd (load_job_input E (ji_kind J) (ji_request J)) (\<lambda>stored. case stored of
           None \<Rightarrow> run_missing E J | Some e \<Rightarrow> run_stored E ex J dn sv e)) (\<lambda>_. ?acc s) (\<lambda>_. ?acc s) t"
      by (auto simp: wp_bnd wp_ret split: option.split prod.split)
  qed (auto simp: accounted_def)
  then show ?thesis
    unfolding run_job_def by (simp add: wp_simps)
qed

section \<open>Judging an interrupted account step\<close>

text \<open>The account the job wrote is there with all its parts.\<close>

definition all_parts :: "env \<Rightarrow> ctx \<Rightarrow> string \<Rightarrow> passwd_entry \<Rightarrow> ledger \<Rightarrow> bool" where
  "all_parts E c name p L \<longleftrightarrow>
     (\<exists>r\<in>set (group_entries L). gr_gid r = pw_gid p \<and> Some (gr_name r) = c_pg_name c) \<and>
     (\<forall>g\<in>set (c_supp_groups c). \<exists>r\<in>set (group_entries L). sg_gid g = Some (gr_gid r) \<and> name \<in> set (gr_members r)) \<and>
     has_named parse_shadow_line sp_name name (lines_of ShadowF L) \<and>
     (build_sudoers_policy E name \<noteq> None \<longrightarrow> some_text (sudoers L name))"

lemma missing_supp_none:
  "missing_supp name groups g = Inr [] \<Longrightarrow> \<exists>r\<in>set groups. sg_gid g = Some (gr_gid r) \<and> name \<in> set (gr_members r)"
  by (auto simp: missing_supp_def bindE_def int_gid_def list_ex_iff split: if_splits sum.splits option.splits)

lemma mapE_each: "mapE f xs = Inr ys \<Longrightarrow> x \<in> set xs \<Longrightarrow> \<exists>y\<in>set ys. f x = Inr y"
  by (induction xs arbitrary: ys) (auto simp: bindE_Inr_iff)

text \<open>Reads under the lock change the history and nothing else.\<close>

definition asked_only :: "st \<Rightarrow> st \<Rightarrow> bool" where
  "asked_only s t \<longleftrightarrow> (\<exists>h. t = s\<lparr>hist := h\<rparr>)"

lemma asked_only_simps [simp]: "asked_only s s" "asked_only s (s\<lparr>hist := h\<rparr>)"
  unfolding asked_only_def by (rule exI[of _ "hist s"], simp) blast

lemma asked_only_trans: "asked_only s t \<Longrightarrow> asked_only t u \<Longrightarrow> asked_only s u"
  by (auto simp: asked_only_def)

lemma asked_onlyD: "asked_only s t \<Longrightarrow> led t = led s \<and> lock_depth t = lock_depth s \<and> cx t = cx s"
  by (auto simp: asked_only_def)

lemma wp_read_quiet:
  assumes "0 < lock_depth s" "rooted (led s)" "asked_only s t"
    and Q: "\<And>u. asked_only s u \<Longrightarrow> Q (lines_of f (led s)) u" and R: "\<And>e u. asked_only s u \<Longrightarrow> R e u"
  shows "wp (read_lines E f) Q R t"
proof -
  from asked_onlyD[OF assms(3)] have t: "led t = led s" "lock_depth t = lock_depth s" by simp_all
  obtain x h where "read_lines E f t = (x, t\<lparr>hist := h\<rparr>)" "x = Inr (lines_of f (led t)) \<or> (\<exists>e. x = Inl e)"
    using read_lines_run[of t E f] assms(1,2) t by (metis rooted_seeded)
  moreover have "asked_only s (t\<lparr>hist := h\<rparr>)" for h using asked_only_trans[OF assms(3)] by simp
  ultimately show ?thesis using Q R t by (auto simp: wp_def)
qed

lemma all_parts_from:
  assumes m: "mapE (missing_supp name (group_entries L)) (c_supp_groups c) = Inr missing"
    and e: "missing_primary (c_pg_name c) (pw_gid p) (group_entries L) @ concat missing @
          (if has_named parse_shadow_line sp_name name (lines_of ShadowF L) then [] else [''shadow'']) @
          missing_sudoers E name L = []"
  shows "all_parts E c name p L"
proof -
  have "\<exists>r\<in>set (group_entries L). sg_gid g = Some (gr_gid r) \<and> name \<in> set (gr_members r)"
    if "g \<in> set (c_supp_groups c)" for g
  proof -
    from mapE_each[OF m that] obtain x where "x \<in> set missing" "missing_supp name (group_entries L) g = Inr x" by blast
    with e show ?thesis using missing_supp_none by auto
  qed
  then show ?thesis
    using e by (auto simp: all_parts_def missing_primary_def missing_sudoers_def list_ex_iff split: if_splits)
qed

lemma wp_missing_parts:
  assumes "0 < lock_depth s" "rooted (led s)" "asked_only s t"
  shows "wp (account_missing_parts E name p)
     (\<lambda>m u. (m = [] \<longrightarrow> all_parts E (cx s) name p (led s)) \<and> asked_only s u) (\<lambda>_. asked_only s) t"
proof -
  have sh: "wp (bnd (read_shadow_lines E) (\<lambda>sh_lines. bnd (getS (\<lambda>s. missing_sudoers E name (led s))) (\<lambda>sudo.
      ret (missing_primary (c_pg_name (cx s)) (pw_gid p) (group_entries (led s)) @ concat missing @
          (if has_named parse_shadow_line sp_name name sh_lines then [] else [''shadow'']) @ sudo))))
      (\<lambda>m u. (m = [] \<longrightarrow> all_parts E (cx s) name p (led s)) \<and> asked_only s u) (\<lambda>_. asked_only s) u"
    if m: "mapE (missing_supp name (group_entries (led s))) (c_supp_groups (cx s)) = Inr missing" and u: "asked_only s u" for missing u
    unfolding wp_bnd wp_getS wp_ret
    by (rule wp_read_quiet[OF assms(1,2) u]) (use all_parts_from[OF m] asked_onlyD in auto)
  show ?thesis
    unfolding account_missing_parts_def wp_bnd[of "read_group_lines E"]
  proof (rule wp_read_quiet[OF assms])
    fix u assume u: "asked_only s u"
    then show "wp (let groups = entries parse_group_line (lines_of GroupF (led s)) in
     bnd (getC (\<lambda>c. (c_pg_name c, c_supp_groups c))) (\<lambda>(pg, supp).
     bnd (liftE (mapE (missing_supp name groups) supp)) (\<lambda>missing.
     bnd (read_shadow_lines E) (\<lambda>sh_lines.
     bnd (getS (\<lambda>s. missing_sudoers E name (led s))) (\<lambda>sudo.
     ret (missing_primary pg (pw_gid p) groups @ concat missing @
          (if has_named parse_shadow_line sp_name name sh_lines then [] else [''shadow'']) @ sudo))))))
      (\<lambda>m u. (m = [] \<longrightarrow> all_parts E (cx s) name p (led s)) \<and> asked_only s u) (\<lambda>_. asked_only s) u"
      using sh asked_onlyD[OF u] unfolding group_entries_def[symmetric] Let_def wp_bnd[of "getC f" for f] wp_getC prod.case
        wp_bnd[of "liftE r" for r] wp_liftE
      by (auto split: sum.split)
  qed
qed

definition named_entry :: "string \<Rightarrow> ledger \<Rightarrow> passwd_entry option" where
  "named_entry name L = find_named parse_passwd_line pw_name name (lines_of PasswdF L)"

definition own_entry :: "string \<Rightarrow> int \<Rightarrow> ledger \<Rightarrow> bool" where
  "own_entry name marker L \<longleftrightarrow> (\<exists>p. named_entry name L = Some p \<and> pw_uid p = marker)"

text \<open>The verdicts: \<open>Some\<close> entry is finished, \<open>None\<close> leaves another's account alone or takes the own one back.\<close>

definition verdict :: "env \<Rightarrow> ctx \<Rightarrow> string \<Rightarrow> int \<Rightarrow> ledger \<Rightarrow> passwd_entry option \<Rightarrow> st \<Rightarrow> bool" where
  "verdict E c name marker L r t \<longleftrightarrow> (case r of
     Some p \<Rightarrow> led t = L \<and> named_entry name L = Some p \<and> pw_uid p = marker \<and> all_parts E c name p L
   | None \<Rightarrow> (led t = L \<and> \<not> own_entry name marker L) \<or>
             (own_entry name marker L \<and> no_trace name (led t) \<and> c_uid (cx t) = Some marker))"

lemma wp_judge_locked:
  assumes s: "0 < lock_depth s" "rooted (led s)" and n: "name \<noteq> ''root''"
  shows "wp (judge_locked E name marker)
     (\<lambda>r t. verdict E (cx s) name marker (led s) r t \<and> lock_depth t = lock_depth s \<and> c_supp_groups (cx t) = c_supp_groups (cx s))
     (\<lambda>_ t. lock_depth t = lock_depth s) s"
  (is "wp _ ?Q ?R s")
  unfolding judge_locked_def wp_bnd[of "read_passwd_lines E"]
proof (rule wp_read_quiet[OF s asked_only_simps(1)])
  fix t assume t: "asked_only s t"
  note eq = asked_onlyD[OF t]
  show "wp (case find_named parse_passwd_line pw_name name (lines_of PasswdF (led s)) of
       None \<Rightarrow> ret None
     | Some p \<Rightarrow>
         if pw_uid p \<noteq> marker then ret None
         else bnd (account_missing_parts E name p) (\<lambda>missing.
           if missing \<noteq> []
           then thn (rollback_user E name (Some (pw_gid p)))
               (thn (modC (\<lambda>c. c\<lparr>c_uid := Some marker\<rparr>)) (ret None))
           else ret (Some p))) ?Q ?R t"
  proof (cases "find_named parse_passwd_line pw_name name (lines_of PasswdF (led s))")
    case None
    then show ?thesis using eq by (simp add: wp_ret verdict_def own_entry_def named_entry_def)
  next
    case (Some p)
    then have e: "named_entry name (led s) = Some p" by (simp add: named_entry_def)
    have undo: "wp (rollback_user E name (Some (pw_gid p))) (\<lambda>_. wp (thn (modC (\<lambda>c. c\<lparr>c_uid := Some marker\<rparr>)) (ret None)) ?Q ?R) ?R u"
      if u: "asked_only s u" "pw_uid p = marker" for u
      by (rule wp_rollback_held)
        (use s n e u asked_onlyD[OF u(1)] rolled_back_no_trace in \<open>auto simp: wp_simps verdict_def own_entry_def\<close>)
    have "wp (account_missing_parts E name p) (\<lambda>missing. wp (if missing \<noteq> []
           then thn (rollback_user E name (Some (pw_gid p)))
               (thn (modC (\<lambda>c. c\<lparr>c_uid := Some marker\<rparr>)) (ret None))
           else ret (Some p)) ?Q ?R) ?R t" if m: "pw_uid p = marker"
      by (rule wp_weaken[OF wp_missing_parts[OF s t]])
        (use undo m e asked_onlyD in \<open>auto simp: wp_thn[of "rollback_user E name x" for x] wp_ret verdict_def\<close>)
    then show ?thesis using Some e eq by (simp add: wp_simps verdict_def own_entry_def)
  qed
qed (auto dest: asked_onlyD)

lemma wp_judge:
  assumes s: "lock_depth s = 0" "rooted (led s)" "rely_rooted E" "name \<noteq> ''root''"
    and c: "c_account_write_started (cx s) = Some m" "c_name (cx s) = Some name"
  shows "wp (judge_interrupted_account E)
     (\<lambda>b t. lock_depth t = 0 \<and> (if b
        then led t = x_interfere E (hist s) (led s) \<and> (\<exists>p. named_entry name (led t) = Some p \<and> pw_uid p = m \<and>
               all_parts E (cx s) name p (led t) \<and> c_uid (cx t) = Some m \<and> c_gid (cx t) = Some (pw_gid p))
        else verdict E (cx s) name m (x_interfere E (hist s) (led s)) None t))
     (\<lambda>e t. lock_depth t = 0 \<and> is_degraded e) s"
  (is "wp _ ?Q ?R s")
proof -
  let ?L = "x_interfere E (hist s) (led s)"
  let ?s = "s\<lparr>led := ?L, lock_depth := 1, hist := EvLedgerLock # hist s\<rparr>"
  define rest where "rest = (\<lambda>r :: passwd_entry option. case r of None \<Rightarrow> ret False
           | Some p \<Rightarrow>
               thn (modC (\<lambda>c. c\<lparr>c_uid := Some (pw_uid p), c_gid := Some (pw_gid p),
                                c_added_supp := added_of (c_supp_groups c)\<rparr>))
              (bnd (getC c_request) (\<lambda>req.
               thn (log_account E req name SUCCESS None) (ret True))))"
  have fin: "wp (rest r) ?Q ?R t"
    if t: "verdict E (cx s) name m ?L r t" "lock_depth t = 0" for r t
  proof (cases r)
    case None
    with t show ?thesis by (simp add: wp_ret rest_def)
  next
    case (Some p)
    show ?thesis
      unfolding Some option.case rest_def wp_thn[of "modC f" for f] wp_modC wp_bnd wp_getC wp_thn[of "log_account E r n ph err" for r n ph err]
      by (rule wp_log_account) (use t Some in \<open>auto simp: wp_ret verdict_def afterD\<close>)
  qed
  have fail: "wp (if is_degraded e then throw e else throw (StepDegraded CreateAccount ''OBSERVE_FAILED'' e True)) Q ?R t"
    if "lock_depth t = 0" for e t and Q :: "passwd_entry option \<Rightarrow> st \<Rightarrow> bool"
    using that by (simp add: wp_if wp_throw)
  have locked: "wp (judge_locked E name m)
      (\<lambda>r t. wp (rest r) ?Q ?R (t\<lparr>lock_depth := 0, hist := EvLedgerUnlock # hist t\<rparr>))
      (\<lambda>e t. wp (if is_degraded e then throw e else throw (StepDegraded CreateAccount ''OBSERVE_FAILED'' e True))
         (\<lambda>r. wp (rest r) ?Q ?R) ?R (t\<lparr>lock_depth := 0, hist := EvLedgerUnlock # hist t\<rparr>)) ?s"
  proof (rule wp_weaken[OF wp_judge_locked])
    show "rooted (led ?s)" using s rely_rootedD by simp
  next
    fix r t assume "verdict E (cx ?s) name m (led ?s) r t \<and> lock_depth t = lock_depth ?s \<and> c_supp_groups (cx t) = c_supp_groups (cx ?s)"
    then show "wp (rest r) ?Q ?R (t\<lparr>lock_depth := 0, hist := EvLedgerUnlock # hist t\<rparr>)"
      by (intro fin) (cases r; simp add: verdict_def)+
  qed (use s in \<open>simp_all add: wp_throw\<close>)
  show ?thesis
  proof (cases "x_ledger_lock E (hist s)")
    case None
    show ?thesis
      unfolding judge_interrupted_account_def wp_bnd[of "getC f" for f] wp_getC c option.case wp_bnd[of "needC f" for f] wp_needC
        wp_bnd[of "tryE x y" for x y] wp_tryE wp_ledger_lock_free[OF s(1)] None rest_def[symmetric]
      by (rule locked)
  next
    case (Some e)
    with s(1) c show ?thesis
      by (simp add: judge_interrupted_account_def wp_simps wp_ledger_lock_free)
  qed
qed

section \<open>A compensation is guarded\<close>

text \<open>What must hold before the account of a failed creation is taken back.\<close>

definition undo_allowed :: "env \<Rightarrow> kind \<Rightarrow> job \<Rightarrow> ctx \<Rightarrow> step list \<Rightarrow> history \<Rightarrow> bool" where
  "undo_allowed E k jb c dn h \<longleftrightarrow> k = Provision \<and> CreateKrb5Principal \<in> set dn \<and>
     (cfg_realm E \<noteq> [] \<longrightarrow> some_text (c_node c)) \<and>
     (\<exists>pods. x_list_pods E (j_username jb) (EvLoadK8s # h) = Inr pods \<and> (\<forall>p\<in>set pods. Some (pv_name p) = c_pod_name c))"

definition only_looked :: "string \<Rightarrow> st \<Rightarrow> st \<Rightarrow> bool" where
  "only_looked user s t \<longleftrightarrow> asked_only s t \<and> grew (\<lambda>ev. ev = EvLoadK8s \<or> ev = EvListPods user) s t"

lemma only_looked_simps [simp]: "only_looked user s s" "only_looked user s (s\<lparr>hist := EvLoadK8s # hist s\<rparr>)"
  "only_looked user s (s\<lparr>hist := EvListPods user # EvLoadK8s # hist s\<rparr>)"
  by (auto simp: only_looked_def grew_def)

lemma same_cx [simp]: "s\<lparr>cx := c, hist := h, cx := cx s\<rparr> = s\<lparr>hist := h\<rparr>" "s\<lparr>cx := c, cx := cx s\<rparr> = s"
  by (cases s; simp)+

lemma comp_guarded:
  assumes "\<not> undo_allowed E k jb c dn (hist s)"
  shows "wp (compensate_provision E k jb c dn) (\<lambda>_ t. only_looked (j_username jb) s t) (\<lambda>_ _. False) s"
proof (cases "k \<noteq> Provision \<or> CreateKrb5Principal \<notin> set dn")
  case True
  then show ?thesis by (simp add: compensate_provision_def wp_ret)
next
  case False
  with assms show ?thesis
    unfolding compensate_provision_def with_ctx_def undo_account_def step_check_account_revocable_def load_k8s_def list_user_pods_def
    by (auto simp: wp_simps undo_allowed_def comp_ctx_def blank_ctx_def text_or_else_def some_text_def list_ex_iff
        split: sum.splits option.splits if_splits)
qed

lemma comp_never_raises: "raises (\<lambda>_. False) (compensate_provision E k jb c dn)"
  unfolding compensate_provision_def by (intro raises_branch raises_basic raises_tryE[where P="\<lambda>_. True"]) (simp_all add: raises_def)

end
