(* ===== verification/Verify.thy ===== *)
theory Verify
  imports Revoke Pods
begin

text \<open>
  The access tests (\<open>lifecycle_steps/verify.py\<close>): what a creation must show before it is recorded as done
  and what a revocation must show before the access counts as blocked.  The texts of the details are
  left out; a check answers \<open>None\<close> (does not apply), or whether the test was passed.
\<close>

section \<open>Looking\<close>

text \<open>\<open>s.partition(sub)\<close>, \<open>None\<close> if \<open>sub\<close> does not occur, and \<open>s.rsplit(sub, 1)\<close>.\<close>

fun partition_on :: "string \<Rightarrow> string \<Rightarrow> (string \<times> string) option" where
  "partition_on sub [] = (if sub = [] then Some ([], []) else None)"
| "partition_on sub (c # s) =
     (if take (length sub) (c # s) = sub then Some ([], drop (length sub) (c # s))
      else map_option (\<lambda>(a, b). (c # a, b)) (partition_on sub s))"

fun rpartition_on :: "string \<Rightarrow> string \<Rightarrow> (string \<times> string) option" where
  "rpartition_on sub [] = (if sub = [] then Some ([], []) else None)"
| "rpartition_on sub (c # s) = (case rpartition_on sub s of
     Some (a, b) \<Rightarrow> Some (c # a, b)
   | None \<Rightarrow> if take (length sub) (c # s) = sub then Some ([], drop (length sub) (c # s)) else None)"

text \<open>\<open>int(s)\<close> on a stripped text: a sign and digits (underscores between digits are not modelled).\<close>

definition read_int :: "string \<Rightarrow> exn + int" where
  "read_int s = (let neg = (take 1 s = ''-''); ds = (if neg \<or> take 1 s = ''+'' then drop 1 s else s) in
     case read_digits ds of None \<Rightarrow> Inl (raised ValueError) | Some i \<Rightarrow> Inr (if neg then - i else i))"

text \<open>\<open>str.split()\<close>.\<close>

fun tokens_from :: "string \<Rightarrow> string \<Rightarrow> string list" where
  "tokens_from w [] = (if w = [] then [] else [w])"
| "tokens_from w (c # s) =
     (if is_space c then (if w = [] then tokens_from [] s else w # tokens_from [] s) else tokens_from (w @ [c]) s)"

definition tokens :: "string \<Rightarrow> string list" where
  "tokens s = tokens_from [] s"

definition last_line :: "string \<Rightarrow> string" where
  "last_line out = (if out = [] then [] else py_strip (last (splitlines out)))"

definition sh :: "env \<Rightarrow> string \<Rightarrow> string \<Rightarrow> (string \<times> int) cmd" where
  "sh E pod command =
     thn (load_k8s E)
    (bnd (exec_in_pod E pod (command @ ''; echo \"__RC=$?\"'') [] None) (\<lambda>raw. let out = py_strip raw in
     case rpartition_on ''__RC='' out of
       None \<Rightarrow> ret (out, - 1)
     | Some (a, b) \<Rightarrow> bnd (if py_strip b = [] then ret (- 1) else liftE (read_int (py_strip b))) (\<lambda>rc.
         ret (py_strip a, rc))))"

definition tcp_check :: "env \<Rightarrow> string \<Rightarrow> int \<Rightarrow> (bool \<times> string) cmd" where
  "tcp_check E host port = ext (EvTcp host port) (\<lambda>h. Inr (x_tcp E host port h))"

section \<open>Running a probe\<close>

definition log_probe :: "env \<Rightarrow> action \<Rightarrow> string \<Rightarrow> phase \<Rightarrow> string option \<Rightarrow> unit cmd" where
  "log_probe E act probe ph err =
     bnd (getC (\<lambda>c. (c_request c, c_username c, c_pod_name c))) (\<lambda>(req, user, pod).
       log_pod E req user pod None (Some probe) act ph err)"

definition probe_step :: "string \<Rightarrow> string" where
  "probe_step probe = ''VERIFY_'' @ concat (map upper_char probe)"

definition run_probe :: "env \<Rightarrow> action \<Rightarrow> string \<Rightarrow> bool option cmd \<Rightarrow> unit cmd" where
  "run_probe E act probe check =
     thn (log_probe E act probe START None)
    (thn (whenE (act = VERIFY_ACCESS) (bnd (getC c_request) (\<lambda>req. set_pod_creation_status E req ''verifying'')))
    (bnd (tryE check (\<lambda>e.
            thn (log_probe E act probe (fail_phase e) (Some ''VERIFY_TOOL_FAILED''))
                (throw (infra_failed (probe_step probe) ''VERIFY_TOOL_FAILED'' 500 (Some e))))) (\<lambda>ok. case ok of
       None \<Rightarrow> log_probe E act probe SUCCESS None
     | Some b \<Rightarrow>
         thn (log_probe E act probe (if b then SUCCESS else FAIL) None)
             (if \<not> b then throw (infra_failed (probe_step probe) (probe_step probe @ ''_FAILED'') 500 None) else ret ()))))"

section \<open>The five tests of a creation\<close>

definition account_uid :: "env \<Rightarrow> int option cmd" where
  "account_uid E = bnd (getC (\<lambda>c. (c_uid c, c_username c))) (\<lambda>(uid, user). case uid of
     Some u \<Rightarrow> ret (Some u)
   | None \<Rightarrow> bnd (read_passwd_lines E) (\<lambda>ls. case find_named parse_passwd_line pw_name user ls of
       None \<Rightarrow> ret None
     | Some e \<Rightarrow> thn (modC (\<lambda>c. c\<lparr>c_uid := Some (pw_uid e)\<rparr>)) (ret (Some (pw_uid e)))))"

definition quoted :: "string \<Rightarrow> string" where
  "quoted s = CHR 39 # s @ [CHR 39]"

definition as_user :: "string \<Rightarrow> string \<Rightarrow> string" where
  "as_user user command = ''su -s /bin/sh '' @ user @ '' -c '' @ quoted command"

definition check_uid :: "env \<Rightarrow> bool option cmd" where
  "check_uid E = bnd (account_uid E) (\<lambda>uid. case uid of
     None \<Rightarrow> ret (Some False)
   | Some u \<Rightarrow> bnd (getC c_username) (\<lambda>user. bnd (needC c_pod_name) (\<lambda>pod.
       bnd (sh E pod (as_user user ''id -u'')) (\<lambda>(out, rc). ret (Some (rc = 0 \<and> last_line out = show_int u))))))"

definition step_verify_uid :: "env \<Rightarrow> unit cmd" where
  "step_verify_uid E = run_probe E VERIFY_ACCESS ''uid'' (check_uid E)"

definition home_io_command :: "string \<Rightarrow> string \<Rightarrow> string" where
  "home_io_command user token =
     as_user user (''echo ok > ~/'' @ token @ '' && cat ~/'' @ token @ '' && rm ~/'' @ token) @
     ''; echo __SU=$?; echo __DF; df -P /home/'' @ user @ '' | tail -1; echo __OWNER; stat -c %u /home/'' @ user"

text \<open>The write and read worked, and the home comes from the NAS (a source \<open>host:/path\<close>).\<close>

definition home_io_ok :: "string \<Rightarrow> bool" where
  "home_io_ok out =
     (let (head, rest) = (case partition_on ''__DF'' out of None \<Rightarrow> (out, []) | Some p \<Rightarrow> p);
          df_line = (case partition_on ''__OWNER'' rest of None \<Rightarrow> rest | Some p \<Rightarrow> fst p);
          mount_src = (case tokens df_line of [] \<Rightarrow> [] | t # _ \<Rightarrow> t)
      in ''ok'' \<in> set (tokens head) \<and> contains ''__SU=0'' head \<and> CHR '':'' \<in> set mount_src)"

definition check_home_io :: "env \<Rightarrow> bool option cmd" where
  "check_home_io E = bnd (getC (\<lambda>c. (c_request c, c_username c))) (\<lambda>(req, user). bnd (needC c_pod_name) (\<lambda>pod.
     bnd (sh E pod (home_io_command user (''.verify-'' @ req))) (\<lambda>(out, rc). ret (Some (home_io_ok out)))))"

definition step_verify_home_io :: "env \<Rightarrow> unit cmd" where
  "step_verify_home_io E = run_probe E VERIFY_ACCESS ''home_io'' (check_home_io E)"

definition klist_command :: "string \<Rightarrow> int \<Rightarrow> string" where
  "klist_command user uid =
     as_user user (''klist -s || KRB5CCNAME=FILE:$(ls /run/user/'' @ show_int uid @
       ''/krb5cc* 2>/dev/null | head -1) klist -s'')"

definition check_krb5 :: "env \<Rightarrow> bool option cmd" where
  "check_krb5 E = bnd (getC c_username) (\<lambda>user. bnd (account_uid E) (\<lambda>uid. case uid of
     None \<Rightarrow> ret (Some False)
   | Some u \<Rightarrow> bnd (needC c_pod_name) (\<lambda>pod.
       bnd (sh E pod (klist_command user u)) (\<lambda>(out, rc). ret (Some (rc = 0))))))"

definition step_verify_krb5 :: "env \<Rightarrow> unit cmd" where
  "step_verify_krb5 E = run_probe E VERIFY_ACCESS ''krb5_ticket'' (check_krb5 E)"

text \<open>The GPUs the container must show: those of the node it runs on, or the most of all candidates.\<close>

definition wanted_gpus :: "gpu_node list \<Rightarrow> string option \<Rightarrow> int" where
  "wanted_gpus nodes node =
     (let n = lower (case node of None \<Rightarrow> [] | Some t \<Rightarrow> t) in
      case filter (\<lambda>g. lower (gn_name g) = n) nodes of
        g # _ \<Rightarrow> gn_num_gpu g
      | [] \<Rightarrow> max_default 0 (map gn_num_gpu nodes))"

definition check_gpu :: "env \<Rightarrow> bool option cmd" where
  "check_gpu E = bnd (getC (\<lambda>c. (c_user_info c, c_node c))) (\<lambda>(info, node).
     let want = wanted_gpus (case info of None \<Rightarrow> [] | Some i \<Rightarrow> ui_gpu_nodes i) node in
     if want \<le> 0 then ret None
     else bnd (needC c_pod_name) (\<lambda>pod. bnd (sh E pod ''nvidia-smi -L | wc -l'') (\<lambda>(out, rc).
       bnd (if rc = 0 \<and> out \<noteq> [] \<and> last_line out \<noteq> [] then liftE (read_int (last_line out)) else ret 0) (\<lambda>seen.
       ret (Some (rc = 0 \<and> want \<le> seen))))))"

definition step_verify_gpu :: "env \<Rightarrow> unit cmd" where
  "step_verify_gpu E = run_probe E VERIFY_ACCESS ''gpu'' (check_gpu E)"

text \<open>The first answer with a banner, or the last one when the time is over.\<close>

fun endpoint_loop :: "env \<Rightarrow> string \<Rightarrow> int \<Rightarrow> int \<Rightarrow> nat \<Rightarrow> (bool \<times> string) cmd" where
  "endpoint_loop E host port deadline 0 = throw (raised OutOfFuel)"
| "endpoint_loop E host port deadline (Suc n) =
     bnd (tcp_check E host port) (\<lambda>r.
       if fst r \<and> snd r \<noteq> [] then ret r
       else bnd (now E) (\<lambda>t.
         if deadline \<le> t then ret r
         else thn (sleep 1000) (endpoint_loop E host port deadline n)))"

definition ssh_ports :: "port_info list \<Rightarrow> int list" where
  "ssh_ports ps = List.map_filter external_port (filter (\<lambda>p. usage_purpose p = ''ssh'') ps)"

definition check_endpoint :: "env \<Rightarrow> bool option cmd" where
  "check_endpoint E = bnd (getC (\<lambda>c. (c_access_blocked c, c_allocated_ports c))) (\<lambda>(blocked, ports).
     if blocked then ret None
     else bnd (needC c_node) (\<lambda>node. bnd (get_farm_node_info E node) (\<lambda>host. case ssh_ports ports of
       [] \<Rightarrow> ret (Some False)
     | p # _ \<Rightarrow> bnd (now E) (\<lambda>t.
         bnd (endpoint_loop E host p (t + cfg_endpoint_wait E) (cfg_fuel E)) (\<lambda>(ok, banner).
         ret (Some (ok \<and> starts_with ''SSH-'' banner)))))))"

definition step_verify_endpoint :: "env \<Rightarrow> unit cmd" where
  "step_verify_endpoint E = run_probe E VERIFY_ACCESS ''endpoint'' (check_endpoint E)"

section \<open>The tests of a revocation\<close>

definition step_capture_access_targets :: "env \<Rightarrow> unit cmd" where
  "step_capture_access_targets E = bnd (getC (\<lambda>c. (c_pod_name c, c_node_name c))) (\<lambda>(pod, node_name).
     if \<not> some_text pod then ret ()
     else thn (app_stmt E)
         (bnd (app_select E (\<lambda>_ t. rows_of (case pod of None \<Rightarrow> [] | Some p \<Rightarrow> p) t)) (\<lambda>rows.
          modC (\<lambda>c. c\<lparr>c_verify_ports := map np_port rows,
            c_verify_node := (case rows of [] \<Rightarrow> node_name | r # _ \<Rightarrow> Some (np_node r))\<rparr>))))"

definition ports_held_by_others :: "env \<Rightarrow> int list \<Rightarrow> string \<Rightarrow> int list cmd" where
  "ports_held_by_others E ports pod = (if ports = [] then ret []
     else app_select E (\<lambda>_ t. map np_port (filter (\<lambda>r. np_pod r \<noteq> pod \<and> np_port r \<in> set ports) t)))"

definition gone_unless_read :: "'a cmd \<Rightarrow> bool cmd" where
  "gone_unless_read m = bnd (attempt m) (\<lambda>r. case r of
     Inr _ \<Rightarrow> ret False
   | Inl e \<Rightarrow> if is_api_status 404 e then ret True else throw e)"

text \<open>The old ports are closed, which only a live path can show.\<close>

definition ports_closed :: "env \<Rightarrow> string \<Rightarrow> int list \<Rightarrow> bool cmd" where
  "ports_closed E host ports =
     bnd (tcp_check E host (cfg_node_port E host)) (\<lambda>(path_ok, why).
       if \<not> path_ok then ret False
       else bnd (mapM ports (\<lambda>p. bnd (tcp_check E host p) (\<lambda>r. ret (fst r)))) (\<lambda>opened. ret (True \<notin> set opened)))"

text \<open>The part about the old ports: those that another Pod holds by now are left out.\<close>

definition old_ports_closed :: "env \<Rightarrow> string \<Rightarrow> bool cmd" where
  "old_ports_closed E pod =
     bnd (getC (\<lambda>c. (c_verify_ports c, c_verify_node c, c_node_name c))) (\<lambda>(verify_ports, verify_node, node_name).
     bnd (ports_held_by_others E verify_ports pod) (\<lambda>reassigned.
     let ports = filter (\<lambda>p. p \<notin> set reassigned) verify_ports;
         node = (if some_text verify_node then verify_node else node_name)
     in if ports \<noteq> [] \<and> some_text node
        then bnd (get_farm_node_info E (case node of None \<Rightarrow> [] | Some n \<Rightarrow> n)) (\<lambda>host.
             ports_closed E host ports)
        else ret True))"

definition check_revoked :: "env \<Rightarrow> bool option cmd" where
  "check_revoked E = bnd (needC c_pod_name) (\<lambda>pod.
     thn (load_k8s E)
    (bnd (gone_unless_read (ext (EvReadPod pod) (x_read_pod E pod))) (\<lambda>pod_absent.
     bnd (list_pod_services E pod) (\<lambda>vs.
     thn (app_stmt E)
    (bnd (app_select E (\<lambda>_ t. length (rows_of pod t))) (\<lambda>db_rows.
     bnd (old_ports_closed E pod) (\<lambda>blocked.
     ret (Some (pod_absent \<and> vs = [] \<and> db_rows = 0 \<and> blocked)))))))))"

definition step_verify_revoked :: "env \<Rightarrow> unit cmd" where
  "step_verify_revoked E = run_probe E VERIFY_REVOKED ''revoked'' (check_revoked E)"

definition check_account_revoked :: "env \<Rightarrow> bool option cmd" where
  "check_account_revoked E = bnd (getC c_username) (\<lambda>user.
     bnd (read_passwd_lines E) (\<lambda>ls.
     thn (load_k8s E)
    (bnd (gone_unless_read (ext (EvReadSecret (keytab_secret user)) (x_read_secret E (keytab_secret user))))
       (\<lambda>secret_absent.
     ret (Some (\<not> list_ex (\<lambda>l. hd (split_on (CHR '':'') l) = user) ls \<and> secret_absent))))))"

definition step_verify_account_revoked :: "env \<Rightarrow> unit cmd" where
  "step_verify_account_revoked E = run_probe E VERIFY_REVOKED ''account_revoked'' (check_account_revoked E)"

end
