(* ===== verification/Migrate.thy ===== *)
theory Migrate
  imports Jobs Pods Node_Image
begin

text \<open>
  Moving a Pod to another node, or making it again on its own (\<open>lifecycle_steps/migrate.py\<close>): the steps a
  migration has besides those of a creation.
\<close>

section \<open>Choosing the target\<close>

definition log_select :: "env \<Rightarrow> phase \<Rightarrow> string option \<Rightarrow> string option \<Rightarrow> unit cmd" where
  "log_select E ph node err =
     bnd (getC (\<lambda>c. (c_request c, c_username c, c_old_pod_name c))) (\<lambda>(req, user, old).
       log_pod E req user old node None SELECT_NODE ph err)"

definition fail_select :: "env \<Rightarrow> int \<Rightarrow> string \<Rightarrow> 'a cmd" where
  "fail_select E status code =
     bnd (getC c_request) (\<lambda>req.
     thn (set_pod_creation_status E req ''failed'')
    (thn (log_select E FAIL None (Some code))
         (throw (infra_failed ''MIGRATE_SELECT_NODE'' code status None))))"

definition skip_migration :: "env \<Rightarrow> string \<Rightarrow> unit cmd" where
  "skip_migration E why =
     thn (modC (\<lambda>c. c\<lparr>c_skipped := True, c_skip_reason := Some why\<rparr>))
    (bnd (getC (\<lambda>c. (c_request c, c_from_node c))) (\<lambda>(req, from_node).
     thn (log_select E SUCCESS from_node None)
         (set_pod_creation_status E req ''ready'')))"

definition resolve_node :: "env \<Rightarrow> string \<Rightarrow> string cmd" where
  "resolve_node E name = bnd (resolve_k8s_node_name E (Some name)) (\<lambda>r. case r of
     None \<Rightarrow> fail_select E 400 ''UNKNOWN_NODE''
   | Some n \<Rightarrow> if n = [] then fail_select E 400 ''UNKNOWN_NODE'' else ret n)"

text \<open>The Pod to move: the one the request names, or the running one of the user.\<close>

definition pod_to_move :: "env \<Rightarrow> string cmd" where
  "pod_to_move E = bnd (getC (\<lambda>c. (c_username c, c_old_pod_name c))) (\<lambda>(user, old).
     bnd (if some_text old then ret old else get_existing_pod E user) (\<lambda>r. case r of
       None \<Rightarrow> fail_select E 404 ''POD_NOT_FOUND''
     | Some p \<Rightarrow> if p = [] then fail_select E 404 ''POD_NOT_FOUND'' else ret p))"

definition read_old_pod :: "env \<Rightarrow> string \<Rightarrow> pod_view cmd" where
  "read_old_pod E old =
     tryE (ext (EvReadPod old) (x_read_pod E old)) (\<lambda>e.
       if is_api_status 404 e
       then thn (modC (\<lambda>c. c\<lparr>c_old_pod_name := Some old\<rparr>)) (fail_select E 404 ''POD_NOT_FOUND'')
       else throw e)"

text \<open>The scores by node, as a dict: a node that occurs twice is asked twice and keeps its first place.\<close>

definition candidate_scores :: "env \<Rightarrow> string list \<Rightarrow> (string \<times> int option) list cmd" where
  "candidate_scores E nodes =
     foldM (\<lambda>n acc. bnd (node_gpu_score E n) (\<lambda>v. ret (AList.update n v acc))) nodes []"

text \<open>\<open>min(scores.items(), key=\<dots>)\<close>: the first of the least.\<close>

fun least_busy :: "string \<times> int option \<Rightarrow> (string \<times> int option) list \<Rightarrow> string \<times> int option" where
  "least_busy b [] = b"
| "least_busy b (x # xs) = least_busy (if less_score (snd x) (snd b) then x else b) xs"

text \<open>\<open>best_score > current_score * (1 - min_ratio)\<close> in thousandths (scores and ratio are floats in the code);
  nothing is greater than an infinite score, also not after scaling it.\<close>

definition too_little_gain :: "int option \<Rightarrow> int option \<Rightarrow> int \<Rightarrow> bool" where
  "too_little_gain best current ratio = (case current of
     None \<Rightarrow> False
   | Some c \<Rightarrow> (case best of None \<Rightarrow> True | Some b \<Rightarrow> c * (1000 - ratio) < 1000 * b))"

definition choose_target :: "env \<Rightarrow> string \<Rightarrow> string list \<Rightarrow> unit cmd" where
  "choose_target E current candidates =
     bnd (node_gpu_score E current) (\<lambda>current_score.
     bnd (candidate_scores E candidates) (\<lambda>scores.
     bnd (getC (\<lambda>c. (c_force c, c_min_ratio c))) (\<lambda>(force, ratio). case scores of
       [] \<Rightarrow> throw (raised ValueError)
     | x # xs \<Rightarrow> (case least_busy x xs of (best, best_score) \<Rightarrow>
         if \<not> force \<and> too_little_gain best_score current_score ratio
         then skip_migration E ''no_significant_improvement''
         else thn (modC (\<lambda>c. c\<lparr>c_node := Some best\<rparr>)) (log_select E SUCCESS (Some best) None)))))"

definition step_migrate_select_target :: "env \<Rightarrow> unit cmd" where
  "step_migrate_select_target E =
     bnd (getC (\<lambda>c. (c_request c, c_nodes c))) (\<lambda>(req, names).
     thn (set_pod_creation_status E req ''selecting_node'')
    (thn (log_select E START None None)
    (bnd (mapM names (resolve_node E)) (\<lambda>nodes.
     bnd (pod_to_move E) (\<lambda>old.
     thn (load_k8s E)
    (bnd (read_old_pod E old) (\<lambda>pod. let current = node_of pod in
     thn (modC (\<lambda>c. c\<lparr>c_old_pod_name := Some old, c_from_node := current\<rparr>))
    (bnd (getC c_recreate) (\<lambda>recreate.
       if recreate
       then thn (modC (\<lambda>c. c\<lparr>c_node := current\<rparr>)) (log_select E SUCCESS current None)
       else (case current of
           None \<Rightarrow> fail_select E 400 ''CURRENT_NODE_NOT_IN_CANDIDATES''
         | Some n \<Rightarrow>
             if n \<notin> set nodes then fail_select E 400 ''CURRENT_NODE_NOT_IN_CANDIDATES''
             else (let candidates = filter (\<lambda>m. m \<noteq> n) nodes in
               if candidates = [] then skip_migration E ''no_candidate_node''
               else choose_target E n candidates)))))))))))"

section \<open>The login password of the old Pod\<close>

definition inherit_failed :: "env \<Rightarrow> string \<Rightarrow> exn \<Rightarrow> 'a cmd" where
  "inherit_failed E old e =
     (if is_kind LoginPasswordMissing e
      then bnd (getC (\<lambda>c. (c_request c, c_username c))) (\<lambda>(req, user).
           thn (set_pod_creation_status E req ''failed'')
          (thn (log_pod E req user (Some old) None None CREATE_POD_K8S FAIL (Some ''LOGIN_PASSWORD_MISSING''))
               (throw (infra_failed ''MIGRATE'' ''LOGIN_PASSWORD_MISSING'' 422 None))))
      else throw e)"

definition step_migrate_inherit_password :: "env \<Rightarrow> unit cmd" where
  "step_migrate_inherit_password E =
     thn (load_k8s E)
    (bnd (needC c_old_pod_name) (\<lambda>old. bnd (needC c_user_info) (\<lambda>info.
     bnd (tryE (login_password_for_recreate E old (Some info)) (inherit_failed E old)) (\<lambda>hash.
       modC (\<lambda>c. c\<lparr>c_user_info := Some (info\<lparr>ui_passwd_hash := hash\<rparr>)\<rparr>)))))"

section \<open>Baking the changes of the container\<close>

definition shell_container :: "pod_view \<Rightarrow> container_status option" where
  "shell_container pod = find (\<lambda>s. cs_name s = ''shell'') (pv_statuses pod)"

definition log_image :: "env \<Rightarrow> phase \<Rightarrow> string option \<Rightarrow> unit cmd" where
  "log_image E ph err =
     bnd (getC (\<lambda>c. (c_request c, c_username c, c_old_pod_name c, c_from_node c))) (\<lambda>(req, user, old, node).
       log_pod E req user old node (Some ''image'') COMMIT_IMAGE ph err)"

definition commit_fail :: "env \<Rightarrow> string \<Rightarrow> 'a cmd" where
  "commit_fail E code =
     bnd (getC c_request) (\<lambda>req.
     thn (set_pod_creation_status E req ''failed'')
    (thn (log_image E FAIL (Some code))
         (throw (step_failed (Some ''MIGRATE_COMMIT_IMAGE'') code 422 None False None))))"

text \<open>A helper Pod without a node name (the empty one here) goes anywhere.\<close>

definition bake_image :: "env \<Rightarrow> string \<Rightarrow> string \<Rightarrow> unit cmd" where
  "bake_image E old ref =
     thn (load_k8s E)
    (bnd (ext (EvReadPod old) (x_read_pod E old)) (\<lambda>pod.
     bnd (getC c_from_node) (\<lambda>from_node. let node = (case from_node of None \<Rightarrow> [] | Some n \<Rightarrow> n) in
     case shell_container pod of
       None \<Rightarrow> commit_fail E ''IMAGE_COMMIT_NO_CONTAINER''
     | Some st \<Rightarrow>
         if \<not> some_text (cs_id st) then commit_fail E ''IMAGE_COMMIT_NO_CONTAINER''
         else bnd (tryE (commit_image E node (cs_id st) ref (cs_running st))
                    (\<lambda>e. case image_code e of None \<Rightarrow> throw e | Some code \<Rightarrow> commit_fail E code)) (\<lambda>added.
           if cfg_max_added E < added
           then thn (remove_node_image_quietly E node ref) (commit_fail E ''IMAGE_CHANGES_TOO_LARGE'')
           else thn (modC (\<lambda>c. c\<lparr>c_committed_image := Some ref\<rparr>)) (log_image E SUCCESS None)))))"

definition step_migrate_commit_image :: "env \<Rightarrow> unit cmd" where
  "step_migrate_commit_image E =
     bnd (getC (\<lambda>c. c_recreate c \<and> c_keep_changes c)) (\<lambda>wanted.
       if \<not> wanted then ret ()
       else bnd (needC c_pod_name) (\<lambda>pod. bnd (needC c_old_pod_name) (\<lambda>old.
         let ref = ref_for (cfg_namespace E) pod in
         bnd (getC c_request) (\<lambda>req.
         thn (set_pod_creation_status E req ''committing_image'')
        (thn (log_image E START None)
             (bake_image E old ref))))))"

section \<open>Clearing away the old Pod\<close>

text \<open>\<open>_old_pod_image\<close>; a Pod has at least one container.\<close>

definition old_pod_image :: "env \<Rightarrow> string \<Rightarrow> string option cmd" where
  "old_pod_image E old =
     tryE (bnd (ext (EvReadPod old) (x_read_pod E old)) (\<lambda>p. ret (case pv_images p of [] \<Rightarrow> None | i # _ \<Rightarrow> Some i)))
          (\<lambda>e. if is_api_status 404 e then ret None else throw e)"

text \<open>A step that is called with a context of its own.\<close>

definition in_ctx :: "ctx \<Rightarrow> 'a cmd \<Rightarrow> 'a cmd" where
  "in_ctx c m = (\<lambda>s. case m (s\<lparr>cx := c\<rparr>) of (r, t) \<Rightarrow> (r, t\<lparr>cx := cx s\<rparr>))"

definition drop_old_image :: "env \<Rightarrow> string \<Rightarrow> string option \<Rightarrow> unit cmd" where
  "drop_old_image E old img =
     bnd (getC (\<lambda>c. (c_committed_image c, c_from_node c))) (\<lambda>(committed, from_node).
       if is_user_image img \<and> img \<noteq> committed
       then bnd (wait_for_pod_deleted E old) (\<lambda>_.
            remove_node_image_quietly E (case from_node of None \<Rightarrow> [] | Some n \<Rightarrow> n) (case img of None \<Rightarrow> [] | Some i \<Rightarrow> i))
       else ret ())"

definition clear_old_pod :: "env \<Rightarrow> string \<Rightarrow> unit cmd" where
  "clear_old_pod E old =
     thn (delete_nodeport_services E old)
    (thn (release_nodeports E old)
    (thn (load_k8s E)
    (bnd (old_pod_image E old) (\<lambda>img.
     thn (tryE (delete_pod_util E old) (\<lambda>e. if is_api_status 404 e then ret () else throw e))
    (thn (delete_account_secret E old)
    (thn (drop_old_image E old img)
    (bnd (getC (\<lambda>c. (c_username c, c_from_node c))) (\<lambda>(user, from_node).
       in_ctx ((blank_ctx [] user)\<lparr>c_pod_name := Some old, c_pod_node_name := from_node\<rparr>)
         (step_cleanup_pod_node_krb5 E)))))))))"

definition step_migrate_cleanup_old :: "env \<Rightarrow> unit cmd" where
  "step_migrate_cleanup_old E =
     bnd (needC c_old_pod_name) (\<lambda>old.
     bnd (getC (\<lambda>c. (c_request c, c_username c, c_from_node c))) (\<lambda>(req, user, node).
     let note = (\<lambda>ph err. log_pod E req user (Some old) node (Some ''pod'') DELETE_POD_K8S ph err) in
     thn (note START None)
    (bnd (attempt (clear_old_pod E old)) (\<lambda>r. thn (case r of
        Inl _ \<Rightarrow> thn (modC (\<lambda>c. c\<lparr>c_old_pod_cleanup := Some ''failed''\<rparr>)) (note FAIL (Some ''OLD_POD_CLEANUP_FAILED''))
      | Inr _ \<Rightarrow> note SUCCESS None)
      (set_pod_creation_status E req ''ready'')))))"

end
