(* ===== verification/Homes.thy ===== *)
theory Homes
  imports Jobs Shared_Groups
begin

text \<open>
  The homes of accounts that are no longer used (\<open>lifecycle_steps/home.py\<close>): deleting one for good, and
  making one again for an account that is used once more.
\<close>

section \<open>Deleting a home\<close>

text \<open>\<open>_refuse\<close>: the state forbids the deletion, and trying again does not change it.\<close>

definition refuse_home :: "string \<Rightarrow> 'a cmd" where
  "refuse_home code = throw (no_retry ''DELETE_HOME'' code 409)"

definition home_using_kinds :: "kind list" where
  "home_using_kinds = [Provision, Migrate]"

definition unfinished_scan_limit :: nat where
  "unfinished_scan_limit = 1000"

definition uses_home :: "string \<Rightarrow> kind \<times> string \<times> string \<times> int \<Rightarrow> bool" where
  "uses_home user j = (case j of (k, req, who, i) \<Rightarrow> who = user \<and> k \<in> set home_using_kinds)"

definition require_home_unused :: "env \<Rightarrow> string \<Rightarrow> unit cmd" where
  "require_home_unused E user =
     thn (load_k8s E) (bnd (list_user_pods E user) (\<lambda>pods.
       if pods \<noteq> [] then refuse_home ''HOME_IN_USE''
       else bnd (find_unfinished_jobs E unfinished_scan_limit) (\<lambda>unfinished.
         if unfinished_scan_limit \<le> length unfinished then refuse_home ''HOME_IN_USE''
         else if list_ex (uses_home user) unfinished then refuse_home ''HOME_IN_USE''
         else ret ())))"

definition delete_owned_home :: "env \<Rightarrow> string \<Rightarrow> string \<Rightarrow> unit cmd" where
  "delete_owned_home E req user =
     thn (log_step E req user ''home'' DELETE_HOME START None)
    (thn (tryE (delete_user_home_directory E user)
            (\<lambda>e. thn (log_step E req user ''home'' DELETE_HOME FAIL (Some ''HOME_DELETE_FAILED'')) (throw e)))
    (thn (log_step E req user ''home'' DELETE_HOME SUCCESS None)
         (modC (\<lambda>c. c\<lparr>c_home_deleted := True\<rparr>))))"

definition step_delete_expired_home :: "env \<Rightarrow> unit cmd" where
  "step_delete_expired_home E =
     bnd (getC (\<lambda>c. (c_request c, c_username c))) (\<lambda>(req, user). bnd (needC c_expected_uid) (\<lambda>expected.
     thn (require_home_unused E user)
    (bnd (user_home_owner_uid E user) (\<lambda>owner. case owner of
       None \<Rightarrow> bnd (home_root_is_reachable E) (\<lambda>ok.
         if \<not> ok then refuse_home ''HOME_ROOT_UNREACHABLE''
         else modC (\<lambda>c. c\<lparr>c_home_deleted := False\<rparr>))
     | Some u \<Rightarrow> if u \<noteq> expected then refuse_home ''HOME_OWNER_MISMATCH''
                 else delete_owned_home E req user))))"

section \<open>Making a home again\<close>

definition ledger_ids :: "env \<Rightarrow> string \<Rightarrow> (int \<times> int) option cmd" where
  "ledger_ids E user = bnd (read_passwd_lines E) (\<lambda>ls.
     ret (map_option (\<lambda>e. (pw_uid e, pw_gid e)) (find_named parse_passwd_line pw_name user ls)))"

text \<open>Whether there is a home; that the place of the homes cannot be seen is a failure.\<close>

definition home_is_there :: "env \<Rightarrow> string \<Rightarrow> bool cmd" where
  "home_is_there E user =
     bnd (user_home_owner_uid E user) (\<lambda>owner.
       if owner \<noteq> None then ret True
       else bnd (home_root_is_reachable E) (\<lambda>ok. if \<not> ok then throw (raised RuntimeError) else ret False))"

definition home_failed :: "env \<Rightarrow> string \<Rightarrow> string \<Rightarrow> exn \<Rightarrow> 'a cmd" where
  "home_failed E req user e =
     thn (log_step E req user ''storage'' CREATE_HOME (fail_phase e) (Some ''NAS_SSH_FAILED''))
         (throw (infra_failed ''CREATE_HOME_DIRECTORY'' ''NAS_SSH_FAILED'' 500 (Some e)))"

definition step_restore_missing_home :: "env \<Rightarrow> unit cmd" where
  "step_restore_missing_home E =
     bnd (getC (\<lambda>c. (c_request c, c_username c))) (\<lambda>(req, user).
     bnd (ledger_ids E user) (\<lambda>ids. case ids of
       None \<Rightarrow> ret ()
     | Some p \<Rightarrow>
         bnd (tryE (home_is_there E user) (home_failed E req user)) (\<lambda>there.
           if there then ret ()
           else thn (log_step E req user ''storage'' CREATE_HOME START None)
               (bnd (tryE (create_user_home_directory E user (fst p) (snd p)) (home_failed E req user)) (\<lambda>_.
                log_step E req user ''storage'' CREATE_HOME SUCCESS None)))))"

end
