(* ===== verification/Passwords.thy ===== *)
theory Passwords
  imports K8s
begin

text \<open>
  The job that changes a login password (\<open>lifecycle_steps/password.py\<close>, with the functions on the
  ledger in \<open>main.py\<close>): one step writes the same hash to \<open>shadow\<close>, to the account Secrets and to the
  running Pods, and takes the old hash back everywhere if one of them fails.
\<close>

text \<open>The first line of the user gets the hash and the day; the old hash and the new lines.\<close>

fun change_shadow :: "string \<Rightarrow> string \<Rightarrow> int \<Rightarrow> string list \<Rightarrow> exn + (string \<times> string list) option" where
  "change_shadow user hash day [] = Inr None"
| "change_shadow user hash day (l # ls) =
     (let rest = bindE (change_shadow user hash day ls) (\<lambda>x. Inr (map_option (\<lambda>(old, ks). (old, l # ks)) x)) in
      case parse_shadow_line l of
        None \<Rightarrow> rest
      | Some r \<Rightarrow> if sp_name r = user
          then bindE (format_shadow_entry (r\<lparr>sp_passwd := hash, sp_lastchg := Some day\<rparr>)) (\<lambda>k.
               Inr (Some (sp_passwd r, k # ls)))
          else rest)"

definition set_password_locked :: "env \<Rightarrow> string \<Rightarrow> string \<Rightarrow> string option cmd" where
  "set_password_locked E user hash =
     bnd (rd EvFile (x_file E) (\<lambda>s. splitlines (shadow_file (led s)))) (\<lambda>ls.
       if \<not> has_named parse_shadow_line sp_name user ls then ret None
       else bnd (today_days E) (\<lambda>day. bnd (liftE (change_shadow user hash day ls)) (\<lambda>c. case c of
         None \<Rightarrow> ret None
       | Some (old, ks) \<Rightarrow> thn (replace_file E ShadowF (join [NL] ks @ [NL])) (ret (Some old)))))"

definition set_ledger_password :: "env \<Rightarrow> string \<Rightarrow> string \<Rightarrow> string option cmd" where
  "set_ledger_password E user hash =
     thn (ensure_etc_layout E) (ledger_lock E (set_password_locked E user hash))"

definition report_bad :: "pods_report \<Rightarrow> bool" where
  "report_bad pods \<longleftrightarrow> pr_failed pods \<noteq> [] \<or> pr_error pods"

definition restore_password :: "env \<Rightarrow> string \<Rightarrow> string \<Rightarrow> bool cmd" where
  "restore_password E user old =
     tryE (thn (set_ledger_password E user old)
             (if \<not> sha512_crypt old then ret False
              else thn (update_account_secrets E user old)
                (bnd (sync_running_pod_password E user old) (\<lambda>pods. ret (\<not> report_bad pods)))))
          (\<lambda>_. ret False)"

text \<open>\<open>_fail\<close>: what was taken back is not tried again.\<close>

definition password_fail :: "env \<Rightarrow> string \<Rightarrow> string \<Rightarrow> string \<Rightarrow> string \<Rightarrow> exn option \<Rightarrow> 'a cmd" where
  "password_fail E user hash old code c =
     bnd (if old \<noteq> hash then restore_password E user old else ret False) (\<lambda>rolled.
       throw (step_failed (Some ''CHANGE_PASSWORD'') code 500 (if rolled then None else c) (\<not> rolled) None))"

definition step_change_login_password :: "env \<Rightarrow> unit cmd" where
  "step_change_login_password E =
     bnd (getC (\<lambda>c. (c_username c, c_passwd_hash c))) (\<lambda>(user, hash).
     bnd (set_ledger_password E user hash) (\<lambda>old. case old of
       None \<Rightarrow> throw (infra_failed ''CHANGE_PASSWORD'' ''USER_NOT_FOUND'' 404 None)
     | Some old_hash \<Rightarrow>
         bnd (tryE (update_account_secrets E user hash)
                (\<lambda>e. password_fail E user hash old_hash ''SECRET_UPDATE_FAILED'' (Some e))) (\<lambda>secrets.
         bnd (sync_running_pod_password E user hash) (\<lambda>pods.
         thn (whenE (report_bad pods) (password_fail E user hash old_hash ''POD_PASSWORD_SYNC_FAILED'' None))
             (modC (\<lambda>c. c\<lparr>c_password_secrets := secrets, c_password_pods := Some pods\<rparr>))))))"

end
