(* ===== verification/Step_Table.thy ===== *)
theory Step_Table
  imports Job_Facts Verify Migrate Port_Change Homes Passwords Access
begin

text \<open>
  The functions behind the names of the steps, and what all of them have in common: a step appends to the
  operation log and leaves the stored inputs of jobs alone.
\<close>

section \<open>The steps\<close>

fun step_exec :: "env \<Rightarrow> unit cmd option \<Rightarrow> step \<Rightarrow> unit cmd" where
  "step_exec E c FetchUserConfig = step_fetch_user_config E"
| "step_exec E c PreparePod = step_prepare_pod E"
| "step_exec E c SelectNode = step_select_node E"
| "step_exec E c BuildPodSpec = step_build_pod_spec E"
| "step_exec E c CreatePodK8s = step_create_pod_k8s E"
| "step_exec E c WaitReady = step_wait_ready E"
| "step_exec E c CreateServices = step_create_services E"
| "step_exec E c CreateAccount = step_create_account E c"
| "step_exec E c CreateHome = step_create_home E"
| "step_exec E c CreateKrb5Principal = step_create_krb5_principal E"
| "step_exec E c AwaitAdReplication = step_await_ad_replication E"
| "step_exec E c AddUserGroups = step_add_user_groups E"
| "step_exec E c SyncAdGroups = step_sync_ad_groups E"
| "step_exec E c TriggerNasGssFlush = step_trigger_nas_gss_flush E"
| "step_exec E c DeleteServices = step_delete_services E"
| "step_exec E c ReleaseNodeports = step_release_nodeports E"
| "step_exec E c DeletePodK8s = step_delete_pod_k8s E"
| "step_exec E c CleanupPodNodeKrb5 = step_cleanup_pod_node_krb5 E"
| "step_exec E c RemoveNodeImage = step_remove_node_image E"
| "step_exec E c CheckAccountRevocable = step_check_account_revocable E"
| "step_exec E c DeleteAccount = step_delete_account E"
| "step_exec E c RemoveKrb5 = step_remove_krb5 E"
| "step_exec E c MigrateSelectTarget = step_migrate_select_target E"
| "step_exec E c MigrateInheritPassword = step_migrate_inherit_password E"
| "step_exec E c MigrateCommitImage = step_migrate_commit_image E"
| "step_exec E c MigrateCleanupOld = step_migrate_cleanup_old E"
| "step_exec E c ChangeLoginPassword = step_change_login_password E"
| "step_exec E c DeleteExpiredHome = step_delete_expired_home E"
| "step_exec E c RestoreMissingHome = step_restore_missing_home E"
| "step_exec E c GroupCreate = step_group_create E"
| "step_exec E c GroupAddMember = step_group_add_member E"
| "step_exec E c GroupRemoveMember = step_group_remove_member E"
| "step_exec E c ResolveNewGroups = step_resolve_new_groups E"
| "step_exec E c ChangePorts = step_change_ports E"
| "step_exec E c SetAccountAccess = step_set_account_access E"
| "step_exec E c VerifyUid = step_verify_uid E"
| "step_exec E c VerifyHomeIo = step_verify_home_io E"
| "step_exec E c VerifyKrb5 = step_verify_krb5 E"
| "step_exec E c VerifyGpu = step_verify_gpu E"
| "step_exec E c VerifyEndpoint = step_verify_endpoint E"
| "step_exec E c CaptureAccessTargets = step_capture_access_targets E"
| "step_exec E c VerifyRevoked = step_verify_revoked E"
| "step_exec E c VerifyAccountRevoked = step_verify_account_revoked E"

section \<open>Every step appends\<close>

definition appends :: "st \<Rightarrow> st \<Rightarrow> bool" where
  "appends s t \<longleftrightarrow> (\<exists>new. oplog t = oplog s @ new) \<and> job_inputs t = job_inputs s"

interpretation app: row_progress appends
  by unfold_locales (auto simp: appends_def)

text \<open>The operations on the other tables and files.\<close>

lemma appends_tables [moves_intros]: "moves appends (app_stmt E)" "moves appends (app_select E f)"
  "moves appends (app_commit E g)" "moves appends (flush_lock_call E h)"
  by (auto simp: moves_def appends_def app_stmt_def app_select_def app_commit_def flush_lock_call_def io_def Let_def
      split: io_reply.split)

lemma appends_issued [moves_intros]: "moves appends (read_issued_id_record E)" "moves appends (record_issued_id E k i)"
  "moves appends (ensure_sudoers_file E name policy)" "moves appends (load_k8s E)" "moves appends (list_pod_services E pod)"
  "moves appends (save_image_metadata E)"
proof -
  have c: "moves appends (case i of IssuedAbsent \<Rightarrow> ret (\<lambda>_. None)
      | IssuedCorrupt \<Rightarrow> throw (raised IssuedIdRecordCorrupt) | Issued x \<Rightarrow> ret x)" for i
    by (cases i) (simp_all add: app.basic)
  show r: "moves appends (read_issued_id_record E)"
    unfolding read_issued_id_record_def by (intro moves_intros c)
  show "moves appends (record_issued_id E k i)" "moves appends (ensure_sudoers_file E name policy)"
    "moves appends (load_k8s E)" "moves appends (list_pod_services E pod)" "moves appends (save_image_metadata E)"
    unfolding record_issued_id_def ensure_sudoers_file_def load_k8s_def list_pod_services_def save_image_metadata_def
      ensure_etc_layout_def ensure_seeded_file_def
    by (intro moves_intros app.writes r; simp)+
qed

text \<open>The waiting loops.\<close>

lemma appends_loops [moves_intros]: "moves appends (identity_loop E node user uid d n)" "moves appends (endpoint_loop E h p d n)"
proof (induction n)
  case (Suc n)
  { case 1 show ?case unfolding identity_loop.simps now_def sleep_def by (intro moves_intros Suc(1)) }
  { case 2 show ?case unfolding endpoint_loop.simps tcp_check_def now_def sleep_def by (intro moves_intros Suc(2)) }
qed (simp_all add: app.basic)

lemma appends_show [moves_intros]: "moves appends (show_progress E L a l)" "moves appends (close_sub E L a ph e)"
  unfolding show_progress_def close_sub_def log_sub_def log_pod_def pod_progress_stage_def set_pod_creation_status_def
    summarize_pod_start_events_def Let_def
  by (intro moves_intros app.mods app.writes; simp)+

lemma appends_ready [moves_intros]: "moves appends (ready_loop E L n i a l)"
proof (induction n arbitrary: i a l)
  case (Suc n)
  then show ?case unfolding ready_loop.simps sleep_def by (intro moves_intros)
qed (simp add: app.basic)

lemma appends_in_ctx [moves_intros]:
  assumes "moves appends m"
  shows "moves appends (in_ctx c m)"
proof (rule movesI)
  fix s r t assume r: "in_ctx c m s = (r, t)"
  obtain u where u: "m (s\<lparr>cx := c\<rparr>) = (r, u)" "t = u\<lparr>cx := cx s\<rparr>"
    using r by (auto simp: in_ctx_def split: prod.splits)
  with movesD[OF assms u(1)] show "appends s t" by (simp add: appends_def)
qed

section \<open>All of them\<close>

lemma appends_account [moves_intros]: "moves appends (create_user_home_directory E a1 a2 a3)"
  "moves appends (delete_user_home_directory E a4)" "moves appends (create_ad_group E a5 a6)"
  "moves appends (add_ad_group_member E a7 a8)" "moves appends (step_create_home E)"
  "moves appends (step_create_krb5_principal E)" "moves appends (step_await_ad_replication E)"
  "moves appends (step_add_user_groups E)" "moves appends (step_sync_ad_groups E)"
  unfolding create_user_home_directory_def nas_session_def ssh_run_def ssh_exec_def home_owner_uid_def
    ssh_capture_def delete_user_home_directory_def create_ad_group_def add_ad_group_member_def
    step_create_home_def step_create_krb5_principal_def create_krb5_principal_and_secret_def
    delete_home_if_created_def step_await_ad_replication_def await_ad_replicated_def step_add_user_groups_def
    add_supp_groups_locked_def add_supp_group_def step_sync_ad_groups_def Let_def
  by (intro moves_intros app.mods app.writes; simp)+

lemma appends_ports [moves_intros]: "moves appends (allocate_nodeports E a9 a10 a11 a12)"
  "moves appends (create_nodeport_services E a13 a14 a15 a16 a17)"
  unfolding allocate_nodeports_def reconcile_nodeport_allocations_def now_def wall_clock_def
    reconcile_transaction_def delete_stale_def allocate_transaction_def commit_locked_def
    cluster_reserved_nodeports_def insert_port_def create_nodeport_services_def nodeport_service_body_def
    Let_def
  by (intro moves_intros app.mods app.writes; simp)+

lemma appends_pods [moves_intros]: "moves appends (cleanup_create_failure E a18 a19 a20)"
  "moves appends (own_account_secret E a21 a22)" "moves appends (select_best_node E a23)"
  "moves appends (resolve_k8s_node_name E a24)" "moves appends (step_fetch_user_config E)"
  "moves appends (step_prepare_pod E)" "moves appends (step_select_node E)"
  "moves appends (step_build_pod_spec E)" "moves appends (step_create_pod_k8s E)"
  "moves appends (step_wait_ready E)" "moves appends (step_create_services E)"
  unfolding cleanup_create_failure_def delete_account_secret_def succeeded_def pod_log_tail_def
    delete_created_pod_def own_account_secret_def select_best_node_def better_node_def node_gpu_score_def
    resolve_k8s_node_name_def step_fetch_user_config_def log_pod_def fill_new_group_gids_def config_failed_def
    checked_config_def step_prepare_pod_def generate_pod_name_def check_pod_absent_def ready_worker_nodes_def
    step_select_node_def set_pod_creation_status_def step_build_pod_spec_def build_pod_spec_def
    ensure_etc_layout_def ensure_seeded_file_def load_user_image_def ledger_identity_def allocate_for_spec_def
    log_spec_def spec_body_def build_user_groups_env_def resolve_visible_gpus_def list_node_gpus_def
    deploy_for_spec_def deploy_krb5_to_farm_def get_farm_node_info_def clear_krb5_cleanup_pending_def
    wait_node_identity_def now_def spec_or_release_def step_create_pod_k8s_def login_password_hash_def
    hash_login_password_def create_pod_failed_def password_missing_def submit_pod_def ensure_account_secret_def
    step_wait_ready_def need_v1_def wait_pod_def log_sub_def wait_outcome_def summarize_pod_start_events_def
    wait_failed_def close_sub_def wait_check_failed_def step_create_services_def create_services_failed_def
    Let_def
  by (intro moves_intros app.mods app.writes; simp)+

lemma appends_revoke [moves_intros]: "moves appends (remove_node_image_quietly E a25 a26)"
  "moves appends (list_user_pods E a27)" "moves appends (step_delete_services E)"
  "moves appends (step_release_nodeports E)" "moves appends (step_delete_pod_k8s E)"
  "moves appends (step_remove_node_image E)" "moves appends (step_cleanup_pod_node_krb5 E)"
  "moves appends (step_check_account_revocable E)" "moves appends (step_delete_account E)"
  "moves appends (step_remove_krb5 E)"
  unfolding remove_node_image_quietly_def remove_image_def run_helper_def list_user_pods_def
    step_delete_services_def log_on_def log_pod_def step_release_nodeports_def step_delete_pod_k8s_def
    delete_account_secret_def look_up_pod_def delete_failed_def await_deletion_def wait_for_pod_deleted_def
    step_remove_node_image_def step_cleanup_pod_node_krb5_def step_check_account_revocable_def
    step_delete_account_def log_delete_account_def delete_account_locked_def delete_absent_account_def
    remove_account_leftovers_def account_deletion_evidence_def step_remove_krb5_def log_krb5_removal_def
    remove_node_keytab_def Let_def
  by (intro moves_intros app.mods app.writes; simp)+

lemma appends_groups [moves_intros]: "moves appends (flush_nas_group_cache E)"
  "moves appends (register_idmap_groups E a28)" "moves appends (exec_on_running_pods E a29 a30 a31 a32)"
  "moves appends (step_trigger_nas_gss_flush E)" "moves appends (step_resolve_new_groups E)"
  "moves appends (step_group_create E)" "moves appends (step_group_add_member E)"
  "moves appends (step_group_remove_member E)"
  unfolding flush_nas_group_cache_def trigger_nas_gss_flush_ondemand_def try_acquire_flush_lock_def
    release_flush_lock_def start_thread_def register_idmap_groups_def trigger_idmap_sync_ondemand_def
    exec_on_running_pods_def exec_on_pod_def exec_in_pod_def step_trigger_nas_gss_flush_def
    step_resolve_new_groups_def resolve_group_def check_create_def ledger_users_def refuse_def
    shared_group_gid_def ensure_etc_layout_def ensure_seeded_file_def shared_group_locked_def
    issue_shared_gid_def read_issued_id_max_def record_shared_gid_def group_file_lines_def write_group_file_def
    step_group_create_def write_group_line_def write_group_locked_def gid_of_line_def step_group_add_member_def
    sync_running_pod_groups_def ledger_groups_def check_add_def set_group_membership_def
    set_membership_locked_def step_group_remove_member_def remove_ad_group_member_def
    remove_running_pod_groups_def check_remove_def Let_def
  by (intro moves_intros app.mods app.writes; simp)+

lemma appends_others [moves_intros]: "moves appends (step_change_login_password E)"
  "moves appends (step_delete_expired_home E)" "moves appends (step_restore_missing_home E)"
  "moves appends (step_set_account_access E)" "moves appends (step_change_ports E)"
  unfolding step_change_login_password_def sync_running_pod_password_def update_account_secrets_def
    update_one_secret_def set_ledger_password_def ensure_etc_layout_def ensure_seeded_file_def
    set_password_locked_def today_days_def password_fail_def restore_password_def step_delete_expired_home_def
    user_home_owner_uid_def nas_session_def home_owner_uid_def ssh_capture_def ssh_exec_def
    home_root_is_reachable_def refuse_home_def require_home_unused_def find_unfinished_jobs_def
    delete_owned_home_def step_restore_missing_home_def ledger_ids_def home_is_there_def home_failed_def
    step_set_account_access_def change_access_def list_user_services_def set_service_access_def
    step_change_ports_def change_ports_def allocations_def read_live_pod_def change_rows_def remove_ports_def
    release_internal_def add_ports_def fill_services_def Let_def
  by (intro moves_intros app.mods app.writes; simp)+

lemma appends_migrate [moves_intros]: "moves appends (step_migrate_select_target E)"
  "moves appends (step_migrate_inherit_password E)" "moves appends (step_migrate_commit_image E)"
  "moves appends (step_migrate_cleanup_old E)"
  unfolding step_migrate_select_target_def set_pod_creation_status_def log_select_def log_pod_def
    fail_select_def skip_migration_def resolve_node_def pod_to_move_def get_existing_pod_def read_old_pod_def
    choose_target_def node_gpu_score_def candidate_scores_def step_migrate_inherit_password_def
    login_password_for_recreate_def hash_login_password_def login_password_hash_def inherit_failed_def
    step_migrate_commit_image_def log_image_def bake_image_def commit_image_def run_helper_def thaw_or_raise_def
    commit_fail_def step_migrate_cleanup_old_def clear_old_pod_def delete_pod_util_def delete_account_secret_def
    old_pod_image_def drop_old_image_def wait_for_pod_deleted_def Let_def
  by (intro moves_intros app.mods app.writes; simp)+

lemma appends_verify [moves_intros]: "moves appends (step_verify_uid E)" "moves appends (step_verify_home_io E)"
  "moves appends (step_verify_krb5 E)" "moves appends (step_verify_gpu E)"
  "moves appends (step_verify_endpoint E)" "moves appends (step_capture_access_targets E)"
  "moves appends (step_verify_revoked E)" "moves appends (step_verify_account_revoked E)"
  unfolding step_verify_uid_def run_probe_def set_pod_creation_status_def log_probe_def log_pod_def
    check_uid_def sh_def exec_in_pod_def account_uid_def step_verify_home_io_def check_home_io_def
    step_verify_krb5_def check_krb5_def step_verify_gpu_def check_gpu_def step_verify_endpoint_def
    check_endpoint_def get_farm_node_info_def now_def step_capture_access_targets_def step_verify_revoked_def
    check_revoked_def gone_unless_read_def old_ports_closed_def ports_held_by_others_def ports_closed_def
    tcp_check_def step_verify_account_revoked_def check_account_revoked_def Let_def
  by (intro moves_intros app.writes; simp)+

text \<open>The account step saves its progress half way.\<close>

lemma appends_create_account:
  assumes "\<And>k. c = Some k \<Longrightarrow> moves appends k"
  shows "moves appends (step_create_account E c)"
proof -
  have "moves appends (write_marker E c uid)" for uid
    using assms by (cases c) (auto simp: write_marker_def app.basic intro!: moves_intros)
  then show ?thesis
    unfolding step_create_account_def ensure_etc_layout_def ensure_seeded_file_def returning_owner_uid_def user_home_owner_uid_def nas_session_def home_owner_uid_def ssh_capture_def ssh_exec_def other_homes_owned_by_def create_passwd_locked_def choose_uid_def read_issued_id_max_def reclaim_uid_def create_group_locked_def add_supp_groups_locked_def add_supp_group_def create_shadow_def today_days_def or_rollback_def
    by (intro moves_intros app.writes; simp)
qed

lemma appends_step:
  assumes "\<And>k. c = Some k \<Longrightarrow> moves appends k"
  shows "moves appends (step_exec E c stp)"
  using appends_create_account[OF assms] by (cases stp) (auto intro!: moves_intros)

lemma appends_exec: "moves appends (step_exec E (checkpoint E J d) stp)"
  by (rule appends_step) (auto simp: checkpoint_def app.saving split: if_splits)

end
