(* ===== verification/Controller.thy ===== *)
theory Controller
  imports Step_Table
begin

text \<open>
  The controller process (\<open>entrypoints/controller.py\<close>): it looks unfinished jobs up, runs a bounded number
  of them at a time and renews their leases.

  The main loop and the workers share the dictionary \<open>running\<close>; each access holds the lock.  The step
  relation interleaves them at these accesses; the run of a job is one step, at the point where it is over
  and leaves the dictionary.
\<close>

section \<open>The dictionary of running jobs\<close>

type_synonym found = "kind \<times> string \<times> string \<times> int"
type_synonym slot = "(kind \<times> string) \<times> int"

definition found_key :: "found \<Rightarrow> kind \<times> string" where
  "found_key j = (case j of (k, key, user, i) \<Rightarrow> (k, key))"

definition found_slot :: "found \<Rightarrow> slot" where
  "found_slot j = (case j of (k, key, user, i) \<Rightarrow> ((k, key), i))"

text \<open>One job of the list: taken unless it runs already or every worker is busy.\<close>

definition admit :: "nat \<Rightarrow> found \<Rightarrow> slot list \<Rightarrow> slot list" where
  "admit workers j run =
     (if found_key j \<in> fst ` set run \<or> workers \<le> length run then run else run @ [found_slot j])"

definition finished :: "kind \<times> string \<Rightarrow> slot list \<Rightarrow> slot list" where
  "finished key run = filter (\<lambda>x. fst x \<noteq> key) run"

section \<open>The operations\<close>

definition unfinished_limit :: nat where
  "unfinished_limit = 100"

definition look_up_jobs :: "env \<Rightarrow> found list cmd" where
  "look_up_jobs E = tryE (find_unfinished_jobs E unfinished_limit) (\<lambda>_. ret [])"

definition renew_held :: "env \<Rightarrow> slot list \<Rightarrow> unit cmd" where
  "renew_held E run = (if run = [] then ret () else tryE (bnd (renew E (map snd run)) (\<lambda>_. ret ())) (\<lambda>_. ret ()))"

text \<open>\<open>_run\<close>: a job that crashes is only logged.\<close>

definition run_found :: "env \<Rightarrow> found \<Rightarrow> unit cmd" where
  "run_found E j = (case j of (k, key, user, i) \<Rightarrow>
     tryE (run_job E (step_exec E) \<lparr>ji_kind = k, ji_request = key, ji_user = user, ji_job = Some i\<rparr>) (\<lambda>_. ret ()))"

section \<open>The process\<close>

text \<open>Where the main loop is.\<close>

datatype place = LookingUp | Admitting "found list" | Renewing | Stopped

record ctl =
  ct_place :: place
  ct_running :: "slot list"

inductive ctl_step :: "env \<Rightarrow> nat \<Rightarrow> ctl \<times> st \<Rightarrow> ctl \<times> st \<Rightarrow> bool" for E workers where
  looked_up: "ct_place c = LookingUp \<Longrightarrow> look_up_jobs E s = (Inr js, t) \<Longrightarrow>
     ctl_step E workers (c, s) (c\<lparr>ct_place := Admitting js\<rparr>, t)"
| admitted: "ct_place c = Admitting (j # js) \<Longrightarrow>
     ctl_step E workers (c, s) (c\<lparr>ct_place := Admitting js, ct_running := admit workers j (ct_running c)\<rparr>, s)"
| all_seen: "ct_place c = Admitting [] \<Longrightarrow> ctl_step E workers (c, s) (c\<lparr>ct_place := Renewing\<rparr>, s)"
| renewed: "ct_place c = Renewing \<Longrightarrow> renew_held E (ct_running c) s = (Inr (), t) \<Longrightarrow>
     ctl_step E workers (c, s) (c\<lparr>ct_place := LookingUp\<rparr>, t)"
| over: "((k, key), i) \<in> set (ct_running c) \<Longrightarrow> run_found E (k, key, user, i) s = (Inr (), t) \<Longrightarrow>
     ctl_step E workers (c, s) (c\<lparr>ct_running := finished (k, key) (ct_running c)\<rparr>, t)"

| stopped: "ct_place c = LookingUp \<Longrightarrow> ctl_step E workers (c, s) (c\<lparr>ct_place := Stopped\<rparr>, s)"

inductive_cases ctl_stepE: "ctl_step E workers (c, s) (d, t)"

definition ctl_start :: ctl where
  "ctl_start = \<lparr>ct_place = LookingUp, ct_running = []\<rparr>"

definition ctl_reachable :: "env \<Rightarrow> nat \<Rightarrow> st \<Rightarrow> ctl \<times> st \<Rightarrow> bool" where
  "ctl_reachable E workers s x \<longleftrightarrow> (ctl_step E workers)\<^sup>*\<^sup>* (ctl_start, s) x"

section \<open>Admission\<close>

lemma found_slot_key [simp]: "fst (found_slot j) = found_key j"
  by (simp add: found_slot_def found_key_def split: prod.split)

text \<open>The dictionary has one entry per key and never more entries than workers.\<close>

definition slots_ok :: "nat \<Rightarrow> slot list \<Rightarrow> bool" where
  "slots_ok workers run \<longleftrightarrow> distinct (map fst run) \<and> length run \<le> workers"

lemma admit_ok: "slots_ok workers run \<Longrightarrow> slots_ok workers (admit workers j run)"
  by (auto simp: slots_ok_def admit_def)

lemma finished_ok: "slots_ok workers run \<Longrightarrow> slots_ok workers (finished key run)"
  by (auto simp: slots_ok_def finished_def distinct_map inj_on_def intro: le_trans[OF length_filter_le])

text \<open>The jobs of a list that are not in the dictionary, each key once.\<close>

fun waiting :: "(kind \<times> string) set \<Rightarrow> found list \<Rightarrow> found list" where
  "waiting busy [] = []"
| "waiting busy (j # js) = (if found_key j \<in> busy then waiting busy js else j # waiting (insert (found_key j) busy) js)"

text \<open>Without a worker that ends in between, a pass over the list takes the oldest waiting jobs, as many as
  there are idle workers.\<close>

lemma admit_full: "workers \<le> length run \<Longrightarrow> fold (admit workers) js run = run"
  by (induction js) (auto simp: admit_def)

lemma admit_all:
  "fold (admit workers) js run =
     run @ map found_slot (take (workers - length run) (waiting (fst ` set run) js))"
proof (induction js arbitrary: run)
  case (Cons j js)
  show ?case
  proof (cases "workers \<le> length run")
    case True
    then show ?thesis using admit_full[OF True, of "j # js"] by simp
  next
    case False
    then obtain n where n: "workers - length run = Suc n" "workers - Suc (length run) = n"
      by (metis Suc_diff_Suc not_le)
    from False show ?thesis
      using Cons[of "run @ [found_slot j]"] Cons[of run] n by (simp add: admit_def)
  qed
qed simp

section \<open>What running a job leaves of the log and the store\<close>

text \<open>A preorder of \<open>row_progress\<close> that does not mind what becomes of the entries of jobs.\<close>

locale job_progress = row_progress +
  assumes entry: "R s (put_entry k key e s)"
begin

lemma puts: "moves R (io EvRedis f (put_entry k key e))"
proof -
  have h: "R s (s\<lparr>hist := x\<rparr>)" for s x by (rule same) simp_all
  show ?thesis by (auto simp: moves_def io_def Let_def split: io_reply.split intro!: h trans[OF h entry])
qed

lemma entries [moves_intros]: "moves R (set_pod_creation_status E key' stage)" "moves R (get_pod_creation_status E key')"
  "moves R (load_job_input E k req)" "moves R (save_job_result E k req d)" "moves R (delete_job_input E k req)"
  unfolding set_pod_creation_status_def get_pod_creation_status_def load_job_input_def save_job_result_def delete_job_input_def
  by (intro moves_intros writes puts; simp)+

lemma marks [moves_intros]: "moves R (mark_job_running E k req)" "moves R (mark_job_done E k req res)"
  unfolding mark_job_running_def mark_job_done_def Let_def by (intro moves_intros puts)+

lemma ends [moves_intros]: "moves R (record_job_result E k req user res)" "moves R (finish_job E k req user ph code c)"
  "moves R (release_lease E j)" "moves R (run_missing E J)"
  unfolding record_job_result_def finish_job_def close_progress_def fill_ids_def release_lease_def run_missing_def job_end_exists_def
  by (intro moves_intros)+

lemma ending: "moves R (end_job E J jb c dn err)"
proof (cases err)
  case (Some e)
  then show ?thesis by (cases e) (auto intro!: seq' seq comp branch basic ends)
qed (simp add: seq' ends)

lemma runs: "moves R (run_job E (step_exec E) J)"
  if "\<And>d stp. moves R (step_exec E (checkpoint E J d) stp)"
proof -
  have steps: "moves R (run_steps E (step_exec E) J jb dn)" for jb dn
    unfolding run_steps_def by (intro moves_intros all_rounds that ending)
  have stored: "moves R (run_stored E (step_exec E) J dn sv e)" for dn sv e
    unfolding run_stored_def interrupt_baseline_job_def by (intro moves_intros steps)
  show ?thesis
    unfolding run_job_def run_job_body_def by (intro moves_intros stored mods; simp)
qed

end

definition log_grows :: "st \<Rightarrow> st \<Rightarrow> bool" where
  "log_grows s t \<longleftrightarrow> set (oplog s) \<subseteq> set (oplog t)"

interpretation logs: job_progress log_grows
  by unfold_locales (auto simp: log_grows_def put_entry_def)

lemma logs_run: "moves log_grows (run_found E j)"
proof -
  have "moves log_grows (run_job E (step_exec E) J)" for J
    by (rule logs.runs) (rule moves_mono[OF appends_exec], auto simp: log_grows_def appends_def)
  then show ?thesis unfolding run_found_def by (intro moves_intros)
qed

end
