(* ===== verification/Controller_Props.thy ===== *)
theory Controller_Props
  imports Controller Samples
begin

text \<open>
  What the controller guarantees: at most one worker per job, only registered jobs, and no second end for a
  job that is picked up again after it was over.
\<close>

section \<open>Reachable states\<close>

definition started :: "oprow list \<Rightarrow> slot \<Rightarrow> bool" where
  "started rows x \<longleftrightarrow> (\<exists>r\<in>set rows. op_phase r = START \<and> op_id r = snd x \<and> op_request r = snd (fst x) \<and>
     op_action r = job_action (fst (fst x)))"

fun to_see :: "place \<Rightarrow> found list" where
  "to_see (Admitting js) = js"
| "to_see _ = []"

definition ctl_inv :: "nat \<Rightarrow> ctl \<times> st \<Rightarrow> bool" where
  "ctl_inv workers x \<longleftrightarrow> slots_ok workers (ct_running (fst x)) \<and>
     list_all (started (oplog (snd x))) (ct_running (fst x)) \<and>
     list_all (\<lambda>j. started (oplog (snd x)) (found_slot j)) (to_see (ct_place (fst x)))"

lemma started_grows: "set rows \<subseteq> set rows' \<Longrightarrow> started rows x \<Longrightarrow> started rows' x"
  by (auto simp: started_def)

lemma unfinished_started:
  assumes "j \<in> set (unfinished_jobs rows)"
  shows "started rows (found_slot j)"
proof -
  from assms obtain r where r: "r \<in> set rows" "unfinished_row rows r"
    "j = (the (job_kind (op_action r)), op_request r, op_username r, op_id r)"
    by (auto simp: unfinished_jobs_def)
  then obtain k where k: "job_kind (op_action r) = Some k" "op_phase r = START" by (auto simp: unfinished_row_def)
  then have "job_action k = op_action r" by (auto simp: job_kind_def find_Some_iff)
  with r k show ?thesis by (auto simp: started_def found_slot_def)
qed

lemma lookup_started:
  assumes "look_up_jobs E s = (Inr js, t)"
  shows "oplog t = oplog s \<and> list_all (\<lambda>j. started (oplog t) (found_slot j)) js"
proof -
  have "wp (look_up_jobs E) (\<lambda>js t. oplog t = oplog s \<and> list_all (\<lambda>j. started (oplog t) (found_slot j)) js) (\<lambda>_ _. True) s"
    unfolding look_up_jobs_def find_unfinished_jobs_def
    by (auto simp: wp_simps list_all_iff split: io_reply.split dest!: in_set_takeD intro: unfinished_started)
  from wp_Inr[OF this assms] show ?thesis .
qed

lemma renew_quiet: "renew_held E run s = (r, t) \<Longrightarrow> oplog t = oplog s"
proof -
  have "keeps oplog (renew_held E run)" unfolding renew_held_def by (intro keeps_intros) simp_all
  then show "renew_held E run s = (r, t) \<Longrightarrow> oplog t = oplog s" by (rule keepsE)
qed

lemma ctl_inv_step:
  assumes "ctl_step E workers x y" "ctl_inv workers x"
  shows "ctl_inv workers y"
  using assms
proof (induction rule: ctl_step.induct)
  case (looked_up c s js t)
  from lookup_started[OF looked_up(2)]
  have "oplog t = oplog s" "list_all (\<lambda>j. started (oplog s) (found_slot j)) js" by auto
  with looked_up(3) show ?case by (simp add: ctl_inv_def)
next
  case (admitted c j js s)
  then show ?case using admit_ok[of workers "ct_running c" j] by (auto simp: ctl_inv_def admit_def)
next
  case (renewed c s t)
  then show ?case using renew_quiet[OF renewed(2)] by (simp add: ctl_inv_def)
next
  case (over k key i c user s t)
  have g: "set (oplog s) \<subseteq> set (oplog t)" using movesD[OF logs_run over(2)] by (simp add: log_grows_def)
  with over(3) finished_ok[of workers "ct_running c" "(k, key)"] show ?case
    by (auto simp: ctl_inv_def list_all_iff finished_def intro: started_grows[OF g])
qed (simp_all add: ctl_inv_def)

text \<open>C33: in every reachable state of the controller, however its workers are interleaved with its loop, a job is run by at most one worker, no more jobs run than there are workers, and each of them has the number and the key of a row of the operation log that registered a job of its kind.\<close>

theorem controller_invariant:
  assumes "ctl_reachable E workers s (c, t)"
  shows "distinct (map fst (ct_running c)) \<and> length (ct_running c) \<le> workers \<and>
     (\<forall>((k, key), i)\<in>set (ct_running c). \<exists>r\<in>set (oplog t). op_phase r = START \<and> op_id r = i \<and>
        op_request r = key \<and> op_action r = job_action k)"
proof -
  have "ctl_inv workers (c, t)"
    using assms unfolding ctl_reachable_def
  proof (induction rule: rtranclp_induct)
    case base
    show ?case by (simp add: ctl_inv_def ctl_start_def slots_ok_def)
  qed (rule ctl_inv_step)
  then have "slots_ok workers (ct_running c)" "\<forall>x\<in>set (ct_running c). started (oplog t) x"
    by (simp_all add: ctl_inv_def list_all_iff)
  then show ?thesis by (fastforce simp: slots_ok_def started_def)
qed

definition row_sample :: oprow where
  "row_sample = \<lparr>op_id = 7, op_job = Some 7, op_request = ''home-cleanup-5'', op_username = ''lee'', op_pod = None,
     op_node = None, op_resource = None, op_action = PURGE_HOME, op_phase = START, op_attempt = 1, op_error = None,
     op_absent = False\<rparr>"

definition st_one :: st where
  "st_one = st0\<lparr>oplog := [row_sample]\<rparr>"

theorem controller_invariant_witness:
  "\<exists>c t. ctl_reachable env0 2 st_one (c, t) \<and> ct_running c = [((Home, ''home-cleanup-5''), 7)] \<and>
     (\<exists>r\<in>set (oplog t). op_id r = 7 \<and> op_phase r = START)"
proof -
  let ?j = "(Home, ''home-cleanup-5'', ''lee'', 7 :: int)"
  let ?t = "st_one\<lparr>hist := [EvLogDb]\<rparr>"
  have "look_up_jobs env0 st_one = (Inr [?j], ?t)"
    by (simp add: look_up_jobs_def find_unfinished_jobs_def unfinished_jobs_def unfinished_row_def ends_row_def
        unfinished_limit_def job_kind_def job_kinds_def row_sample_def is_end_phase_def run_calls st_one_def st0_def env0_def)
  from looked_up[of ctl_start, OF _ this] admitted[of "ctl_start\<lparr>ct_place := Admitting [?j]\<rparr>" ?j "[]" env0 2 ?t]
  have "ctl_step env0 2 (ctl_start, st_one) (ctl_start\<lparr>ct_place := Admitting [?j]\<rparr>, ?t)"
    and "ctl_step env0 2 (ctl_start\<lparr>ct_place := Admitting [?j]\<rparr>, ?t)
      (\<lparr>ct_place = Admitting [], ct_running = [((Home, ''home-cleanup-5''), 7)]\<rparr>, ?t)"
    by (simp_all add: ctl_start_def admit_def found_slot_def)
  then have "ctl_reachable env0 2 st_one (\<lparr>ct_place = Admitting [], ct_running = [((Home, ''home-cleanup-5''), 7)]\<rparr>, ?t)"
    unfolding ctl_reachable_def by (meson r_into_rtranclp rtranclp.rtrancl_into_rtrancl)
  with controller_invariant[OF this] show ?thesis by fastforce
qed

section \<open>A stale pick\<close>

definition quiet :: "st \<Rightarrow> oprow list \<times> (kind \<times> string \<Rightarrow> job_entry option)" where
  "quiet s = (oplog s, job_inputs s)"

text \<open>The list of unfinished jobs may be out of date when the controller comes to a job on it.  A job that is over by then (its input is gone and an end row younger than its first row is there) is not run and gets no second end row, as long as the operation log can be read.\<close>

lemma stale_pick_harmless:
  assumes "run_job E ex J s = (r, t)" "ji_job J = Some i"
    and "job_inputs s (ji_kind J, ji_request J) = None"
    and "\<exists>row\<in>set (oplog s). end_row_for (ji_kind J) (ji_request J) i row"
    and "\<And>h. x_log_db E h = IoOk"
  shows "oplog t = oplog s \<and> job_inputs t = job_inputs s"
proof -
  let ?Q = "\<lambda>t. quiet t = quiet s"
  have rel: "wp (release_lease E (ji_job J)) (\<lambda>_. ?Q) (\<lambda>_. ?Q) u" if "?Q u" for u
  proof -
    have "keeps quiet (release_lease E (ji_job J))"
      unfolding release_lease_def quiet_def by (intro keeps_intros) simp_all
    from keeps_wp[OF this, of u] that show ?thesis by simp
  qed
  have missing: "wp (run_missing E J) (\<lambda>_. ?Q) (\<lambda>_. ?Q) u" if "?Q u" for u
  proof -
    have "list_ex (end_row_for (ji_kind J) (ji_request J) i) (oplog u)" "quiet (u\<lparr>hist := h\<rparr>) = quiet u" for h
      using that assms(4) by (auto simp: quiet_def list_ex_iff)
    with that show ?thesis
      unfolding run_missing_def job_end_exists_def assms(2) option.case
      using assms(2) by (auto simp: wp_simps assms(5) intro!: rel[unfolded assms(2)])
  qed
  have lease: "keeps quiet (case ji_job J of None \<Rightarrow> ret (Some ([], no_saved)) | Some i \<Rightarrow> tryE (claim E i) (\<lambda>_. ret None))"
    unfolding quiet_def by (intro keeps_intros) simp_all
  have body: "wp (run_job_body E ex J) (\<lambda>_. ?Q) (\<lambda>_. ?Q) (s\<lparr>cur_job := ji_job J\<rparr>)"
    unfolding run_job_body_def wp_bnd
  proof (rule wp_weaken[OF keeps_wp[OF lease]])
    fix l u assume u: "quiet u = quiet (s\<lparr>cur_job := ji_job J\<rparr>)"
    have n: "job_inputs u (ji_kind J, ji_request J) = None" and q: "?Q (u\<lparr>hist := h\<rparr>)" "?Q u" for h
      using u assms(3) by (simp_all add: quiet_def)
    show "wp (case l of None \<Rightarrow> ret () | Some (dn, sv) \<Rightarrow>
         bnd (load_job_input E (ji_kind J) (ji_request J)) (\<lambda>stored. case stored of
           None \<Rightarrow> run_missing E J | Some e \<Rightarrow> run_stored E ex J dn sv e)) (\<lambda>_. ?Q) (\<lambda>_. ?Q) u"
      using n q missing by (auto simp: wp_simps load_job_input_def split: option.split io_reply.split)
  qed (simp add: quiet_def)
  have "wp (run_job E ex J) (\<lambda>_. ?Q) (\<lambda>_. ?Q) s"
    unfolding run_job_def by (simp add: wp_simps) (rule wp_weaken[OF body], simp_all add: quiet_def)
  then have "?Q t" using assms(1) by (cases r) (auto simp: wp_def)
  then show ?thesis by (simp add: quiet_def)
qed


definition st_over :: st where
  "st_over = st0\<lparr>oplog := [row_sample, row_sample\<lparr>op_id := 9, op_phase := SUCCESS\<rparr>]\<rparr>"

end
