(* ===== verification/Group_Facts.thy ===== *)
theory Group_Facts
  imports Shared_Groups Traces
begin

text \<open>
  The group file under the operations of \<open>Shared_Groups\<close>: names and gids of the lines stay distinct, every
  gid of the shared band is recorded as issued, and a change of membership touches nothing else.
\<close>

section \<open>Invariants of the ledger\<close>

text \<open>\<open>led_inv I\<close>: the invariant \<open>I\<close> of the ledger is handed on.\<close>

definition led_inv :: "(ledger \<Rightarrow> bool) \<Rightarrow> st \<Rightarrow> st \<Rightarrow> bool" where
  "led_inv I s t \<longleftrightarrow> (I (led s) \<longrightarrow> I (led t))"

interpretation linv: progress "led_inv I" for I
  by unfold_locales (auto simp: led_inv_def)

text \<open>The other processes keep the invariant, and it makes the files non-empty.\<close>

definition stable_inv :: "env \<Rightarrow> (ledger \<Rightarrow> bool) \<Rightarrow> bool" where
  "stable_inv E I \<longleftrightarrow> (\<forall>h L. I L \<longrightarrow> I (x_interfere E h L)) \<and> (\<forall>L. I L \<longrightarrow> seeded L)"

lemma inv_keeps: "keeps led m \<Longrightarrow> moves (led_inv I) m"
  by (auto simp: moves_def led_inv_def keeps_def)

lemma inv_asks [moves_intros]: "moves (led_inv I) (ext ev f)" "moves (led_inv I) (modC g)"
  "moves (led_inv I) (log_step E r u res act ph err)" "moves (led_inv I) (rd ev k w)"
  by (intro inv_keeps keeps_intros keeps_modC keeps_log_step; simp)+

text \<open>A body that keeps the invariant when it starts with the lock held.\<close>

lemma inv_ledger_lock:
  assumes "stable_inv E I"
    and body: "\<And>s. 0 < lock_depth s \<Longrightarrow> I (led s) \<Longrightarrow> wp m (\<lambda>_ t. I (led t)) (\<lambda>_ t. I (led t)) s"
  shows "moves (led_inv I) (ledger_lock E m)"
proof (rule movesI)
  fix s r and t :: st assume m: "ledger_lock E m s = (r, t)"
  have "wp (ledger_lock E m) (\<lambda>_ t. I (led t)) (\<lambda>_ t. I (led t)) s" if i: "I (led s)"
  proof (cases "0 < lock_depth s")
    case True
    with i body[of "s\<lparr>lock_depth := lock_depth s + 1\<rparr>"] show ?thesis by (simp add: wp_ledger_lock_held)
  next
    case False
    with i assms(1) body show ?thesis
      by (auto simp: wp_ledger_lock_free stable_inv_def split: option.splits)
  qed
  with m show "led_inv I s t" by (cases r) (auto simp: led_inv_def wp_def)
qed

lemma inv_ensure [moves_intros]: "stable_inv E I \<Longrightarrow> moves (led_inv I) (ensure_etc_layout E)"
proof (rule movesI)
  fix s r and t :: st assume "stable_inv E I" and e: "ensure_etc_layout E s = (r, t)"
  then have "wp (ensure_etc_layout E) (\<lambda>_ u. u = s) (\<lambda>_ u. u = s) s" if "I (led s)"
    using that by (simp add: wp_ensure_seeded stable_inv_def)
  with e show "led_inv I s t" by (cases r) (auto simp: led_inv_def wp_def)
qed

lemma inv_read_lines [moves_intros]: "stable_inv E I \<Longrightarrow> moves (led_inv I) (read_lines E f)"
  unfolding read_lines_def
  by (intro linv.seq' inv_ensure inv_ledger_lock) (auto simp: wp_simps split: io_reply.splits)

section \<open>Names and gids of the group file\<close>

definition group_ids :: "string list \<Rightarrow> (string \<times> int) list" where
  "group_ids ls = map (\<lambda>r. (gr_name r, gr_gid r)) (entries parse_group_line ls)"

lemma group_ids_simps:
  "group_ids [] = []" "group_ids (ls @ ks) = group_ids ls @ group_ids ks"
  "group_ids (l # ls) = (case parse_group_line l of None \<Rightarrow> group_ids ls
     | Some r \<Rightarrow> (gr_name r, gr_gid r) # group_ids ls)"
  by (simp_all add: group_ids_def split: option.split)

definition ids_ok :: "env \<Rightarrow> string list \<Rightarrow> int \<Rightarrow> bool" where
  "ids_ok E ls issued \<longleftrightarrow> distinct (map fst (group_ids ls)) \<and> distinct (map snd (group_ids ls)) \<and>
     (\<forall>g\<in>snd ` set (group_ids ls). in_shared_band E g \<longrightarrow> g \<le> issued)"

definition groups_good :: "env \<Rightarrow> ledger \<Rightarrow> bool" where
  "groups_good E L \<longleftrightarrow> seeded L \<and> ids_ok E (lines_of GroupF L) (issued_max L SharedGidKind)"

definition rely_groups :: "env \<Rightarrow> bool" where
  "rely_groups E \<longleftrightarrow> (\<forall>h L. groups_good E L \<longrightarrow> groups_good E (x_interfere E h L))"

lemma rely_groups_stable: "rely_groups E \<Longrightarrow> stable_inv E (groups_good E)"
  by (simp add: rely_groups_def stable_inv_def groups_good_def)

text \<open>Whatever its members are: a formatted line shows its own name and gid, or nothing.\<close>

lemma read_digits_show: "read_digits (show_int g) = Some k \<Longrightarrow> k = g"
proof (cases "0 \<le> g")
  case False
  assume "read_digits (show_int g) = Some k"
  with False show ?thesis by (simp add: show_int_def read_digits_def is_digit_def)
qed simp

lemma parse_formatted_group:
  assumes "format_group_entry d = Inr l" and "parse_group_line l = Some r"
  shows "gr_name r = gr_name d" "gr_gid r = gr_gid d"
proof -
  have u: "unbroken l" using assms(1) by (rule format_unbroken)
  have m: "NL \<notin> set (join '','' (gr_members d))"
    using assms(1) by (auto simp: format_group_Inr plain_fieldD intro!: unbroken_no_NL unbroken_join)
  from assms(1) have c: "CHR '':'' \<notin> set (gr_name d)" "CHR '':'' \<notin> set (gr_passwd d)"
    and l: "l = gr_name d @ '':'' @ gr_passwd d @ '':'' @ show_int (gr_gid d) @ '':'' @ join '','' (gr_members d)"
    by (simp_all add: format_group_Inr plain_fieldD)
  define ms where "ms = join '','' (gr_members d)"
  define r3 where "r3 = show_int (gr_gid d) @ CHR '':'' # ms"
  define r2 where "r2 = gr_passwd d @ CHR '':'' # r3"
  have cuts: "cut l = Some (gr_name d, r2)" "cut r2 = Some (gr_passwd d, r3)"
    "cut r3 = Some (show_int (gr_gid d), ms)"
    unfolding r2_def r3_def ms_def l by (simp_all add: cut_field c)
  have ends: "strip_final_nl l = l" "last_field ms = Some ms" using u m by (simp_all add: ms_def)
  have "parse_group_line l = Option.bind (read_digits (show_int (gr_gid d))) (\<lambda>g.
      if gr_name d = [] then None
      else Some \<lparr>gr_name = gr_name d, gr_passwd = gr_passwd d, gr_gid = g,
           gr_members = filter (\<lambda>x. x \<noteq> []) (split_on CHR '','' ms)\<rparr>)"
    unfolding parse_group_line_def ends cuts by (simp add: cuts ends)
  with assms(2) show "gr_name r = gr_name d" "gr_gid r = gr_gid d"
    by (auto simp: Option.bind_eq_Some_conv split: if_splits dest: read_digits_show)
qed

text \<open>Lines that keep their name and gid or do not parse any more.\<close>

definition same_id :: "string \<Rightarrow> string \<Rightarrow> bool" where
  "same_id l k \<longleftrightarrow> unbroken k \<and> (\<forall>r. parse_group_line k = Some r \<longrightarrow>
     (\<exists>q. parse_group_line l = Some q \<and> gr_name r = gr_name q \<and> gr_gid r = gr_gid q))"

lemma same_id_ids:
  assumes "list_all2 same_id ls ks"
  shows "set (group_ids ks) \<subseteq> set (group_ids ls)"
    "distinct (map f (group_ids ls)) \<Longrightarrow> distinct (map f (group_ids ks))"
proof -
  have "set (group_ids ks) \<subseteq> set (group_ids ls) \<and>
    (distinct (map f (group_ids ls)) \<longrightarrow> distinct (map f (group_ids ks)))"
    using assms
  proof (induction rule: list_all2_induct)
    case (Cons l ls k ks)
    have sub: "f ` set (group_ids ks) \<subseteq> f ` set (group_ids ls)" using Cons.IH by blast
    show ?case
    proof (cases "parse_group_line k")
      case None
      with Cons.IH show ?thesis by (cases "parse_group_line l") (auto simp: group_ids_simps)
    next
      case (Some r)
      with Cons.hyps(1) obtain q where "parse_group_line l = Some q" "gr_name r = gr_name q" "gr_gid r = gr_gid q"
        by (auto simp: same_id_def)
      with Some Cons.IH sub show ?thesis by (auto simp: group_ids_simps)
    qed
  qed (simp add: group_ids_simps)
  then show "set (group_ids ks) \<subseteq> set (group_ids ls)"
    "distinct (map f (group_ids ls)) \<Longrightarrow> distinct (map f (group_ids ks))" by blast+
qed

lemma same_id_ok: "list_all2 same_id ls ks \<Longrightarrow> ids_ok E ls n \<Longrightarrow> ids_ok E ks n"
  unfolding ids_ok_def using same_id_ids(1)[of ls ks] same_id_ids(2)[of ls ks fst] same_id_ids(2)[of ls ks snd]
  by (meson image_mono subsetD)

lemma same_id_unbroken: "list_all2 same_id ls ks \<Longrightarrow> \<forall>k\<in>set ks. unbroken k"
  by (induction rule: list_all2_induct) (auto simp: same_id_def)

section \<open>The locked parts\<close>

text \<open>What the lines of the new file have to satisfy.\<close>

lemma good_put:
  assumes "seeded L" "\<forall>k\<in>set ks. unbroken k" "ids_ok E ks (issued_max L SharedGidKind)"
  shows "groups_good E (put_file GroupF (join [NL] ks @ [NL]) L)"
    "ks \<noteq> [] \<Longrightarrow> groups_good E (put_file GroupF (content_of_lines ks) L)"
proof -
  have i: "issued_max (put_file GroupF c L) k = issued_max L k" for c k by (simp add: issued_max_def)
  have "ids_ok E (splitlines (join [NL] ks @ [NL])) n = ids_ok E ks n" for n
    using assms(2) splitlines_join[of ks] by (cases "ks = []") (simp_all add: ids_ok_def group_ids_simps)
  with assms(1,3) show "groups_good E (put_file GroupF (join [NL] ks @ [NL]) L)"
    unfolding groups_good_def i lines_of_def by (simp del: put_file.simps file_of.simps)
  assume "ks \<noteq> []"
  with assms content_empty_iff[of ks] splitlines_content[of ks]
  show "groups_good E (put_file GroupF (content_of_lines ks) L)"
    unfolding groups_good_def i lines_of_def by (simp del: put_file.simps file_of.simps)
qed

lemma good_issued:
  "groups_good E L \<Longrightarrow> issued_at_least k v L M \<Longrightarrow> groups_good E M \<and> lines_of GroupF M = lines_of GroupF L"
  using issued_at_least_files(1)[of k v L M GroupF] issued_at_least_files(3)[of k v L M] issued_only[of k v L M]
  by (auto simp: groups_good_def ids_ok_def only_issued_def lines_of_def intro: order_trans)

lemma ids_ok_append:
  assumes "ids_ok E ls n" "format_group_entry (new_group_entry name g ms) = Inr l"
    and "name \<notin> fst ` set (group_ids ls)" "g \<notin> snd ` set (group_ids ls)" "in_shared_band E g \<longrightarrow> g \<le> n"
  shows "ids_ok E (ls @ [l]) n"
  using assms parse_formatted_group[OF assms(2)]
  by (auto simp: ids_ok_def group_ids_simps new_group_entry_def split: option.split)

lemma group_ids_names: "fst ` set (group_ids ls) = gr_name ` set (entries parse_group_line ls)"
  "snd ` set (group_ids ls) = gr_gid ` set (entries parse_group_line ls)"
  by (force simp: group_ids_def)+

lemma find_named_None: "find_named p nm n ls = None \<longleftrightarrow> n \<notin> nm ` set (entries p ls)"
  by (auto simp: find_named_def find_None_iff)

lemma find_named_Some: "find_named p nm n ls = Some r \<Longrightarrow> r \<in> set (entries p ls) \<and> nm r = n"
  unfolding find_named_def by (rule find_SomeD)

lemma wp_issue_shared_gid:
  assumes "0 < lock_depth s"
    and "\<And>g t. like s t \<Longrightarrow> g \<notin> snd ` set (group_ids ls) \<Longrightarrow> in_shared_band E g \<Longrightarrow>
           issued_max (led s) SharedGidKind < g \<Longrightarrow> Q g t"
    and "\<And>e t. like s t \<Longrightarrow> R e t"
  shows "wp (issue_shared_gid E ls) Q R s"
  unfolding issue_shared_gid_def wp_bnd wp_tryE
proof (rule wp_read_issued_id_max[OF assms(1)])
  show "like s t \<Longrightarrow> wp (throw (id_record_failed e)) Q' R t" for e Q' and t :: st
    using assms(3) by (simp add: wp_simps)
next
  fix t :: st assume t: "like s t"
  note f = allocate_next_gid_fresh[OF refl, where lines=ls and lo="cfg_shared_gid_min E"
      and issued="issued_max (led s) SharedGidKind"]
  show "wp (let gid = allocate_next_gid ls (cfg_shared_gid_min E) (issued_max (led s) SharedGidKind) in
       if (case cfg_shared_gid_max E of None \<Rightarrow> False | Some m \<Rightarrow> m < gid)
       then throw (no_retry ''ADD_GROUP'' ''GID_RANGE_EXHAUSTED'' 500) else ret gid) Q R t"
    using t f assms(2)[OF t] assms(3)[OF t]
    by (auto simp: Let_def wp_simps in_shared_band_def group_ids_names split: option.splits)
qed

lemma wp_record_shared_gid:
  assumes "0 < lock_depth s"
    and "\<And>t M. after M s t \<Longrightarrow> issued_at_least SharedGidKind g (led s) M \<Longrightarrow> Q () t"
    and "\<And>e t. like s t \<Longrightarrow> R e t"
    and "\<And>e t M. after M s t \<Longrightarrow> issued_at_least SharedGidKind g (led s) M \<Longrightarrow> R e t"
  shows "wp (record_shared_gid E g) Q R s"
  unfolding record_shared_gid_def wp_tryE
  by (rule wp_record_issued_id[OF assms(1)]) (use assms in \<open>auto simp: wp_simps\<close>)

text \<open>A new line, its gid being recorded first.\<close>

abbreviation good_end :: "env \<Rightarrow> 'a \<Rightarrow> st \<Rightarrow> bool" where
  "good_end E \<equiv> \<lambda>_ t. groups_good E (led t)"

lemma wp_append_group:
  assumes "0 < lock_depth s" "groups_good E (led s)" "ls = lines_of GroupF (led s)"
    and "name \<notin> fst ` set (group_ids ls)" "g \<notin> snd ` set (group_ids ls)"
  shows "wp (thn (record_shared_gid E g) (bnd (liftE (format_group_entry (new_group_entry name g ms)))
           (\<lambda>l. thn (write_group_file E (ls @ [l])) (ret g)))) (good_end E) (good_end E) s"
  unfolding wp_thn
proof (rule wp_record_shared_gid[OF assms(1)])
  fix e and t :: st assume "like s t"
  then show "good_end E e t" using assms(2) by (simp add: afterD)
next
  fix e and t :: st and M assume "after M s t" "issued_at_least SharedGidKind g (led s) M"
  then show "good_end E e t" using good_issued[OF assms(2)] by (simp add: afterD)
next
  fix t :: st and M assume t: "after M s t" and M: "issued_at_least SharedGidKind g (led s) M"
  have gm: "groups_good E (led t)" "lines_of GroupF (led t) = ls" "g \<le> issued_max (led t) SharedGidKind"
    using good_issued[OF assms(2) M] t M assms(3) by (auto simp: afterD issued_at_least_def)
  show "wp (bnd (liftE (format_group_entry (new_group_entry name g ms)))
           (\<lambda>l. thn (write_group_file E (ls @ [l])) (ret g))) (good_end E) (good_end E) t"
  proof (cases "format_group_entry (new_group_entry name g ms)")
    case (Inl e)
    with gm show ?thesis by (simp add: wp_simps)
  next
    case (Inr l)
    have ok: "ids_ok E (ls @ [l]) (issued_max (led t) SharedGidKind)"
      by (rule ids_ok_append[OF _ Inr]) (use gm assms in \<open>simp_all add: groups_good_def\<close>)
    have u: "\<forall>k\<in>set (ls @ [l]). unbroken k"
      using format_unbroken(2)[OF Inr] splitlines_all_unbroken assms(3) by (auto simp: lines_of_def)
    have good: "groups_good E (put_file GroupF (join [NL] (ls @ [l]) @ [NL]) (led t))"
      by (rule good_put) (use gm u ok in \<open>simp_all add: groups_good_def\<close>)
    have "wp (write_group_file E (ls @ [l])) (good_end E) (good_end E) t"
      unfolding write_group_file_def
      by (rule wp_replace_file) (use gm good in \<open>simp_all add: afterD del: put_file.simps\<close>)
    with Inr show ?thesis by (simp add: wp_simps)
  qed
qed

lemma wp_group_file_lines:
  assumes "\<And>t. like s t \<Longrightarrow> Q (lines_of GroupF (led s)) t" "\<And>e t. like s t \<Longrightarrow> R e t"
  shows "wp (group_file_lines E) Q R s"
  unfolding group_file_lines_def
  by (rule wp_rd_led[where g="\<lambda>L. splitlines (group_file L)"]) (use assms in \<open>simp_all add: lines_of_def\<close>)

lemma good_like: "groups_good E (led s) \<Longrightarrow> like s t \<Longrightarrow> good_end E a t"
  by (simp add: afterD)

lemma wp_shared_group_locked:
  assumes "0 < lock_depth s" "groups_good E (led s)"
  shows "wp (shared_group_locked E name) (good_end E) (good_end E) s"
  unfolding shared_group_locked_def wp_bnd
proof (rule wp_group_file_lines)
  fix t :: st assume t: "like s t"
  let ?ls = "lines_of GroupF (led s)"
  have new: "wp (bnd (issue_shared_gid E ?ls) (\<lambda>gid. thn (record_shared_gid E gid)
        (bnd (liftE (format_group_entry (new_group_entry name gid [])))
          (\<lambda>l. thn (write_group_file E (?ls @ [l])) (ret gid))))) (good_end E) (good_end E) t"
    if "name \<notin> fst ` set (group_ids ?ls)"
    unfolding wp_bnd[of "issue_shared_gid E ?ls"]
  proof (rule wp_issue_shared_gid)
    show "0 < lock_depth t" using t assms by (simp add: afterD)
    fix e and u :: st assume "like t u"
    then show "good_end E e u" using t assms by (simp add: afterD)
  next
    fix g and u :: st assume "like t u" "g \<notin> snd ` set (group_ids ?ls)"
    with t that assms show "wp (thn (record_shared_gid E g)
        (bnd (liftE (format_group_entry (new_group_entry name g [])))
          (\<lambda>l. thn (write_group_file E (?ls @ [l])) (ret g)))) (good_end E) (good_end E) u"
      by (intro wp_append_group) (simp_all add: afterD)
  qed
  show "wp (case find_named parse_group_line gr_name name ?ls of
       Some r \<Rightarrow> if in_shared_band E (gr_gid r) then ret (gr_gid r)
                 else throw (no_retry ''ADD_GROUP'' ''GROUP_NAME_EXISTS'' 409)
     | None \<Rightarrow> bnd (issue_shared_gid E ?ls) (\<lambda>gid. thn (record_shared_gid E gid)
        (bnd (liftE (format_group_entry (new_group_entry name gid [])))
          (\<lambda>l. thn (write_group_file E (?ls @ [l])) (ret gid))))) (good_end E) (good_end E) t"
    using new good_like[OF assms(2) t]
    by (auto simp: wp_case_option wp_if wp_ret wp_throw find_named_None group_ids_names split: option.split)
qed (rule good_like[OF assms(2)])

text \<open>The gid of the line that is written again is its old one; a new one is nobody else's.\<close>

lemma wp_gid_of_line:
  assumes "0 < lock_depth s" "old = find_named parse_group_line gr_name name ls"
    and "\<And>g t. like s t \<Longrightarrow> (\<And>r. old = Some r \<Longrightarrow> g = gr_gid r) \<Longrightarrow>
           (old = None \<Longrightarrow> g \<notin> snd ` set (group_ids ls)) \<Longrightarrow> Q g t"
    and "\<And>e t. like s t \<Longrightarrow> R e t"
  shows "wp (gid_of_line E old gid members ls) Q R s"
proof (cases old)
  case (Some r)
  with assms(3,4)[of s] show ?thesis by (simp add: gid_of_line_def refuse_def wp_simps)
next
  case None
  show ?thesis
  proof (cases gid)
    case None
    have "wp (issue_shared_gid E ls) Q R s"
      by (rule wp_issue_shared_gid[OF assms(1)]) (use \<open>old = None\<close> assms(3,4) in auto)
    with None \<open>old = None\<close> show ?thesis by (simp add: gid_of_line_def)
  next
    case (Some g)
    have "has_gid g ls \<longleftrightarrow> g \<in> snd ` set (group_ids ls)"
      by (auto simp: has_gid_def list_ex_iff group_ids_names)
    with Some None assms(3,4)[of s] show ?thesis by (simp add: gid_of_line_def refuse_def wp_simps)
  qed
qed

lemma put_line_same_id:
  assumes "format_group_entry (new_group_entry name g ms) = Inr entry" "unbroken line"
    and "\<And>r. parse_group_line line = Some r \<Longrightarrow> gr_name r = name \<Longrightarrow> gr_gid r = g"
  shows "same_id line (put_line name entry line)"
  using assms parse_formatted_group[OF assms(1)] format_unbroken(2)[OF assms(1)]
  by (auto simp: same_id_def put_line_def new_group_entry_def split: option.splits)

text \<open>With distinct names there is one line to replace.\<close>

lemma one_of_name:
  assumes "distinct (map fst (group_ids ls))" "find_named parse_group_line gr_name name ls = Some r"
    and "line \<in> set ls" "parse_group_line line = Some q" "gr_name q = name"
  shows "gr_gid q = gr_gid r"
proof -
  have in_ids: "(gr_name e, gr_gid e) \<in> set (group_ids ls)" if "e \<in> set (entries parse_group_line ls)" for e
    using that by (auto simp: group_ids_def)
  have "q \<in> set (entries parse_group_line ls)" using assms(3,4) by (auto simp: set_entries)
  with find_named_Some[OF assms(2)] in_ids[of q] in_ids[of r] assms(5)
  have "(name, gr_gid q) \<in> set (group_ids ls)" "(name, gr_gid r) \<in> set (group_ids ls)" by simp_all
  with assms(1) show ?thesis by (metis eq_key_imp_eq_value)
qed

lemma wp_put_group:
  assumes "groups_good E (led s)" "ls = lines_of GroupF (led s)"
    and "find_named parse_group_line gr_name name ls = Some r" "g = gr_gid r"
  shows "wp (bnd (liftE (format_group_entry (new_group_entry name g ms)))
           (\<lambda>entry. thn (write_group_file E (map (put_line name entry) ls)) (ret g))) (good_end E) (good_end E) s"
proof (cases "format_group_entry (new_group_entry name g ms)")
  case (Inl e)
  with assms show ?thesis by (simp add: wp_simps)
next
  case (Inr entry)
  have d: "distinct (map fst (group_ids ls))" using assms by (simp add: groups_good_def ids_ok_def)
  have same: "list_all2 same_id ls (map (put_line name entry) ls)"
    unfolding list.rel_map list.rel_refl_strong
  proof (rule list.rel_refl_strong)
    fix line assume l: "line \<in> set ls"
    show "same_id line (put_line name entry line)"
      by (rule put_line_same_id[OF Inr])
        (use l assms one_of_name[OF d assms(3) l] splitlines_all_unbroken in \<open>auto simp: lines_of_def\<close>)
  qed
  have u: "\<forall>k\<in>set (map (put_line name entry) ls). unbroken k"
    by (rule same_id_unbroken[OF same])
  have good: "groups_good E (put_file GroupF (join [NL] (map (put_line name entry) ls) @ [NL]) (led s))"
    by (rule good_put) (use assms u same_id_ok[OF same] in \<open>simp_all add: groups_good_def\<close>)
  have "wp (write_group_file E (map (put_line name entry) ls)) (good_end E) (good_end E) s"
    unfolding write_group_file_def
    by (rule wp_replace_file) (use assms good in \<open>simp_all add: afterD del: put_file.simps\<close>)
  with Inr show ?thesis by (simp add: wp_simps)
qed

lemma wp_write_group_locked:
  assumes "0 < lock_depth s" "groups_good E (led s)"
  shows "wp (write_group_locked E name gid members) (good_end E) (good_end E) s"
  unfolding write_group_locked_def wp_bnd[of "group_file_lines E"]
proof (rule wp_group_file_lines)
  fix t :: st assume t: "like s t"
  define ls where "ls = lines_of GroupF (led s)"
  define old where "old = find_named parse_group_line gr_name name ls"
  have "wp (bnd (gid_of_line E old gid members ls) (\<lambda>g. thn (whenE (old = None) (record_shared_gid E g))
    (bnd (liftE (format_group_entry (new_group_entry name g (sort members)))) (\<lambda>entry.
     thn (write_group_file E (map (put_line name entry) ls @ (if old = None then [entry] else []))) (ret g)))))
     (good_end E) (good_end E) t"
    unfolding wp_bnd[of "gid_of_line E old gid members ls"]
  proof (rule wp_gid_of_line[OF _ old_def])
    show "0 < lock_depth t" using t assms by (simp add: afterD)
    fix e and u :: st assume "like t u"
    then show "good_end E e u" using t assms by (simp add: afterD)
  next
    fix g and u :: st
    assume u: "like t u" and o: "\<And>r. old = Some r \<Longrightarrow> g = gr_gid r"
      and n: "old = None \<Longrightarrow> g \<notin> snd ` set (group_ids ls)"
    have su: "0 < lock_depth u" "groups_good E (led u)" "ls = lines_of GroupF (led u)"
      using u t assms by (simp_all add: afterD ls_def)
    show "wp (thn (whenE (old = None) (record_shared_gid E g))
      (bnd (liftE (format_group_entry (new_group_entry name g (sort members)))) (\<lambda>entry.
       thn (write_group_file E (map (put_line name entry) ls @ (if old = None then [entry] else []))) (ret g))))
       (good_end E) (good_end E) u"
    proof (cases old)
      case (Some r)
      from wp_put_group[OF su(2,3) _ o[OF Some], of name "sort members"] Some
      show ?thesis by (simp add: old_def[symmetric] wp_thn wp_whenE)
    next
      case None
      then have nm: "name \<notin> fst ` set (group_ids ls)"
        by (simp add: old_def find_named_None group_ids_names)
      then have "put_line name entry line = line" if "line \<in> set ls" for entry line
        using that by (force simp: put_line_def group_ids_names set_entries split: option.splits)
      then have "map (put_line name entry) ls = ls" for entry by (simp add: map_idI)
      with wp_append_group[OF su nm n[OF None], of "sort members"] None
      show ?thesis by (simp add: wp_thn wp_whenE)
    qed
  qed
  then show "wp (let old = find_named parse_group_line gr_name name (lines_of GroupF (led s)) in
     bnd (gid_of_line E old gid members (lines_of GroupF (led s))) (\<lambda>g.
     thn (whenE (old = None) (record_shared_gid E g))
    (bnd (liftE (format_group_entry (new_group_entry name g (sort members)))) (\<lambda>entry.
     thn (write_group_file E (map (put_line name entry) (lines_of GroupF (led s)) @ (if old = None then [entry] else [])))
         (ret g))))) (good_end E) (good_end E) t"
    unfolding Let_def old_def ls_def .
qed (rule good_like[OF assms(2)])

section \<open>A change of membership\<close>

definition changed_entry :: "bool \<Rightarrow> string list \<Rightarrow> string \<Rightarrow> group_entry \<Rightarrow> group_entry" where
  "changed_entry member names user r =
     (if gr_name r \<in> set names then r\<lparr>gr_members := changed_members member user (gr_members r)\<rparr> else r)"

lemma member_line_Inr:
  assumes "member_line member names user gl = Inr (l, b)" "unbroken gl"
  shows "same_id gl l" "\<not> b \<Longrightarrow> l = gl"
    "member \<longrightarrow> member_name user \<Longrightarrow> parse_group_line l = map_option (changed_entry member names user) (parse_group_line gl)"
proof -
  show same: "same_id gl l" "\<not> b \<Longrightarrow> l = gl"
    using assms by (auto simp: member_line_def Let_def same_id_def bindE_Inr_iff
        dest: parse_formatted_group format_unbroken(2) split: option.splits if_splits)
  assume u: "member \<longrightarrow> member_name user"
  show "parse_group_line l = map_option (changed_entry member names user) (parse_group_line gl)"
  proof (cases "parse_group_line gl")
    case None
    with assms show ?thesis by (auto simp: member_line_def)
  next
    case (Some r)
    have ok: "group_ok (r\<lparr>gr_members := changed_members member user (gr_members r)\<rparr>)"
      using parse_group_ok[OF Some] u by (auto simp: group_ok_def changed_members_def member_name_def)
    show ?thesis
      using assms Some parse_format_group[OF _ ok]
      by (auto simp: member_line_def Let_def changed_entry_def bindE_Inr_iff split: if_splits)
  qed
qed

lemma member_lines_Inr:
  assumes "mapE (member_line member names user) ls = Inr out" "\<forall>l\<in>set ls. unbroken l"
  shows "list_all2 same_id ls (map fst out)" "\<not> list_ex snd out \<Longrightarrow> map fst out = ls"
    "member \<longrightarrow> member_name user \<Longrightarrow>
       entries parse_group_line (map fst out) = map (changed_entry member names user) (entries parse_group_line ls)"
proof -
  have "list_all2 same_id ls (map fst out) \<and> (\<not> list_ex snd out \<longrightarrow> map fst out = ls) \<and>
    ((member \<longrightarrow> member_name user) \<longrightarrow>
       entries parse_group_line (map fst out) = map (changed_entry member names user) (entries parse_group_line ls))"
    using assms
  proof (induction ls arbitrary: out)
    case (Cons gl ls)
    then obtain l b rest where o: "member_line member names user gl = Inr (l, b)" "out = (l, b) # rest"
      and r: "mapE (member_line member names user) ls = Inr rest"
      by (auto simp: bindE_Inr_iff)
    have u: "unbroken gl" using Cons.prems by simp
    show ?case
      using Cons.IH[OF r] Cons.prems member_line_Inr[OF o(1) u] o(2)
      by (auto split: option.splits)
  qed simp
  then show "list_all2 same_id ls (map fst out)" "\<not> list_ex snd out \<Longrightarrow> map fst out = ls"
    "member \<longrightarrow> member_name user \<Longrightarrow>
       entries parse_group_line (map fst out) = map (changed_entry member names user) (entries parse_group_line ls)"
    by blast+
qed

text \<open>The ledger after the change: the members of the named groups, and nothing else.\<close>

definition members_changed :: "bool \<Rightarrow> string list \<Rightarrow> string \<Rightarrow> ledger \<Rightarrow> ledger \<Rightarrow> bool" where
  "members_changed member names user L M \<longleftrightarrow>
     group_entries M = map (changed_entry member names user) (group_entries L) \<and>
     passwd_file M = passwd_file L \<and> shadow_file M = shadow_file L \<and> sudoers M = sudoers L \<and>
     issued_ids M = issued_ids L"

definition rewritten :: "env \<Rightarrow> bool \<Rightarrow> string list \<Rightarrow> string \<Rightarrow> ledger \<Rightarrow> ledger \<Rightarrow> bool" where
  "rewritten E member names user L M \<longleftrightarrow> (groups_good E L \<longrightarrow> groups_good E M) \<and>
     ((member \<longrightarrow> member_name user) \<longrightarrow> members_changed member names user L M)"

lemma rewritten_put:
  assumes "mapE (member_line member names user) (lines_of GroupF L) = Inr out" "list_ex snd out" "seeded L"
  shows "rewritten E member names user L (put_file GroupF (content_of_lines (map fst out)) L)"
proof -
  have u: "\<forall>l\<in>set (lines_of GroupF L). unbroken l" using splitlines_all_unbroken by (auto simp: lines_of_def)
  note m = member_lines_Inr[OF assms(1) u]
  have ne: "map fst out \<noteq> []" using assms(2) by auto
  have uk: "\<forall>k\<in>set (map fst out). unbroken k"
    by (rule same_id_unbroken[OF m(1)])
  have good: "groups_good E (put_file GroupF (content_of_lines (map fst out)) L)" if "groups_good E L"
    by (rule good_put(2)[OF assms(3) uk _ ne]) (use same_id_ok[OF m(1)] that in \<open>simp add: groups_good_def\<close>)
  have "group_entries (put_file GroupF (content_of_lines (map fst out)) L) = entries parse_group_line (map fst out)"
    using splitlines_content[OF uk] by (simp add: group_entries_def lines_of_def)
  with good m(3) show ?thesis by (auto simp: rewritten_def members_changed_def group_entries_def)
qed

lemma wp_set_membership_locked:
  assumes "0 < lock_depth s" "seeded (led s)"
    and Q: "\<And>t. lock_depth t = lock_depth s \<Longrightarrow> rewritten E member names user (led s) (led t) \<Longrightarrow> Q () t"
    and R: "\<And>e t. lock_depth t = lock_depth s \<Longrightarrow>
              led t = led s \<or> rewritten E member names user (led s) (led t) \<Longrightarrow> R e t"
  shows "wp (set_membership_locked E names user member) Q R s"
  unfolding set_membership_locked_def wp_bnd[of "read_group_lines E"]
proof (rule wp_read_lines[OF assms(2,1)])
  fix t :: st assume t: "like s t"
  define ls where "ls = lines_of GroupF (led s)"
  have "wp (bnd (liftE (mapE (member_line member names user) ls))
      (\<lambda>out. whenE (list_ex snd out) (write_group_lines E (map fst out)))) Q R t"
  proof (cases "mapE (member_line member names user) ls")
    case (Inl e)
    with t R show ?thesis by (simp add: wp_simps afterD)
  next
    case (Inr out)
    note rw = rewritten_put[OF Inr[unfolded ls_def] _ assms(2), of E]
    have u: "\<forall>l\<in>set ls. unbroken l" using splitlines_all_unbroken by (auto simp: ls_def lines_of_def)
    have "wp (write_group_lines E (map fst out)) Q R t" if "list_ex snd out"
      by (rule wp_write_lines)
        (use t assms(1,2) rw[OF that] Q R in \<open>simp_all add: afterD del: put_file.simps\<close>)
    moreover have "Q () t" if "\<not> list_ex snd out"
    proof (rule Q)
      note m = member_lines_Inr[OF Inr u]
      have "map (changed_entry member names user) (group_entries (led s)) = group_entries (led s)"
        if "member \<longrightarrow> member_name user"
        using m(2)[OF \<open>\<not> list_ex snd out\<close>] m(3)[OF that] by (simp add: group_entries_def ls_def)
      then show "rewritten E member names user (led s) (led t)"
        using t by (simp add: rewritten_def members_changed_def afterD)
    qed (use t in \<open>simp add: afterD\<close>)
    ultimately show ?thesis using Inr by (simp add: wp_simps)
  qed
  then show "wp (bnd (liftE (mapE (member_line member names user) (splitlines (file_of GroupF (led s)))))
      (\<lambda>out. whenE (list_ex snd out) (write_group_lines E (map fst out)))) Q R t"
    by (simp add: ls_def lines_of_def)
qed (use R in \<open>simp add: afterD\<close>)

section \<open>The steps keep the group file well formed\<close>

lemma inv_shared_group_gid [moves_intros]:
  "rely_groups E \<Longrightarrow> moves (led_inv (groups_good E)) (shared_group_gid E name)"
  unfolding shared_group_gid_def
  by (intro linv.seq' inv_ensure inv_ledger_lock wp_shared_group_locked) (simp_all add: rely_groups_stable)

lemma inv_write_group_line [moves_intros]:
  "rely_groups E \<Longrightarrow> moves (led_inv (groups_good E)) (write_group_line E name gid members)"
  unfolding write_group_line_def
  by (intro linv.seq' inv_ensure inv_ledger_lock wp_write_group_locked) (simp_all add: rely_groups_stable)

lemma inv_set_group_membership [moves_intros]:
  "rely_groups E \<Longrightarrow> moves (led_inv (groups_good E)) (set_group_membership E names user member)"
  unfolding set_group_membership_def
proof (rule inv_ledger_lock)
  fix s :: st assume "0 < lock_depth s" "groups_good E (led s)"
  then show "wp (set_membership_locked E names user member) (good_end E) (good_end E) s"
    by (intro wp_set_membership_locked) (auto simp: rewritten_def groups_good_def)
qed (rule rely_groups_stable)

lemma inv_flush_lock [moves_intros]: "moves (led_inv I) (flush_lock_call E f)"
  by (auto simp: moves_def flush_lock_call_def Let_def led_inv_def split: io_reply.splits)

lemma inv_ad_loop [moves_intros]: "moves (led_inv I) (ad_nodes_loop E c nodes l)"
  by (induction nodes arbitrary: l) (auto intro!: moves_intros)

lemma inv_outside [moves_intros]:
  "moves (led_inv I) (create_ad_group E n g)" "moves (led_inv I) (add_ad_group_member E n u)"
  "moves (led_inv I) (remove_ad_group_member E n u)" "moves (led_inv I) (flush_nas_group_cache E)"
  "moves (led_inv I) (register_idmap_groups E ns)" "moves (led_inv I) (exec_on_running_pods E u sc args inp)"
  unfolding create_ad_group_def add_ad_group_member_def remove_ad_group_member_def farm_ad_ssh_def
    flush_nas_group_cache_def register_idmap_groups_def trigger_nas_gss_flush_ondemand_def
    trigger_idmap_sync_ondemand_def try_acquire_flush_lock_def release_flush_lock_def start_thread_def
    exec_on_running_pods_def exec_on_pod_def exec_in_pod_def list_user_pods_def load_k8s_def
  by (intro moves_intros)+

lemma inv_pods [moves_intros]:
  "moves (led_inv I) (sync_running_pod_groups E u gs)" "moves (led_inv I) (remove_running_pod_groups E u ns)"
  unfolding sync_running_pod_groups_def remove_running_pod_groups_def by (intro moves_intros)+

lemma inv_checks [moves_intros]:
  assumes "stable_inv E I"
  shows "moves (led_inv I) (check_create E n g ms)" "moves (led_inv I) (check_add E u gs)"
    "moves (led_inv I) (check_remove E u n)" "moves (led_inv I) (ledger_groups E)"
  unfolding check_create_def check_add_def check_remove_def ledger_users_def ledger_groups_def refuse_def
  by (intro moves_intros assms)+

lemma inv_group_steps:
  assumes "rely_groups E"
  shows "moves (led_inv (groups_good E)) (step_resolve_new_groups E)"
    "moves (led_inv (groups_good E)) (step_group_create E)"
    "moves (led_inv (groups_good E)) (step_group_add_member E)"
    "moves (led_inv (groups_good E)) (step_group_remove_member E)"
  unfolding step_resolve_new_groups_def step_group_create_def step_group_add_member_def
    step_group_remove_member_def resolve_group_def
  by (intro moves_intros rely_groups_stable[OF assms] assms)+

section \<open>The order of a change: the controllers first\<close>

text \<open>\<open>meddled E L M\<close>: the ledger \<open>M\<close> is \<open>L\<close> after what other processes did to it.\<close>

inductive meddled :: "env \<Rightarrow> ledger \<Rightarrow> ledger \<Rightarrow> bool" for E where
  unmeddled: "meddled E L L"
| meddle: "meddled E L M \<Longrightarrow> meddled E L (x_interfere E h M)"

lemma meddled_trans: "meddled E M N \<Longrightarrow> meddled E L M \<Longrightarrow> meddled E L N"
  by (induction rule: meddled.induct) (auto intro: meddled.intros)

text \<open>Of the files of the ledger, this process changed nothing.\<close>

definition drift :: "env \<Rightarrow> st \<Rightarrow> st \<Rightarrow> bool" where
  "drift E s t \<longleftrightarrow> lock_depth t = lock_depth s \<and> (seeded (led s) \<longrightarrow> seeded (led t) \<and> meddled E (led s) (led t))"

interpretation drifts: progress "drift E" for E
  by unfold_locales (auto simp: drift_def intro: meddled.intros meddled_trans)

lemma drift_like: "like s t \<Longrightarrow> drift E s t"
  by (auto simp: drift_def afterD intro: meddled.intros)

lemma drift_keeps: "keeps led m \<Longrightarrow> keeps lock_depth m \<Longrightarrow> moves (drift E) m"
  by (auto simp: moves_def drift_def keeps_def intro: meddled.intros)

lemma wp_drift:
  assumes "moves (drift E) m" "\<And>a t. drift E s t \<Longrightarrow> Q a t" "\<And>e t. drift E s t \<Longrightarrow> R e t"
  shows "wp m Q R s"
  by (rule wp_weaken[OF moves_wp[OF assms(1)]]) (use assms(2,3) in blast)+

lemma wp_drift_on:
  assumes "drift E s t" "moves (drift E) m" "\<And>a u. drift E s u \<Longrightarrow> Q a u" "\<And>e u. drift E s u \<Longrightarrow> R e u"
  shows "wp m Q R t"
  by (rule wp_drift[OF assms(2)]) (use assms(3,4) drifts.trans[OF assms(1)] in blast)+

text \<open>Getting the lock outermost: what the others did, then the body.\<close>

lemma wp_ledger_lock_meddled:
  assumes "stable_inv E seeded" "lock_depth s = 0" "seeded (led s)"
    and "\<And>t. 0 < lock_depth t \<Longrightarrow> seeded (led t) \<Longrightarrow> meddled E (led s) (led t) \<Longrightarrow>
           wp m (\<lambda>a u. \<forall>v. led v = led u \<longrightarrow> lock_depth v = 0 \<longrightarrow> Q a v)
                (\<lambda>e u. \<forall>v. led v = led u \<longrightarrow> lock_depth v = 0 \<longrightarrow> R e v) t"
    and "\<And>e t. led t = led s \<Longrightarrow> lock_depth t = 0 \<Longrightarrow> R e t"
  shows "wp (ledger_lock E m) Q R s"
proof (cases "x_ledger_lock E (hist s)")
  case (Some e)
  with assms show ?thesis by (simp add: wp_ledger_lock_free)
next
  case None
  let ?t = "s\<lparr>led := x_interfere E (hist s) (led s), lock_depth := 1, hist := EvLedgerLock # hist s\<rparr>"
  have "wp m (\<lambda>a u. \<forall>v. led v = led u \<longrightarrow> lock_depth v = 0 \<longrightarrow> Q a v)
             (\<lambda>e u. \<forall>v. led v = led u \<longrightarrow> lock_depth v = 0 \<longrightarrow> R e v) ?t"
    by (rule assms(4)) (use assms(1,3) in \<open>simp_all add: stable_inv_def meddled.intros\<close>)
  then have "wp m (\<lambda>a t. Q a (t\<lparr>lock_depth := 0, hist := EvLedgerUnlock # hist t\<rparr>))
              (\<lambda>e t. R e (t\<lparr>lock_depth := 0, hist := EvLedgerUnlock # hist t\<rparr>)) ?t"
    by (rule wp_weaken) auto
  with None show ?thesis by (simp add: wp_ledger_lock_free[OF assms(2)])
qed

lemma drift_read_lines [moves_intros]:
  assumes "stable_inv E seeded"
  shows "moves (drift E) (read_lines E f)"
proof (rule movesI)
  fix s r and t :: st assume m: "read_lines E f s = (r, t)"
  have k: "keeps lock_depth (read_lines E f)"
    unfolding read_lines_def ensure_etc_layout_def ensure_seeded_file_def replace_file_def
    by (intro keeps_intros ledger_lock_depth; simp)+
  have "wp (read_lines E f) (\<lambda>_ u. seeded (led u) \<and> meddled E (led s) (led u))
      (\<lambda>_ u. seeded (led u) \<and> meddled E (led s) (led u)) s" if "seeded (led s)"
    using assms that meddle[OF unmeddled]
    by (cases "0 < lock_depth s")
      (auto simp: read_lines_def wp_thn wp_ensure_seeded wp_ledger_lock_held wp_ledger_lock_free wp_rd stable_inv_def
        unmeddled split: io_reply.splits option.splits)
  with m keepsE[OF k m] show "drift E s t" by (cases r) (auto simp: drift_def wp_def)
qed

lemma drift_checks [moves_intros]:
  assumes "stable_inv E seeded"
  shows "moves (drift E) (check_add E u gs)" "moves (drift E) (check_remove E u n)"
    "moves (drift E) (ledger_groups E)"
  unfolding check_add_def check_remove_def ledger_users_def ledger_groups_def refuse_def
  by (intro moves_intros assms)+

lemma drift_ad [moves_intros]:
  "moves (drift E) (add_ad_group_member E n u)" "moves (drift E) (remove_ad_group_member E n u)"
  by (intro drift_keeps keeps_intros; simp)+

text \<open>After the change nothing can fail any more.\<close>

lemma no_raise_after [raises_intros]:
  "raises P (sync_running_pod_groups E u gs)" "raises P (remove_running_pod_groups E u ns)"
  "raises P (flush_nas_group_cache E)"
  unfolding sync_running_pod_groups_def remove_running_pod_groups_def exec_on_running_pods_def exec_on_pod_def
    flush_nas_group_cache_def
  by (intro raises_intros raises_tryE[where P="\<lambda>_. True"] raisesI; simp add: raises_intros run split: prod.splits sum.splits)+

lemma format_group_plain: "format_group_entry d = Inl e \<Longrightarrow> plain e"
proof -
  have f: "ledger_field x = Inl e' \<Longrightarrow> plain e'" for x e'
    by (auto simp: ledger_field_def split: if_splits)
  assume "format_group_entry d = Inl e"
  then show "plain e"
    unfolding format_group_entry_def
    by (auto simp: bindE_def split: sum.splits dest: f mapE_Inl)
qed

lemma raises_set_membership:
  assumes "plain_files E"
  shows "raises plain (set_group_membership E names user member)"
proof -
  have "mapE (member_line member names user) ls = Inl e \<Longrightarrow> plain e" for ls e
    by (auto simp: member_line_def Let_def bindE_def split: option.splits if_splits sum.splits
        dest!: mapE_Inl dest: format_group_plain)
  then show ?thesis
    unfolding set_group_membership_def set_membership_locked_def
    by (intro raises_intros assms; (erule plain_filesD[OF assms])?) (blast intro: plain_filesD[OF assms])+
qed

definition changed_after :: "env \<Rightarrow> bool \<Rightarrow> string list \<Rightarrow> string \<Rightarrow> ledger \<Rightarrow> ledger \<Rightarrow> bool" where
  "changed_after E member names user L N \<longleftrightarrow> (\<exists>M. meddled E L M \<and> members_changed member names user M N)"

lemma wp_change_then:
  assumes "stable_inv E seeded" "lock_depth s = 0" "seeded (led s)" "plain_files E" "member \<longrightarrow> member_name user"
    and rest: "raises (\<lambda>_. False) rest" "keeps led rest"
  shows "wp (thn (set_group_membership E names user member) rest)
     (\<lambda>_ t. changed_after E member names user (led s) (led t))
     (\<lambda>e t. plain e \<and> (meddled E (led s) (led t) \<or> changed_after E member names user (led s) (led t))) s"
proof -
  let ?R = "\<lambda>t. meddled E (led s) (led t) \<or> changed_after E member names user (led s) (led t)"
  have "wp (set_group_membership E names user member)
     (\<lambda>_ t. changed_after E member names user (led s) (led t)) (\<lambda>e. ?R) s"
    unfolding set_group_membership_def
  proof (rule wp_ledger_lock_meddled[OF assms(1-3)])
    fix t :: st assume t: "0 < lock_depth t" "seeded (led t)" "meddled E (led s) (led t)"
    show "wp (set_membership_locked E names user member)
      (\<lambda>a u. \<forall>v. led v = led u \<longrightarrow> lock_depth v = 0 \<longrightarrow> changed_after E member names user (led s) (led v))
      (\<lambda>e u. \<forall>v. led v = led u \<longrightarrow> lock_depth v = 0 \<longrightarrow> ?R v) t"
      by (rule wp_set_membership_locked[OF t(1,2)])
        (use t(3) assms(5) in \<open>auto simp: rewritten_def changed_after_def\<close>)
  qed (use unmeddled in simp)
  then have m: "wp (set_group_membership E names user member)
     (\<lambda>_ t. changed_after E member names user (led s) (led t)) (\<lambda>e t. plain e \<and> ?R t) s"
    using raises_wp[OF raises_set_membership[OF assms(4)], of names user member s] by (simp add: wp_def split: prod.splits sum.splits)
  have r: "wp rest (\<lambda>_ u. led u = led t) (\<lambda>e u. False) t" for t
    using rest by (auto simp: wp_def raises_def keeps_def split: prod.split sum.split) (metis snd_conv)
  show ?thesis
    unfolding wp_thn by (rule wp_weaken[OF m]) (auto intro!: wp_weaken[OF r])
qed

text \<open>A step that fails before the change has left the ledger to the others.\<close>

fun failed_with :: "string \<Rightarrow> exn \<Rightarrow> bool" where
  "failed_with code (StepFailed f c) = (f_error f = code)"
| "failed_with code _ = False"

lemma plain_not_failed: "plain e \<Longrightarrow> \<not> failed_with code e"
  by (cases e) auto

definition change_outcome ::
  "env \<Rightarrow> bool \<Rightarrow> string list \<Rightarrow> string \<Rightarrow> ledger \<Rightarrow> exn + unit \<Rightarrow> ledger \<Rightarrow> bool" where
  "change_outcome E member names user L r N \<longleftrightarrow> (case r of
     Inr _ \<Rightarrow> changed_after E member names user L N
   | Inl e \<Rightarrow> meddled E L N \<or> (\<not> failed_with ''AD_GROUP_MEMBER_FAILED'' e \<and> changed_after E member names user L N))"

lemma changed_after_meddled: "meddled E L M \<Longrightarrow> changed_after E b ns u M N \<Longrightarrow> changed_after E b ns u L N"
  unfolding changed_after_def using meddled_trans by blast

lemma changed_after_cong: "set ns = set ms \<Longrightarrow> changed_after E b ns u L N = changed_after E b ms u L N"
  by (simp add: changed_after_def members_changed_def changed_entry_def[abs_def])

text \<open>What the rest of a step promises once the controllers were asked.\<close>

lemma wp_change_outcome:
  assumes "drift E s t" "lock_depth s = 0" "seeded (led s)" "stable_inv E seeded" "plain_files E"
    and "member \<longrightarrow> member_name user" "raises (\<lambda>_. False) rest" "keeps led rest" "set names = set ns"
  shows "wp (thn (set_group_membership E names user member) rest)
     (\<lambda>_ u. change_outcome E member ns user (led s) (Inr ()) (led u))
     (\<lambda>e u. change_outcome E member ns user (led s) (Inl e) (led u)) t"
proof -
  from assms(1-3) have d: "lock_depth t = 0" "seeded (led t)" "meddled E (led s) (led t)"
    by (auto simp: drift_def)
  note w = wp_change_then[OF assms(4) d(1,2) assms(5-8), of names]
  show ?thesis
    by (rule wp_weaken[OF w])
      (auto simp: change_outcome_def changed_after_cong[OF assms(9)] plain_not_failed
        intro: changed_after_meddled[OF d(3)] meddled_trans d(3))
qed

lemma drift_outcome: "drift E s t \<Longrightarrow> seeded (led s) \<Longrightarrow> change_outcome E b ns u (led s) (Inl e) (led t)"
  by (simp add: drift_def change_outcome_def)

lemma keeps_led_after [keeps_intros]:
  "keeps led (sync_running_pod_groups E u gs)" "keeps led (remove_running_pod_groups E u ns)"
  "keeps led (flush_nas_group_cache E)"
proof -
  have l: "keeps led (flush_lock_call E f)" for f :: "string option \<Rightarrow> 'a \<times> string option"
    by (auto simp: keeps_def flush_lock_call_def Let_def split: io_reply.splits)
  show "keeps led (flush_nas_group_cache E)"
    unfolding flush_nas_group_cache_def trigger_nas_gss_flush_ondemand_def try_acquire_flush_lock_def
      release_flush_lock_def start_thread_def
    by (intro keeps_intros l; simp)
  show "keeps led (sync_running_pod_groups E u gs)" "keeps led (remove_running_pod_groups E u ns)"
    unfolding sync_running_pod_groups_def remove_running_pod_groups_def exec_on_running_pods_def exec_on_pod_def
      exec_in_pod_def list_user_pods_def load_k8s_def
    by (intro keeps_intros; simp)+
qed

lemma wp_group_add:
  assumes "stable_inv E seeded" "lock_depth s = 0" "seeded (led s)" "plain_files E" "member_name (c_username (cx s))"
  shows "wp (step_group_add_member E)
     (\<lambda>_ u. change_outcome E True (c_group_names (cx s)) (c_username (cx s)) (led s) (Inr ()) (led u))
     (\<lambda>e u. change_outcome E True (c_group_names (cx s)) (c_username (cx s)) (led s) (Inl e) (led u)) s"
proof -
  let ?user = "c_username (cx s)" and ?groups = "c_group_names (cx s)"
  let ?Q = "\<lambda>_ u. change_outcome E True ?groups ?user (led s) (Inr ()) (led u)"
  let ?R = "\<lambda>e u. change_outcome E True ?groups ?user (led s) (Inl e) (led u)"
  define rest where "rest = (\<lambda>gids. bnd (sync_running_pod_groups E ?user gids) (\<lambda>pods.
     thn (modC (\<lambda>c. c\<lparr>c_group_pods := Some pods\<rparr>)) (flush_nas_group_cache E)))"
  have rest: "raises (\<lambda>_. False) (rest gids)" "keeps led (rest gids)" for gids
    unfolding rest_def by (intro raises_intros, intro keeps_intros keeps_modC) (simp_all add: modC_def raises_intros)
  note drift = wp_drift_on[where Q="?Q" and R="?R"]
  have ends: "?R e u" if "drift E s u" for e u using that assms(3) by (rule drift_outcome)
  have tail: "wp (thn (tryE (forM (sort (map fst gids)) (\<lambda>g. add_ad_group_member E g ?user))
          (\<lambda>e. throw (member_failed ''ADD_USER_GROUPS'' e)))
       (thn (set_group_membership E (map fst gids) ?user True) (rest gids))) ?Q ?R u"
    if u: "drift E s u" and g: "gids_of_groups known ?groups = Inr gids" for u known gids
  proof -
    have names: "set (map fst gids) = set ?groups"
    proof -
      have "mapE (\<lambda>g. case last_named gr_name g known of None \<Rightarrow> Inl (raised KeyError)
          | Some r \<Rightarrow> Inr (g, gr_gid r)) ns = Inr out \<Longrightarrow> map fst out = ns" for ns out
        by (induction ns arbitrary: out) (auto simp: bindE_Inr_iff split: option.splits)
      with g show ?thesis by (simp add: gids_of_groups_def)
    qed
    show ?thesis
      unfolding wp_thn[of "tryE _ _"] wp_tryE
      by (rule wp_drift_on[OF u])
        (use rest names assms ends in \<open>auto intro!: moves_intros wp_change_outcome simp: wp_throw\<close>)
  qed
  have "wp (thn (check_add E ?user ?groups) (bnd (ledger_groups E) (\<lambda>known. bnd (liftE (gids_of_groups known ?groups)) (\<lambda>gids.
     thn (tryE (forM (sort (map fst gids)) (\<lambda>g. add_ad_group_member E g ?user))
               (\<lambda>e. throw (member_failed ''ADD_USER_GROUPS'' e)))
    (thn (set_group_membership E (map fst gids) ?user True) (rest gids)))))) ?Q ?R s"
    unfolding wp_thn[of "check_add E ?user ?groups"] wp_bnd[of "ledger_groups E"]
  proof (rule wp_drift_on[OF drifts.refl])
    show "moves (drift E) (check_add E ?user ?groups)" by (intro moves_intros assms)
    fix t assume t: "drift E s t"
    show "wp (ledger_groups E) (\<lambda>known. wp (bnd (liftE (gids_of_groups known ?groups)) (\<lambda>gids.
     thn (tryE (forM (sort (map fst gids)) (\<lambda>g. add_ad_group_member E g ?user))
               (\<lambda>e. throw (member_failed ''ADD_USER_GROUPS'' e)))
      (thn (set_group_membership E (map fst gids) ?user True) (rest gids)))) ?Q ?R) ?R t"
    proof (rule wp_drift_on[OF t])
      show "moves (drift E) (ledger_groups E)" by (intro moves_intros assms)
      show "wp (bnd (liftE (gids_of_groups known ?groups)) (\<lambda>gids.
         thn (tryE (forM (sort (map fst gids)) (\<lambda>g. add_ad_group_member E g ?user))
               (\<lambda>e. throw (member_failed ''ADD_USER_GROUPS'' e)))
         (thn (set_group_membership E (map fst gids) ?user True) (rest gids)))) ?Q ?R u"
        if "drift E s u" for known u
        using ends[OF that] tail[OF that]
        by (cases "gids_of_groups known ?groups") (simp_all add: wp_bnd[of "liftE _"] wp_liftE)
    qed (rule ends)
  qed (rule ends)
  then show ?thesis by (simp add: step_group_add_member_def rest_def wp_bnd wp_getC)
qed

lemma wp_group_remove:
  assumes "stable_inv E seeded" "lock_depth s = 0" "seeded (led s)" "plain_files E" "c_group_name (cx s) = Some name"
  shows "wp (step_group_remove_member E)
     (\<lambda>_ u. change_outcome E False [name] (c_username (cx s)) (led s) (Inr ()) (led u))
     (\<lambda>e u. change_outcome E False [name] (c_username (cx s)) (led s) (Inl e) (led u)) s"
proof -
  let ?user = "c_username (cx s)"
  let ?Q = "\<lambda>_ u. change_outcome E False [name] ?user (led s) (Inr ()) (led u)"
  let ?R = "\<lambda>e u. change_outcome E False [name] ?user (led s) (Inl e) (led u)"
  define rest where "rest = bnd (remove_running_pod_groups E ?user [name]) (\<lambda>pods.
     thn (modC (\<lambda>c. c\<lparr>c_group_pods := Some pods\<rparr>)) (flush_nas_group_cache E))"
  have rest: "raises (\<lambda>_. False) rest" "keeps led rest"
    unfolding rest_def by (intro raises_intros, intro keeps_intros keeps_modC) (simp_all add: modC_def raises_intros)
  have ends: "?R e u" if "drift E s u" for e u using that assms(3) by (rule drift_outcome)
  have "wp (thn (check_remove E ?user name)
     (thn (tryE (remove_ad_group_member E name ?user) (\<lambda>e. throw (member_failed ''REMOVE_USER_GROUP'' e)))
     (thn (set_group_membership E [name] ?user False) rest))) ?Q ?R s"
    unfolding wp_thn[of "check_remove E ?user name"]
  proof (rule wp_drift_on[OF drifts.refl])
    show "moves (drift E) (check_remove E ?user name)" by (intro moves_intros assms)
    fix t assume t: "drift E s t"
    show "wp (thn (tryE (remove_ad_group_member E name ?user) (\<lambda>e. throw (member_failed ''REMOVE_USER_GROUP'' e)))
       (thn (set_group_membership E [name] ?user False) rest)) ?Q ?R t"
      unfolding wp_thn[of "tryE _ _"] wp_tryE
      by (rule wp_drift_on[OF t])
        (use rest assms ends in \<open>auto intro!: moves_intros wp_change_outcome simp: wp_throw\<close>)
  qed (rule ends)
  then show ?thesis using assms(5) by (simp add: step_group_remove_member_def rest_def wp_bnd wp_getC wp_needC)
qed

end
