(* ===== verification/Group_Props.thy ===== *)
theory Group_Props
  imports Group_Facts Samples
begin

text \<open>
  The properties of the jobs on shared groups, with their instances.
\<close>

section \<open>Names and gids\<close>

text \<open>C23: whatever a step of a group job does and however it ends, the group file stays well formed:
  no two lines have the same name or the same gid, and every gid of the shared band is recorded as
  issued, so that it is not given to another group later.  The other processes keep this as well.\<close>

theorem group_ids_unique:
  assumes "m \<in> {step_resolve_new_groups E, step_group_create E, step_group_add_member E, step_group_remove_member E}"
    and "rely_groups E" "groups_good E (led s)" "m s = (r, t)"
  shows "groups_good E (led t)"
proof -
  have "moves (led_inv (groups_good E)) m"
    using assms(1) inv_group_steps[OF assms(2)] by blast
  from movesD[OF this assms(4)] assms(3) show ?thesis by (simp add: led_inv_def)
qed

text \<open>\<open>lee\<close> founds the group \<open>team\<close>.\<close>

definition st_found :: st where
  "st_found = st0\<lparr>cx := ctx0\<lparr>c_group_name := Some ''team'', c_group_members := [''lee'']\<rparr>\<rparr>"

lemma sample_groups: "groups_good env0 ledger0" "rely_groups env0"
  by (simp_all add: groups_good_def ids_ok_def group_ids_simps seeded_iff ledger0_def lines_of_def run_lines run_strings
      in_shared_band_def rely_groups_def env0_def)

theorem group_ids_unique_witness: "groups_good env0 (led (state_of (step_group_create env0) st_found))"
proof -
  obtain r t where r: "step_group_create env0 st_found = (r, t)" by fastforce
  have "groups_good env0 (led st_found)" by (simp add: st_found_def st0_def sample_groups)
  from group_ids_unique[OF _ sample_groups(2) this, of "step_group_create env0" r t] r show ?thesis by simp
qed

section \<open>Members\<close>

text \<open>C24: the steps that put a user into groups or take one out ask the AD controllers first and then
  change exactly the member lists of the named groups: the lines of all others, the other files and
  the names and gids stay as the other processes left them.  If the controllers did not take the
  change, the ledger holds nothing of this process.\<close>

theorem group_change_exact:
  assumes "(m, member, names) \<in> {(step_group_add_member E, True, c_group_names (cx s)),
                                  (step_group_remove_member E, False, [name])}"
    and "member \<longrightarrow> member_name (c_username (cx s))" "member \<or> c_group_name (cx s) = Some name"
    and "lock_depth s = 0" "seeded (led s)" "stable_inv E seeded" "plain_files E" "m s = (r, t)"
  shows "(r = Inr () \<longrightarrow> changed_after E member names (c_username (cx s)) (led s) (led t)) \<and>
     (\<forall>e. r = Inl e \<longrightarrow> meddled E (led s) (led t) \<or>
        \<not> failed_with ''AD_GROUP_MEMBER_FAILED'' e \<and> changed_after E member names (c_username (cx s)) (led s) (led t))"
proof -
  have "wp m (\<lambda>_ u. change_outcome E member names (c_username (cx s)) (led s) (Inr ()) (led u))
     (\<lambda>e u. change_outcome E member names (c_username (cx s)) (led s) (Inl e) (led u)) s"
    using assms(1-3) wp_group_add[OF assms(6,4,5,7)] wp_group_remove[OF assms(6,4,5,7)] by auto
  with assms(8) show ?thesis by (cases r) (auto simp: wp_def change_outcome_def)
qed

text \<open>\<open>lee\<close> joins the group \<open>team\<close>, which \<open>kim\<close> is in.\<close>

definition ledger_team :: ledger where
  "ledger_team = ledger0\<lparr>group_file := group_file ledger0 @ ''team:x:20000:kim'' @ [NL]\<rparr>"

definition st_join :: st where
  "st_join = st0\<lparr>led := ledger_team, cx := ctx0\<lparr>c_username := ''lee'', c_group_names := [''team'']\<rparr>\<rparr>"

lemma sample_join: "lock_depth st_join = 0" "seeded (led st_join)" "stable_inv env0 seeded" "plain_files env0"
  "member_name (c_username (cx st_join))"
  by (simp_all add: st_join_def st0_def ledger_team_def ledger0_def seeded_iff stable_inv_def env0_def plain_files_def
      member_name_def)

lemmas run_group = step_group_add_member_def check_add_def ledger_users_def ledger_groups_def gids_of_groups_def
  last_named_def add_ad_group_member_def ad_enabled_def set_group_membership_def set_membership_locked_def
  member_line_def changed_members_def sync_running_pod_groups_def exec_on_running_pods_def load_k8s_def
  list_user_pods_def flush_nas_group_cache_def

theorem group_change_exact_witness:
  "changed_after env0 True [''team''] ''lee'' ledger_team (led (state_of (step_group_add_member env0) st_join))"
proof -
  obtain r t where r: "step_group_add_member env0 st_join = (r, t)" by fastforce
  have ok: "result_of (step_group_add_member env0) st_join = Inr ()"
    by (simp add: st_join_def ledger_team_def st0_def env0_def ctx0_def ledger0_def run_calls run_group run_lines
        run_strings entries_def)
  have "(step_group_add_member env0, True, c_group_names (cx st_join)) \<in>
      {(step_group_add_member env0, True, c_group_names (cx st_join)), (step_group_remove_member env0, False, [[]])}"
    by simp
  from group_change_exact[OF this _ _ sample_join(1-4) r] ok r sample_join(5) show ?thesis
    by (simp add: st_join_def)
qed

end
