(* ===== verification/Home_Props.thy ===== *)
theory Home_Props
  imports Homes Traces Samples
begin

text \<open>
  The property of the deletion of homes, with its instance.
\<close>

section \<open>The checks before the deletion\<close>

text \<open>Nobody uses the home: the cluster lists no Pod of the user, and the operation log has neither a
  creation nor a migration of the user that has not ended, among all unfinished jobs.\<close>

definition home_unused :: "env \<Rightarrow> string \<Rightarrow> st \<Rightarrow> bool" where
  "home_unused E user s \<longleftrightarrow> x_list_pods E user (EvLoadK8s # hist s) = Inr [] \<and>
     (\<forall>(k, req, who, i)\<in>set (unfinished_jobs (oplog s)). who = user \<longrightarrow> k \<noteq> Provision \<and> k \<noteq> Migrate)"

definition checked_state :: "string \<Rightarrow> st \<Rightarrow> st" where
  "checked_state user s = s\<lparr>hist := EvLogDb # EvListPods user # EvLoadK8s # hist s\<rparr>"

text \<open>Requests that do not touch a home.\<close>

abbreviation harmless :: "event \<Rightarrow> bool" where
  "harmless ev \<equiv> \<forall>p. ev \<noteq> EvNas (NasRmRf p)"

lemma harmless_unused: "emits harmless (require_home_unused E user)"
  unfolding require_home_unused_def load_k8s_def list_user_pods_def find_unfinished_jobs_def refuse_home_def
  by (intro moves_intros) simp_all

lemma require_home_unused_ok:
  assumes "require_home_unused E user s = (Inr (), t)"
  shows "t = checked_state user s \<and> home_unused E user s"
proof -
  from assms have p: "x_list_pods E user (EvLoadK8s # hist s) = Inr []" and t: "t = checked_state user s"
    and n: "length (take unfinished_scan_limit (unfinished_jobs (oplog s))) < unfinished_scan_limit"
    and k: "\<not> list_ex (uses_home user) (take unfinished_scan_limit (unfinished_jobs (oplog s)))"
    by (auto simp: require_home_unused_def load_k8s_def list_user_pods_def find_unfinished_jobs_def refuse_home_def
        checked_state_def ext_def rd_def io_def run Let_def
        split: option.splits sum.splits if_splits io_reply.splits)
  from n have "take unfinished_scan_limit (unfinished_jobs (oplog s)) = unfinished_jobs (oplog s)" by simp
  with k p t show ?thesis
    by (auto simp: home_unused_def list_ex_iff uses_home_def home_using_kinds_def split_beta)
qed

lemma harmless_nas:
  "emits harmless (user_home_owner_uid E user)" "emits harmless (home_root_is_reachable E)"
  unfolding user_home_owner_uid_def home_root_is_reachable_def home_owner_uid_def nas_session_def ssh_capture_def
    ssh_exec_def
  by (intro moves_intros; simp)+

section \<open>Only an unused home of the right owner\<close>

text \<open>What is known when the deletion is sent or the step is over.\<close>

definition may_delete :: "env \<Rightarrow> string \<Rightarrow> int \<Rightarrow> st \<Rightarrow> bool" where
  "may_delete E user expected s \<longleftrightarrow> home_unused E user s \<and>
     result_of (user_home_owner_uid E user) (checked_state user s) = Inr (Some expected)"

definition is_gone :: "env \<Rightarrow> string \<Rightarrow> st \<Rightarrow> bool" where
  "is_gone E user s \<longleftrightarrow> result_of (user_home_owner_uid E user) (checked_state user s) = Inr None \<and>
     result_of (home_root_is_reachable E) (state_of (user_home_owner_uid E user) (checked_state user s)) = Inr True"

lemma bnd_liftE: "bnd (liftE (Inr a)) f = f a" "bnd (liftE (Inl e)) f = throw e"
  by (simp_all add: fun_eq_iff run)

lemma delete_owned_paths:
  assumes "delete_owned_home E req user s = (r, t)"
  shows "grew (\<lambda>ev. \<forall>p. ev = EvNas (NasRmRf p) \<longrightarrow> home_of E user p) s t"
proof -
  let ?P = "\<lambda>ev. \<forall>p. ev = EvNas (NasRmRf p) \<longrightarrow> home_of E user p"
  have "emits ?P (nas_session E (ssh_run E (NasRmRf p)))" if "home_of E user p" for p
    unfolding nas_session_def ssh_run_def ssh_exec_def using that by (intro moves_intros) simp_all
  note to_home = this
  have "emits ?P (delete_user_home_directory E user)"
  proof (cases "user_home_path E user")
    case (Inl e)
    then show ?thesis unfolding delete_user_home_directory_def by (simp add: bnd_liftE moves_intros)
  next
    case (Inr p)
    have "home_of E user p" using Inr by (simp add: user_home_path_Inr)
    from to_home[OF this] show ?thesis unfolding delete_user_home_directory_def Inr bnd_liftE .
  qed
  then have "emits ?P (delete_owned_home E req user)"
    unfolding delete_owned_home_def by (intro moves_intros) simp_all
  from movesD[OF this assms] show ?thesis .
qed

lemma step_delete_expired_home_run:
  assumes "c_username (cx s) = user" "c_expected_uid (cx s) = Some expected"
    and "require_home_unused E user s = (Inr (), u)"
  shows "step_delete_expired_home E s = bnd (user_home_owner_uid E user) (\<lambda>owner. case owner of
       None \<Rightarrow> bnd (home_root_is_reachable E) (\<lambda>ok.
         if \<not> ok then refuse_home ''HOME_ROOT_UNREACHABLE'' else modC (\<lambda>c. c\<lparr>c_home_deleted := False\<rparr>))
     | Some i \<Rightarrow> if i \<noteq> expected then refuse_home ''HOME_OWNER_MISMATCH''
                 else delete_owned_home E (c_request (cx s)) user) u"
  using assms by (simp add: step_delete_expired_home_def run getC_def needC_def split: option.split)

text \<open>A step that got past the checks: it deletes, or finds nothing to delete, or leaves the home alone.\<close>

lemma after_checks:
  assumes "c_username (cx s) = user" "c_expected_uid (cx s) = Some expected"
    and "require_home_unused E user s = (Inr (), u)" "step_delete_expired_home E s = (r, t)"
  shows "may_delete E user expected s \<and> grew (\<lambda>ev. \<forall>p. ev = EvNas (NasRmRf p) \<longrightarrow> home_of E user p) s t \<and>
       (\<exists>v. result_of (delete_owned_home E (c_request (cx s)) user) v = r) \<or>
     grew harmless s t \<and> (r = Inr () \<longrightarrow> is_gone E user s)"
proof -
  let ?P = "\<lambda>ev. \<forall>p. ev = EvNas (NasRmRf p) \<longrightarrow> home_of E user p"
  note u = require_home_unused_ok[OF assms(3)]
  have su: "grew harmless s u" using u by (simp add: grew_def checked_state_def)
  obtain q v where q: "user_home_owner_uid E user u = (q, v)" by fastforce
  have sv: "grew harmless s v" using su movesD[OF harmless_nas(1) q] by (rule trace.trans)
  note run = step_delete_expired_home_run[OF assms(1-3)] assms(4) q
  show ?thesis
  proof (cases q)
    case (Inl e)
    with run sv show ?thesis by (simp add: Prelude.run)
  next
    case (Inr owner)
    show ?thesis
    proof (cases owner)
      case None
      obtain q2 w where q2: "home_root_is_reachable E v = (q2, w)" by fastforce
      have sw: "grew harmless s w" using sv movesD[OF harmless_nas(2) q2] by (rule trace.trans)
      then have "grew harmless s (w\<lparr>cx := c\<rparr>)" for c by (simp add: grew_def)
      with run Inr None q2 sw u q show ?thesis
        by (cases q2) (auto simp: Prelude.run modC_def refuse_home_def is_gone_def split: if_splits)
    next
      case (Some i)
      show ?thesis
      proof (cases "i = expected")
        case False
        with run Inr Some sv show ?thesis by (simp add: Prelude.run refuse_home_def)
      next
        case True
        with run Inr Some have d: "delete_owned_home E (c_request (cx s)) user v = (r, t)" by (simp add: Prelude.run)
        have "grew ?P s v" using sv unfolding grew_def by blast
        then have "grew ?P s t" using delete_owned_paths[OF d] by (rule trace.trans)
        moreover have "may_delete E user expected s" using u q Inr Some True by (simp add: may_delete_def)
        ultimately show ?thesis using d by (metis fst_conv)
      qed
    qed
  qed
qed

lemma delete_owned_sent:
  assumes "result_of (delete_owned_home E req user) v = Inr ()"
  shows "\<exists>w. result_of (delete_user_home_directory E user) w = Inr ()"
proof -
  have "\<exists>w u. delete_user_home_directory E user w = (Inr (), u)"
    using assms by (auto simp: delete_owned_home_def Prelude.run split: prod.splits sum.splits)
  then show ?thesis by (metis fst_conv)
qed

text \<open>C26: a home is removed from the NAS only if nobody uses it (no Pod of the user in the cluster, no
  creation or migration of the user unfinished), its owner is the uid admin_be knows, and the path is
  the home of this user.  If the step succeeds, the NAS took the removal, or the home was not there
  while the place of all homes could be seen.\<close>

theorem home_deleted_only_if_unused:
  assumes "step_delete_expired_home E s = (r, t)" "hist t = evs @ hist s"
    and "c_username (cx s) = user" "c_expected_uid (cx s) = Some expected"
  shows "(\<forall>p. EvNas (NasRmRf p) \<in> set evs \<longrightarrow> home_of E user p \<and> may_delete E user expected s) \<and>
     (r = Inr () \<longrightarrow> is_gone E user s \<or>
        may_delete E user expected s \<and> (\<exists>w. result_of (delete_user_home_directory E user) w = Inr ()))"
proof -
  obtain q u where q: "require_home_unused E user s = (q, u)" by fastforce
  show ?thesis
  proof (cases q)
    case (Inl e)
    with q assms have "t = u" "r = Inl e"
      by (auto simp: step_delete_expired_home_def run getC_def needC_def split: option.splits)
    with movesD[OF harmless_unused q] grew_exact[OF _ assms(2)] show ?thesis by blast
  next
    case (Inr _)
    with q have q: "require_home_unused E user s = (Inr (), u)" by simp
    from after_checks[OF assms(3,4) q assms(1)] show ?thesis
      using grew_exact[OF _ assms(2)] delete_owned_sent by blast
  qed
qed

text \<open>The home of \<open>lee\<close> belongs to 10000 and nobody uses it.\<close>

definition env_home :: env where
  "env_home = env0\<lparr>x_nas := \<lambda>c _. Inr (0, case c of NasStatOwner _ \<Rightarrow> ''10000'' | _ \<Rightarrow> [])\<rparr>"

definition st_home :: st where
  "st_home = st0\<lparr>cx := ctx0\<lparr>c_username := ''lee'', c_expected_uid := Some 10000\<rparr>\<rparr>"

lemmas run_home = require_home_unused_def load_k8s_def list_user_pods_def find_unfinished_jobs_def unfinished_jobs_def
  user_home_owner_uid_def user_home_path_def valid_username_def lower_letter_def team_dir_prefix_def nas_session_def
  home_owner_uid_def ssh_capture_def ssh_exec_def ssh_run_def py_strip_def is_space_def unfinished_scan_limit_def
  delete_owned_home_def delete_user_home_directory_def

theorem home_deleted_only_if_unused_witness:
  "may_delete env_home ''lee'' 10000 st_home \<and> result_of (step_delete_expired_home env_home) st_home = Inr ()"
proof -
  obtain r t where r: "step_delete_expired_home env_home st_home = (r, t)" by fastforce
  have ok: "result_of (step_delete_expired_home env_home) st_home = Inr ()"
    "\<exists>p. EvNas (NasRmRf p) \<in> set (hist (state_of (step_delete_expired_home env_home) st_home))"
    by (simp_all add: step_delete_expired_home_def run_home st_home_def env_home_def st0_def env0_def ctx0_def
        run_calls run_strings)
  have "hist t = hist t @ hist st_home" by (simp add: st_home_def st0_def)
  from home_deleted_only_if_unused[OF r this] ok r show ?thesis by (auto simp: st_home_def)
qed

end
