(* ===== verification/Image_Tool.thy ===== *)
theory Image_Tool
  imports Nas
begin

text \<open>
  The program that runs on a node in a helper Pod (\<open>node_image_cli.py\<close>): it commits a container to an image,
  with the container frozen meanwhile, thaws it, and removes images.

  It is a program of its own, with its own exceptions and its own outside: the files of the cgroup, the
  command \<open>nerdctl\<close> and the clock, again as functions of the history, which is its whole state.
\<close>

section \<open>The node\<close>

datatype tool_exn = LeftFrozen | ToolError | OtherToolError | ToolFuel

datatype node_event = NGlob string | NExists string | NWrite string string | NRead string | NCmd "string list"
  | NTime | NSleep int

type_synonym node_hist = "node_event list"
type_synonym 'a tool = "(node_hist, tool_exn, 'a) prog"

text \<open>What \<open>nerdctl image inspect\<close> prints, as JSON.\<close>

record layer_note =
  ln_comment :: "string option"
  ln_empty :: bool

record inspected =
  in_layers :: "int list"
  in_history :: "layer_note list"

record image_node =
  n_glob :: "string \<Rightarrow> node_hist \<Rightarrow> string list"
  n_exists :: "string \<Rightarrow> node_hist \<Rightarrow> bool"
  n_write :: "string \<Rightarrow> string \<Rightarrow> node_hist \<Rightarrow> bool"
  n_lines :: "string \<Rightarrow> node_hist \<Rightarrow> string list option"
  n_nerdctl :: "string list \<Rightarrow> node_hist \<Rightarrow> int \<times> string \<times> string"
  n_json :: "string \<Rightarrow> inspected option"
  n_clock :: "node_hist \<Rightarrow> int"
  n_fuel :: nat

definition asks :: "node_event \<Rightarrow> (node_hist \<Rightarrow> 'a) \<Rightarrow> 'a tool" where
  "asks ev f = (\<lambda>h. (Inr (f h), ev # h))"

definition nerdctl :: "image_node \<Rightarrow> string \<Rightarrow> string list \<Rightarrow> (int \<times> string \<times> string) tool" where
  "nerdctl N socket args = (let cmd = [''nerdctl'', ''--address'', socket, ''--namespace'', ''k8s.io''] @ args
     in asks (NCmd cmd) (n_nerdctl N cmd))"

section \<open>The size of what was baked\<close>

definition commit_marker :: string where
  "commit_marker = ''ailab-commit''"

text \<open>The loop over the layers from the top, until one without the mark.\<close>

fun marked_bytes :: "(int \<times> layer_note) list \<Rightarrow> int \<Rightarrow> int" where
  "marked_bytes [] acc = acc"
| "marked_bytes ((n, entry) # rest) acc =
     (if ln_comment entry \<noteq> Some commit_marker then acc else marked_bytes rest (acc + n))"

definition added_bytes :: "inspected \<Rightarrow> int" where
  "added_bytes i = marked_bytes (zip (rev (in_layers i)) (rev (filter (\<lambda>e. \<not> ln_empty e) (in_history i)))) 0"

definition inspect_image :: "image_node \<Rightarrow> string \<Rightarrow> string \<Rightarrow> inspected tool" where
  "inspect_image N socket ref =
     bnd (nerdctl N socket [''image'', ''inspect'', ''--mode'', ''native'', ''--format'', ''{{json .}}'', ref]) (\<lambda>(rc, out, err).
       if rc \<noteq> 0 then throw ToolError
       else case splitlines (py_strip out) of
         [] \<Rightarrow> throw OtherToolError
       | l # ls \<Rightarrow> (case n_json N l of None \<Rightarrow> throw OtherToolError | Some i \<Rightarrow> ret i))"

definition commit_args :: "string \<Rightarrow> string \<Rightarrow> string list" where
  "commit_args container ref = [''commit'', ''--pause=false'', ''--message'', commit_marker, container, ref]"

definition commit_layer :: "image_node \<Rightarrow> string \<Rightarrow> string \<Rightarrow> string \<Rightarrow> int tool" where
  "commit_layer N socket container ref =
     bnd (nerdctl N socket (commit_args container ref)) (\<lambda>(rc, out, err).
       if rc \<noteq> 0 then throw ToolError
       else bnd (inspect_image N socket ref) (\<lambda>i. ret (added_bytes i)))"

section \<open>Freezing and thawing\<close>

definition cgroup_patterns :: "string \<Rightarrow> string \<Rightarrow> string list" where
  "cgroup_patterns root container =
     [root @ ''/kubepods/*/pod*/'' @ container, root @ ''/kubepods/pod*/'' @ container,
      root @ ''/kubepods.slice/*/*/cri-containerd-'' @ container @ ''.scope'',
      root @ ''/kubepods.slice/*/cri-containerd-'' @ container @ ''.scope'']"

definition freeze_file :: "string \<Rightarrow> string" where
  "freeze_file dir = dir @ ''/cgroup.freeze''"

definition cgroup_dir :: "image_node \<Rightarrow> string \<Rightarrow> string \<Rightarrow> string tool" where
  "cgroup_dir N root container =
     bnd (mapM (cgroup_patterns root container) (\<lambda>p. asks (NGlob p) (n_glob N p))) (\<lambda>found.
     case remdups (concat found) of
       [dir] \<Rightarrow> bnd (asks (NExists (freeze_file dir)) (n_exists N (freeze_file dir))) (\<lambda>there.
         if \<not> there then throw ToolError else ret dir)
     | _ \<Rightarrow> throw ToolError)"

text \<open>Opening or writing the file may raise.\<close>

definition write_freeze :: "image_node \<Rightarrow> string \<Rightarrow> string \<Rightarrow> unit tool" where
  "write_freeze N dir value =
     bnd (asks (NWrite (freeze_file dir) value) (n_write N (freeze_file dir) value)) (\<lambda>fine.
       if fine then ret () else throw OtherToolError)"

text \<open>The line \<open>frozen\<close> of \<open>cgroup.events\<close>: key and value are parted at the first space.\<close>

definition line_key :: "string \<Rightarrow> string" where
  "line_key l = takeWhile (\<lambda>c. c \<noteq> CHR '' '') l"

definition line_value :: "string \<Rightarrow> string" where
  "line_value l = tl (dropWhile (\<lambda>c. c \<noteq> CHR '' '') l)"

definition frozen_line :: "string list \<Rightarrow> bool option" where
  "frozen_line ls = map_option (\<lambda>l. py_strip (line_value l) = ''1'') (find (\<lambda>l. line_key l = ''frozen'') ls)"

definition is_frozen :: "image_node \<Rightarrow> string \<Rightarrow> bool tool" where
  "is_frozen N dir =
     bnd (asks (NRead dir) (n_lines N dir)) (\<lambda>r. case r of
       None \<Rightarrow> throw OtherToolError
     | Some ls \<Rightarrow> (case frozen_line ls of None \<Rightarrow> throw ToolError | Some b \<Rightarrow> ret b))"

text \<open>Times are in milliseconds; \<open>n\<close> rounds are left.\<close>

definition freeze_poll :: int where
  "freeze_poll = 500"

fun wait_loop :: "image_node \<Rightarrow> string \<Rightarrow> bool \<Rightarrow> int \<Rightarrow> nat \<Rightarrow> bool tool" where
  "wait_loop N dir want deadline 0 = throw ToolFuel"
| "wait_loop N dir want deadline (Suc n) =
     bnd (is_frozen N dir) (\<lambda>b.
       if b = want then ret True
       else bnd (asks NTime (n_clock N)) (\<lambda>t.
         if deadline \<le> t then ret False
         else bnd (asks (NSleep freeze_poll) (\<lambda>_. ())) (\<lambda>_. wait_loop N dir want deadline n)))"

definition wait_frozen :: "image_node \<Rightarrow> string \<Rightarrow> bool \<Rightarrow> int \<Rightarrow> bool tool" where
  "wait_frozen N dir want wait =
     bnd (asks NTime (n_clock N)) (\<lambda>t. wait_loop N dir want (t + wait) (n_fuel N))"

definition freeze_dir :: "image_node \<Rightarrow> string \<Rightarrow> int \<Rightarrow> bool tool" where
  "freeze_dir N dir wait = thn (write_freeze N dir ''1'') (wait_frozen N dir True wait)"

definition thaw_wait :: int where
  "thaw_wait = 5000"

definition thaw_dir :: "image_node \<Rightarrow> string \<Rightarrow> bool tool" where
  "thaw_dir N dir = thn (write_freeze N dir ''0'') (wait_frozen N dir False thaw_wait)"

section \<open>The commands\<close>

text \<open>The \<open>try\<close> block: \<open>None\<close> if the container did not freeze in time.\<close>

definition commit_frozen :: "image_node \<Rightarrow> string \<Rightarrow> string \<Rightarrow> string \<Rightarrow> string \<Rightarrow> int \<Rightarrow> int option tool" where
  "commit_frozen N socket dir container ref wait =
     bnd (freeze_dir N dir wait) (\<lambda>frozen.
       if frozen then bnd (commit_layer N socket container ref) (\<lambda>n. ret (Some n)) else ret None)"

definition commit_container :: "image_node \<Rightarrow> string \<Rightarrow> string \<Rightarrow> string \<Rightarrow> string \<Rightarrow> bool \<Rightarrow> int \<Rightarrow> int tool" where
  "commit_container N root socket container ref running wait =
     (if \<not> running then commit_layer N socket container ref
      else bnd (cgroup_dir N root container) (\<lambda>dir.
        bnd (finallyE (commit_frozen N socket dir container ref wait)
               (bnd (thaw_dir N dir) (\<lambda>fine. if fine then ret () else throw LeftFrozen))) (\<lambda>r.
        case r of None \<Rightarrow> throw ToolError | Some n \<Rightarrow> ret n)))"

definition thaw_container :: "image_node \<Rightarrow> string \<Rightarrow> string \<Rightarrow> bool tool" where
  "thaw_container N root container =
     bnd (cgroup_dir N root container) (\<lambda>dir. bnd (thaw_dir N dir) (\<lambda>fine. ret (\<not> fine)))"

definition remove_ref :: "image_node \<Rightarrow> string \<Rightarrow> string \<Rightarrow> bool tool" where
  "remove_ref N socket ref =
     bnd (nerdctl N socket [''rmi'', ref]) (\<lambda>(rc, out, err).
     bnd (if rc \<noteq> 0 \<and> contains ''must be forced'' err then nerdctl N socket [''rmi'', ''--force'', ref]
          else ret (rc, out, err)) (\<lambda>(rc, out, err).
       if rc = 0 then ret True
       else if contains ''no such image'' err then ret False
       else throw ToolError))"

text \<open>The parsed arguments, and the last line that is printed.\<close>

datatype tool_command = CmdCommit string string bool int | CmdThaw string | CmdRemove string

datatype tool_result = AddedBytes int | StillFrozen bool | WasRemoved bool | ToolFailed "string option"

definition run_command :: "image_node \<Rightarrow> string \<Rightarrow> string \<Rightarrow> tool_command \<Rightarrow> tool_result tool" where
  "run_command N root socket c = (case c of
     CmdCommit container ref running wait \<Rightarrow>
       bnd (commit_container N root socket container ref running (1000 * wait)) (\<lambda>n. ret (AddedBytes n))
   | CmdThaw container \<Rightarrow> bnd (thaw_container N root container) (\<lambda>b. ret (StillFrozen b))
   | CmdRemove ref \<Rightarrow> bnd (remove_ref N socket ref) (\<lambda>b. ret (WasRemoved b)))"

definition tool_main :: "image_node \<Rightarrow> string \<Rightarrow> string \<Rightarrow> tool_command \<Rightarrow> (int \<times> tool_result) tool" where
  "tool_main N root socket c =
     tryE (bnd (run_command N root socket c) (\<lambda>r. ret (0, r)))
          (\<lambda>e. ret (1, ToolFailed (if e = LeftFrozen then Some ''IMAGE_LEFT_PAUSED'' else None)))"

end
