(* ===== verification/Image_Tool_Props.thy ===== *)
theory Image_Tool_Props
  imports Image_Tool
begin

text \<open>
  What the program on the node guarantees: a container it froze is thawed again on every way out, it is
  committed only while it is frozen, and a success means that it was seen running again.
\<close>

section \<open>The events of the parts\<close>

fun looks :: "node_event \<Rightarrow> bool" where
  "looks (NWrite f v) = False"
| "looks (NCmd args) = False"
| "looks _ = True"

fun commands :: "node_event \<Rightarrow> bool" where
  "commands (NCmd args) = True"
| "commands _ = False"

lemma wp_node_asks [wp_simps]: "wp (asks ev f) Q R = (\<lambda>h. Q (f h) (ev # h))"
  by (simp add: wp_def asks_def fun_eq_iff)

text \<open>The last thing seen: the state of the cgroup.\<close>

definition cgroup_seen :: "image_node \<Rightarrow> string \<Rightarrow> bool \<Rightarrow> node_hist \<Rightarrow> bool" where
  "cgroup_seen N dir want t \<longleftrightarrow> (\<exists>h ls. t = NRead dir # h \<and> n_lines N dir h = Some ls \<and> frozen_line ls = Some want)"

text \<open>
  The clock does not go back and a pause lasts as long as it was asked to (\<open>time.monotonic\<close>,
  \<open>time.sleep\<close>); then a wait of \<open>w\<close> milliseconds has as many rounds as the fuel allows.
\<close>

definition steady :: "image_node \<Rightarrow> bool" where
  "steady N \<longleftrightarrow> (\<forall>ev h. n_clock N h \<le> n_clock N (ev # h)) \<and>
     (\<forall>d h. n_clock N h + d \<le> n_clock N (NSleep d # h))"

definition lasts :: "image_node \<Rightarrow> int \<Rightarrow> bool" where
  "lasts N w \<longleftrightarrow> steady N \<and> (\<exists>n. n_fuel N = Suc n \<and> w \<le> freeze_poll * int n)"

fun ordinary :: "tool_exn \<Rightarrow> bool" where
  "ordinary ToolError = True"
| "ordinary OtherToolError = True"
| "ordinary _ = False"

lemma ordinary_iff: "ordinary e \<longleftrightarrow> e \<noteq> LeftFrozen \<and> e \<noteq> ToolFuel"
  by (cases e) auto

lemma wp_wait_loop:
  assumes "steady N" and "d \<le> n_clock N s + freeze_poll * int n"
  shows "wp (wait_loop N dir want d (Suc n)) (\<lambda>b t. prepended looks s t \<and> (b \<longrightarrow> cgroup_seen N dir want t))
      (\<lambda>e t. prepended looks s t \<and> ordinary e) s"
proof -
  let ?read = "\<lambda>s. NTime # NRead dir # s"
  have i: "prepended looks s (?read s)" "prepended looks s (NRead dir # s)" for s
    by (simp_all add: prepended_def)
  have c: "n_clock N s \<le> n_clock N (NRead dir # s)"
    "n_clock N s + freeze_poll \<le> n_clock N (NSleep freeze_poll # ?read s)" for s
    using assms(1) unfolding steady_def by (smt (verit, best))+
  show ?thesis
    using assms(2)
  proof (induction n arbitrary: s)
    case 0
    then show ?case
      using c(1)[of s] i by (auto simp: is_frozen_def wp_simps cgroup_seen_def split: option.split)
  next
    case (Suc n)
    have a: "prepended looks s (NSleep freeze_poll # ?read s)"
      by (simp add: prepended_def)
    have "d \<le> n_clock N (NSleep freeze_poll # ?read s) + freeze_poll * int n"
      using Suc.prems c(2)[of s] by (simp add: algebra_simps)
    then have "wp (wait_loop N dir want d (Suc n)) (\<lambda>b t. prepended looks s t \<and> (b \<longrightarrow> cgroup_seen N dir want t))
        (\<lambda>e t. prepended looks s t \<and> ordinary e) (NSleep freeze_poll # ?read s)"
      by (intro wp_weaken[OF Suc.IH]) (auto intro: prepended_trans[OF a])
    then show ?case
      using i unfolding wait_loop.simps(2)[of _ _ _ _ "Suc n"]
      by (auto simp: is_frozen_def wp_simps cgroup_seen_def simp del: wait_loop.simps split: option.split)
  qed
qed

lemma wp_wait_frozen:
  assumes "lasts N w"
  shows "wp (wait_frozen N dir want w) (\<lambda>b t. prepended looks s t \<and> (b \<longrightarrow> cgroup_seen N dir want t))
      (\<lambda>e t. prepended looks s t \<and> ordinary e) s"
proof -
  obtain n where n: "n_fuel N = Suc n" "w \<le> freeze_poll * int n" and s: "steady N"
    using assms by (auto simp: lasts_def)
  have "n_clock N s + w \<le> n_clock N (NTime # s) + freeze_poll * int n"
    using s n(2) unfolding steady_def by (smt (verit, best))
  then have "wp (wait_loop N dir want (n_clock N s + w) (Suc n)) (\<lambda>b t. prepended looks s t \<and> (b \<longrightarrow> cgroup_seen N dir want t))
      (\<lambda>e t. prepended looks s t \<and> ordinary e) (NTime # s)"
    by (intro wp_weaken[OF wp_wait_loop[OF s]]) (auto intro: prepended_cons)
  then show ?thesis by (simp add: wait_frozen_def wp_simps n(1) del: wait_loop.simps)
qed

lemma wp_write:
  "wp (thn (write_freeze N dir v) m) Q R s \<longleftrightarrow>
     (if n_write N (freeze_file dir) v s then wp m Q R (NWrite (freeze_file dir) v # s)
      else R OtherToolError (NWrite (freeze_file dir) v # s))"
  by (simp add: write_freeze_def wp_simps)

lemma wp_commit_layer:
  "wp (commit_layer N socket container ref) (\<lambda>_. prepended commands s) (\<lambda>e t. prepended commands s t \<and> ordinary e) s"
  by (auto simp: commit_layer_def inspect_image_def nerdctl_def Let_def wp_simps prepended_def split: list.split option.split)

lemma wp_cgroup_dir:
  "wp (cgroup_dir N root container) (\<lambda>_. prepended looks s) (\<lambda>e t. prepended looks s t \<and> ordinary e) s"
proof -
  have m: "wp (mapM ps (\<lambda>p. asks (NGlob p) (n_glob N p))) (\<lambda>_. prepended looks s) (\<lambda>_ _. False) s" for ps s
  proof (induction ps arbitrary: s)
    case (Cons p ps)
    have "wp (mapM ps (\<lambda>p. asks (NGlob p) (n_glob N p))) (\<lambda>_. prepended looks s) (\<lambda>_ _. False) (NGlob p # s)"
      by (rule wp_weaken[OF Cons]) (auto intro: prepended_cons)
    then show ?case by (simp add: wp_simps)
  qed (simp add: wp_simps)
  show ?thesis
    unfolding cgroup_dir_def wp_bnd
    by (rule wp_weaken[OF m]) (auto simp: wp_simps split: list.split intro: prepended_trans)
qed

section \<open>A commit\<close>

text \<open>The history of a commit of a running container that came to its freeze.\<close>

definition framed :: "image_node \<Rightarrow> string \<Rightarrow> node_hist \<Rightarrow> tool_exn + int \<Rightarrow> node_hist \<Rightarrow> bool" where
  "framed N dir s r t \<longleftrightarrow> (\<exists>before during cmds after.
     t = after @ NWrite (freeze_file dir) ''0'' # cmds @ during @ NWrite (freeze_file dir) ''1'' # before @ s \<and>
     list_all looks before \<and> list_all looks during \<and> list_all looks after \<and> list_all commands cmds \<and>
     (cmds \<noteq> [] \<longrightarrow> cgroup_seen N dir True (during @ NWrite (freeze_file dir) ''1'' # before @ s)) \<and>
     (\<forall>n. r = Inr n \<longrightarrow> cmds \<noteq> [] \<and> cgroup_seen N dir False t))"

text \<open>After the \<open>try\<close> block.\<close>

definition half :: "image_node \<Rightarrow> string \<Rightarrow> node_hist \<Rightarrow> bool \<Rightarrow> node_hist \<Rightarrow> bool" where
  "half N dir s baked u \<longleftrightarrow> (\<exists>during cmds. u = cmds @ during @ NWrite (freeze_file dir) ''1'' # s \<and>
     list_all looks during \<and> list_all commands cmds \<and>
     (cmds \<noteq> [] \<longrightarrow> cgroup_seen N dir True (during @ NWrite (freeze_file dir) ''1'' # s)) \<and> (baked \<longrightarrow> cmds \<noteq> []))"

lemma half_looks: "prepended looks (NWrite (freeze_file dir) ''1'' # s) u \<Longrightarrow> half N dir s False u"
  unfolding half_def prepended_def by (elim exE conjE, rule exI, rule exI[of _ "[]"]) simp

lemma commit_layer_asks:
  "wp (commit_layer N socket container ref) (\<lambda>_ t. t \<noteq> s) (\<lambda>_ t. t \<noteq> s) s"
  by (auto simp: commit_layer_def inspect_image_def nerdctl_def Let_def wp_simps split: list.split option.split)

lemma wp_commit_frozen:
  assumes w: "lasts N w"
  shows "wp (commit_frozen N socket dir container ref w) (\<lambda>r. half N dir s (r \<noteq> None)) (\<lambda>e t. half N dir s False t \<and> ordinary e) s"
proof -
  let ?s = "NWrite (freeze_file dir) ''1'' # s"
  have layer: "wp (commit_layer N socket container ref) (\<lambda>n. half N dir s True) (\<lambda>e t. half N dir s False t \<and> ordinary e) u"
    if u: "prepended looks ?s u" "cgroup_seen N dir True u" for u
  proof (rule wp_weaken[OF wp_conj[OF wp_commit_layer commit_layer_asks]])
    fix n t assume "prepended commands u t \<and> t \<noteq> u"
    then obtain c where "t = c @ u" "list_all commands c" "c \<noteq> []" by (auto simp: prepended_def)
    with u show "half N dir s True t" unfolding half_def prepended_def by (metis append.assoc)
  next
    fix e t assume "(prepended commands u t \<and> ordinary e) \<and> t \<noteq> u"
    then obtain c where "t = c @ u" "list_all commands c" "ordinary e" by (auto simp: prepended_def)
    with u show "half N dir s False t \<and> ordinary e" unfolding half_def prepended_def by (metis append.assoc)
  qed
  have "wp (wait_frozen N dir True w)
     (\<lambda>b. wp (if b then bnd (commit_layer N socket container ref) (\<lambda>n. ret (Some n)) else ret None)
        (\<lambda>r. half N dir s (r \<noteq> None)) (\<lambda>e t. half N dir s False t \<and> ordinary e))
     (\<lambda>e t. half N dir s False t \<and> ordinary e) ?s"
    by (rule wp_weaken[OF wp_wait_frozen[OF w]]) (auto simp: wp_simps half_looks intro: layer)
  then show ?thesis
    by (auto simp: commit_frozen_def freeze_dir_def wp_bnd wp_write half_looks)
qed

lemma half_framed:
  assumes "half N dir u baked v" "prepended looks s u" "prepended looks (NWrite (freeze_file dir) ''0'' # v) t"
    and "\<And>n. r = Inr n \<Longrightarrow> baked \<and> cgroup_seen N dir False t"
  shows "framed N dir s r t"
proof -
  obtain during cmds where v: "v = cmds @ during @ NWrite (freeze_file dir) ''1'' # u"
    "list_all looks during" "list_all commands cmds"
    "cmds \<noteq> [] \<longrightarrow> cgroup_seen N dir True (during @ NWrite (freeze_file dir) ''1'' # u)" "baked \<longrightarrow> cmds \<noteq> []"
    using assms(1) by (auto simp: half_def)
  obtain before where u: "u = before @ s" "list_all looks before" using assms(2) by (auto simp: prepended_def)
  obtain after where t: "t = after @ NWrite (freeze_file dir) ''0'' # v" "list_all looks after"
    using assms(3) by (auto simp: prepended_def)
  show ?thesis
    unfolding framed_def using v u t assms(4) by (intro exI[of _ before] exI[of _ during] exI[of _ cmds] exI[of _ after]) auto
qed

lemma wp_thawed:
  assumes "lasts N thaw_wait" "half N dir u baked v" "prepended looks s u"
  shows "wp (bnd (thaw_dir N dir) (\<lambda>fine. if fine then ret () else throw LeftFrozen))
     (\<lambda>_ t. (baked \<longrightarrow> framed N dir s (Inr n) t) \<and> framed N dir s (Inl e) t)
     (\<lambda>x t. x \<noteq> ToolFuel \<and> framed N dir s (Inl x) t) v"
proof -
  let ?v = "NWrite (freeze_file dir) ''0'' # v"
  have "wp (wait_frozen N dir False thaw_wait)
     (\<lambda>b t. prepended looks ?v t \<and> (b \<longrightarrow> cgroup_seen N dir False t)) (\<lambda>e t. prepended looks ?v t \<and> ordinary e) ?v"
    by (rule wp_wait_frozen[OF assms(1)])
  then have "wp (wait_frozen N dir False thaw_wait)
     (\<lambda>b. wp (if b then ret () else throw LeftFrozen)
        (\<lambda>_ t. (baked \<longrightarrow> framed N dir s (Inr n) t) \<and> framed N dir s (Inl e) t)
        (\<lambda>x t. x \<noteq> ToolFuel \<and> framed N dir s (Inl x) t))
     (\<lambda>x t. x \<noteq> ToolFuel \<and> framed N dir s (Inl x) t) ?v"
    by (rule wp_weaken) (auto simp: wp_simps ordinary_iff intro: half_framed[OF assms(2,3)])
  moreover have "framed N dir s (Inl OtherToolError) ?v"
    by (rule half_framed[OF assms(2,3)]) simp_all
  ultimately show ?thesis by (simp add: thaw_dir_def wp_bnd wp_write)
qed

lemma wp_commit_container:
  assumes w: "lasts N wait" "lasts N thaw_wait"
  shows "wp (commit_container N root socket container ref True wait) (\<lambda>n t. \<exists>dir. framed N dir s (Inr n) t)
     (\<lambda>e t. e \<noteq> ToolFuel \<and> (prepended looks s t \<and> ordinary e \<or> (\<exists>dir. framed N dir s (Inl e) t))) s"
proof -
  let ?R = "\<lambda>e t. e \<noteq> ToolFuel \<and> (prepended looks s t \<and> ordinary e \<or> (\<exists>dir. framed N dir s (Inl e) t))"
  have guarded: "wp (finallyE (commit_frozen N socket dir container ref wait)
               (bnd (thaw_dir N dir) (\<lambda>fine. if fine then ret () else throw LeftFrozen)))
       (\<lambda>r t. (r \<noteq> None \<longrightarrow> framed N dir s (Inr (the r)) t) \<and> framed N dir s (Inl ToolError) t)
       (\<lambda>x t. x \<noteq> ToolFuel \<and> framed N dir s (Inl x) t) u"
    if u: "prepended looks s u" for u dir
    unfolding wp_finallyE
  proof (rule wp_weaken[OF wp_commit_frozen[OF w(1)]], goal_cases)
    case (1 r v)
    show ?case
      by (rule wp_thawed[OF w(2) 1 u])
  next
    case (2 e v)
    then have "half N dir u False v" "ordinary e" by simp_all
    then show ?case
      by (intro wp_weaken[OF wp_thawed[OF w(2) _ u]]) (auto simp: ordinary_iff)
  qed
  have "wp (bnd (finallyE (commit_frozen N socket dir container ref wait)
               (bnd (thaw_dir N dir) (\<lambda>fine. if fine then ret () else throw LeftFrozen)))
       (\<lambda>r. case r of None \<Rightarrow> throw ToolError | Some n \<Rightarrow> ret n)) (\<lambda>n t. \<exists>dir. framed N dir s (Inr n) t) ?R u"
    if "prepended looks s u" for u dir
    unfolding wp_bnd by (rule wp_weaken[OF guarded[OF that]]) (auto simp: wp_simps split: option.split)
  then have "wp (cgroup_dir N root container)
      (\<lambda>dir. wp (bnd (finallyE (commit_frozen N socket dir container ref wait)
               (bnd (thaw_dir N dir) (\<lambda>fine. if fine then ret () else throw LeftFrozen)))
       (\<lambda>r. case r of None \<Rightarrow> throw ToolError | Some n \<Rightarrow> ret n)) (\<lambda>n t. \<exists>dir. framed N dir s (Inr n) t) ?R) ?R s"
    by (intro wp_weaken[OF wp_cgroup_dir]) (auto simp: ordinary_iff)
  then show ?thesis
    by (simp add: commit_container_def wp_bnd[of "cgroup_dir N root container"])
qed

text \<open>C34: A commit of a running container on the node ends within the fuel of its two waits, and has one of two histories. Either it only looked (the cgroup was not found) and failed with an error, or its container was asked to freeze and, on every way out, asked to thaw afterwards, as the last thing it wrote; the commands of the commit were given only after the container was seen frozen and before the thaw; and a success means that they were given and that the container was then seen thawed. The clock law is that of the monotonic clock and of a sleep.\<close>

theorem commit_thaws:
  assumes "lasts N wait" and "lasts N thaw_wait"
    and "commit_container N root socket container ref True wait s = (r, t)"
  shows "r \<noteq> Inl ToolFuel \<and>
    (prepended looks s t \<and> (\<exists>e. r = Inl e \<and> ordinary e) \<or> (\<exists>dir. framed N dir s r t))"
  using wp_commit_container[OF assms(1,2), of root socket container ref s] assms(3)
  by (cases r) (auto simp: wp_def)

text \<open>A node whose container follows what is written to its cgroup, and one marked layer on top.\<close>

fun slept_ms :: "node_hist \<Rightarrow> int" where
  "slept_ms [] = 0"
| "slept_ms (NSleep d # h) = max 0 d + slept_ms h"
| "slept_ms (_ # h) = slept_ms h"

fun follows :: "node_hist \<Rightarrow> string" where
  "follows [] = ''frozen 0''"
| "follows (NWrite f v # h) = ''frozen '' @ v"
| "follows (_ # h) = follows h"

definition one_node :: image_node where
  "one_node = \<lparr>n_glob = (\<lambda>p h. if p = ''r/kubepods/pod*/c'' then [''r/kubepods/pod1/c''] else []),
     n_exists = (\<lambda>f h. True), n_write = (\<lambda>f v h. True), n_lines = (\<lambda>d h. Some [''populated 1'', follows h]),
     n_nerdctl = (\<lambda>a h. (0, ''x'', [])),
     n_json = (\<lambda>l. Some \<lparr>in_layers = [9, 7],
        in_history = [\<lparr>ln_comment = None, ln_empty = False\<rparr>, \<lparr>ln_comment = Some commit_marker, ln_empty = False\<rparr>]\<rparr>),
     n_clock = slept_ms, n_fuel = Suc 10\<rparr>"

lemma steady_one_node: "steady one_node"
proof -
  have "slept_ms h \<le> slept_ms (ev # h)" for ev h by (cases ev) simp_all
  then show ?thesis by (simp add: steady_def one_node_def)
qed

lemma one_node_says:
  "n_glob one_node p h = (if p = ''r/kubepods/pod*/c'' then [''r/kubepods/pod1/c''] else [])"
  "n_exists one_node f h" "n_write one_node f v h" "n_lines one_node d h = Some [''populated 1'', follows h]"
  "n_nerdctl one_node a h = (0, ''x'', [])" "n_fuel one_node = Suc 10" "n_clock one_node h = slept_ms h"
  "map_option added_bytes (n_json one_node l) = Some 7"
  by (simp_all add: one_node_def added_bytes_def)

lemma wait_at_once:
  "n_lines N dir h = Some ls \<Longrightarrow> frozen_line ls = Some want \<Longrightarrow>
   wait_loop N dir want d (Suc n) h = (Inr True, NRead dir # h)"
  by (simp add: is_frozen_def asks_def run)

lemma one_node_line:
  "frozen_line [''populated 1'', ''frozen '' @ v] = Some (py_strip v = ''1'')"
  by (simp add: frozen_line_def line_key_def line_value_def)

lemma stripped: "py_strip ''1'' = ''1''" "py_strip ''0'' = ''0''" "py_strip ''x'' = ''x''"
  by (simp_all add: py_strip_def is_space_def)

lemma one_node_waits:
  "follows h = ''frozen 1'' \<Longrightarrow> wait_loop one_node dir True d 11 h = (Inr True, NRead dir # h)"
  "follows h = ''frozen 0'' \<Longrightarrow> wait_loop one_node dir False d 11 h = (Inr True, NRead dir # h)"
  using wait_at_once[OF one_node_says(4), of h True dir d 10] wait_at_once[OF one_node_says(4), of h False dir d 10]
    one_node_line[of "''1''"] one_node_line[of "''0''"]
  by (simp_all add: stripped del: wait_loop.simps)

theorem commit_thaws_witness:
  "fst (commit_container one_node ''r'' ''k'' ''c'' ''i'' True 5000 []) = Inr 7 \<and>
   (\<exists>dir. framed one_node dir [] (Inr 7) (snd (commit_container one_node ''r'' ''k'' ''c'' ''i'' True 5000 [])))"
proof -
  obtain r t where ends: "commit_container one_node ''r'' ''k'' ''c'' ''i'' True 5000 [] = (r, t)" by fastforce
  have w: "lasts one_node 5000" "lasts one_node thaw_wait"
    using steady_one_node by (auto simp: lasts_def one_node_says freeze_poll_def thaw_wait_def)
  obtain i where i: "n_json one_node ''x'' = Some i" "added_bytes i = 7"
    using one_node_says(8)[of "''x''"] by auto
  have r: "r = Inr 7"
    using ends i by (auto simp: commit_container_def cgroup_dir_def cgroup_patterns_def commit_frozen_def freeze_dir_def thaw_dir_def
      write_freeze_def wait_frozen_def asks_def commit_layer_def inspect_image_def nerdctl_def Let_def run one_node_says
      one_node_waits stripped line_break_def simp del: wait_loop.simps)
  from commit_thaws[OF w ends] r ends show ?thesis by auto
qed

end
