(* ===== verification/Scenarios.thy ===== *)
theory Scenarios
  imports Prelude
begin

text \<open>
  The specifications of the scenarios (\<open>harness/scenario_spec.py\<close>), from the value a YAML file holds to the two views
  of it, and the choice of the injector for a specification (\<open>from_spec\<close> of \<open>harness/fault_injector.py\<close>).

  A mapping is the list of its yaml_entries, with texts as keys.  A value that can be no key of a set makes the test of
  membership raise another error than the one for a bad specification.
\<close>

section \<open>Values\<close>

datatype yaml = YNull | YBool bool | YInt int | YReal | YStr string | YSeq "yaml list" | YMap "(string \<times> yaml) list"

datatype spec_error = SpecError | UnhashableValue | UnknownInjection

definition require :: "bool \<Rightarrow> spec_error + unit" where
  "require b = (if b then Inr () else Inl SpecError)"

definition yaml_entries :: "yaml \<Rightarrow> (string \<times> yaml) list" where
  "yaml_entries v = (case v of YMap m \<Rightarrow> m | _ \<Rightarrow> [])"

definition entry :: "yaml \<Rightarrow> string \<Rightarrow> yaml" where
  "entry v k = (case map_of (yaml_entries v) k of None \<Rightarrow> YNull | Some x \<Rightarrow> x)"

definition keys :: "yaml \<Rightarrow> string list \<Rightarrow> spec_error + unit" where
  "keys v expected = require (case v of YMap m \<Rightarrow> fst ` set m = set expected | _ \<Rightarrow> False)"

definition one_of :: "string list \<Rightarrow> yaml \<Rightarrow> spec_error + unit" where
  "one_of allowed v = (case v of YSeq _ \<Rightarrow> Inl UnhashableValue | YMap _ \<Rightarrow> Inl UnhashableValue
     | YStr t \<Rightarrow> require (t \<in> set allowed) | _ \<Rightarrow> Inl SpecError)"

definition texts :: "yaml \<Rightarrow> string list option" where
  "texts v = (case v of YSeq vs \<Rightarrow>
       (if list_all (\<lambda>x. case x of YStr _ \<Rightarrow> True | _ \<Rightarrow> False) vs
        then Some (map (\<lambda>x. case x of YStr t \<Rightarrow> t | _ \<Rightarrow> []) vs) else None)
     | _ \<Rightarrow> None)"

definition str_list :: "yaml \<Rightarrow> spec_error + string list" where
  "str_list v = (case texts v of None \<Rightarrow> Inl SpecError | Some ts \<Rightarrow> Inr ts)"

section \<open>The checks\<close>

definition groups :: "string list" where
  "groups = [''N'', ''P'', ''A'', ''B'', ''C'', ''D'', ''E'', ''F'', ''G'', ''H'']"

definition methods :: "string list" where
  "methods = [''baseline'', ''noprobe'', ''full'']"

definition kinds :: "string list" where
  "kinds = [''none'', ''code_hook'', ''external_mutation'']"

definition actions :: "string list" where
  "actions = [''none'', ''response_loss'', ''sigkill_before_journal'', ''fail_persistent'', ''endpoint_block'', ''ad_block'']"

definition boundaries :: "string list" where
  "boundaries = [''X0'', ''X1'', ''X2'', ''X3'', ''X4'', ''X5'', ''X6'', ''X7'', ''X8'', ''X9'', ''X10'', ''X11'']"

definition verifies :: "string list" where
  "verifies = [''none'', ''fired_after_success'', ''fired_before_success'', ''policy_present'']"

definition check_injection :: "yaml \<Rightarrow> spec_error + unit" where
  "check_injection i =
     bindE (keys i [''kind'', ''boundary'', ''step'', ''action'', ''occurrence'', ''verify'']) (\<lambda>_.
     bindE (one_of kinds (entry i ''kind'')) (\<lambda>_.
     bindE (one_of actions (entry i ''action'')) (\<lambda>_.
     bindE (require (case entry i ''occurrence'' of YInt _ \<Rightarrow> True | _ \<Rightarrow> False)) (\<lambda>_.
     bindE (one_of verifies (entry i ''verify'')) (\<lambda>_.
     bindE (require (case entry i ''step'' of YNull \<Rightarrow> True | YStr _ \<Rightarrow> True | _ \<Rightarrow> False)) (\<lambda>_.
     if entry i ''kind'' = YStr ''none''
     then require (entry i ''boundary'' = YNull \<and> entry i ''step'' = YNull \<and> entry i ''action'' = YStr ''none'')
     else bindE (one_of boundaries (entry i ''boundary'')) (\<lambda>_.
          require (entry i ''action'' \<noteq> YStr ''none'' \<and> (case entry i ''occurrence'' of YInt n \<Rightarrow> 1 \<le> n | _ \<Rightarrow> False)))))))))"

definition check_analysis :: "yaml \<Rightarrow> spec_error + unit" where
  "check_analysis a =
     bindE (keys a [''recoverable'', ''expected_ground_truth'', ''forbidden_behavior'', ''metrics'']) (\<lambda>_.
     bindE (require (case entry a ''recoverable'' of YBool _ \<Rightarrow> True | _ \<Rightarrow> False)) (\<lambda>_.
     bindE (require (yaml_entries (entry a ''expected_ground_truth'') \<noteq> [])) (\<lambda>_.
     bindE (str_list (entry a ''forbidden_behavior'')) (\<lambda>_.
     bindE (str_list (entry a ''metrics'')) (\<lambda>_. Inr ())))))"

definition check_operation :: "yaml \<Rightarrow> spec_error + unit" where
  "check_operation p =
     bindE (keys p [''type'', ''pair_role'']) (\<lambda>_.
     bindE (one_of [''provisioning'', ''reclamation''] (entry p ''type'')) (\<lambda>_.
     one_of [''create'', ''revoke''] (entry p ''pair_role'')))"

definition validate :: "yaml \<Rightarrow> spec_error + unit" where
  "validate raw =
     bindE (keys raw [''scenario_id'', ''aliases'', ''group'', ''operation'', ''applies_to'', ''injection'', ''analysis'']) (\<lambda>_.
     bindE (case entry raw ''scenario_id'' of YStr (c # _) \<Rightarrow> Inr [c] | _ \<Rightarrow> Inl SpecError) (\<lambda>first.
     bindE (one_of groups (entry raw ''group'')) (\<lambda>_.
     bindE (require (entry raw ''group'' = YStr first)) (\<lambda>_.
     bindE (str_list (entry raw ''aliases'')) (\<lambda>_.
     bindE (check_operation (entry raw ''operation'')) (\<lambda>_.
     bindE (str_list (entry raw ''applies_to'')) (\<lambda>ms.
     bindE (require (ms \<noteq> [] \<and> set ms \<subseteq> set methods)) (\<lambda>_.
     bindE (check_injection (entry raw ''injection'')) (\<lambda>_.
     check_analysis (entry raw ''analysis''))))))))))"

section \<open>Views and files\<close>

record spec =
  sp_raw :: yaml
  sp_hash :: string

definition text_at :: "yaml \<Rightarrow> string \<Rightarrow> string" where
  "text_at v k = (case entry v k of YStr t \<Rightarrow> t | _ \<Rightarrow> [])"

definition scenario_id :: "spec \<Rightarrow> string" where
  "scenario_id x = text_at (sp_raw x) ''scenario_id''"

definition run_view :: "spec \<Rightarrow> yaml" where
  "run_view x = YMap (filter (\<lambda>(k, v). k \<noteq> ''analysis'') (yaml_entries (sp_raw x)))"

text \<open>Of the other view the analyzer reads the hash and whether the fault is recoverable.\<close>

definition analysis_view :: "spec \<Rightarrow> string \<times> bool" where
  "analysis_view x = (sp_hash x, entry (entry (sp_raw x) ''analysis'') ''recoverable'' = YBool True)"

text \<open>A file is its stem, the hash of its bytes and its value; the files come in the order of their paths.\<close>

type_synonym spec_file = "string \<times> string \<times> yaml"

definition read_spec :: "spec_file \<Rightarrow> spec_error + spec" where
  "read_spec f = (case f of (stem, h, raw) \<Rightarrow> bindE (validate raw) (\<lambda>_. Inr \<lparr>sp_raw = raw, sp_hash = h\<rparr>))"

definition check_name :: "spec \<Rightarrow> spec_file \<Rightarrow> spec_error + unit" where
  "check_name x f = require (scenario_id x = fst f)"

definition load_spec :: "spec_file \<Rightarrow> spec_error + spec" where
  "load_spec f = bindE (read_spec f) (\<lambda>x. bindE (check_name x f) (\<lambda>_. Inr x))"

fun load_specs :: "(string \<times> spec) list \<Rightarrow> spec_file list \<Rightarrow> spec_error + (string \<times> spec) list" where
  "load_specs specs [] = Inr specs"
| "load_specs specs (f # fs) = bindE (read_spec f) (\<lambda>x.
     bindE (require (scenario_id x \<notin> fst ` set specs)) (\<lambda>_.
     bindE (check_name x f) (\<lambda>_. load_specs (specs @ [(scenario_id x, x)]) fs)))"

definition load_all :: "spec_file list \<Rightarrow> spec_error + (string \<times> spec) list" where
  "load_all fs = load_specs [] fs"

section \<open>The injector of a specification\<close>

record injection =
  in_boundary :: string
  in_step :: "string option"
  in_action :: string
  in_occurrence :: int
  in_verify :: string

definition injection_of :: "yaml \<Rightarrow> injection" where
  "injection_of i = \<lparr>in_boundary = text_at i ''boundary'',
     in_step = (case entry i ''step'' of YStr t \<Rightarrow> Some t | _ \<Rightarrow> None), in_action = text_at i ''action'',
     in_occurrence = (case entry i ''occurrence'' of YInt n \<Rightarrow> n | _ \<Rightarrow> 0), in_verify = text_at i ''verify''\<rparr>"

datatype injector = CodeHook injection | ExternalMutation string injection

definition templates :: "string \<Rightarrow> string option" where
  "templates = [''ad_block'' \<mapsto> ''deny-egress-ad'', ''endpoint_block'' \<mapsto> ''deny-ingress-user'']"

definition from_spec :: "yaml \<Rightarrow> spec_error + injector option" where
  "from_spec view = (let i = entry view ''injection''; inj = injection_of i; kind = text_at i ''kind'' in
     if kind = ''none'' then Inr None
     else if kind = ''code_hook'' then Inr (Some (CodeHook inj))
     else if kind = ''external_mutation'' then (case templates (in_action inj) of
         None \<Rightarrow> Inl UnknownInjection
       | Some tpl \<Rightarrow> Inr (Some (ExternalMutation tpl inj)))
     else Inl UnknownInjection)"

section \<open>What a loaded specification gives\<close>

lemma require_Inr [simp]: "require b = Inr u \<longleftrightarrow> b"
  by (simp add: require_def)

lemma one_of_Inr: "one_of allowed v = Inr u \<longleftrightarrow> (\<exists>t\<in>set allowed. v = YStr t)"
  by (cases v) (auto simp: one_of_def)

lemma keys_Inr: "keys v ks = Inr u \<longleftrightarrow> (\<exists>m. v = YMap m \<and> fst ` set m = set ks)"
  by (cases v) (auto simp: keys_def)

lemma run_view_entry: "k \<noteq> ''analysis'' \<Longrightarrow> entry (run_view x) k = entry (sp_raw x) k"
  "entry (run_view x) ''analysis'' = YNull" "''analysis'' \<notin> fst ` set (yaml_entries (run_view x))"
proof -
  have "map_of (filter (\<lambda>(k, v). k \<noteq> ''analysis'') m) k = (if k = ''analysis'' then None else map_of m k)" for m :: "(string \<times> yaml) list" and k
    by (induction m) auto
  then show "k \<noteq> ''analysis'' \<Longrightarrow> entry (run_view x) k = entry (sp_raw x) k" "entry (run_view x) ''analysis'' = YNull"
    by (simp_all add: entry_def run_view_def yaml_entries_def[of "YMap _"])
  show "''analysis'' \<notin> fst ` set (yaml_entries (run_view x))" by (auto simp: run_view_def yaml_entries_def)
qed

text \<open>What the checks leave of the injection.\<close>

definition injection_checked :: "yaml \<Rightarrow> bool" where
  "injection_checked i \<longleftrightarrow> text_at i ''kind'' \<in> set kinds \<and> text_at i ''verify'' \<in> set verifies \<and>
     (if text_at i ''kind'' = ''none'' then text_at i ''action'' = ''none'' \<and> in_step (injection_of i) = None
      else text_at i ''action'' \<in> set actions - {''none''} \<and> text_at i ''boundary'' \<in> set boundaries \<and>
        1 \<le> in_occurrence (injection_of i))"

lemma check_injection_Inr:
  assumes "check_injection i = Inr u"
  shows "injection_checked i"
proof -
  from assms obtain k a n v where i: "entry i ''kind'' = YStr k" "k \<in> set kinds" "entry i ''action'' = YStr a" "a \<in> set actions"
    "entry i ''occurrence'' = YInt n" "entry i ''verify'' = YStr v" "v \<in> set verifies"
    "if k = ''none'' then entry i ''step'' = YNull \<and> a = ''none''
     else (\<exists>b\<in>set boundaries. entry i ''boundary'' = YStr b) \<and> a \<noteq> ''none'' \<and> 1 \<le> n"
    unfolding check_injection_def bindE_Inr_iff one_of_Inr
    by (auto simp: bindE_Inr_iff one_of_Inr split: if_splits yaml.splits)
  then show ?thesis by (auto simp: injection_checked_def text_at_def injection_of_def split: if_splits)
qed

lemma validate_injection: "validate raw = Inr u \<Longrightarrow> check_injection (entry raw ''injection'') = Inr ()"
  unfolding validate_def by (auto simp: bindE_Inr_iff)

lemma validate_analysis: "validate raw = Inr u \<Longrightarrow> \<exists>b. entry (entry raw ''analysis'') ''recoverable'' = YBool b"
  unfolding validate_def check_analysis_def by (auto simp: bindE_Inr_iff split: yaml.splits)

definition loaded :: "spec_file list \<Rightarrow> (string \<times> spec) list \<Rightarrow> bool" where
  "loaded fs specs \<longleftrightarrow> map fst specs = map fst fs \<and> distinct (map fst specs) \<and>
     list_all2 (\<lambda>(stem, h, raw) (i, x). sp_raw x = raw \<and> sp_hash x = h \<and> scenario_id x = i \<and> validate raw = Inr ()) fs specs"

lemma load_specs_loaded:
  "load_specs specs fs = Inr out \<Longrightarrow> loaded es specs \<Longrightarrow> loaded (es @ fs) out"
proof (induction specs fs arbitrary: es rule: load_specs.induct)
  case (2 specs f fs)
  obtain stem h raw where f: "f = (stem, h, raw)" by (cases f)
  from 2(2) obtain x where x: "validate raw = Inr ()" "x = \<lparr>sp_raw = raw, sp_hash = h\<rparr>" "scenario_id x = stem"
      "stem \<notin> fst ` set specs" "load_specs (specs @ [(scenario_id x, x)]) fs = Inr out"
    by (auto simp: bindE_Inr_iff read_spec_def check_name_def f)
  from 2(3) have "fst ` set specs = fst ` set es" unfolding loaded_def by (metis list.set_map)
  with 2(3) x(1-4) have "loaded (es @ [f]) (specs @ [(scenario_id x, x)])"
    by (auto simp: loaded_def f intro: list_all2_appendI)
  from "2.IH"[OF x(5) this] f show ?case by (simp add: read_spec_def check_name_def)
qed simp

text \<open>What the files of a directory give: each specification stands under the name of its file, once, and its own value passed the checks; the view for the run holds no part of the analysis and everything else unchanged; an injector can be made for it unless it asks for an external change that is none of the two that exist, and an injector that is made has a boundary, an action and an occurrence of at least one.\<close>

lemma specs_are_ready:
  assumes "load_all fs = Inr specs" "(i, x) \<in> set specs"
  shows "distinct (map fst specs) \<and> map fst specs = map fst fs \<and> scenario_id x = i \<and> validate (sp_raw x) = Inr () \<and>
    ''analysis'' \<notin> fst ` set (yaml_entries (run_view x)) \<and>
    (\<forall>k. k \<noteq> ''analysis'' \<longrightarrow> entry (run_view x) k = entry (sp_raw x) k) \<and>
    (case from_spec (run_view x) of
       Inr None \<Rightarrow> text_at (entry (sp_raw x) ''injection'') ''kind'' = ''none''
     | Inr (Some (CodeHook j)) \<Rightarrow> in_boundary j \<in> set boundaries \<and> in_action j \<in> set actions - {''none''} \<and> 1 \<le> in_occurrence j
     | Inr (Some (ExternalMutation tpl j)) \<Rightarrow> in_boundary j \<in> set boundaries \<and> templates (in_action j) = Some tpl
     | Inl e \<Rightarrow> text_at (entry (sp_raw x) ''injection'') ''kind'' = ''external_mutation'' \<and>
         text_at (entry (sp_raw x) ''injection'') ''action'' \<notin> {''ad_block'', ''endpoint_block''})"
proof -
  have "loaded [] []" by (simp add: loaded_def)
  with load_specs_loaded[of "[]" fs specs "[]"] assms(1) have l: "loaded fs specs" by (simp add: load_all_def)
  from l assms(2) have x: "scenario_id x = i" "validate (sp_raw x) = Inr ()"
    unfolding loaded_def by (auto simp: list_all2_conv_all_nth in_set_conv_nth split: prod.splits) (metis prod.collapse)+
  have i: "entry (run_view x) ''injection'' = entry (sp_raw x) ''injection''" by (rule run_view_entry) simp
  from check_injection_Inr[OF validate_injection[OF x(2)]] have c: "injection_checked (entry (sp_raw x) ''injection'')" .
  have "case from_spec (run_view x) of
       Inr None \<Rightarrow> text_at (entry (sp_raw x) ''injection'') ''kind'' = ''none''
     | Inr (Some (CodeHook j)) \<Rightarrow> in_boundary j \<in> set boundaries \<and> in_action j \<in> set actions - {''none''} \<and> 1 \<le> in_occurrence j
     | Inr (Some (ExternalMutation tpl j)) \<Rightarrow> in_boundary j \<in> set boundaries \<and> templates (in_action j) = Some tpl
     | Inl e \<Rightarrow> text_at (entry (sp_raw x) ''injection'') ''kind'' = ''external_mutation'' \<and>
         text_at (entry (sp_raw x) ''injection'') ''action'' \<notin> {''ad_block'', ''endpoint_block''}"
    using c unfolding from_spec_def Let_def i injection_checked_def
    by (auto simp: kinds_def templates_def injection_of_def[of "entry _ _"] split: option.splits if_splits)
  moreover from l have "map fst specs = map fst fs" "distinct (map fst specs)" unfolding loaded_def by blast+
  ultimately show ?thesis using x run_view_entry by blast
qed

text \<open>A specification with a fault, and what is loaded from its file.\<close>

definition fault_spec :: "string \<Rightarrow> string \<Rightarrow> yaml" where
  "fault_spec kind action = YMap [(''scenario_id'', YStr ''A1''), (''aliases'', YSeq []), (''group'', YStr ''A''),
     (''operation'', YMap [(''type'', YStr ''provisioning''), (''pair_role'', YStr ''create'')]),
     (''applies_to'', YSeq [YStr ''full'']),
     (''injection'', YMap [(''kind'', YStr kind), (''boundary'', YStr ''X4''), (''step'', YNull), (''action'', YStr action),
        (''occurrence'', YInt 1), (''verify'', YStr ''none'')]),
     (''analysis'', YMap [(''recoverable'', YBool True), (''expected_ground_truth'', YMap [(''final_state'', YNull)]),
        (''forbidden_behavior'', YSeq []), (''metrics'', YSeq [])])]"

lemmas spec_defs = validate_def keys_def one_of_def require_def entry_def yaml_entries_def str_list_def texts_def
  check_operation_def check_injection_def check_analysis_def groups_def methods_def kinds_def actions_def boundaries_def
  verifies_def

lemma fault_spec_valid:
  "validate (fault_spec ''code_hook'' ''response_loss'') = Inr ()"
  "validate (fault_spec ''external_mutation'' ''response_loss'') = Inr ()"
  by (auto simp: fault_spec_def spec_defs)

lemma fault_spec_loaded:
  "kind = ''code_hook'' \<or> kind = ''external_mutation'' \<Longrightarrow> load_all [(''A1'', ''h'', fault_spec kind ''response_loss'')] =
     Inr [(''A1'', \<lparr>sp_raw = fault_spec kind ''response_loss'', sp_hash = ''h''\<rparr>)]"
  using fault_spec_valid
  by (auto simp: load_all_def read_spec_def check_name_def scenario_id_def text_at_def entry_def yaml_entries_def
      require_def fault_spec_def[of _ "''response_loss''"])

lemma specs_are_ready_example:
  "\<exists>specs x. load_all [(''A1'', ''h'', fault_spec ''code_hook'' ''response_loss'')] = Inr specs \<and> (''A1'', x) \<in> set specs \<and>
     ''analysis'' \<notin> fst ` set (yaml_entries (run_view x))"
proof -
  have *: "load_all [(''A1'', ''h'', fault_spec ''code_hook'' ''response_loss'')] =
     Inr [(''A1'', \<lparr>sp_raw = fault_spec ''code_hook'' ''response_loss'', sp_hash = ''h''\<rparr>)]"
    by (rule fault_spec_loaded) simp
  from specs_are_ready[OF this, of "''A1''" "\<lparr>sp_raw = fault_spec ''code_hook'' ''response_loss'', sp_hash = ''h''\<rparr>"] *
  show ?thesis by auto
qed

text \<open>The checks let an external change pass that no injector exists for.\<close>

lemma unknown_change_passes:
  "\<exists>x. load_all [(''A1'', ''h'', fault_spec ''external_mutation'' ''response_loss'')] = Inr [(''A1'', x)] \<and>
     from_spec (run_view x) = Inl UnknownInjection"
  using fault_spec_loaded[of "''external_mutation''"]
  by (auto simp: from_spec_def Let_def run_view_entry(1) text_at_def injection_of_def templates_def)
    (simp_all add: fault_spec_def entry_def yaml_entries_def)

end
