(* ===== verification/Harness.thy ===== *)
theory Harness
  imports Nas
begin

text \<open>
  The data of the experiment harness (\<open>harness/\<close>): its ports, its verdicts, the rows of \<open>trial_manifest\<close> and
  the record of a trial.

  The collector and the other ports of the harness are outside; their replies are functions of the
  history, the list of the questions so far.  A verdict of a check is a string of the collector, so
  that unknown values are visible; identifiers in its evidence are texts or numbers.
\<close>

section \<open>The ports of the harness\<close>

datatype hexn = TrialStateError | BadArgument | PortError | HarnessFuel

datatype hevent = HvCollect string string | HvEnvironment | HvSnapshot | HvDb | HvArm | HvPoll | HvReport | HvDisarm
  | HvClock | HvSubmit | HvResubmit string | HvAdvance | HvDeclaration | HvSave

type_synonym hhist = "hevent list"

datatype ident = IdText string | IdNum int

fun ident_str :: "ident \<Rightarrow> string" where
  "ident_str (IdText t) = t"
| "ident_str (IdNum i) = show_int i"

text \<open>The evidence of a check: a dictionary of identifiers, or anything else.  The texts of error messages are
  left empty.\<close>

type_synonym evidence = "(string \<rightharpoonup> ident) option"

datatype collected = Raised | Said string evidence

datatype verdict = VPass | VFail | VUnknown

definition verdict_named :: "string \<Rightarrow> verdict option" where
  "verdict_named t = (if t = ''PASS'' then Some VPass else if t = ''FAIL'' then Some VFail
     else if t = ''UNKNOWN'' then Some VUnknown else None)"

record target =
  tg_user :: string
  tg_suffix :: "string option"
  tg_uid :: "ident option"

section \<open>Judgements\<close>

record domain =
  dm_result :: verdict
  dm_evidence :: evidence

record evaluation =
  ev_verdict :: verdict
  ev_domains :: "(string \<times> domain) list"
  ev_relations :: "(string \<times> verdict) list"

record protection =
  pt_verdict :: "verdict option"
  pt_bystanders :: "(string \<times> evaluation) list"

section \<open>Trials\<close>

text \<open>What is fixed before a trial: the columns of its row.\<close>

record plan =
  pl_trial :: string
  pl_scenario :: "string option"
  pl_method :: string
  pl_group :: string
  pl_operation :: string
  pl_horizon :: int
  pl_repetition :: int
  pl_revisions :: string

record trial_row =
  tr_plan :: plan
  tr_request :: "string option"
  tr_started :: int
  tr_ended :: "int option"

datatype cleanliness = EnvClean | EnvDirty | EnvUnknown

record env_record =
  en_verdict :: cleanliness
  en_user :: "string option"

text \<open>A list of resources: the Pods of each user, and whether the query of the Pods failed.\<close>

datatype snapshot = SnapFailed | SnapTaken "string \<rightharpoonup> string list" bool

record trial_record =
  rc_plan :: plan
  rc_request :: string
  rc_submitted :: int
  rc_declared :: "int option"
  rc_verified :: "int option"
  rc_end :: int
  rc_value :: "string option"
  rc_at_declaration :: "evaluation option"
  rc_at_horizon :: evaluation
  rc_samples :: "(int \<times> evaluation) list"
  rc_environment :: env_record
  rc_start :: "(string \<times> verdict) option"
  rc_injection :: "bool option"
  rc_scenario :: "(string \<times> string) option"
  rc_snapshots :: "(snapshot \<times> snapshot) option"
  rc_protection :: "(protection option \<times> protection option) option"

section \<open>State and outside\<close>

text \<open>A write is done, or not done, or done without the caller learning of it.\<close>

datatype written = WrDone | WrFailed | WrLost

record harness =
  hx_collect :: "string \<Rightarrow> string \<Rightarrow> hhist \<Rightarrow> collected"
  hx_environment :: "hhist \<Rightarrow> (string \<times> string option) option"
  hx_snapshot :: "hhist \<Rightarrow> snapshot"
  hx_db :: "hhist \<Rightarrow> written"
  hx_now :: "hhist \<Rightarrow> int"
  hx_arm :: "hhist \<Rightarrow> bool"
  hx_poll :: "hhist \<Rightarrow> bool"
  hx_report :: "hhist \<Rightarrow> bool option"
  hx_disarm :: "hhist \<Rightarrow> bool"
  hx_clock :: "hhist \<Rightarrow> int"
  hx_submit :: "hhist \<Rightarrow> string option"
  hx_resubmit :: "string \<Rightarrow> hhist \<Rightarrow> string option"
  hx_advance :: "hhist \<Rightarrow> bool"
  hx_declaration :: "hhist \<Rightarrow> string option option"
  hx_save :: "hhist \<Rightarrow> written"
  hx_fuel :: nat

record lab =
  lb_hist :: hhist
  lb_trials :: "trial_row list"
  lb_saved :: "trial_record list"

type_synonym 'a lab_prog = "(lab, hexn, 'a) prog"

definition port :: "hevent \<Rightarrow> (hhist \<Rightarrow> 'a) \<Rightarrow> 'a lab_prog" where
  "port ev f = bnd (getS (\<lambda>s. f (lb_hist s))) (\<lambda>x. thn (modS (\<lambda>s. s\<lparr>lb_hist := ev # lb_hist s\<rparr>)) (ret x))"

text \<open>A port that answers or raises.\<close>

definition must :: "hevent \<Rightarrow> (hhist \<Rightarrow> bool) \<Rightarrow> unit lab_prog" where
  "must ev f = bnd (port ev f) (\<lambda>fine. if fine then ret () else throw PortError)"

definition answer :: "hevent \<Rightarrow> (hhist \<Rightarrow> 'a option) \<Rightarrow> 'a lab_prog" where
  "answer ev f = bnd (port ev f) (\<lambda>x. case x of None \<Rightarrow> throw PortError | Some y \<Rightarrow> ret y)"

definition put :: "hevent \<Rightarrow> (hhist \<Rightarrow> written) \<Rightarrow> (lab \<Rightarrow> lab) \<Rightarrow> unit lab_prog" where
  "put ev f g = bnd (port ev f) (\<lambda>w. case w of
     WrDone \<Rightarrow> modS g
   | WrFailed \<Rightarrow> throw PortError
   | WrLost \<Rightarrow> thn (modS g) (throw PortError))"

lemma wp_port [wp_simps]: "wp (port ev f) Q R = (\<lambda>s. Q (f (lb_hist s)) (s\<lparr>lb_hist := ev # lb_hist s\<rparr>))"
  by (rule ext) (simp add: port_def wp_simps)

lemma run_port [run]: "port ev f s = (Inr (f (lb_hist s)), s\<lparr>lb_hist := ev # lb_hist s\<rparr>)"
  by (simp add: port_def run)

end
