(* ===== verification/Injector.thy ===== *)
theory Injector
  imports Scenarios Harness
begin

text \<open>
  The injectors of the harness (\<open>harness/fault_injector.py\<close>): a row of \<open>fault_arming\<close> for a hook in the target, or a
  network policy for a change from outside, each with \<open>arm\<close>, \<open>poll\<close>, \<open>report\<close> and \<open>disarm\<close>.

  The tables and the policies are shared with the target, which fires rows and writes its journal between the calls;
  each call is done, refused, or done without the caller learning of it.
\<close>

section \<open>State\<close>

record hook_row =
  hr_id :: int
  hr_key :: "string \<times> string \<times> string \<times> string"
  hr_occurrence :: int
  hr_created :: int
  hr_fired :: "int option"

text \<open>Of the journal: the successful rows with their user, action and time.\<close>

type_synonym success_row = "string \<times> string \<times> int"

record bench =
  bn_faults :: "hook_row list"
  bn_journal :: "success_row list"
  bn_policies :: "(string \<times> string) list"
  bn_now :: int
  bn_calls :: nat

text \<open>What an injector object remembers.\<close>

record hook =
  hk_armed :: bool

record change =
  ch_armed_at :: "int option"
  ch_fired_at :: "int option"
  ch_applied :: "bool option"

type_synonym 'a bench_prog = "(bench, hexn, 'a) prog"

definition call :: "(nat \<Rightarrow> written) \<Rightarrow> (bench \<Rightarrow> bench) \<Rightarrow> written bench_prog" where
  "call D f = bnd (getS (\<lambda>s. D (bn_calls s))) (\<lambda>w.
     thn (modS (\<lambda>s. (if w = WrFailed then s else f s)\<lparr>bn_calls := Suc (bn_calls s)\<rparr>)) (ret w))"

definition query :: "(nat \<Rightarrow> written) \<Rightarrow> (bench \<Rightarrow> bench) \<Rightarrow> unit bench_prog" where
  "query D f = bnd (call D f) (\<lambda>w. if w = WrDone then ret () else throw PortError)"

definition ask :: "(nat \<Rightarrow> written) \<Rightarrow> (bench \<Rightarrow> 'a) \<Rightarrow> 'a bench_prog" where
  "ask D f = bnd (getS f) (\<lambda>x. thn (query D (\<lambda>s. s)) (ret x))"

section \<open>The hook\<close>

definition step_actions :: "string \<Rightarrow> string option" where
  "step_actions = [''step_create_krb5_principal'' \<mapsto> ''CREATE_KRB5_PRINCIPAL'', ''step_create_pod_k8s'' \<mapsto> ''CREATE_POD_K8S'',
     ''step_create_services'' \<mapsto> ''CREATE_SERVICE'', ''step_remove_krb5'' \<mapsto> ''REMOVE_KRB5'']"

definition success_rows :: "string \<Rightarrow> string \<Rightarrow> (int \<Rightarrow> bool) \<Rightarrow> bench \<Rightarrow> nat" where
  "success_rows user act bound s = length (filter (\<lambda>(u, a, created). u = user \<and> a = act \<and> bound created) (bn_journal s))"

definition next_id :: "hook_row list \<Rightarrow> int" where
  "next_id rows = foldr (\<lambda>r m. max (hr_id r) m) rows 0 + 1"

text \<open>The column of the step takes no null.\<close>

definition hook_arm :: "(nat \<Rightarrow> written) \<Rightarrow> injection \<Rightarrow> string \<Rightarrow> hook \<Rightarrow> hook bench_prog" where
  "hook_arm D j user h = (if hk_armed h then ret h
     else case in_step j of
       None \<Rightarrow> thn (query D (\<lambda>s. s)) (throw PortError)
     | Some stp \<Rightarrow> thn (query D (\<lambda>s. s\<lparr>bn_faults := bn_faults s @ [\<lparr>hr_id = next_id (bn_faults s),
           hr_key = (user, stp, in_boundary j, in_action j), hr_occurrence = in_occurrence j,
           hr_created = bn_now s, hr_fired = None\<rparr>]\<rparr>)) (ret (h\<lparr>hk_armed := True\<rparr>)))"

datatype reason = NotFired | UnknownMethod | UnknownStep | NoSuccessUntil | SuccessBefore | NotReached | MutateFailed | PolicyUnseen

record report =
  rp_armed_at :: "int option"
  rp_fired_at :: "int option"
  rp_applied :: bool
  rp_verified :: bool
  rp_evidence :: "nat option"
  rp_reason :: "reason option"

definition key_is :: "injection \<Rightarrow> string \<Rightarrow> hook_row \<Rightarrow> bool" where
  "key_is j user r \<longleftrightarrow> (case in_step j of None \<Rightarrow> False | Some stp \<Rightarrow> hr_key r = (user, stp, in_boundary j, in_action j))"

text \<open>The row with the greatest number.\<close>

definition newest :: "hook_row list \<Rightarrow> hook_row option" where
  "newest rows = foldl (\<lambda>best r. case best of None \<Rightarrow> Some r | Some b \<Rightarrow> if hr_id b < hr_id r then Some r else best) None rows"

definition verify_hook :: "(nat \<Rightarrow> written) \<Rightarrow> injection \<Rightarrow> string \<Rightarrow> int \<Rightarrow> (bool \<times> nat option \<times> reason option) bench_prog" where
  "verify_hook D j user fired =
     (if in_verify j \<noteq> ''fired_after_success'' \<and> in_verify j \<noteq> ''fired_before_success'' then ret (False, None, Some UnknownMethod)
      else case Option.bind (in_step j) step_actions of
        None \<Rightarrow> ret (False, None, Some UnknownStep)
      | Some act \<Rightarrow>
          if in_verify j = ''fired_after_success'' then
            bnd (ask D (success_rows user act (\<lambda>t. t \<le> fired))) (\<lambda>n.
              ret (n > 0, Some n, if n = 0 then Some NoSuccessUntil else None))
          else
            bnd (ask D (success_rows user act (\<lambda>t. t < fired))) (\<lambda>n.
              ret (n = 0, Some n, if n = 0 then None else Some SuccessBefore)))"

definition hook_report :: "(nat \<Rightarrow> written) \<Rightarrow> injection \<Rightarrow> string \<Rightarrow> report bench_prog" where
  "hook_report D j user = bnd (ask D (\<lambda>s. newest (filter (key_is j user) (bn_faults s)))) (\<lambda>row.
     case Option.bind row hr_fired of
       None \<Rightarrow> ret \<lparr>rp_armed_at = map_option hr_created row, rp_fired_at = None, rp_applied = False, rp_verified = False,
         rp_evidence = None, rp_reason = Some NotFired\<rparr>
     | Some fired \<Rightarrow> bnd (verify_hook D j user fired) (\<lambda>(verified, evidence, why).
         ret \<lparr>rp_armed_at = map_option hr_created row, rp_fired_at = Some fired, rp_applied = True, rp_verified = verified,
           rp_evidence = evidence, rp_reason = why\<rparr>))"

definition hook_disarm :: "(nat \<Rightarrow> written) \<Rightarrow> injection \<Rightarrow> string \<Rightarrow> hook \<Rightarrow> hook bench_prog" where
  "hook_disarm D j user h = thn (query D (\<lambda>s. s\<lparr>bn_faults := filter (\<lambda>r. \<not> key_is j user r) (bn_faults s)\<rparr>))
     (ret (h\<lparr>hk_armed := False\<rparr>))"

section \<open>The change from outside\<close>

definition policy_name :: "string \<Rightarrow> string \<Rightarrow> string" where
  "policy_name tpl run = ''vasc-'' @ tpl @ ''-'' @ run"

text \<open>A policy stands with the label of its run.\<close>

definition apply_change :: "(nat \<Rightarrow> written) \<Rightarrow> string \<Rightarrow> string \<Rightarrow> change \<Rightarrow> change bench_prog" where
  "apply_change D tpl run c = bnd (getS bn_now) (\<lambda>t.
     bnd (call D (\<lambda>s. s\<lparr>bn_policies := List.insert (run, policy_name tpl run) (bn_policies s)\<rparr>)) (\<lambda>w.
     ret (c\<lparr>ch_fired_at := Some t, ch_applied := Some (w = WrDone)\<rparr>)))"

definition change_arm :: "(nat \<Rightarrow> written) \<Rightarrow> injection \<Rightarrow> string \<Rightarrow> string \<Rightarrow> change \<Rightarrow> change bench_prog" where
  "change_arm D j tpl run c = (if ch_armed_at c \<noteq> None then ret c
     else bnd (getS bn_now) (\<lambda>t. let c' = c\<lparr>ch_armed_at := Some t\<rparr> in
       if in_action j = ''ad_block'' then apply_change D tpl run c' else ret c'))"

definition change_poll :: "(nat \<Rightarrow> written) \<Rightarrow> injection \<Rightarrow> string \<Rightarrow> string \<Rightarrow> string \<Rightarrow> change \<Rightarrow> change bench_prog" where
  "change_poll D j user tpl run c = (if in_action j \<noteq> ''endpoint_block'' \<or> ch_applied c \<noteq> None then ret c
     else bnd (ask D (success_rows user ''CREATE_SERVICE'' (\<lambda>_. True))) (\<lambda>n.
       if n > 0 then apply_change D tpl run c else ret c))"

definition change_report :: "(nat \<Rightarrow> written) \<Rightarrow> injection \<Rightarrow> string \<Rightarrow> string \<Rightarrow> change \<Rightarrow> report bench_prog" where
  "change_report D j tpl run c =
     (let rep = (\<lambda>v why. \<lparr>rp_armed_at = ch_armed_at c, rp_fired_at = ch_fired_at c, rp_applied = (ch_applied c = Some True),
        rp_verified = v, rp_evidence = None, rp_reason = why\<rparr>) in
      case ch_applied c of
        None \<Rightarrow> ret (rep False (Some NotReached))
      | Some False \<Rightarrow> ret (rep False (Some MutateFailed))
      | Some True \<Rightarrow> bnd (getS (\<lambda>s. (run, policy_name tpl run) \<in> set (bn_policies s))) (\<lambda>there.
          bnd (call D (\<lambda>s. s)) (\<lambda>w. let v = (w = WrDone \<and> there) in
          ret (rep v (if v then None else Some PolicyUnseen)))))"

definition change_disarm :: "(nat \<Rightarrow> written) \<Rightarrow> string \<Rightarrow> change \<Rightarrow> change bench_prog" where
  "change_disarm D run c = (if ch_armed_at c = None then ret c
     else thn (query D (\<lambda>s. s\<lparr>bn_policies := filter (\<lambda>(r, i). r \<noteq> run) (bn_policies s)\<rparr>)) (ret (c\<lparr>ch_armed_at := None\<rparr>)))"

section \<open>Reports and what stays behind\<close>

lemma wp_call [wp_simps]:
  "wp (call D f) Q R = (\<lambda>s. Q (D (bn_calls s)) ((if D (bn_calls s) = WrFailed then s else f s)\<lparr>bn_calls := Suc (bn_calls s)\<rparr>))"
  by (rule ext) (simp add: call_def wp_simps)

lemma newest_in: "newest rows = Some r \<Longrightarrow> r \<in> set rows"
proof -
  have "foldl (\<lambda>best r. case best of None \<Rightarrow> Some r | Some b \<Rightarrow> if hr_id b < hr_id r then Some r else best) best rows = Some r \<Longrightarrow>
      r \<in> set rows \<or> best = Some r" for best
    by (induction rows arbitrary: best) (fastforce split: option.splits if_splits)+
  from this[of None] show "newest rows = Some r \<Longrightarrow> r \<in> set rows" by (simp add: newest_def)
qed

lemma success_rows_iff: "0 < success_rows user act bound s \<longleftrightarrow> (\<exists>created. (user, act, created) \<in> set (bn_journal s) \<and> bound created)"
proof -
  have "0 < success_rows user act bound s \<longleftrightarrow> (\<exists>x\<in>set (bn_journal s). case x of (u, a, created) \<Rightarrow> u = user \<and> a = act \<and> bound created)"
    by (simp add: success_rows_def filter_empty_conv)
  then show ?thesis by auto
qed

text \<open>A report that is honest about the state it was made from.\<close>

definition honest_hook :: "injection \<Rightarrow> string \<Rightarrow> bench \<Rightarrow> report \<Rightarrow> bool" where
  "honest_hook j user s x \<longleftrightarrow> (rp_verified x \<longleftrightarrow> rp_reason x = None) \<and> (rp_verified x \<longrightarrow> rp_applied x) \<and>
     (rp_applied x \<longleftrightarrow> rp_fired_at x \<noteq> None) \<and>
     (\<forall>t. rp_fired_at x = Some t \<longrightarrow> (\<exists>r\<in>set (bn_faults s). key_is j user r \<and> hr_fired r = Some t)) \<and>
     (\<forall>t. rp_verified x \<and> rp_fired_at x = Some t \<longrightarrow> (\<exists>act. Option.bind (in_step j) step_actions = Some act \<and>
        (if in_verify j = ''fired_after_success'' then \<exists>u\<le>t. (user, act, u) \<in> set (bn_journal s)
         else in_verify j = ''fired_before_success'' \<and> (\<forall>u<t. (user, act, u) \<notin> set (bn_journal s)))))"

definition honest_change :: "string \<Rightarrow> string \<Rightarrow> change \<Rightarrow> bench \<Rightarrow> report \<Rightarrow> bool" where
  "honest_change tpl run c s x \<longleftrightarrow> (rp_verified x \<longleftrightarrow> rp_reason x = None) \<and> (rp_verified x \<longrightarrow> rp_applied x) \<and>
     (rp_applied x \<longleftrightarrow> ch_applied c = Some True) \<and> (rp_verified x \<longrightarrow> (run, policy_name tpl run) \<in> set (bn_policies s))"

lemma wp_query [wp_simps]:
  "wp (query D f) Q R = (\<lambda>s. let w = D (bn_calls s); t = (if w = WrFailed then s else f s)\<lparr>bn_calls := Suc (bn_calls s)\<rparr> in
     if w = WrDone then Q () t else R PortError t)"
  by (rule ext) (simp add: query_def wp_simps Let_def)

lemma verify_hook_honest:
  "wp (verify_hook D j user fired) (\<lambda>(v, n, why) _. (v \<longleftrightarrow> why = None) \<and>
     (v \<longrightarrow> (\<exists>act. Option.bind (in_step j) step_actions = Some act \<and>
        (if in_verify j = ''fired_after_success'' then \<exists>u\<le>fired. (user, act, u) \<in> set (bn_journal s)
         else in_verify j = ''fired_before_success'' \<and> (\<forall>u<fired. (user, act, u) \<notin> set (bn_journal s)))))) (\<lambda>_ _. True) s"
proof -
  have "success_rows user act bound (s\<lparr>bn_calls := k\<rparr>) = success_rows user act bound s" for act bound k
    by (simp add: success_rows_def)
  moreover have "success_rows user act bound s = 0 \<longleftrightarrow> (\<forall>u. bound u \<longrightarrow> (user, act, u) \<notin> set (bn_journal s))" for act bound
    using success_rows_iff[of user act bound s] by auto
  ultimately show ?thesis
    by (auto simp: verify_hook_def ask_def wp_simps Let_def success_rows_iff split: option.split)
qed

lemma hook_report_honest: "wp (hook_report D j user) (\<lambda>x _. honest_hook j user s x) (\<lambda>_ _. True) s"
proof -
  let ?row = "newest (filter (key_is j user) (bn_faults s))"
  have "wp (case Option.bind ?row hr_fired of
       None \<Rightarrow> ret \<lparr>rp_armed_at = map_option hr_created ?row, rp_fired_at = None, rp_applied = False, rp_verified = False,
         rp_evidence = None, rp_reason = Some NotFired\<rparr>
     | Some fired \<Rightarrow> bnd (verify_hook D j user fired) (\<lambda>(verified, evidence, why).
         ret \<lparr>rp_armed_at = map_option hr_created ?row, rp_fired_at = Some fired, rp_applied = True, rp_verified = verified,
           rp_evidence = evidence, rp_reason = why\<rparr>)) (\<lambda>x _. honest_hook j user s x) (\<lambda>_ _. True) (s\<lparr>bn_calls := k\<rparr>)" for k
  proof (cases "Option.bind ?row hr_fired")
    case (Some fired)
    then obtain r where r: "?row = Some r" "hr_fired r = Some fired" by (cases ?row) auto
    from newest_in[OF r(1)] r(2) have row: "\<exists>r\<in>set (bn_faults s). key_is j user r \<and> hr_fired r = Some fired" by auto
    show ?thesis
      unfolding Some option.case wp_bnd
      by (rule wp_weaken[OF verify_hook_honest]) (use row in \<open>auto simp: wp_simps honest_hook_def\<close>)
  qed (simp add: wp_simps honest_hook_def)
  then show ?thesis by (auto simp: hook_report_def ask_def wp_simps Let_def)
qed

lemma change_report_honest: "wp (change_report D j tpl run c) (\<lambda>x _. honest_change tpl run c s x) (\<lambda>_ _. True) s"
  by (auto simp: change_report_def Let_def wp_simps honest_change_def split: option.split bool.split)

text \<open>Reports of injectors are honest and disarming is complete: a report names no reason exactly when it is verified, what is verified was applied; a hook that is verified was fired by the target at the time the report gives, with a success of its step up to then, or none before, as the specification asks; a verified change stands in the cluster; after a call to disarm that returns no row of the hook, and no policy of the run, is left and nothing else was touched.\<close>

lemma injectors_are_honest:
  "(hook_report D j user s = (Inr x, t) \<longrightarrow> honest_hook j user s x) \<and>
   (change_report D j tpl run c s = (Inr x, t) \<longrightarrow> honest_change tpl run c s x) \<and>
   (hook_disarm D j user h s = (Inr h', t) \<longrightarrow> \<not> hk_armed h' \<and> bn_faults t = filter (\<lambda>r. \<not> key_is j user r) (bn_faults s) \<and>
      bn_journal t = bn_journal s \<and> bn_policies t = bn_policies s) \<and>
   (change_disarm D run c s = (Inr c', t) \<and> ch_armed_at c \<noteq> None \<longrightarrow> ch_armed_at c' = None \<and>
      bn_policies t = filter (\<lambda>(r, i). r \<noteq> run) (bn_policies s) \<and> bn_faults t = bn_faults s \<and> bn_journal t = bn_journal s)"
proof -
  have d: "wp (hook_disarm D j user h) (\<lambda>h' t. \<not> hk_armed h' \<and> bn_faults t = filter (\<lambda>r. \<not> key_is j user r) (bn_faults s) \<and>
      bn_journal t = bn_journal s \<and> bn_policies t = bn_policies s) (\<lambda>_ _. True) s"
    by (simp add: hook_disarm_def wp_simps Let_def)
  have e: "wp (change_disarm D run c) (\<lambda>c' t. ch_armed_at c \<noteq> None \<longrightarrow> ch_armed_at c' = None \<and>
      bn_policies t = filter (\<lambda>(r, i). r \<noteq> run) (bn_policies s) \<and> bn_faults t = bn_faults s \<and> bn_journal t = bn_journal s) (\<lambda>_ _. True) s"
    by (simp add: change_disarm_def wp_simps Let_def)
  show ?thesis
    using wp_Inr[OF hook_report_honest] wp_Inr[OF change_report_honest] wp_Inr[OF d] wp_Inr[OF e] by blast
qed

text \<open>A fired hook after a success of its step, and what disarming it leaves.\<close>

definition hook0 :: injection where
  "hook0 = \<lparr>in_boundary = ''X4'', in_step = Some ''step_create_services'', in_action = ''response_loss'', in_occurrence = 1,
     in_verify = ''fired_after_success''\<rparr>"

definition bench0 :: bench where
  "bench0 = \<lparr>bn_faults = [\<lparr>hr_id = 1, hr_key = (''kim'', ''step_create_services'', ''X4'', ''response_loss''), hr_occurrence = 1,
      hr_created = 3, hr_fired = Some 5\<rparr>], bn_journal = [(''kim'', ''CREATE_SERVICE'', 4)], bn_policies = [], bn_now = 6, bn_calls = 0\<rparr>"

lemma injectors_are_honest_example:
  "\<exists>x t h u. hook_report (\<lambda>_. WrDone) hook0 ''kim'' bench0 = (Inr x, t) \<and> rp_verified x \<and> honest_hook hook0 ''kim'' bench0 x \<and>
     hook_disarm (\<lambda>_. WrDone) hook0 ''kim'' \<lparr>hk_armed = True\<rparr> bench0 = (Inr h, u) \<and> bn_faults u = []"
proof -
  obtain x t where r: "hook_report (\<lambda>_. WrDone) hook0 ''kim'' bench0 = (Inr x, t)" "rp_verified x"
    by (simp add: hook_report_def ask_def query_def call_def run newest_def key_is_def hook0_def bench0_def verify_hook_def
        step_actions_def success_rows_def)
  obtain h u where d: "hook_disarm (\<lambda>_. WrDone) hook0 ''kim'' \<lparr>hk_armed = True\<rparr> bench0 = (Inr h, u)"
    by (simp add: hook_disarm_def query_def call_def run)
  from injectors_are_honest[of "\<lambda>_. WrDone" hook0 "''kim''" bench0] r d
  have "honest_hook hook0 ''kim'' bench0 x" "bn_faults u = filter (\<lambda>r. \<not> key_is hook0 ''kim'' r) (bn_faults bench0)" by blast+
  with r d show ?thesis by (auto simp: key_is_def hook0_def bench0_def)
qed

end
