(* ===== verification/Evaluator.thy ===== *)
theory Evaluator
  imports Harness "HOL-Library.AList"
begin

text \<open>
  The evaluator of the experiment harness (\<open>harness/evaluator.py\<close>): the only place that judges whether an
  account can be used or is really gone, from what a collector saw.
\<close>

section \<open>Checks\<close>

definition creation_checks :: "string list" where
  "creation_checks = [''login'', ''compute_uid'', ''storage_rw'', ''credential'', ''compute_gpu'', ''compute_nfs'', ''endpoint'']"

definition reclamation_checks :: "string list" where
  "reclamation_checks = [''login_blocked'', ''credential_blocked'', ''compute_blocked'', ''endpoint_blocked'']"

definition fold_verdicts :: "verdict list \<Rightarrow> verdict" where
  "fold_verdicts vs = (if VFail \<in> set vs then VFail else if set vs = {VPass} then VPass else VUnknown)"

text \<open>What the collector answers is judged: an exception or an unknown value is \<open>UNKNOWN\<close>.\<close>

definition judge_check :: "collected \<Rightarrow> domain" where
  "judge_check c = (case c of
     Raised \<Rightarrow> \<lparr>dm_result = VUnknown, dm_evidence = Some [''collector_error'' \<mapsto> IdText [], ''message'' \<mapsto> IdText []]\<rparr>
   | Said r detail \<Rightarrow> (case verdict_named r of
       None \<Rightarrow> \<lparr>dm_result = VUnknown, dm_evidence = Some [''unexpected_result'' \<mapsto> IdText r, ''detail'' \<mapsto> IdText []]\<rparr>
     | Some v \<Rightarrow> \<lparr>dm_result = v, dm_evidence = detail\<rparr>))"

definition collect_all :: "harness \<Rightarrow> string list \<Rightarrow> target \<Rightarrow> (string \<times> domain) list lab_prog" where
  "collect_all H names tg = mapM names (\<lambda>n.
     bnd (port (HvCollect n (tg_user tg)) (hx_collect H n (tg_user tg))) (\<lambda>c. ret (n, judge_check c)))"

section \<open>Relations\<close>

definition id_of :: "(string \<times> domain) list \<Rightarrow> string \<Rightarrow> string \<Rightarrow> ident option" where
  "id_of ds n key = (case map_of ds n of None \<Rightarrow> None
     | Some d \<Rightarrow> (case dm_evidence d of None \<Rightarrow> None | Some ev \<Rightarrow> ev key))"

definition relation_of :: "bool option \<Rightarrow> verdict" where
  "relation_of ok = (case ok of None \<Rightarrow> VUnknown | Some b \<Rightarrow> if b then VPass else VFail)"

definition ends_with :: "string \<Rightarrow> string \<Rightarrow> bool" where
  "ends_with s suffix \<longleftrightarrow> length suffix \<le> length s \<and> drop (length s - length suffix) s = suffix"

definition endpoint_to_pod :: "(string \<times> domain) list \<Rightarrow> bool option" where
  "endpoint_to_pod ds = (case (id_of ds ''endpoint'' ''backend_pod_uid'', id_of ds ''login'' ''pod_uid'') of
     (Some b, Some l) \<Rightarrow> Some (b = l) | _ \<Rightarrow> None)"

definition mount_target :: "(string \<times> domain) list \<Rightarrow> target \<Rightarrow> bool option" where
  "mount_target ds tg = (case (id_of ds ''compute_nfs'' ''mount_source'', tg_suffix tg) of
     (Some src, Some suffix) \<Rightarrow> Some (ends_with (ident_str src) suffix) | _ \<Rightarrow> None)"

definition runtime_uid_vs_expected :: "(string \<times> domain) list \<Rightarrow> target \<Rightarrow> bool option" where
  "runtime_uid_vs_expected ds tg = (case (id_of ds ''compute_uid'' ''runtime_uid'', tg_uid tg) of
     (Some r, Some e) \<Rightarrow> Some (ident_str r = ident_str e) | _ \<Rightarrow> None)"

definition relations :: "(string \<times> domain) list \<Rightarrow> target \<Rightarrow> (string \<times> verdict) list" where
  "relations ds tg = [(''endpoint_to_pod'', relation_of (endpoint_to_pod ds)),
     (''mount_target'', relation_of (mount_target ds tg)),
     (''runtime_uid_vs_expected'', relation_of (runtime_uid_vs_expected ds tg))]"

definition required_relations :: "string list" where
  "required_relations = [''endpoint_to_pod'', ''mount_target'']"

section \<open>Judgements\<close>

definition creation_judged :: "target \<Rightarrow> (string \<times> domain) list \<Rightarrow> evaluation" where
  "creation_judged tg ds = (let rs = relations ds tg in
     \<lparr>ev_verdict = fold_verdicts (map (dm_result \<circ> snd) ds @ map (\<lambda>n. the (map_of rs n)) required_relations),
      ev_domains = ds, ev_relations = rs\<rparr>)"

definition evaluate_creation :: "harness \<Rightarrow> target \<Rightarrow> evaluation lab_prog" where
  "evaluate_creation H tg = bnd (collect_all H creation_checks tg) (\<lambda>ds. ret (creation_judged tg ds))"

definition evaluate_reclamation :: "harness \<Rightarrow> target \<Rightarrow> evaluation lab_prog" where
  "evaluate_reclamation H tg = bnd (collect_all H reclamation_checks tg) (\<lambda>ds.
     ret \<lparr>ev_verdict = fold_verdicts (map (dm_result \<circ> snd) ds), ev_domains = ds, ev_relations = []\<rparr>)"

text \<open>One evaluation per name of a bystander; without any there is no verdict.\<close>

definition protection_judged :: "(string \<times> evaluation) list \<Rightarrow> protection" where
  "protection_judged rs = \<lparr>pt_verdict = (if rs = [] then None else Some (fold_verdicts (map (ev_verdict \<circ> snd) rs))),
     pt_bystanders = rs\<rparr>"

definition evaluate_protection :: "harness \<Rightarrow> target list \<Rightarrow> protection lab_prog" where
  "evaluate_protection H bs =
     bnd (foldM (\<lambda>b rs. bnd (evaluate_creation H b) (\<lambda>e. ret (AList.update (tg_user b) e rs))) bs [])
         (\<lambda>rs. ret (protection_judged rs))"

section \<open>What a verdict says\<close>

lemma fold_verdicts_iff [simp]:
  "fold_verdicts vs = VFail \<longleftrightarrow> VFail \<in> set vs"
  "fold_verdicts vs = VPass \<longleftrightarrow> vs \<noteq> [] \<and> (\<forall>v\<in>set vs. v = VPass)"
proof -
  have "set vs = {VPass} \<longleftrightarrow> vs \<noteq> [] \<and> (\<forall>v\<in>set vs. v = VPass)" by (cases vs) auto
  then show "fold_verdicts vs = VFail \<longleftrightarrow> VFail \<in> set vs"
    "fold_verdicts vs = VPass \<longleftrightarrow> vs \<noteq> [] \<and> (\<forall>v\<in>set vs. v = VPass)"
    by (auto simp: fold_verdicts_def)
qed

lemma judge_check_iff:
  "dm_result (judge_check c) = VPass \<longleftrightarrow> (\<exists>ev. c = Said ''PASS'' ev)"
  "dm_result (judge_check c) = VFail \<longleftrightarrow> (\<exists>ev. c = Said ''FAIL'' ev)"
  by (cases c; simp add: judge_check_def verdict_named_def)+

lemma relation_of_iff [simp]:
  "relation_of x = VPass \<longleftrightarrow> x = Some True" "relation_of x = VFail \<longleftrightarrow> x = Some False"
  by (auto simp: relation_of_def split: option.split)

lemma creation_judged_iff:
  "ev_verdict (creation_judged tg ds) = VFail \<longleftrightarrow>
     (\<exists>d\<in>snd ` set ds. dm_result d = VFail) \<or> endpoint_to_pod ds = Some False \<or> mount_target ds tg = Some False"
  "ev_verdict (creation_judged tg ds) = VPass \<longleftrightarrow>
     (\<forall>d\<in>snd ` set ds. dm_result d = VPass) \<and> endpoint_to_pod ds = Some True \<and> mount_target ds tg = Some True"
  by (auto simp: creation_judged_def Let_def relations_def required_relations_def image_iff eq_commute[of VFail])

end
