(* ===== verification/Trials.thy ===== *)
theory Trials
  imports Evaluator
begin

text \<open>
  Trials of the experiment harness: the rows of \<open>trial_manifest\<close> (\<open>harness/trial.py\<close>) and the run of a trial and
  of a pair of trials (\<open>harness/trial_runner.py\<close>).

  A statement and its commit are one write.  Times of the database and of the monotonic clock are
  integers; the loop of the observation has fuel.
\<close>

section \<open>Rows\<close>

definition trial_named :: "string \<Rightarrow> trial_row \<Rightarrow> bool" where
  "trial_named i r \<longleftrightarrow> pl_trial (tr_plan r) = i"

text \<open>\<open>_one\<close>: the row of a trial.\<close>

definition one_trial :: "harness \<Rightarrow> string \<Rightarrow> trial_row lab_prog" where
  "one_trial H i = bnd (port HvDb (hx_db H)) (\<lambda>w.
     if w \<noteq> WrDone then throw PortError
     else bnd (getS lb_trials) (\<lambda>rows. case find (trial_named i) rows of
            None \<Rightarrow> throw TrialStateError
          | Some r \<Rightarrow> ret r))"

text \<open>The number of a trial is the primary key.\<close>

definition open_trial :: "harness \<Rightarrow> plan \<Rightarrow> unit lab_prog" where
  "open_trial H p = bnd (getS (\<lambda>s. (hx_now H (lb_hist s), list_ex (trial_named (pl_trial p)) (lb_trials s)))) (\<lambda>(now, there).
     if there then thn (port HvDb (hx_db H)) (throw PortError)
     else put HvDb (hx_db H) (\<lambda>s. s\<lparr>lb_trials := lb_trials s @
       [\<lparr>tr_plan = p, tr_request = None, tr_started = now, tr_ended = None\<rparr>]\<rparr>))"

definition update_trial :: "string \<Rightarrow> (trial_row \<Rightarrow> trial_row) \<Rightarrow> lab \<Rightarrow> lab" where
  "update_trial i f s = s\<lparr>lb_trials := map (\<lambda>r. if trial_named i r then f r else r) (lb_trials s)\<rparr>"

definition bind_request :: "harness \<Rightarrow> string \<Rightarrow> string \<Rightarrow> unit lab_prog" where
  "bind_request H i request = bnd (one_trial H i) (\<lambda>r.
     if tr_request r \<noteq> None \<and> tr_request r \<noteq> Some request then throw TrialStateError
     else put HvDb (hx_db H) (update_trial i (\<lambda>r. r\<lparr>tr_request := Some request\<rparr>)))"

definition close_trial :: "harness \<Rightarrow> string \<Rightarrow> unit lab_prog" where
  "close_trial H i = bnd (one_trial H i) (\<lambda>r.
     if tr_ended r \<noteq> None then throw TrialStateError
     else bnd (getS (\<lambda>s. hx_now H (lb_hist s))) (\<lambda>now.
       put HvDb (hx_db H) (update_trial i (\<lambda>r. r\<lparr>tr_ended := Some now\<rparr>))))"

text \<open>A row of the operation log as the harness reads it: number, request, time.\<close>

type_synonym event_row = "int \<times> string option \<times> int"

definition in_window :: "trial_row \<Rightarrow> event_row \<Rightarrow> bool" where
  "in_window r e = (case e of (i, request, created) \<Rightarrow>
     request = tr_request r \<and> tr_started r \<le> created \<and> (case tr_ended r of None \<Rightarrow> True | Some x \<Rightarrow> created \<le> x))"

definition events_of :: "harness \<Rightarrow> (hhist \<Rightarrow> event_row list) \<Rightarrow> string \<Rightarrow> event_row list lab_prog" where
  "events_of H log i = bnd (one_trial H i) (\<lambda>r.
     if tr_request r = None then ret []
     else bnd (port HvDb (hx_db H)) (\<lambda>w.
       if w \<noteq> WrDone then throw PortError
       else bnd (getS (\<lambda>s. log (lb_hist s))) (\<lambda>es.
         ret (sort_key (\<lambda>(i, request, created). created)
           (sort_key (\<lambda>(i, request, created). i) (filter (in_window r) es))))))"

section \<open>One trial\<close>

record trial_args =
  ra_plan :: plan
  ra_user :: string
  ra_suffix :: "string option"
  ra_uid :: "ident option"
  ra_start :: "(string \<times> verdict) option"
  ra_injector :: bool
  ra_scenario :: "(string \<times> string) option"
  ra_sample_every :: "int option"
  ra_snapshot :: bool
  ra_bystanders :: "target list option"

definition judge_environment :: "harness \<Rightarrow> env_record lab_prog" where
  "judge_environment H = bnd (port HvEnvironment (hx_environment H)) (\<lambda>x. ret (case x of
     None \<Rightarrow> \<lparr>en_verdict = EnvUnknown, en_user = None\<rparr>
   | Some (v, user) \<Rightarrow>
       if v = ''CLEAN'' then \<lparr>en_verdict = EnvClean, en_user = user\<rparr>
       else if v = ''DIRTY'' then \<lparr>en_verdict = EnvDirty, en_user = user\<rparr>
       else if v = ''UNKNOWN'' then \<lparr>en_verdict = EnvUnknown, en_user = user\<rparr>
       else \<lparr>en_verdict = EnvUnknown, en_user = None\<rparr>))"

definition evaluate :: "harness \<Rightarrow> string \<Rightarrow> target \<Rightarrow> evaluation lab_prog" where
  "evaluate H operation tg = (if operation = ''CREATE'' then evaluate_creation H tg else evaluate_reclamation H tg)"

definition target_of :: "trial_args \<Rightarrow> target" where
  "target_of a = \<lparr>tg_user = ra_user a,
     tg_suffix = Some (case ra_suffix a of None \<Rightarrow> ''/'' @ ra_user a | Some x \<Rightarrow> x), tg_uid = ra_uid a\<rparr>"

definition judge_protection :: "harness \<Rightarrow> trial_args \<Rightarrow> protection option lab_prog" where
  "judge_protection H a = (case ra_bystanders a of
     None \<Rightarrow> ret None
   | Some bs \<Rightarrow> tryE (bnd (evaluate_protection H bs) (\<lambda>p. ret (Some p))) (\<lambda>_. ret None))"

definition take_snapshot :: "harness \<Rightarrow> trial_args \<Rightarrow> snapshot lab_prog" where
  "take_snapshot H a = (if ra_snapshot a then port HvSnapshot (hx_snapshot H) else ret SnapFailed)"

text \<open>The arguments that are refused before anything is done.\<close>

definition bad_arguments :: "trial_args \<Rightarrow> bool" where
  "bad_arguments a \<longleftrightarrow> pl_operation (ra_plan a) \<notin> {''CREATE'', ''REVOKE''} \<or>
     pl_operation (ra_plan a) = ''CREATE'' \<and> ra_start a \<noteq> None \<or>
     (case ra_sample_every a of None \<Rightarrow> False | Some k \<Rightarrow> k < 1) \<or>
     (case (ra_scenario a, pl_scenario (ra_plan a)) of (Some (i, h), Some j) \<Rightarrow> i \<noteq> j | _ \<Rightarrow> False)"

text \<open>What was observed so far.\<close>

record watch =
  wt_value :: "string option"
  wt_declared :: "int option"
  wt_judged :: "evaluation option"
  wt_samples :: "(int \<times> evaluation) list"
  wt_steps :: int

definition watch_start :: watch where
  "watch_start = \<lparr>wt_value = None, wt_declared = None, wt_judged = None, wt_samples = [], wt_steps = 0\<rparr>"

definition look_once :: "harness \<Rightarrow> trial_args \<Rightarrow> watch \<Rightarrow> watch lab_prog" where
  "look_once H a w =
     (if wt_value w = None then
        bnd (answer HvDeclaration (hx_declaration H)) (\<lambda>v. case v of
          None \<Rightarrow> ret w
        | Some d \<Rightarrow> bnd (port HvClock (hx_clock H)) (\<lambda>t.
            bnd (evaluate H (pl_operation (ra_plan a)) (target_of a)) (\<lambda>e.
            ret (w\<lparr>wt_value := Some d, wt_declared := Some t, wt_judged := Some e\<rparr>))))
      else (case ra_sample_every a of
          None \<Rightarrow> ret w
        | Some k \<Rightarrow> let steps = wt_steps w + 1; w' = w\<lparr>wt_steps := steps\<rparr> in
            if steps mod k = 0 then bnd (port HvClock (hx_clock H)) (\<lambda>t.
              bnd (evaluate H (pl_operation (ra_plan a)) (target_of a)) (\<lambda>e.
              ret (w'\<lparr>wt_samples := wt_samples w' @ [(t, e)]\<rparr>)))
            else ret w'))"

fun observe :: "harness \<Rightarrow> trial_args \<Rightarrow> int \<Rightarrow> nat \<Rightarrow> watch \<Rightarrow> watch lab_prog" where
  "observe H a t0 0 w = throw HarnessFuel"
| "observe H a t0 (Suc n) w = bnd (port HvClock (hx_clock H)) (\<lambda>t.
     if t - t0 < pl_horizon (ra_plan a) then
       thn (must HvAdvance (hx_advance H))
      (thn (if ra_injector a then must HvPoll (hx_poll H) else ret ())
      (bnd (look_once H a w) (\<lambda>w'. observe H a t0 n w')))
     else ret w)"

definition verified_at :: "watch \<Rightarrow> evaluation \<Rightarrow> int \<Rightarrow> int option" where
  "verified_at w h t = (case wt_judged w of
     Some e \<Rightarrow> if ev_verdict e = VPass then wt_declared w
       else if wt_value w \<noteq> None \<and> ev_verdict h = VPass then Some t else None
   | None \<Rightarrow> if wt_value w \<noteq> None \<and> ev_verdict h = VPass then Some t else None)"

text \<open>The body of the \<open>try\<close> block: the record, but for what was taken before the trial.\<close>

definition trial_body :: "harness \<Rightarrow> trial_args \<Rightarrow> string lab_prog \<Rightarrow> env_record \<Rightarrow> snapshot \<Rightarrow> protection option \<Rightarrow>
    trial_record lab_prog" where
  "trial_body H a submit en before prot =
     bnd (port HvClock (hx_clock H)) (\<lambda>t0.
     bnd submit (\<lambda>request.
     thn (bind_request H (pl_trial (ra_plan a)) request)
     (bnd (observe H a t0 (hx_fuel H) watch_start) (\<lambda>w.
     bnd (port HvClock (hx_clock H)) (\<lambda>t1.
     bnd (evaluate H (pl_operation (ra_plan a)) (target_of a)) (\<lambda>h.
     bnd (judge_protection H a) (\<lambda>prot'.
     thn (close_trial H (pl_trial (ra_plan a)))
     (bnd (take_snapshot H a) (\<lambda>after.
     bnd (if ra_injector a then bnd (answer HvReport (hx_report H)) (\<lambda>v. ret (Some v)) else ret None) (\<lambda>inj.
     ret \<lparr>rc_plan = ra_plan a, rc_request = request, rc_submitted = t0, rc_declared = wt_declared w,
          rc_verified = verified_at w h t1, rc_end = t1, rc_value = wt_value w, rc_at_declaration = wt_judged w,
          rc_at_horizon = h, rc_samples = wt_samples w, rc_environment = en, rc_start = ra_start a,
          rc_injection = inj, rc_scenario = ra_scenario a,
          rc_snapshots = (if ra_snapshot a then Some (before, after) else None),
          rc_protection = (if ra_bystanders a = None then None else Some (prot, prot'))\<rparr>))))))))))"

definition save_record :: "harness \<Rightarrow> trial_record \<Rightarrow> unit lab_prog" where
  "save_record H r = put HvSave (hx_save H) (\<lambda>s. s\<lparr>lb_saved := r # lb_saved s\<rparr>)"

definition run_trial :: "harness \<Rightarrow> trial_args \<Rightarrow> string lab_prog \<Rightarrow> trial_record lab_prog" where
  "run_trial H a submit =
     (if bad_arguments a then throw BadArgument
      else bnd (judge_environment H) (\<lambda>en.
           bnd (take_snapshot H a) (\<lambda>before.
           bnd (judge_protection H a) (\<lambda>prot.
           thn (open_trial H (ra_plan a))
          (thn (if ra_injector a then must HvArm (hx_arm H) else ret ())
          (bnd (finallyE (trial_body H a submit en before prot)
                 (if ra_injector a then must HvDisarm (hx_disarm H) else ret ())) (\<lambda>r.
           thn (save_record H r) (ret r))))))))"

section \<open>A pair of trials\<close>

definition submit_creation :: "harness \<Rightarrow> string lab_prog" where
  "submit_creation H = answer HvSubmit (hx_submit H)"

definition submit_revocation :: "harness \<Rightarrow> string \<Rightarrow> string lab_prog" where
  "submit_revocation H request = bnd (answer (HvResubmit request) (hx_resubmit H request)) (\<lambda>returned.
     if returned \<noteq> request then throw TrialStateError else ret returned)"

text \<open>What a pair is given; its trials are not sampled and have no expectation beyond the name.\<close>

record pair_args =
  pa_create_id :: string
  pa_revoke_id :: string
  pa_create_scenario :: "string option"
  pa_revoke_scenario :: "string option"
  pa_create_spec :: "(string \<times> string) option"
  pa_revoke_spec :: "(string \<times> string) option"
  pa_create_injector :: bool
  pa_revoke_injector :: bool
  pa_method :: string
  pa_group :: string
  pa_horizon :: int
  pa_repetition :: int
  pa_revisions :: string
  pa_user :: string
  pa_snapshot :: bool
  pa_bystanders :: "target list option"

definition creation_args :: "pair_args \<Rightarrow> trial_args" where
  "creation_args p = \<lparr>ra_plan = \<lparr>pl_trial = pa_create_id p, pl_scenario = pa_create_scenario p, pl_method = pa_method p,
       pl_group = pa_group p, pl_operation = ''CREATE'', pl_horizon = pa_horizon p, pl_repetition = pa_repetition p,
       pl_revisions = pa_revisions p\<rparr>,
     ra_user = pa_user p, ra_suffix = None, ra_uid = None, ra_start = None, ra_injector = pa_create_injector p,
     ra_scenario = pa_create_spec p, ra_sample_every = None, ra_snapshot = pa_snapshot p, ra_bystanders = pa_bystanders p\<rparr>"

definition revocation_args :: "pair_args \<Rightarrow> trial_record \<Rightarrow> trial_args" where
  "revocation_args p created = \<lparr>ra_plan = \<lparr>pl_trial = pa_revoke_id p, pl_scenario = pa_revoke_scenario p, pl_method = pa_method p,
       pl_group = pa_group p, pl_operation = ''REVOKE'', pl_horizon = pa_horizon p, pl_repetition = pa_repetition p,
       pl_revisions = pa_revisions p\<rparr>,
     ra_user = pa_user p, ra_suffix = None, ra_uid = None,
     ra_start = Some (pa_create_id p, ev_verdict (rc_at_horizon created)), ra_injector = pa_revoke_injector p,
     ra_scenario = pa_revoke_spec p, ra_sample_every = None, ra_snapshot = pa_snapshot p, ra_bystanders = pa_bystanders p\<rparr>"

definition run_pair :: "harness \<Rightarrow> pair_args \<Rightarrow> (trial_record \<times> trial_record) lab_prog" where
  "run_pair H p =
     bnd (run_trial H (creation_args p) (submit_creation H)) (\<lambda>created.
     bnd (run_trial H (revocation_args p created) (submit_revocation H (rc_request created))) (\<lambda>revoked.
     ret (created, revoked)))"

end
