(* ===== verification/Metrics.thy ===== *)
theory Metrics
  imports Trials Complex_Main "HOL-Library.List_Lexorder" "HOL-Library.Product_Lexorder"
begin

text \<open>
  The analyzer of the experiment harness (\<open>harness/metrics.py\<close>): how the records of the trials become counts and
  rates.  Records are those the runner writes (version 2 of the record); an older record has no value here.
  Rates and intervals are taken over the reals, where the program has floating point numbers.
\<close>

section \<open>Rates\<close>

definition z95 :: real where
  "z95 = 1.959963984540054"

definition wilson :: "nat \<Rightarrow> nat \<Rightarrow> (real \<times> real) option" where
  "wilson k n = (if n = 0 then None else
     let p = real k / real n; z = z95;
         centre = (p + z * z / (2 * real n)) / (1 + z * z / real n);
         half = z / (1 + z * z / real n) * sqrt (p * (1 - p) / real n + z * z / (4 * real n * real n))
     in Some (max 0 (centre - half), min 1 (centre + half)))"

record rate =
  rt_n :: nat
  rt_k :: nat
  rt_unknown :: nat
  rt_rate :: "real option"
  rt_wilson :: "(real \<times> real) option"

definition rate_of :: "nat \<Rightarrow> nat \<Rightarrow> nat \<Rightarrow> rate" where
  "rate_of k n u = \<lparr>rt_n = n, rt_k = k, rt_unknown = u,
     rt_rate = (if n = 0 then None else Some (real k / real n)), rt_wilson = wilson k n\<rparr>"

section \<open>What a record says\<close>

definition access_value :: "evaluation option \<Rightarrow> verdict" where
  "access_value e = (case e of None \<Rightarrow> VUnknown | Some x \<Rightarrow> ev_verdict x)"

definition invalid_injection :: "trial_record \<Rightarrow> bool" where
  "invalid_injection r \<longleftrightarrow> rc_injection r = Some False"

definition scenario_of :: "trial_record \<Rightarrow> string option" where
  "scenario_of r = (case rc_scenario r of
     Some (i, h) \<Rightarrow> if i \<noteq> [] then Some i else pl_scenario (rc_plan r)
   | None \<Rightarrow> pl_scenario (rc_plan r))"

definition declarations :: "string \<Rightarrow> string option" where
  "declarations = [''CREATE'' \<mapsto> ''FULFILLED'', ''REVOKE'' \<mapsto> ''DELETED'']"

definition declared_done :: "trial_record \<Rightarrow> bool" where
  "declared_done r \<longleftrightarrow> rc_value r = declarations (pl_operation (rc_plan r))"

definition environment_of :: "trial_record \<Rightarrow> cleanliness" where
  "environment_of r = en_verdict (rc_environment r)"

datatype start_value = Unpaired | Started verdict

definition revokes :: "trial_record \<Rightarrow> bool" where
  "revokes r \<longleftrightarrow> pl_operation (rc_plan r) = ''REVOKE''"

definition start_of :: "trial_record \<Rightarrow> start_value option" where
  "start_of r = (if \<not> revokes r then None
     else Some (case rc_start r of None \<Rightarrow> Unpaired | Some (i, v) \<Rightarrow> Started v))"

text \<open>Whether the user had one Pod at most at the end.\<close>

definition duplicate_value :: "trial_record \<Rightarrow> verdict" where
  "duplicate_value r = (case rc_snapshots r of
     Some (before, SnapTaken by_user pods_failed) \<Rightarrow>
       (case en_user (rc_environment r) of
          None \<Rightarrow> VUnknown
        | Some u \<Rightarrow> if u = [] \<or> pods_failed then VUnknown
            else if length (case by_user u of None \<Rightarrow> [] | Some ps \<Rightarrow> ps) \<ge> 2 then VFail else VPass)
   | _ \<Rightarrow> VUnknown)"

text \<open>Without bystanders there is nothing to protect.\<close>

definition protection_value :: "trial_record \<Rightarrow> verdict option" where
  "protection_value r = (case rc_protection r of
     None \<Rightarrow> None
   | Some (before, late) \<Rightarrow> Some (case late of None \<Rightarrow> VUnknown
       | Some p \<Rightarrow> (case pt_verdict p of None \<Rightarrow> VUnknown | Some v \<Rightarrow> v)))"

section \<open>Metrics\<close>

definition tally :: "('a \<Rightarrow> bool) \<Rightarrow> 'a list \<Rightarrow> nat" where
  "tally P xs = length (filter P xs)"

definition at_declaration :: "trial_record \<Rightarrow> verdict" where
  "at_declaration r = access_value (rc_at_declaration r)"

definition at_horizon :: "trial_record \<Rightarrow> verdict" where
  "at_horizon r = access_value (Some (rc_at_horizon r))"

text \<open>The rates; each has its denominator, its numerator and its \<open>unknown\<close>.\<close>

definition incorrect_completion :: "trial_record list \<Rightarrow> rate" where
  "incorrect_completion rs = (let ds = filter declared_done rs in
     rate_of (tally (\<lambda>r. at_declaration r = VFail) ds) (length ds) (tally (\<lambda>r. at_declaration r = VUnknown) ds))"

definition unknown_at_declaration :: "trial_record list \<Rightarrow> rate" where
  "unknown_at_declaration rs = (let ds = filter declared_done rs in
     rate_of (tally (\<lambda>r. at_declaration r = VUnknown) ds) (length ds) 0)"

definition verified_records :: "trial_record list \<Rightarrow> trial_record list" where
  "verified_records rs = filter (\<lambda>r. at_horizon r = VPass) (filter declared_done rs)"

definition verified_completion :: "trial_record list \<Rightarrow> rate" where
  "verified_completion rs = rate_of (length (verified_records rs)) (length rs)
     (tally (\<lambda>r. at_horizon r = VUnknown) (filter declared_done rs))"

definition recovery_parts :: "trial_record \<Rightarrow> verdict list" where
  "recovery_parts r = [at_horizon r, case protection_value r of None \<Rightarrow> VPass | Some v \<Rightarrow> v, duplicate_value r]"

definition recovery_counts :: "trial_record list \<Rightarrow> nat \<times> nat" where
  "recovery_counts rs = foldl (\<lambda>(safe, unknown) r.
     if \<not> declared_done r \<or> at_declaration r = VFail then (safe, unknown)
     else if VFail \<in> set (recovery_parts r) then (safe, unknown)
     else if VUnknown \<in> set (recovery_parts r) then (safe, unknown + 1)
     else (safe + 1, unknown)) (0, 0) rs"

definition safe_recovery :: "trial_record list \<Rightarrow> rate" where
  "safe_recovery rs = (let (safe, unknown) = recovery_counts rs in rate_of safe (length rs) unknown)"

definition seen_access :: "trial_record \<Rightarrow> verdict list" where
  "seen_access r = at_horizon r # map (\<lambda>(t, e). access_value (Some e)) (rc_samples r)"

definition residual_counts :: "trial_record list \<Rightarrow> nat \<times> nat" where
  "residual_counts rs = foldl (\<lambda>(residual, unknown) r.
     if VFail \<in> set (seen_access r) then (residual + 1, unknown)
     else if VUnknown \<in> set (seen_access r) then (residual, unknown + 1)
     else (residual, unknown)) (0, 0) rs"

definition residual_access :: "trial_record list \<Rightarrow> rate" where
  "residual_access rs = (let revoked = filter revokes (filter declared_done rs);
       (residual, unknown) = residual_counts revoked
     in rate_of residual (length revoked) unknown)"

definition duplicate_resource :: "trial_record list \<Rightarrow> rate" where
  "duplicate_resource rs = (let dup = map duplicate_value rs in
     rate_of (tally (\<lambda>v. v = VFail) dup) (length rs) (tally (\<lambda>v. v = VUnknown) dup))"

definition protection_violation :: "trial_record list \<Rightarrow> rate" where
  "protection_violation rs = (let prot = List.map_filter protection_value rs in
     rate_of (tally (\<lambda>v. v = VFail) prot) (length prot) (tally (\<lambda>v. v = VUnknown) prot))"

text \<open>\<open>statistics.quantiles\<close> with four parts and the inclusive method: interpolation at the quarters.\<close>

definition quarter :: "real list \<Rightarrow> nat \<Rightarrow> real" where
  "quarter xs p = (xs ! (p div 4) * real (4 - p mod 4) + xs ! Suc (p div 4) * real (p mod 4)) / 4"

record quartiles =
  qt_n :: nat
  qt_median :: real
  qt_q1 :: real
  qt_q3 :: real

definition quartiles_of :: "real list \<Rightarrow> quartiles option" where
  "quartiles_of xs = (case xs of [] \<Rightarrow> None
   | [x] \<Rightarrow> Some \<lparr>qt_n = 1, qt_median = x, qt_q1 = x, qt_q3 = x\<rparr>
   | _ \<Rightarrow> let ys = sort xs; m = length xs - 1 in
       Some \<lparr>qt_n = length xs, qt_median = quarter ys (2 * m), qt_q1 = quarter ys m, qt_q3 = quarter ys (3 * m)\<rparr>)"

definition verified_times :: "trial_record list \<Rightarrow> quartiles option" where
  "verified_times rs = quartiles_of (sort (List.map_filter
     (\<lambda>r. map_option (\<lambda>v. real_of_int v - real_of_int (rc_submitted r)) (rc_verified r)) (verified_records rs)))"

record metric_set =
  ms_incorrect :: rate
  ms_unknown :: rate
  ms_verified :: rate
  ms_safe :: "rate option"
  ms_residual :: rate
  ms_duplicate :: rate
  ms_protection :: rate
  ms_time :: "quartiles option"

definition metrics :: "trial_record list \<Rightarrow> bool option \<Rightarrow> metric_set" where
  "metrics rs recoverable = \<lparr>ms_incorrect = incorrect_completion rs, ms_unknown = unknown_at_declaration rs,
     ms_verified = verified_completion rs,
     ms_safe = (if recoverable = Some True then Some (safe_recovery rs) else None),
     ms_residual = residual_access rs, ms_duplicate = duplicate_resource rs,
     ms_protection = protection_violation rs, ms_time = verified_times rs\<rparr>"

section \<open>Groups\<close>

text \<open>A dictionary filled with \<open>setdefault\<close> keeps the order in which its keys came.\<close>

fun add_to :: "'k \<Rightarrow> 'v list \<Rightarrow> ('k \<times> 'v list) list \<Rightarrow> ('k \<times> 'v list) list" where
  "add_to k vs [] = [(k, vs)]"
| "add_to k vs ((k', ws) # g) = (if k = k' then (k', ws @ vs) # g else (k', ws) # add_to k vs g)"

definition group_by :: "('v \<Rightarrow> 'k) \<Rightarrow> 'v list \<Rightarrow> ('k \<times> 'v list) list" where
  "group_by key vs = foldl (\<lambda>g v. add_to (key v) [v] g) [] vs"

definition counts :: "'v list \<Rightarrow> ('v \<times> nat) list" where
  "counts vs = map (\<lambda>(v, ws). (v, length ws)) (group_by (\<lambda>v. v) vs)"

type_synonym group_key = "string option \<times> string"

definition str_or_none :: "string option \<Rightarrow> string" where
  "str_or_none x = (case x of None \<Rightarrow> ''None'' | Some t \<Rightarrow> t)"

definition text_key :: "group_key \<Rightarrow> string" where
  "text_key k = str_or_none (fst k) @ ''|'' @ snd k"

text \<open>What the specification of a scenario gives the analyzer: its hash, and whether its fault is recoverable.\<close>

type_synonym views = "string \<Rightarrow> (string \<times> bool) option"

definition spec_view :: "views \<Rightarrow> string option \<Rightarrow> (string \<times> bool) option" where
  "spec_view specs sid = (case sid of None \<Rightarrow> None | Some i \<Rightarrow> specs i)"

record analysis =
  an_scenario :: "string option"
  an_method :: string
  an_hash :: "string option"
  an_total :: nat
  an_missing :: nat
  an_invalid :: nat
  an_environment :: "(cleanliness \<times> nat) list"
  an_start :: "(start_value option \<times> nat) list"
  an_metrics :: metric_set
  an_by_environment :: "(cleanliness \<times> metric_set) list"
  an_by_start :: "(start_value option \<times> metric_set) list"

definition record_key :: "trial_record \<Rightarrow> group_key" where
  "record_key r = (scenario_of r, pl_method (rc_plan r))"

definition analyze_group :: "views \<Rightarrow> group_key list \<Rightarrow> group_key \<Rightarrow> trial_record list \<Rightarrow> analysis" where
  "analyze_group specs missing k recs = (let view = spec_view specs (fst k);
       recoverable = map_option snd view;
       valid = filter (\<lambda>r. \<not> invalid_injection r) recs;
       n_missing = tally (\<lambda>m. m = k) missing
     in \<lparr>an_scenario = fst k, an_method = snd k, an_hash = map_option fst view,
         an_total = length recs + n_missing, an_missing = n_missing,
         an_invalid = length recs - length valid,
         an_environment = counts (map environment_of recs),
         an_start = counts (map start_of (filter revokes recs)),
         an_metrics = metrics valid recoverable,
         an_by_environment = map (\<lambda>(e, rs). (e, metrics rs recoverable)) (group_by environment_of valid),
         an_by_start = map (\<lambda>(e, rs). (e, metrics rs recoverable)) (group_by start_of (filter revokes valid))\<rparr>)"

definition groups_of :: "trial_record list \<Rightarrow> group_key list \<Rightarrow> (group_key \<times> trial_record list) list" where
  "groups_of records missing = foldl (\<lambda>g k. add_to k [] g) (group_by record_key records) missing"

definition analyze :: "trial_record list \<Rightarrow> views \<Rightarrow> group_key list \<Rightarrow> (string \<times> analysis) list" where
  "analyze records specs missing = foldl (\<lambda>out (k, recs). AList.update (text_key k) (analyze_group specs missing k recs) out) []
     (sort_key (\<lambda>(k, recs). (str_or_none (fst k), snd k)) (groups_of records missing))"

end
