(* ===== verification/Inventory.thy ===== *)
theory Inventory
  imports Nas Metrics
begin

text \<open>
  What the harness sees of the resources on a stack (\<open>harness/inventory.py\<close>) and its judgement of the environment before a trial
  (\<open>harness/resetter.py\<close>).  The replies of the cluster and of the database are parameters; one that could not be
  read is \<open>None\<close>.
\<close>

section \<open>Items\<close>

fun words_from :: "string \<Rightarrow> string \<Rightarrow> string list" where
  "words_from w [] = (if w = [] then [] else [w])"
| "words_from w (c # cs) = (if is_space c then (if w = [] then words_from [] cs else w # words_from [] cs) else words_from (w @ [c]) cs)"

definition keytab_prefix :: string where
  "keytab_prefix = ''krb5-keytab-''"

definition kube_owner :: "string \<Rightarrow> string \<Rightarrow> string \<Rightarrow> string option" where
  "kube_owner kind i label =
     (if kind = ''keytab_secret'' then
        if take (length keytab_prefix) i = keytab_prefix then Some (drop (length keytab_prefix) i) else None
      else if label = ''<none>'' then None else Some label)"

type_synonym items = "(string option \<times> string) list option"

fun kube_lines :: "string \<Rightarrow> string list \<Rightarrow> items" where
  "kube_lines kind [] = Some []"
| "kube_lines kind (line # ls) = (case words_from [] line of
     [] \<Rightarrow> kube_lines kind ls
   | [i, label] \<Rightarrow> map_option (Cons (kube_owner kind i label, i)) (kube_lines kind ls)
   | _ \<Rightarrow> None)"

definition kube_items :: "string \<Rightarrow> string option \<Rightarrow> items" where
  "kube_items kind reply = (case reply of None \<Rightarrow> None | Some out \<Rightarrow> kube_lines kind (splitlines out))"

definition sql_items :: "(string option \<times> string) list option \<Rightarrow> items" where
  "sql_items reply = reply"

definition kube_kinds :: "string list" where
  "kube_kinds = [''pod'', ''service'', ''account_secret'', ''keytab_secret'']"

definition sql_kinds :: "string list" where
  "sql_kinds = [''nodeport_allocation'', ''krb5_cleanup_pending'']"

section \<open>The inventory\<close>

record inventory =
  iv_by_user :: "(string \<times> (string \<times> string list) list) list"
  iv_e2e :: "string list"
  iv_errors :: "string list"

definition note_item :: "string \<Rightarrow> string \<Rightarrow> string \<Rightarrow> inventory \<Rightarrow> inventory" where
  "note_item kind user i v = v\<lparr>iv_by_user := AList.update user
     (add_to kind [i] (case map_of (iv_by_user v) user of None \<Rightarrow> [] | Some ks \<Rightarrow> ks)) (iv_by_user v)\<rparr>"

definition add_item :: "string \<Rightarrow> string \<Rightarrow> inventory \<Rightarrow> string option \<times> string \<Rightarrow> inventory" where
  "add_item pre kind v = (\<lambda>(owner, i). case owner of
     None \<Rightarrow> v
   | Some user \<Rightarrow> if user = [] then v
       else if take (length (pre @ ''m'')) user = pre @ ''m'' then note_item kind user i v
       else if take (length (pre @ ''e2e'')) user = pre @ ''e2e'' then v\<lparr>iv_e2e := List.insert user (iv_e2e v)\<rparr>
       else v)"

definition collect_inventory :: "string \<Rightarrow> (string \<Rightarrow> string option) \<Rightarrow> (string \<Rightarrow> (string option \<times> string) list option) \<Rightarrow> inventory" where
  "collect_inventory pre kube sql = foldl (\<lambda>v (kind, its). case its of
       None \<Rightarrow> v\<lparr>iv_errors := iv_errors v @ [kind]\<rparr>
     | Some xs \<Rightarrow> foldl (add_item pre kind) v xs)
     \<lparr>iv_by_user = [], iv_e2e = [], iv_errors = []\<rparr>
     (map (\<lambda>k. (k, kube_items k (kube k))) kube_kinds @ map (\<lambda>k. (k, sql_items (sql k))) sql_kinds)"

section \<open>The environment\<close>

definition residue :: "string list \<Rightarrow> inventory \<Rightarrow> (string \<times> string \<times> string) list" where
  "residue own v = concat (map (\<lambda>(user, ks). if user \<in> set own then []
       else concat (map (\<lambda>(kind, is). map (\<lambda>i. (user, kind, i)) is) (sort_key fst ks)))
     (sort_key fst (iv_by_user v)))"

definition environment_for :: "string \<Rightarrow> string \<Rightarrow> string list \<Rightarrow> (string \<Rightarrow> string option) \<Rightarrow>
    (string \<Rightarrow> (string option \<times> string) list option) \<Rightarrow> string \<times> string option" where
  "environment_for pre user others kube sql = (let v = collect_inventory pre kube sql in
     (if residue (user # others) v \<noteq> [] \<or> iv_e2e v \<noteq> [] then ''DIRTY'' else ''UNKNOWN'', Some user))"

section \<open>What the judgement rests on\<close>

text \<open>The items that were seen.\<close>

definition seen_items :: "(string \<Rightarrow> string option) \<Rightarrow> (string \<Rightarrow> (string option \<times> string) list option) \<Rightarrow> (string \<times> string \<times> string) set" where
  "seen_items kube sql = {(user, kind, i). \<exists>xs. (kind \<in> set kube_kinds \<and> kube_items kind (kube kind) = Some xs \<or>
     kind \<in> set sql_kinds \<and> sql_items (sql kind) = Some xs) \<and> (Some user, i) \<in> set xs \<and> user \<noteq> []}"

definition starts :: "string \<Rightarrow> string \<Rightarrow> bool" where
  "starts pre t \<longleftrightarrow> take (length pre) t = pre"

definition recorded :: "inventory \<Rightarrow> (string \<times> string \<times> string) set" where
  "recorded v = {(user, kind, i). \<exists>ks is. map_of (iv_by_user v) user = Some ks \<and> (kind, is) \<in> set ks \<and> i \<in> set is}"

definition in_scope :: "string \<Rightarrow> string option \<times> string \<Rightarrow> bool" where
  "in_scope pre it \<longleftrightarrow> (\<exists>user i. it = (Some user, i) \<and> user \<noteq> [] \<and> starts (pre @ ''m'') user)"

definition of_e2e :: "string \<Rightarrow> string option \<times> string \<Rightarrow> bool" where
  "of_e2e pre it \<longleftrightarrow> (\<exists>user i. it = (Some user, i) \<and> user \<noteq> [] \<and> \<not> starts (pre @ ''m'') user \<and> starts (pre @ ''e2e'') user)"

lemma scope_iff:
  "in_scope pre (Some user, i) \<longleftrightarrow> user \<noteq> [] \<and> starts (pre @ ''m'') user"
  "of_e2e pre (Some user, i) \<longleftrightarrow> user \<noteq> [] \<and> \<not> starts (pre @ ''m'') user \<and> starts (pre @ ''e2e'') user"
  by (simp_all add: in_scope_def of_e2e_def)

lemma add_to_entries:
  "(\<exists>vs. (k', vs) \<in> set (add_to k [x] g) \<and> y \<in> set vs) \<longleftrightarrow> (\<exists>vs. (k', vs) \<in> set g \<and> y \<in> set vs) \<or> k' = k \<and> y = x"
proof (induction g)
  case (Cons p g)
  then show ?case by (cases p) auto
qed auto

lemma recorded_note: "recorded (note_item kind user i v) = insert (user, kind, i) (recorded v)"
proof -
  let ?ks = "case map_of (iv_by_user v) user of None \<Rightarrow> [] | Some ks \<Rightarrow> ks"
  have "(u, k, j) \<in> recorded (note_item kind user i v) \<longleftrightarrow> (u, k, j) = (user, kind, i) \<or> (u, k, j) \<in> recorded v" for u k j
    using add_to_entries[of k kind i ?ks j]
    by (cases "u = user") (auto simp: recorded_def note_item_def update_conv' split: option.splits)
  then show ?thesis by auto
qed

lemma recorded_frame [simp]:
  "recorded (v\<lparr>iv_errors := es\<rparr>) = recorded v" "recorded (v\<lparr>iv_e2e := us\<rparr>) = recorded v"
  by (simp_all add: recorded_def)

text \<open>What a run over items adds, and that no user has two entries.\<close>

definition collected_from :: "string \<Rightarrow> (string \<times> string option \<times> string) set \<Rightarrow> inventory \<Rightarrow> bool" where
  "collected_from pre its v \<longleftrightarrow> distinct (map fst (iv_by_user v)) \<and>
     recorded v = {(user, kind, i). (kind, Some user, i) \<in> its \<and> in_scope pre (Some user, i)} \<and>
     set (iv_e2e v) = {user. \<exists>kind i. (kind, Some user, i) \<in> its \<and> of_e2e pre (Some user, i)}"

lemma collected_item: "collected_from pre its v \<Longrightarrow> collected_from pre (insert (kind, it) its) (add_item pre kind v it)"
proof -
  assume c: "collected_from pre its v"
  obtain owner i where it: "it = (owner, i)" by (cases it)
  consider "in_scope pre it" | "of_e2e pre it" "\<not> in_scope pre it" | "\<not> of_e2e pre it" "\<not> in_scope pre it" by blast
  then show ?thesis
  proof cases
    case 1
    then obtain user where u: "owner = Some user" "user \<noteq> []" "starts (pre @ ''m'') user" by (auto simp: in_scope_def it)
    then have "add_item pre kind v it = note_item kind user i v" by (simp add: add_item_def it starts_def)
    moreover have "distinct (map fst (iv_by_user (note_item kind user i v)))"
      using c by (simp add: note_item_def collected_from_def distinct_update)
    moreover have "iv_e2e (note_item kind user i v) = iv_e2e v" by (simp add: note_item_def)
    ultimately show ?thesis using c u 1 by (auto simp: collected_from_def recorded_note it of_e2e_def)
  next
    case 2
    then obtain user where u: "owner = Some user" "user \<noteq> []" "\<not> starts (pre @ ''m'') user" "starts (pre @ ''e2e'') user"
      by (auto simp: of_e2e_def it)
    then have "add_item pre kind v it = v\<lparr>iv_e2e := List.insert user (iv_e2e v)\<rparr>" by (simp add: add_item_def it starts_def)
    then show ?thesis using c u 2 by (auto simp: collected_from_def it)
  next
    case 3
    then have "add_item pre kind v it = v"
      by (cases owner) (auto simp: add_item_def it in_scope_def of_e2e_def starts_def)
    then show ?thesis using c 3 by (auto simp: collected_from_def it)
  qed
qed

lemma collected_items:
  "collected_from pre its v \<Longrightarrow> collected_from pre (its \<union> Pair kind ` set xs) (foldl (add_item pre kind) v xs)"
proof (induction xs arbitrary: its v)
  case (Cons x xs)
  from Cons.IH[OF collected_item[OF Cons.prems, of kind x]] show ?case by (simp add: insert_commute Un_commute Un_left_commute)
qed simp

lemma collected_kinds:
  "collected_from pre its v \<Longrightarrow> collected_from pre (its \<union> {(kind, it). \<exists>xs. (kind, Some xs) \<in> set rs \<and> it \<in> set xs})
     (foldl (\<lambda>v (kind, its). case its of None \<Rightarrow> v\<lparr>iv_errors := iv_errors v @ [kind]\<rparr>
        | Some xs \<Rightarrow> foldl (add_item pre kind) v xs) v rs)"
proof (induction rs arbitrary: its v)
  case (Cons r rs)
  obtain kind reply where r: "r = (kind, reply)" by (cases r)
  show ?case
  proof (cases reply)
    case None
    from Cons.prems have "collected_from pre its (v\<lparr>iv_errors := iv_errors v @ [kind]\<rparr>)" by (simp add: collected_from_def)
    from Cons.IH[OF this] show ?thesis by (simp add: r None)
  next
    case (Some xs)
    have "its \<union> Pair kind ` set xs \<union> {(kind, it). \<exists>xs. (kind, Some xs) \<in> set rs \<and> it \<in> set xs} =
        its \<union> {(kind, it). \<exists>xs. (kind, Some xs) \<in> set (r # rs) \<and> it \<in> set xs}" by (auto simp: r Some)
    with Cons.IH[OF collected_items[OF Cons.prems, of kind xs]] show ?thesis by (simp add: r Some)
  qed
qed simp

lemma residue_set:
  "distinct (map fst (iv_by_user v)) \<Longrightarrow> set (residue own v) = {(u, k, i). (u, k, i) \<in> recorded v \<and> u \<notin> set own}"
proof -
  assume d: "distinct (map fst (iv_by_user v))"
  have "(u, k, i) \<in> set (residue own v) \<longleftrightarrow> (\<exists>ks is. (u, ks) \<in> set (iv_by_user v) \<and> (k, is) \<in> set ks \<and> i \<in> set is) \<and> u \<notin> set own" for u k i
    by (force simp: residue_def split: if_splits)
  then show ?thesis unfolding recorded_def map_of_eq_Some_iff[OF d] by blast
qed

text \<open>A user whose resources make the environment dirty.\<close>

definition soils :: "string \<Rightarrow> string list \<Rightarrow> string \<Rightarrow> bool" where
  "soils pre own u \<longleftrightarrow> (if starts (pre @ ''m'') u then u \<notin> set own else starts (pre @ ''e2e'') u)"

text \<open>The environment is never called clean; it is called dirty exactly when a resource of another measurement user or of an end-to-end user was seen, where the users named as bystanders do not count, and the residue that is listed is exactly the resources of other measurement users in the replies that could be read.\<close>

lemma environment_exact:
  "set (residue (user # others) (collect_inventory pre kube sql)) =
      {(u, kind, i) \<in> seen_items kube sql. starts (pre @ ''m'') u \<and> u \<notin> set (user # others)} \<and>
    fst (environment_for pre user others kube sql) =
      (if \<exists>u kind i. (u, kind, i) \<in> seen_items kube sql \<and> soils pre (user # others) u
       then ''DIRTY'' else ''UNKNOWN'')"
proof -
  define v where "v = collect_inventory pre kube sql"
  let ?rs = "map (\<lambda>k. (k, kube_items k (kube k))) kube_kinds @ map (\<lambda>k. (k, sql_items (sql k))) sql_kinds"
  define its where "its = {(kind, it). \<exists>xs. (kind, Some xs) \<in> set ?rs \<and> it \<in> set xs}"
  have "collected_from pre {} \<lparr>iv_by_user = [], iv_e2e = [], iv_errors = []\<rparr>"
    by (simp add: collected_from_def recorded_def)
  from collected_kinds[OF this, of ?rs] have c: "collected_from pre its v"
    unfolding v_def collect_inventory_def its_def by simp
  have its: "(kind, Some u, i) \<in> its \<and> u \<noteq> [] \<longleftrightarrow> (u, kind, i) \<in> seen_items kube sql" for kind u i
    unfolding seen_items_def its_def by force
  from c have "recorded v = {(u, kind, i). (kind, Some u, i) \<in> its \<and> in_scope pre (Some u, i)}" by (simp only: collected_from_def)
  then have rec: "recorded v = {(u, kind, i) \<in> seen_items kube sql. starts (pre @ ''m'') u}"
    unfolding its[symmetric] scope_iff by blast
  from c have "set (iv_e2e v) = {u. \<exists>kind i. (kind, Some u, i) \<in> its \<and> of_e2e pre (Some u, i)}" by (simp only: collected_from_def)
  then have e2e: "set (iv_e2e v) = {u. \<exists>kind i. (u, kind, i) \<in> seen_items kube sql \<and> \<not> starts (pre @ ''m'') u \<and> starts (pre @ ''e2e'') u}"
    unfolding its[symmetric] scope_iff by blast
  from c have "distinct (map fst (iv_by_user v))" by (simp add: collected_from_def)
  note r = residue_set[OF this, of "user # others"]
  have "residue (user # others) v \<noteq> [] \<or> iv_e2e v \<noteq> [] \<longleftrightarrow>
      (\<exists>u kind i. (u, kind, i) \<in> seen_items kube sql \<and> soils pre (user # others) u)"
    unfolding set_empty[symmetric] r e2e rec soils_def by (auto split: if_splits)
  then show ?thesis unfolding environment_for_def Let_def v_def[symmetric] by (auto simp: r rec)
qed

end
