(* ===== verification/Job_Props.thy ===== *)
theory Job_Props
  imports Engine Samples
begin

text \<open>
  The properties of job ownership and of the job engine, with their instances.
\<close>

section \<open>Ownership\<close>

text \<open>The controller \<open>c\<close> believes to own the job, and its lease has not run out.\<close>

definition live :: "lsys \<Rightarrow> string \<Rightarrow> int \<Rightarrow> bool" where
  "live S c j \<longleftrightarrow> (\<exists>u. ls_held S c j = Some u \<and> ls_clock S < u)"

text \<open>C7: in every state the controllers can reach by their claims, renewals, records, releases and
  losses, in any interleaving and with claims cut between their two statements, a controller whose
  lease on a job has not run out is the owner in the table, and no other controller has such a lease.\<close>

theorem lease_exclusive:
  assumes "lreach ttl lsys_init S" and "live S c j"
  shows "row_owner j (ls_tab S) = Some c \<and> (\<forall>d. live S d j \<longrightarrow> d = c)"
proof -
  have i: "lease_inv S" by (rule lease_inv_reach[OF assms(1) lease_inv_init])
  from assms(2) obtain u where u: "ls_held S c j = Some u" "ls_clock S < u" by (auto simp: live_def)
  from lease_invD(1)[OF i u] have "row_owner j (ls_tab S) = Some c" by (auto simp: row_owner_def)
  moreover have "d = c" if "live S d j" for d
    using that lease_inv_exclusive[OF i u] by (auto simp: live_def)
  ultimately show ?thesis by blast
qed

definition sys1 :: lsys where
  "sys1 = set_read ''ctl1'' 7 (Some (None, 0)) lsys_init"

definition sys2 :: lsys where
  "sys2 = set_read ''ctl1'' 7 None ((set_held ''ctl1'' 7 (Some 30000) sys1)\<lparr>ls_tab := [7 \<mapsto>
     \<lparr>l_owner = ''ctl1'', l_until = 30000, l_done = [], l_saved = no_saved\<rparr>]\<rparr>)"

lemma sys2_reached: "lreach 30000 lsys_init sys2"
proof -
  have "lstep 30000 lsys_init sys1"
    using lstep.Select[of 30000 lsys_init "''ctl1''" 7] by (simp add: sys1_def lsys_init_def)
  moreover have "lstep 30000 sys1 sys2"
  proof -
    have r: "ls_read sys1 ''ctl1'' 7 = Some (None, 0)" by (simp add: sys1_def set_read_def)
    have i: "insert_row 7 \<lparr>l_owner = ''ctl1'', l_until = 0 + 30000, l_done = [], l_saved = no_saved\<rparr> (ls_tab sys1)
        = (True, [7 \<mapsto> \<lparr>l_owner = ''ctl1'', l_until = 30000, l_done = [], l_saved = no_saved\<rparr>])"
      by (simp add: sys1_def set_read_def lsys_init_def insert_row_def)
    from lstep.Insert[OF r i] show ?thesis unfolding if_True sys2_def by simp
  qed
  ultimately show ?thesis by (meson lreach.intros)
qed

theorem lease_exclusive_witness:
  "live sys2 ''ctl1'' 7 \<and> row_owner 7 (ls_tab sys2) = Some ''ctl1'' \<and> \<not> live sys2 ''ctl2'' 7"
proof -
  have l: "live sys2 ''ctl1'' 7"
    by (simp add: live_def sys2_def sys1_def lsys_init_def set_held_def set_read_def)
  note x = lease_exclusive[OF sys2_reached l]
  have "\<not> live sys2 ''ctl2'' 7"
  proof
    assume "live sys2 ''ctl2'' 7"
    with conjunct2[OF x] have "''ctl2'' = ''ctl1''" by blast
    then show False by simp
  qed
  with l conjunct1[OF x] show ?thesis by blast
qed




section \<open>One step\<close>



text \<open>In a recovering mode a step fails in one of five ways only: the lease is lost, the body says
  that a retry is pointless, the request itself is wrong (a 4xx whose result is known), the body asks
  for a rewind and the engine raises \<open>StepRewind\<close> to that step, or the job is degraded for one of the
  three reasons of the policy.  A failure that may be retried never leaves the step raw.\<close>

lemma step_failures_classified:
  assumes "\<not> is_baseline E" and "execute_step E P J ckpt stp s = (Inl e, t)"
  shows "is_lease_lost e \<or> \<not> retry_of e \<or> (client_error e \<and> \<not> unknown_of e) \<or>
     (\<exists>rf err. e = StepRewind stp rf err \<and> restart_of err = Some rf) \<or>
     (\<exists>reason c u. e = StepDegraded stp reason c u \<and>
        reason \<in> {''OBSERVE_FAILED'', ''UNRESUMABLE_UNKNOWN'', ''RETRIES_EXHAUSTED''})"
  using raisesD[OF raises_execute_step[OF assms(1)] assms(2)] by (simp add: step_failure_def)

text \<open>The body of a step runs at most as often as the policy allows (\<open>STEP_MAX_ATTEMPTS\<close>,
  \<open>VERIFY_MAX_ATTEMPTS\<close> for the verifications, once in the baseline mode), whatever it raises: any
  count that one run of the body raises by at most one grows by at most that many.\<close>

lemma attempts_are_bounded:
  assumes "bookkept c" and "free_helpers c P stp" and "\<forall>u. c (snd (pl_exec P ckpt stp u)) \<le> c u + 1"
  shows "c (state_of (execute_step E P J ckpt stp) s) \<le> c s + max_attempts E stp"
  using costs_execute_step[OF assms(1,2), of ckpt E J] assms(3) by (simp add: costs_def)

section \<open>The loop over the steps\<close>



end
