(* ===== verification/Metrics_Props.thy ===== *)
theory Metrics_Props
  imports Metrics "HOL-Library.Multiset"
begin

text \<open>
  What the numbers of the analyzer say: rates and intervals, the part of a judgement that is unknown, and the
  division of the trials into groups and strata.
\<close>

section \<open>Counting\<close>

lemma tally_simps [simp]:
  "tally P [] = 0" "tally P (x # xs) = (if P x then 1 else 0) + tally P xs" "tally P (xs @ ys) = tally P xs + tally P ys"
  by (simp_all add: tally_def)

lemma tally_eqs:
  "length xs = tally (\<lambda>_. True) xs"
  "tally P (filter Q xs) = tally (\<lambda>x. Q x \<and> P x) xs"
  "tally R (map f xs) = tally (\<lambda>x. R (f x)) xs"
  "tally S (List.map_filter h xs) = tally (\<lambda>x. \<exists>y. h x = Some y \<and> S y) xs"
  by (induction xs) (auto simp: List.map_filter_simps split: option.split)

lemma tally_sum: "tally P xs = sum_list (map (\<lambda>x. if P x then 1 else 0) xs)"
  by (induction xs) auto

lemma tally_mono: "(\<And>x. x \<in> set xs \<Longrightarrow> P x \<Longrightarrow> Q x) \<Longrightarrow> tally P xs \<le> tally Q xs"
  by (induction xs) auto

lemma tally_split:
  "(\<And>x. x \<in> set xs \<Longrightarrow> \<not> (P x \<and> Q x)) \<Longrightarrow> (\<And>x. x \<in> set xs \<Longrightarrow> P x \<or> Q x \<Longrightarrow> R x) \<Longrightarrow> tally P xs + tally Q xs \<le> tally R xs"
proof (induction xs)
  case (Cons x xs)
  from Cons.IH Cons.prems have "tally P xs + tally Q xs \<le> tally R xs" by simp
  with Cons.prems(1)[of x] Cons.prems(2)[of x] show ?case by auto
qed simp

text \<open>Every rate counts the records with three properties.\<close>

definition rate_on :: "(trial_record \<Rightarrow> bool) \<Rightarrow> (trial_record \<Rightarrow> bool) \<Rightarrow> (trial_record \<Rightarrow> bool) \<Rightarrow> trial_record list \<Rightarrow> rate" where
  "rate_on K N U rs = rate_of (tally K rs) (tally N rs) (tally U rs)"

lemma rate_on_sel [simp]:
  "rt_k (rate_on K N U rs) = tally K rs" "rt_n (rate_on K N U rs) = tally N rs" "rt_unknown (rate_on K N U rs) = tally U rs"
  by (simp_all add: rate_on_def rate_of_def)

definition recovered :: "verdict \<Rightarrow> trial_record \<Rightarrow> bool" where
  "recovered v r \<longleftrightarrow> declared_done r \<and> at_declaration r \<noteq> VFail \<and> VFail \<notin> set (recovery_parts r) \<and>
     (v = VUnknown \<longleftrightarrow> VUnknown \<in> set (recovery_parts r))"

lemma fold_counts:
  assumes "\<And>i j x. step (i, j) x = (i + (if P x then 1 else 0), j + (if Q x then 1 else 0))"
  shows "foldl step (i, j) xs = (i + tally P xs, j + tally Q xs)"
  by (induction xs arbitrary: i j) (simp_all add: assms)

lemma recovery_counts_eq: "recovery_counts rs = (tally (recovered VPass) rs, tally (recovered VUnknown) rs)"
  unfolding recovery_counts_def by (subst fold_counts[where P = "recovered VPass" and Q = "recovered VUnknown"])
    (auto simp: recovered_def)

definition residual :: "verdict \<Rightarrow> trial_record \<Rightarrow> bool" where
  "residual v r \<longleftrightarrow> (if VFail \<in> set (seen_access r) then v = VFail else v = VUnknown \<and> VUnknown \<in> set (seen_access r))"

lemma residual_counts_eq: "residual_counts rs = (tally (residual VFail) rs, tally (residual VUnknown) rs)"
  unfolding residual_counts_def by (subst fold_counts[where P = "residual VFail" and Q = "residual VUnknown"])
    (auto simp: residual_def)

named_theorems counted \<open>rates as counts\<close>

lemma rates_counted [counted]:
  "incorrect_completion = rate_on (\<lambda>r. declared_done r \<and> at_declaration r = VFail) declared_done
     (\<lambda>r. declared_done r \<and> at_declaration r = VUnknown)"
  "unknown_at_declaration = rate_on (\<lambda>r. declared_done r \<and> at_declaration r = VUnknown) declared_done (\<lambda>r. False)"
  "verified_completion = rate_on (\<lambda>r. declared_done r \<and> at_horizon r = VPass) (\<lambda>r. True)
     (\<lambda>r. declared_done r \<and> at_horizon r = VUnknown)"
  "safe_recovery = rate_on (recovered VPass) (\<lambda>r. True) (recovered VUnknown)"
  "residual_access = rate_on (\<lambda>r. declared_done r \<and> revokes r \<and> residual VFail r) (\<lambda>r. declared_done r \<and> revokes r)
     (\<lambda>r. declared_done r \<and> revokes r \<and> residual VUnknown r)"
  "duplicate_resource = rate_on (\<lambda>r. duplicate_value r = VFail) (\<lambda>r. True) (\<lambda>r. duplicate_value r = VUnknown)"
  "protection_violation = rate_on (\<lambda>r. protection_value r = Some VFail) (\<lambda>r. protection_value r \<noteq> None)
     (\<lambda>r. protection_value r = Some VUnknown)"
proof -
  have f: "tally (\<lambda>r. False) rs = 0" for rs :: "trial_record list" by (induction rs) auto
  show "incorrect_completion = rate_on (\<lambda>r. declared_done r \<and> at_declaration r = VFail) declared_done
     (\<lambda>r. declared_done r \<and> at_declaration r = VUnknown)"
    "verified_completion = rate_on (\<lambda>r. declared_done r \<and> at_horizon r = VPass) (\<lambda>r. True)
     (\<lambda>r. declared_done r \<and> at_horizon r = VUnknown)"
    "safe_recovery = rate_on (recovered VPass) (\<lambda>r. True) (recovered VUnknown)"
    "duplicate_resource = rate_on (\<lambda>r. duplicate_value r = VFail) (\<lambda>r. True) (\<lambda>r. duplicate_value r = VUnknown)"
    "residual_access = rate_on (\<lambda>r. declared_done r \<and> revokes r \<and> residual VFail r) (\<lambda>r. declared_done r \<and> revokes r)
     (\<lambda>r. declared_done r \<and> revokes r \<and> residual VUnknown r)"
    "unknown_at_declaration = rate_on (\<lambda>r. declared_done r \<and> at_declaration r = VUnknown) declared_done (\<lambda>r. False)"
    "protection_violation = rate_on (\<lambda>r. protection_value r = Some VFail) (\<lambda>r. protection_value r \<noteq> None)
     (\<lambda>r. protection_value r = Some VUnknown)"
    by (simp_all add: fun_eq_iff incorrect_completion_def unknown_at_declaration_def verified_completion_def
        verified_records_def safe_recovery_def residual_access_def duplicate_resource_def protection_violation_def
        recovery_counts_eq residual_counts_eq rate_on_def Let_def tally_eqs conj_ac f)
qed

section \<open>Intervals\<close>

text \<open>The observed share lies in the interval, which is a part of the unit interval.\<close>

lemma wilson_around:
  assumes k: "k \<le> n" and n: "0 < n"
  obtains lo hi where "wilson k n = Some (lo, hi)" "0 \<le> lo" "lo \<le> real k / real n" "real k / real n \<le> hi" "hi \<le> 1"
proof -
  define p c where "p = real k / real n" and "c = z95 * z95 / real n"
  have p: "0 \<le> p" "p \<le> 1" using k n by (simp_all add: p_def)
  have c: "0 < c" using n by (simp add: c_def z95_def)
  define h where "h = sqrt (c * (p * (1 - p)) + c * c / 4)"
  have z: "z95 * sqrt (p * (1 - p) / real n + z95 * z95 / (4 * real n * real n)) = h"
  proof -
    have "0 \<le> z95" by (simp add: z95_def)
    then have "z95 = sqrt (z95 * z95)" by simp
    then have "z95 * sqrt (p * (1 - p) / real n + z95 * z95 / (4 * real n * real n)) =
        sqrt (z95 * z95 * (p * (1 - p) / real n + z95 * z95 / (4 * real n * real n)))"
      by (metis real_sqrt_mult)
    also have "z95 * z95 * (p * (1 - p) / real n + z95 * z95 / (4 * real n * real n)) = c * (p * (1 - p)) + c * c / 4"
      using n by (simp add: c_def field_simps)
    finally show ?thesis by (simp add: h_def)
  qed
  have "\<bar>c * (1 / 2 - p)\<bar> \<le> h"
  proof -
    have "(c * (1 / 2 - p))\<^sup>2 \<le> c * (p * (1 - p)) + c * c / 4"
    proof -
      have "(c * (1 / 2 - p))\<^sup>2 = c * c / 4 - c * c * (p * (1 - p))" by (simp add: power2_eq_square field_simps)
      moreover have "0 \<le> c * c * (p * (1 - p))" "0 \<le> c * (p * (1 - p))" using c p by simp_all
      ultimately show ?thesis by linarith
    qed
    then show ?thesis unfolding h_def by (metis real_sqrt_abs real_sqrt_le_mono)
  qed
  then have h: "c * (1 / 2 - p) \<le> h" "- h \<le> c * (1 / 2 - p)" by simp_all
  have "(p + c / 2 - h) / (1 + c) \<le> p" "p \<le> (p + c / 2 + h) / (1 + c)"
    using c h by (simp_all add: field_simps)
  moreover have "wilson k n = Some (max 0 ((p + c / 2 - h) / (1 + c)), min 1 ((p + c / 2 + h) / (1 + c)))"
  proof -
    have "z95 / (1 + c) * x = (z95 * x) / (1 + c)" for x by simp
    then show ?thesis
      using n unfolding wilson_def Let_def p_def[symmetric] c_def[symmetric]
      by (simp add: z add_divide_distrib diff_divide_distrib c_def mult.commute[of "real n" 2])
  qed
  ultimately show thesis using that[unfolded p_def[symmetric]] p by simp
qed

definition rates_of :: "metric_set \<Rightarrow> rate list" where
  "rates_of m = [ms_incorrect m, ms_unknown m, ms_verified m, ms_residual m, ms_duplicate m, ms_protection m] @
     (case ms_safe m of None \<Rightarrow> [] | Some x \<Rightarrow> [x])"

definition sound_rate :: "rate \<Rightarrow> bool" where
  "sound_rate x \<longleftrightarrow> rt_k x + rt_unknown x \<le> rt_n x \<and> (case rt_wilson x of None \<Rightarrow> rt_n x = 0 \<and> rt_rate x = None
    | Some (lo, hi) \<Rightarrow> 0 < rt_n x \<and> rt_rate x = Some (real (rt_k x) / real (rt_n x)) \<and> 0 \<le> lo \<and>
        lo \<le> real (rt_k x) / real (rt_n x) \<and> real (rt_k x) / real (rt_n x) \<le> hi \<and> hi \<le> 1)"

lemma sound_rate_of:
  assumes "k + u \<le> n"
  shows "sound_rate (rate_of k n u)"
proof (cases "n = 0")
  case False
  with assms obtain lo hi where "wilson k n = Some (lo, hi)" "0 \<le> lo" "lo \<le> real k / real n" "real k / real n \<le> hi" "hi \<le> 1"
    by (elim wilson_around[rotated 2]) simp_all
  with False assms show ?thesis by (simp add: sound_rate_def rate_of_def)
qed (use assms in \<open>simp add: sound_rate_def rate_of_def wilson_def\<close>)

lemma sound_rate_on:
  "(\<And>r. \<not> (K r \<and> U r)) \<Longrightarrow> (\<And>r. K r \<or> U r \<Longrightarrow> N r) \<Longrightarrow> sound_rate (rate_on K N U rs)"
  unfolding rate_on_def by (intro sound_rate_of tally_split)

text \<open>Whatever the records of a group are, each of its rates has a numerator and an unknown part that fit together into the denominator; the rate is absent exactly when there is nothing to count, and otherwise lies in its Wilson interval, which lies between 0 and 1.\<close>

lemma rates_in_interval: "list_all sound_rate (rates_of (metrics rs recoverable))"
  by (auto simp: rates_of_def metrics_def counted recovered_def residual_def intro!: sound_rate_on split: option.split)

section \<open>Quartiles\<close>

text \<open>Between two values the interpolation rises, so the quartiles are in order and among the values.\<close>

lemma quarter_step:
  assumes "sorted xs" "Suc (p div 4) < length xs"
  shows "quarter xs p \<le> quarter xs (Suc p)"
proof -
  have s: "xs ! (p div 4) \<le> xs ! Suc (p div 4)" using assms by (simp add: sorted_nth_mono)
  show ?thesis
  proof (cases "p mod 4 = 3")
    case True
    then have "Suc p div 4 = Suc (p div 4)" "Suc p mod 4 = 0" by presburger+
    with s True show ?thesis by (simp add: quarter_def)
  next
    case False
    then have "Suc p div 4 = p div 4" "Suc p mod 4 = Suc (p mod 4)" "p mod 4 < 3" by presburger+
    with s show ?thesis by (simp add: quarter_def of_nat_diff field_simps)
  qed
qed

lemma quarter_mono:
  assumes "sorted xs" "p \<le> q" "q < 4 * (length xs - 1)"
  shows "quarter xs p \<le> quarter xs q"
  using assms(2,3)
proof (induction rule: dec_induct)
  case (step n)
  then have "Suc (n div 4) < length xs" by linarith
  with quarter_step[OF assms(1)] have "quarter xs n \<le> quarter xs (Suc n)" .
  with step show ?case by simp
qed simp

lemma quarter_bounds:
  assumes "sorted xs" "p < 4 * (length xs - 1)"
  shows "xs ! 0 \<le> quarter xs p" "quarter xs p \<le> xs ! (length xs - 1)"
proof -
  have l: "p div 4 < length xs - 1" using assms(2) by linarith
  then have "xs ! 0 \<le> xs ! (p div 4)" "xs ! (p div 4) \<le> xs ! Suc (p div 4)" "xs ! Suc (p div 4) \<le> xs ! (length xs - 1)"
    using assms(1) by (auto intro: sorted_nth_mono)
  moreover have "a \<le> (b * real (4 - p mod 4) + c * real (p mod 4)) / 4" if "a \<le> b" "a \<le> c" for a b c
    using mult_right_mono[OF that(1), of "real (4 - p mod 4)"] mult_right_mono[OF that(2), of "real (p mod 4)"]
    by (simp add: of_nat_diff field_simps)
  moreover have "(b * real (4 - p mod 4) + c * real (p mod 4)) / 4 \<le> a" if "b \<le> a" "c \<le> a" for a b c
    using mult_right_mono[OF that(1), of "real (4 - p mod 4)"] mult_right_mono[OF that(2), of "real (p mod 4)"]
    by (simp add: of_nat_diff field_simps)
  ultimately show "xs ! 0 \<le> quarter xs p" "quarter xs p \<le> xs ! (length xs - 1)" unfolding quarter_def by force+
qed

lemma quartiles_ordered:
  assumes "quartiles_of xs = Some q"
  shows "Min (set xs) \<le> qt_q1 q \<and> qt_q1 q \<le> qt_median q \<and> qt_median q \<le> qt_q3 q \<and> qt_q3 q \<le> Max (set xs)"
proof -
  consider x where "xs = [x]" | x y zs where "xs = x # y # zs" using assms by (cases xs rule: list.exhaust; cases "tl xs") (auto simp: quartiles_of_def)
  then show ?thesis
  proof cases
    case 1
    with assms show ?thesis by (auto simp: quartiles_of_def)
  next
    case 2
    let ?ys = "sort xs" and ?m = "length xs - 1"
    have m: "0 < ?m" using 2 by simp
    have q: "q = \<lparr>qt_n = length xs, qt_median = quarter ?ys (2 * ?m), qt_q1 = quarter ?ys ?m, qt_q3 = quarter ?ys (3 * ?m)\<rparr>"
      using assms 2 by (simp add: quartiles_of_def Let_def del: sort_key_simps)
    have "?ys ! i \<in> set xs" if "i < length xs" for i using that by (metis length_sort nth_mem set_sort)
    from this[of 0] this[of ?m] have "?ys ! 0 \<in> set xs" "?ys ! ?m \<in> set xs" unfolding 2 by simp_all
    then have "Min (set xs) \<le> ?ys ! 0" "?ys ! ?m \<le> Max (set xs)" by simp_all
    moreover have "?ys ! 0 \<le> quarter ?ys ?m" "quarter ?ys (3 * ?m) \<le> ?ys ! ?m"
      using quarter_bounds[OF sorted_sort[of xs]] m by simp_all
    moreover have "quarter ?ys ?m \<le> quarter ?ys (2 * ?m)" "quarter ?ys (2 * ?m) \<le> quarter ?ys (3 * ?m)"
      using m by (auto intro!: quarter_mono)
    ultimately show ?thesis unfolding q by simp
  qed
qed

section \<open>Unknown judgements\<close>

text \<open>What a record could become if its unknown judgements were settled one way or the other.\<close>

definition settles :: "verdict \<Rightarrow> verdict \<Rightarrow> bool" where
  "settles v w \<longleftrightarrow> v = VUnknown \<or> w = v"

definition settled :: "trial_record \<Rightarrow> trial_record \<Rightarrow> bool" where
  "settled r r' \<longleftrightarrow> declared_done r' = declared_done r \<and> revokes r' = revokes r \<and>
     settles (at_declaration r) (at_declaration r') \<and> settles (at_horizon r) (at_horizon r') \<and>
     settles (duplicate_value r) (duplicate_value r') \<and>
     rel_option settles (protection_value r) (protection_value r') \<and>
     list_all2 settles (seen_access r) (seen_access r')"

lemma settled_lists:
  assumes "list_all2 settles vs ws"
  shows "VFail \<in> set vs \<Longrightarrow> VFail \<in> set ws" "VFail \<in> set ws \<Longrightarrow> VFail \<in> set vs \<or> VUnknown \<in> set vs"
    "VUnknown \<in> set ws \<Longrightarrow> VUnknown \<in> set vs"
  using assms by (induction) (auto simp: settles_def)

lemma settled_parts: "settled r r' \<Longrightarrow> list_all2 settles (recovery_parts r) (recovery_parts r')"
  by (auto simp: settled_def recovery_parts_def settles_def split: option.split)


definition between :: "rate \<Rightarrow> rate \<Rightarrow> bool" where
  "between x y \<longleftrightarrow> rt_n y = rt_n x \<and> rt_k x \<le> rt_k y \<and> rt_k y + rt_unknown y \<le> rt_k x + rt_unknown x"



text \<open>A trial that was declared done and judged twice, with one Pod left.\<close>

definition judged_trial :: "verdict \<Rightarrow> verdict \<Rightarrow> trial_record" where
  "judged_trial d h = \<lparr>rc_plan = \<lparr>pl_trial = ''c'', pl_scenario = None, pl_method = ''full'', pl_group = ''A'',
       pl_operation = ''CREATE'', pl_horizon = 3, pl_repetition = 1, pl_revisions = []\<rparr>,
     rc_request = ''7'', rc_submitted = 0, rc_declared = Some 1, rc_verified = None, rc_end = 3,
     rc_value = Some ''FULFILLED'', rc_at_declaration = Some \<lparr>ev_verdict = d, ev_domains = [], ev_relations = []\<rparr>,
     rc_at_horizon = \<lparr>ev_verdict = h, ev_domains = [], ev_relations = []\<rparr>, rc_samples = [],
     rc_environment = \<lparr>en_verdict = EnvClean, en_user = Some ''kim''\<rparr>, rc_start = None, rc_injection = None,
     rc_scenario = None, rc_snapshots = Some (SnapFailed, SnapTaken [''kim'' \<mapsto> [''pod'']] False), rc_protection = None\<rparr>"

lemmas record_values = declared_done_def declarations_def revokes_def at_declaration_def at_horizon_def access_value_def
  duplicate_value_def protection_value_def seen_access_def recovery_parts_def

lemma judged_trial_values:
  "declared_done (judged_trial d h)" "\<not> revokes (judged_trial d h)" "at_declaration (judged_trial d h) = d"
  "at_horizon (judged_trial d h) = h" "duplicate_value (judged_trial d h) = VPass"
  "protection_value (judged_trial d h) = None" "seen_access (judged_trial d h) = [h]"
  "recovery_parts (judged_trial d h) = [h, VPass, VPass]"
  by (simp_all add: record_values judged_trial_def)

lemma judged_trial_settled: "settled (judged_trial d h) (judged_trial d' h') \<longleftrightarrow> settles d d' \<and> settles h h'"
  by (auto simp: settled_def judged_trial_values settles_def)


text \<open>The numerator of the safe recoveries has an upper bound of this kind, and a lower one when no judgement at the
  declaration is unknown.\<close>

lemma safe_recovery_between:
  assumes "list_all2 settled rs rs'" "\<forall>r\<in>set rs. at_declaration r \<noteq> VUnknown"
  shows "between (safe_recovery rs) (safe_recovery rs')"
  using assms
proof (induction)
  case (Cons r rs r' rs')
  note p = settled_lists[OF settled_parts[OF Cons.hyps(1)]]
  from Cons.hyps(1) Cons.prems have "at_declaration r' = at_declaration r" "declared_done r' = declared_done r"
    by (auto simp: settled_def settles_def)
  then have "recovered VPass r \<Longrightarrow> recovered VPass r'"
    "recovered VPass r' \<or> recovered VUnknown r' \<Longrightarrow> recovered VPass r \<or> recovered VUnknown r"
    by (auto simp: recovered_def dest: p)
  moreover have "\<not> (recovered VPass x \<and> recovered VUnknown x)" for x by (auto simp: recovered_def)
  note this[of r] this[of r']
  moreover have "between (safe_recovery rs) (safe_recovery rs')" using Cons.IH Cons.prems by simp
  ultimately show ?case by (auto simp: between_def counted)
qed (simp add: between_def counted)

text \<open>The number of safe recoveries is the exception: a trial whose declaration could not be judged counts as a safe recovery without a note of the unknown, and not at all once that judgement is settled as a failure.\<close>

lemma safe_recovery_folds_unknown:
  "\<exists>r r'. settled r r' \<and> at_declaration r = VUnknown \<and> safe_recovery [r] = rate_of 1 1 0 \<and> safe_recovery [r'] = rate_of 0 1 0"
  by (intro exI[of _ "judged_trial VUnknown VPass"] exI[of _ "judged_trial VFail VPass"])
    (simp add: judged_trial_settled settles_def counted rate_on_def recovered_def judged_trial_values)

section \<open>Groups\<close>

lemma add_to_facts:
  "fst ` set (add_to k vs g) = insert k (fst ` set g)"
  "distinct (map fst g) \<Longrightarrow> distinct (map fst (add_to k vs g))"
  "mset (concat (map snd (add_to k vs g))) = mset (concat (map snd g)) + mset vs"
  "\<forall>(k, ws)\<in>set g. \<forall>w\<in>set ws. P k w \<Longrightarrow> \<forall>v\<in>set vs. P k v \<Longrightarrow> \<forall>(k, ws)\<in>set (add_to k vs g). \<forall>w\<in>set ws. P k w"
proof -
  show "fst ` set (add_to k vs g) = insert k (fst ` set g)" by (induction k vs g rule: add_to.induct) auto
  show "distinct (map fst g) \<Longrightarrow> distinct (map fst (add_to k vs g))"
  proof (induction k vs g rule: add_to.induct)
    case (2 k vs k' ws g)
    have "fst ` set (add_to k vs g) = insert k (fst ` set g)" by (induction k vs g rule: add_to.induct) auto
    with 2 show ?case by auto
  qed simp
  show "mset (concat (map snd (add_to k vs g))) = mset (concat (map snd g)) + mset vs"
    by (induction k vs g rule: add_to.induct) simp_all
  show "\<forall>(k, ws)\<in>set g. \<forall>w\<in>set ws. P k w \<Longrightarrow> \<forall>v\<in>set vs. P k v \<Longrightarrow> \<forall>(k, ws)\<in>set (add_to k vs g). \<forall>w\<in>set ws. P k w"
    by (induction k vs g rule: add_to.induct) auto
qed

text \<open>A table of groups: each key once, and all and only the elements given.\<close>

definition tabled :: "('v \<Rightarrow> 'k) \<Rightarrow> 'v list \<Rightarrow> ('k \<times> 'v list) list \<Rightarrow> bool" where
  "tabled key vs g \<longleftrightarrow> distinct (map fst g) \<and> mset (concat (map snd g)) = mset vs \<and>
     (\<forall>(k, ws)\<in>set g. \<forall>w\<in>set ws. key w = k)"

lemma tabled_add: "tabled key vs g \<Longrightarrow> \<forall>w\<in>set ws. key w = k \<Longrightarrow> tabled key (vs @ ws) (add_to k ws g)"
  unfolding tabled_def by (intro conjI add_to_facts(2,4)) (simp_all add: add_to_facts(3))

lemma tabled_fold: "tabled key us g \<Longrightarrow> tabled key (us @ vs) (foldl (\<lambda>g v. add_to (key v) [v] g) g vs)"
proof (induction vs arbitrary: us g)
  case (Cons v vs)
  from Cons.IH[OF tabled_add[OF Cons.prems, of "[v]" "key v"]] show ?case by simp
qed simp

lemma tabled_group_by: "tabled key vs (group_by key vs)"
  using tabled_fold[of key "[]" "[]" vs] by (simp add: group_by_def tabled_def)

lemma tabled_groups: "tabled record_key records (groups_of records missing)"
proof -
  have "tabled record_key records g \<Longrightarrow> tabled record_key records (foldl (\<lambda>g k. add_to k [] g) g ks)" for g ks
  proof (induction ks arbitrary: g)
    case (Cons k ks)
    from Cons.IH[OF tabled_add[OF Cons.prems, of "[]", simplified]] show ?case by simp
  qed simp
  then show ?thesis by (simp add: groups_of_def tabled_group_by)
qed

lemma add_to_keys: "fst ` set (foldl (\<lambda>g v. add_to (f v) (h v) g) g vs) = fst ` set g \<union> f ` set vs"
  by (induction vs arbitrary: g) (auto simp: add_to_facts(1))

lemma groups_keys: "fst ` set (groups_of records missing) = record_key ` set records \<union> set missing"
proof -
  note add_to_keys[of "\<lambda>k :: group_key. k" "\<lambda>_. [] :: trial_record list"] add_to_keys[of record_key "\<lambda>v. [v]"]
  then show ?thesis by (simp add: groups_of_def group_by_def)
qed

text \<open>What is added up over the groups of a table is added up over its elements.\<close>

lemma tabled_sum:
  assumes "tabled key vs g"
  shows "(\<Sum>(k, ws)\<leftarrow>g. tally P ws) = tally P vs"
proof -
  have "(\<Sum>(k, ws)\<leftarrow>g. tally P ws) = tally P (concat (map snd g))" by (induction g) auto
  moreover have "tally P xs = size (filter_mset P (mset xs))" for xs by (simp add: tally_def flip: mset_filter)
  ultimately show ?thesis using assms by (simp only: tabled_def)
qed

lemma key_sum:
  assumes "distinct ks" "set ms \<subseteq> set ks"
  shows "(\<Sum>k\<leftarrow>ks. tally (\<lambda>m. m = k) ms) = length ms"
  using assms(2)
proof (induction ms)
  case (Cons m ms)
  have "(\<Sum>k\<leftarrow>ks. if m = k then 1 else 0 :: nat) = 1"
    using assms(1) Cons.prems by (simp add: sum_list_distinct_conv_sum_set)
  with Cons show ?case by (simp add: sum_list_addf)
qed (simp add: sum_list_0)

text \<open>No two keys are written alike when no name of a method holds a bar and no scenario is called \<open>None\<close>.\<close>

definition plain_key :: "group_key \<Rightarrow> bool" where
  "plain_key k \<longleftrightarrow> CHR ''|'' \<notin> set (snd k) \<and> fst k \<noteq> Some ''None''"

lemma text_key_inj: "inj_on text_key {k. plain_key k}"
proof (rule inj_onI, clarsimp simp: plain_key_def text_key_def)
  fix i m j n
  assume *: "CHR ''|'' \<notin> set m" "CHR ''|'' \<notin> set n" "i \<noteq> Some ''None''" "j \<noteq> Some ''None''"
    "str_or_none i @ CHR ''|'' # m = str_or_none j @ CHR ''|'' # n"
  have tail: "rev (takeWhile (\<lambda>c. c \<noteq> CHR ''|'') (rev (a @ CHR ''|'' # b))) = b" if "CHR ''|'' \<notin> set b" for a b
  proof -
    have "takeWhile (\<lambda>c. c \<noteq> CHR ''|'') (rev (a @ CHR ''|'' # b)) = rev b"
      using that by (auto simp: takeWhile_tail takeWhile_eq_all_conv)
    then show ?thesis by (simp only: rev_rev_ident)
  qed
  have "m = n" using tail[OF *(1)] tail[OF *(2)] *(5) by metis
  with * show "i = j \<and> m = n" by (auto simp: str_or_none_def split: option.splits)
qed

lemma analyze_groups:
  assumes "\<And>k. k \<in> record_key ` set records \<union> set missing \<Longrightarrow> plain_key k"
  shows "distinct (map fst (analyze records specs missing))"
    and "mset (analyze records specs missing) =
      mset (map (\<lambda>(k, recs). (text_key k, analyze_group specs missing k recs)) (groups_of records missing))"
proof -
  let ?f = "\<lambda>(k, recs). (text_key k, analyze_group specs missing k recs)"
  let ?gs = "sort_key (\<lambda>(k, recs). (str_or_none (fst k), snd k)) (groups_of records missing)"
  have new: "AList.update k v xs = xs @ [(k, v)]" if "k \<notin> fst ` set xs" for k v and xs :: "(string \<times> analysis) list"
    using that by (induction xs) auto
  have run: "foldl (\<lambda>out (k, recs). AList.update (text_key k) (analyze_group specs missing k recs) out) acc xs = acc @ map ?f xs"
    if "distinct (map fst acc @ map (text_key \<circ> fst) xs)" for acc xs
    using that
  proof (induction xs arbitrary: acc)
    case (Cons x xs)
    have "AList.update (text_key (fst x)) y acc = acc @ [(text_key (fst x), y)]" for y using Cons.prems by (auto intro: new)
    with Cons.prems show ?case by (cases x) (simp add: Cons.IH)
  qed simp
  have "distinct (map fst (groups_of records missing))" using tabled_groups by (simp add: tabled_def)
  moreover have "inj_on text_key (fst ` set (groups_of records missing))"
    by (rule inj_on_subset[OF text_key_inj]) (use assms in \<open>auto simp: groups_keys\<close>)
  ultimately have "distinct (map text_key (map fst (groups_of records missing)))"
    by (simp only: distinct_map[of text_key] set_map)
  then have d: "distinct (map (text_key \<circ> fst) (groups_of records missing))" by (simp only: map_map)
  have "distinct (map (text_key \<circ> fst) ?gs)"
    using d by (simp only: distinct_map distinct_sort set_sort)
  from run[of "[]" ?gs] this have a: "analyze records specs missing = map ?f ?gs" by (simp add: analyze_def)
  have "fst \<circ> ?f = text_key \<circ> fst" by auto
  with \<open>distinct (map (text_key \<circ> fst) ?gs)\<close> show "distinct (map fst (analyze records specs missing))"
    by (simp add: a)
  show "mset (analyze records specs missing) = mset (map ?f (groups_of records missing))" by (simp add: a)
qed

text \<open>A rate of a group is the sum of the rates of its strata.\<close>

definition adds_up :: "(metric_set \<Rightarrow> rate) \<Rightarrow> metric_set \<Rightarrow> metric_set list \<Rightarrow> bool" where
  "adds_up f m ms \<longleftrightarrow> rt_n (f m) = (\<Sum>x\<leftarrow>ms. rt_n (f x)) \<and> rt_k (f m) = (\<Sum>x\<leftarrow>ms. rt_k (f x)) \<and>
     rt_unknown (f m) = (\<Sum>x\<leftarrow>ms. rt_unknown (f x))"

lemma adds_up_strata:
  assumes f: "\<And>rs. f (metrics rs recoverable) = rate_on K N U rs" and t: "tabled key vs g"
  shows "adds_up f (metrics vs recoverable) (map snd (map (\<lambda>(k, rs). (k, metrics rs recoverable)) g))"
proof -
  have "(\<Sum>x\<leftarrow>map snd (map (\<lambda>(k, rs). (k, metrics rs recoverable)) g). h (f x)) = (\<Sum>(k, rs)\<leftarrow>g. h (rate_on K N U rs))" for h
    by (induction g) (auto simp: f)
  from this[of rt_n] this[of rt_k] this[of rt_unknown] show ?thesis
    unfolding adds_up_def by (simp only: f rate_on_sel tabled_sum[OF t])
qed

definition main_rates :: "(metric_set \<Rightarrow> rate) list" where
  "main_rates = [ms_incorrect, ms_unknown, ms_verified, ms_residual, ms_duplicate, ms_protection]"

lemma main_rates_add_up:
  assumes "tabled key vs g"
  shows "list_all (\<lambda>f. adds_up f (metrics vs recoverable) (map snd (map (\<lambda>(k, rs). (k, metrics rs recoverable)) g))) main_rates"
proof -
  note a = adds_up_strata[OF _ assms]
  show ?thesis unfolding main_rates_def list.pred_inject(2)
    by (intro conjI list.pred_inject(1); rule a; simp add: metrics_def counted)
qed

text \<open>A group whose trials are all accounted for: given, missing and set aside, by the environment and, for the
  revocations, by the state they started in.\<close>

definition accounted :: "analysis \<Rightarrow> bool" where
  "accounted a \<longleftrightarrow> an_total a = an_missing a + an_invalid a + rt_n (ms_verified (an_metrics a)) \<and>
     list_all (\<lambda>f. adds_up f (an_metrics a) (map snd (an_by_environment a))) main_rates \<and>
     adds_up ms_residual (an_metrics a) (map snd (an_by_start a))"

lemma tally_not: "tally (\<lambda>x. \<not> P x) xs + tally P xs = length xs"
  by (induction xs) auto

lemma accounted_group: "accounted (analyze_group specs missing k recs)"
proof -
  let ?valid = "filter (\<lambda>r. \<not> invalid_injection r) recs" and ?b = "map_option snd (spec_view specs (fst k))"
  let ?gs = "group_by start_of (filter revokes ?valid)"
  let ?ms = "map snd (map (\<lambda>(k, rs). (k, metrics rs ?b)) ?gs)"
  obtain d where "length recs = length ?valid + d" by (metis le_iff_add length_filter_le)
  moreover have "rt_n (ms_verified (metrics ?valid ?b)) = length ?valid"
    by (simp add: metrics_def counted tally_eqs(1))
  moreover have "adds_up ms_residual (metrics (filter revokes ?valid) ?b) ?ms"
    by (rule adds_up_strata[OF _ tabled_group_by]) (simp add: metrics_def counted)
  then have "adds_up ms_residual (metrics ?valid ?b) ?ms"
    by (simp add: adds_up_def metrics_def counted tally_eqs conj_ac)
  ultimately show ?thesis
    using main_rates_add_up[OF tabled_group_by[of environment_of ?valid], of ?b]
    by (simp add: accounted_def analyze_group_def Let_def)
qed

text \<open>C39: The analysis loses no trial: when no name makes two groups look alike, the totals of the groups add up to the records given and the trials named as missing, and in each group what is not missing or set aside for its injection is counted, with every rate the exact sum of its strata by environment, and the rate of left-over access the sum of its strata by the state the revocation started in.\<close>

theorem no_trial_lost:
  assumes "\<forall>k\<in>record_key ` set records \<union> set missing. plain_key k"
  shows "(\<Sum>a\<leftarrow>map snd (analyze records specs missing). an_total a) = length records + length missing \<and>
    list_all accounted (map snd (analyze records specs missing)) \<and> distinct (map fst (analyze records specs missing))"
proof -
  let ?g = "groups_of records missing" and ?out = "analyze records specs missing"
  have "plain_key k" if "k \<in> record_key ` set records \<union> set missing" for k using assms that by blast
  note out = analyze_groups[OF this, where specs = specs]
  have "mset (map snd ?out) = mset (map snd (map (\<lambda>(k, recs). (text_key k, analyze_group specs missing k recs)) ?g))"
    by (simp only: mset_map[of snd] out(2))
  then have snds: "mset (map snd ?out) = mset (map (\<lambda>(k, recs). analyze_group specs missing k recs) ?g)"
    by (simp only: map_map comp_def case_prod_beta' snd_conv)
  have "(\<Sum>a\<leftarrow>map snd ?out. an_total a) = sum_mset (image_mset an_total (mset (map snd ?out)))"
    by (metis mset_map sum_mset_sum_list)
  also have "\<dots> = (\<Sum>(k, recs)\<leftarrow>?g. length recs + tally (\<lambda>m. m = k) missing)"
    unfolding snds by (simp add: sum_mset_sum_list analyze_group_def Let_def comp_def case_prod_beta' flip: mset_map)
  also have "\<dots> = (\<Sum>(k, recs)\<leftarrow>?g. tally (\<lambda>_. True) recs) + (\<Sum>k\<leftarrow>map fst ?g. tally (\<lambda>m. m = k) missing)"
    by (simp add: sum_list_addf case_prod_beta' comp_def tally_eqs(1))
  also have "(\<Sum>(k, recs)\<leftarrow>?g. tally (\<lambda>_. True) recs) = length records"
    by (simp add: tabled_sum[OF tabled_groups] tally_eqs(1))
  also have "(\<Sum>k\<leftarrow>map fst ?g. tally (\<lambda>m. m = k) missing) = length missing"
    using tabled_groups[of records missing] by (intro key_sum) (auto simp: tabled_def groups_keys)
  finally have "(\<Sum>a\<leftarrow>map snd ?out. an_total a) = length records + length missing" .
  moreover have "set (map snd ?out) = set (map (\<lambda>(k, recs). analyze_group specs missing k recs) ?g)"
    using snds by (rule mset_eq_setD)
  then have "list_all accounted (map snd ?out)" unfolding list_all_iff by (auto simp: accounted_group)
  ultimately show ?thesis using out(1) by blast
qed

theorem no_trial_lost_witness:
  "(\<Sum>a\<leftarrow>map snd (analyze [judged_trial VPass VPass] (\<lambda>_. None) [(Some ''F1'', ''full'')]). an_total a) = 2"
  using no_trial_lost[of "[judged_trial VPass VPass]" "[(Some ''F1'', ''full'')]" "\<lambda>_. None"]
  by (simp add: plain_key_def record_key_def scenario_of_def judged_trial_def)

end
