(* ===== verification/Password_Props.thy ===== *)
theory Password_Props
  imports Passwords Group_Facts Samples
begin

text \<open>
  The property of the change of a login password, with its instance.
\<close>

section \<open>The shadow file\<close>













section \<open>Secrets and Pods\<close>

lemma keeps_password_calls [keeps_intros]:
  assumes "\<And>s h. obs (s\<lparr>hist := h\<rparr>) = obs s"
  shows "keeps obs (update_account_secrets E user hash)" "keeps obs (sync_running_pod_password E user hash)"
  unfolding update_account_secrets_def update_one_secret_def sync_running_pod_password_def exec_on_running_pods_def
    exec_on_pod_def exec_in_pod_def list_user_pods_def load_k8s_def Let_def
  by (intro keeps_intros; simp add: assms)+







text \<open>A failure after the ledger was changed: taken back and final, or to be tried again.\<close>

definition final_failure :: "exn \<Rightarrow> bool" where
  "final_failure e \<longleftrightarrow> (\<exists>f c. e = StepFailed f c \<and> \<not> f_retry f)"


lemma final_step_failed [simp]: "final_failure (step_failed a b c d r e) = (\<not> r)"
  "\<not> final_failure (infra_failed g b c d)"
  by (simp_all add: final_failure_def step_failed_def infra_failed_def)




section \<open>All or nothing\<close>




end
