(* ===== verification/Port_Props.thy ===== *)
theory Port_Props
  imports Port_Facts Samples
begin

text \<open>
  The properties of the NodePort table and the Services, with their instances.
\<close>

section \<open>Allocation\<close>

text \<open>C11: as long as the other controllers keep the table well formed (no port twice, all in the
  configured range), so does a request; the ports it returns are, in the order of the request, one
  per internal port, pairwise distinct and recorded for the Pod in the committed table.\<close>

theorem nodeports_granted:
  assumes "rely_ports E" "ports_inv E (nodeports s)"
    and "allocate_nodeports E user pod node ports s = (Inr out, t)"
  shows "ports_inv E (nodeports t) \<and> map internal_port out = map fst ports \<and>
     distinct (map external_port out) \<and>
     (\<forall>q\<in>set out. \<exists>r\<in>set (nodeports t). external_port q = Some (np_port r) \<and> np_pod r = pod)"
proof -
  have "table_good (\<lambda>t. rely_ports E \<longrightarrow> ports_inv E t) (\<lambda>_. True) s"
    using assms(2) by (simp add: table_good_def)
  from shape.wp_allocate[OF this] granted_in_inv
  have "wp (allocate_nodeports E user pod node ports)
     (\<lambda>out u. True \<and> (\<exists>t. (rely_ports E \<longrightarrow> ports_inv E t) \<and> granted_in E user pod node ports t (nodeports u) out))
     (\<lambda>_. table_good (\<lambda>t. rely_ports E \<longrightarrow> ports_inv E t) (\<lambda>_. True)) s"
    by blast
  from wp_Inr[OF this assms(3)] assms(1) obtain t\<^sub>0 where
    inv\<^sub>0: "ports_inv E t\<^sub>0" and g: "granted_in E user pod node ports t\<^sub>0 (nodeports t) out" by auto
  note inv = granted_in_inv[OF g inv\<^sub>0]
  from granted_rows[OF g] obtain rows where r: "nodeports t = t\<^sub>0 @ rows" "distinct (map np_port rows)"
    "\<forall>r\<in>set rows. np_pod r = pod \<and> np_port r \<notin> np_port ` set t\<^sub>0"
    "map external_port out = map (Some \<circ> np_port) rows" "map internal_port out = map fst ports"
    by metis
  have "distinct (map (Some \<circ> np_port) rows)"
    using r(2) by (simp add: distinct_map inj_on_def)
  then have d: "distinct (map external_port out)" unfolding r(4) .
  have "\<exists>r\<in>set (nodeports t). external_port q = Some (np_port r) \<and> np_pod r = pod" if "q \<in> set out" for q
  proof -
    have "external_port q \<in> set (map (Some \<circ> np_port) rows)" using that r(4) by (metis image_eqI set_map)
    then show ?thesis using r(1,3) by auto
  qed
  with inv d r(5) show ?thesis by blast
qed

definition ports1 :: "(int \<times> string option) list" where
  "ports1 = [(22, Some ''ssh''), (8888, None)]"

lemmas run_ports = allocate_nodeports_def reconcile_nodeport_allocations_def wall_clock_def app_stmt_def
  app_select_def app_commit_def commit_locked_def reconcile_transaction_def stale_pods_def past_grace_def
  rows_of_def without_pods_def delete_stale_def allocate_transaction_def cluster_reserved_nodeports_def
  available_ports_def insert_port_def purpose_of_def load_k8s_def services_call_def release_nodeports_def
  io_def ext_def run

definition row1 :: nodeport where
  "row1 = \<lparr>np_port = 30000, np_pod = ''ailab-lee-x'', np_user = ''lee'', np_node = ''farm1'', np_internal = 22,
     np_purpose = ''ssh'', np_created = 86400000\<rparr>"

definition st_ports :: st where
  "st_ports = st0\<lparr>nodeports := [row1]\<rparr>"

lemma alloc_run: "\<exists>t. allocate_nodeports env0 ''kim'' ''ailab-kim-y'' ''farm2'' ports1 st_ports = (Inr
    [\<lparr>internal_port = 22, external_port = Some 30001, usage_purpose = ''ssh''\<rparr>,
     \<lparr>internal_port = 8888, external_port = Some 30002, usage_purpose = ''custom''\<rparr>], t)"
  by (simp add: run_ports st_ports_def st0_def env0_def ports1_def row1_def upto_rec_numeral Let_def)

lemma sample_ports: "rely_ports env0" "ports_inv env0 (nodeports st_ports)"
  by (auto simp: rely_ports_def env0_def ports_inv_def st_ports_def row1_def)

theorem nodeports_granted_witness:
  "\<exists>out t. allocate_nodeports env0 ''kim'' ''ailab-kim-y'' ''farm2'' ports1 st_ports = (Inr out, t) \<and>
     map internal_port out = [22, 8888] \<and> ports_inv env0 (nodeports t)"
proof -
  from alloc_run obtain out t where
    r: "allocate_nodeports env0 ''kim'' ''ailab-kim-y'' ''farm2'' ports1 st_ports = (Inr out, t)" by blast
  from nodeports_granted[OF sample_ports r] r show ?thesis by (auto simp: ports1_def)
qed

text \<open>C12: a request never takes a port away from a Pod that is in use.  A row that the other
  controllers leave alone is still there after the request, however it ends, reconciliation with the
  cluster included, when its Pod still has a Service or when the row is younger than the grace (the
  time between the row and the Service of a Pod that is starting).\<close>

theorem nodeports_kept:
  assumes "r \<in> set (nodeports s)" "others_keep E r" "spared E r (services s)"
  shows "r \<in> set (nodeports (state_of (allocate_nodeports E user pod node ports) s))"
proof -
  have "table_good (\<lambda>t. others_keep E r \<longrightarrow> r \<in> set t) (spared E r) s"
    using assms by (simp add: table_good_def)
  then have "wp (allocate_nodeports E user pod node ports)
     (\<lambda>out u. spared E r (services u) \<and> (\<exists>t. (others_keep E r \<longrightarrow> r \<in> set t) \<and> granted_in E user pod node ports t (nodeports u) out))
     (\<lambda>_. table_good (\<lambda>t. others_keep E r \<longrightarrow> r \<in> set t) (spared E r)) s"
    by (rule kept.wp_allocate) (auto simp: granted_in_def)
  then show ?thesis using assms(2)
    by (auto simp: wp_def table_good_def granted_in_def split: prod.splits sum.splits)
qed

theorem nodeports_kept_witness:
  "row1 \<in> set (nodeports (state_of (allocate_nodeports env0 ''kim'' ''ailab-kim-y'' ''farm2'' ports1) st_ports))"
  by (rule nodeports_kept)
    (simp_all add: st_ports_def others_keep_def spared_def young_def env0_def row1_def)



section \<open>Services\<close>

text \<open>Undisturbed, deleting the Services of a Pod after creating them, even if the creation
  stopped half way on a name or a port in use, leaves exactly the Services there were before, and the
  deletion does not fail.\<close>

lemma services_roundtrip:
  assumes "quiet_cluster E" "distinct (map svc_name (services s))" "pod \<notin> svc_pod ` set (services s)"
  shows "\<exists>t. bnd (attempt (create_nodeport_services E user pod ports blocked decided))
               (\<lambda>_. delete_nodeport_services E pod) s = (Inr (), t) \<and> services t = services s"
proof -
  have "grown_services pod (services s) s" using assms(2) by (simp add: grown_services_def)
  from wp_create_services[OF assms(1) this, of user ports blocked decided]
  have c: "wp (attempt (create_nodeport_services E user pod ports blocked decided))
      (\<lambda>_. grown_services pod (services s)) (\<lambda>_ _. False) s"
    by (simp add: wp_attempt)
  have "wp (delete_nodeport_services E pod) (\<lambda>_ v. services v = services s) (\<lambda>_ _. False) u"
    if "grown_services pod (services s) u" for u
  proof -
    from that obtain ws where ws: "services u = services s @ ws" "\<forall>v\<in>set ws. svc_pod v = pod"
      "distinct (map svc_name (services u))" by (auto simp: grown_services_def)
    have "filter (\<lambda>v. svc_pod v \<noteq> pod) (services u) = services s"
      using ws(2) assms(3) by (auto simp: ws(1) filter_empty_conv intro!: filter_True)
    with wp_delete_services[OF assms(1) ws(3), of pod] show ?thesis by simp
  qed
  with c have "wp (bnd (attempt (create_nodeport_services E user pod ports blocked decided))
      (\<lambda>_. delete_nodeport_services E pod)) (\<lambda>_ v. services v = services s) (\<lambda>_ _. False) s"
    unfolding wp_bnd by (auto elim: wp_weaken)
  then show ?thesis by (auto simp: wp_def split: prod.splits sum.splits)
qed

end
