(* ===== verification/Pod_Facts.thy ===== *)
theory Pod_Facts
  imports Pods Port_Facts
begin

text \<open>
  What the steps of the Pod creation keep and promise: the frames of their helpers, what is left
  of a Pod whose creation failed, the wait for readiness, the choice of the node and the GPUs.
\<close>

section \<open>Frames\<close>

text \<open>The observations that logging, Redis and requests to the outside do not touch.\<close>

definition pod_frame :: "(st \<Rightarrow> 'b) \<Rightarrow> bool" where
  "pod_frame obs \<longleftrightarrow> (\<forall>s h. obs (s\<lparr>hist := h\<rparr>) = obs s) \<and> (\<forall>s l. obs (s\<lparr>oplog := l\<rparr>) = obs s) \<and>
     (\<forall>s n. obs (s\<lparr>write_failures := n\<rparr>) = obs s) \<and> (\<forall>s p. obs (s\<lparr>pod_status := p\<rparr>) = obs s)"

lemma pod_frameD:
  assumes "pod_frame obs"
  shows "obs (s\<lparr>hist := h\<rparr>) = obs s" "obs (s\<lparr>oplog := l\<rparr>) = obs s" "obs (s\<lparr>write_failures := n\<rparr>) = obs s"
    "obs (s\<lparr>pod_status := p\<rparr>) = obs s"
  using assms by (simp_all add: pod_frame_def)

lemma pod_frame_nodeports [simp]: "pod_frame nodeports" and pod_frame_services [simp]: "pod_frame services"
  and pod_frame_cx [simp]: "pod_frame cx" and pod_frame_led [simp]: "pod_frame led"
  and pod_frame_depth [simp]: "pod_frame lock_depth"
  by (simp_all add: pod_frame_def)

lemma keeps_pod_log [keeps_intros]:
  assumes "pod_frame obs"
  shows "keeps obs (log_pod E req user pod node res act ph err)" "keeps obs (set_pod_creation_status E key stage)"
    "keeps obs (log_spec E key user p n r act ph)" "keeps obs (log_sub E L act ph err)"
    "keeps obs (close_sub E L op ph err)"
  unfolding log_pod_def set_pod_creation_status_def log_spec_def log_sub_def close_sub_def
  by (intro keeps_intros; simp add: pod_frameD[OF assms])+

lemma keeps_pod_requests [keeps_intros]:
  assumes "pod_frame obs"
  shows "keeps obs (load_k8s E)" "keeps obs (pod_log_tail E pod)" "keeps obs (delete_created_pod E pod)"
    "keeps obs (delete_account_secret E pod)" "keeps obs (pod_progress_stage E pod)"
    "keeps obs (summarize_pod_start_events E pod)" "keeps obs (resolve_k8s_node_name E cand)"
    "keeps obs (ensure_account_secret E pod hash)" "keeps obs (own_account_secret E pod u)"
    "keeps obs (login_password_hash E info)" "keeps obs (load_user_image E user base)"
    "keeps obs (generate_pod_name E user)" "keeps obs (check_pod_absent E pod)" "keeps obs (ready_worker_nodes E)"
    "keeps obs (list_node_gpus E node)" "keeps obs (resolve_visible_gpus E node k models)"
  unfolding load_k8s_def pod_log_tail_def delete_created_pod_def delete_account_secret_def
    pod_progress_stage_def summarize_pod_start_events_def resolve_k8s_node_name_def ensure_account_secret_def
    own_account_secret_def login_password_hash_def hash_login_password_def load_user_image_def save_image_metadata_def
    generate_pod_name_def check_pod_absent_def ready_worker_nodes_def list_node_gpus_def resolve_visible_gpus_def
  by (intro keeps_intros; simp add: pod_frameD[OF assms])+

lemma keeps_ledger_reads [keeps_intros]:
  "keeps nodeports (ensure_etc_layout E)" "keeps nodeports (read_lines E f)" "keeps nodeports (ledger_identity E user)"
  "keeps nodeports (build_user_groups_env E pg gid gids)"
  unfolding ensure_etc_layout_def ensure_seeded_file_def replace_file_def read_lines_def ledger_identity_def
    build_user_groups_env_def
  by (intro keeps_intros; simp)+

lemma keeps_spec_parts [keeps_intros]:
  "keeps nodeports (deploy_for_spec E key user pod node uid)"
  "keeps nodeports (spec_body E key user info node pod img pull who gids allocated)"
  unfolding deploy_for_spec_def spec_body_def
  by (intro keeps_intros; simp)+

lemma wp_frame: "keeps obs m \<Longrightarrow> P (obs s) \<Longrightarrow> wp m (\<lambda>_ u. P (obs u)) (\<lambda>_ u. P (obs u)) s"
  by (rule wp_weaken[OF keeps_wp]) auto

lemma wp_any: "(\<And>a u. Q a u) \<Longrightarrow> (\<And>e u. R e u) \<Longrightarrow> wp m Q R s"
  by (simp add: wp_def split: prod.splits sum.splits)

lemma wp_succeeded [wp_simps]: "wp (succeeded m) Q R = wp m (\<lambda>_. Q True) (\<lambda>_. Q False)"
  by (simp add: succeeded_def wp_simps)

lemma wp_quiet: "raises (\<lambda>_. False) m \<Longrightarrow> keeps obs m \<Longrightarrow> (\<And>a u. obs u = obs s \<Longrightarrow> Q a u) \<Longrightarrow> wp m Q R s"
  unfolding keeps_def raises_def wp_def by (auto split: prod.splits sum.splits) (metis snd_conv)+

lemma raises_pod_log [raises_intros]:
  "raises P (log_pod E req user pod node res act ph err)" "raises P (set_pod_creation_status E key stage)"
  "raises P (log_spec E key user p n r act ph)" "raises P (log_sub E L act ph err)" "raises P (close_sub E L op ph err)"
  unfolding log_pod_def log_spec_def log_sub_def close_sub_def set_pod_creation_status_def
  by (intro raises_intros; simp add: logargs_def)+

lemma raises_attempt [raises_intros]: "raises P (succeeded m)" "raises P (pod_log_tail E pod)"
  "raises P (delete_created_pod E pod)" "raises P (delete_account_secret E pod)"
  unfolding succeeded_def pod_log_tail_def delete_created_pod_def delete_account_secret_def
  by (auto intro!: raises_intros)

section \<open>What a failed creation leaves\<close>

text \<open>No port is recorded for the Pod.\<close>

definition freed :: "string \<Rightarrow> st \<Rightarrow> bool" where
  "freed pod s \<longleftrightarrow> rows_of pod (nodeports s) = []"

lemma freed_obs: "nodeports u = nodeports s \<Longrightarrow> freed pod u = freed pod s"
  by (simp add: freed_def)

lemma rows_of_without [simp]: "rows_of pod (without_pods [pod] t) = []"
  by (auto simp: rows_of_def without_pods_def filter_empty_conv)

lemma wp_release_frees:
  assumes "\<And>h. x_app_db E h = IoOk" and "\<And>u. freed pod u \<Longrightarrow> Q () u"
  shows "wp (release_nodeports E pod) Q R s"
  by (rule wp_release) (simp_all add: assms freed_def)

lemma wp_keep_freed:
  assumes "freed pod s" "keeps nodeports m" "raises (\<lambda>_. False) m" "\<And>a u. freed pod u \<Longrightarrow> Q a u"
  shows "wp m Q R s"
  using assms(3,2) by (rule wp_quiet) (use assms(1,4) in \<open>simp add: freed_def\<close>)

lemma wp_cleanup:
  assumes up: "\<And>h. x_app_db E h = IoOk" and q: "\<And>rb u. freed pod u \<Longrightarrow> Q rb u"
  shows "wp (cleanup_create_failure E pod v1 del) Q R s"
proof -
  let ?rest = "\<lambda>services released. if v1
       then bnd (pod_log_tail E pod) (\<lambda>tail. bnd (delete_created_pod E pod) (\<lambda>deleted.
            thn (delete_account_secret E pod)
                (ret \<lparr>rb_nodeports = released, rb_pod = deleted, rb_services = services, rb_log = tail\<rparr>)))
       else ret \<lparr>rb_nodeports = released, rb_pod = False, rb_services = services, rb_log = None\<rparr>"
  have rest: "wp (?rest services released) Q R u" if "freed pod u" for services released u
  proof (rule wp_keep_freed[OF that])
    show "keeps nodeports (?rest services released)" by (intro keeps_intros) simp_all
    show "raises (\<lambda>_. False) (?rest services released)" by (intro raises_intros)
  qed (rule q)
  have release: "wp (bnd (succeeded (release_nodeports E pod)) (?rest services)) Q R u" for services u
    unfolding wp_bnd wp_succeeded by (rule wp_release_frees[OF up]) (rule rest)
  have "raises (\<lambda>_. False) (if del then succeeded (delete_nodeport_services E pod) else ret False)"
    by (intro raises_intros)
  then show ?thesis
    unfolding cleanup_create_failure_def wp_bnd[of "if del then _ else _"]
    by (rule wp_weaken[OF raises_wp]) (use release in auto)
qed

text \<open>\<open>throws P m\<close>: whenever \<open>m\<close> raises, the exception and the state satisfy \<open>P\<close>.\<close>

definition throws :: "('e \<Rightarrow> 's \<Rightarrow> bool) \<Rightarrow> ('s, 'e, 'a) prog \<Rightarrow> bool" where
  "throws P m \<longleftrightarrow> (\<forall>s. wp m (\<lambda>_ _. True) P s)"

named_theorems throws_intros

lemma throws_wp: "throws P m \<Longrightarrow> wp m (\<lambda>_ _. True) P s"
  by (simp add: throws_def)

lemma throws_bnd [throws_intros]: "throws P m \<Longrightarrow> (\<And>a. throws P (f a)) \<Longrightarrow> throws P (bnd m f)"
  unfolding throws_def wp_bnd by (blast intro: wp_weaken)

lemma throws_thn [throws_intros]: "throws P m \<Longrightarrow> throws P n \<Longrightarrow> throws P (thn m n)"
  unfolding thn_def by (rule throws_bnd)

lemma throws_tryE [throws_intros]: "(\<And>e. throws P (h e)) \<Longrightarrow> throws P (tryE m h)"
  unfolding throws_def wp_tryE by (blast intro: wp_any)

lemma throws_raises: "raises (\<lambda>_. False) m \<Longrightarrow> throws P m"
  unfolding throws_def by (blast intro: wp_weaken raises_wp)

lemma throws_basic [throws_intros]: "throws P (ret a)" "throws P (getS f)" "throws P (modS g)" "throws P (attempt m)"
  "throws P (getC k)" "throws P (modC l)"
  by (rule throws_raises, auto simp: getC_def modC_def intro: raises_basic)+

lemma throws_branch [throws_intros]:
  "throws P m \<Longrightarrow> throws P n \<Longrightarrow> throws P (if b then m else n)"
  "throws P m \<Longrightarrow> (\<And>y. throws P (f y)) \<Longrightarrow> throws P (case x of None \<Rightarrow> m | Some y \<Rightarrow> f y)"
  "(\<And>a b. throws P (g a b)) \<Longrightarrow> throws P (case p of (a, b) \<Rightarrow> g a b)"
  "(\<And>a. throws P (k a)) \<Longrightarrow> (\<And>b. throws P (l b)) \<Longrightarrow> throws P (case z of Inl a \<Rightarrow> k a | Inr b \<Rightarrow> l b)"
  "(\<And>y. throws P (q y)) \<Longrightarrow> throws P (Let w q)"
  by (simp_all add: Let_def split: option.splits prod.splits sum.splits)

lemma throws_needC [throws_intros]: "(\<And>s. P (raised KeyError) s) \<Longrightarrow> throws P (needC k)"
  by (simp add: throws_def wp_needC split: option.splits)

lemma throws_weaken: "throws P m \<Longrightarrow> (\<And>e s. P e s \<Longrightarrow> P' e s) \<Longrightarrow> throws P' m"
  unfolding throws_def by (blast intro: wp_weaken)

text \<open>The failure of a step of the creation: a missing key of the context, or the ports are free.\<close>

definition lost_or_freed :: "string \<Rightarrow> exn \<Rightarrow> st \<Rightarrow> bool" where
  "lost_or_freed pod e s \<longleftrightarrow> e = raised KeyError \<or> freed pod s"

lemma throws_after_cleanup:
  assumes up: "\<And>h. x_app_db E h = IoOk" and m: "raises (\<lambda>_. False) m" "keeps nodeports m"
  shows "throws (lost_or_freed pod) (bnd (cleanup_create_failure E pod v1 del) (\<lambda>_. thn m (throw e)))"
  unfolding throws_def wp_bnd wp_thn
  by (intro allI wp_cleanup[OF up] wp_keep_freed[OF _ m(2,1)]) (assumption, simp add: wp_throw lost_or_freed_def)

lemma throws_cleanup_throw:
  assumes up: "\<And>h. x_app_db E h = IoOk"
  shows "throws (lost_or_freed pod) (bnd (cleanup_create_failure E pod v1 del) (\<lambda>_. throw e))"
  unfolding throws_def wp_bnd by (intro allI wp_cleanup[OF up]) (simp add: wp_throw lost_or_freed_def)

lemma throws_pod_log [throws_intros]:
  "throws P (log_pod E req user pod node res act ph err)" "throws P (set_pod_creation_status E key stage)"
  "throws P (log_sub E L act ph err)" "throws P (close_sub E L op ph err)"
  by (rule throws_raises, intro raises_intros)+

lemma throws_failures:
  assumes up: "\<And>h. x_app_db E h = IoOk"
  shows "throws (lost_or_freed pod) (create_pod_failed E req user pod best e)"
    "throws (lost_or_freed pod) (password_missing E req user pod best)"
    "throws (lost_or_freed (sl_pod L)) (wait_failed E L op)"
    "\<not> is_step_failed e \<Longrightarrow> throws (lost_or_freed (sl_pod L)) (wait_check_failed E L op e)"
    "throws (lost_or_freed pod) (create_services_failed E req user pod best e)"
  unfolding create_pod_failed_def password_missing_def wait_failed_def wait_check_failed_def create_services_failed_def
  by (auto intro!: throws_thn throws_pod_log throws_after_cleanup[OF up] raises_intros keeps_intros)

lemma login_hash_kind: "throws (\<lambda>e _. is_kind LoginPasswordMissing e) (login_password_hash E info)"
proof -
  have d: "throws (\<lambda>e _. is_kind LoginPasswordMissing e) (liftE (decode_login_password E b))" for b
    by (auto simp: throws_def wp_liftE decode_login_password_def raised_def split: option.splits)
  have c: "throws (\<lambda>e _. is_kind LoginPasswordMissing e) (liftE (checked_login_password_hash p))" for p
    by (auto simp: throws_def wp_liftE checked_login_password_hash_def raised_def)
  have h: "throws (\<lambda>e _. is_kind LoginPasswordMissing e) (hash_login_password E p)" for p
    by (simp add: throws_def hash_login_password_def wp_ext)
  show ?thesis unfolding login_password_hash_def by (intro throws_intros d c h)
qed

text \<open>\<open>m\<close> run with the Pod's name taken from the context.\<close>

definition fails_freed :: "unit cmd \<Rightarrow> bool" where
  "fails_freed m \<longleftrightarrow> (\<forall>s e t pod. m s = (Inl e, t) \<longrightarrow> c_pod_name (cx s) = Some pod \<longrightarrow> lost_or_freed pod e t)"

lemma fails_freedI:
  assumes "\<And>req user pod best. throws (lost_or_freed pod) (f req user pod best)"
  shows "fails_freed (bnd (getC c_request) (\<lambda>req. bnd (getC c_username) (\<lambda>user. bnd (needC c_pod_name) (\<lambda>pod.
     bnd (getC c_node) (\<lambda>best. f req user pod best)))))"
  unfolding fails_freed_def
proof (intro allI impI)
  fix s e t pod
  assume m: "bnd (getC c_request) (\<lambda>req. bnd (getC c_username) (\<lambda>user. bnd (needC c_pod_name) (\<lambda>pod.
     bnd (getC c_node) (\<lambda>best. f req user pod best)))) s = (Inl e, t)"
    and p: "c_pod_name (cx s) = Some pod"
  from assms have "wp (f req user pod best) (\<lambda>_ _. True) (lost_or_freed pod) s" for req user best
    by (rule throws_wp)
  then have "wp (bnd (getC c_request) (\<lambda>req. bnd (getC c_username) (\<lambda>user. bnd (needC c_pod_name) (\<lambda>pod.
     bnd (getC c_node) (\<lambda>best. f req user pod best))))) (\<lambda>_ _. True) (lost_or_freed pod) s"
    unfolding wp_bnd wp_getC wp_needC using p by simp
  from wp_Inl[OF this m] show "lost_or_freed pod e t" .
qed

lemma create_pod_fails_freed:
  assumes up: "\<And>h. x_app_db E h = IoOk"
  shows "fails_freed (step_create_pod_k8s E)"
  unfolding step_create_pod_k8s_def
proof (rule fails_freedI)
  fix req user pod best
  have pw: "throws (lost_or_freed pod) (tryE (login_password_hash E info)
      (\<lambda>e. if is_kind LoginPasswordMissing e then password_missing E req user pod best else throw e))" for info
    unfolding throws_def wp_tryE
  proof
    fix s
    show "wp (login_password_hash E info) (\<lambda>_ _. True) (\<lambda>e. wp (if is_kind LoginPasswordMissing e
        then password_missing E req user pod best else throw e) (\<lambda>_ _. True) (lost_or_freed pod)) s"
      by (rule wp_weaken[OF throws_wp[OF login_hash_kind]]) (simp_all add: throws_wp[OF throws_failures(2)[OF up]])
  qed
  show "throws (lost_or_freed pod)
     (thn (tryE (load_k8s E) (\<lambda>_. bnd (cleanup_create_failure E pod False False) (\<lambda>_.
            throw (pod_restart_failed ''CREATE_POD'' ''K8S_CLIENT_SETUP_FAILED'' None))))
    (thn (modC (\<lambda>c. c\<lparr>c_v1 := True\<rparr>))
    (bnd (needC c_user_info) (\<lambda>info.
     bnd (tryE (login_password_hash E (Some info))
            (\<lambda>e. if is_kind LoginPasswordMissing e then password_missing E req user pod best else throw e)) (\<lambda>hash.
     thn (set_pod_creation_status E req ''creating_pod'')
    (thn (log_pod E req user (Some pod) best (Some ''pod'') CREATE_POD_K8S START None)
    (thn (tryE (submit_pod E pod hash) (create_pod_failed E req user pod best))
         (log_pod E req user (Some pod) best (Some ''pod'') CREATE_POD_K8S SUCCESS None))))))))"
    by (intro throws_cleanup_throw[OF up] pw throws_failures[OF up] throws_intros) (simp_all add: lost_or_freed_def)
qed

lemma throws_need_v1: "throws (lost_or_freed pod) need_v1"
  by (simp add: need_v1_def throws_def wp_simps lost_or_freed_def)

lemma create_services_fails_freed:
  assumes up: "\<And>h. x_app_db E h = IoOk"
  shows "fails_freed (step_create_services E)"
  unfolding step_create_services_def
  by (rule fails_freedI) (intro throws_intros throws_need_v1 throws_failures[OF up])

section \<open>Waiting\<close>

text \<open>How often the API was asked for the Pod.\<close>

definition reads :: "string \<Rightarrow> st \<Rightarrow> nat" where
  "reads pod s = count_list (hist s) (EvReadPod pod)"

lemma keeps_ext_reads: "ev \<noteq> EvReadPod pod \<Longrightarrow> keeps (reads pod) (ext ev f)"
  by (simp add: keeps_def ext_def reads_def)

lemma keeps_io_reads:
  "ev \<noteq> EvReadPod pod \<Longrightarrow> (\<And>s. hist (upd s) = hist s) \<Longrightarrow> keeps (reads pod) (io ev f upd)"
  by (auto simp: keeps_def io_def reads_def Let_def split: io_reply.splits)

lemma keeps_reads:
  "keeps (reads pod) (log_pod E req user q node res act ph err)"
  "keeps (reads pod) (set_pod_creation_status E key stage)"
  "keeps (reads pod) (pod_progress_stage E pod')" "keeps (reads pod) (sleep d)"
  unfolding log_pod_def set_pod_creation_status_def log_operation_def log_operation_id_def pod_progress_stage_def sleep_def
  by (intro keeps_intros keeps_io_reads keeps_ext_reads keeps_modS; simp add: reads_def)+

lemma keeps_reads_sub:
  "keeps (reads pod) (log_sub E L act ph err)" "keeps (reads pod) (close_sub E L op ph err)"
  "keeps (reads pod) (show_progress E L op st)"
  unfolding log_sub_def close_sub_def show_progress_def
  by (intro keeps_intros keeps_reads; simp)+

text \<open>The loop asks at most once per round, never raises, and finds the Pod ready only when the
  cluster said so: a look-up after the first \<open>k\<close> of the history found it ready.\<close>

definition found_ready :: "env \<Rightarrow> string \<Rightarrow> nat \<Rightarrow> history \<Rightarrow> bool" where
  "found_ready E pod k h\<^sub>1 \<longleftrightarrow> (\<exists>h h' p. h\<^sub>1 = h' @ EvReadPod pod # h \<and> k \<le> count_list h (EvReadPod pod) \<and>
     x_read_pod E pod h = Inr p \<and> is_pod_ready p)"

lemma found_ready_later: "found_ready E pod k h \<Longrightarrow> found_ready E pod k (h' @ h)"
  unfolding found_ready_def by (metis append_assoc)

lemma found_ready_mono: "found_ready E pod k h \<Longrightarrow> j \<le> k \<Longrightarrow> found_ready E pod j h"
  unfolding found_ready_def using le_trans by blast

text \<open>\<open>grows m\<close>: the history only gets longer.\<close>

definition grows :: "'a cmd \<Rightarrow> bool" where
  "grows m \<longleftrightarrow> (\<forall>s. \<exists>h. hist (snd (m s)) = h @ hist s)"

lemma growsD: "grows m \<Longrightarrow> m s = (r, t) \<Longrightarrow> \<exists>h. hist t = h @ hist s"
  unfolding grows_def by (metis snd_conv)

lemma grows_basic: "grows (ret a)" "grows (throw e)" "grows (getS f)" "grows (ext ev g)"
  "(\<And>s. hist (k s) = hist s) \<Longrightarrow> grows (modS k)" "(\<And>s. hist (k s) = hist s) \<Longrightarrow> grows (io ev x k)"
  by (auto simp: grows_def run ext_def io_def Let_def split: io_reply.splits)

lemma grows_bnd: "grows m \<Longrightarrow> (\<And>a. grows (f a)) \<Longrightarrow> grows (bnd m f)"
  unfolding grows_def[of "bnd m f"]
proof
  fix s assume m: "grows m" and f: "\<And>a. grows (f a)"
  obtain r t where mt: "m s = (r, t)" by fastforce
  from growsD[OF m mt] obtain h where h: "hist t = h @ hist s" by blast
  show "\<exists>h. hist (snd (bnd m f s)) = h @ hist s"
  proof (cases r)
    case (Inr a)
    obtain q u where fu: "f a t = (q, u)" by fastforce
    from growsD[OF f fu] h Inr mt fu show ?thesis by (auto simp: run)
  qed (use h mt in \<open>auto simp: run\<close>)
qed

lemma grows_tryE: "grows m \<Longrightarrow> (\<And>e. grows (f e)) \<Longrightarrow> grows (tryE m f)"
  unfolding grows_def[of "tryE m f"]
proof
  fix s assume m: "grows m" and f: "\<And>e. grows (f e)"
  obtain r t where mt: "m s = (r, t)" by fastforce
  from growsD[OF m mt] obtain h where h: "hist t = h @ hist s" by blast
  show "\<exists>h. hist (snd (tryE m f s)) = h @ hist s"
  proof (cases r)
    case (Inl e)
    obtain q u where fu: "f e t = (q, u)" by fastforce
    from growsD[OF f fu] h Inl mt fu show ?thesis by (auto simp: run)
  qed (use h mt in \<open>auto simp: run\<close>)
qed

lemma grows_logs: "grows (log_sub E L act ph err)" "grows (close_sub E L op ph err)"
  "grows (summarize_pod_start_events E pod)"
  unfolding log_sub_def close_sub_def log_pod_def log_operation_def log_operation_id_def summarize_pod_start_events_def
    thn_def
  by (auto intro!: grows_basic grows_bnd grows_tryE split: option.split)

lemma grows_found: "grows m \<Longrightarrow> m s = (r, t) \<Longrightarrow> found_ready E pod k (hist s) \<Longrightarrow> found_ready E pod k (hist t)"
  by (metis growsD found_ready_later)

lemma raises_progress: "raises P (pod_progress_stage E pod)"
  unfolding pod_progress_stage_def
  by (rule raises_tryE[where P = "\<lambda>_. True"]) (simp_all add: raises_def run)

lemma wp_ready_loop:
  "wp (ready_loop E L n i op st)
     (\<lambda>r u. reads (sl_pod L) u \<le> reads (sl_pod L) s + n \<and>
        (snd r = Inr None \<longrightarrow> found_ready E (sl_pod L) (reads (sl_pod L) s) (hist u)) \<and>
        (\<forall>e. snd r = Inl e \<longrightarrow> (\<exists>h. x_read_pod E (sl_pod L) h = Inl e)))
     (\<lambda>_ _. False) s"
proof (induction n arbitrary: i op st s)
  case 0
  then show ?case by (simp add: wp_simps)
next
  case (Suc n)
  let ?pod = "sl_pod L"
  let ?s = "s\<lparr>hist := EvReadPod ?pod # hist s\<rparr>"
  let ?post = "\<lambda>r u. reads ?pod u \<le> reads ?pod s + Suc n \<and>
        (snd r = Inr None \<longrightarrow> found_ready E ?pod (reads ?pod s) (hist u)) \<and>
        (\<forall>e. snd r = Inl e \<longrightarrow> (\<exists>h. x_read_pod E ?pod h = Inl e))"
  have r: "reads ?pod ?s = Suc (reads ?pod s)" by (simp add: reads_def)
  have closed: "wp (thn (close_sub E L op SUCCESS None) (ret (None, Inr None))) ?post (\<lambda>_ _. False) ?s"
    if "x_read_pod E ?pod (hist s) = Inr p" "is_pod_ready p" for p
    unfolding wp_thn wp_ret
  proof (rule wpI)
    fix a u assume c: "close_sub E L op SUCCESS None ?s = (Inr a, u)"
    have "found_ready E ?pod (reads ?pod s) (hist ?s)" unfolding found_ready_def reads_def using that by auto
    then have "found_ready E ?pod (reads ?pod s) (hist u)" by (rule grows_found[OF grows_logs(2) c])
    with keepsE[OF keeps_reads_sub(2) c, of ?pod] r show "?post (None, Inr None) u" by simp
  next
    fix e u assume c: "close_sub E L op SUCCESS None ?s = (Inl e, u)"
    have "raises (\<lambda>_. False) (close_sub E L op SUCCESS None)" by (rule raises_pod_log)
    from raisesD[OF this c] show False .
  qed
  have again: "wp (thn (sleep 1000) (ready_loop E L n (Suc i) op' st')) ?post (\<lambda>_ _. False) u"
    if "reads ?pod u = Suc (reads ?pod s)" for u op' st'
  proof -
    let ?u = "u\<lparr>hist := EvSleep 1000 # hist u\<rparr>"
    have "reads ?pod ?u = Suc (reads ?pod s)" using that by (simp add: reads_def)
    then have "wp (ready_loop E L n (Suc i) op' st') ?post (\<lambda>_ _. False) ?u"
      by (intro wp_weaken[OF Suc.IH[of "Suc i" op' st' ?u]]) (auto intro: found_ready_mono)
    then show ?thesis by (simp add: wp_thn sleep_def wp_ext)
  qed
  have quiet: "raises (\<lambda>_. False) (show_progress E L op st)"
    unfolding show_progress_def by (intro raises_intros raises_progress)
  have progress: "wp (if i mod 5 = 0 then show_progress E L op st else ret (op, st))
      (\<lambda>p. wp (thn (sleep 1000) (ready_loop E L n (Suc i) (fst p) (snd p))) ?post (\<lambda>_ _. False)) (\<lambda>_ _. False) ?s"
  proof (rule wp_quiet)
    show "raises (\<lambda>_. False) (if i mod 5 = 0 then show_progress E L op st else ret (op, st))"
      by (intro raises_intros quiet)
    show "keeps (reads ?pod) (if i mod 5 = 0 then show_progress E L op st else ret (op, st))"
      by (intro keeps_intros keeps_reads_sub)
    fix p u assume "reads ?pod u = reads ?pod ?s"
    with r show "wp (thn (sleep 1000) (ready_loop E L n (Suc i) (fst p) (snd p))) ?post (\<lambda>_ _. False) u"
      by (intro again) simp
  qed
  show ?case
    unfolding ready_loop.simps wp_bnd wp_attempt wp_ext
    using r closed progress
    by (auto simp: wp_ret wp_case_option wp_bnd split: sum.splits option.splits)
qed

definition calm_reads :: "env \<Rightarrow> bool" where
  "calm_reads E \<longleftrightarrow> (\<forall>pod h e. x_read_pod E pod h = Inl e \<longrightarrow> \<not> is_step_failed e)"

lemma wait_pod_throws:
  assumes up: "\<And>h. x_app_db E h = IoOk" and calm: "calm_reads E"
  shows "throws (lost_or_freed (sl_pod L)) (wait_pod E L)"
proof -
  have out: "throws (lost_or_freed (sl_pod L)) (wait_outcome E L p)"
    if "\<forall>e. snd p = Inl e \<longrightarrow> (\<exists>h. x_read_pod E (sl_pod L) h = Inl e)" for p
    unfolding wait_outcome_def summarize_pod_start_events_def using that calm unfolding calm_reads_def
    by (auto intro!: throws_intros throws_failures[OF up] split: sum.splits option.splits)
  have "throws (lost_or_freed (sl_pod L)) (bnd (ready_loop E L n i op st) (wait_outcome E L))" for n i op st
    unfolding throws_def wp_bnd
    by (intro allI, rule wp_weaken[OF wp_ready_loop]) (auto intro!: throws_wp out)
  then show ?thesis unfolding wait_pod_def by (intro throws_thn throws_pod_log)
qed

lemma wait_ready_fails_freed:
  assumes up: "\<And>h. x_app_db E h = IoOk" and calm: "calm_reads E"
  shows "fails_freed (step_wait_ready E)"
  unfolding step_wait_ready_def
proof (rule fails_freedI)
  fix req user pod best
  show "throws (lost_or_freed pod) (thn need_v1 (wait_pod E \<lparr>sl_req = req, sl_user = user, sl_pod = pod, sl_node = best\<rparr>))"
    using wait_pod_throws[OF up calm, of "\<lparr>sl_req = req, sl_user = user, sl_pod = pod, sl_node = best\<rparr>"]
    by (intro throws_thn throws_need_v1) simp
qed

text \<open>The step as a whole: the number of look-ups, and what success means.\<close>

lemma keeps_reads_cleanup:
  "keeps (reads pod) (cleanup_create_failure E p v1 del)" "keeps (reads pod) (summarize_pod_start_events E p)"
proof -
  have app: "keeps (reads pod) (app_stmt E)" "keeps (reads pod) (app_commit E g)" for g
    by (auto simp: keeps_def app_stmt_def app_commit_def io_def reads_def Let_def split: io_reply.splits)
  have sv: "keeps (reads pod) (services_call E k)" for k :: "service list \<Rightarrow> exn + ('a \<times> service list)"
    by (auto simp: keeps_def services_call_def reads_def Let_def split: io_reply.splits sum.splits)
  have sv1: "keeps (reads pod) (list_pod_services E q)" for q
    unfolding list_pod_services_def by (rule sv)
  have sv2: "keeps (reads pod) (services_call E (drop_service n))" for n
    by (auto simp: keeps_def services_call_def reads_def Let_def split: io_reply.splits sum.splits)
  show "keeps (reads pod) (cleanup_create_failure E p v1 del)"
    unfolding cleanup_create_failure_def succeeded_def delete_nodeport_services_def load_k8s_def
      release_nodeports_def pod_log_tail_def delete_created_pod_def delete_account_secret_def
    by (intro app sv1 sv2 keeps_ext_reads keeps_intros; simp)
  show "keeps (reads pod) (summarize_pod_start_events E p)"
    unfolding summarize_pod_start_events_def by (intro keeps_ext_reads keeps_intros; simp)
qed

lemma keeps_reads_failures:
  "keeps (reads pod) (wait_failed E L op)" "keeps (reads pod) (wait_check_failed E L op e)"
  unfolding wait_failed_def wait_check_failed_def
  by (intro keeps_reads keeps_reads_sub keeps_reads_cleanup keeps_intros)+

lemma keeps_reads_outcome: "keeps (reads pod) (wait_outcome E L p)"
  unfolding wait_outcome_def
  by (intro keeps_reads_sub keeps_reads_cleanup keeps_reads_failures keeps_intros)

lemma outcome_ready:
  assumes "wait_outcome E L p s = (Inr a, t)"
  shows "snd p = Inr None \<and> (\<exists>h. hist t = h @ hist s)"
proof -
  have thrown: "wait_failed E L op s \<noteq> (Inr a, t)" "wait_check_failed E L op e s \<noteq> (Inr a, t)" for op e a t
    by (auto simp: wait_failed_def wait_check_failed_def run split: prod.splits sum.splits if_splits)
  have n: "snd p = Inr None"
    using assms thrown by (auto simp: wait_outcome_def thn_def bnd_def split: sum.splits option.splits prod.splits)
  have "grows (bnd (summarize_pod_start_events E (sl_pod L)) (\<lambda>_. log_sub E L WAIT_READY SUCCESS None))"
    by (intro grows_bnd grows_logs)
  with n assms growsD show ?thesis by (fastforce simp: wait_outcome_def run)
qed

lemma wp_wait_pod:
  "wp (wait_pod E L)
     (\<lambda>_ u. reads (sl_pod L) u \<le> reads (sl_pod L) s + cfg_pod_wait E \<and> found_ready E (sl_pod L) (reads (sl_pod L) s) (hist u))
     (\<lambda>_ u. reads (sl_pod L) u \<le> reads (sl_pod L) s + cfg_pod_wait E) s"
proof -
  let ?pod = "sl_pod L" and ?n = "cfg_pod_wait E"
  let ?Q = "\<lambda>_ u. reads ?pod u \<le> reads ?pod s + ?n \<and> found_ready E ?pod (reads ?pod s) (hist u)"
  let ?R = "\<lambda>_ u. reads ?pod u \<le> reads ?pod s + ?n"
  have out: "wp (wait_outcome E L p) ?Q ?R v"
    if "reads ?pod v \<le> reads ?pod s + ?n" "snd p = Inr None \<longrightarrow> found_ready E ?pod (reads ?pod s) (hist v)" for p v
  proof (rule wpI)
    show "?Q a t" if w: "wait_outcome E L p v = (Inr a, t)" for a t
      using keepsE[OF keeps_reads_outcome w, of ?pod] outcome_ready[OF w] \<open>reads ?pod v \<le> _\<close>
        \<open>snd p = Inr None \<longrightarrow> _\<close> by (auto simp: found_ready_later)
    show "?R e t" if w: "wait_outcome E L p v = (Inl e, t)" for e t
      using keepsE[OF keeps_reads_outcome w, of ?pod] \<open>reads ?pod v \<le> _\<close> by simp
  qed
  have loop: "wp (bnd (ready_loop E L ?n 0 None st) (wait_outcome E L)) ?Q ?R u" if "reads ?pod u = reads ?pod s" for u st
    unfolding wp_bnd by (rule wp_weaken[OF wp_ready_loop]) (use that in \<open>auto intro!: out\<close>)
  show ?thesis
    unfolding wait_pod_def wp_thn
  proof (rule wp_quiet[where obs = "reads ?pod"])
    fix a u assume u: "reads ?pod u = reads ?pod s"
    show "wp (log_sub E L WAIT_READY START None) (\<lambda>_. wp (bnd (ready_loop E L ?n 0 None ''pulling_image'') (wait_outcome E L)) ?Q ?R) ?R u"
      by (rule wp_quiet[where obs = "reads ?pod"])
        (use u in \<open>auto intro!: raises_intros keeps_reads_sub loop\<close>)
  qed (auto intro!: raises_intros keeps_reads)
qed

section \<open>A build that fails leaves no port\<close>

definition never_adds :: "env \<Rightarrow> string \<Rightarrow> bool" where
  "never_adds E pod \<longleftrightarrow> (\<forall>h t. rows_of pod t = [] \<longrightarrow> rows_of pod (x_nodeports E h t) = [])"

lemma rows_of_filter: "rows_of pod t = [] \<Longrightarrow> rows_of pod (without_pods pods t) = []"
  by (auto simp: rows_of_def without_pods_def filter_empty_conv)

interpretation unused: table_law "\<lambda>t. never_adds E pod \<longrightarrow> rows_of pod t = []" "\<lambda>_. True" E for E pod
  by unfold_locales (auto simp: never_adds_def intro: rows_of_filter)

lemma wp_allocate_unused:
  assumes up: "\<And>h. x_app_db E h = IoOk" and others: "never_adds E pod" and s: "freed pod s"
  shows "wp (allocate_nodeports E user pod node ports)
    (\<lambda>out u. \<exists>t. granted_in E user pod node ports t (nodeports u) out) (\<lambda>_. freed pod) s"
proof -
  have g: "table_good (\<lambda>t. never_adds E pod \<longrightarrow> rows_of pod t = []) (\<lambda>_. True) s"
    using s by (simp add: table_good_def freed_def)
  have "wp (allocate_nodeports E user pod node ports)
    (\<lambda>out u. True \<and> (\<exists>t. (never_adds E pod \<longrightarrow> rows_of pod t = []) \<and> granted_in E user pod node ports t (nodeports u) out))
    (\<lambda>_. table_good (\<lambda>t. never_adds E pod \<longrightarrow> rows_of pod t = []) (\<lambda>_. True)) s"
    by (rule unused.wp_allocate[OF g]) (simp add: up)
  then show ?thesis by (rule wp_weaken) (use others in \<open>auto simp: table_good_def freed_def\<close>)
qed

lemma granted_internal: "granted_in E user pod node ports t t' out \<Longrightarrow> map internal_port out = map fst ports"
  using granted_rows by metis

definition spec_matches :: "string \<Rightarrow> string \<Rightarrow> user_info \<Rightarrow> pod_spec \<times> port_info list \<Rightarrow> bool" where
  "spec_matches user pod info r \<longleftrightarrow> ps_name (fst r) = pod \<and> ps_user (fst r) = user \<and>
     ps_secret (fst r) = account_secret_name pod \<and>
     ps_ports (fst r) = map internal_port (snd r) \<and> map internal_port (snd r) = [22, 8888] @ map fst (ui_ports info)"

lemma wp_spec_or_release:
  assumes up: "\<And>h. x_app_db E h = IoOk" and m: "wp m Q (\<lambda>_ _. True) s"
  shows "wp (spec_or_release E pod m) Q (\<lambda>_. freed pod) s"
  unfolding spec_or_release_def wp_tryE
  by (rule wp_weaken[OF m])
    (auto simp: wp_bnd wp_throw wp_succeeded intro: wp_release_frees[OF up])

lemma wp_spec_body:
  "wp (spec_body E key user info node pod img pull who gids allocated)
     (\<lambda>spec _. ps_name spec = pod \<and> ps_user spec = user \<and> ps_secret spec = account_secret_name pod \<and>
        ps_ports spec = map internal_port allocated) (\<lambda>_ _. True) s"
  by (auto simp: spec_body_def wp_bnd wp_thn wp_ret split: prod.splits intro!: wp_any)

lemma wp_allocate_for_spec:
  assumes "\<And>h. x_app_db E h = IoOk" "never_adds E pod" "freed pod s"
  shows "wp (allocate_for_spec E key user pod node ports)
    (\<lambda>out _. map internal_port out = map fst ports) (\<lambda>_. freed pod) s"
proof -
  let ?log = "log_spec E key user pod node ''nodeport'' ALLOCATE_NODEPORT"
  have failed: "wp (thn (?log ph) (throw e)) Q (\<lambda>_. freed pod) u" if "freed pod u" for ph e u
    and Q :: "port_info list \<Rightarrow> st \<Rightarrow> bool"
    unfolding wp_thn by (rule wp_keep_freed[OF that]) (auto simp: wp_throw intro!: keeps_intros raises_intros)
  have logged: "wp (thn (?log SUCCESS) (ret out)) (\<lambda>out _. map internal_port out = map fst ports) (\<lambda>_. freed pod) u"
    if "map internal_port out = map fst ports" for out u
    unfolding wp_thn by (rule wp_quiet[where obs = nodeports]) (use that in \<open>auto simp: wp_ret intro!: keeps_intros raises_intros\<close>)
  have main: "wp (bnd (tryE (allocate_nodeports E user pod node ports) (\<lambda>e. thn (?log (fail_phase e)) (throw e)))
      (\<lambda>allocated. thn (?log SUCCESS) (ret allocated))) (\<lambda>out _. map internal_port out = map fst ports) (\<lambda>_. freed pod) u"
    if "freed pod u" for u
    unfolding wp_bnd wp_tryE
    by (rule wp_weaken[OF wp_allocate_unused[OF assms(1,2) that]]) (auto intro: failed logged dest: granted_internal)
  show ?thesis
    unfolding allocate_for_spec_def wp_thn
    by (intro wp_keep_freed[OF assms(3)] wp_keep_freed[where m = "?log START"] main)
      (auto intro!: keeps_intros raises_intros)
qed

lemma wp_pre:
  assumes "keeps nodeports m" "freed pod s" "\<And>a u. freed pod u \<Longrightarrow> wp (f a) Q (\<lambda>_. freed pod) u"
  shows "wp (bnd m f) Q (\<lambda>_. freed pod) s"
  unfolding wp_bnd
  by (rule wp_weaken[OF wp_frame[where P = "\<lambda>t. rows_of pod t = []", OF assms(1)]])
    (use assms(2,3) in \<open>auto simp: freed_def\<close>)

lemma wp_build_pod_spec:
  assumes up: "\<And>h. x_app_db E h = IoOk" and others: "never_adds E pod" and s: "freed pod s"
  shows "wp (build_pod_spec E user info target pod req own) (\<lambda>r _. spec_matches user pod info r) (\<lambda>_. freed pod) s"
proof -
  let ?key = "if req = [] then user else req"
  let ?baked = "case own of None \<Rightarrow> False | Some i \<Rightarrow> i \<noteq> []"
  have body: "wp (spec_or_release E pod (bnd (spec_body E ?key user info node pod img pull who gids allocated)
      (\<lambda>spec. ret (spec, allocated)))) (\<lambda>r _. spec_matches user pod info r) (\<lambda>_. freed pod) u"
    if "map internal_port allocated = map fst (base_ports @ ui_ports info)" for node img pull who gids allocated u
  proof (rule wp_spec_or_release[OF up])
    show "wp (bnd (spec_body E ?key user info node pod img pull who gids allocated)
      (\<lambda>spec. ret (spec, allocated))) (\<lambda>r _. spec_matches user pod info r) (\<lambda>_ _. True) u"
      unfolding wp_bnd
      by (rule wp_weaken[OF wp_spec_body]) (use that in \<open>simp_all add: wp_ret spec_matches_def base_ports_def\<close>)
  qed
  have alloc: "wp (bnd (allocate_for_spec E ?key user pod node (base_ports @ ui_ports info)) (\<lambda>allocated.
     spec_or_release E pod (bnd (spec_body E ?key user info node pod img pull who gids allocated)
       (\<lambda>spec. ret (spec, allocated))))) (\<lambda>r _. spec_matches user pod info r) (\<lambda>_. freed pod) u"
    if "freed pod u" for node img pull who gids u
    unfolding wp_bnd[of "allocate_for_spec _ _ _ _ _ _"]
    by (rule wp_weaken[OF wp_allocate_for_spec[OF up others that]], erule body, assumption)
  show ?thesis
    unfolding build_pod_spec_def Let_def thn_def[of "ensure_etc_layout E"]
  proof (rule wp_pre[OF keeps_ledger_reads(1) s])
    fix a u assume u: "freed pod u"
    show "wp (bnd (resolve_k8s_node_name E (Some target)) (\<lambda>canonical. case canonical of
       None \<Rightarrow> throw (raised ValueError)
     | Some node \<Rightarrow>
     bnd (if ?baked then ret (the own) else load_user_image E user (ui_image info)) (\<lambda>img.
     bnd (ledger_identity E user) (\<lambda>who.
     bnd (liftE (gids_of_user info)) (\<lambda>gids.
     bnd (allocate_for_spec E ?key user pod node (base_ports @ ui_ports info)) (\<lambda>allocated.
     spec_or_release E pod
       (bnd (spec_body E ?key user info node pod img (if ?baked then ''Never'' else ''IfNotPresent'')
               who gids allocated) (\<lambda>spec.
        ret (spec, allocated))))))))) (\<lambda>r _. spec_matches user pod info r) (\<lambda>_. freed pod) u"
    proof (rule wp_pre[OF _ u], goal_cases)
      case 1 show ?case by (intro keeps_intros) simp
    next
      case (2 canonical v)
      show ?case
      proof (cases canonical)
        case None
        with 2 show ?thesis by (simp add: wp_throw)
      next
        case (Some node)
        have k: "keeps nodeports (if ?baked then ret (the own) else load_user_image E user (ui_image info))"
          by (intro keeps_intros) simp
        show ?thesis unfolding Some option.case
          by (rule wp_pre[OF k 2], rule wp_pre[OF keeps_ledger_reads(3)], assumption,
              rule wp_pre[OF keeps_liftE], assumption, rule alloc)
      qed
    qed
  qed
qed

lemma wp_step_build:
  assumes up: "\<And>h. x_app_db E h = IoOk" and pod: "c_pod_name (cx s) = Some pod"
    and others: "never_adds E pod" and s: "freed pod s"
  shows "wp (step_build_pod_spec E)
     (\<lambda>_ u. \<exists>spec info. c_user_info (cx s) = Some info \<and> c_pod_spec (cx u) = Some spec \<and>
        spec_matches (c_username (cx s)) pod info (spec, c_allocated_ports (cx u)))
     (\<lambda>_. freed pod) s"
proof -
  let ?Q = "\<lambda>_ u. \<exists>spec info. c_user_info (cx s) = Some info \<and> c_pod_spec (cx u) = Some spec \<and>
        spec_matches (c_username (cx s)) pod info (spec, c_allocated_ports (cx u))"
  let ?k = "\<lambda>r. case r of
       Inl e \<Rightarrow> thn (set_pod_creation_status E (c_request (cx s)) ''failed'')
         (throw (if is_value_error e
                 then infra_failed ''BUILD_POD_SPEC'' ''POD_SPEC_BUILD_FAILED'' 400 None
                 else infra_failed ''BUILD_POD_SPEC'' ''POD_SPEC_BUILD_FAILED'' 500 (Some e)))
     | Inr (spec, allocated) \<Rightarrow>
         modC (\<lambda>c. c\<lparr>c_pod_spec := Some spec, c_allocated_ports := allocated\<rparr>)"
  have bad: "wp (?k (Inl e)) ?Q (\<lambda>_. freed pod) u" if "freed pod u" for e u
    unfolding sum.case wp_thn
    by (rule wp_keep_freed[OF that]) (auto simp: wp_throw intro!: keeps_intros raises_intros)
  have good: "wp (?k (Inr r)) ?Q (\<lambda>_. freed pod) u"
    if "spec_matches (c_username (cx s)) pod info r" "c_user_info (cx s) = Some info" for r info u
    using that by (cases r) (simp add: wp_modC)
  let ?m = "\<lambda>u. bnd (needC c_user_info) (\<lambda>info. bnd (getC c_committed_image) (\<lambda>own.
                   build_pod_spec E (c_username (cx s)) info u pod (c_request (cx s)) own))"
  have m: "wp (attempt (?m node)) (\<lambda>r. wp (?k r) ?Q (\<lambda>_. freed pod)) (\<lambda>_. freed pod) u"
    if u: "freed pod u" "cx u = cx s" for node u
  proof (cases "c_user_info (cx s)")
    case None
    with u bad show ?thesis by (simp add: wp_attempt wp_bnd wp_needC)
  next
    case (Some info)
    have "wp (build_pod_spec E (c_username (cx s)) info node pod (c_request (cx s)) (c_committed_image (cx s)))
        (\<lambda>r. wp (?k (Inr r)) ?Q (\<lambda>_. freed pod)) (\<lambda>e. wp (?k (Inl e)) ?Q (\<lambda>_. freed pod)) u"
      by (rule wp_weaken[OF wp_build_pod_spec[OF up others u(1)]], erule good[OF _ Some], erule bad)
    then show ?thesis
      by (simp only: wp_attempt wp_bnd wp_needC wp_getC u(2) Some option.case)
  qed
  have none: "wp (attempt (throw e)) (\<lambda>r. wp (?k r) ?Q (\<lambda>_. freed pod)) (\<lambda>_. freed pod) u" if "freed pod u" for e u
    using bad[OF that] by (simp add: wp_attempt wp_throw)
  have node: "wp (bnd (attempt (case best of
            None \<Rightarrow> throw (raised ValueError)
          | Some node \<Rightarrow> if node = [] then throw (raised ValueError) else ?m node)) ?k) ?Q (\<lambda>_. freed pod) u"
    if u: "freed pod u" "cx u = cx s" for best u
    unfolding wp_bnd[of "attempt _"]
  proof (cases best)
    case None
    show "wp (attempt (case best of None \<Rightarrow> throw (raised ValueError)
          | Some node \<Rightarrow> if node = [] then throw (raised ValueError) else ?m node))
       (\<lambda>r. wp (?k r) ?Q (\<lambda>_. freed pod)) (\<lambda>_. freed pod) u"
      unfolding None option.case by (rule none[OF u(1)])
  next
    case (Some node)
    show "wp (attempt (case best of None \<Rightarrow> throw (raised ValueError)
          | Some node \<Rightarrow> if node = [] then throw (raised ValueError) else ?m node))
       (\<lambda>r. wp (?k r) ?Q (\<lambda>_. freed pod)) (\<lambda>_. freed pod) u"
      unfolding Some option.case
      by (cases "node = []") (simp_all only: if_True if_False simp_thms none[OF u(1)] m[OF u])
  qed
  have st: "wp (set_pod_creation_status E key stage) (\<lambda>_ u. freed pod u \<and> cx u = cx s) (\<lambda>_ _. False) s" for key stage
    by (rule wp_quiet[where obs = "\<lambda>s. (nodeports s, cx s)"])
      (use s in \<open>auto simp: freed_def pod_frame_def intro!: raises_intros keeps_intros\<close>)
  show ?thesis
    unfolding step_build_pod_spec_def wp_bnd[of "getC _"] wp_getC wp_bnd[of "needC _"] wp_needC pod option.case wp_thn
    by (rule wp_weaken[OF st]) (auto intro: node)
qed

section \<open>The best node\<close>

text \<open>The first node with a score that no other node beats.\<close>

definition best_of :: "(string \<Rightarrow> int option) \<Rightarrow> string list \<Rightarrow> string option" where
  "best_of score ns = find (\<lambda>n. score n \<noteq> None \<and> list_all (\<lambda>m. \<not> less_score (score m) (score n)) ns) ns"

definition better :: "(string \<Rightarrow> int option) \<Rightarrow> string \<Rightarrow> string option \<times> int option \<Rightarrow> string option \<times> int option" where
  "better score n best = (if less_score (score n) (snd best) then (Some n, score n) else best)"

lemma less_score_iff: "less_score a b \<longleftrightarrow> (\<exists>x. a = Some x \<and> (\<forall>y. b = Some y \<longrightarrow> x < y))"
  by (cases a; cases b) auto

text \<open>What the loop holds after the nodes \<open>ns\<close>.\<close>

definition best_so_far :: "(string \<Rightarrow> int option) \<Rightarrow> string list \<Rightarrow> string option \<times> int option \<Rightarrow> bool" where
  "best_so_far score ns r \<longleftrightarrow> (case r of
     (None, v) \<Rightarrow> v = None \<and> (\<forall>m\<in>set ns. score m = None)
   | (Some b, v) \<Rightarrow> (\<exists>x pre post. v = Some x \<and> score b = Some x \<and> ns = pre @ b # post \<and>
        (\<forall>m\<in>set pre. \<forall>w. score m = Some w \<longrightarrow> x < w) \<and> (\<forall>m\<in>set post. \<forall>w. score m = Some w \<longrightarrow> x \<le> w)))"

lemma best_so_far_step:
  assumes "best_so_far score ns r"
  shows "best_so_far score (ns @ [n]) (better score n r)"
proof (cases "fst r")
  case None
  with assms have r: "r = (None, None)" "\<forall>m\<in>set ns. score m = None"
    by (cases r, simp add: best_so_far_def)+
  show ?thesis
  proof (cases "score n")
    case None
    with r show ?thesis by (simp add: better_def best_so_far_def)
  next
    case (Some a)
    have "\<exists>x pre post. Some a = Some x \<and> score n = Some x \<and> ns @ [n] = pre @ n # post \<and>
        (\<forall>m\<in>set pre. \<forall>w. score m = Some w \<longrightarrow> x < w) \<and> (\<forall>m\<in>set post. \<forall>w. score m = Some w \<longrightarrow> x \<le> w)"
      by (intro exI[of _ a] exI[of _ ns] exI[of _ "[]::string list"]) (use r Some in simp)
    with Some r(1) show ?thesis by (simp add: better_def best_so_far_def)
  qed
next
  case (Some b)
  with assms obtain x pre post where r: "r = (Some b, Some x)" "score b = Some x" "ns = pre @ b # post"
    "\<forall>m\<in>set pre. \<forall>w. score m = Some w \<longrightarrow> x < w" "\<forall>m\<in>set post. \<forall>w. score m = Some w \<longrightarrow> x \<le> w"
    by (cases r) (auto simp: best_so_far_def)
  show ?thesis
  proof (cases "less_score (score n) (Some x)")
    case True
    then obtain y where y: "score n = Some y" "y < x" by (auto simp: less_score_iff)
    have "\<forall>m\<in>set ns. \<forall>w. score m = Some w \<longrightarrow> y < w" using r y by fastforce
    then have "\<exists>x pre post. Some y = Some x \<and> score n = Some x \<and> ns @ [n] = pre @ n # post \<and>
        (\<forall>m\<in>set pre. \<forall>w. score m = Some w \<longrightarrow> x < w) \<and> (\<forall>m\<in>set post. \<forall>w. score m = Some w \<longrightarrow> x \<le> w)"
      by (intro exI[of _ y] exI[of _ ns] exI[of _ "[]::string list"]) (use y in simp)
    with y r(1) show ?thesis by (simp add: better_def best_so_far_def)
  next
    case False
    then have "\<forall>w. score n = Some w \<longrightarrow> x \<le> w" by (auto simp: less_score_iff)
    with r have "\<exists>x' pre' post'. Some x = Some x' \<and> score b = Some x' \<and> ns @ [n] = pre' @ b # post' \<and>
        (\<forall>m\<in>set pre'. \<forall>w. score m = Some w \<longrightarrow> x' < w) \<and> (\<forall>m\<in>set post'. \<forall>w. score m = Some w \<longrightarrow> x' \<le> w)"
      by (intro exI[of _ x] exI[of _ pre] exI[of _ "post @ [n]"]) auto
    with False r(1) show ?thesis by (simp add: better_def best_so_far_def)
  qed
qed

lemma best_so_far_fold: "best_so_far score ns (fold (better score) ns (None, None))"
proof (induction ns rule: rev_induct)
  case Nil
  then show ?case by (simp add: best_so_far_def)
next
  case (snoc n ns)
  from best_so_far_step[OF this, of n] show ?case by simp
qed

lemma find_split: "P b \<Longrightarrow> \<forall>m\<in>set pre. \<not> P m \<Longrightarrow> find P (pre @ b # post) = Some b"
  by (induction pre) auto

lemma best_of_fold: "fst (fold (better score) ns (None, None)) = best_of score ns"
proof -
  let ?r = "fold (better score) ns (None, None)"
  let ?P = "\<lambda>n. score n \<noteq> None \<and> list_all (\<lambda>m. \<not> less_score (score m) (score n)) ns"
  note inv = best_so_far_fold[of score ns]
  show ?thesis
  proof (cases "fst ?r")
    case None
    with inv have "\<forall>m\<in>set ns. score m = None" by (cases ?r) (simp add: best_so_far_def)
    then have "find ?P ns = None" by (simp add: find_None_iff)
    with None show ?thesis by (simp add: best_of_def)
  next
    case (Some b)
    with inv obtain x pre post where r: "score b = Some x" "ns = pre @ b # post"
      "\<forall>m\<in>set pre. \<forall>w. score m = Some w \<longrightarrow> x < w" "\<forall>m\<in>set post. \<forall>w. score m = Some w \<longrightarrow> x \<le> w"
      by (cases ?r) (auto simp: best_so_far_def)
    have "?P b" using r by (fastforce simp: list_all_iff less_score_iff)
    moreover have "\<not> ?P m" if "m \<in> set pre" for m
    proof (cases "score m")
      case (Some w)
      with that r have "less_score (score b) (score m)" by (auto simp: less_score_iff)
      with r(2) show ?thesis by (auto simp: list_all_iff)
    qed simp
    ultimately have "find ?P (pre @ b # post) = Some b" by (intro find_split) auto
    then have "find ?P ns = Some b" by (simp only: r(2)[symmetric])
    with Some show ?thesis by (simp add: best_of_def)
  qed
qed

lemma wp_select_best:
  assumes "\<And>n h. x_score E n h = x_score E n []"
  shows "wp (select_best_node E ns) (\<lambda>r u. r = best_of (\<lambda>n. case x_score E n [] of Inl _ \<Rightarrow> None | Inr v \<Rightarrow> Some v) ns)
    (\<lambda>_ _. False) s"
proof -
  let ?sc = "\<lambda>n. case x_score E n [] of Inl _ \<Rightarrow> None | Inr v \<Rightarrow> Some v"
  have "wp (foldM (better_node E) ns b) (\<lambda>r _. r = fold (better ?sc) ns b) (\<lambda>_ _. False) u" for b u
  proof (induction ns arbitrary: b u)
    case Nil
    then show ?case by (simp add: wp_simps)
  next
    case (Cons n ns b u)
    have "wp (better_node E n b) (\<lambda>r _. r = better ?sc n b) (\<lambda>_ _. False) u"
      using assms[of n "hist u"]
      by (simp add: better_node_def node_gpu_score_def wp_simps better_def split: sum.splits)
    then have "wp (better_node E n b) (\<lambda>b'. wp (foldM (better_node E) ns b')
        (\<lambda>r _. r = fold (better ?sc) (n # ns) b) (\<lambda>_ _. False)) (\<lambda>_ _. False) u"
      by (rule wp_weaken) (use Cons in auto)
    then show ?case by (simp add: wp_bnd)
  qed
  from this[of "(None, None)"] show ?thesis
    unfolding select_best_node_def wp_bnd by (rule wp_weaken) (simp_all add: wp_ret best_of_fold)
qed

section \<open>The supplementary groups\<close>

definition show_group :: "string \<times> int \<Rightarrow> string" where
  "show_group p = fst p @ '':'' @ show_int (snd p)"

lemma supp_entries_are:
  "\<exists>ps. supp_entries ls seen gs = map show_group ps \<and> distinct (map snd ps) \<and> snd ` set ps \<inter> set seen = {} \<and>
     (\<forall>p\<in>set ps. snd p \<in> set gs \<and> group_of_gid (snd p) ls = Some (fst p)) \<and>
     (\<forall>g\<in>set gs. g \<notin> set seen \<longrightarrow> group_of_gid g ls \<noteq> None \<longrightarrow> g \<in> snd ` set ps)"
proof (induction ls seen gs rule: supp_entries.induct)
  case (1 ls seen)
  then show ?case by (intro exI[of _ "[]"]) simp
next
  case (2 ls seen g gs)
  show ?case
  proof (cases "g \<in> set seen")
    case True
    from 2(1)[OF True] obtain ps where "supp_entries ls seen gs = map show_group ps" "distinct (map snd ps)"
      "snd ` set ps \<inter> set seen = {}" "\<forall>p\<in>set ps. snd p \<in> set gs \<and> group_of_gid (snd p) ls = Some (fst p)"
      "\<forall>g\<in>set gs. g \<notin> set seen \<longrightarrow> group_of_gid g ls \<noteq> None \<longrightarrow> g \<in> snd ` set ps" by blast
    with True show ?thesis by (intro exI[of _ ps]) auto
  next
    case False
    show ?thesis
    proof (cases "group_of_gid g ls")
      case None
      from 2(2)[OF False None] obtain ps where "supp_entries ls (g # seen) gs = map show_group ps" "distinct (map snd ps)"
        "snd ` set ps \<inter> set (g # seen) = {}" "\<forall>p\<in>set ps. snd p \<in> set gs \<and> group_of_gid (snd p) ls = Some (fst p)"
        "\<forall>g'\<in>set gs. g' \<notin> set (g # seen) \<longrightarrow> group_of_gid g' ls \<noteq> None \<longrightarrow> g' \<in> snd ` set ps" by blast
      with False None show ?thesis by (intro exI[of _ ps]) auto
    next
      case (Some n)
      from 2(3)[OF False Some] obtain ps where "supp_entries ls (g # seen) gs = map show_group ps" "distinct (map snd ps)"
        "snd ` set ps \<inter> set (g # seen) = {}" "\<forall>p\<in>set ps. snd p \<in> set gs \<and> group_of_gid (snd p) ls = Some (fst p)"
        "\<forall>g'\<in>set gs. g' \<notin> set (g # seen) \<longrightarrow> group_of_gid g' ls \<noteq> None \<longrightarrow> g' \<in> snd ` set ps" by blast
      with False Some show ?thesis
        by (intro exI[of _ "(n, g) # ps"]) (auto simp: show_group_def)
    qed
  qed
qed

end
