(* ===== verification/Pod_Props.thy ===== *)
theory Pod_Props
  imports Pod_Facts Port_Props
begin

text \<open>
  The properties of the creation of a Pod, with their instances.
\<close>

section \<open>Failures\<close>

text \<open>Building the specification either succeeds, and then the specification is of this Pod and
  user, publishes exactly the ports the allocation recorded, which are SSH, Jupyter and the ports of
  the request in this order, and reads the password from the Pod's own Secret; or it fails, and then
  no port stays recorded for the Pod.  The database answers, and nobody else records ports under the
  Pod's name.\<close>

lemma build_spec_or_free:
  assumes "\<And>h. x_app_db E h = IoOk" "never_adds E pod"
    and "c_pod_name (cx s) = Some pod" "rows_of pod (nodeports s) = []"
    and "step_build_pod_spec E s = (r, t)"
  shows "(case r of
       Inl e \<Rightarrow> rows_of pod (nodeports t) = []
     | Inr _ \<Rightarrow> \<exists>spec info. c_user_info (cx s) = Some info \<and> c_pod_spec (cx t) = Some spec \<and>
         ps_name spec = pod \<and> ps_user spec = c_username (cx s) \<and> ps_secret spec = account_secret_name pod \<and>
         ps_ports spec = map internal_port (c_allocated_ports (cx t)) \<and>
         ps_ports spec = [22, 8888] @ map fst (ui_ports info))"
proof -
  have "freed pod s" using assms(4) by (simp add: freed_def)
  from wp_step_build[OF assms(1,3,2) this] assms(5) show ?thesis
    by (cases r) (auto simp: wp_def freed_def spec_matches_def)
qed

definition info1 :: user_info where
  "info1 = \<lparr>ui_not_found = False, ui_image = ''decs:latest'', ui_groups = None, ui_gid = [GidInt 10000],
     ui_gpu_nodes = [], ui_ports = [(6080, Some ''novnc'')], ui_passwd_hash = ''x'', ui_passwd_base64 = []\<rparr>"

definition st_pod :: st where
  "st_pod = st0\<lparr>cx := ctx0\<lparr>c_username := ''lee'', c_pod_name := Some ''ailab-lee-x'', c_node := Some ''farm1'',
     c_user_info := Some info1, c_v1 := True\<rparr>\<rparr>"

definition env_pod :: env where
  "env_pod = env0\<lparr>x_app_db := \<lambda>_. IoOk, x_nodeports := \<lambda>_ t. t,
     x_read_pod := \<lambda>_ _. Inl (Exn (ApiException 500) None None False)\<rparr>"







section \<open>Waiting\<close>

text \<open>C15: the wait for readiness ends after at most \<open>POD_READY_MAX_WAIT_SEC\<close> look-ups of the Pod, and
  it ends well only if one of them, made during this wait, found the Pod running and ready.\<close>

theorem wait_ready_ends:
  assumes "c_pod_name (cx s) = Some pod" "step_wait_ready E s = (r, t)"
  shows "reads pod t \<le> reads pod s + cfg_pod_wait E \<and> (r = Inr () \<longrightarrow> found_ready E pod (reads pod s) (hist t))"
proof -
  let ?L = "\<lambda>req user best. \<lparr>sl_req = req, sl_user = user, sl_pod = pod, sl_node = best\<rparr>"
  have "wp (wait_pod E (?L req user best)) (\<lambda>_ u. reads pod u \<le> reads pod s + cfg_pod_wait E \<and> found_ready E pod (reads pod s) (hist u))
     (\<lambda>_ u. reads pod u \<le> reads pod s + cfg_pod_wait E) s" for req user best
    using wp_wait_pod[of E "?L req user best" s] by simp
  then have "wp (step_wait_ready E) (\<lambda>_ u. reads pod u \<le> reads pod s + cfg_pod_wait E \<and> found_ready E pod (reads pod s) (hist u))
     (\<lambda>_ u. reads pod u \<le> reads pod s + cfg_pod_wait E) s"
    using assms(1) by (simp add: step_wait_ready_def need_v1_def wp_bnd wp_getC wp_needC wp_thn wp_ret wp_throw wp_if)
  with assms(2) show ?thesis by (cases r) (auto simp: wp_def)
qed

theorem wait_ready_ends_witness:
  "\<exists>r t. step_wait_ready env_pod st_pod = (r, t) \<and> reads ''ailab-lee-x'' t \<le> 3"
proof -
  obtain r t where r: "step_wait_ready env_pod st_pod = (r, t)" by fastforce
  have "c_pod_name (cx st_pod) = Some ''ailab-lee-x''" by (simp add: st_pod_def)
  from wait_ready_ends[OF this r] r show ?thesis
    by (auto simp: reads_def st_pod_def st0_def env_pod_def env0_def)
qed

text \<open>A job whose first process ended after it created the Pod cannot be continued by another: the
  Kubernetes client lives in \<open>ctx["v1"]\<close>, which is set while creating the Pod and is not among the saved
  keys, so in every context restored from saved progress both remaining steps raise \<open>KeyError\<close> before
  they do anything.\<close>

lemma resumed_creation_fails:
  assumes "\<not> c_v1 c" "cx s = restore_ctx sv c" "c_pod_name (cx s) = Some pod"
  shows "step_wait_ready E s = (Inl (raised KeyError), s) \<and>
     step_create_services E s = (Inl (raised KeyError), s)"
  using assms
  by (simp add: step_wait_ready_def step_create_services_def need_v1_def restore_ctx_def getC_def needC_def run)

section \<open>Choices\<close>

text \<open>The loop over the candidate nodes returns the first node with a score that no candidate
  beats, and none when no candidate has a score; here the scores stay the same while it asks.\<close>

lemma select_best_is_argmin:
  assumes "\<And>n h. x_score E n h = x_score E n []"
  shows "result_of (select_best_node E ns) s =
     Inr (best_of (\<lambda>n. case x_score E n [] of Inl _ \<Rightarrow> None | Inr v \<Rightarrow> Some v) ns)"
  using wp_select_best[OF assms, of ns s] by (simp add: wp_def split: prod.splits sum.splits)

text \<open>The supplementary groups in the environment of the container are the primary group first and
  then, each gid once, exactly the groups of the request the ledger knows, under the ledger's name.\<close>

lemma groups_env_exact:
  assumes "build_user_groups_env E pg gid gids s = (Inr v, t)"
    and "calm c s" "rely_rooted E" "plain_files E"
  shows "\<exists>ps. v = join '','' (map show_group ((pg, gid) # ps)) \<and> distinct (map snd ((pg, gid) # ps)) \<and>
     (\<forall>p\<in>set ps. snd p \<in> set gids \<and> group_of_gid (snd p) (lines_of GroupF (led t)) = Some (fst p)) \<and>
     (\<forall>g\<in>set gids. group_of_gid g (lines_of GroupF (led t)) \<noteq> None \<longrightarrow> g \<in> snd ` set ((pg, gid) # ps))"
proof -
  have "wp (build_user_groups_env E pg gid gids) (\<lambda>v u.
      v = join '','' ((pg @ '':'' @ show_int gid) # supp_entries (lines_of GroupF (led u)) [gid] gids)) (\<lambda>_ _. True) s"
    unfolding build_user_groups_env_def wp_bnd by (rule wp_read_lines_free[OF assms(2-4)]) (simp_all add: wp_ret)
  from wp_Inr[OF this assms(1)]
  have v: "v = join '','' ((pg @ '':'' @ show_int gid) # supp_entries (lines_of GroupF (led t)) [gid] gids)" .
  from supp_entries_are[of "lines_of GroupF (led t)" "[gid]" gids] obtain ps where
    ps: "supp_entries (lines_of GroupF (led t)) [gid] gids = map show_group ps"
    "distinct (map snd ps)" "snd ` set ps \<inter> set [gid] = {}"
    "\<forall>p\<in>set ps. snd p \<in> set gids \<and> group_of_gid (snd p) (lines_of GroupF (led t)) = Some (fst p)"
    "\<forall>g\<in>set gids. g \<notin> set [gid] \<longrightarrow> group_of_gid g (lines_of GroupF (led t)) \<noteq> None \<longrightarrow> g \<in> snd ` set ps" by blast
  show ?thesis
    by (intro exI[of _ ps]) (use v ps in \<open>auto simp: show_group_def\<close>)
qed

end
