(* ===== verification/Reconcile_Props.thy ===== *)
theory Reconcile_Props
  imports Reconcile Traces Samples
begin

text \<open>
  The properties of the reconciliation, with their instances.
\<close>

section \<open>Cleanups that failed\<close>

text \<open>Whether a Pod of the user is recorded on the node.\<close>

definition uses_node :: "string \<Rightarrow> string \<Rightarrow> nodeport list \<Rightarrow> bool" where
  "uses_node user node t \<longleftrightarrow> (\<exists>r\<in>set t. np_user r = user \<and> np_node r = node)"

lemma expected_iff:
  "user \<in> set (remdups (map np_user (filter (\<lambda>r. np_node r = node) t))) \<longleftrightarrow> uses_node user node t"
  by (auto simp: uses_node_def)

text \<open>The state in which a reservation was claimed and the table of ports was read.\<close>

definition claimed_state :: "env \<Rightarrow> string \<Rightarrow> string \<Rightarrow> st \<Rightarrow> st" where
  "claimed_state E user node s =
     s\<lparr>krb5_pending := removeAll (user, node) (x_pending E (hist s) (krb5_pending s)),
       nodeports := x_nodeports E (EvDb # hist s) (nodeports s), hist := EvAppDb # EvDb # hist s\<rparr>"

abbreviation no_farm :: "event \<Rightarrow> bool" where
  "no_farm ev \<equiv> \<forall>n c. ev \<noteq> EvFarmSsh n c"

lemma emits_record: "emits no_farm (record_krb5_cleanup_pending E user node)"
  by (rule emits_pending) simp

lemma settle_pending_run:
  assumes "x_db E (hist s) = IoOk" "x_app_db E (EvDb # hist s) = IoOk" "(user, node) \<in> set (x_pending E (hist s) (krb5_pending s))"
  shows "settle_pending E user node s =
    (let u = claimed_state E user node s in
     if uses_node user node (nodeports u) then (Inr (), u)
     else tryE (remove_krb5_from_farm E user node) (\<lambda>_. record_krb5_cleanup_pending E user node) u)"
  using assms
  by (auto simp: settle_pending_def claim_pending_def pending_stmt_def expected_krb5_usernames_def app_select_def
      claimed_state_def expected_iff run Let_def simp del: set_remdups)

lemma settle_pending_quiet:
  assumes "\<not> (x_db E (hist s) = IoOk \<and> x_app_db E (EvDb # hist s) = IoOk \<and>
              (user, node) \<in> set (x_pending E (hist s) (krb5_pending s)))"
  shows "grew no_farm s (snd (settle_pending E user node s))"
proof -
  have one: "grew no_farm s u" if "hist u = EvDb # hist s" for u :: st
    using that by (auto simp: grew_def)
  have two: "grew no_farm s (snd (record_krb5_cleanup_pending E user node u))" if "hist u = EvAppDb # EvDb # hist s" for u
  proof -
    have "grew no_farm s u" using that by (auto simp: grew_def)
    moreover have "grew no_farm u (snd (record_krb5_cleanup_pending E user node u))"
      using emits_record unfolding moves_def by blast
    ultimately show ?thesis by (rule trace.trans)
  qed
  show ?thesis
  proof (cases "x_db E (hist s) = IoOk \<and> (user, node) \<in> set (x_pending E (hist s) (krb5_pending s))")
    case True
    with assms obtain e where "x_app_db E (EvDb # hist s) \<in> {IoFailed e, IoLost e}"
      by (cases "x_app_db E (EvDb # hist s)") auto
    with True show ?thesis
      by (auto simp: settle_pending_def claim_pending_def pending_stmt_def expected_krb5_usernames_def app_select_def
          run Let_def intro!: two)
  next
    case False
    then show ?thesis
      by (cases "x_db E (hist s)")
        (auto simp: settle_pending_def claim_pending_def pending_stmt_def run Let_def intro!: one)
  qed
qed

lemma record_keeps_reservation:
  "\<forall>h. x_db E h = IoOk \<Longrightarrow> (user, node) \<in> set (krb5_pending (snd (record_krb5_cleanup_pending E user node v)))"
  by (simp add: record_krb5_cleanup_pending_def io_def run Let_def)

text \<open>The removal, with the reservation written again when it fails.\<close>

lemma removal_or_record:
  assumes "tryE (remove_krb5_from_farm E user node) (\<lambda>_. record_krb5_cleanup_pending E user node) u = (r, t)"
  shows "grew (\<lambda>ev. no_farm ev \<or> ev = EvFarmSsh node (words [''remove'', user])) u t"
    "\<forall>h. x_db E h = IoOk \<Longrightarrow> result_of (remove_krb5_from_farm E user node) u = Inr () \<or> (user, node) \<in> set (krb5_pending t)"
proof -
  have "emits (\<lambda>ev. no_farm ev \<or> ev = EvFarmSsh node (words [''remove'', user]))
      (tryE (remove_krb5_from_farm E user node) (\<lambda>_. record_krb5_cleanup_pending E user node))"
    by (intro moves_intros) simp_all
  from movesD[OF this assms] show "grew (\<lambda>ev. no_farm ev \<or> ev = EvFarmSsh node (words [''remove'', user])) u t" .
  assume db: "\<forall>h. x_db E h = IoOk"
  obtain q v where q: "remove_krb5_from_farm E user node u = (q, v)" by fastforce
  with assms record_keeps_reservation[OF db, of user node v]
  show "result_of (remove_krb5_from_farm E user node) u = Inr () \<or> (user, node) \<in> set (krb5_pending t)"
    by (cases q) (auto simp: run)
qed

text \<open>A claimed reservation whose node could not be looked up is written again.\<close>

lemma unread_keeps_reservation:
  assumes "\<forall>h. x_db E h = IoOk" "(user, node) \<in> set (x_pending E (hist s) (krb5_pending s))"
    and "x_app_db E (EvDb # hist s) \<noteq> IoOk" "settle_pending E user node s = (r, t)"
  shows "(user, node) \<in> set (krb5_pending t)"
proof -
  from assms(3) obtain e where "x_app_db E (EvDb # hist s) \<in> {IoFailed e, IoLost e}"
    by (cases "x_app_db E (EvDb # hist s)") auto
  then have "settle_pending E user node s = record_krb5_cleanup_pending E user node (claimed_state E user node s)"
    using assms(1,2) by (auto simp: settle_pending_def claim_pending_def pending_stmt_def expected_krb5_usernames_def
        app_select_def claimed_state_def run Let_def)
  with record_keeps_reservation[OF assms(1), of user node "claimed_state E user node s"] assms(4) show ?thesis by simp
qed

lemma settle_claimed:
  assumes "x_db E (hist s) = IoOk" "x_app_db E (EvDb # hist s) = IoOk" "(user, node) \<in> set (x_pending E (hist s) (krb5_pending s))"
    and "settle_pending E user node s = (r, t)" "\<not> uses_node user node (x_nodeports E (EvDb # hist s) (nodeports s))"
  shows "grew (\<lambda>ev. no_farm ev \<or> ev = EvFarmSsh node (words [''remove'', user])) s t"
    "\<forall>h. x_db E h = IoOk \<Longrightarrow> (user, node) \<in> set (krb5_pending t) \<or>
       result_of (remove_krb5_from_farm E user node) (claimed_state E user node s) = Inr ()"
proof -
  let ?u = "claimed_state E user node s"
  have m: "tryE (remove_krb5_from_farm E user node) (\<lambda>_. record_krb5_cleanup_pending E user node) ?u = (r, t)"
    using settle_pending_run[OF assms(1-3)] assms(4,5) by (simp add: Let_def claimed_state_def)
  have "grew (\<lambda>ev. no_farm ev \<or> ev = EvFarmSsh node (words [''remove'', user])) s ?u"
    by (simp add: grew_def claimed_state_def)
  then show "grew (\<lambda>ev. no_farm ev \<or> ev = EvFarmSsh node (words [''remove'', user])) s t"
    using removal_or_record(1)[OF m] by (rule trace.trans)
  show "(user, node) \<in> set (krb5_pending t) \<or> result_of (remove_krb5_from_farm E user node) ?u = Inr ()"
    if "\<forall>h. x_db E h = IoOk"
    using removal_or_record(2)[OF m that] by blast
qed

text \<open>The reconciliation of failed cleanups takes a keytab off a node only if it has just claimed the
  reservation, and the table of ports says at that moment that no Pod of the user is on the node; it
  sends the farm nothing else.  A reservation it claimed is not lost: if the database answers, then the
  keytab is gone, the node is in use again, or the reservation is back.\<close>

lemma pending_cleanup_safe:
  assumes "settle_pending E user node s = (r, t)" "hist t = evs @ hist s"
  shows "(\<forall>n c. EvFarmSsh n c \<in> set evs \<longrightarrow> n = node \<and> c = words [''remove'', user] \<and>
            (user, node) \<in> set (x_pending E (hist s) (krb5_pending s)) \<and>
            \<not> uses_node user node (x_nodeports E (EvDb # hist s) (nodeports s))) \<and>
     ((\<forall>h. x_db E h = IoOk) \<and> (user, node) \<in> set (x_pending E (hist s) (krb5_pending s)) \<longrightarrow>
        (user, node) \<in> set (krb5_pending t) \<or>
        uses_node user node (x_nodeports E (EvDb # hist s) (nodeports s)) \<or>
        result_of (remove_krb5_from_farm E user node) (claimed_state E user node s) = Inr ())"
proof (cases "x_db E (hist s) = IoOk \<and> x_app_db E (EvDb # hist s) = IoOk \<and>
              (user, node) \<in> set (x_pending E (hist s) (krb5_pending s))")
  case True
  show ?thesis
  proof (cases "uses_node user node (x_nodeports E (EvDb # hist s) (nodeports s))")
    case used: True
    with True assms show ?thesis by (auto simp: settle_pending_run Let_def claimed_state_def)
  next
    case False
    note c = settle_claimed[OF _ _ _ assms(1) False]
    from grew_exact[OF c(1) assms(2)] c(2) True False show ?thesis by blast
  qed
next
  case False
  from settle_pending_quiet[OF False] assms(1) have "grew no_farm s t" by simp
  from grew_exact[OF this assms(2)] have "\<forall>n c. EvFarmSsh n c \<notin> set evs" by blast
  with False unread_keeps_reservation[OF _ _ _ assms(1)] show ?thesis by auto
qed

text \<open>The cleanup of \<open>kim\<close> on a node that does not answer.\<close>

definition st_pending :: st where
  "st_pending = st0\<lparr>krb5_pending := [(''kim'', ''farm1'')]\<rparr>"

definition env_deaf :: env where
  "env_deaf = env0\<lparr>x_farm_ssh := \<lambda>_ _ _. Inl (raised TimeoutExpired)\<rparr>"

section \<open>The GSS contexts of the NAS\<close>

text \<open>Up to here the NAS was not told to drop its contexts, and the mark did not move.\<close>

definition unflushed :: "st \<Rightarrow> st \<Rightarrow> bool" where
  "unflushed s t \<longleftrightarrow> gss_state t = gss_state s \<and> grew (\<lambda>ev. ev \<noteq> EvNas NasFlushGss) s t"

interpretation idle: progress unflushed
proof unfold_locales
  show "unflushed s s" for s by (simp add: unflushed_def grew_def)
  show "unflushed s t \<Longrightarrow> unflushed t u \<Longrightarrow> unflushed s u" for s t u
    unfolding unflushed_def using trace.trans by metis
qed

lemma unflushed_step: "gss_state t = gss_state s \<Longrightarrow> hist t = ev # hist s \<Longrightarrow> ev \<noteq> EvNas NasFlushGss \<Longrightarrow> unflushed s t"
  unfolding unflushed_def using grew_step[of "\<lambda>ev. ev \<noteq> EvNas NasFlushGss" ev t s] by simp

lemma unflushed_same: "gss_state t = gss_state s \<Longrightarrow> hist t = hist s \<Longrightarrow> unflushed s t"
  by (simp add: unflushed_def grew_refl)

lemma idle_calls [moves_intros]:
  "ev \<noteq> EvNas NasFlushGss \<Longrightarrow> moves unflushed (ext ev f)"
  "ev \<noteq> EvNas NasFlushGss \<Longrightarrow> moves unflushed (rd ev k w)"
  "moves unflushed (replace_file E l c)" "moves unflushed (acquire_ledger_lock E)" "moves unflushed release_ledger_lock"
  by (auto simp: moves_def ext_def rd_def replace_file_def io_def acquire_ledger_lock_def release_ledger_lock_def run Let_def
      intro!: unflushed_step split: io_reply.splits option.splits)

lemma idle_lock [moves_intros]: "moves unflushed m \<Longrightarrow> moves unflushed (ledger_lock E m)"
  unfolding ledger_lock_def
  by (intro moves_intros idle.upd) (auto simp: unflushed_same)

lemma idle_lookups:
  "moves unflushed (ledger_shared_gids_by_user E)" "moves unflushed (ledger_shared_gids E)"
  "moves unflushed (nas_shared_gids_for_users E us lo hi)" "moves unflushed (flushed_for E)"
  unfolding ledger_shared_gids_by_user_def ledger_shared_gids_def read_lines_def ensure_etc_layout_def
    ensure_seeded_file_def nas_shared_gids_for_users_def nas_session_def ssh_capture_def ssh_exec_def flushed_for_def
  by (intro moves_intros; simp)+

text \<open>Account by account, the NAS shows the shared groups of the ledger: those the ledger knows, and none
  for a name it does not know.\<close>

definition nas_agrees :: "(string \<times> int list) list \<Rightarrow> int list \<Rightarrow> (string \<times> int list) list \<Rightarrow> bool" where
  "nas_agrees wanted known reply \<longleftrightarrow> (\<forall>(user, gids)\<in>set wanted. case nas_gids reply user of
     None \<Rightarrow> gids = [] | Some got \<Rightarrow> set got \<inter> set known = set gids)"

lemma agrees_iff: "\<not> list_ex (stale_user reply known) wanted \<longleftrightarrow> nas_agrees wanted known reply"
  by (force simp: nas_agrees_def stale_user_def list_ex_iff split: option.splits)

text \<open>The look-ups of one call, one after the other.\<close>

definition lookups_agree :: "env \<Rightarrow> st \<Rightarrow> bool" where
  "lookups_agree E s \<longleftrightarrow> (\<exists>wanted u known v reply w.
     ledger_shared_gids_by_user E s = (Inr wanted, u) \<and> ledger_shared_gids E u = (Inr known, v) \<and>
     nas_shared_gids_for_users E (map fst wanted) (cfg_shared_gid_min E) (cfg_shared_gid_max E) v = (Inr reply, w) \<and>
     nas_agrees wanted known reply)"

lemma flush_if_agreed_idle:
  assumes "flush_if_agreed E m s = (r, t)" "\<not> lookups_agree E s"
  shows "unflushed s t \<and> r \<noteq> Inr True"
proof -
  obtain q1 u where a: "ledger_shared_gids_by_user E s = (q1, u)" by fastforce
  obtain q2 v where b: "ledger_shared_gids E u = (q2, v)" by fastforce
  obtain q3 w where c: "nas_shared_gids_for_users E (map fst (projr q1)) (cfg_shared_gid_min E) (cfg_shared_gid_max E) v = (q3, w)"
    by fastforce
  have su: "unflushed s u" by (rule movesD[OF idle_lookups(1) a])
  have sv: "unflushed s v" using su movesD[OF idle_lookups(2) b] by (rule idle.trans)
  have sw: "unflushed s w" using sv movesD[OF idle_lookups(3) c] by (rule idle.trans)
  from assms(2) have stale: "list_ex (stale_user reply known) wanted"
    if "q1 = Inr wanted" "q2 = Inr known" "q3 = Inr reply" for wanted known reply
    using that a b c agrees_iff[of reply known wanted] unfolding lookups_agree_def by auto
  show ?thesis
    using assms(1) a b c su sv sw stale
    by (cases q1; cases q2; cases q3) (auto simp: flush_if_agreed_def run)
qed

text \<open>C25: the NAS is told to drop its GSS contexts, and the mark of the last flush moves, only if the
  group file is newer than the mark and the look-ups of this very call agree: for every account the NAS
  already shows exactly the shared groups of the ledger.  So it never freezes an old list again, and a
  change it could not bring about is tried again next time.\<close>

theorem flush_only_when_nas_agrees:
  assumes "reconcile_nas_gss_cache E s = (r, t)" "hist t = evs @ hist s"
    and "EvNas NasFlushGss \<in> set evs \<or> gss_state t \<noteq> gss_state s \<or> r = Inr True"
  shows "\<exists>mtime old u. x_mtime E (hist s) = Some mtime \<and>
     flushed_for E (s\<lparr>hist := EvMtime # hist s\<rparr>) = (Inr old, u) \<and> old < mtime \<and> lookups_agree E u"
proof -
  let ?s = "s\<lparr>hist := EvMtime # hist s\<rparr>"
  have s0: "unflushed s ?s" by (simp add: unflushed_step)
  have not_idle: "\<not> (unflushed s t \<and> r \<noteq> Inr True)"
    using assms(2,3) grew_exact unfolding unflushed_def by blast
  show ?thesis
  proof (cases "x_mtime E (hist s)")
    case None
    with assms(1) s0 not_idle show ?thesis by (auto simp: reconcile_nas_gss_cache_def ext_def run)
  next
    case (Some mtime)
    obtain q u where q: "flushed_for E ?s = (q, u)" by fastforce
    have su: "unflushed s u" using s0 movesD[OF idle_lookups(4) q] by (rule idle.trans)
    have "\<exists>old. q = Inr old \<and> old < mtime \<and> flush_if_agreed E mtime u = (r, t)"
      using assms(1) Some q su not_idle
      by (cases q) (auto simp: reconcile_nas_gss_cache_def ext_def run split: if_splits)
    then obtain old where old: "q = Inr old" "old < mtime" "flush_if_agreed E mtime u = (r, t)" by blast
    have "lookups_agree E u"
    proof (rule ccontr)
      assume "\<not> lookups_agree E u"
      from flush_if_agreed_idle[OF old(3) this] have "unflushed u t" "r \<noteq> Inr True" by simp_all
      with idle.trans[OF su] not_idle show False by blast
    qed
    with Some q old show ?thesis by auto
  qed
qed

text \<open>The ledger has no shared group, and the NAS answers nothing: there is nothing to disagree about.\<close>

definition env_nas :: env where
  "env_nas = env0\<lparr>x_nas := \<lambda>_ _. Inr (0, [])\<rparr>"

theorem flush_only_when_nas_agrees_witness:
  "\<exists>u. lookups_agree env_nas u \<and> result_of (reconcile_nas_gss_cache env_nas) st0 = Inr True"
proof -
  obtain r t where r: "reconcile_nas_gss_cache env_nas st0 = (r, t)" by fastforce
  have ok: "result_of (reconcile_nas_gss_cache env_nas) st0 = Inr True"
    by (simp add: reconcile_nas_gss_cache_def flushed_for_def flush_if_agreed_def ledger_shared_gids_by_user_def
        ledger_shared_gids_def shared_groups_def nas_shared_gids_for_users_def nas_flush_gss_cache_def nas_session_def
        ssh_capture_def ssh_run_def ssh_exec_def stale_user_def nas_gids_def shared_gids_of_def write_gss_state_def
        in_shared_band_def env_nas_def st0_def env0_def ledger0_def run_calls run_lines run_strings entries_def py_strip_def)
  have "hist t = hist t @ hist st0" by (simp add: st0_def)
  from flush_only_when_nas_agrees[OF r this] ok r show ?thesis by auto
qed

end
