(* ===== verification/Requests.thy ===== *)
theory Requests
  imports Migrate Shared_Groups Port_Change Verify
begin

text \<open>
  The bodies of the requests (\<open>request_models.py\<close>): what is accepted and the values the handlers get.

  A body comes with the type conversions of pydantic done: a number or flag field is an integer or a
  boolean, a text field is still the raw text, from which \<open>str_strip_whitespace\<close> takes the spaces around
  it.  Fields that a validator sees before any conversion are scalars of JSON.
\<close>

section \<open>Scalars and texts\<close>

text \<open>\<open>VOther\<close> is any other value, with its \<open>str()\<close>.\<close>

datatype scalar = VNull | VBool bool | VInt int | VText string | VOther string

fun str_of :: "scalar \<Rightarrow> string" where
  "str_of VNull = ''None''"
| "str_of (VBool b) = (if b then ''True'' else ''False'')"
| "str_of (VInt i) = show_int i"
| "str_of (VText t) = t"
| "str_of (VOther t) = t"

definition invalid :: "exn + 'a" where
  "invalid = Inl (raised ValueError)"

text \<open>\<open>str_strip_whitespace\<close>: white space of Unicode, without the separators \<open>FS\<close> to \<open>US\<close> of Python's \<open>strip\<close>.\<close>

definition white :: "char \<Rightarrow> bool" where
  "white c \<longleftrightarrow> (of_char c :: nat) \<in> {9, 10, 11, 12, 13, 32, 133, 160}"

definition trim :: "string \<Rightarrow> string" where
  "trim s = rev (dropWhile white (rev (dropWhile white s)))"

definition text_field :: "scalar \<Rightarrow> exn + string" where
  "text_field v = (case v of VText t \<Rightarrow> Inr (trim t) | _ \<Rightarrow> invalid)"

fun opt_field :: "(scalar \<Rightarrow> exn + 'a) \<Rightarrow> scalar \<Rightarrow> exn + 'a option" where
  "opt_field f VNull = Inr None"
| "opt_field f v = bindE (f v) (\<lambda>a. Inr (Some a))"

text \<open>\<open>_optional_text\<close>, run before the conversion: nothing for null and the empty text, else \<open>str(value)\<close>.\<close>

definition optional_text :: "scalar \<Rightarrow> scalar" where
  "optional_text v = (if v = VNull \<or> v = VText [] then VNull else VText (str_of v))"

definition request_id_of :: "scalar \<Rightarrow> exn + string" where
  "request_id_of v = (let t = (case v of VNull \<Rightarrow> [] | VBool b \<Rightarrow> [] | _ \<Rightarrow> py_strip (str_of v)) in
     case read_digits t of None \<Rightarrow> invalid | Some i \<Rightarrow> if i \<le> 0 then invalid else Inr (show_int i))"

definition is_valid_unix_name :: "string \<Rightarrow> bool" where
  "is_valid_unix_name s \<longleftrightarrow> s \<noteq> [] \<and> length s \<le> 32 \<and> (lower_letter (hd s) \<or> hd s = CHR ''_'') \<and>
     list_all (\<lambda>c. lower_letter c \<or> is_digit c \<or> c = CHR ''_'' \<or> c = CHR ''-'') s"

definition unix_name :: "scalar \<Rightarrow> exn + string" where
  "unix_name v = bindE (text_field v) (\<lambda>s. if is_valid_unix_name s then Inr s else invalid)"

definition pod_name_prefix :: string where
  "pod_name_prefix = ''ailab-''"

definition pod_name_of :: "scalar \<Rightarrow> exn + string" where
  "pod_name_of v = bindE (text_field v) (\<lambda>s. if starts_with pod_name_prefix s then Inr s else invalid)"

section \<open>Creation\<close>

record raw_group =
  rg_name :: scalar
  rg_gid :: "int option"

definition supplementary_group :: "raw_group \<Rightarrow> exn + supp_group" where
  "supplementary_group g = bindE (unix_name (rg_name g)) (\<lambda>n.
     if (case rg_gid g of None \<Rightarrow> False | Some i \<Rightarrow> i < 1) then invalid
     else Inr \<lparr>sg_name = n, sg_gid = rg_gid g\<rparr>)"

record raw_account =
  ra_hash :: scalar
  ra_base64 :: scalar
  ra_gecos :: string
  ra_group :: scalar
  ra_groups :: "raw_group list"
  ra_uid :: "int option"

text \<open>Without the password: a hash, or the encoded text of an older caller.\<close>

record account_body =
  ab_hash :: "string option"
  ab_base64 :: "string option"
  ab_gecos :: string
  ab_group :: "string option"
  ab_groups :: "supp_group list"
  ab_uid :: "int option"

definition hash_field :: "scalar \<Rightarrow> exn + string" where
  "hash_field v = bindE (text_field v) (\<lambda>h. if sha512_crypt h then Inr h else invalid)"

definition base64_field :: "env \<Rightarrow> scalar \<Rightarrow> exn + string" where
  "base64_field E v = bindE (text_field v) (\<lambda>b. if x_base64 E b = None then invalid else Inr b)"

text \<open>No colon and no control character (category \<open>Cc\<close>; \<open>Zl\<close> and \<open>Zp\<close> are beyond the code points below 256).\<close>

definition control :: "char \<Rightarrow> bool" where
  "control c \<longleftrightarrow> (of_char c :: nat) < 32 \<or> (127 \<le> (of_char c :: nat) \<and> (of_char c :: nat) < 160)"

definition gecos_field :: "string \<Rightarrow> exn + string" where
  "gecos_field raw = (let s = trim raw in
     if 256 < length s \<or> CHR '':'' \<in> set s \<or> list_ex control s then invalid else Inr s)"

definition account_of :: "env \<Rightarrow> raw_account \<Rightarrow> exn + account_body" where
  "account_of E a =
     bindE (opt_field hash_field (ra_hash a)) (\<lambda>hash.
     bindE (opt_field (base64_field E) (ra_base64 a)) (\<lambda>b64.
     bindE (gecos_field (ra_gecos a)) (\<lambda>gecos.
     bindE (opt_field unix_name (ra_group a)) (\<lambda>gr.
     bindE (mapE supplementary_group (ra_groups a)) (\<lambda>groups.
       if (case ra_uid a of None \<Rightarrow> False | Some u \<Rightarrow> u < 1) then invalid
       else if (hash = None) = (b64 = None) then invalid
       else Inr \<lparr>ab_hash = hash, ab_base64 = b64, ab_gecos = gecos, ab_group = gr, ab_groups = groups,
                 ab_uid = ra_uid a\<rparr>)))))"

definition password_hash :: "env \<Rightarrow> account_body \<Rightarrow> string cmd" where
  "password_hash E a = (case ab_hash a of
     Some h \<Rightarrow> ret h
   | None \<Rightarrow> (case bindE (case ab_base64 a of None \<Rightarrow> invalid | Some b \<Rightarrow> Inr b)
                (\<lambda>b. case x_base64 E b of None \<Rightarrow> invalid | Some p \<Rightarrow> Inr p) of
       Inl e \<Rightarrow> throw e
     | Inr p \<Rightarrow> hash_login_password E p))"

record raw_provision =
  rp_request :: scalar
  rp_username :: scalar
  rp_account :: "raw_account option"
  rp_groups :: "raw_group list"

record provision_body =
  pb_request :: string
  pb_username :: string
  pb_account :: "account_body option"
  pb_groups :: "supp_group list"

definition provision_request :: "env \<Rightarrow> raw_provision \<Rightarrow> exn + provision_body" where
  "provision_request E r =
     bindE (request_id_of (rp_request r)) (\<lambda>req.
     bindE (unix_name (rp_username r)) (\<lambda>user.
     bindE (case rp_account r of None \<Rightarrow> Inr None | Some a \<Rightarrow> bindE (account_of E a) (\<lambda>b. Inr (Some b))) (\<lambda>acc.
     bindE (mapE supplementary_group (rp_groups r)) (\<lambda>groups.
       Inr \<lparr>pb_request = req, pb_username = user, pb_account = acc, pb_groups = groups\<rparr>))))"

section \<open>Revocation and migration\<close>

record raw_revoke =
  rr_request :: scalar
  rr_pod :: scalar
  rr_username :: scalar
  rr_node :: scalar
  rr_delete :: bool

record revoke_body =
  rb_request :: string
  rb_pod_name :: "string option"
  rb_username :: "string option"
  rb_node :: "string option"
  rb_delete :: bool

definition revoke_request :: "raw_revoke \<Rightarrow> exn + revoke_body" where
  "revoke_request r =
     bindE (request_id_of (rr_request r)) (\<lambda>req.
     bindE (opt_field pod_name_of (optional_text (rr_pod r))) (\<lambda>pod.
     bindE (opt_field unix_name (optional_text (rr_username r))) (\<lambda>user.
     bindE (opt_field text_field (optional_text (rr_node r))) (\<lambda>node.
       if \<not> some_text pod \<and> \<not> (some_text user \<and> rr_delete r) then invalid
       else Inr \<lparr>rb_request = req, rb_pod_name = pod, rb_username = user, rb_node = node, rb_delete = rr_delete r\<rparr>))))"

record raw_migrate =
  rm_request :: scalar
  rm_pod :: scalar
  rm_username :: scalar
  rm_recreate :: bool
  rm_keep :: "bool option"
  rm_image :: scalar
  rm_nodes :: "scalar list"
  rm_ratio :: "int option"
  rm_force :: bool
  rm_blocked :: bool

record migrate_body =
  mb_request :: string
  mb_pod :: "string option"
  mb_username :: string
  mb_recreate :: bool
  mb_keep :: "bool option"
  mb_image :: "string option"
  mb_nodes :: "string list"
  mb_ratio :: "int option"
  mb_force :: bool
  mb_blocked :: bool

text \<open>\<open>^[A-Za-z0-9][A-Za-z0-9._/:@-]{0,254}$\<close>.\<close>

definition letter_or_digit :: "char \<Rightarrow> bool" where
  "letter_or_digit c \<longleftrightarrow> alnum c \<or> (65 \<le> (of_char c :: nat) \<and> (of_char c :: nat) \<le> 90)"

definition image_name :: "string \<Rightarrow> bool" where
  "image_name s \<longleftrightarrow> s \<noteq> [] \<and> length s \<le> 255 \<and> letter_or_digit (hd s) \<and>
     list_all (\<lambda>c. letter_or_digit c \<or> c \<in> set ''._/:@-'') s"

definition image_field :: "scalar \<Rightarrow> exn + string" where
  "image_field v = bindE (text_field v) (\<lambda>s. if image_name s then Inr s else invalid)"

text \<open>The ratio is given in thousandths.\<close>

definition migrate_request :: "raw_migrate \<Rightarrow> exn + migrate_body" where
  "migrate_request r =
     bindE (request_id_of (rm_request r)) (\<lambda>req.
     bindE (opt_field pod_name_of (optional_text (rm_pod r))) (\<lambda>pod.
     bindE (unix_name (rm_username r)) (\<lambda>user.
     bindE (opt_field image_field (rm_image r)) (\<lambda>img.
     bindE (mapE text_field (rm_nodes r)) (\<lambda>nodes.
       if img \<noteq> None \<and> \<not> (rm_recreate r \<and> rm_keep r = Some False) then invalid
       else if nodes = [] \<and> \<not> rm_recreate r then invalid
       else if (case rm_ratio r of None \<Rightarrow> False | Some q \<Rightarrow> q < 0 \<or> 1000 < q) then invalid
       else Inr \<lparr>mb_request = req, mb_pod = pod, mb_username = user, mb_recreate = rm_recreate r, mb_keep = rm_keep r,
                 mb_image = img, mb_nodes = nodes, mb_ratio = rm_ratio r, mb_force = rm_force r,
                 mb_blocked = rm_blocked r\<rparr>)))))"

section \<open>Deleting a Pod\<close>

definition delete_pod_request :: "scalar \<Rightarrow> scalar \<Rightarrow> exn + (string \<times> string option)" where
  "delete_pod_request pod req =
     bindE (pod_name_of pod) (\<lambda>p. bindE (opt_field text_field (optional_text req)) (\<lambda>r. Inr (p, r)))"

section \<open>Groups, passwords and homes\<close>

record raw_group_job =
  rj_request :: scalar
  rj_op :: group_op
  rj_username :: scalar
  rj_name :: scalar
  rj_gid :: scalar
  rj_members :: "scalar list"
  rj_groups :: "scalar list"

record group_body =
  gb_request :: string
  gb_op :: group_op
  gb_username :: "string option"
  gb_name :: "string option"
  gb_gid :: "int option"
  gb_members :: "string list"
  gb_groups :: "string list"

text \<open>A boolean is refused before the conversion (Python counts it as a number); the text of an integer is
  converted.\<close>

definition gid_field :: "scalar \<Rightarrow> exn + int option" where
  "gid_field v = (case v of VNull \<Rightarrow> Inr None | VInt i \<Rightarrow> Inr (Some i)
     | VText t \<Rightarrow> if t = [] then Inr None
         else bindE (read_int (trim t)) (\<lambda>i. Inr (Some i))
     | _ \<Rightarrow> invalid)"

fun fields_for_op :: "group_op \<Rightarrow> string option \<Rightarrow> string option \<Rightarrow> string list \<Rightarrow> bool" where
  "fields_for_op GCreate user name groups = some_text name"
| "fields_for_op GAdd user name groups = (some_text user \<and> groups \<noteq> [])"
| "fields_for_op GRemove user name groups = (some_text user \<and> some_text name)"

definition group_request :: "raw_group_job \<Rightarrow> exn + group_body" where
  "group_request r =
     bindE (request_id_of (rj_request r)) (\<lambda>req.
     bindE (opt_field unix_name (rj_username r)) (\<lambda>user.
     bindE (opt_field unix_name (rj_name r)) (\<lambda>name.
     bindE (gid_field (rj_gid r)) (\<lambda>gid.
     bindE (mapE unix_name (rj_members r)) (\<lambda>members.
     bindE (mapE unix_name (rj_groups r)) (\<lambda>groups.
       if \<not> fields_for_op (rj_op r) user name groups then invalid
       else Inr \<lparr>gb_request = req, gb_op = rj_op r, gb_username = user, gb_name = name, gb_gid = gid,
                 gb_members = members, gb_groups = groups\<rparr>))))))"

record password_body =
  wb_request :: string
  wb_username :: string
  wb_hash :: string

definition password_request :: "scalar \<Rightarrow> scalar \<Rightarrow> scalar \<Rightarrow> exn + password_body" where
  "password_request req user hash =
     bindE (request_id_of req) (\<lambda>r. bindE (unix_name user) (\<lambda>u. bindE (hash_field hash) (\<lambda>h.
       Inr \<lparr>wb_request = r, wb_username = u, wb_hash = h\<rparr>)))"

definition home_request :: "scalar \<Rightarrow> scalar \<Rightarrow> int \<Rightarrow> exn + (string \<times> string \<times> int)" where
  "home_request req user uid =
     bindE (request_id_of req) (\<lambda>r. bindE (unix_name user) (\<lambda>u. if uid \<le> 0 then invalid else Inr (r, u, uid)))"

section \<open>Ports and access\<close>

definition reserved_purposes :: "string list" where
  "reserved_purposes = [''ssh'', ''jupyter'', ''novnc'', ''vnc'']"

definition max_extra_ports :: nat where
  "max_extra_ports = 10"

text \<open>A port with the purpose it gets; a missing purpose is \<open>custom\<close>.\<close>

definition port_spec :: "int \<times> string option \<Rightarrow> exn + port_info" where
  "port_spec p = (case p of (port, purpose) \<Rightarrow> let q = (case purpose of None \<Rightarrow> ''custom'' | Some t \<Rightarrow> trim t) in
     if port < 1 \<or> 65535 < port then invalid
     else if q = [] \<or> 255 < length q then invalid
     else if lower q \<in> set reserved_purposes then invalid
     else Inr \<lparr>internal_port = port, external_port = None, usage_purpose = q\<rparr>)"

record port_body =
  tb_request :: string
  tb_username :: string
  tb_pod :: string
  tb_ports :: "port_info list"
  tb_blocked :: bool

definition port_request ::
  "scalar \<Rightarrow> scalar \<Rightarrow> scalar \<Rightarrow> (int \<times> string option) list \<Rightarrow> bool \<Rightarrow> exn + port_body" where
  "port_request req user pod ports blocked =
     bindE (request_id_of req) (\<lambda>r. bindE (unix_name user) (\<lambda>u. bindE (text_field pod) (\<lambda>p.
     bindE (mapE port_spec ports) (\<lambda>ps. let numbers = map internal_port ps in
       if max_extra_ports < length ps then invalid
       else if \<not> starts_with pod_name_prefix p then invalid
       else if \<not> distinct numbers then invalid
       else if list_ex (\<lambda>n. n \<in> set protected_ports) numbers then invalid
       else Inr \<lparr>tb_request = r, tb_username = u, tb_pod = p, tb_ports = ps, tb_blocked = blocked\<rparr>))))"

definition access_request :: "scalar \<Rightarrow> scalar \<Rightarrow> bool \<Rightarrow> exn + (string \<times> string \<times> bool)" where
  "access_request req user blocked =
     bindE (request_id_of req) (\<lambda>r. bindE (unix_name user) (\<lambda>u. Inr (r, u, blocked)))"

end
