(* ===== verification/Registration.thy ===== *)
theory Registration
  imports Requests Passwords
begin

text \<open>
  The HTTP side of \<open>main.py\<close>: the checks before every request, the registration of the eight kinds of jobs
  and the look-ups of their results.  An answer is its status code, its error code and, where a job was
  registered, the number of the job.
\<close>

section \<open>Before every request\<close>

text \<open>\<open>_require_api_token\<close>: the status code of a refusal.\<close>

definition require_api_token :: "bool \<Rightarrow> string \<Rightarrow> string \<Rightarrow> string \<Rightarrow> string \<Rightarrow> int option" where
  "require_api_token disabled token meth path sent =
     (if disabled then None
      else if meth = ''GET'' \<and> strip_final_nl path = ''/health'' then None
      else if token = [] then Some 503
      else if sent = token then None else Some 401)"

definition pod_username :: "string \<Rightarrow> string" where
  "pod_username pod = (let t = drop (length pod_name_prefix) pod in
     case rpartition_on ''-'' t of None \<Rightarrow> t | Some p \<Rightarrow> fst p)"

text \<open>The bodies of the eight kinds.\<close>

datatype request =
    RProvision raw_provision
  | RRevoke raw_revoke
  | RMigrate raw_migrate
  | RPassword scalar scalar scalar
  | RHome scalar scalar int
  | RPort scalar scalar scalar "(int \<times> string option) list" bool
  | RAccess scalar scalar bool
  | RGroup raw_group_job

text \<open>\<open>_enforce_account_prefix\<close>: the names it looks at, in the body as it was sent.\<close>

fun names_in :: "request \<Rightarrow> scalar list" where
  "names_in (RProvision r) = [rp_username r]"
| "names_in (RRevoke r) = rr_username r #
     (case rr_pod r of VText p \<Rightarrow> if starts_with ''ailab-'' p then [VText (pod_username p)] else [] | _ \<Rightarrow> [])"
| "names_in (RMigrate r) = [rm_username r]"
| "names_in (RPassword req user hash) = [user]"
| "names_in (RHome req user uid) = [user]"
| "names_in (RPort req user pod ports blocked) = [user]"
| "names_in (RAccess req user blocked) = [user]"
| "names_in (RGroup r) = rj_username r # rj_members r"

definition outside_prefix :: "string \<Rightarrow> request \<Rightarrow> bool" where
  "outside_prefix pre rq \<longleftrightarrow> pre \<noteq> [] \<and>
     list_ex (\<lambda>n. n \<noteq> VNull \<and> \<not> starts_with pre (str_of n)) (names_in rq)"

section \<open>Registering a job\<close>

record answer =
  an_status :: int
  an_error :: "string option"
  an_job :: "int option"

definition refused_with :: "int \<Rightarrow> string \<Rightarrow> answer" where
  "refused_with status err = \<lparr>an_status = status, an_error = Some err, an_job = None\<rparr>"

definition accepted :: "int option \<Rightarrow> answer" where
  "accepted i = \<lparr>an_status = 202, an_error = None, an_job = i\<rparr>"

definition register_job :: "env \<Rightarrow> kind \<Rightarrow> string \<Rightarrow> string \<Rightarrow> job \<Rightarrow> answer cmd" where
  "register_job E k req user jb = (let key = job_key k req in
     bnd (attempt (save_job_input E k key jb)) (\<lambda>r. case r of
       Inl e \<Rightarrow> ret (refused_with 503 ''JOB_STORE_UNAVAILABLE'')
     | Inr fresh \<Rightarrow>
         if \<not> fresh then ret (refused_with 409 ''JOB_ALREADY_REGISTERED'')
         else bnd (attempt (log_operation_id E
                ((logargs key user (job_action k) START)\<lparr>lo_start_job := True, lo_raise := True\<rparr>))) (\<lambda>l. case l of
           Inl e \<Rightarrow> thn (delete_job_input E k key) (ret (refused_with 503 ''JOB_LOG_UNAVAILABLE''))
         | Inr i \<Rightarrow> thn (whenE (k = Provision \<or> k = Migrate) (set_pod_creation_status E req ''started''))
                        (ret (accepted i)))))"

definition blank_job :: "string \<Rightarrow> job" where
  "blank_job user = \<lparr>j_username = user, j_account = None, j_supp_groups_only = [], j_pod_name = None,
     j_node_name = None, j_delete_account = False, j_passwd_hash = [], j_op = GCreate, j_group_name = None,
     j_gid = None, j_members = [], j_groups = [], j_expected_uid = 0, j_ports = [], j_blocked = False,
     j_access_blocked = False, j_decided_at = 0, j_nodes = [], j_min_ratio = None, j_force = False,
     j_recreate = False, j_keep_changes = False, j_image = None\<rparr>"

section \<open>Creation\<close>

definition adoptable_account_uid :: "env \<Rightarrow> string \<Rightarrow> int option \<Rightarrow> int option cmd" where
  "adoptable_account_uid E user expected = (case expected of
     None \<Rightarrow> ret None
   | Some u \<Rightarrow> bnd (read_passwd_lines E) (\<lambda>ls. ret (case find_named parse_passwd_line pw_name user ls of
       None \<Rightarrow> None | Some e \<Rightarrow> if pw_uid e = u then Some u else None)))"

definition reserved_user_names :: "string list" where
  "reserved_user_names = [''root'', ''daemon'', ''bin'', ''sys'', ''sync'', ''games'', ''man'', ''lp'', ''mail'',
     ''news'', ''uucp'', ''proxy'', ''www-data'', ''backup'', ''list'', ''irc'', ''_apt'', ''nobody'',
     ''systemd-network'', ''systemd-timesync'', ''messagebus'', ''polkitd'', ''admin'', ''ubuntu'', ''ailab-krb5'']"

definition username_group_conflict :: "env \<Rightarrow> string \<Rightarrow> bool cmd" where
  "username_group_conflict E user =
     (if user \<in> set reserved_group_names \<union> set reserved_user_names then ret True
      else bnd (read_group_lines E) (\<lambda>ls. ret (case find_named parse_group_line gr_name user ls of
        None \<Rightarrow> False
      | Some g \<Rightarrow> \<not> (cfg_uid_min E \<le> gr_gid g \<and> gr_gid g < cfg_shared_gid_min E))))"

text \<open>\<open>{g.name: g \<dots>}\<close>: of groups with one name the last counts, at the place of the first.\<close>

definition groups_by_name :: "supp_group list \<Rightarrow> supp_group list" where
  "groups_by_name gs = map snd (fold (\<lambda>g acc. AList.update (sg_name g) g acc) gs [])"

text \<open>An account that is left in the ledger is taken over, with the new password.\<close>

definition register_adopted :: "env \<Rightarrow> provision_body \<Rightarrow> account_body \<Rightarrow> answer cmd" where
  "register_adopted E b a = (let user = pb_username b in
     bnd (password_hash E a) (\<lambda>hash.
     bnd (set_ledger_password E user hash) (\<lambda>_.
     register_job E Provision (pb_request b) user
       ((blank_job user)\<lparr>j_supp_groups_only := groups_by_name (ab_groups a @ pb_groups b)\<rparr>))))"

definition account_job :: "env \<Rightarrow> string \<Rightarrow> account_body \<Rightarrow> account_input cmd" where
  "account_job E user a = bnd (password_hash E a) (\<lambda>hash. ret
     \<lparr>a_passwd_hash = hash, a_gecos = ab_gecos a, a_pg_name = (case ab_group a of None \<Rightarrow> user | Some g \<Rightarrow> g),
      a_supp_groups = ab_groups a, a_expected_uid = ab_uid a\<rparr>)"

definition register_new :: "env \<Rightarrow> provision_body \<Rightarrow> account_body \<Rightarrow> answer cmd" where
  "register_new E b a = (let user = pb_username b in
     bnd (username_group_conflict E user) (\<lambda>conflict.
       if conflict then ret (refused_with 400 ''USERNAME_CONFLICTS_GROUP'')
       else bnd (account_job E user a) (\<lambda>acc.
         register_job E Provision (pb_request b) user
           ((blank_job user)\<lparr>j_account := Some acc, j_supp_groups_only := pb_groups b\<rparr>))))"

definition register_provision :: "env \<Rightarrow> provision_body \<Rightarrow> answer cmd" where
  "register_provision E b = (let user = pb_username b in case pb_account b of
     None \<Rightarrow> register_job E Provision (pb_request b) user ((blank_job user)\<lparr>j_supp_groups_only := pb_groups b\<rparr>)
   | Some a \<Rightarrow> bnd (adoptable_account_uid E user (ab_uid a)) (\<lambda>adopted.
       if adopted \<noteq> None then register_adopted E b a else register_new E b a))"

section \<open>The other kinds\<close>

definition register_revoke :: "env \<Rightarrow> revoke_body \<Rightarrow> answer cmd" where
  "register_revoke E b =
     (let user = (if some_text (rb_username b) then (case rb_username b of None \<Rightarrow> [] | Some u \<Rightarrow> u)
                  else pod_username (case rb_pod_name b of None \<Rightarrow> [] | Some p \<Rightarrow> p))
      in register_job E Revoke (rb_request b) user
        ((blank_job user)\<lparr>j_pod_name := rb_pod_name b, j_node_name := rb_node b, j_delete_account := rb_delete b\<rparr>))"

definition now_ms :: "env \<Rightarrow> int cmd" where
  "now_ms E = wall_clock E"

definition register_migrate :: "env \<Rightarrow> migrate_body \<Rightarrow> answer cmd" where
  "register_migrate E b = (let user = mb_username b in
     bnd (now_ms E) (\<lambda>at. register_job E Migrate (mb_request b) user
       ((blank_job user)\<lparr>j_pod_name := mb_pod b, j_nodes := mb_nodes b, j_force := mb_force b, j_recreate := mb_recreate b,
          j_keep_changes := (mb_keep b \<noteq> Some False), j_min_ratio := mb_ratio b, j_image := mb_image b,
          j_access_blocked := mb_blocked b, j_decided_at := at\<rparr>)))"

definition register_password_change :: "env \<Rightarrow> password_body \<Rightarrow> answer cmd" where
  "register_password_change E b =
     register_job E Password (wb_request b) (wb_username b) ((blank_job (wb_username b))\<lparr>j_passwd_hash := wb_hash b\<rparr>)"

definition register_home_delete :: "env \<Rightarrow> string \<times> string \<times> int \<Rightarrow> answer cmd" where
  "register_home_delete E b = (case b of (req, user, uid) \<Rightarrow>
     register_job E Home req user ((blank_job user)\<lparr>j_expected_uid := uid\<rparr>))"

definition register_port_change :: "env \<Rightarrow> port_body \<Rightarrow> answer cmd" where
  "register_port_change E b = (let user = tb_username b in
     bnd (now_ms E) (\<lambda>at. register_job E Port (tb_request b) user
       ((blank_job user)\<lparr>j_pod_name := Some (tb_pod b), j_ports := tb_ports b, j_access_blocked := tb_blocked b,
          j_decided_at := at\<rparr>)))"

definition register_access_change :: "env \<Rightarrow> string \<times> string \<times> bool \<Rightarrow> answer cmd" where
  "register_access_change E b = (case b of (req, user, blocked) \<Rightarrow>
     bnd (now_ms E) (\<lambda>at. register_job E Access req user ((blank_job user)\<lparr>j_blocked := blocked, j_decided_at := at\<rparr>)))"

text \<open>A check that fails answers with the body and the status of its \<open>StepFailed\<close>.\<close>

definition text_of :: "string option \<Rightarrow> string" where
  "text_of t = (case t of None \<Rightarrow> [] | Some x \<Rightarrow> x)"

definition check_group_job :: "env \<Rightarrow> group_body \<Rightarrow> job cmd" where
  "check_group_job E b = (case gb_op b of
     GCreate \<Rightarrow> thn (check_create E (text_of (gb_name b)) (gb_gid b) (gb_members b))
       (let user = (if some_text (gb_username b) then text_of (gb_username b) else text_of (gb_name b)) in
        ret ((blank_job user)\<lparr>j_op := GCreate, j_group_name := gb_name b, j_gid := gb_gid b, j_members := gb_members b\<rparr>))
   | GAdd \<Rightarrow> thn (check_add E (text_of (gb_username b)) (gb_groups b))
       (ret ((blank_job (text_of (gb_username b)))\<lparr>j_op := GAdd, j_groups := gb_groups b\<rparr>))
   | GRemove \<Rightarrow> thn (check_remove E (text_of (gb_username b)) (text_of (gb_name b)))
       (ret ((blank_job (text_of (gb_username b)))\<lparr>j_op := GRemove, j_group_name := gb_name b\<rparr>)))"

definition register_group_change :: "env \<Rightarrow> group_body \<Rightarrow> answer cmd" where
  "register_group_change E b =
     bnd (attempt (check_group_job E b)) (\<lambda>r. case r of
       Inl e \<Rightarrow> (case e of StepFailed f _ \<Rightarrow> ret (refused_with (f_status f) (f_error f)) | _ \<Rightarrow> throw e)
     | Inr jb \<Rightarrow> register_job E Group (gb_request b) (j_username jb) jb)"

text \<open>A request: the prefix guard, the validation, the handler.\<close>

definition validated :: "(exn + 'b) \<Rightarrow> ('b \<Rightarrow> answer cmd) \<Rightarrow> answer cmd" where
  "validated v h = (case v of Inl e \<Rightarrow> ret (refused_with 400 ''INVALID_REQUEST'') | Inr b \<Rightarrow> h b)"

fun handle :: "env \<Rightarrow> request \<Rightarrow> answer cmd" where
  "handle E (RProvision r) = validated (provision_request E r) (register_provision E)"
| "handle E (RRevoke r) = validated (revoke_request r) (register_revoke E)"
| "handle E (RMigrate r) = validated (migrate_request r) (register_migrate E)"
| "handle E (RPassword req user hash) = validated (password_request req user hash) (register_password_change E)"
| "handle E (RHome req user uid) = validated (home_request req user uid) (register_home_delete E)"
| "handle E (RPort req user pod ports blocked) =
     validated (port_request req user pod ports blocked) (register_port_change E)"
| "handle E (RAccess req user blocked) = validated (access_request req user blocked) (register_access_change E)"
| "handle E (RGroup r) = validated (group_request r) (register_group_change E)"

definition post :: "env \<Rightarrow> string \<Rightarrow> request \<Rightarrow> answer cmd" where
  "post E pre rq = (if outside_prefix pre rq then ret (refused_with 403 ''ACCOUNT_PREFIX_MISMATCH'') else handle E rq)"

end
