(* ===== verification/Reports.thy ===== *)
theory Reports
  imports Registration
begin

text \<open>
  The routes of \<open>main.py\<close> beside the registration: the look-ups of a job's state, result and steps, the
  deletion of a Pod without a request, the reserved names and the run mode.  The times and the summaries
  of free text in the answers are left out.
\<close>

section \<open>The run mode\<close>

definition run_mode_named :: "string \<Rightarrow> run_mode option" where
  "run_mode_named s = (if s = ''baseline'' then Some Baseline else if s = ''noprobe'' then Some Noprobe
     else if s = ''full'' then Some Full else None)"

text \<open>\<open>_resolve_run_mode\<close>: \<open>None\<close> ends the program at its start.\<close>

definition resolve_run_mode :: "(string \<Rightarrow> string option) \<Rightarrow> run_mode option" where
  "resolve_run_mode vars = run_mode_named
     (if some_text (vars ''RUN_MODE'') then text_of (vars ''RUN_MODE'')
      else if some_text (vars ''VERIFY_MODE'') then text_of (vars ''VERIFY_MODE'') else ''noprobe'')"

section \<open>Names and stages\<close>

definition reserved_account_names :: "string list" where
  "reserved_account_names = sort (remdups (reserved_group_names @ reserved_user_names))"

text \<open>The status code with the stage.\<close>

definition get_pod_status :: "env \<Rightarrow> string \<Rightarrow> (int \<times> string option) cmd" where
  "get_pod_status E req =
     tryE (bnd (get_pod_creation_status E req) (\<lambda>stage. ret (200, Some (case stage of None \<Rightarrow> ''unknown'' | Some x \<Rightarrow> x))))
          (\<lambda>_. ret (500, None))"

section \<open>The result of a job\<close>

fun kind_name :: "kind \<Rightarrow> string" where
  "kind_name Provision = ''provision''"
| "kind_name Revoke = ''revoke''"
| "kind_name Migrate = ''migrate''"
| "kind_name Password = ''password''"
| "kind_name Group = ''group''"
| "kind_name Home = ''home''"
| "kind_name Port = ''port''"
| "kind_name Access = ''access''"

definition kind_named :: "string \<Rightarrow> kind option" where
  "kind_named s = find (\<lambda>k. kind_name k = s) job_kinds"

text \<open>\<open>ORDER BY id DESC LIMIT 1\<close>.\<close>

definition latest_row :: "(oprow \<Rightarrow> bool) \<Rightarrow> oprow list \<Rightarrow> oprow option" where
  "latest_row p rows = (case rev (sort_key op_id (filter p rows)) of [] \<Rightarrow> None | r # rs \<Rightarrow> Some r)"

text \<open>A job with no row has the phase \<open>none\<close>.\<close>

record job_view =
  jv_phase :: "phase option"
  jv_job :: "int option"
  jv_error :: "string option"
  jv_result :: "result_detail option"

definition view_of :: "oprow \<Rightarrow> result_detail option \<Rightarrow> job_view" where
  "view_of r d = \<lparr>jv_phase = Some (op_phase r), jv_job = op_job r, jv_error = op_error r, jv_result = d\<rparr>"

definition no_view :: job_view where
  "no_view = \<lparr>jv_phase = None, jv_job = None, jv_error = None, jv_result = None\<rparr>"

definition row_of_job :: "kind \<Rightarrow> string \<Rightarrow> oprow \<Rightarrow> bool" where
  "row_of_job k key r \<longleftrightarrow> op_request r = key \<and> op_action r = job_action k"

definition get_job_result :: "env \<Rightarrow> string \<Rightarrow> string \<Rightarrow> (int \<times> job_view option) cmd" where
  "get_job_result E name req = (case kind_named name of
     None \<Rightarrow> ret (404, None)
   | Some k \<Rightarrow> let key = job_key k req in
       bnd (rd EvLogDb (x_log_db E) (\<lambda>s. latest_row (row_of_job k key) (oplog s))) (\<lambda>row. case row of
         None \<Rightarrow> ret (200, Some no_view)
       | Some r \<Rightarrow> bnd (load_job_result E k key) (\<lambda>d. ret (200, Some (view_of r d)))))"

section \<open>The steps of a job\<close>

record step_view =
  sw_action :: action
  sw_phase :: phase
  sw_attempt :: nat
  sw_probe :: "string option"
  sw_step :: "string option"
  sw_resource :: "string option"
  sw_error :: "string option"

record steps_view =
  jw_job :: int
  jw_phase :: phase
  jw_error :: "string option"
  jw_steps :: "step_view list"

definition job_steps_max_jobs :: nat where
  "job_steps_max_jobs = 5"

definition started_jobs :: "kind \<Rightarrow> string \<Rightarrow> oprow list \<Rightarrow> int list" where
  "started_jobs k key rows = take job_steps_max_jobs (rev (sort (map op_id
     (filter (\<lambda>r. row_of_job k key r \<and> op_phase r = START \<and> op_job r = Some (op_id r)) rows))))"

definition is_probe :: "action \<Rightarrow> bool" where
  "is_probe a \<longleftrightarrow> a = VERIFY_ACCESS \<or> a = VERIFY_REVOKED"

definition step_view_of :: "oprow \<Rightarrow> step_view" where
  "step_view_of r = \<lparr>sw_action = op_action r, sw_phase = op_phase r, sw_attempt = op_attempt r,
     sw_probe = (if is_probe (op_action r) then op_resource r else None),
     sw_step = (if op_phase r = RETRY then op_resource r else None),
     sw_resource = (if \<not> is_probe (op_action r) \<and> op_phase r \<noteq> RETRY then op_resource r else None),
     sw_error = op_error r\<rparr>"

definition add_row :: "action \<Rightarrow> oprow \<Rightarrow> steps_view \<Rightarrow> steps_view" where
  "add_row a r v =
     (if op_phase r = START then v
      else let v' = (if op_action r = a \<and> is_end_phase (op_phase r)
                     then v\<lparr>jw_phase := op_phase r, jw_error := op_error r\<rparr> else v)
           in v'\<lparr>jw_steps := jw_steps v' @ [step_view_of r]\<rparr>)"

definition steps_of_job :: "action \<Rightarrow> oprow list \<Rightarrow> int \<Rightarrow> steps_view" where
  "steps_of_job a rows i = fold (add_row a) (filter (\<lambda>r. op_job r = Some i) rows)
     \<lparr>jw_job = i, jw_phase = START, jw_error = None, jw_steps = []\<rparr>"

definition get_job_steps :: "env \<Rightarrow> string \<Rightarrow> string \<Rightarrow> (int \<times> steps_view list) cmd" where
  "get_job_steps E name req = (case kind_named name of
     None \<Rightarrow> ret (404, [])
   | Some k \<Rightarrow>
       bnd (rd EvLogDb (x_log_db E) (\<lambda>s. started_jobs k (job_key k req) (oplog s))) (\<lambda>ids.
       bnd (if ids = [] then ret []
            else rd EvLogDb (x_log_db E)
              (\<lambda>s. sort_key op_id (filter (\<lambda>r. op_job r \<in> Some ` set ids) (oplog s)))) (\<lambda>rows.
       ret (200, map (steps_of_job (job_action k) rows) ids))))"

section \<open>Deleting a Pod without a request\<close>

definition delete_steps :: "env \<Rightarrow> unit cmd" where
  "delete_steps E = thn (step_delete_services E) (thn (step_release_nodeports E) (thn (step_delete_pod_k8s E)
     (thn (step_remove_node_image E) (step_cleanup_pod_node_krb5 E))))"

text \<open>The argument \<open>stamp\<close> is the local time as \<open>strftime\<close> writes it.\<close>

definition delete_pod :: "env \<Rightarrow> string \<Rightarrow> scalar \<Rightarrow> scalar \<Rightarrow> (answer \<times> bool) cmd" where
  "delete_pod E stamp pod_arg req_arg = (case delete_pod_request pod_arg req_arg of
     Inl _ \<Rightarrow> ret (refused_with 400 ''INVALID_REQUEST'', False)
   | Inr (pod, given) \<Rightarrow>
       let user = pod_username pod;
           req = (if some_text given then text_of given else user @ ''-DELETE-'' @ stamp)
       in with_ctx ((blank_ctx req user)\<lparr>c_pod_name := Some pod\<rparr>)
            (tryE (thn (delete_steps E) (bnd (getC c_already_absent) (\<lambda>absent.
                     ret (\<lparr>an_status = 200, an_error = None, an_job = None\<rparr>, absent))))
                  (\<lambda>e. case e of
                     StepFailed f c \<Rightarrow> ret (refused_with (f_status f) (f_error f), False)
                   | _ \<Rightarrow> ret (refused_with 500 ''DELETE_POD_FAILED'', False))))"

end
