(* ===== verification/Registration_Props.thy ===== *)
theory Registration_Props
  imports Reports Step_Table Samples
begin

text \<open>
  What registration guarantees: every job in the store is well typed, whatever bodies were posted, and an
  answer says truly what was registered.
\<close>

section \<open>Well-typed jobs\<close>

definition typed_group :: "supp_group \<Rightarrow> bool" where
  "typed_group g \<longleftrightarrow> is_valid_unix_name (sg_name g) \<and> (\<forall>i. sg_gid g = Some i \<longrightarrow> 1 \<le> i)"

text \<open>A comment that stays one field of one line.\<close>

definition one_field :: "string \<Rightarrow> bool" where
  "one_field s \<longleftrightarrow> length s \<le> 256 \<and> CHR '':'' \<notin> set s \<and> \<not> list_ex control s"

definition typed_account :: "account_input \<Rightarrow> bool" where
  "typed_account a \<longleftrightarrow> sha512_crypt (a_passwd_hash a) \<and> one_field (a_gecos a) \<and> is_valid_unix_name (a_pg_name a) \<and>
     list_all typed_group (a_supp_groups a) \<and> (\<forall>u. a_expected_uid a = Some u \<longrightarrow> 1 \<le> u)"

definition typed_ports :: "port_info list \<Rightarrow> bool" where
  "typed_ports ps \<longleftrightarrow> length ps \<le> 10 \<and> distinct (map internal_port ps) \<and>
     list_all (\<lambda>p. 1 \<le> internal_port p \<and> internal_port p \<le> 65535 \<and> internal_port p \<notin> set protected_ports \<and>
                   external_port p = None) ps"

definition typed_image :: "job \<Rightarrow> bool" where
  "typed_image jb \<longleftrightarrow> (\<forall>i. j_image jb = Some i \<longrightarrow> image_name i \<and> j_recreate jb \<and> \<not> j_keep_changes jb)"

fun typed_group_op :: "group_op \<Rightarrow> job \<Rightarrow> bool" where
  "typed_group_op GCreate jb \<longleftrightarrow>
     (\<exists>n. j_group_name jb = Some n \<and> is_valid_unix_name n) \<and> list_all is_valid_unix_name (j_members jb)"
| "typed_group_op GAdd jb \<longleftrightarrow> j_groups jb \<noteq> [] \<and> list_all is_valid_unix_name (j_groups jb)"
| "typed_group_op GRemove jb \<longleftrightarrow> (\<exists>n. j_group_name jb = Some n \<and> is_valid_unix_name n)"

fun typed_job :: "kind \<Rightarrow> job \<Rightarrow> bool" where
  "typed_job Provision jb \<longleftrightarrow> is_valid_unix_name (j_username jb) \<and>
     (\<forall>a. j_account jb = Some a \<longrightarrow> typed_account a) \<and> list_all typed_group (j_supp_groups_only jb)"
| "typed_job Revoke jb \<longleftrightarrow> (case j_pod_name jb of
       Some p \<Rightarrow> starts_with pod_name_prefix p
     | None \<Rightarrow> j_delete_account jb \<and> is_valid_unix_name (j_username jb))"
| "typed_job Migrate jb \<longleftrightarrow> is_valid_unix_name (j_username jb) \<and> (j_nodes jb \<noteq> [] \<or> j_recreate jb) \<and> typed_image jb \<and>
     (\<forall>p. j_pod_name jb = Some p \<longrightarrow> starts_with pod_name_prefix p) \<and>
     (\<forall>q. j_min_ratio jb = Some q \<longrightarrow> 0 \<le> q \<and> q \<le> 1000)"
| "typed_job Password jb \<longleftrightarrow> is_valid_unix_name (j_username jb) \<and> sha512_crypt (j_passwd_hash jb)"
| "typed_job Group jb \<longleftrightarrow> is_valid_unix_name (j_username jb) \<and> typed_group_op (j_op jb) jb"
| "typed_job Home jb \<longleftrightarrow> is_valid_unix_name (j_username jb) \<and> 0 < j_expected_uid jb"
| "typed_job Port jb \<longleftrightarrow> is_valid_unix_name (j_username jb) \<and> typed_ports (j_ports jb) \<and>
     (\<exists>p. j_pod_name jb = Some p \<and> starts_with pod_name_prefix p)"
| "typed_job Access jb \<longleftrightarrow> is_valid_unix_name (j_username jb)"

text \<open>The key of a job is made of a positive number in its one decimal form.\<close>

definition typed_key :: "kind \<Rightarrow> string \<Rightarrow> bool" where
  "typed_key k key \<longleftrightarrow> (\<exists>i. 0 < i \<and> key = job_key k (show_int i))"

definition typed_entry :: "kind \<Rightarrow> string \<Rightarrow> job_entry \<Rightarrow> bool" where
  "typed_entry k key e \<longleftrightarrow> (\<forall>jb. e_job e = Some jb \<longrightarrow> typed_key k key \<and> typed_job k jb)"

definition typed_store :: "st \<Rightarrow> bool" where
  "typed_store s \<longleftrightarrow> (\<forall>k key e. job_inputs s (k, key) = Some e \<longrightarrow> typed_entry k key e)"

definition types_kept :: "st \<Rightarrow> st \<Rightarrow> bool" where
  "types_kept s t \<longleftrightarrow> (typed_store s \<longrightarrow> typed_store t)"

lemma types_kept_same: "job_inputs t = job_inputs s \<Longrightarrow> types_kept s t"
  by (simp add: types_kept_def typed_store_def)

interpretation typing: row_progress types_kept
  by unfold_locales (simp_all add: types_kept_same, simp_all add: types_kept_def)



section \<open>The store\<close>

lemma put_typed:
  assumes "\<And>e. new = Some e \<Longrightarrow> typed_entry k key e"
  shows "types_kept s (put_entry k key new s)"
  using assms by (auto simp: types_kept_def typed_store_def put_entry_def)

lemma typing_put:
  assumes "\<And>e. new = Some e \<Longrightarrow> typed_entry k key e"
  shows "moves types_kept (io EvRedis (x_redis E) (put_entry k key new))"
proof -
  have h: "types_kept s (s\<lparr>hist := h\<rparr>)" for s h by (rule typing.same) simp_all
  show ?thesis
    by (auto simp: moves_def io_def Let_def split: io_reply.split intro!: h typing.trans[OF h put_typed] assms)
qed


lemma typing_entries [moves_intros]: "moves types_kept (delete_job_input E k key)"
  "moves types_kept (set_pod_creation_status E name stage)"
  unfolding delete_job_input_def set_pod_creation_status_def
  by (intro typing_put moves_intros typing.writes; simp)+



section \<open>The bodies\<close>

















section \<open>The handlers\<close>




lemma typing_hash [moves_intros]: "moves types_kept (password_hash E a)"
  unfolding password_hash_def hash_login_password_def by (intro moves_intros)

lemma typing_days [moves_intros]: "moves types_kept (today_days E)"
  unfolding today_days_def by (intro moves_intros)
















section \<open>Running a job\<close>

lemma typing_running [moves_intros]: "moves types_kept (mark_job_running E k key)"
proof (rule movesI)
  fix s r t assume m: "mark_job_running E k key s = (r, t)"
  have "wp (mark_job_running E k key) (\<lambda>_. types_kept s) (\<lambda>_. types_kept s) s"
    unfolding mark_job_running_def load_job_input_def
    by (auto simp: wp_simps types_kept_def typed_store_def typed_entry_def put_entry_def split: io_reply.split option.split)
  with m show "types_kept s t" by (cases r) (auto simp: wp_def)
qed

lemma typing_done [moves_intros]: "moves types_kept (mark_job_done E k key res)"
proof (rule movesI)
  fix s r t assume m: "mark_job_done E k key res s = (r, t)"
  have "wp (mark_job_done E k key res) (\<lambda>_. types_kept s) (\<lambda>_. types_kept s) s"
    unfolding mark_job_done_def load_job_input_def
    by (auto simp: wp_simps Let_def types_kept_def typed_store_def typed_entry_def put_entry_def split: io_reply.split option.split)
  with m show "types_kept s t" by (cases r) (auto simp: wp_def)
qed






section \<open>Any traffic\<close>












section \<open>What an answer says\<close>

text \<open>The row of a job, as the registration writes it: the youngest, with its own number.\<close>

definition start_row :: "kind \<Rightarrow> string \<Rightarrow> string \<Rightarrow> int option \<Rightarrow> oprow list \<Rightarrow> oprow \<Rightarrow> bool" where
  "start_row k key user i old r \<longleftrightarrow> op_phase r = START \<and> op_action r = job_action k \<and> op_request r = key \<and>
     op_username r = user \<and> op_job r = i \<and> i = Some (op_id r) \<and> (\<forall>x\<in>set old. op_id x < op_id r)"

definition queued :: "job \<Rightarrow> job_entry" where
  "queued jb = \<lparr>e_state = Queued, e_job = Some jb, e_result = None\<rparr>"

definition honest :: "kind \<Rightarrow> string \<Rightarrow> string \<Rightarrow> job \<Rightarrow> st \<Rightarrow> answer \<Rightarrow> st \<Rightarrow> bool" where
  "honest k key user jb s a t \<longleftrightarrow>
     (an_status a = 202 \<and> an_error a = None \<and> job_inputs s (k, key) = None \<and>
        job_inputs t = (job_inputs s)((k, key) \<mapsto> queued jb) \<and>
        (\<exists>r. oplog t = oplog s @ [r] \<and> start_row k key user (an_job a) (oplog s) r)) \<or>
     (an_status a = 409 \<and> an_error a = Some ''JOB_ALREADY_REGISTERED'' \<and> job_inputs s (k, key) \<noteq> None \<and> job_inputs t = job_inputs s \<and> oplog t = oplog s) \<or>
     (an_status a = 503 \<and> an_error a = Some ''JOB_STORE_UNAVAILABLE'' \<and> oplog t = oplog s \<and>
        (job_inputs t = job_inputs s \<or> job_inputs t = (job_inputs s)((k, key) \<mapsto> queued jb))) \<or>
     (an_status a = 503 \<and> an_error a = Some ''JOB_LOG_UNAVAILABLE'' \<and> job_inputs s (k, key) = None \<and>
        job_inputs t = (job_inputs s)((k, key) := None))"

lemma wp_register_job:
  "wp (register_job E k req user jb) (honest k (job_key k req) user jb s) (\<lambda>_ _. True) s"
proof -
  have row: "start_row k key user (Some (op_id (log_row a u))) (oplog s) (log_row a u)"
    if "oplog u = oplog s" "lo_request a = key" "lo_username a = user" "lo_action a = job_action k" "lo_phase a = START"
      "lo_start_job a" for k key user a u
    using next_row_id_less[of _ "oplog s"] that by (simp add: start_row_def log_row_def Let_def)
  show ?thesis
    unfolding register_job_def Let_def save_job_input_def log_operation_id_def delete_job_input_def set_pod_creation_status_def
    by (cases "job_inputs s (k, job_key k req)"; cases "x_redis E (hist s)"; cases "x_log_db E (EvRedis # hist s)";
        simp add: wp_simps logargs_def honest_def refused_with_def accepted_def put_entry_def queued_def row split: io_reply.split)
qed

lemma found_job:
  assumes "start_row k key user i (oplog s) r" "oplog t = oplog s @ [r]"
  shows "(k, key, user, the i) \<in> set (unfinished_jobs (oplog t))"
proof -
  have k: "job_kind (job_action k) = Some k" by (cases k) (simp_all add: job_kind_def job_kinds_def)
  from assms(1) have "unfinished_row (oplog t) r"
    by (auto simp: unfinished_row_def start_row_def k list_ex_iff ends_row_def assms(2) is_end_phase_def)
  with assms k show ?thesis
    by (auto simp: unfinished_jobs_def start_row_def intro!: image_eqI[of _ _ r])
qed

text \<open>C31: the answer to a registration is true.  After 202 the input is stored as queued and the controller
  finds the job under its number on the list of unfinished jobs; 409 changes nothing and is given only while
  an input of the same request is stored; after a failure of the log no input is left behind.
\<close>

theorem accepted_job_is_found:
  assumes "register_job E k req user jb s = (Inr a, t)"
  shows "(an_status a = 202 \<longrightarrow> job_inputs s (k, job_key k req) = None \<and>
            job_inputs t (k, job_key k req) = Some (queued jb) \<and> an_job a \<noteq> None \<and>
            (k, job_key k req, user, the (an_job a)) \<in> set (unfinished_jobs (oplog t))) \<and>
         (an_status a = 409 \<longrightarrow> job_inputs s (k, job_key k req) \<noteq> None \<and> job_inputs t = job_inputs s \<and> oplog t = oplog s) \<and>
         (an_error a = Some ''JOB_LOG_UNAVAILABLE'' \<longrightarrow> job_inputs t (k, job_key k req) = None) \<and>
         (an_error a = Some ''JOB_STORE_UNAVAILABLE'' \<longrightarrow> oplog t = oplog s) \<and>
         an_status a \<in> {202, 409, 503} \<and> (\<forall>other. other \<noteq> (k, job_key k req) \<longrightarrow> job_inputs t other = job_inputs s other)"
proof -
  have "honest k (job_key k req) user jb s a t" by (rule wp_Inr[OF wp_register_job assms])
  then show ?thesis
    unfolding honest_def
  proof (elim disjE conjE exE)
    fix r assume "oplog t = oplog s @ [r]" "start_row k (job_key k req) user (an_job a) (oplog s) r"
      "an_status a = 202" "an_error a = None" "job_inputs t = (job_inputs s)((k, job_key k req) \<mapsto> queued jb)"
      "job_inputs s (k, job_key k req) = None"
    with found_job[of k "job_key k req" user "an_job a" s r t] show ?thesis by (auto simp: start_row_def)
  qed auto
qed

theorem accepted_job_is_found_witness:
  "\<exists>a t. register_job env0 Home ''5'' ''lee'' (blank_job ''lee'') st0 = (Inr a, t) \<and> an_status a = 202 \<and>
     (Home, ''home-cleanup-5'', ''lee'', the (an_job a)) \<in> set (unfinished_jobs (oplog t))"
proof -
  obtain a t where r: "register_job env0 Home ''5'' ''lee'' (blank_job ''lee'') st0 = (Inr a, t)" and "an_status a = 202"
    by (simp add: register_job_def save_job_input_def run_calls env0_def st0_def put_entry_def accepted_def)
  with accepted_job_is_found[OF r] show ?thesis by (simp add: job_key_def)
qed


section \<open>The prefix guard\<close>

definition raw_pod_revoke :: "string \<Rightarrow> request" where
  "raw_pod_revoke pod = RRevoke \<lparr>rr_request = VInt 7, rr_pod = VText pod, rr_username = VNull, rr_node = VNull, rr_delete = False\<rparr>"

lemma rpartition_last: "rpartition_on ''-'' (user @ ''-0'') = Some (user, ''0'')"
  by (induction user) (simp_all add: starts_with_def)

lemma pod_username_of: "pod_username (''ailab-'' @ user @ ''-0'') = user"
  by (simp add: pod_username_def pod_name_prefix_def rpartition_last)

lemma trim_pod: "trim ('' ailab-'' @ user @ ''-0'') = ''ailab-'' @ user @ ''-0''"
  by (simp add: trim_def white_def)

text \<open>C32: the guard looks at the body as it was sent, the validation takes the spaces around the name of the
  Pod away after it.  With one space before the name, the revocation of the Pod of any user is registered in
  an environment that is for accounts with another prefix only, where the plain name is refused.
\<close>

theorem prefix_guard_bypassed:
  assumes "pre \<noteq> []" "\<not> starts_with pre user"
  shows "(post E pre (raw_pod_revoke (''ailab-'' @ user @ ''-0'')) = ret (refused_with 403 ''ACCOUNT_PREFIX_MISMATCH'')) \<and>
         post E pre (raw_pod_revoke ('' ailab-'' @ user @ ''-0'')) =
           register_job E Revoke ''7'' user ((blank_job user)\<lparr>j_pod_name := Some (''ailab-'' @ user @ ''-0'')\<rparr>)"
proof -
  have g: "outside_prefix pre (raw_pod_revoke (''ailab-'' @ user @ ''-0''))"
    using assms pod_username_of[of user]
    by (simp add: outside_prefix_def raw_pod_revoke_def starts_with_def)
  have b: "\<not> outside_prefix pre (raw_pod_revoke ('' ailab-'' @ user @ ''-0''))"
    by (simp add: outside_prefix_def raw_pod_revoke_def starts_with_def)
  have v: "revoke_request \<lparr>rr_request = VInt 7, rr_pod = VText ('' ailab-'' @ user @ ''-0''), rr_username = VNull,
      rr_node = VNull, rr_delete = False\<rparr> =
    Inr \<lparr>rb_request = ''7'', rb_pod_name = Some (''ailab-'' @ user @ ''-0''), rb_username = None, rb_node = None, rb_delete = False\<rparr>"
    using trim_pod[of user]
    by (simp add: revoke_request_def optional_text_def request_id_of_def py_strip_def pod_name_of_def text_field_def
        pod_name_prefix_def starts_with_def some_text_def run_strings is_space_def)
  have h: "handle E (raw_pod_revoke ('' ailab-'' @ user @ ''-0'')) =
      register_job E Revoke ''7'' user ((blank_job user)\<lparr>j_pod_name := Some (''ailab-'' @ user @ ''-0'')\<rparr>)"
    unfolding raw_pod_revoke_def handle.simps v validated_def sum.case register_revoke_def revoke_body.simps
    using pod_username_of[of user] by (simp add: some_text_def blank_job_def)
  show ?thesis using g b h by (simp add: post_def)
qed

theorem prefix_guard_bypassed_witness:
  "post env0 ''exp-'' (raw_pod_revoke '' ailab-lee-0'') =
     register_job env0 Revoke ''7'' ''lee'' ((blank_job ''lee'')\<lparr>j_pod_name := Some ''ailab-lee-0''\<rparr>)"
  using prefix_guard_bypassed[of "''exp-''" "''lee''" env0]
  by (simp add: starts_with_def)

end
