(* ===== verification/Revoke_Props.thy ===== *)
theory Revoke_Props
  imports Revoke_Facts Pod_Props
begin

text \<open>
  The properties of the revocation and of the images baked on a node, with their instances.
\<close>

section \<open>The account\<close>

text \<open>C16: when \<open>step_delete_account\<close> succeeds, no line of passwd and shadow and no member list of a
  group names the user, whichever of its two ways it took, and the ledger lock is free again; also
  after a failure the lock is free.  Other processes may change the ledger while the lock is free, as
  long as they keep root.\<close>

theorem delete_account_leaves_no_trace:
  assumes "lock_depth s = 0" "rooted (led s)" "rely_rooted E" "c_username (cx s) \<noteq> ''root''"
    and "step_delete_account E s = (r, t)"
  shows "lock_depth t = 0 \<and> (r = Inr () \<longrightarrow> no_trace (c_username (cx s)) (led t))"
  using wp_delete_account[OF assms(1-3) refl assms(4)] assms(5) by (cases r) (auto simp: wp_def)

definition st_revoke :: st where
  "st_revoke = st0\<lparr>cx := ctx0\<lparr>c_username := ''kim''\<rparr>\<rparr>"

lemma sample_revoke: "lock_depth st_revoke = 0" "rooted (led st_revoke)" "rely_rooted env0"
  "c_username (cx st_revoke) = ''kim''"
  by (simp_all add: st_revoke_def st0_def rooted_sample rely_rooted_def env0_def)

theorem delete_account_leaves_no_trace_witness:
  "lock_depth (state_of (step_delete_account env0) st_revoke) = 0"
proof -
  obtain r t where r: "step_delete_account env0 st_revoke = (r, t)" by fastforce
  from delete_account_leaves_no_trace[OF sample_revoke(1-3) _ r] r sample_revoke(4) show ?thesis by simp
qed

text \<open>C17: an account that is not in passwd is only counted as deleted on evidence: if
  \<open>step_delete_account\<close> succeeds although the ledger it found under its lock has no line of the user,
  then the job says that an absent account is its goal, and the operation log holds a deletion of this
  account that changed the files and is younger than its last creation.  An absent account is no
  evidence of itself.\<close>

theorem absent_needs_evidence:
  assumes "lock_depth s = 0" "rooted (led s)" "rely_rooted E" "c_username (cx s) = user" "user \<noteq> ''root''"
    and "step_delete_account E s = (Inr (), t)"
    and "\<not> has_named parse_passwd_line pw_name user (lines_of PasswdF (x_interfere E (EvLogDb # hist s) (led s)))"
  shows "c_account_absent_is_goal (cx s) \<and>
     (\<exists>r\<in>set (oplog s). deletes_account user (last_created user (oplog s)) r)"
  using wp_Inr[OF wp_delete_account[OF assms(1-5)] assms(6)] assms(7) evidence_in by blast

definition deleted_row :: oprow where
  "deleted_row = \<lparr>op_id = 7, op_job = None, op_request = [], op_username = ''kim'', op_pod = None, op_node = None,
     op_resource = Some ''account'', op_action = DELETE_ACCOUNT, op_phase = SUCCESS, op_attempt = 1,
     op_error = None, op_absent = False\<rparr>"

definition st_absent :: st where
  "st_absent = st_revoke\<lparr>oplog := [deleted_row], cx := (cx st_revoke)\<lparr>c_account_absent_is_goal := True\<rparr>\<rparr>"

lemmas run_delete = step_delete_account_def log_delete_account_def delete_account_locked_def delete_absent_account_def
  account_deletion_evidence_def query_deletion_evidence_def last_created_def deletes_account_def
  remove_account_leftovers_def touches_user_def leftover_group_def drop_named_def strip_group_line_def find_named_def entries_def

theorem absent_needs_evidence_witness:
  "\<exists>r\<in>set (oplog st_absent). deletes_account ''kim'' (last_created ''kim'' (oplog st_absent)) r"
proof -
  have r: "result_of (step_delete_account env0) st_absent = Inr ()"
    by (simp add: st_absent_def st_revoke_def deleted_row_def st0_def env0_def ctx0_def ledger0_def run_calls run_delete
        run_lines run_strings without_member_def)
  have "\<not> has_named parse_passwd_line pw_name ''kim'' (lines_of PasswdF (x_interfere env0 (EvLogDb # hist st_absent) (led st_absent)))"
    by (simp add: st_absent_def st_revoke_def st0_def env0_def ledger0_def lines_of_def run_lines run_strings)
  from absent_needs_evidence[OF _ _ _ _ _ prod_eqI[of "step_delete_account env0 st_absent" "(Inr (), state_of (step_delete_account env0) st_absent)"] this]
  show ?thesis using r sample_revoke by (simp add: st_absent_def)
qed

section \<open>Keytabs\<close>

text \<open>After a Pod was deleted, \<open>step_cleanup_pod_node_krb5\<close> sends a farm node nothing but the
  removal of this user's keytab, only to the node the Pod ran on, and only if the cluster just said
  that no other Pod of the user runs there.  A listing that fails removes nothing.\<close>

lemma keytab_kept_while_in_use:
  assumes "step_cleanup_pod_node_krb5 E s = (r, t)" "hist t = evs @ hist s" "EvFarmSsh n c \<in> set evs"
  shows "c = words [''remove'', c_username (cx s)] \<and> c_pod_node_name (cx s) = Some n \<and>
     (\<exists>pods. x_list_pods E (c_username (cx s)) (EvLoadK8s # hist s) = Inr pods \<and>
        others_on_node (c_pod_name (cx s)) n pods = [])"
proof -
  have "grew (careful E s) s t"
    using wp_cleanup_keytab[of E s] assms(1) by (cases r) (auto simp: wp_def)
  from grew_exact[OF this assms(2,3)] show ?thesis by (auto simp: careful_def unshared_def)
qed

definition st_cleanup :: st where
  "st_cleanup = st_revoke\<lparr>cx := (cx st_revoke)\<lparr>c_pod_name := Some ''ailab-kim-x'', c_pod_node_name := Some ''farm1'',
     c_already_absent := False\<rparr>\<rparr>"

definition env_revoke :: env where
  "env_revoke = env0\<lparr>cfg_realm := ''AILAB'', x_load_k8s := \<lambda>_. None, x_list_pods := \<lambda>_ _. Inr [],
     x_farm_ssh := \<lambda>_ _ _. Inr (0, []), x_db := \<lambda>_. IoOk,
     x_delete_secret := \<lambda>_ _. Inr ()\<rparr>"

text \<open>The deletion of a Pod that is already gone loses the node whose keytab is to be removed:
  \<open>step_delete_pod_k8s\<close> writes no node into the context, whatever an earlier attempt of the same job
  had found out, and marks the Pod absent; the cleanup step then asks nobody and records nothing.  So a
  deletion that timed out and finds the Pod gone when it is tried again leaves the keytab on the node.\<close>

lemma retried_deletion_forgets_node:
  assumes "c_pod_name (cx s) = Some pod" "\<And>h. x_load_k8s E h = None"
    and "\<And>h. x_read_pod E pod h = Inl (Exn (ApiException 404) None None False)"
    and "\<And>h. x_delete_pod E pod h = Inl (Exn (ApiException 404) None None False)"
    and "step_delete_pod_k8s E s = (r, t)"
  shows "r = Inr () \<and> c_pod_node_name (cx t) = None \<and> c_already_absent (cx t) \<and>
     step_cleanup_pod_node_krb5 E t = (Inr (), t)"
proof -
  have "wp (step_delete_pod_k8s E) (\<lambda>_ t. c_pod_node_name (cx t) = None \<and> c_already_absent (cx t)) (\<lambda>_ _. False) s"
    unfolding step_delete_pod_k8s_def load_k8s_def look_up_pod_def
    by (auto simp: wp_simps assms(1-4) log_on_def log_pod_def afterD intro!: wp_log_operation) (simp_all add: logargs_def)
  with assms(5) show ?thesis
    by (cases r) (auto simp: wp_def step_cleanup_pod_node_krb5_def run getC_def)
qed

definition gone :: "string \<Rightarrow> history \<Rightarrow> exn + 'a" where
  "gone pod h = Inl (Exn (ApiException 404) None None False)"

text \<open>When \<open>_remove_krb5_from_all_farms\<close>, the cleanup of a user without a known node, returns, each
  farm node took the removal of the keytab or the removal is recorded as pending for it, so the
  reconciliation will find it.  It never raises while the database answers.\<close>

lemma farm_cleanup_is_total:
  assumes "\<And>h. x_db E h = IoOk" and "remove_krb5_from_all_farms E user s = (r, t)"
  shows "r = Inr () \<and> (\<forall>node\<in>set (cfg_farm_nodes E). node_removed E user node t \<or> (user, node) \<in> set (krb5_pending t))"
  using wp_remove_all_farms[OF assms(1), of user s] assms(2)
  by (cases r) (auto simp: wp_def settled_def)

section \<open>Images\<close>

text \<open>C18: a running container is never left stopped in silence: when \<open>commit_image\<close> of a running
  container raises, the exception is \<open>IMAGE_LEFT_PAUSED\<close>, or the last request it sent is a thaw of this
  container that answered that it runs.  With bad arguments the helper is not asked at all.\<close>

theorem commit_never_leaves_paused:
  assumes "cfg_helper_configured E" "commit_image E node container ref True s = (Inl e, t)"
  shows "(container_id container = Inl e \<or> checked_ref ref = Inl e) \<and> t = s \<or>
     left_paused e \<or> (\<exists>i. container_id container = Inr i \<and> thawed E node i (hist t))"
proof (cases "container_id container")
  case (Inl e')
  with assms(2) show ?thesis by (simp add: commit_image_def run)
next
  case (Inr i)
  show ?thesis
  proof (cases "checked_ref ref")
    case (Inl e')
    with Inr assms(2) show ?thesis by (simp add: commit_image_def run)
  next
    case r: (Inr ref')
    have "checked_ref ref = Inr ref" using r by (simp add: checked_ref_def Let_def split: if_splits)
    from wp_Inl[OF wp_commit_running[OF assms(1) Inr this] assms(2)] Inr show ?thesis by blast
  qed
qed

definition id64 :: string where
  "id64 = replicate 64 CHR ''a''"

text \<open>A node whose commit fails and whose thaw says that the container runs again.\<close>

definition commit_fails :: "string \<Rightarrow> string \<Rightarrow> history \<Rightarrow> exn + (string + int)" where
  "commit_fails node args h = (if h = [] then Inr (Inl []) else Inr (Inr 0))"

definition env_image :: env where
  "env_image = env0\<lparr>cfg_helper_configured := True, x_helper := commit_fails\<rparr>"

lemma container_id64: "container_id (Some id64) = Inr id64"
  by (simp add: container_id_def id64_def Let_def strip_final_nl_def list_all_iff hex_char_def eval_nat_numeral)

definition ref1 :: string where
  "ref1 = ''ailab.local/user-image/ailab:kim-1''"

lemma checked_ref1: "checked_ref ref1 = Inr ref1"
  by (simp add: checked_ref_def ref1_def Let_def repository_def starts_with_def strip_final_nl_def ref_part_def
      alnum_def is_digit_def lower_letter_def)

theorem commit_never_leaves_paused_witness:
  "\<exists>e t. commit_image env_image ''farm1'' (Some id64) ref1 True st0 = (Inl e, t) \<and>
     (left_paused e \<or> (\<exists>i. thawed env_image ''farm1'' i (hist t)))"
proof -
  let ?r = "commit_image env_image ''farm1'' (Some id64) ref1 True st0"
  have c: "cfg_helper_configured env_image" by (simp add: env_image_def)
  have "x_helper env_image ''farm1'' a [] = Inr (Inl [])" for a
    by (simp add: env_image_def commit_fails_def)
  then obtain e t where e: "?r = (Inl e, t)"
    by (cases "fst ?r") (auto simp: commit_image_def container_id64 checked_ref1 run_helper_def c run ext_def st0_def whenE_def
        split: prod.splits sum.splits)
  from commit_never_leaves_paused[OF c e] e container_id64 checked_ref1 show ?thesis by auto
qed

end
