(* ===== verification/Resume_Facts.thy ===== *)
theory Resume_Facts
  imports Job_Facts
begin

text \<open>
  A job that is taken over does not run again what was recorded as done: as long as no step asks to
  start over from an earlier one, the loop does not depend on the functions of the recorded steps.
\<close>

text \<open>An exception that asks for no rewind.\<close>

definition straight :: "exn \<Rightarrow> bool" where
  "straight e \<longleftrightarrow> \<not> is_rewind e \<and> restart_of e = None"

lemma straight_after_failure:
  assumes "straight err" "raises (\<lambda>e. \<not> is_rewind e) again"
  shows "raises (\<lambda>e. \<not> is_rewind e) (after_failure E P J stp n final err again)"
proof -
  have o: "raises (\<lambda>e. \<not> is_rewind e) (observed P stp err)"
    unfolding observed_def by (auto simp: raises_def run split: option.splits prod.splits sum.splits if_splits)
  show ?thesis
    unfolding after_failure_def using assms(1)
    by (auto simp: straight_def intro!: raises_intros o raises_retry assms(2))
qed

lemma straight_run_once:
  assumes "raises straight (pl_exec P c stp)"
  shows "raises straight (run_once E P c user stp n)"
proof -
  have a: "raises Q (armed E user stp b c)" "raises Q (mark_fired E i)" for Q b c i
    unfolding armed_def mark_fired_def
    by (auto simp: raises_def run split: option.splits prod.splits sum.splits if_splits)
  show ?thesis
    unfolding run_once_def with_attempt_def
    by (intro raises_intros assms a) (simp_all add: raised_def raised_from_def straight_def)
qed

lemma straight_execute:
  assumes "raises straight (pl_exec P c stp)"
  shows "raises (\<lambda>e. \<not> is_rewind e) (execute_step E P J c stp)"
proof -
  have "raises (\<lambda>e. \<not> is_rewind e) (attempts E P J c stp m k)" for m k
  proof (induction k)
    case (Suc k)
    show ?case
      unfolding attempts.simps
      by (intro raises_thn raises_pre_step raises_attempt_bnd[OF straight_run_once[OF assms]])
        (auto intro: raises_basic straight_after_failure[OF _ Suc])
  qed (simp add: raises_basic)
  then show ?thesis by (simp add: execute_step_def)
qed

lemma straight_judge: "resume_judge E stp = Some j \<Longrightarrow> raises (\<lambda>e. \<not> is_rewind e) j"
proof (cases stp)
  case CreateAccount
  have d: "raises (\<lambda>e. \<not> is_rewind e) (tryE m (\<lambda>e. if is_degraded e then throw e else throw (StepDegraded CreateAccount r e True)))"
    for r and m :: "passwd_entry option cmd"
    by (intro raises_tryE[where P="\<lambda>_. True"]) (auto simp: raises_def run elim: is_degraded.elims)
  assume "resume_judge E stp = Some j"
  with CreateAccount show ?thesis
    unfolding judge_interrupted_account_def
    by (auto simp: judge_interrupted_account_def needC_def raised_def intro!: raises_intros d raises_log_account)
qed simp_all

lemma straight_round:
  assumes "\<And>c stp. raises straight (ex c stp)"
  shows "raises (\<lambda>e. \<not> is_rewind e) (round_of E (job_plant E ex) J d stp)"
proof -
  have "raises (\<lambda>e. \<not> is_rewind e) (judged E (job_plant E ex) stp)"
    using straight_judge by (auto simp: judged_def job_plant_def intro!: raises_intros split: option.split)
  then show ?thesis
    unfolding round_of_def by (intro raises_intros straight_execute) (simp_all add: job_plant_def assms)
qed

section \<open>Two plants that differ on recorded steps\<close>

text \<open>The steps that \<open>d\<close> takes off the work of the loop.\<close>

definition left_out :: "step list \<Rightarrow> step \<Rightarrow> bool" where
  "left_out d stp \<longleftrightarrow> stp \<notin> set always_rerun \<and> already_done stp d"

lemma left_out_mono: "set d \<subseteq> set d' \<Longrightarrow> left_out d stp \<Longrightarrow> left_out d' stp"
  by (auto simp: left_out_def already_done_def split: option.splits)

lemma same_step:
  assumes "\<And>c. ex c stp = ex' c stp"
  shows "execute_step E (job_plant E ex) J c stp = execute_step E (job_plant E ex') J c stp"
proof -
  have e: "pl_exec (job_plant E ex) c stp = pl_exec (job_plant E ex') c stp" for c
    by (simp add: job_plant_def assms)
  have o: "run_once E (job_plant E ex) c user stp n = run_once E (job_plant E ex') c user stp n" for user n
    unfolding run_once_def e ..
  have p: "pre_step (job_plant E ex) stp = pre_step (job_plant E ex') stp"
    "observed (job_plant E ex) stp err = observed (job_plant E ex') stp err" for err
    by (simp_all add: pre_step_def observed_def job_plant_def)
  have f: "after_failure E (job_plant E ex) J stp n b err again = after_failure E (job_plant E ex') J stp n b err again"
    for n b err again
    unfolding after_failure_def p ..
  have "attempts E (job_plant E ex) J c stp m k = attempts E (job_plant E ex') J c stp m k" for m k
  proof (induction k)
    case (Suc k)
    show ?case unfolding attempts.simps p o f Suc ..
  qed simp
  then show ?thesis by (simp add: execute_step_def)
qed

lemma same_round:
  assumes "\<And>c stp. \<not> left_out d stp \<Longrightarrow> ex c stp = ex' c stp"
  shows "round_of E (job_plant E ex) J d stp = round_of E (job_plant E ex') J d stp"
proof (cases "left_out d stp")
  case True
  then show ?thesis by (simp add: round_of_def left_out_def)
next
  case False
  have j: "judged E (job_plant E ex) stp = judged E (job_plant E ex') stp"
    by (simp add: judged_def job_plant_def)
  have x: "execute_step E (job_plant E ex) J c stp = execute_step E (job_plant E ex') J c stp" for c
    by (rule same_step) (use assms False in blast)
  show ?thesis unfolding round_of_def j x ..
qed

lemma same_loop:
  assumes "\<And>c stp. \<not> left_out d\<^sub>0 stp \<Longrightarrow> ex c stp = ex' c stp" "\<And>c stp. raises straight (ex c stp)"
    and "set d\<^sub>0 \<subseteq> set d"
  shows "steps_loop E (job_plant E ex) J steps i rw d = steps_loop E (job_plant E ex') J steps i rw d"
  using assms(3)
proof (induction "length steps - i" arbitrary: i d rule: less_induct)
  case less
  show ?case
  proof (cases "length steps \<le> i")
    case True
    then show ?thesis by (simp add: steps_loop.simps[of E _ J steps i])
  next
    case False
    then have i: "i < length steps" by simp
    have r: "round_of E (job_plant E ex) J d (steps ! i) = round_of E (job_plant E ex') J d (steps ! i)"
      by (rule same_round) (use assms(1) left_out_mono[OF less.prems] in blast)
    have IH: "steps_loop E (job_plant E ex) J steps (Suc i) rw d' = steps_loop E (job_plant E ex') J steps (Suc i) rw d'"
      if "set d\<^sub>0 \<subseteq> set d'" for d'
      by (rule less.hyps) (use i that in auto)
    have IH': "steps_loop E (job_plant E ex) J steps (Suc i) rw (d @ [steps ! i]) =
        steps_loop E (job_plant E ex') J steps (Suc i) rw (d @ [steps ! i])"
      by (rule IH) (use less.prems in auto)
    show ?thesis
    proof
      fix s
      have nr: "\<not> is_rewind e" if "round_of E (job_plant E ex') J d (steps ! i) s = (Inl e, t)" for e t
        using raisesD[OF straight_round[OF assms(2)] that[folded r]] .
      show "steps_loop E (job_plant E ex) J steps i rw d s = steps_loop E (job_plant E ex') J steps i rw d s"
        unfolding steps_loop.simps[of E _ J steps i] r
        using False nr IH[OF less.prems] IH'
        by (auto simp: run getC_def split: prod.split sum.split exn.split)
    qed
  qed
qed

end
