(* ===== verification/Run_Props.thy ===== *)
theory Run_Props
  imports Resume_Facts Step_Table Samples
begin

text \<open>
  The properties of running a whole job, with their instances.
\<close>

section \<open>The stored input\<close>

lemma appends_accounted: "moves appends m \<Longrightarrow> moves (accounted k req) m"
  by (erule moves_mono) (auto simp: appends_def accounted_def)

text \<open>C19: a job never vanishes.  When \<open>run_job\<close> leaves the Redis entry of the job deleted, on whatever
  path and however it ended, it has written a row that ends the job, younger than every row before; so
  the job is off the list of unfinished jobs and its outcome is on record.\<close>

theorem input_accounted:
  assumes "job_inputs s (ji_kind J, ji_request J) = Some e" "ended_well e"
    and "run_job E (step_exec E) J s = (r, t)" "job_inputs t (ji_kind J, ji_request J) = None"
  shows "(\<exists>row\<in>set (oplog t). op_request row = ji_request J \<and> op_action row = job_action (ji_kind J) \<and>
       is_end_phase (op_phase row) \<and> (\<forall>old\<in>set (oplog s). op_id old < op_id row)) \<and>
     (\<forall>row\<in>set (oplog s). op_request row = ji_request J \<and> op_action row = job_action (ji_kind J) \<longrightarrow>
        \<not> unfinished_row (oplog t) row)"
proof -
  have ex: "moves (accounted (ji_kind J) (ji_request J)) (step_exec E (checkpoint E J d) stp)" for d stp
    by (rule appends_accounted[OF appends_exec])
  have "wp (run_job E (step_exec E) J) (\<lambda>_. accounted (ji_kind J) (ji_request J) s) (\<lambda>_. accounted (ji_kind J) (ji_request J) s) s"
    by (rule wp_run_job) (use assms(1,2) ex in auto)
  then have "accounted (ji_kind J) (ji_request J) s t" using assms(3) by (cases r) (auto simp: wp_def)
  with assms(1,4) obtain x where "x \<in> set (oplog t)" "op_request x = ji_request J"
    "op_action x = job_action (ji_kind J)" "is_end_phase (op_phase x)" "\<forall>y\<in>set (oplog s). op_id y < op_id x"
    by (simp add: accounted_def) (metis UnCI set_append)
  then show ?thesis by (auto simp: unfinished_row_def ends_row_def list_ex_iff)
qed

definition jb0 :: job where
  "jb0 = \<lparr>j_username = ''lee'', j_account = None, j_supp_groups_only = [], j_pod_name = None, j_node_name = None,
     j_delete_account = False, j_passwd_hash = [], j_op = GCreate, j_group_name = None, j_gid = None, j_members = [],
     j_groups = [], j_expected_uid = 0, j_ports = [], j_blocked = False, j_access_blocked = False, j_decided_at = 0,
     j_nodes = [], j_min_ratio = None, j_force = False, j_recreate = False, j_keep_changes = False, j_image = None\<rparr>"

definition J0 :: jobinfo where
  "J0 = \<lparr>ji_kind = Revoke, ji_request = ''42'', ji_user = ''lee'', ji_job = None\<rparr>"

definition e0 :: job_entry where
  "e0 = \<lparr>e_state = Queued, e_job = Some jb0, e_result = None\<rparr>"

definition st_job :: st where
  "st_job = st0\<lparr>job_inputs := [(Revoke, ''42'') \<mapsto> e0]\<rparr>"

lemma steps_none: "steps_loop E P J [] 0 0 [] = ret (None, [])"
  by (simp add: steps_loop.simps)

theorem input_accounted_witness:
  "\<exists>r t. run_job env0 (step_exec env0) J0 st_job = (r, t) \<and> job_inputs t (Revoke, ''42'') = None \<and>
     (\<exists>row\<in>set (oplog t). op_request row = ''42'' \<and> is_end_phase (op_phase row))"
proof -
  obtain r t where r: "run_job env0 (step_exec env0) J0 st_job = (r, t)" by fastforce
  have "job_inputs t (Revoke, ''42'') = None"
    using r by (simp add: run_job_def run_job_body_def J0_def load_job_input_def st_job_def st0_def run_stored_def e0_def
        mark_job_running_def run_steps_def job_steps_def revoke_steps_def jb0_def some_text_def steps_none
        put_entry_def finish_job_def close_progress_def fill_ids_def save_job_result_def record_job_result_def
        delete_job_input_def release_lease_def end_args_def env0_def is_full_def run_calls
        split: prod.splits) (auto simp: run)
  moreover have "job_inputs st_job (ji_kind J0, ji_request J0) = Some e0" "ended_well e0" "oplog st_job = []"
    by (simp_all add: st_job_def J0_def e0_def ended_well_def st0_def)
  ultimately show ?thesis
    using input_accounted[of st_job J0 e0 env0 r t] r by (auto simp: J0_def)
qed

section \<open>An interrupted account step\<close>

text \<open>C20: an interrupted account step is judged by what it wrote and never by what others wrote.  With
  a write mark in the context, \<open>_judge_interrupted_account\<close> says that the step is done only if the
  first passwd line of the name has the number of the mark and the primary group, every membership, the
  shadow line and the sudoers file are there, and then it changes no file.  It takes back an account
  only if its line has the number of the mark, and then nothing names the user any more; an account
  with another number is not touched.  If the ledger cannot be read the verdict is a degradation.\<close>

theorem interrupted_account_judged:
  assumes "lock_depth s = 0" "rooted (led s)" "rely_rooted E" "name \<noteq> ''root''"
    and "c_account_write_started (cx s) = Some m" "c_name (cx s) = Some name"
    and "judge_interrupted_account E s = (r, t)"
  shows "lock_depth t = 0 \<and> (let L = x_interfere E (hist s) (led s) in case r of
       Inl e \<Rightarrow> is_degraded e
     | Inr True \<Rightarrow> led t = L \<and> (\<exists>p. named_entry name L = Some p \<and> pw_uid p = m \<and> all_parts E (cx s) name p L \<and>
         c_uid (cx t) = Some m \<and> c_gid (cx t) = Some (pw_gid p))
     | Inr False \<Rightarrow> if own_entry name m L then no_trace name (led t) \<and> c_uid (cx t) = Some m else led t = L)"
  using wp_judge[OF assms(1-6)] assms(7)
  by (cases r) (auto simp: wp_def Let_def verdict_def split: if_splits bool.split)

definition kim_lines :: ledger where
  "kim_lines = ledger0\<lparr>passwd_file := passwd_file ledger0 @ ''kim:x:10001:10001::/home/kim:/bin/bash'' @ [NL]\<rparr>"

definition st_marked :: st where
  "st_marked = st0\<lparr>led := kim_lines, cx := ctx0\<lparr>c_account_write_started := Some 10002\<rparr>\<rparr>"

theorem interrupted_account_judged_witness:
  "led (state_of (judge_interrupted_account env0) st_marked) = kim_lines \<or>
   (\<exists>e. result_of (judge_interrupted_account env0) st_marked = Inl e)"
proof -
  obtain r t where r: "judge_interrupted_account env0 st_marked = (r, t)" by fastforce
  have root: "rooted kim_lines"
    by (simp add: rooted_def seeded_iff kim_lines_def ledger0_def lines_of_def run_lines run_strings)
  have "named_entry ''kim'' kim_lines = Some \<lparr>pw_name = ''kim'', pw_passwd = ''x'', pw_uid = 10001, pw_gid = 10001,
      pw_gecos = [], pw_home = ''/home/kim'', pw_shell = ''/bin/bash''\<rparr>"
    by (simp add: named_entry_def find_named_def kim_lines_def ledger0_def lines_of_def run_lines run_strings entries_def)
  then have own: "\<not> own_entry ''kim'' 10002 kim_lines" by (simp add: own_entry_def)
  have s: "lock_depth st_marked = 0" "led st_marked = kim_lines" "c_account_write_started (cx st_marked) = Some 10002"
    "c_name (cx st_marked) = Some ''kim''" "x_interfere env0 h L = L" "rely_rooted env0" for h L
    by (simp_all add: st_marked_def st0_def ctx0_def env0_def rely_rooted_def)
  have "lock_depth t = 0 \<and> (case r of Inl e \<Rightarrow> is_degraded e | Inr True \<Rightarrow> led t = kim_lines
     | Inr False \<Rightarrow> led t = kim_lines)"
    using interrupted_account_judged[OF s(1) _ s(6) _ s(3,4) r] own root
    by (auto simp: s(2,5) Let_def split: sum.splits bool.splits)
  then show ?thesis using r by (cases r) (auto split: bool.splits)
qed

section \<open>Compensation\<close>

text \<open>C21: the account of a failed creation is only taken back when it was this job that made it and
  nobody uses it: unless the job is a creation, its principal was recorded as made, the node is known
  (where Kerberos is configured) and the cluster just said that the user has no Pod but the one of
  this job, \<open>_compensate_provision\<close> changes nothing and sends nothing but its two questions.  It never
  raises, so the end of the job is always recorded.\<close>

theorem compensation_guarded:
  assumes "compensate_provision E k jb c dn s = (r, t)"
  shows "(\<exists>o'. r = Inr o') \<and> (undo_allowed E k jb c dn (hist s) \<or>
     (\<exists>evs. t = s\<lparr>hist := evs @ hist s\<rparr> \<and> set evs \<subseteq> {EvLoadK8s, EvListPods (j_username jb)}))"
proof -
  have "\<exists>o'. r = Inr o'" using raisesD[OF comp_never_raises] assms by (cases r) blast+
  moreover have "only_looked (j_username jb) s t" if "\<not> undo_allowed E k jb c dn (hist s)"
    using comp_guarded[OF that] assms by (cases r) (auto simp: wp_def)
  moreover have "\<exists>evs. t = s\<lparr>hist := evs @ hist s\<rparr> \<and> set evs \<subseteq> {EvLoadK8s, EvListPods (j_username jb)}"
    if "only_looked (j_username jb) s t"
    using that by (auto simp: only_looked_def asked_only_def grew_def)
  ultimately show ?thesis by blast
qed

text \<open>Another Pod of the user is there: the account stays.\<close>

definition other_pod :: pod_view where
  "other_pod = \<lparr>pv_name = ''ailab-lee-2'', pv_phase = ''Running'', pv_reason = None, pv_ready = True, pv_node = ''farm1'',
     pv_deleting = False, pv_images = [], pv_statuses = []\<rparr>"

definition env_used :: env where
  "env_used = env0\<lparr>x_list_pods := \<lambda>_ _. Inr [other_pod]\<rparr>"

theorem compensation_guarded_witness:
  "led (state_of (compensate_provision env_used Provision jb0 ctx0 [CreateAccount, CreateKrb5Principal]) st0) = led st0"
proof -
  obtain r t where r: "compensate_provision env_used Provision jb0 ctx0 [CreateAccount, CreateKrb5Principal] st0 = (r, t)"
    by fastforce
  have "\<not> undo_allowed env_used Provision jb0 ctx0 [CreateAccount, CreateKrb5Principal] (hist st0)"
    by (simp add: undo_allowed_def env_used_def other_pod_def ctx0_def)
  with compensation_guarded[OF r] r show ?thesis by auto
qed

section \<open>Taking a job over\<close>



end
