(* ===== verification/Stack_Lock.thy ===== *)
theory Stack_Lock
  imports Nas
begin

text \<open>
  The lock on an experiment stack (\<open>harness/stack_lock.py\<close>): the ConfigMap \<open>experiment-lock\<close> of the namespace,
  which \<open>kubectl create\<close> creates for one caller only.  Each call of kubectl is one step, so that the runs that use
  the stack are interleaved between any two calls.

  A reply is known by the words the code looks for in its error text; a call the server-state tool could not make
  is \<open>NoCall\<close>.  A write may be done although its reply says otherwise.
\<close>

section \<open>Replies\<close>

datatype 'a kube_row = Answer 'a | AlreadyThere | NoSuch | Otherwise | NoCall

record lock_data =
  ld_owner :: "string option"
  ld_run :: "string option"
  ld_started :: "string option"

datatype lock_error = LockHeld lock_data | LockUnknown | E2ETraceFound "string list"

section \<open>The code between the calls\<close>

text \<open>The traces of the other tool: accounts of its administrators, then its network policies.\<close>

definition e2e_traces :: "string list kube_row \<Rightarrow> string kube_row \<Rightarrow> lock_error + string list" where
  "e2e_traces sql np = (case sql of
     Answer emails \<Rightarrow> (case np of
         Answer out \<Rightarrow> Inr (map (\<lambda>e. ''users.email='' @ e) emails @ filter (\<lambda>line. py_strip line \<noteq> []) (splitlines out))
       | _ \<Rightarrow> Inl LockUnknown)
   | _ \<Rightarrow> Inl LockUnknown)"

text \<open>The data of the lock; an output that is no JSON text is an answer without data.\<close>

definition read_lock :: "lock_data option kube_row \<Rightarrow> lock_error + lock_data option" where
  "read_lock row = (case row of
     Answer (Some d) \<Rightarrow> Inr (Some d)
   | NoSuch \<Rightarrow> Inr None
   | _ \<Rightarrow> Inl LockUnknown)"

text \<open>Where a run is: a call to \<open>hold\<close> looks for traces, creates the lock, or reads whose it is; then the body runs,
  the lock is read again and deleted.\<close>

datatype standing = Outside | Looked | Taken | Inside | Leaving | Owning | Ended "lock_error option"

definition after_look :: "lock_error + string list \<Rightarrow> standing" where
  "after_look r = (case r of Inl e \<Rightarrow> Ended (Some e)
     | Inr evidence \<Rightarrow> if evidence \<noteq> [] then Ended (Some (E2ETraceFound evidence)) else Looked)"

definition after_create :: "unit kube_row \<Rightarrow> standing" where
  "after_create row = (case row of Answer _ \<Rightarrow> Inside | AlreadyThere \<Rightarrow> Taken | _ \<Rightarrow> Ended (Some LockUnknown))"

definition after_taken :: "lock_error + lock_data option \<Rightarrow> standing" where
  "after_taken r = (case r of Inl e \<Rightarrow> Ended (Some e) | Inr None \<Rightarrow> Ended (Some LockUnknown)
     | Inr (Some d) \<Rightarrow> Ended (Some (LockHeld d)))"

text \<open>\<open>release\<close>: only the own lock, and nothing to do when there is none.\<close>

definition after_reread :: "string \<Rightarrow> lock_error + lock_data option \<Rightarrow> standing" where
  "after_reread run r = (case r of Inl e \<Rightarrow> Ended (Some e) | Inr None \<Rightarrow> Ended None
     | Inr (Some d) \<Rightarrow> if ld_run d \<noteq> Some run then Ended (Some (LockHeld d)) else Owning)"

definition after_delete :: "unit kube_row \<Rightarrow> standing" where
  "after_delete row = (case row of Answer _ \<Rightarrow> Ended None | _ \<Rightarrow> Ended (Some LockUnknown))"

section \<open>The calls\<close>

text \<open>What a write does: it goes through, it fails, or it goes through and the reply is lost.\<close>

datatype fate = Through | Failing "unit kube_row" | Lost "unit kube_row"

definition refusal :: "unit kube_row \<Rightarrow> unit kube_row" where
  "refusal row = (case row of NoCall \<Rightarrow> NoCall | _ \<Rightarrow> Otherwise)"

definition create_call :: "fate \<Rightarrow> lock_data \<Rightarrow> lock_data option \<Rightarrow> unit kube_row \<times> lock_data option" where
  "create_call w d lock = (case w of
     Failing row \<Rightarrow> (refusal row, lock)
   | Through \<Rightarrow> (case lock of None \<Rightarrow> (Answer (), Some d) | Some _ \<Rightarrow> (AlreadyThere, lock))
   | Lost row \<Rightarrow> (refusal row, case lock of None \<Rightarrow> Some d | Some _ \<Rightarrow> lock))"

definition read_call :: "lock_data option kube_row option \<Rightarrow> lock_data option \<Rightarrow> lock_data option kube_row" where
  "read_call bad lock = (case bad of
     Some Otherwise \<Rightarrow> Otherwise | Some NoCall \<Rightarrow> NoCall | Some (Answer None) \<Rightarrow> Answer None
   | _ \<Rightarrow> (case lock of None \<Rightarrow> NoSuch | Some d \<Rightarrow> Answer (Some d)))"

definition delete_call :: "fate \<Rightarrow> lock_data option \<Rightarrow> unit kube_row \<times> lock_data option" where
  "delete_call w lock = (case w of
     Failing row \<Rightarrow> (refusal row, lock)
   | Through \<Rightarrow> (case lock of None \<Rightarrow> (NoSuch, None) | Some _ \<Rightarrow> (Answer (), None))
   | Lost row \<Rightarrow> (refusal row, None))"

section \<open>The runs\<close>

record stack =
  sk_lock :: "lock_data option"
  sk_place :: "nat \<Rightarrow> standing"

definition moved :: "nat \<Rightarrow> standing \<Rightarrow> lock_data option \<Rightarrow> stack \<Rightarrow> stack" where
  "moved p q lock S = \<lparr>sk_lock = lock, sk_place = (sk_place S)(p := q)\<rparr>"

definition lock_of :: "(nat \<Rightarrow> string) \<Rightarrow> nat \<Rightarrow> string \<Rightarrow> string \<Rightarrow> lock_data" where
  "lock_of run p owner started = \<lparr>ld_owner = Some owner, ld_run = Some (run p), ld_started = Some started\<rparr>"

text \<open>One call of one run, with what the code does on its reply.  The forced release is a step of its own.\<close>

inductive stack_step :: "(nat \<Rightarrow> string) \<Rightarrow> bool \<Rightarrow> stack \<Rightarrow> stack \<Rightarrow> bool" for run force where
  look: "sk_place S p = Outside \<Longrightarrow> stack_step run force S (moved p (after_look (e2e_traces sql np)) (sk_lock S) S)"
| create: "sk_place S p = Looked \<Longrightarrow> create_call w (lock_of run p owner started) (sk_lock S) = (row, lock) \<Longrightarrow>
    stack_step run force S (moved p (after_create row) lock S)"
| whose: "sk_place S p = Taken \<Longrightarrow> stack_step run force S (moved p (after_taken (read_lock (read_call bad (sk_lock S)))) (sk_lock S) S)"
| body: "sk_place S p = Inside \<Longrightarrow> stack_step run force S (moved p Leaving (sk_lock S) S)"
| reread: "sk_place S p = Leaving \<Longrightarrow>
    stack_step run force S (moved p (after_reread (run p) (read_lock (read_call bad (sk_lock S)))) (sk_lock S) S)"
| delete: "sk_place S p = Owning \<Longrightarrow> delete_call w (sk_lock S) = (row, lock) \<Longrightarrow>
    stack_step run force S (moved p (after_delete row) lock S)"
| again: "sk_place S p = Ended e \<Longrightarrow> stack_step run force S (moved p Outside (sk_lock S) S)"
| forced: "force \<Longrightarrow> delete_call w (sk_lock S) = (row, lock) \<Longrightarrow> stack_step run force S (S\<lparr>sk_lock := lock\<rparr>)"

inductive_cases stack_stepE: "stack_step run force S T"

inductive stack_reach :: "(nat \<Rightarrow> string) \<Rightarrow> bool \<Rightarrow> stack \<Rightarrow> stack \<Rightarrow> bool" for run force S where
  start: "stack_reach run force S S"
| step: "stack_reach run force S T \<Longrightarrow> stack_step run force T U \<Longrightarrow> stack_reach run force S U"

definition idle_stack :: "stack \<Rightarrow> bool" where
  "idle_stack S \<longleftrightarrow> (\<forall>p. sk_place S p = Outside)"

section \<open>Exclusion\<close>

definition working :: "standing \<Rightarrow> bool" where
  "working q \<longleftrightarrow> q \<in> {Inside, Leaving, Owning}"

definition lock_names :: "(nat \<Rightarrow> string) \<Rightarrow> stack \<Rightarrow> bool" where
  "lock_names run S \<longleftrightarrow> (\<forall>p. working (sk_place S p) \<longrightarrow> (\<exists>d. sk_lock S = Some d \<and> ld_run d = Some (run p)))"

lemma working_simps [simp]:
  "working Inside" "working Leaving" "working Owning" "\<not> working Outside" "\<not> working Looked" "\<not> working Taken"
  "\<not> working (Ended e)"
  by (simp_all add: working_def)

lemma after_working [simp]:
  "\<not> working (after_look r)" "\<not> working (after_taken x)" "\<not> working (after_delete row)"
  "working (after_create row) \<longleftrightarrow> row = Answer ()"
  "working (after_reread i x) \<longleftrightarrow> (\<exists>d. x = Inr (Some d) \<and> ld_run d = Some i)"
  by (auto simp: working_def after_look_def after_taken_def after_delete_def after_create_def after_reread_def
      split: sum.splits option.splits kube_row.splits)

lemma create_call_cases:
  assumes "create_call w d lock = (row, lock')"
  shows "row = Answer () \<Longrightarrow> lock = None \<and> lock' = Some d" "lock \<noteq> None \<Longrightarrow> lock' = lock" "lock' \<in> {lock, Some d}"
  using assms by (auto simp: create_call_def refusal_def split: fate.splits option.splits kube_row.splits)

lemma delete_call_cases: "delete_call w lock = (row, lock') \<Longrightarrow> lock' \<in> {lock, None}"
  by (auto simp: delete_call_def split: fate.splits option.splits)

lemma lock_names_unique:
  "inj run \<Longrightarrow> lock_names run S \<Longrightarrow> working (sk_place S p) \<Longrightarrow> working (sk_place S q) \<Longrightarrow> p = q"
  unfolding lock_names_def by (metis injD option.inject)

lemma lock_names_step:
  assumes "inj run" "stack_step run False S T" "lock_names run S"
  shows "lock_names run T"
  using assms(2)
proof (cases rule: stack_step.cases)
  case (create p w owner started row lock)
  note c = create_call_cases[OF create(3)]
  show ?thesis unfolding lock_names_def
  proof (intro allI impI)
    fix q assume q: "working (sk_place T q)"
    show "\<exists>d. sk_lock T = Some d \<and> ld_run d = Some (run q)"
    proof (cases "q = p")
      case True
      with q create(1) have "row = Answer ()" by (simp add: moved_def)
      with c(1) True create(1) show ?thesis by (simp add: moved_def lock_of_def)
    next
      case False
      with q create(1) assms(3) have "\<exists>d. sk_lock S = Some d \<and> ld_run d = Some (run q)"
        by (simp add: moved_def lock_names_def)
      with c(2) create(1) show ?thesis by (auto simp: moved_def)
    qed
  qed
next
  case (delete p w row lock)
  have "working (sk_place S p)" using delete(2) by (simp add: working_def)
  with lock_names_unique[OF assms(1,3)] have "\<not> working (sk_place S q)" if "q \<noteq> p" for q using that by blast
  with delete(1) show ?thesis by (auto simp: lock_names_def moved_def)
qed (use assms(3) in \<open>auto simp: lock_names_def moved_def read_lock_def read_call_def split: kube_row.splits option.splits if_splits\<close>)

lemma lock_names_reach:
  assumes "inj run" "idle_stack S" "stack_reach run False S T"
  shows "lock_names run T"
  using assms(3)
proof (induction)
  case start
  then show ?case using assms(2) by (simp add: lock_names_def idle_stack_def working_def)
next
  case (step T U)
  then show ?case using lock_names_step[OF assms(1)] by blast
qed

text \<open>C40: As long as nobody forces the lock open, the stack has one user: from a state where all runs are outside, and whatever locks were left behind, in every interleaving of the calls and whatever calls fail or lose their reply, two runs with different ids are never inside at the same time, the lock carries the id of the run that is inside, and a step of a run takes no lock away but its own.\<close>

theorem stack_has_one_user:
  assumes "inj run" "idle_stack S" "stack_reach run False S T"
  shows "(\<forall>p q. working (sk_place T p) \<and> working (sk_place T q) \<longrightarrow> p = q) \<and>
    (\<forall>p. working (sk_place T p) \<longrightarrow> (\<exists>d. sk_lock T = Some d \<and> ld_run d = Some (run p))) \<and>
    (\<forall>U d. stack_step run False T U \<and> sk_lock T = Some d \<and> sk_lock U \<noteq> Some d \<longrightarrow>
      sk_lock U = None \<and> (\<exists>p. sk_place T p = Owning \<and> ld_run d = Some (run p)))"
proof (intro conjI allI impI)
  note n = lock_names_reach[OF assms]
  show "p = q" if "working (sk_place T p) \<and> working (sk_place T q)" for p q
    using lock_names_unique[OF assms(1) n] that by blast
  show "\<exists>d. sk_lock T = Some d \<and> ld_run d = Some (run p)" if "working (sk_place T p)" for p
    using n that by (simp add: lock_names_def)
  fix U d assume U: "stack_step run False T U \<and> sk_lock T = Some d \<and> sk_lock U \<noteq> Some d"
  then have "stack_step run False T U" by blast
  then have "\<exists>p. sk_place T p = Owning \<and> sk_lock U = None"
  proof (cases rule: stack_step.cases)
    case (create p w owner started row lock)
    with U create_call_cases(2)[OF create(3)] show ?thesis by (simp add: moved_def)
  next
    case (delete p w row lock)
    with U delete_call_cases[OF delete(3)] show ?thesis by (auto simp: moved_def)
  qed (use U in \<open>auto simp: moved_def\<close>)
  with n U show "sk_lock U = None" "\<exists>p. sk_place T p = Owning \<and> ld_run d = Some (run p)"
    by (auto simp: lock_names_def working_def)
qed

text \<open>Runs that are numbered by their letters, and a run that has taken the lock.\<close>

definition letters :: "nat \<Rightarrow> string" where
  "letters p = replicate p CHR ''a''"

definition stack0 :: stack where
  "stack0 = \<lparr>sk_lock = None, sk_place = (\<lambda>_. Outside)\<rparr>"

definition taken_by :: "nat \<Rightarrow> stack \<Rightarrow> stack" where
  "taken_by p S = moved p Inside (Some (lock_of letters p ''measure'' [])) S"

lemma take_stack:
  assumes "sk_place S p = Outside" "sk_lock S = None"
  shows "stack_reach letters force S (taken_by p S)"
proof -
  have "stack_step letters force S (moved p Looked (sk_lock S) S)"
    using stack_step.look[OF assms(1), of letters force "Answer []" "Answer []"] by (simp add: e2e_traces_def after_look_def)
  moreover have "stack_step letters force (moved p Looked (sk_lock S) S) (taken_by p S)"
    using stack_step.create[of "moved p Looked (sk_lock S) S" p Through letters "''measure''" "[]" "Answer ()"] assms(2)
    by (simp add: moved_def create_call_def after_create_def taken_by_def)
  ultimately show ?thesis by (blast intro: stack_reach.intros)
qed

theorem stack_has_one_user_witness:
  "stack_reach letters False stack0 (taken_by 1 stack0) \<and> working (sk_place (taken_by 1 stack0) 1) \<and>
   \<not> working (sk_place (taken_by 1 stack0) 2)"
proof -
  have "inj letters" unfolding letters_def by (rule injI) (metis length_replicate)
  moreover have "idle_stack stack0" by (simp add: idle_stack_def stack0_def)
  moreover have r: "stack_reach letters False stack0 (taken_by 1 stack0)" by (rule take_stack) (simp_all add: stack0_def)
  ultimately have "working (sk_place (taken_by 1 stack0) p) \<and> working (sk_place (taken_by 1 stack0) q) \<longrightarrow> p = q" for p q
    using stack_has_one_user by blast
  from this[of 1 2] r show ?thesis by (simp add: taken_by_def moved_def working_def)
qed

text \<open>The forced release gives the stack a second user while the first still works on it.\<close>

lemma forced_two_users: "\<exists>S. stack_reach letters True stack0 S \<and> working (sk_place S 1) \<and> working (sk_place S 2)"
proof -
  have a: "stack_reach letters True stack0 (taken_by 1 stack0)" by (rule take_stack) (simp_all add: stack0_def)
  let ?S = "(taken_by 1 stack0)\<lparr>sk_lock := None\<rparr>"
  have "stack_step letters True (taken_by 1 stack0) ?S"
    by (rule stack_step.forced[of _ Through]) (simp_all add: delete_call_def taken_by_def moved_def)
  with a have b: "stack_reach letters True stack0 ?S" by (rule stack_reach.step)
  have "stack_reach letters True ?S (taken_by 2 ?S)"
    by (rule take_stack) (simp_all add: stack0_def taken_by_def moved_def)
  then have "stack_reach letters True stack0 (taken_by 2 ?S)"
    by (induction) (use b in \<open>blast intro: stack_reach.step\<close>)+
  then show ?thesis by (auto simp: taken_by_def moved_def working_def)
qed

end
