(* ===== verification/Trial_Store.thy ===== *)
theory Trial_Store
  imports Py_Strings Harness
begin

text \<open>
  The store of the records of trials (\<open>harness/trial_results.py\<close>): one file per trial, written once, without the
  secrets of the caller.  The text of a record as JSON is an argument; the system calls of a write succeed or fail.
\<close>

section \<open>Forms of a secret\<close>

datatype secret = Text string | Bytes "nat list" | Neither

definition hex_digit :: "nat \<Rightarrow> char" where
  "hex_digit n = (if n < 10 then char_of (48 + n) else char_of (87 + n))"

definition hex_byte :: "nat \<Rightarrow> string" where
  "hex_byte b = [hex_digit (b div 16), hex_digit (b mod 16)]"

definition hex :: "nat list \<Rightarrow> string" where
  "hex bs = concat (map hex_byte bs)"

definition base64_digit :: "nat \<Rightarrow> char" where
  "base64_digit n = (if n < 26 then char_of (65 + n) else if n < 52 then char_of (71 + n) else if n < 62 then char_of (n - 4)
     else if n = 62 then CHR ''+'' else CHR ''/'')"

fun base64 :: "nat list \<Rightarrow> string" where
  "base64 [] = []"
| "base64 [a] = [base64_digit (a div 4), base64_digit (a mod 4 * 16), CHR ''='', CHR ''='']"
| "base64 [a, b] = [base64_digit (a div 4), base64_digit (a mod 4 * 16 + b div 16), base64_digit (b mod 16 * 4), CHR ''='']"
| "base64 (a # b # c # bs) = [base64_digit (a div 4), base64_digit (a mod 4 * 16 + b div 16),
     base64_digit (b mod 16 * 4 + c div 64), base64_digit (c mod 64)] @ base64 bs"

text \<open>\<open>repr\<close> of bytes between its quotes; the quotes are double when there are single ones only.\<close>

definition repr_byte :: "char \<Rightarrow> nat \<Rightarrow> string" where
  "repr_byte quote b = (if b = 9 then [CHR 0x5C, CHR ''t''] else if b = 10 then [CHR 0x5C, CHR ''n''] else if b = 13 then [CHR 0x5C, CHR ''r'']
     else if b < 32 \<or> 126 < b then [CHR 0x5C, CHR ''x''] @ hex_byte b
     else if b = 92 \<or> char_of b = quote then [CHR 0x5C, char_of b] else [char_of b])"

definition repr_bytes :: "nat list \<Rightarrow> string" where
  "repr_bytes bs = concat (map (repr_byte (if 39 \<in> set bs \<and> 34 \<notin> set bs then CHR 0x22 else CHR 0x27)) bs)"

text \<open>A text between the quotes of JSON.\<close>

definition json_char :: "char \<Rightarrow> string" where
  "json_char c = (let n = of_char c :: nat in
     if n = 34 \<or> n = 92 then [CHR 0x5C, c] else if n = 8 then [CHR 0x5C, CHR ''b''] else if n = 9 then [CHR 0x5C, CHR ''t'']
     else if n = 10 then [CHR 0x5C, CHR ''n''] else if n = 12 then [CHR 0x5C, CHR ''f''] else if n = 13 then [CHR 0x5C, CHR ''r'']
     else if n < 32 then [CHR 0x5C, CHR ''u'', CHR ''0'', CHR ''0''] @ hex_byte n else [c])"

definition json_text :: "string \<Rightarrow> string" where
  "json_text t = concat (map json_char t)"

definition secret_forms :: "secret \<Rightarrow> string list option" where
  "secret_forms x = map_option (\<lambda>fs. fs @ map json_text fs) (case x of
     Text t \<Rightarrow> Some [t] | Bytes bs \<Rightarrow> Some [repr_bytes bs, hex bs, base64 bs] | Neither \<Rightarrow> None)"

fun secret_length :: "secret \<Rightarrow> nat option" where
  "secret_length (Text t) = Some (length t)"
| "secret_length (Bytes bs) = Some (length bs)"
| "secret_length Neither = None"

section \<open>Files\<close>

datatype store_error = ValueError | TypeError | FileExists | StoreIo | Unreadable

type_synonym store = "string \<rightharpoonup> string"

definition id_char :: "char \<Rightarrow> bool" where
  "id_char c \<longleftrightarrow> (let n = of_char c :: nat in 48 \<le> n \<and> n \<le> 57 \<or> 65 \<le> n \<and> n \<le> 90 \<or> 97 \<le> n \<and> n \<le> 122 \<or> n = 95 \<or> n = 45)"

definition path_of :: "string option \<Rightarrow> store_error + string" where
  "path_of i = (case i of
     Some t \<Rightarrow> if t \<noteq> [] \<and> length t \<le> 64 \<and> list_all id_char t then Inr (t @ ''.json'') else Inl ValueError
   | None \<Rightarrow> Inl ValueError)"

fun check_lengths :: "secret list \<Rightarrow> store_error + unit" where
  "check_lengths [] = Inr ()"
| "check_lengths (x # xs) = (case secret_length x of None \<Rightarrow> Inl TypeError
     | Some n \<Rightarrow> if n < 8 then Inl ValueError else check_lengths xs)"

fun check_secrets :: "string \<Rightarrow> secret list \<Rightarrow> store_error + unit" where
  "check_secrets t [] = Inr ()"
| "check_secrets t (x # xs) = (case secret_forms x of None \<Rightarrow> Inl TypeError
     | Some fs \<Rightarrow> if list_ex (\<lambda>f. contains f t) fs then Inl ValueError else check_secrets t xs)"

text \<open>The write: a temporary file that is filled and synchronised, linked to the name of the record, and removed.
  Linking fails when the name exists; the other calls fail as \<open>works\<close> says.\<close>

definition link_file :: "string \<Rightarrow> string \<Rightarrow> (store, store_error, string) prog" where
  "link_file p t = bnd (getS (\<lambda>s. s p)) (\<lambda>there.
     if there \<noteq> None then throw FileExists else thn (modS (\<lambda>s. s(p \<mapsto> t))) (ret p))"

definition save :: "bool \<times> bool \<times> bool \<Rightarrow> string option \<Rightarrow> bool \<Rightarrow> string \<Rightarrow> secret list \<Rightarrow> (store, store_error, string) prog" where
  "save works i versioned t secrets = (case works of (made, written, unlinked) \<Rightarrow>
     thn (liftE (check_lengths secrets))
    (thn (whenE versioned (throw ValueError))
    (bnd (liftE (path_of i)) (\<lambda>p.
     thn (whenE (\<not> made) (throw StoreIo))
    (thn (liftE (check_secrets t secrets))
         (finallyE (thn (whenE (\<not> written) (throw StoreIo)) (link_file p t))
                   (whenE (\<not> unlinked) (throw StoreIo))))))))"

definition load :: "(string \<Rightarrow> bool) \<Rightarrow> string option \<Rightarrow> (store, store_error, string option) prog" where
  "load parses i = bnd (liftE (path_of i)) (\<lambda>p. bnd (getS (\<lambda>s. s p)) (\<lambda>x. case x of
     None \<Rightarrow> ret None
   | Some t \<Rightarrow> if parses t then ret (Some t) else throw Unreadable))"

section \<open>Written once, without secrets\<close>

definition hidden_in :: "string \<Rightarrow> secret list \<Rightarrow> bool" where
  "hidden_in t secrets \<longleftrightarrow> (\<forall>x\<in>set secrets. \<exists>fs. secret_forms x = Some fs \<and> (\<forall>f\<in>set fs. \<not> contains f t))"

lemma check_secrets_Inr: "check_secrets t xs = Inr u \<longleftrightarrow> hidden_in t xs"
  by (induction xs) (auto simp: hidden_in_def list_ex_iff split: option.splits)

lemma check_lengths_Inr: "check_lengths xs = Inr u \<longleftrightarrow> (\<forall>x\<in>set xs. \<exists>n\<ge>8. secret_length x = Some n)"
  by (induction xs) (auto split: option.splits)

text \<open>What a call to \<open>save\<close> does to the store, however it ends: nothing, or a new file with the text given.\<close>

definition only_new :: "string option \<Rightarrow> string \<Rightarrow> secret list \<Rightarrow> store \<Rightarrow> store \<Rightarrow> bool" where
  "only_new i t secrets s s' \<longleftrightarrow> s' = s \<or> (\<exists>p. path_of i = Inr p \<and> s p = None \<and> s' = s(p \<mapsto> t) \<and> hidden_in t secrets)"

lemma wp_save:
  "wp (save works i versioned t secrets)
     (\<lambda>p s'. path_of i = Inr p \<and> s p = None \<and> s' = s(p \<mapsto> t) \<and> hidden_in t secrets \<and> (\<forall>x\<in>set secrets. \<exists>n\<ge>8. secret_length x = Some n))
     (\<lambda>e s'. only_new i t secrets s s') s"
proof (cases works)
  case (fields made written unlinked)
  show ?thesis
    by (cases "check_lengths secrets"; cases "path_of i"; cases "check_secrets t secrets")
      (use check_lengths_Inr[of secrets "()"] check_secrets_Inr[of t secrets "()"] in
        \<open>auto simp: save_def fields link_file_def wp_simps only_new_def\<close>)
qed

text \<open>A sequence of calls.\<close>

record save_args =
  sa_works :: "bool \<times> bool \<times> bool"
  sa_id :: "string option"
  sa_versioned :: bool
  sa_text :: string
  sa_secrets :: "secret list"

definition save_each :: "save_args list \<Rightarrow> (store, store_error, unit) prog" where
  "save_each cs = forM cs (\<lambda>c. tryE (thn (save (sa_works c) (sa_id c) (sa_versioned c) (sa_text c) (sa_secrets c)) (ret ())) (\<lambda>_. ret ()))"

text \<open>A record is written once and without secrets: whatever calls to save are made in whatever order and however they end, a file that exists keeps its text, and every file that is added holds the text of a call for that trial, in which no form of a secret of that call occurs.\<close>

lemma written_once:
  "snd (save_each cs s) p = s p \<or>
   (\<exists>c\<in>set cs. s p = None \<and> path_of (sa_id c) = Inr p \<and> snd (save_each cs s) p = Some (sa_text c) \<and> hidden_in (sa_text c) (sa_secrets c))"
proof (induction cs arbitrary: s)
  case (Cons c cs)
  let ?m = "save (sa_works c) (sa_id c) (sa_versioned c) (sa_text c) (sa_secrets c)"
  have "wp ?m (\<lambda>_. only_new (sa_id c) (sa_text c) (sa_secrets c) s) (\<lambda>_. only_new (sa_id c) (sa_text c) (sa_secrets c) s) s"
    by (rule wp_weaken[OF wp_save]) (auto simp: only_new_def)
  then obtain s' where s': "only_new (sa_id c) (sa_text c) (sa_secrets c) s s'" "snd (save_each (c # cs) s) = snd (save_each cs s')"
    by (auto simp: save_each_def thn_def bnd_def tryE_def ret_def wp_def split: prod.splits sum.splits)
  from s'(1) have "s' p = s p \<or> s p = None \<and> path_of (sa_id c) = Inr p \<and> s' p = Some (sa_text c) \<and> hidden_in (sa_text c) (sa_secrets c)"
    unfolding only_new_def by (auto simp del: fun_upd_apply simp: fun_upd_def split: if_splits)
  with Cons.IH[of s'] show ?case unfolding s'(2) by auto
qed (simp add: save_each_def run)

end
