(* ===== verification/Trials_Props.thy ===== *)
theory Trials_Props
  imports Trials
begin

text \<open>
  What the harness guarantees about trials: a fault that was armed is disarmed on every way out, and a pair of
  trials leaves two closed rows with separate windows for one request, and two saved records.
\<close>

section \<open>Steps that write no row\<close>

definition onward :: "(hevent \<Rightarrow> bool) \<Rightarrow> lab \<Rightarrow> lab \<Rightarrow> bool" where
  "onward P s t \<longleftrightarrow> lb_trials t = lb_trials s \<and> lb_saved t = lb_saved s \<and> prepended P (lb_hist s) (lb_hist t)"

interpretation onw: trail "onward P" for P
  by unfold_locales (auto simp: onward_def intro: prepended_trans)

lemma onward_mono: "onward P s t \<Longrightarrow> (\<And>ev. P ev \<Longrightarrow> Q ev) \<Longrightarrow> onward Q s t"
  by (auto simp: onward_def intro: prepended_mono)

lemma moves_port [moves_intros]:
  assumes "P ev"
  shows "moves (onward P) (port ev f)" "moves (onward P) (must ev g)" "moves (onward P) (answer ev h)"
proof -
  show p: "moves (onward P) (port ev f)" for f :: "hhist \<Rightarrow> 'c"
    using assms by (simp add: moves_def run onward_def)
  show "moves (onward P) (must ev g)" "moves (onward P) (answer ev h)"
    unfolding must_def answer_def by (intro onw.seq onw.branch onw.basic p)+
qed

fun looking :: "hevent \<Rightarrow> bool" where
  "looking HvDb = False"
| "looking HvArm = False"
| "looking HvDisarm = False"
| "looking HvSave = False"
| "looking _ = True"

lemma moves_evaluations [moves_intros]:
  "moves (onward looking) (collect_all H names tg)" "moves (onward looking) (evaluate_creation H tg)"
  "moves (onward looking) (evaluate_reclamation H tg)" "moves (onward looking) (evaluate H k tg)"
  "moves (onward looking) (evaluate_protection H bs)"
  unfolding evaluate_def evaluate_creation_def evaluate_reclamation_def evaluate_protection_def collect_all_def
  by (intro moves_intros; simp)+

lemma moves_observations [moves_intros]:
  "moves (onward looking) (judge_environment H)" "moves (onward looking) (judge_protection H a)"
  "moves (onward looking) (take_snapshot H a)" "moves (onward looking) (look_once H a w)"
  unfolding judge_environment_def judge_protection_def take_snapshot_def look_once_def Let_def
  by (intro moves_intros; simp)+

lemma moves_observe [moves_intros]: "moves (onward looking) (observe H a t0 n w)"
proof (induction n arbitrary: w)
  case (Suc n)
  then show ?case by (auto intro!: moves_intros)
qed (simp add: moves_intros)

lemma wp_moves: "moves R m \<Longrightarrow> (\<And>x t. R s t \<Longrightarrow> Q x t) \<Longrightarrow> (\<And>e t. R s t \<Longrightarrow> W e t) \<Longrightarrow> wp m Q W s"
  by (rule wp_weaken[OF moves_wp])

section \<open>A fault is disarmed\<close>

text \<open>A submission asks and does nothing else.\<close>

definition plain_submit :: "string lab_prog \<Rightarrow> bool" where
  "plain_submit m \<longleftrightarrow> moves (onward looking) m"

lemma plain_submits: "plain_submit (submit_creation H)" "plain_submit (submit_revocation H q)"
  unfolding plain_submit_def submit_creation_def submit_revocation_def by (intro moves_intros; simp)+

definition unarmed :: "hevent \<Rightarrow> bool" where
  "unarmed ev \<longleftrightarrow> ev \<noteq> HvArm \<and> ev \<noteq> HvDisarm"

definition untouched :: "lab \<Rightarrow> lab \<Rightarrow> bool" where
  "untouched s t \<longleftrightarrow> prepended unarmed (lb_hist s) (lb_hist t)"

interpretation unt: trail untouched
  by unfold_locales (auto simp: untouched_def intro: prepended_trans)

lemma looking_unarmed: "looking ev \<Longrightarrow> unarmed ev"
  by (cases ev) (simp_all add: unarmed_def)

lemma looking_untouched: "moves (onward looking) m \<Longrightarrow> moves untouched m"
  by (erule moves_mono) (auto simp: onward_def untouched_def looking_unarmed elim: prepended_mono)

lemma untouched_rows [moves_intros]:
  "moves untouched (one_trial H i)" "moves untouched (open_trial H p)" "moves untouched (bind_request H i q)"
  "moves untouched (close_trial H i)" "moves untouched (save_record H r)"
proof -
  have p: "moves untouched (port ev f)" if "unarmed ev" for ev and f :: "hhist \<Rightarrow> 'a"
    using that by (simp add: moves_def run untouched_def)
  have w: "moves untouched (put ev f g)" if "unarmed ev" "\<And>s. lb_hist (g s) = lb_hist s" for ev f g
    unfolding put_def using that
    by (intro moves_intros p unt.upd) (auto simp: moves_def run untouched_def split: written.split)
  have d: "unarmed HvDb" "unarmed HvSave" by (simp_all add: unarmed_def)
  show one: "moves untouched (one_trial H i)" for i
    unfolding one_trial_def by (intro moves_intros p d)
  show "moves untouched (open_trial H p)" "moves untouched (bind_request H i q)" "moves untouched (close_trial H i)"
    "moves untouched (save_record H r)"
    unfolding open_trial_def bind_request_def close_trial_def save_record_def
    by (intro moves_intros p w d one; simp add: update_trial_def)+
qed

lemma untouched_body:
  assumes "plain_submit submit"
  shows "moves untouched (trial_body H a submit en before prot)"
proof -
  have p: "moves untouched (port ev f)" "moves untouched (answer ev g)" if "looking ev"
    for ev and f :: "hhist \<Rightarrow> 'a" and g :: "hhist \<Rightarrow> 'b option"
    by (intro looking_untouched moves_port that)+
  note l = moves_observe[THEN looking_untouched] moves_observations[THEN looking_untouched]
    moves_evaluations[THEN looking_untouched] assms[unfolded plain_submit_def, THEN looking_untouched]
  show ?thesis unfolding trial_body_def by (intro moves_intros l p; simp)
qed

text \<open>Armed and then disarmed, with nothing of the kind before, between or after.\<close>

definition armed_then_disarmed :: "harness \<Rightarrow> lab \<Rightarrow> lab \<Rightarrow> bool" where
  "armed_then_disarmed H s t \<longleftrightarrow> (\<exists>y z. prepended unarmed (lb_hist s) y \<and> hx_arm H y \<and>
     prepended unarmed (HvArm # y) z \<and> prepended unarmed (HvDisarm # z) (lb_hist t))"

text \<open>The history of a trial as far as faults go: none, or one that could not be armed, or one that was armed and
  then disarmed.\<close>

definition fault_framed :: "harness \<Rightarrow> trial_args \<Rightarrow> lab \<Rightarrow> lab \<Rightarrow> bool" where
  "fault_framed H a s t \<longleftrightarrow> untouched s t \<or>
     ra_injector a \<and> ((\<exists>y. prepended unarmed (lb_hist s) y \<and> \<not> hx_arm H y \<and> lb_hist t = HvArm # y) \<or>
       armed_then_disarmed H s t)"

lemma wp_trial_faults:
  assumes "plain_submit submit"
  shows "wp (run_trial H a submit)
     (\<lambda>_ t. if ra_injector a then armed_then_disarmed H s t else untouched s t) (\<lambda>_ t. fault_framed H a s t) s"
proof -
  let ?Q = "\<lambda>_ t. if ra_injector a then armed_then_disarmed H s t else untouched s t"
  let ?R = "\<lambda>_ t. fault_framed H a s t"
  have quiet: "fault_framed H a s t" if "untouched s t" for t using that by (simp add: fault_framed_def)
  let ?tail = "\<lambda>en before prot. bnd (finallyE (trial_body H a submit en before prot)
      (if ra_injector a then must HvDisarm (hx_disarm H) else ret ())) (\<lambda>r. thn (save_record H r) (ret r))"
  have plain: "moves untouched (?tail en before prot)" if "\<not> ra_injector a" for en before prot
    using that untouched_body[OF assms] by (auto intro!: moves_intros)
  have framed: "wp (?tail en before prot) ?Q ?R (v\<lparr>lb_hist := HvArm # lb_hist v\<rparr>)"
    if i: "ra_injector a" "hx_arm H (lb_hist v)" and v: "untouched s v" for v en before prot
  proof -
    have over: "armed_then_disarmed H s t" if "untouched (v\<lparr>lb_hist := HvArm # lb_hist v\<rparr>) w"
        "prepended unarmed (HvDisarm # lb_hist w) (lb_hist t)" for w t
      using that i(2) v by (auto simp: armed_then_disarmed_def untouched_def)
    then have over': "fault_framed H a s t" if "untouched (v\<lparr>lb_hist := HvArm # lb_hist v\<rparr>) w"
        "prepended unarmed (HvDisarm # lb_hist w) (lb_hist t)" for w t
      using that i(1) by (auto simp: fault_framed_def)
    show ?thesis
      unfolding wp_bnd wp_finallyE
    proof (rule wp_moves[OF untouched_body[OF assms]], goal_cases)
      case (1 x w)
      then show ?case using i(1)
        by (auto simp: wp_simps must_def over' intro!: wp_moves[OF untouched_rows(5)])
          (auto simp: untouched_def intro!: over over')
    next
      case (2 e w)
      then show ?case using i(1) by (auto simp: wp_simps must_def intro!: over')
    qed
  qed
  have armed: "wp (thn (if ra_injector a then must HvArm (hx_arm H) else ret ()) (?tail en before prot)) ?Q ?R v"
    if "untouched s v" for v en before prot
  proof (cases "ra_injector a")
    case True
    then show ?thesis using that framed
      by (auto simp: wp_simps must_def) (auto simp: fault_framed_def untouched_def)
  next
    case False
    from wp_moves[OF plain[OF False], of v ?Q ?R en before prot] that show ?thesis
      using False quiet unt.trans[OF that] by (simp add: wp_simps)
  qed
  have first: "wp (bnd m f) ?Q ?R v" if "moves untouched m" "untouched s v" "\<And>x w. untouched s w \<Longrightarrow> wp (f x) ?Q ?R w"
    for m :: "'c lab_prog" and f :: "'c \<Rightarrow> trial_record lab_prog" and v
    unfolding wp_bnd by (rule wp_moves[OF that(1)]) (erule that(3)[OF unt.trans[OF that(2)]] quiet[OF unt.trans[OF that(2)]])+
  note seen = moves_observations[THEN looking_untouched]
  show ?thesis
  proof (cases "bad_arguments a")
    case False
    then show ?thesis
      unfolding run_trial_def thn_def[of "open_trial H (ra_plan a)"] if_not_P[OF False]
      by (intro first seen untouched_rows unt.refl armed)
  qed (simp add: run_trial_def wp_simps quiet unt.refl)
qed

text \<open>C36: However a trial ends, a fault that it armed is disarmed: the history of the trial holds no arming and no disarming, or one arming that failed and was the end, or one arming, then one disarming, and after it neither. A trial without an injector arms nothing, and one with an injector that returns has armed and disarmed.\<close>

theorem fault_disarmed:
  assumes "plain_submit submit" and "run_trial H a submit s = (r, t)"
  shows "fault_framed H a s t \<and>
    (\<forall>x. r = Inr x \<longrightarrow> (if ra_injector a then armed_then_disarmed H s t else untouched s t))"
  using wp_trial_faults[OF assms(1), of H a s] assms(2)
  by (cases r) (auto simp: wp_def fault_framed_def split: if_splits)

section \<open>What a trial writes\<close>

text \<open>Neither the clock of the database nor the monotonic clock goes back.\<close>

definition clock_up :: "harness \<Rightarrow> bool" where
  "clock_up H \<longleftrightarrow> (\<forall>h ev. hx_now H h \<le> hx_now H (ev # h) \<and> hx_clock H h \<le> hx_clock H (ev # h))"

lemma clock_up_app:
  assumes "clock_up H"
  shows "hx_now H h \<le> hx_now H (a @ h)" "hx_clock H h \<le> hx_clock H (a @ h)"
proof -
  have "hx_now H h \<le> hx_now H (a @ h) \<and> hx_clock H h \<le> hx_clock H (a @ h)"
  proof (induction a)
    case (Cons ev a)
    then show ?case using assms unfolding clock_up_def by (metis append_Cons order_trans)
  qed simp
  then show "hx_now H h \<le> hx_now H (a @ h)" "hx_clock H h \<le> hx_clock H (a @ h)" by simp_all
qed

text \<open>Nothing outside fails, and an advance takes at least a unit of time: then a trial returns.\<close>

definition smooth :: "harness \<Rightarrow> int \<Rightarrow> bool" where
  "smooth H horizon \<longleftrightarrow>
     (\<forall>h. hx_db H h = WrDone \<and> hx_save H h = WrDone \<and> hx_arm H h \<and> hx_poll H h \<and> hx_disarm H h \<and> hx_advance H h \<and>
        hx_report H h \<noteq> None \<and> hx_submit H h \<noteq> None \<and> hx_declaration H h \<noteq> None \<and> (\<forall>q. hx_resubmit H q h = Some q) \<and>
        hx_clock H h + 1 \<le> hx_clock H (HvAdvance # h)) \<and>
     (\<exists>n. hx_fuel H = Suc n \<and> horizon \<le> int n)"

text \<open>\<open>returns m\<close>: \<open>m\<close> returns.\<close>

definition returns :: "'a lab_prog \<Rightarrow> bool" where
  "returns m \<longleftrightarrow> (\<forall>s. wp m (\<lambda>_ _. True) (\<lambda>_ _. False) s)"

lemma returns_simps [simp]: "returns (ret x)" "returns (port ev f)"
  by (simp_all add: returns_def wp_simps)

lemma returnsD: "returns m \<Longrightarrow> (\<And>x t. Q x t) \<Longrightarrow> wp m Q R s"
  by (rule wp_weaken[of m "\<lambda>_ _. True" "\<lambda>_ _. False"]) (simp_all add: returns_def)

lemma returns_bnd: "returns m \<Longrightarrow> (\<And>x. returns (f x)) \<Longrightarrow> returns (bnd m f)"
  unfolding returns_def[of "bnd m f"] wp_bnd by (intro allI, erule returnsD) (simp add: returns_def)

lemma returns_try: "returns m \<Longrightarrow> returns (tryE m h)"
  unfolding returns_def[of "tryE m h"] wp_tryE by (intro allI, erule returnsD) simp

lemma returns_mapM: "(\<And>x. returns (f x)) \<Longrightarrow> returns (mapM xs f)"
  by (induction xs) (auto intro!: returns_bnd)

lemma returns_foldM: "(\<And>x b. returns (f x b)) \<Longrightarrow> returns (foldM f xs b)"
  by (induction xs arbitrary: b) (auto intro!: returns_bnd)

lemma returns_evaluations:
  "returns (collect_all H names tg)" "returns (evaluate_creation H tg)" "returns (evaluate_reclamation H tg)"
  "returns (evaluate H k tg)" "returns (evaluate_protection H bs)"
  unfolding evaluate_def evaluate_creation_def evaluate_reclamation_def evaluate_protection_def collect_all_def
  by (auto intro!: returns_bnd returns_mapM returns_foldM)

lemma returns_observations:
  "returns (judge_environment H)" "returns (judge_protection H a)" "returns (take_snapshot H a)"
  unfolding judge_environment_def judge_protection_def take_snapshot_def
  by (auto intro!: returns_bnd returns_evaluations returns_try split: option.split)

lemma returns_ports:
  assumes "smooth H n"
  shows "returns (must HvArm (hx_arm H))" "returns (must HvDisarm (hx_disarm H))" "returns (must HvPoll (hx_poll H))"
    "returns (must HvAdvance (hx_advance H))" "returns (answer HvReport (hx_report H))"
    "returns (answer HvDeclaration (hx_declaration H))" "returns (submit_creation H)" "returns (submit_revocation H q)"
    "returns (look_once H a w)"
proof -
  show d: "returns (answer HvDeclaration (hx_declaration H))"
    using assms by (auto simp: smooth_def returns_def answer_def wp_simps split: option.split)
  show "returns (must HvArm (hx_arm H))" "returns (must HvDisarm (hx_disarm H))" "returns (must HvPoll (hx_poll H))"
    "returns (must HvAdvance (hx_advance H))" "returns (answer HvReport (hx_report H))" "returns (submit_creation H)"
    "returns (submit_revocation H q)"
    using assms by (auto simp: smooth_def returns_def must_def answer_def submit_creation_def submit_revocation_def wp_simps
        split: option.split)
  show "returns (look_once H a w)"
    unfolding look_once_def Let_def by (auto intro!: returns_bnd returns_evaluations d split: option.split)
qed

text \<open>The rows, the records and bounds of the clocks at a point of the run.\<close>

definition at_point :: "harness \<Rightarrow> trial_row list \<Rightarrow> trial_record list \<Rightarrow> int \<Rightarrow> int \<Rightarrow> lab \<Rightarrow> bool" where
  "at_point H rows recs b c v \<longleftrightarrow> lb_trials v = rows \<and> lb_saved v = recs \<and> b \<le> hx_now H (lb_hist v) \<and>
     c \<le> hx_clock H (lb_hist v)"

lemma at_point_onward: "clock_up H \<Longrightarrow> at_point H rows recs b c v \<Longrightarrow> onward P v w \<Longrightarrow> at_point H rows recs b c w"
  using clock_up_app by (auto simp: at_point_def onward_def prepended_def intro: order_trans)

text \<open>An exception is only possible if \<open>X\<close> holds: with \<open>X\<close> true these are the rules for a run that returns, with
  \<open>X\<close> false those for a run in a smooth world.\<close>

lemma at_point_seq:
  assumes "clock_up H" "moves (onward P) m" "X \<or> returns m" "at_point H rows recs b c v"
    and "\<And>x w. at_point H rows recs b c w \<Longrightarrow> wp (f x) Q (\<lambda>_ _. X) w"
  shows "wp (bnd m f) Q (\<lambda>_ _. X) v"
proof -
  have "wp m (\<lambda>_ _. True) (\<lambda>_ _. X) v"
    using assms(3) by (cases X) (auto intro: returnsD)
  from wp_conj[OF moves_wp[OF assms(2)] this] show ?thesis
    unfolding wp_bnd by (rule wp_weaken) (auto intro: assms(5) at_point_onward[OF assms(1,4)])
qed

definition open_row :: "plan \<Rightarrow> int \<Rightarrow> trial_row" where
  "open_row p b = \<lparr>tr_plan = p, tr_request = None, tr_started = b, tr_ended = None\<rparr>"

definition fresh :: "string \<Rightarrow> trial_row list \<Rightarrow> bool" where
  "fresh i rows \<longleftrightarrow> \<not> list_ex (trial_named i) rows"

lemma at_point_open:
  assumes c: "clock_up H" and x: "X \<or> fresh (pl_trial p) rows \<and> smooth H n" and v: "at_point H rows recs b c v"
    and "\<And>x w. b \<le> x \<Longrightarrow> fresh (pl_trial p) rows \<Longrightarrow> at_point H (rows @ [open_row p x]) recs x c w \<Longrightarrow>
       wp m Q (\<lambda>_ _. X) w"
  shows "wp (thn (open_trial H p) m) Q (\<lambda>_ _. X) v"
  using v x assms(4)[of "hx_now H (lb_hist v)"] clock_up_app[OF c, of "lb_hist v" "[HvDb]"]
  by (auto simp: open_trial_def put_def wp_simps at_point_def open_row_def fresh_def smooth_def split: written.split)

lemma find_last: "fresh i rows \<Longrightarrow> trial_named i r \<Longrightarrow> find (trial_named i) (rows @ [r]) = Some r"
  unfolding fresh_def by (induction rows) auto

lemma update_last:
  "fresh i rows \<Longrightarrow> trial_named i r \<Longrightarrow> lb_trials s = rows @ [r] \<Longrightarrow>
     lb_trials (update_trial i f s) = rows @ [f r]"
  by (auto simp: update_trial_def list_ex_iff fresh_def intro: map_idI)

lemma update_keeps [simp]: "lb_saved (update_trial i f s) = lb_saved s" "lb_hist (update_trial i f s) = lb_hist s"
  by (simp_all add: update_trial_def)

lemma at_point_bind:
  assumes c: "clock_up H" and x: "X \<or> smooth H m'" and v: "at_point H (rows @ [r]) recs b c v"
    and n: "fresh i rows" "trial_named i r" "tr_request r = None"
    and k: "\<And>w. at_point H (rows @ [r\<lparr>tr_request := Some q\<rparr>]) recs b c w \<Longrightarrow> wp m Q (\<lambda>_ _. X) w"
  shows "wp (thn (bind_request H i q) m) Q (\<lambda>_ _. X) v"
  using v x n(3) find_last[OF n(1,2)] update_last[OF n(1,2)] clock_up_app[OF c, of "lb_hist v" "[HvDb, HvDb]"]
  by (auto simp: bind_request_def one_trial_def put_def wp_simps at_point_def smooth_def intro!: k split: written.split)

lemma at_point_close:
  assumes c: "clock_up H" and x: "X \<or> smooth H m'" and v: "at_point H (rows @ [r]) recs b c v"
    and n: "fresh i rows" "trial_named i r" "tr_ended r = None"
    and k: "\<And>x w. b \<le> x \<Longrightarrow> at_point H (rows @ [r\<lparr>tr_ended := Some x\<rparr>]) recs x c w \<Longrightarrow> wp m Q (\<lambda>_ _. X) w"
  shows "wp (thn (close_trial H i) m) Q (\<lambda>_ _. X) v"
proof -
  let ?x = "hx_now H (HvDb # lb_hist v)"
  show ?thesis
    using v x n(3) find_last[OF n(1,2)] update_last[OF n(1,2)] clock_up_app[OF c, of "lb_hist v" "[HvDb]"]
      clock_up_app[OF c, of "HvDb # lb_hist v" "[HvDb]"]
    by (auto simp: close_trial_def one_trial_def put_def wp_simps at_point_def smooth_def intro!: k[of ?x] split: written.split)
qed

section \<open>The observation\<close>

text \<open>What was seen has been judged.\<close>

definition sound_watch :: "watch \<Rightarrow> bool" where
  "sound_watch w \<longleftrightarrow> (wt_declared w = None \<longleftrightarrow> wt_value w = None) \<and> (wt_judged w = None \<longleftrightarrow> wt_value w = None)"

lemma wp_lab_any: "(\<And>x t. Q x t) \<Longrightarrow> wp m Q (\<lambda>_ _. True) s"
  by (rule wp_weaken[OF wp_True]) simp_all

lemma look_once_sound: "sound_watch w \<Longrightarrow> wp (look_once H a w) (\<lambda>w' _. sound_watch w') (\<lambda>_ _. True) s"
  unfolding look_once_def Let_def answer_def
  by (auto simp: wp_simps sound_watch_def intro!: wp_lab_any split: option.split)

lemma observe_sound: "sound_watch w \<Longrightarrow> wp (observe H a t0 n w) (\<lambda>w' _. sound_watch w') (\<lambda>_ _. True) s"
proof (induction n arbitrary: w s)
  case (Suc n)
  have l: "wp (look_once H a w) (\<lambda>w'. wp (observe H a t0 n w') (\<lambda>w' _. sound_watch w') (\<lambda>_ _. True)) (\<lambda>_ _. True) u" for u
    by (rule wp_weaken[OF look_once_sound[OF Suc.prems]]) (auto intro: Suc.IH)
  show ?case using Suc.prems l by (auto simp: wp_simps must_def)
qed (simp add: wp_simps)

text \<open>Every round takes time, so that the observation ends.\<close>

lemma observe_returns:
  assumes "clock_up H" "smooth H m" "t0 + pl_horizon (ra_plan a) \<le> hx_clock H (lb_hist s) + int n"
  shows "wp (observe H a t0 (Suc n) w) (\<lambda>_ _. True) (\<lambda>_ _. False) s"
  using assms(3)
proof (induction n arbitrary: w s)
  case (Suc n)
  let ?t = "hx_clock H (lb_hist s)" and ?h = "HvAdvance # HvClock # lb_hist s"
  have up: "?t + 1 \<le> hx_clock H ?h" "hx_clock H ?h \<le> hx_clock H (HvPoll # ?h)" "hx_advance H h" "hx_poll H h" for h
    using assms(1,2) unfolding clock_up_def smooth_def by (smt (verit))+
  have round: "wp (look_once H a w) (\<lambda>w'. wp (observe H a t0 (Suc n) w') (\<lambda>_ _. True) (\<lambda>_ _. False)) (\<lambda>_ _. False) u"
    if "?t + 1 \<le> hx_clock H (lb_hist u)" for u
  proof -
    have "wp (look_once H a w) (\<lambda>_ v. onward looking u v \<and> True) (\<lambda>_ v. onward looking u v \<and> False) u"
      by (rule wp_conj[OF moves_wp[OF moves_observations(4)]]) (use returns_ports(9)[OF assms(2)] in \<open>simp add: returns_def\<close>)
    then show ?thesis
    proof (rule wp_weaken)
      fix w' v assume "onward looking u v \<and> True"
      then obtain b where "lb_hist v = b @ lb_hist u" by (auto simp: onward_def prepended_def)
      with clock_up_app(2)[OF assms(1), of "lb_hist u" b] that Suc.prems
      show "wp (observe H a t0 (Suc n) w') (\<lambda>_ _. True) (\<lambda>_ _. False) v" by (intro Suc.IH) simp
    qed simp
  qed
  show ?case
    unfolding observe.simps(2)[of _ _ _ "Suc n"]
    using up round by (auto simp: wp_simps must_def simp del: observe.simps)
qed (simp add: wp_simps)

lemma at_point_observe:
  assumes c: "clock_up H" and x: "X \<or> smooth H (pl_horizon (ra_plan a))" and v: "at_point H rows recs b t0 v"
    and k: "\<And>w u. at_point H rows recs b t0 u \<Longrightarrow> sound_watch w \<Longrightarrow> wp (f w) Q (\<lambda>_ _. X) u"
  shows "wp (bnd (observe H a t0 (hx_fuel H) watch_start) f) Q (\<lambda>_ _. X) v"
proof -
  have w: "sound_watch watch_start" by (simp add: sound_watch_def watch_start_def)
  have "wp (observe H a t0 (hx_fuel H) watch_start) (\<lambda>_ _. True) (\<lambda>_ _. X) v"
  proof (cases X)
    case False
    with x obtain n where n: "smooth H (pl_horizon (ra_plan a))" "hx_fuel H = Suc n" "pl_horizon (ra_plan a) \<le> int n"
      by (auto simp: smooth_def)
    then have "t0 + pl_horizon (ra_plan a) \<le> hx_clock H (lb_hist v) + int n" using v by (simp add: at_point_def)
    from observe_returns[OF c n(1) this] show ?thesis unfolding n(2) by (rule wp_weaken) simp_all
  qed simp
  from wp_conj[OF wp_conj[OF moves_wp[OF moves_observe] observe_sound[OF w]] this] show ?thesis
    unfolding wp_bnd by (rule wp_weaken) (auto intro: k at_point_onward[OF c v])
qed

lemma at_point_clock:
  assumes c: "clock_up H" and v: "at_point H rows recs b t0 v"
    and k: "\<And>t w. at_point H rows recs b t w \<Longrightarrow> wp (f t) Q R w"
  shows "wp (bnd (port HvClock (hx_clock H)) f) Q R v"
  using v clock_up_app[OF c, of "lb_hist v" "[HvClock]"] by (auto simp: wp_simps at_point_def intro!: k)

section \<open>The record\<close>

text \<open>A declaration was judged when it was seen, and a trial counts as verified only if it was declared and was
  judged as passed then or at the end.\<close>

definition sound_record :: "trial_record \<Rightarrow> bool" where
  "sound_record x \<longleftrightarrow> (rc_declared x = None \<longleftrightarrow> rc_value x = None) \<and> (rc_at_declaration x = None \<longleftrightarrow> rc_value x = None) \<and>
     (\<forall>v. rc_verified x = Some v \<longrightarrow> rc_value x \<noteq> None \<and>
        (rc_declared x = Some v \<and> (\<exists>e. rc_at_declaration x = Some e \<and> ev_verdict e = VPass) \<or>
         v = rc_end x \<and> ev_verdict (rc_at_horizon x) = VPass))"

lemma verified_sound: "sound_watch w \<Longrightarrow> verified_at w h t = Some v \<Longrightarrow> wt_value w \<noteq> None \<and>
    (wt_declared w = Some v \<and> (\<exists>e. wt_judged w = Some e \<and> ev_verdict e = VPass) \<or> v = t \<and> ev_verdict h = VPass)"
  by (auto simp: verified_at_def sound_watch_def split: option.splits if_splits)

lemma built_sound:
  assumes "sound_watch w"
  shows "sound_record \<lparr>rc_plan = p, rc_request = q, rc_submitted = t0, rc_declared = wt_declared w,
    rc_verified = verified_at w h t1, rc_end = t1, rc_value = wt_value w, rc_at_declaration = wt_judged w,
    rc_at_horizon = h, rc_samples = ss, rc_environment = en, rc_start = st, rc_injection = ij, rc_scenario = sc,
    rc_snapshots = sn, rc_protection = pr\<rparr>"
  using assms verified_sound[OF assms] by (auto simp: sound_record_def sound_watch_def)

definition closed_row :: "plan \<Rightarrow> string \<Rightarrow> int \<Rightarrow> int \<Rightarrow> trial_row" where
  "closed_row p q b e = \<lparr>tr_plan = p, tr_request = Some q, tr_started = b, tr_ended = Some e\<rparr>"

lemma wp_body:
  assumes c: "clock_up H" and x: "X \<or> smooth H (pl_horizon (ra_plan a))"
    and sub: "\<And>v. wp submit (\<lambda>q w. onward looking v w \<and> S q) (\<lambda>_ _. X) v"
    and v: "at_point H (rows @ [open_row (ra_plan a) b]) recs b t v" and n: "fresh (pl_trial (ra_plan a)) rows"
  shows "wp (trial_body H a submit en before prot)
     (\<lambda>x t. \<exists>e. b \<le> e \<and> (\<exists>t'. at_point H (rows @ [closed_row (ra_plan a) (rc_request x) b e]) recs e t' t) \<and>
        S (rc_request x) \<and> rc_plan x = ra_plan a \<and> rc_start x = ra_start a \<and> sound_record x) (\<lambda>_ _. X) v"
proof -
  have rep: "moves (onward looking) (if ra_injector a then bnd (answer HvReport (hx_report H)) (\<lambda>v. ret (Some v)) else ret None)"
    by (intro moves_intros) simp
  have rep': "X \<or> returns (if ra_injector a then bnd (answer HvReport (hx_report H)) (\<lambda>v. ret (Some v)) else ret None)"
    using x returns_ports(5) by (auto intro!: returns_bnd)
  have eval: "X \<or> returns (evaluate H k tg)" "X \<or> returns (judge_protection H a)" "X \<or> returns (take_snapshot H a)" for k tg
    using returns_evaluations returns_observations by simp_all
  have submitted: "wp (bnd submit f) Q (\<lambda>_ _. X) u"
    if "at_point H rs recs b t u" "\<And>q w. at_point H rs recs b t w \<Longrightarrow> S q \<Longrightarrow> wp (f q) Q (\<lambda>_ _. X) w" for u rs t f Q
    unfolding wp_bnd by (rule wp_weaken[OF sub]) (auto intro: that(2) at_point_onward[OF c that(1)])
  show ?thesis
    unfolding trial_body_def
    apply (rule at_point_clock[OF c v])
    apply (erule submitted)
    apply (erule at_point_bind[OF c x _ n])
      apply (simp_all add: trial_named_def open_row_def)[2]
    apply (erule at_point_observe[OF c x])
    apply (erule at_point_clock[OF c])
    apply (erule at_point_seq[OF c moves_evaluations(4) eval(1)])
    apply (erule at_point_seq[OF c moves_observations(2) eval(2)])
    apply (erule at_point_close[OF c x _ n])
      apply (simp_all add: trial_named_def open_row_def)[2]
    apply (erule at_point_seq[OF c moves_observations(3) eval(3)])
    apply (erule at_point_seq[OF c rep rep'])
    apply (simp add: wp_simps open_row_def closed_row_def built_sound)
    apply blast
    done
qed

text \<open>A trial that returns: its row is there, bound and closed, and its record is saved.\<close>

definition trial_written :: "harness \<Rightarrow> trial_args \<Rightarrow> int \<Rightarrow> int \<Rightarrow> lab \<Rightarrow> trial_record \<Rightarrow> lab \<Rightarrow> bool" where
  "trial_written H a b e s x t \<longleftrightarrow> lb_trials t = lb_trials s @ [closed_row (ra_plan a) (rc_request x) b e] \<and>
     lb_saved t = x # lb_saved s \<and> hx_now H (lb_hist s) \<le> b \<and> b \<le> e \<and> e \<le> hx_now H (lb_hist t) \<and>
     rc_plan x = ra_plan a \<and> rc_start x = ra_start a \<and> sound_record x"

lemma wp_run_trial:
  assumes c: "clock_up H"
    and x: "X \<or> smooth H (pl_horizon (ra_plan a)) \<and> fresh (pl_trial (ra_plan a)) (lb_trials s) \<and> \<not> bad_arguments a"
    and sub: "\<And>v. wp submit (\<lambda>q w. onward looking v w \<and> S q) (\<lambda>_ _. X) v"
  shows "wp (run_trial H a submit) (\<lambda>x t. S (rc_request x) \<and> (\<exists>b e. trial_written H a b e s x t)) (\<lambda>_ _. X) s"
proof -
  let ?Q = "\<lambda>x t. S (rc_request x) \<and> (\<exists>b e. trial_written H a b e s x t)"
  let ?arm = "if ra_injector a then must HvArm (hx_arm H) else ret ()"
    and ?disarm = "if ra_injector a then must HvDisarm (hx_disarm H) else ret ()"
  have any: "moves (onward (\<lambda>_. True)) ?arm" "moves (onward (\<lambda>_. True)) ?disarm" by (intro moves_intros; simp)+
  have ret: "X \<or> returns ?arm" "X \<or> returns ?disarm" using x returns_ports by auto
  have obs: "X \<or> returns (judge_environment H)" "X \<or> returns (judge_protection H a)" "X \<or> returns (take_snapshot H a)"
    using returns_observations by simp_all
  have saved: "wp (thn (save_record H y) (ret y)) ?Q (\<lambda>_ _. X) v"
    if "hx_now H (lb_hist s) \<le> b" "b \<le> e" "S (rc_request y)" "rc_plan y = ra_plan a" "rc_start y = ra_start a" "sound_record y"
      "at_point H (lb_trials s @ [closed_row (ra_plan a) (rc_request y) b e]) (lb_saved s) e t' v" for y b e v t'
  proof -
    have "trial_written H a b e s y (v\<lparr>lb_hist := HvSave # lb_hist v, lb_saved := y # lb_saved v\<rparr>)"
      using that clock_up_app(1)[OF c, of "lb_hist v" "[HvSave]"] by (simp add: at_point_def trial_written_def)
    with that(3) x show ?thesis by (auto simp: save_record_def put_def wp_simps smooth_def split: written.split)
  qed
  have start: "at_point H (lb_trials s) (lb_saved s) (hx_now H (lb_hist s)) (hx_clock H (lb_hist s)) s"
    by (simp add: at_point_def)
  have run: "wp (bnd (finallyE (trial_body H a submit en before prot) ?disarm) (\<lambda>r. thn (save_record H r) (ret r))) ?Q (\<lambda>_ _. X) w"
    if b: "hx_now H (lb_hist s) \<le> b" "fresh (pl_trial (ra_plan a)) (lb_trials s)"
      "at_point H (lb_trials s @ [open_row (ra_plan a) b]) (lb_saved s) b t w" for b t w en before prot
    unfolding wp_bnd wp_finallyE
  proof (rule wp_weaken[OF wp_body[OF c _ sub b(3,2)]], goal_cases)
    case (2 y v)
    then obtain e t' where y: "b \<le> e" "at_point H (lb_trials s @ [closed_row (ra_plan a) (rc_request y) b e]) (lb_saved s) e t' v"
      "S (rc_request y)" "rc_plan y = ra_plan a" "rc_start y = ra_start a" "sound_record y" by blast
    have "wp (bnd ?disarm (\<lambda>_. thn (save_record H y) (ret y))) ?Q (\<lambda>_ _. X) v"
      by (rule at_point_seq[OF c any(2) ret(2) y(2)]) (rule saved[OF b(1) y(1,3-6)])
    then show ?case by (simp only: wp_bnd)
  next
    case (3 e v)
    then show ?case using wp_weaken[of ?disarm "\<lambda>_ _. True" "\<lambda>_ _. True" v "\<lambda>_ _. X" "\<lambda>_ _. X"] by simp
  qed (use x in auto)
  show ?thesis
  proof (cases "bad_arguments a")
    case False
    have o: "X \<or> fresh (pl_trial (ra_plan a)) (lb_trials s) \<and> smooth H (pl_horizon (ra_plan a))" using x by blast
    show ?thesis
      unfolding run_trial_def if_not_P[OF False] thn_def[of ?arm]
      apply (rule at_point_seq[OF c moves_observations(1) obs(1) start])
      apply (erule at_point_seq[OF c moves_observations(3) obs(3)])
      apply (erule at_point_seq[OF c moves_observations(2) obs(2)])
      apply (erule at_point_open[OF c o])
      apply (erule at_point_seq[OF c any(1) ret(1)])
      apply (erule (2) run)
      done
  qed (use x in \<open>simp add: run_trial_def wp_simps\<close>)
qed

section \<open>A pair of trials\<close>

definition pair_written :: "pair_args \<Rightarrow> lab \<Rightarrow> trial_record \<Rightarrow> trial_record \<Rightarrow> lab \<Rightarrow> bool" where
  "pair_written p s c r t \<longleftrightarrow> (\<exists>bc ec br er.
     lb_trials t = lb_trials s @ [closed_row (ra_plan (creation_args p)) (rc_request c) bc ec,
       closed_row (ra_plan (revocation_args p c)) (rc_request c) br er] \<and>
     bc \<le> ec \<and> ec \<le> br \<and> br \<le> er \<and> lb_saved t = r # c # lb_saved s \<and> rc_request r = rc_request c \<and>
     rc_start r = Some (pa_create_id p, ev_verdict (rc_at_horizon c)) \<and> sound_record c \<and> sound_record r)"

text \<open>The numbers are new and the scenarios those of the specifications.\<close>

definition pair_fresh :: "pair_args \<Rightarrow> lab \<Rightarrow> bool" where
  "pair_fresh p s \<longleftrightarrow> pa_create_id p \<noteq> pa_revoke_id p \<and> fresh (pa_create_id p) (lb_trials s) \<and>
     fresh (pa_revoke_id p) (lb_trials s) \<and>
     (\<forall>i h. pa_create_spec p = Some (i, h) \<longrightarrow> pa_create_scenario p \<in> {None, Some i}) \<and>
     (\<forall>i h. pa_revoke_spec p = Some (i, h) \<longrightarrow> pa_revoke_scenario p \<in> {None, Some i})"

lemma submitted:
  "X \<or> smooth H n \<Longrightarrow> wp (submit_creation H) (\<lambda>q w. onward looking v w \<and> True) (\<lambda>_ _. X) v"
  "X \<or> smooth H n \<Longrightarrow> wp (submit_revocation H k) (\<lambda>q w. onward looking v w \<and> q = k) (\<lambda>_ _. X) v"
proof -
  have o: "onward looking v (v\<lparr>lb_hist := ev # lb_hist v\<rparr>)" if "looking ev" for ev
    using that by (simp add: onward_def)
  have some: "hx_submit H (lb_hist v) \<noteq> None" "hx_resubmit H k (lb_hist v) = Some k" if "smooth H n"
    using that unfolding smooth_def by blast+
  show "X \<or> smooth H n \<Longrightarrow> wp (submit_creation H) (\<lambda>q w. onward looking v w \<and> True) (\<lambda>_ _. X) v"
    by (cases "hx_submit H (lb_hist v)") (use some(1) in \<open>auto simp: submit_creation_def answer_def wp_simps o\<close>)
  show "X \<or> smooth H n \<Longrightarrow> wp (submit_revocation H k) (\<lambda>q w. onward looking v w \<and> q = k) (\<lambda>_ _. X) v"
    by (cases "hx_resubmit H k (lb_hist v)") (use some(2) in \<open>auto simp: submit_revocation_def answer_def wp_simps o\<close>)
qed

lemma wp_run_pair:
  assumes c: "clock_up H" and x: "X \<or> smooth H (pa_horizon p) \<and> pair_fresh p s"
  shows "wp (run_pair H p) (\<lambda>(y, z) t. pair_written p s y z t) (\<lambda>_ _. X) s"
proof -
  let ?c = "creation_args p" and ?r = "revocation_args p"
  have first: "X \<or> smooth H (pl_horizon (ra_plan ?c)) \<and> fresh (pl_trial (ra_plan ?c)) (lb_trials s) \<and> \<not> bad_arguments ?c"
    using x by (auto simp: creation_args_def pair_fresh_def bad_arguments_def split: option.split)
  have sm: "X \<or> smooth H (pa_horizon p)" using x by blast
  show ?thesis
    unfolding run_pair_def wp_bnd
  proof (rule wp_weaken[OF wp_run_trial[OF c first submitted(1)[OF sm]]], elim conjE exE)
    fix y u b e assume y: "trial_written H ?c b e s y u"
    have second: "X \<or> smooth H (pl_horizon (ra_plan (?r y))) \<and> fresh (pl_trial (ra_plan (?r y))) (lb_trials u) \<and>
        \<not> bad_arguments (?r y)"
      using x y by (auto simp: revocation_args_def creation_args_def pair_fresh_def bad_arguments_def trial_written_def
          fresh_def trial_named_def closed_row_def split: option.split)
    show "wp (run_trial H (?r y) (submit_revocation H (rc_request y)))
        (\<lambda>z. wp (ret (y, z)) (\<lambda>(y, z) t. pair_written p s y z t) (\<lambda>_ _. X)) (\<lambda>_ _. X) u"
    proof (rule wp_weaken[OF wp_run_trial[OF c second submitted(2)[OF sm]]], elim conjE exE)
      fix z t b' e' assume z: "rc_request z = rc_request y" "trial_written H (?r y) b' e' u z t"
      have "ra_start (?r y) = Some (pa_create_id p, ev_verdict (rc_at_horizon y))" by (simp add: revocation_args_def)
      with y z show "wp (ret (y, z)) (\<lambda>(y, z) t. pair_written p s y z t) (\<lambda>_ _. X) t"
        unfolding wp_ret pair_written_def prod.case
        by - (rule exI[where x = b], rule exI[where x = e], rule exI[where x = b'], rule exI[where x = e'],
          auto simp: trial_written_def)
    qed
  qed
qed

text \<open>C37: A pair of trials that returns has left exactly two new rows and two new records, in the order of the trials: both rows are bound to the request of the creation and closed, the window of the revocation begins when that of the creation has ended or later, the record of the revocation names the creation and its verdict, and in both records a declaration was judged when it was seen and a verified time goes back to a declaration and a passed judgement. In a world where nothing fails and time passes the pair does return.\<close>

theorem pair_in_order:
  assumes "clock_up H"
  shows "(\<forall>c r t. run_pair H p s = (Inr (c, r), t) \<longrightarrow> pair_written p s c r t) \<and>
    (smooth H (pa_horizon p) \<and> pair_fresh p s \<longrightarrow> (\<exists>c r t. run_pair H p s = (Inr (c, r), t)))"
proof (intro conjI allI impI)
  fix c r t assume "run_pair H p s = (Inr (c, r), t)"
  from wp_Inr[OF wp_run_pair[OF assms, of True] this] show "pair_written p s c r t" by simp
next
  assume "smooth H (pa_horizon p) \<and> pair_fresh p s"
  then have "wp (run_pair H p) (\<lambda>(y, z) t. pair_written p s y z t) (\<lambda>_ _. False) s"
    by (intro wp_run_pair[OF assms]) simp
  then show "\<exists>c r t. run_pair H p s = (Inr (c, r), t)"
    by (auto simp: wp_def split: prod.splits sum.splits)
qed

text \<open>A world where everything answers, and a clock that counts the events.\<close>

definition calm :: harness where
  "calm = \<lparr>hx_collect = (\<lambda>n u h. Said ''PASS'' None), hx_environment = (\<lambda>h. None), hx_snapshot = (\<lambda>h. SnapFailed),
     hx_db = (\<lambda>h. WrDone), hx_now = (\<lambda>h. int (length h)), hx_arm = (\<lambda>h. True), hx_poll = (\<lambda>h. True),
     hx_report = (\<lambda>h. Some True), hx_disarm = (\<lambda>h. True), hx_clock = (\<lambda>h. int (length h)), hx_submit = (\<lambda>h. Some ''7''),
     hx_resubmit = (\<lambda>q h. Some q), hx_advance = (\<lambda>h. True), hx_declaration = (\<lambda>h. Some (Some ''FULFILLED'')),
     hx_save = (\<lambda>h. WrDone), hx_fuel = Suc 3\<rparr>"

definition pair0 :: pair_args where
  "pair0 = \<lparr>pa_create_id = ''c'', pa_revoke_id = ''r'', pa_create_scenario = None, pa_revoke_scenario = None,
     pa_create_spec = None, pa_revoke_spec = None, pa_create_injector = False, pa_revoke_injector = True,
     pa_method = ''full'', pa_group = ''A'', pa_horizon = 3, pa_repetition = 1, pa_revisions = [], pa_user = ''kim'',
     pa_snapshot = False, pa_bystanders = None\<rparr>"

definition lab0 :: lab where
  "lab0 = \<lparr>lb_hist = [], lb_trials = [], lb_saved = []\<rparr>"

lemma calm_laws: "clock_up calm" "smooth calm 3" "pair_fresh pair0 lab0"
  by (simp_all add: clock_up_def calm_def smooth_def pair_fresh_def pair0_def lab0_def fresh_def)

theorem pair_in_order_witness:
  "\<exists>c r t. run_pair calm pair0 lab0 = (Inr (c, r), t) \<and> pair_written pair0 lab0 c r t"
  using pair_in_order[OF calm_laws(1), of pair0 lab0] calm_laws(2,3) by (auto simp: pair0_def)

text \<open>The revocation of the pair alone, with its injector.\<close>

theorem fault_disarmed_witness:
  "\<exists>x t. run_trial calm ((creation_args pair0)\<lparr>ra_injector := True\<rparr>) (submit_creation calm) lab0 = (Inr x, t) \<and>
     armed_then_disarmed calm lab0 t"
proof -
  let ?a = "(creation_args pair0)\<lparr>ra_injector := True\<rparr>"
  have "wp (run_trial calm ?a (submit_creation calm)) (\<lambda>x t. True \<and> (\<exists>b e. trial_written calm ?a b e lab0 x t)) (\<lambda>_ _. False) lab0"
    by (rule wp_run_trial[OF calm_laws(1) _ submitted(1)])
      (use calm_laws in \<open>auto simp: creation_args_def pair0_def bad_arguments_def lab0_def fresh_def\<close>)
  then obtain x t where r: "run_trial calm ?a (submit_creation calm) lab0 = (Inr x, t)"
    by (auto simp: wp_def split: prod.splits sum.splits)
  with fault_disarmed[OF plain_submits(1) r] show ?thesis by simp
qed

end
