(* ===== verification/Verify_Props.thy ===== *)
theory Verify_Props
  imports Verify Port_Facts Traces Samples
begin

text \<open>
  The property of the verification of a revocation, with its instance.
\<close>

section \<open>What an answer says\<close>

text \<open>The request \<open>ev\<close> was sent, at a moment whose history satisfies \<open>P\<close>.\<close>

definition seen :: "st \<Rightarrow> event \<Rightarrow> (history \<Rightarrow> bool) \<Rightarrow> bool" where
  "seen t ev P \<longleftrightarrow> (\<exists>later h. hist t = later @ ev # h \<and> P h)"

lemma seen_now: "hist t = ev # h \<Longrightarrow> P h \<Longrightarrow> seen t ev P"
  unfolding seen_def by (metis append_Nil)

lemma seen_later: "seen t ev P \<Longrightarrow> hist u = xs @ hist t \<Longrightarrow> seen u ev P"
  unfolding seen_def by (metis append.assoc)

lemma seen_step: "seen t ev P \<Longrightarrow> hist u = x # hist t \<Longrightarrow> seen u ev P"
  using seen_later[of t ev P u "[x]"] by simp

definition refused :: "env \<Rightarrow> string \<Rightarrow> int \<Rightarrow> st \<Rightarrow> bool" where
  "refused E host p t \<longleftrightarrow> seen t (EvTcp host p) (\<lambda>h. \<not> fst (x_tcp E host p h))"

definition reached :: "env \<Rightarrow> string \<Rightarrow> st \<Rightarrow> bool" where
  "reached E host t \<longleftrightarrow> seen t (EvTcp host (cfg_node_port E host)) (\<lambda>h. fst (x_tcp E host (cfg_node_port E host) h))"

lemma wp_tcp: "wp (tcp_check E host p) Q R = (\<lambda>s. Q (x_tcp E host p (hist s)) (s\<lparr>hist := EvTcp host p # hist s\<rparr>))"
  by (simp add: tcp_check_def wp_ext fun_eq_iff)

text \<open>Only looking: the state is the same but for the longer history.\<close>

definition looked :: "st \<Rightarrow> st \<Rightarrow> bool" where
  "looked s t \<longleftrightarrow> (\<exists>xs. t = s\<lparr>hist := xs @ hist s\<rparr>)"

lemma looked_refl: "looked s s"
  unfolding looked_def by (rule exI[of _ "[]"]) simp

lemma looked_step:
  assumes "looked s t"
  shows "looked s (t\<lparr>hist := x # hist t\<rparr>)"
proof -
  from assms obtain xs where "t = s\<lparr>hist := xs @ hist s\<rparr>" by (auto simp: looked_def)
  then have "t\<lparr>hist := x # hist t\<rparr> = s\<lparr>hist := (x # xs) @ hist s\<rparr>" by simp
  then show ?thesis unfolding looked_def by blast
qed

lemma wp_try_ports:
  assumes "looked s t"
  shows "wp (mapM ports (\<lambda>p. bnd (tcp_check E host p) (\<lambda>r. ret (fst r))))
    (\<lambda>opened u. looked s u \<and> (\<exists>xs. hist u = xs @ hist t) \<and> (True \<notin> set opened \<longrightarrow> (\<forall>p\<in>set ports. refused E host p u)))
    (\<lambda>_ _. False) t"
  using assms
proof (induction ports arbitrary: t)
  case Nil
  then show ?case by (simp add: wp_ret)
next
  case (Cons p ports)
  let ?u = "t\<lparr>hist := EvTcp host p # hist t\<rparr>"
  have p: "refused E host p u" if "\<not> fst (x_tcp E host p (hist t))" "hist u = xs @ hist ?u" for u xs
    unfolding refused_def using seen_later[OF seen_now[of ?u] that(2)] that(1) by simp
  show ?case unfolding mapM.simps wp_bnd wp_tcp wp_ret
    by (rule wp_weaken[OF Cons.IH[OF looked_step[OF Cons.prems]]]) (auto intro: p)
qed

text \<open>What a check that answers \<open>True\<close> has seen of the Pod \<open>pod\<close> whose old ports were \<open>ports\<close>: \<open>t0\<close> is the table
  it started with.\<close>

definition node_known :: "string option \<Rightarrow> string option \<Rightarrow> string option" where
  "node_known a b = (if some_text a then a else if some_text b then b else None)"

definition is_held :: "string \<Rightarrow> int \<Rightarrow> st \<Rightarrow> bool" where
  "is_held pod p t \<longleftrightarrow> (\<exists>r\<in>set (nodeports t). np_port r = p \<and> np_pod r \<noteq> pod)"

definition shut :: "env \<Rightarrow> string \<Rightarrow> string option \<Rightarrow> int list \<Rightarrow> st \<Rightarrow> bool" where
  "shut E pod node ports t \<longleftrightarrow> (\<forall>p\<in>set ports. is_held pod p t \<or> node = None \<or>
     (\<exists>host. node = Some host \<and> reached E host t \<and> refused E host p t))"

definition looks_gone :: "env \<Rightarrow> string \<Rightarrow> nodeport list \<Rightarrow> st \<Rightarrow> bool" where
  "looks_gone E pod t0 t \<longleftrightarrow>
     seen t (EvReadPod pod) (\<lambda>h. \<exists>e. x_read_pod E pod h = Inl e \<and> is_api_status 404 e) \<and>
     pod \<notin> svc_pod ` set (services t) \<and> seen t EvAppDb (\<lambda>h. pod \<notin> np_pod ` set (x_nodeports E h t0))"

lemma rows_of_Nil: "rows_of pod t = [] \<longleftrightarrow> pod \<notin> np_pod ` set t"
  by (auto simp: rows_of_def filter_empty_conv)

lemma wp_ports_closed:
  "wp (ports_closed E host ports)
     (\<lambda>b u. looked s u \<and> (b \<longrightarrow> reached E host u \<and> (\<forall>p\<in>set ports. refused E host p u))) (\<lambda>_ _. True) s"
proof -
  let ?u = "s\<lparr>hist := EvTcp host (cfg_node_port E host) # hist s\<rparr>"
  have r: "reached E host u" if "fst (x_tcp E host (cfg_node_port E host) (hist s))" "hist u = xs @ hist ?u" for u xs
    unfolding reached_def using seen_later[OF seen_now[of ?u] that(2)] that(1) by simp
  have "looked s ?u" by (rule looked_step[OF looked_refl])
  from wp_try_ports[OF this, of ports E host] r
  have "wp (mapM ports (\<lambda>p. bnd (tcp_check E host p) (\<lambda>r. ret (fst r))))
    (\<lambda>opened u. looked s u \<and> (True \<notin> set opened \<longrightarrow> fst (x_tcp E host (cfg_node_port E host) (hist s)) \<longrightarrow>
       reached E host u \<and> (\<forall>p\<in>set ports. refused E host p u))) (\<lambda>_ _. True) ?u"
    by (elim wp_weaken) blast+
  then show ?thesis
    unfolding ports_closed_def wp_bnd[of "tcp_check E host (cfg_node_port E host)"] wp_tcp
    using looked_step[OF looked_refl, of s]
    by (auto simp: wp_if wp_ret wp_bnd[of "mapM _ _"] split: prod.split elim: wp_weaken)
qed

lemma gone_later: "looks_gone E pod t0 t \<Longrightarrow> hist u = xs @ hist t \<Longrightarrow> services u = services t \<Longrightarrow> looks_gone E pod t0 u"
  by (auto simp: looks_gone_def intro: seen_later)

lemma shut_later: "shut E pod node ports t \<Longrightarrow> hist u = xs @ hist t \<Longrightarrow> nodeports u = nodeports t \<Longrightarrow>
    shut E pod node ports u"
  unfolding shut_def is_held_def reached_def refused_def by (metis seen_later)

lemma wp_try_old_ports:
  assumes "left = filter (\<lambda>p. \<not> is_held pod p s) ports" "node = node_known a b"
  shows "wp (if left \<noteq> [] \<and> some_text (if some_text a then a else b)
         then bnd (get_farm_node_info E (case if some_text a then a else b of None \<Rightarrow> [] | Some n \<Rightarrow> n)) (\<lambda>host.
                ports_closed E host left) else ret True)
    (\<lambda>blocked u. looked s u \<and> (blocked \<longrightarrow> shut E pod node ports u)) (\<lambda>_ _. True) s"
proof -
  have held: "is_held pod p u = is_held pod p s" if "looked s u" for p u
    using that by (auto simp: looked_def is_held_def)
  show ?thesis
  proof (cases "left \<noteq> [] \<and> some_text (if some_text a then a else b)")
    case True
    then obtain host where h: "node = Some host" "(case if some_text a then a else b of None \<Rightarrow> [] | Some n \<Rightarrow> n) = host"
      by (auto simp: assms(2) node_known_def some_text_def split: if_splits option.splits)
    have "wp (ports_closed E host left) (\<lambda>blocked u. looked s u \<and> (blocked \<longrightarrow> shut E pod node ports u)) (\<lambda>_ _. True) s"
      by (rule wp_weaken[OF wp_ports_closed]) (use held h(1) assms(1) in \<open>auto simp: shut_def\<close>)
    then show ?thesis using True unfolding get_farm_node_info_def
      by (auto simp: h(2) wp_bnd wp_if wp_ret wp_throw)
  next
    case False
    then have "left = [] \<or> node = None" by (auto simp: assms(2) node_known_def)
    then have "shut E pod node ports s" by (auto simp: assms(1) filter_empty_conv shut_def)
    with False show ?thesis by (auto simp: wp_ret looked_refl)
  qed
qed

text \<open>The three observations of the resources, one after the other.\<close>

lemma wp_read_gone:
  "wp (gone_unless_read (ext (EvReadPod pod) (x_read_pod E pod)))
    (\<lambda>b u. u = s\<lparr>hist := EvReadPod pod # hist s\<rparr> \<and>
       (b \<longrightarrow> seen u (EvReadPod pod) (\<lambda>h. \<exists>e. x_read_pod E pod h = Inl e \<and> is_api_status 404 e))) (\<lambda>_ _. True) s"
  by (auto simp: gone_unless_read_def wp_bnd wp_attempt wp_ext wp_if wp_ret wp_throw intro: seen_now split: sum.split)

lemma wp_no_services:
  "wp (list_pod_services E pod)
    (\<lambda>vs u. hist u = EvServices # hist s \<and> nodeports u = nodeports s \<and> cx u = cx s \<and> (vs = [] \<longrightarrow> pod \<notin> svc_pod ` set (services u)))
    (\<lambda>_ _. True) s"
  by (auto simp: list_pod_services_def wp_services_call Let_def filter_empty_conv split: io_reply.splits)

lemma wp_no_rows:
  "wp (app_select E (\<lambda>_ t. length (rows_of pod t)))
    (\<lambda>n u. hist u = EvAppDb # hist s \<and> services u = services s \<and> cx u = cx s \<and>
       (n = 0 \<longrightarrow> seen u EvAppDb (\<lambda>h. pod \<notin> np_pod ` set (x_nodeports E h (nodeports s))))) (\<lambda>_ _. True) s"
  by (auto simp: wp_app_select Let_def rows_of_Nil split: io_reply.splits)
    (rule seen_now, simp, simp add: rows_of_Nil)

lemma wp_held:
  "wp (ports_held_by_others E ports pod)
    (\<lambda>held u. (\<exists>xs. hist u = xs @ hist s) \<and> services u = services s \<and> cx u = cx s \<and>
       filter (\<lambda>p. p \<notin> set held) ports = filter (\<lambda>p. \<not> is_held pod p u) ports) (\<lambda>_ _. True) s"
  by (auto simp: ports_held_by_others_def is_held_def wp_if wp_ret wp_app_select Let_def split: io_reply.splits
      intro!: filter_cong)

lemma wp_old_ports_closed:
  "wp (old_ports_closed E pod)
    (\<lambda>b u. (\<exists>xs. hist u = xs @ hist s) \<and> services u = services s \<and>
       (b \<longrightarrow> shut E pod (node_known (c_verify_node (cx s)) (c_node_name (cx s))) (c_verify_ports (cx s)) u)) (\<lambda>_ _. True) s"
  unfolding old_ports_closed_def wp_bnd[of "getC _"] wp_getC prod.case wp_bnd[of "ports_held_by_others _ _ _"] Let_def
  by (rule wp_weaken[OF wp_held], rule wp_weaken[OF wp_try_old_ports[OF _ HOL.refl]])
    (auto simp: looked_def)

lemma wp_check_revoked:
  assumes "c_pod_name (cx s) = Some pod"
  shows "wp (check_revoked E) (\<lambda>ok u. ok \<noteq> None \<and> (ok = Some True \<longrightarrow> looks_gone E pod (nodeports s) u \<and>
      shut E pod (node_known (c_verify_node (cx s)) (c_node_name (cx s))) (c_verify_ports (cx s)) u))
    (\<lambda>_ _. True) s"
proof -
  let ?Q = "\<lambda>ok u. ok \<noteq> None \<and> (ok = Some True \<longrightarrow> looks_gone E pod (nodeports s) u \<and>
      shut E pod (node_known (c_verify_node (cx s)) (c_node_name (cx s))) (c_verify_ports (cx s)) u)"
  let ?R = "\<lambda>_ _. True"
  let ?tail = "\<lambda>absent vs. bnd (app_select E (\<lambda>_ t. length (rows_of pod t))) (\<lambda>n. bnd (old_ports_closed E pod)
    (\<lambda>b. ret (Some (absent \<and> vs = ([] :: service list) \<and> n = 0 \<and> b))))"
  have rest: "wp (?tail absent vs) ?Q ?R u"
    if u: "absent \<longrightarrow> seen u (EvReadPod pod) (\<lambda>h. \<exists>e. x_read_pod E pod h = Inl e \<and> is_api_status 404 e)"
      "vs = [] \<longrightarrow> pod \<notin> svc_pod ` set (services u)" "nodeports u = nodeports s" "cx u = cx s" for absent vs u
    unfolding wp_bnd[of "app_select _ _"] wp_bnd[of "old_ports_closed _ _"] wp_ret
  proof (rule wp_weaken[OF wp_no_rows], rule wp_weaken[OF wp_old_ports_closed])
    fix n v b w
    assume v: "hist v = EvAppDb # hist u \<and> services v = services u \<and> cx v = cx u \<and>
        (n = 0 \<longrightarrow> seen v EvAppDb (\<lambda>h. pod \<notin> np_pod ` set (x_nodeports E h (nodeports u))))"
      and w: "(\<exists>xs. hist w = xs @ hist v) \<and> services w = services v \<and>
        (b \<longrightarrow> shut E pod (node_known (c_verify_node (cx v)) (c_node_name (cx v))) (c_verify_ports (cx v)) w)"
    have "absent \<and> vs = [] \<and> n = 0 \<longrightarrow> looks_gone E pod (nodeports s) v"
      using u v by (auto simp: looks_gone_def intro: seen_step)
    with w show "?Q (Some (absent \<and> vs = [] \<and> n = 0 \<and> b)) w"
      using u(4) v by (auto intro: gone_later)
  qed simp_all
  have listed: "wp (bnd (list_pod_services E pod) (\<lambda>vs. thn (app_stmt E) (?tail absent vs))) ?Q ?R u"
    if "absent \<longrightarrow> seen u (EvReadPod pod) (\<lambda>h. \<exists>e. x_read_pod E pod h = Inl e \<and> is_api_status 404 e)"
      "nodeports u = nodeports s" "cx u = cx s" for absent u
    unfolding wp_bnd[of "list_pod_services _ _"] wp_thn[of "app_stmt E"] wp_app_stmt
  proof (rule wp_weaken[OF wp_no_services])
    fix vs :: "service list" and t :: st
    assume t: "hist t = EvServices # hist u \<and> nodeports t = nodeports u \<and> cx t = cx u \<and>
      (vs = [] \<longrightarrow> pod \<notin> svc_pod ` set (services t))"
    let ?v = "t\<lparr>hist := EvAppDb # hist t\<rparr>"
    have "hist ?v = [EvAppDb, EvServices] @ hist u" using t by simp
    then have "absent \<longrightarrow> seen ?v (EvReadPod pod) (\<lambda>h. \<exists>e. x_read_pod E pod h = Inl e \<and> is_api_status 404 e)"
      using that(1) seen_later by blast
    then have "wp (?tail absent vs) ?Q ?R ?v" by (rule rest) (use t that(2,3) in simp_all)
    then show "case x_app_db E (hist t) of IoOk \<Rightarrow> wp (?tail absent vs) ?Q ?R ?v | IoFailed e \<Rightarrow> True | IoLost e \<Rightarrow> True"
      by (cases "x_app_db E (hist t)") (simp_all only: io_reply.case)
  qed simp
  let ?u = "s\<lparr>hist := EvLoadK8s # hist s\<rparr>"
  have "wp (gone_unless_read (ext (EvReadPod pod) (x_read_pod E pod)))
      (\<lambda>absent. wp (bnd (list_pod_services E pod) (\<lambda>vs. thn (app_stmt E) (?tail absent vs))) ?Q ?R) ?R ?u"
    by (rule wp_weaken[OF wp_read_gone], rule listed) auto
  then show ?thesis
    unfolding check_revoked_def wp_bnd[of "needC _"] wp_needC assms option.case wp_thn[of "load_k8s E"] wp_load_k8s
      wp_bnd[of "gone_unless_read _"] by (cases "x_load_k8s E (hist s)") (simp_all only: option.case)
qed

section \<open>The probe around the check\<close>

text \<open>Rows of the log change nothing the evidence speaks of.\<close>

definition noted :: "st \<Rightarrow> st \<Rightarrow> bool" where
  "noted s t \<longleftrightarrow> (\<exists>xs. hist t = xs @ hist s) \<and> services t = services s \<and> nodeports t = nodeports s \<and> cx t = cx s"

lemma log_probe_noted: "log_probe E act probe ph err s = (r, t) \<Longrightarrow> noted s t"
proof -
  assume r: "log_probe E act probe ph err s = (r, t)"
  have k: "keeps (\<lambda>s. (services s, nodeports s, cx s)) (log_probe E act probe ph err)"
    unfolding log_probe_def log_pod_def by (intro keeps_intros) auto
  have m: "emits (\<lambda>_. True) (log_probe E act probe ph err)"
    unfolding log_probe_def log_pod_def by (intro moves_intros) auto
  show ?thesis using keepsE[OF k r] movesD[OF m r] by (auto simp: noted_def grew_def)
qed

lemma wp_log_probe: "(\<And>t. noted s t \<Longrightarrow> Q () t) \<Longrightarrow> (\<And>e t. noted s t \<Longrightarrow> R e t) \<Longrightarrow> wp (log_probe E act probe ph err) Q R s"
  by (rule wpI) (auto dest: log_probe_noted)

text \<open>C29: a revocation counts as verified only on evidence: the cluster said of the Pod that it does not exist,
  it has no Service, the port table had no row of it, and each of its old external ports is held by another
  Pod by now, or was refused while the ssh port of the same node answered (a dead path is not evidence).
  Only where the node is not known is the state of the resources enough.\<close>

theorem revocation_needs_evidence:
  assumes "step_verify_revoked E s = (Inr (), t)" "c_pod_name (cx s) = Some pod"
  shows "looks_gone E pod (nodeports s) t \<and>
     shut E pod (node_known (c_verify_node (cx s)) (c_node_name (cx s))) (c_verify_ports (cx s)) t"
proof -
  let ?P = "\<lambda>u. looks_gone E pod (nodeports s) u \<and>
     shut E pod (node_known (c_verify_node (cx s)) (c_node_name (cx s))) (c_verify_ports (cx s)) u"
  have later: "?P u \<Longrightarrow> noted u v \<Longrightarrow> ?P v" for u v
    by (auto simp: noted_def intro: gone_later shut_later)
  have check: "wp (check_revoked E) (\<lambda>ok u. ok \<noteq> None \<and> (ok = Some True \<longrightarrow> ?P u)) (\<lambda>_ _. True) u" if "noted s u" for u
    using wp_check_revoked[of u pod E] that assms(2) by (simp add: noted_def)
  have log: "wp (log_probe E act probe ph err) (\<lambda>_ v. P v) R u" if "\<And>v. noted u v \<Longrightarrow> P v" "\<And>e v. R e v" for act probe ph err P R u
    by (rule wp_log_probe) (use that in blast)+
  have judge: "wp (case ok of None \<Rightarrow> log_probe E VERIFY_REVOKED ''revoked'' SUCCESS None
     | Some b \<Rightarrow> thn (log_probe E VERIFY_REVOKED ''revoked'' (if b then SUCCESS else FAIL) None)
         (if \<not> b then throw (infra_failed (probe_step ''revoked'') (probe_step ''revoked'' @ ''_FAILED'') 500 None) else ret ()))
     (\<lambda>_ u. ?P u) (\<lambda>_ _. True) v" if "ok \<noteq> None \<and> (ok = Some True \<longrightarrow> ?P v)" for ok v
  proof -
    from that obtain b where b: "ok = Some b" "b \<longrightarrow> ?P v" by auto
    show ?thesis
    proof (cases b)
      case True
      have "wp (log_probe E VERIFY_REVOKED ''revoked'' SUCCESS None) (\<lambda>_ u. ?P u) (\<lambda>_ _. True) v"
      proof (rule log)
        fix w assume "noted v w"
        with later[of v w] b(2) True show "?P w" by blast
      qed simp
      then show ?thesis by (simp add: b(1) True wp_thn wp_ret)
    next
      case False
      then show ?thesis by (simp add: b(1) wp_thn wp_throw)
    qed
  qed
  have "wp (step_verify_revoked E) (\<lambda>_ u. ?P u) (\<lambda>_ _. True) s"
    unfolding step_verify_revoked_def run_probe_def wp_thn[of "log_probe _ _ _ _ _"] wp_thn[of "whenE _ _"]
      wp_bnd[of "tryE _ _"] wp_tryE
    by (rule log, simp add: wp_whenE, rule wp_weaken[OF check], assumption, rule judge, assumption)
      (simp_all add: wp_thn wp_throw)
  then show ?thesis using assms(1) by (auto simp: wp_def)
qed

text \<open>A Pod that is gone, on a node whose ssh port answers and whose old port 30001 does not.\<close>

definition env_gone :: env where
  "env_gone = env0\<lparr>x_tcp := \<lambda>_ p _. (p = 22, [])\<rparr>"

definition st_gone :: st where
  "st_gone = st0\<lparr>cx := ctx0\<lparr>c_username := ''lee'', c_pod_name := Some ''p'', c_verify_ports := [30001],
     c_verify_node := Some ''farm1''\<rparr>\<rparr>"

theorem revocation_needs_evidence_witness:
  "\<exists>t. step_verify_revoked env_gone st_gone = (Inr (), t) \<and> reached env_gone ''farm1'' t \<and> refused env_gone ''farm1'' 30001 t"
proof -
  obtain r t where r: "step_verify_revoked env_gone st_gone = (r, t)" by fastforce
  have ok: "result_of (step_verify_revoked env_gone) st_gone = Inr ()"
    "nodeports (state_of (step_verify_revoked env_gone) st_gone) = []"
    by (simp_all add: step_verify_revoked_def run_probe_def log_probe_def log_pod_def check_revoked_def
        gone_unless_read_def list_pod_services_def app_stmt_def app_select_def rows_of_def old_ports_closed_def
        ports_held_by_others_def ports_closed_def tcp_check_def get_farm_node_info_def services_call_def load_k8s_def
        some_text_def st_gone_def st0_def env_gone_def env0_def ctx0_def run_calls run_strings)
  have "c_pod_name (cx st_gone) = Some ''p''" by (simp add: st_gone_def)
  with revocation_needs_evidence[of env_gone st_gone t] ok r
  have "shut env_gone ''p'' (Some ''farm1'') [30001] t"
    by (simp add: st_gone_def node_known_def some_text_def)
  with ok r show ?thesis by (simp add: shut_def is_held_def)
qed

end
